(* ===== verification/Py_Prelude.thy ===== *)
theory Py_Prelude
  imports Main "HOL-Library.Product_Lexorder" "HOL-Library.Multiset"
begin

text \<open>
  What every component of the development shares: the simplification collections, the
  Python values and string operations the source uses, and generic facts about tables
  kept as lists of rows (update by key, counting, the first row of an ordered query).
\<close>

section \<open>Collections\<close>

named_theorems store_simps \<open>projections of the table operations of the queue store\<close>
named_theorems store_intros \<open>preservation of the store invariant by the table operations\<close>

section \<open>Identifiers, time and text\<close>

text \<open>
  A UUID is its 128-bit integer (the code orders UUIDs and reads \<open>UUID.int\<close>), a
  \<open>datetime\<close> the number of microseconds since the epoch in UTC, a \<open>str\<close> the list of
  its characters (code points below 256).
\<close>

type_synonym uuid = nat
type_synonym time = int

definition secs :: "int \<Rightarrow> time" where
  "secs n = n * 1000000"

lemma secs_mono [simp]: "secs m \<le> secs n \<longleftrightarrow> m \<le> n"
  by (simp add: secs_def)

lemma secs_pos: "0 < n \<Longrightarrow> 0 < secs n"
  by (simp add: secs_def)

definition is_py_space :: "char \<Rightarrow> bool" where
  "is_py_space c \<longleftrightarrow>
     (let n = (of_char c :: nat)
      in 9 \<le> n \<and> n \<le> 13 \<or> 28 \<le> n \<and> n \<le> 32 \<or> n = 133 \<or> n = 160)"

definition py_strip :: "string \<Rightarrow> string" where
  "py_strip s = rev (dropWhile is_py_space (rev (dropWhile is_py_space s)))"

definition lower_char :: "char \<Rightarrow> char" where
  "lower_char c =
     (let n = (of_char c :: nat)
      in if 65 \<le> n \<and> n \<le> 90 \<or> 192 \<le> n \<and> n \<le> 222 \<and> n \<noteq> 215
         then char_of (n + 32) else c)"

definition py_lower :: "string \<Rightarrow> string" where
  "py_lower s = map lower_char s"

text \<open>\<open>str(value or "")\<close> for an optional string.\<close>

definition text_or_empty :: "string option \<Rightarrow> string" where
  "text_or_empty v = (case v of None \<Rightarrow> '''' | Some s \<Rightarrow> s)"

text \<open>\<open>value or None\<close> for a string: the empty string becomes None.\<close>

definition none_if_empty :: "string \<Rightarrow> string option" where
  "none_if_empty s = (if s = '''' then None else Some s)"

lemma dropWhile_hd: "dropWhile P xs = y # ys \<Longrightarrow> \<not> P y"
  using hd_dropWhile [of P xs] by simp

lemma dropWhile_idem [simp]: "dropWhile P (dropWhile P xs) = dropWhile P xs"
  by (cases "dropWhile P xs") (auto dest: dropWhile_hd)

lemma dropWhile_rev_prefix:
  "dropWhile P xs = xs \<Longrightarrow> dropWhile P (rev (dropWhile P (rev xs))) = rev (dropWhile P (rev xs))"
proof (cases "rev (dropWhile P (rev xs))")
  case Nil
  then show ?thesis by (metis dropWhile.simps(1))
next
  case (Cons y ys)
  assume fix_xs: "dropWhile P xs = xs"
  have "rev xs = takeWhile P (rev xs) @ dropWhile P (rev xs)" by simp
  then have "xs = rev (dropWhile P (rev xs)) @ rev (takeWhile P (rev xs))"
    by (metis rev_append rev_rev_ident)
  with Cons have "xs = y # ys @ rev (takeWhile P (rev xs))" by simp
  with fix_xs have "\<not> P y" by (metis dropWhile_hd)
  with Cons show ?thesis by simp
qed

lemma py_strip_idem [simp]: "py_strip (py_strip s) = py_strip s"
proof -
  let ?d = "dropWhile is_py_space s"
  have "dropWhile is_py_space (rev (dropWhile is_py_space (rev ?d))) = rev (dropWhile is_py_space (rev ?d))"
    by (rule dropWhile_rev_prefix) simp
  then show ?thesis by (simp add: py_strip_def)
qed

section \<open>Tables as lists of rows\<close>

text \<open>
  \<open>upd_rows p f rows\<close> is an SQL \<open>UPDATE\<close> (or the flush of mutated rows): the rows that
  satisfy \<open>p\<close> are replaced by their image under \<open>f\<close>, the others and the order stay.
\<close>

definition upd_rows :: "('a \<Rightarrow> bool) \<Rightarrow> ('a \<Rightarrow> 'a) \<Rightarrow> 'a list \<Rightarrow> 'a list" where
  "upd_rows p f rows = map (\<lambda>r. if p r then f r else r) rows"

lemma upd_rows_Nil [simp]: "upd_rows p f [] = []"
  by (simp add: upd_rows_def)

lemma upd_rows_Cons [simp]:
  "upd_rows p f (r # rs) = (if p r then f r else r) # upd_rows p f rs"
  by (simp add: upd_rows_def)

lemma length_upd_rows [simp]: "length (upd_rows p f rows) = length rows"
  by (simp add: upd_rows_def)

lemma set_upd_rows:
  "set (upd_rows p f rows) = {r. r \<in> set rows \<and> \<not> p r} \<union> f ` {r. r \<in> set rows \<and> p r}"
  by (auto simp: upd_rows_def)

lemma in_upd_rowsE:
  assumes "r \<in> set (upd_rows p f rows)"
  obtains r0 where "r0 \<in> set rows" "r = (if p r0 then f r0 else r0)"
  using assms unfolding upd_rows_def set_map by (rule imageE) (rule that)

lemma map_upd_rows:
  "(\<And>r. r \<in> set rows \<Longrightarrow> p r \<Longrightarrow> k (f r) = k r) \<Longrightarrow> map k (upd_rows p f rows) = map k rows"
  by (simp add: upd_rows_def)

lemma upd_rows_none: "(\<And>r. r \<in> set rows \<Longrightarrow> \<not> p r) \<Longrightarrow> upd_rows p f rows = rows"
  by (simp add: upd_rows_def map_idI)

lemma upd_rows_cong:
  "(\<And>r. r \<in> set rows \<Longrightarrow> p r = q r) \<Longrightarrow> (\<And>r. r \<in> set rows \<Longrightarrow> q r \<Longrightarrow> f r = g r) \<Longrightarrow>
   upd_rows p f rows = upd_rows q g rows"
  by (simp add: upd_rows_def)

lemma filter_key:
  "distinct (map k rows) \<Longrightarrow> r \<in> set rows \<Longrightarrow>
   filter (\<lambda>x. k x = k r \<and> q x) rows = (if q r then [r] else [])"
proof (induction rows)
  case (Cons x xs)
  show ?case
  proof (cases "x = r")
    case True
    with Cons.prems have "filter (\<lambda>x. k x = k r \<and> q x) xs = []"
      by (auto simp: filter_empty_conv image_iff)
    with True show ?thesis by simp
  next
    case False
    with Cons.prems have "k x \<noteq> k r" "r \<in> set xs" by auto
    with Cons show ?thesis by auto
  qed
qed simp

lemma filter_upd_rows_same:
  "(\<And>r. r \<in> set rows \<Longrightarrow> p r \<Longrightarrow> q (f r) = q r) \<Longrightarrow>
   filter q (upd_rows p f rows) = upd_rows p f (filter q rows)"
  by (induction rows) auto

lemma count_upd_rows_same:
  "(\<And>r. r \<in> set rows \<Longrightarrow> p r \<Longrightarrow> q (f r) = q r) \<Longrightarrow>
   length (filter q (upd_rows p f rows)) = length (filter q rows)"
  by (induction rows) auto

text \<open>The first row of a query with an \<open>ORDER BY\<close> and \<open>LIMIT 1\<close>.\<close>

definition first_by :: "('a \<Rightarrow> 'k::linorder) \<Rightarrow> 'a list \<Rightarrow> 'a option" where
  "first_by k rows = (case sort_key k rows of [] \<Rightarrow> None | r # _ \<Rightarrow> Some r)"

lemma first_by_None [simp]: "first_by k rows = None \<longleftrightarrow> rows = []"
proof -
  have "sort_key k rows = [] \<longleftrightarrow> rows = []"
    by (metis length_0_conv length_sort)
  then show ?thesis by (auto simp: first_by_def split: list.splits)
qed

lemma first_by_Some:
  assumes "first_by k rows = Some r"
  shows "r \<in> set rows" and "\<And>x. x \<in> set rows \<Longrightarrow> k r \<le> k x"
proof -
  from assms obtain rs where rs: "sort_key k rows = r # rs"
    by (auto simp: first_by_def split: list.splits)
  have set_eq: "set (r # rs) = set rows" by (metis rs set_sort)
  then show "r \<in> set rows" by auto
  have "sorted (map k (r # rs))" by (metis rs sorted_sort_key)
  then show "k r \<le> k x" if "x \<in> set rows" for x
    using that set_eq by auto
qed

lemma first_by_exists: "x \<in> set rows \<Longrightarrow> \<exists>m. first_by k rows = Some m"
  by (cases "first_by k rows") auto

text \<open>Rows found by their key.\<close>

lemma find_SomeD: "find p rows = Some r \<Longrightarrow> r \<in> set rows \<and> p r"
  by (induction rows) (auto split: if_splits)

lemma find_NoneD: "find p rows = None \<Longrightarrow> r \<in> set rows \<Longrightarrow> \<not> p r"
  by (induction rows) (auto split: if_splits)

lemma distinct_map_eq:
  "distinct (map k rows) \<Longrightarrow> x \<in> set rows \<Longrightarrow> y \<in> set rows \<Longrightarrow> k x = k y \<Longrightarrow> x = y"
  by (auto simp: distinct_map dest: inj_onD)

lemma find_key:
  assumes "distinct (map k rows)" and "r \<in> set rows"
  shows "find (\<lambda>x. k x = k r) rows = Some r"
  using assms by (induction rows) (auto intro: image_eqI)

lemma distinct_map_filter: "distinct (map k rows) \<Longrightarrow> distinct (map k (filter q rows))"
  by (auto simp: distinct_map inj_on_def)

lemma find_upd_rows_key:
  "(\<And>r. r \<in> set rows \<Longrightarrow> k r = i \<Longrightarrow> k (f r) = i) \<Longrightarrow>
   find (\<lambda>x. k x = i) (upd_rows (\<lambda>x. k x = i) f rows) = map_option f (find (\<lambda>x. k x = i) rows)"
  by (induction rows) auto

lemma find_upd_rows_other:
  "(\<And>r. r \<in> set rows \<Longrightarrow> k r = i \<Longrightarrow> k (f r) = i) \<Longrightarrow> i \<noteq> i' \<Longrightarrow>
   find (\<lambda>x. k x = i') (upd_rows (\<lambda>x. k x = i) f rows) = find (\<lambda>x. k x = i') rows"
  by (induction rows) auto

text \<open>Updating the one row with a key changes a count by that row only.\<close>

lemma count_upd_key:
  assumes "distinct (map k rows)" and "r \<in> set rows"
  shows "length (filter q (upd_rows (\<lambda>x. k x = k r) f rows)) + (if q r then 1 else 0) =
         length (filter q rows) + (if q (f r) then 1 else (0::nat))"
  using assms
proof (induction rows)
  case (Cons x xs)
  show ?case
  proof (cases "x = r")
    case True
    with Cons.prems have "upd_rows (\<lambda>x. k x = k r) f xs = xs"
      by (intro upd_rows_none) (auto simp: image_iff)
    with True show ?thesis by simp
  next
    case False
    with Cons.prems have "k x \<noteq> k r" "r \<in> set xs" by auto
    with Cons show ?thesis by auto
  qed
qed simp

text \<open>
  A bounded pigeonhole: distinct keys below a bound are at most that many. It turns the
  uniqueness of the (account, slot) primary key into the per-account concurrency bound.
\<close>

lemma distinct_bounded_length:
  assumes "distinct (map k rows)" and "\<And>r. r \<in> set rows \<Longrightarrow> k r < (n::nat)"
  shows "length rows \<le> n"
proof -
  have "length rows = card (set (map k rows))"
    using assms(1) by (metis distinct_card length_map)
  also have "\<dots> \<le> card {..<n}"
    by (rule card_mono) (use assms(2) in auto)
  finally show ?thesis by simp
qed

text \<open>\<open>Iterating with an early error\<close>: the exception of one iteration ends the loop.\<close>

fun fold_result :: "('a \<Rightarrow> 's \<Rightarrow> 'e + 's) \<Rightarrow> 'a list \<Rightarrow> 's \<Rightarrow> 'e + 's" where
  "fold_result f [] s = Inr s"
| "fold_result f (x # xs) s = (case f x s of Inl e \<Rightarrow> Inl e | Inr s' \<Rightarrow> fold_result f xs s')"

lemma fold_result_invariant:
  assumes "fold_result f xs s = Inr s'" and "P s"
    and "\<And>x a b. x \<in> set xs \<Longrightarrow> P a \<Longrightarrow> f x a = Inr b \<Longrightarrow> P b"
  shows "P s'"
  using assms
proof (induction xs arbitrary: s)
  case Nil
  then show ?case by simp
next
  case (Cons x xs)
  then obtain b where b: "f x s = Inr b" "fold_result f xs b = Inr s'"
    by (auto split: sum.splits)
  have "P b" using Cons.prems b(1) by (meson list.set_intros(1))
  with b(2) show ?case
    by (rule Cons.IH) (use Cons.prems(3) in \<open>meson list.set_intros(2)\<close>)
qed

text \<open>Keeping the first occurrence of each value, as a \<open>seen\<close> set does.\<close>

definition dedup_first :: "'a list \<Rightarrow> 'a list" where
  "dedup_first xs = rev (remdups (rev xs))"

lemma set_dedup_first [simp]: "set (dedup_first xs) = set xs"
  by (simp add: dedup_first_def)

lemma distinct_dedup_first [simp]: "distinct (dedup_first xs)"
  by (simp add: dedup_first_def)

lemma dedup_first_id [simp]: "distinct xs \<Longrightarrow> dedup_first xs = xs"
  by (simp add: dedup_first_def distinct_remdups_id)

section \<open>Interfaces shared by the components\<close>

text \<open>
  A component with an invariant: its operations are a step relation, each step keeps the
  invariant, so every state a run can reach satisfies it.
\<close>

locale safety_system =
  fixes initial :: "'s \<Rightarrow> bool"
    and step :: "'s \<Rightarrow> 's \<Rightarrow> bool"
    and invariant :: "'s \<Rightarrow> bool"
  assumes invariant_initial: "initial s \<Longrightarrow> invariant s"
    and invariant_step: "invariant s \<Longrightarrow> step s t \<Longrightarrow> invariant t"
begin

lemma invariant_steps: "step\<^sup>*\<^sup>* s t \<Longrightarrow> invariant s \<Longrightarrow> invariant t"
  by (induction rule: rtranclp_induct) (auto intro: invariant_step)

lemma reachable_invariant: "initial s \<Longrightarrow> step\<^sup>*\<^sup>* s t \<Longrightarrow> invariant t"
  by (rule invariant_steps) (auto intro: invariant_initial)

end

text \<open>
  A ranking: whatever order it chooses, it neither drops nor invents a candidate. The
  client tries the ranked candidates in turn and takes the first one that accepts.
\<close>

locale ranking =
  fixes rank :: "'c list \<Rightarrow> 'c list"
  assumes rank_mset: "mset (rank cs) = mset cs"
begin

lemma set_rank: "set (rank cs) = set cs"
  using rank_mset by (metis set_mset_mset)

lemma length_rank: "length (rank cs) = length cs"
  using rank_mset by (metis size_mset)

lemma find_rank_None: "find p (rank cs) = None \<longleftrightarrow> (\<forall>c \<in> set cs. \<not> p c)"
  by (auto simp: find_None_iff set_rank)

lemma find_rank_Some: "find p (rank cs) = Some c \<Longrightarrow> c \<in> set cs \<and> p c"
  by (auto dest: find_SomeD simp: set_rank)

end

end
