(* ===== verification/Failure_Policy.thy ===== *)
theory Failure_Policy
  imports Py_Prelude
begin

text \<open>
  The failure taxonomy of \<open>services/image_failure.py\<close>: the policy of every failure code,
  the legacy spellings, the normalisation of a code into an \<open>ImageFailure\<close>, and the two
  predicates that decide whether a failed job moves to another account.
\<close>

section \<open>The policy table\<close>

record failure_policy =
  fp_scope :: string
  fp_capability :: "string option"
  fp_retryable :: bool
  fp_status_code :: int
  fp_error_type :: string
  fp_verify_account :: bool

definition failure_policy_of ::
  "string \<Rightarrow> string option \<Rightarrow> bool \<Rightarrow> int \<Rightarrow> string \<Rightarrow> bool \<Rightarrow> failure_policy" where
  "failure_policy_of scope capability retryable status error_type verify =
     \<lparr>fp_scope = scope, fp_capability = capability, fp_retryable = retryable,
      fp_status_code = status, fp_error_type = error_type, fp_verify_account = verify\<rparr>"

definition failure_policies :: "(string \<times> failure_policy) list" where
  "failure_policies =
     [(''upstream_error'', failure_policy_of ''transient'' None True 502 ''server_error'' False),
      (''conversation_not_ready'', failure_policy_of ''transient'' (Some ''image_generation'') True 409 ''server_error'' False),
      (''internal_error'', failure_policy_of ''internal'' None False 500 ''server_error'' False),
      (''durable_context_required'', failure_policy_of ''internal'' None False 500 ''server_error'' False),
      (''image_task_pending'', failure_policy_of ''internal'' None True 409 ''server_error'' False),
      (''invalid_image_result'', failure_policy_of ''delivery'' None True 502 ''server_error'' False),
      (''image_task_not_found'', failure_policy_of ''request'' None False 404 ''invalid_request_error'' False),
      (''image_job_failed'', failure_policy_of ''internal'' None False 500 ''server_error'' False),
      (''image_url_unreachable'', failure_policy_of ''delivery'' None True 502 ''server_error'' False),
      (''image_claim_timeout'', failure_policy_of ''internal'' None True 503 ''server_error'' False),
      (''local_artifact_unavailable'', failure_policy_of ''internal'' None True 503 ''server_error'' False),
      (''worker_local_recovery_unavailable'', failure_policy_of ''internal'' None True 503 ''server_error'' False),
      (''recovery_account_unavailable'', failure_policy_of ''internal'' None True 503 ''server_error'' False),
      (''queue_timeout'', failure_policy_of ''internal'' None True 503 ''server_error'' False),
      (''legacy_interrupted'', failure_policy_of ''internal'' None True 503 ''server_error'' False),
      (''legacy_failed'', failure_policy_of ''internal'' None False 500 ''server_error'' False),
      (''image_queue_unavailable'', failure_policy_of ''internal'' None True 503 ''server_error'' False),
      (''image_queue_resource_pressure'', failure_policy_of ''internal'' None True 503 ''server_error'' False),
      (''image_queue_storage_full'', failure_policy_of ''internal'' None True 503 ''server_error'' False),
      (''upstream_unavailable'', failure_policy_of ''transient'' None True 502 ''server_error'' False),
      (''upstream_challenge_required'', failure_policy_of ''transient'' None True 503 ''server_error'' False),
      (''upstream_connection_failed'', failure_policy_of ''transient'' None True 502 ''server_error'' False),
      (''upstream_connection_timeout'', failure_policy_of ''transient'' None True 504 ''server_error'' False),
      (''upstream_rate_limited'', failure_policy_of ''transient'' (Some ''image_generation'') False 429 ''rate_limit_error'' True),
      (''image_poll_timeout'', failure_policy_of ''transient'' (Some ''image_generation'') True 502 ''server_error'' False),
      (''image_stream_timeout'', failure_policy_of ''transient'' (Some ''image_generation'') True 502 ''server_error'' False),
      (''image_stream_interrupted'', failure_policy_of ''transient'' (Some ''image_generation'') True 502 ''server_error'' False),
      (''image_tool_error'', failure_policy_of ''account'' (Some ''image_generation'') False 502 ''server_error'' True),
      (''image_quota_exhausted'', failure_policy_of ''account'' (Some ''image_generation'') False 429 ''insufficient_quota'' True),
      (''file_upload_throttled'', failure_policy_of ''account'' (Some ''file_upload'') True 429 ''rate_limit_error'' True),
      (''auth_invalid'', failure_policy_of ''account'' (Some ''auth'') False 401 ''authentication_error'' True),
      (''content_policy_violation'', failure_policy_of ''request'' None False 400 ''invalid_request_error'' False),
      (''invalid_image_input'', failure_policy_of ''request'' None False 400 ''invalid_request_error'' False),
      (''upstream_text_reply'', failure_policy_of ''request'' None False 400 ''invalid_request_error'' False),
      (''conversation_mode_blocked'', failure_policy_of ''request'' None False 400 ''invalid_request_error'' False),
      (''no_image_generated'', failure_policy_of ''request'' None False 502 ''server_error'' True),
      (''unsupported_model'', failure_policy_of ''request'' None False 400 ''invalid_request_error'' False),
      (''image_download_failed'', failure_policy_of ''delivery'' None True 502 ''server_error'' False),
      (''task_interrupted'', failure_policy_of ''request'' None False 503 ''server_error'' False),
      (''no_available_account'', failure_policy_of ''transient'' None True 503 ''server_error'' False),
      (''insufficient_quota'', failure_policy_of ''account'' (Some ''image_generation'') False 429 ''insufficient_quota'' True)]"

definition failure_code_aliases :: "(string \<times> string) list" where
  "failure_code_aliases =
     [(''connection_failed'', ''upstream_connection_failed''),
      (''connection_timeout'', ''upstream_connection_timeout''),
      (''image_stream_interrupted'', ''image_stream_interrupted''),
      (''invalid_access_token'', ''auth_invalid''),
      (''moderation_blocked'', ''content_policy_violation''),
      (''quota_exhausted'', ''image_quota_exhausted''),
      (''rate_limit_exceeded'', ''upstream_rate_limited''),
      (''safety_blocked'', ''content_policy_violation''),
      (''token_invalid'', ''auth_invalid''),
      (''token_invalidated'', ''auth_invalid''),
      (''token_revoked'', ''auth_invalid''),
      (''unsupported_image_model'', ''unsupported_model''),
      (''upstream_timeout'', ''image_poll_timeout'')]"

section \<open>Normalising a code\<close>

text \<open>\<open>FAILURE_CODE_ALIASES.get(code, code)\<close> on the stripped, lower-cased text.\<close>

definition normalize_failure_code :: "string \<Rightarrow> string" where
  "normalize_failure_code raw =
     (let code = py_lower (py_strip raw)
      in case map_of failure_code_aliases code of Some c \<Rightarrow> c | None \<Rightarrow> code)"

definition policy_of_code :: "string \<Rightarrow> failure_policy option" where
  "policy_of_code raw = map_of failure_policies (normalize_failure_code raw)"

record image_failure =
  if_code :: string
  if_policy :: failure_policy
  if_retry_after :: "int option"

definition upstream_error_policy :: failure_policy where
  "upstream_error_policy = failure_policy_of ''transient'' None True 502 ''server_error'' False"

definition image_failure_of :: "string option \<Rightarrow> int option \<Rightarrow> image_failure" where
  "image_failure_of code retry_after =
     (let text = (case code of None \<Rightarrow> ''upstream_error''
                  | Some c \<Rightarrow> if c = '''' then ''upstream_error'' else c);
          normalized = normalize_failure_code text
      in case map_of failure_policies normalized of
           Some p \<Rightarrow> \<lparr>if_code = normalized, if_policy = p, if_retry_after = retry_after\<rparr>
         | None \<Rightarrow> \<lparr>if_code = ''upstream_error'', if_policy = upstream_error_policy,
                    if_retry_after = retry_after\<rparr>)"

definition failure_outcome :: "image_failure \<Rightarrow> string" where
  "failure_outcome f = (if fp_status_code (if_policy f) = 400 then ''text'' else ''failure'')"

definition text_review_failure_codes :: "string list" where
  "text_review_failure_codes =
     map fst (filter (\<lambda>(c, p). fp_status_code p = 400) failure_policies)"

definition is_text_review_failure_code :: "string \<Rightarrow> bool" where
  "is_text_review_failure_code value \<longleftrightarrow> normalize_failure_code value \<in> set text_review_failure_codes"

section \<open>Switching accounts\<close>

definition generating_account_switch_excluded_codes :: "string list" where
  "generating_account_switch_excluded_codes =
     [''content_policy_violation'', ''invalid_image_input'', ''upstream_text_reply'',
      ''unsupported_model'', ''task_interrupted'', ''image_task_cancelled'', ''internal_error'',
      ''durable_context_required'']"

definition should_switch_image_account :: "string option \<Rightarrow> bool" where
  "should_switch_image_account error_code =
     (case policy_of_code (text_or_empty error_code) of
        None \<Rightarrow> False
      | Some p \<Rightarrow> fp_verify_account p \<and> fp_status_code p \<noteq> 400)"

definition should_switch_generating_account :: "string option \<Rightarrow> bool" where
  "should_switch_generating_account error_code =
     (let code = normalize_failure_code (text_or_empty error_code)
      in case map_of failure_policies code of
           None \<Rightarrow> False
         | Some p \<Rightarrow> code \<notin> set generating_account_switch_excluded_codes \<and> fp_status_code p \<noteq> 400)"

section \<open>Competing failures\<close>

definition failure_priority :: "string \<Rightarrow> nat" where
  "failure_priority code =
     (let normalized = normalize_failure_code code
      in if normalized = ''auth_invalid'' then 8
         else if normalized \<in> {''image_quota_exhausted'', ''insufficient_quota''} then 7
         else if normalized \<in> {''file_upload_throttled'', ''upstream_rate_limited''} then 6
         else if normalized = ''image_download_failed'' then 5
         else if normalized \<in> set text_review_failure_codes \<and> normalized \<noteq> ''upstream_text_reply'' then 4
         else if normalized = ''image_tool_error'' then 3
         else if normalized = ''upstream_text_reply'' then 2
         else if normalized \<in> {''image_poll_timeout'', ''image_stream_interrupted'',
                 ''image_stream_timeout'', ''task_interrupted'', ''upstream_connection_failed'',
                 ''upstream_connection_timeout'', ''upstream_unavailable''} then 1
         else 0)"

section \<open>Facts about the table\<close>

text \<open>
  Every fact about the whole table is one closed evaluation over its rows; the lemmas lift
  it to any code.
\<close>

definition policy_row_ok :: "string \<times> failure_policy \<Rightarrow> bool" where
  "policy_row_ok row =
     (case row of (c, p) \<Rightarrow>
        (fp_status_code p = 400 \<longrightarrow> \<not> fp_retryable p) \<and>
        (fp_verify_account p \<and> fp_status_code p \<noteq> 400 \<longrightarrow>
           c \<notin> set generating_account_switch_excluded_codes) \<and>
        (fp_verify_account p \<longrightarrow> fp_status_code p \<noteq> 400) \<and>
        400 \<le> fp_status_code p \<and> fp_status_code p < 600 \<and>
        map_of failure_code_aliases c \<in> {None, Some c})"

lemma failure_policies_ok: "list_all policy_row_ok failure_policies"
  by code_simp

lemma failure_aliases_resolve:
  "list_all (\<lambda>(a, c). map_of failure_policies c \<noteq> None \<and>
                     map_of failure_code_aliases c \<in> {None, Some c}) failure_code_aliases"
  by code_simp

lemma policy_row:
  "map_of failure_policies c = Some p \<Longrightarrow> policy_row_ok (c, p)"
  using failure_policies_ok by (auto simp: list_all_iff dest: map_of_SomeD)

text \<open>
  The codes are written in lower-case letters and underscores (the characters 95 to 127 that
  \<open>plain_char\<close> recognises by their bits), which stripping and lowering leave alone.
\<close>

fun plain_char :: "char \<Rightarrow> bool" where
  "plain_char (Char b0 b1 b2 b3 b4 b5 b6 b7) =
     (b6 \<and> \<not> b7 \<and> (b5 \<or> b0 \<and> b1 \<and> b2 \<and> b3 \<and> b4))"

lemma plain_char_range:
  assumes "plain_char c"
  shows "95 \<le> (of_char c :: nat)" "(of_char c :: nat) < 128"
proof -
  obtain b0 b1 b2 b3 b4 b5 b6 b7 where c: "c = Char b0 b1 b2 b3 b4 b5 b6 b7" by (cases c)
  have n: "(of_char c :: nat) = of_bool b0 + 2 * of_bool b1 + 4 * of_bool b2 + 8 * of_bool b3 +
      16 * of_bool b4 + 32 * of_bool b5 + 64"
    using assms unfolding c by (simp add: of_char_def)
  have "of_bool b0 \<le> (1::nat)" "of_bool b1 \<le> (1::nat)" "of_bool b2 \<le> (1::nat)"
    "of_bool b3 \<le> (1::nat)" "of_bool b4 \<le> (1::nat)" "of_bool b5 \<le> (1::nat)"
    by simp_all
  then show "(of_char c :: nat) < 128" unfolding n by linarith
  show "95 \<le> (of_char c :: nat)"
    using assms unfolding n unfolding c by auto
qed

lemma plain_char_fixed:
  assumes "plain_char c"
  shows "lower_char c = c" "\<not> is_py_space c"
  using plain_char_range [OF assms] by (auto simp: lower_char_def is_py_space_def Let_def)

lemma plain_code_fixed:
  assumes "list_all plain_char s"
  shows "py_lower (py_strip s) = s"
proof -
  have keep: "dropWhile is_py_space t = t" if "list_all plain_char t" for t
    using that plain_char_fixed(2) by (cases t) auto
  have "py_strip s = s"
    using assms by (simp add: py_strip_def keep list.pred_set)
  then show ?thesis
    using assms plain_char_fixed(1) by (auto simp: py_lower_def list.pred_set intro: map_idI)
qed

lemma failure_codes_plain: "list_all (\<lambda>(c, p). list_all plain_char c) failure_policies"
  by code_simp

lemma normalize_known_code:
  assumes "map_of failure_policies c = Some p"
  shows "normalize_failure_code c = c"
proof -
  from assms failure_codes_plain have "list_all plain_char c"
    by (auto simp: list.pred_set dest!: map_of_SomeD)
  then have "py_lower (py_strip c) = c" by (rule plain_code_fixed)
  moreover from policy_row [OF assms] have "map_of failure_code_aliases c \<in> {None, Some c}"
    by (simp add: policy_row_ok_def)
  ultimately show ?thesis
    by (auto simp: normalize_failure_code_def Let_def)
qed

lemma image_failure_row:
  "map_of failure_policies (if_code (image_failure_of code ra)) =
     Some (if_policy (image_failure_of code ra))"
proof -
  have "map_of failure_policies ''upstream_error'' = Some upstream_error_policy"
    by code_simp
  then show ?thesis
    by (auto simp: image_failure_of_def Let_def split: option.splits)
qed

lemma normalize_result_code:
  "normalize_failure_code (if_code (image_failure_of code ra)) = if_code (image_failure_of code ra)"
  by (rule normalize_known_code [OF image_failure_row])

section \<open>Properties\<close>

text \<open>
  A failure that moves a download or save job to another account also moves a
  generating job: every code with an account-level policy is outside the exclusion list of
  the generating stage. No text-review code (status 400) ever switches the account.
\<close>

theorem account_switch_hierarchy:
  "(should_switch_image_account code \<longrightarrow> should_switch_generating_account code) \<and>
   (is_text_review_failure_code (text_or_empty code) \<longrightarrow>
      \<not> should_switch_image_account code \<and> \<not> should_switch_generating_account code)"
proof -
  let ?c = "normalize_failure_code (text_or_empty code)"
  have "distinct (map fst failure_policies)" by code_simp
  then have review: "is_text_review_failure_code (text_or_empty code) \<Longrightarrow>
      \<exists>p. map_of failure_policies ?c = Some p \<and> fp_status_code p = 400"
    by (auto simp: is_text_review_failure_code_def text_review_failure_codes_def)
  show ?thesis
    by (auto simp: should_switch_image_account_def should_switch_generating_account_def
        policy_of_code_def Let_def policy_row_ok_def split: option.splits
        dest: policy_row review)
qed

theorem account_switch_hierarchy_witness:
  "should_switch_image_account (Some ''TOKEN_revoked '') \<and>
   should_switch_generating_account (Some ''TOKEN_revoked '') \<and>
   is_text_review_failure_code ''moderation_blocked'' \<and>
   \<not> should_switch_generating_account (Some ''moderation_blocked'')"
proof -
  have a: "should_switch_image_account (Some ''TOKEN_revoked '')" by code_simp
  have b: "is_text_review_failure_code (text_or_empty (Some ''moderation_blocked''))" by code_simp
  show ?thesis
    using a b account_switch_hierarchy [of "Some ''TOKEN_revoked ''"]
      account_switch_hierarchy [of "Some ''moderation_blocked''"]
    by (simp add: text_or_empty_def)
qed

text \<open>
  \<open>image_failure\<close> is total and idempotent: whatever the code, the result
  carries a code of the table together with that code's own policy, and normalising the
  result again changes nothing.
\<close>

theorem image_failure_normal_form:
  "map_of failure_policies (if_code (image_failure_of code ra)) =
     Some (if_policy (image_failure_of code ra)) \<and>
   image_failure_of (Some (if_code (image_failure_of code ra))) ra = image_failure_of code ra"
proof -
  let ?f = "image_failure_of code ra"
  have "map_of failure_policies '''' = None" by code_simp
  then have ne: "if_code ?f \<noteq> ''''" using image_failure_row by (metis option.distinct(1))
  have "if_retry_after ?f = ra"
    by (auto simp: image_failure_of_def Let_def split: option.splits)
  with ne image_failure_row [of code ra] normalize_result_code [of code ra] show ?thesis
    by (simp add: image_failure_of_def [of "Some (if_code ?f)"])
qed

end
