(* ===== verification/Queue_Types.thy ===== *)
theory Queue_Types
  imports Py_Prelude
begin

text \<open>
  The data of the image queue: the enumerations of \<open>services/image_queue/types.py\<close> with
  their stored text, the rows of \<open>services/image_queue/models.py\<close> as records, and the
  value classes the repository takes and returns. Fixed messages of the code that are
  written in Chinese are constructors of \<open>msg\<close>.
\<close>

section \<open>Enumerations\<close>

text \<open>
  \<open>PENDING\<close>, \<open>SUCCEEDED\<close> and \<open>CANCELLED\<close> of \<open>TaskStatus\<close> carry the values of
  \<open>QUEUED\<close>, \<open>SUCCESS\<close> and \<open>CANCELED\<close>, so Python makes them aliases of these members.
\<close>

datatype task_status = TQueued | TRunning | TSaving | TRetrying | TSuccess | TFailed | TCanceled

datatype job_status = JQueued | JLeased | JRunning | JRetryWait | JSuccess | JFailed | JCanceled

datatype job_stage =
  SQueued | SLeased | SGenerating | SResolving | SDownloading | STransforming | SSaving
| SRetryWait | SSuccess | SFailed | SCanceled

datatype artifact_status = AStaging | AReady | AInvalid

datatype delivery_status = DPending | DResponseAttempted | DAcknowledged

fun task_status_value :: "task_status \<Rightarrow> string" where
  "task_status_value TQueued = ''queued''"
| "task_status_value TRunning = ''running''"
| "task_status_value TSaving = ''saving''"
| "task_status_value TRetrying = ''retrying''"
| "task_status_value TSuccess = ''success''"
| "task_status_value TFailed = ''failed''"
| "task_status_value TCanceled = ''canceled''"

fun job_status_value :: "job_status \<Rightarrow> string" where
  "job_status_value JQueued = ''queued''"
| "job_status_value JLeased = ''leased''"
| "job_status_value JRunning = ''running''"
| "job_status_value JRetryWait = ''retry_wait''"
| "job_status_value JSuccess = ''success''"
| "job_status_value JFailed = ''failed''"
| "job_status_value JCanceled = ''canceled''"

fun job_stage_value :: "job_stage \<Rightarrow> string" where
  "job_stage_value SQueued = ''queued''"
| "job_stage_value SLeased = ''leased''"
| "job_stage_value SGenerating = ''generating''"
| "job_stage_value SResolving = ''resolving''"
| "job_stage_value SDownloading = ''downloading''"
| "job_stage_value STransforming = ''transforming''"
| "job_stage_value SSaving = ''saving''"
| "job_stage_value SRetryWait = ''retry_wait''"
| "job_stage_value SSuccess = ''success''"
| "job_stage_value SFailed = ''failed''"
| "job_stage_value SCanceled = ''canceled''"

fun artifact_status_value :: "artifact_status \<Rightarrow> string" where
  "artifact_status_value AStaging = ''staging''"
| "artifact_status_value AReady = ''ready''"
| "artifact_status_value AInvalid = ''invalid''"

fun delivery_status_value :: "delivery_status \<Rightarrow> string" where
  "delivery_status_value DPending = ''pending''"
| "delivery_status_value DResponseAttempted = ''response_attempted''"
| "delivery_status_value DAcknowledged = ''acknowledged''"

definition task_statuses :: "task_status list" where
  "task_statuses = [TQueued, TRunning, TSaving, TRetrying, TSuccess, TFailed, TCanceled]"

definition job_statuses :: "job_status list" where
  "job_statuses = [JQueued, JLeased, JRunning, JRetryWait, JSuccess, JFailed, JCanceled]"

definition job_stages :: "job_stage list" where
  "job_stages = [SQueued, SLeased, SGenerating, SResolving, SDownloading, STransforming,
                 SSaving, SRetryWait, SSuccess, SFailed, SCanceled]"

definition delivery_statuses :: "delivery_status list" where
  "delivery_statuses = [DPending, DResponseAttempted, DAcknowledged]"

definition artifact_statuses :: "artifact_status list" where
  "artifact_statuses = [AStaging, AReady, AInvalid]"

text \<open>\<open>enum_cls(text)\<close>: the member with this value, a ValueError (None) for no member.\<close>

definition enum_of :: "('e \<Rightarrow> string) \<Rightarrow> 'e list \<Rightarrow> string \<Rightarrow> 'e option" where
  "enum_of val members text = find (\<lambda>e. val e = text) members"

definition coerce_enum :: "('e \<Rightarrow> string) \<Rightarrow> 'e list \<Rightarrow> string option \<Rightarrow> 'e \<Rightarrow> 'e" where
  "coerce_enum val members raw fallback =
     (let text = py_strip (text_or_empty raw)
      in if text \<noteq> ''''
         then (case enum_of val members text of Some e \<Rightarrow> e | None \<Rightarrow> fallback)
         else fallback)"

definition coerce_task_status :: "string option \<Rightarrow> task_status" where
  "coerce_task_status raw = coerce_enum task_status_value task_statuses raw TFailed"

definition coerce_job_status :: "string option \<Rightarrow> job_status" where
  "coerce_job_status raw = coerce_enum job_status_value job_statuses raw JFailed"

definition coerce_job_stage :: "string option \<Rightarrow> job_stage" where
  "coerce_job_stage raw = coerce_enum job_stage_value job_stages raw SFailed"

definition coerce_delivery_status :: "string option \<Rightarrow> delivery_status" where
  "coerce_delivery_status raw = coerce_enum delivery_status_value delivery_statuses raw DPending"

definition coerce_artifact_status :: "string option \<Rightarrow> artifact_status" where
  "coerce_artifact_status raw = coerce_enum artifact_status_value artifact_statuses raw AInvalid"

text \<open>
  Reading a status from a backup: case is folded, three legacy spellings are accepted, and
  an unknown text raises (\<open>Inl\<close> of the text the message quotes).
\<close>

definition backup_status_aliases :: "(string \<times> string) list" where
  "backup_status_aliases =
     [(''error'', ''failed''), (''cancelled'', ''canceled''), (''pending'', ''queued'')]"

definition backup_status_value ::
  "('e \<Rightarrow> string) \<Rightarrow> 'e list \<Rightarrow> (string \<times> string) list \<Rightarrow> string option \<Rightarrow> string + 'e" where
  "backup_status_value val members aliases raw =
     (let raw_text = py_strip (text_or_empty raw);
          folded = py_lower raw_text;
          normalized = (case map_of aliases folded of Some t \<Rightarrow> t | None \<Rightarrow> folded)
      in case enum_of val members normalized of
           Some e \<Rightarrow> Inr e
         | None \<Rightarrow> Inl raw_text)"

definition backup_task_status :: "string option \<Rightarrow> string + task_status" where
  "backup_task_status raw = backup_status_value task_status_value task_statuses backup_status_aliases raw"

definition backup_job_status :: "string option \<Rightarrow> string + job_status" where
  "backup_job_status raw = backup_status_value job_status_value job_statuses backup_status_aliases raw"

definition backup_job_stage :: "string option \<Rightarrow> string + job_stage" where
  "backup_job_stage raw = backup_status_value job_stage_value job_stages backup_status_aliases raw"

section \<open>Status groups\<close>

definition terminal_task :: "task_status \<Rightarrow> bool" where
  "terminal_task s \<longleftrightarrow> s = TSuccess \<or> s = TFailed \<or> s = TCanceled"

definition terminal_job :: "job_status \<Rightarrow> bool" where
  "terminal_job s \<longleftrightarrow> s = JSuccess \<or> s = JFailed \<or> s = JCanceled"

text \<open>A job is active while a worker holds its lease.\<close>

definition active_job :: "job_status \<Rightarrow> bool" where
  "active_job s \<longleftrightarrow> s = JLeased \<or> s = JRunning"

definition waiting_job :: "job_status \<Rightarrow> bool" where
  "waiting_job s \<longleftrightarrow> s = JQueued \<or> s = JRetryWait"

lemma job_status_groups:
  "terminal_job s \<or> active_job s \<or> waiting_job s"
  "\<not> (terminal_job s \<and> active_job s)" "\<not> (terminal_job s \<and> waiting_job s)"
  "\<not> (active_job s \<and> waiting_job s)"
  by (cases s; simp add: terminal_job_def active_job_def waiting_job_def)+

lemma terminal_job_simps [simp]:
  "terminal_job JSuccess" "terminal_job JFailed" "terminal_job JCanceled"
  "\<not> terminal_job JQueued" "\<not> terminal_job JLeased" "\<not> terminal_job JRunning"
  "\<not> terminal_job JRetryWait"
  by (simp_all add: terminal_job_def)

lemma active_job_simps [simp]:
  "active_job JLeased" "active_job JRunning"
  "\<not> active_job JQueued" "\<not> active_job JRetryWait"
  "\<not> active_job JSuccess" "\<not> active_job JFailed" "\<not> active_job JCanceled"
  by (simp_all add: active_job_def)

lemma waiting_job_simps [simp]:
  "waiting_job JQueued" "waiting_job JRetryWait"
  "\<not> waiting_job JLeased" "\<not> waiting_job JRunning"
  "\<not> waiting_job JSuccess" "\<not> waiting_job JFailed" "\<not> waiting_job JCanceled"
  by (simp_all add: waiting_job_def)

lemma terminal_task_simps [simp]:
  "terminal_task TSuccess" "terminal_task TFailed" "terminal_task TCanceled"
  "\<not> terminal_task TQueued" "\<not> terminal_task TRunning" "\<not> terminal_task TSaving"
  "\<not> terminal_task TRetrying"
  by (simp_all add: terminal_task_def)

section \<open>Values stored as JSON\<close>

text \<open>
  Messages: the fixed Chinese messages of the code are named, with the number they quote;
  every other message is its text. \<open>jval\<close> is what the JSON columns hold; a UUID, a time or
  a message put into one is kept as such instead of as its rendering.
\<close>

datatype msg =
  MText string
| MQueueTimeout int              \<comment> \<open>waited longer than so many seconds\<close>
| MForeignLocalArtifact          \<comment> \<open>the local recovery artifact belongs to another worker\<close>
| MRecoveryAccountGone           \<comment> \<open>the account of the remote recovery is unavailable\<close>
| MImageTaskFailed               \<comment> \<open>the image task failed\<close>
| MQuotaAccountingIncomplete     \<comment> \<open>quota accounting did not complete\<close>
| MFinalUndeliverable            \<comment> \<open>the final image artifact cannot be delivered\<close>

datatype jval =
  JNull
| JBool bool
| JInt int
| JStr string
| JMsg msg
| JUid uuid
| JTime time
| JList "jval list"
| JObj "(string \<times> jval) list"

type_synonym jobj = "(string \<times> jval) list"

text \<open>\<open>sanitize_event_data\<close>: strings are stripped, containers are walked, the rest stays.\<close>

fun sanitize_event_data :: "jval \<Rightarrow> jval" where
  "sanitize_event_data (JObj kvs) = JObj (map (\<lambda>(k, v). (k, sanitize_event_data v)) kvs)"
| "sanitize_event_data (JList vs) = JList (map sanitize_event_data vs)"
| "sanitize_event_data (JStr s) = JStr (py_strip s)"
| "sanitize_event_data v = v"

lemma sanitize_event_data_idem: "sanitize_event_data (sanitize_event_data v) = sanitize_event_data v"
  by (induction v rule: sanitize_event_data.induct) (auto simp: comp_def)

end
