(* ===== verification/Retry_Policy.thy ===== *)
theory Retry_Policy
  imports Failure_Policy Queue_Types
begin

text \<open>
  \<open>services/image_queue/retry_policy.py\<close>: whether a failed job is tried again, and when.
  The exception arrives classified (\<open>classify_image_exception\<close>), as its failure and the
  message kept for it; the random second of jitter is an argument.
\<close>

section \<open>Definitions\<close>

record retry_settings =
  rs_generation_attempts :: int
  rs_download_attempts :: int
  rs_save_attempts :: int
  rs_account_retry_enabled :: bool   \<comment> \<open>\<open>config.image_account_retry_enabled\<close>\<close>
  rs_max_account_attempts :: int     \<comment> \<open>\<open>config.image_max_account_attempts\<close>, 0 for none\<close>

record retry_decision =
  rd_retry :: bool
  rd_next_retry_at :: "time option"
  rd_error_code :: string
  rd_error_message :: msg

definition image_account_retry_settings :: "retry_settings \<Rightarrow> bool \<times> int" where
  "image_account_retry_settings cfg =
     (rs_account_retry_enabled cfg,
      max 2 (if rs_max_account_attempts cfg = 0 then 2 else rs_max_account_attempts cfg))"

definition download_or_save_stage :: "job_stage \<Rightarrow> bool" where
  "download_or_save_stage s \<longleftrightarrow> s \<in> {SResolving, SDownloading, STransforming, SSaving}"

definition retry_budget :: "retry_settings \<Rightarrow> job_stage \<Rightarrow> bool \<Rightarrow> int \<Rightarrow> int" where
  "retry_budget cfg stage account_retry_enabled max_account_attempts =
     (if stage \<in> {SResolving, SDownloading} then rs_download_attempts cfg
      else if stage \<in> {STransforming, SSaving} then rs_save_attempts cfg
      else if account_retry_enabled
        then max 2 (if max_account_attempts = 0 then 2 else max_account_attempts)
      else rs_generation_attempts cfg)"

definition retry_hard_fail_codes :: "string list" where
  "retry_hard_fail_codes =
     [''content_policy_violation'', ''invalid_image_input'', ''upstream_text_reply'',
      ''unsupported_model'', ''task_interrupted'', ''image_task_cancelled'', ''internal_error'',
      ''durable_context_required'']"

definition generating_switch :: "retry_settings \<Rightarrow> job_stage \<Rightarrow> image_failure \<Rightarrow> bool" where
  "generating_switch cfg stage failure \<longleftrightarrow>
     \<not> download_or_save_stage stage \<and> fst (image_account_retry_settings cfg) \<and>
     should_switch_generating_account (Some (if_code failure))"

definition transient_failure :: "retry_settings \<Rightarrow> job_stage \<Rightarrow> image_failure \<Rightarrow> bool" where
  "transient_failure cfg stage failure =
     (if if_code failure \<in> set retry_hard_fail_codes then False
      else if generating_switch cfg stage failure then True
      else if \<not> download_or_save_stage stage then fp_retryable (if_policy failure)
      else fp_retryable (if_policy failure) \<or> should_switch_image_account (Some (if_code failure)))"

definition stage_budget :: "retry_settings \<Rightarrow> job_stage \<Rightarrow> int" where
  "stage_budget cfg stage =
     (let (enabled, attempts) =
            (if \<not> download_or_save_stage stage then image_account_retry_settings cfg else (False, 0))
      in retry_budget cfg stage enabled attempts)"

text \<open>The delay in microseconds: five seconds tripled per attempt, at most 300, plus jitter.\<close>

definition retry_delay :: "nat \<Rightarrow> time \<Rightarrow> time" where
  "retry_delay used jitter = min (secs 300) (secs (5 * 3 ^ (used - 1))) + jitter"

definition retry_decide ::
  "retry_settings \<Rightarrow> job_stage \<Rightarrow> int \<Rightarrow> image_failure \<Rightarrow> msg \<Rightarrow> time \<Rightarrow> time \<Rightarrow> retry_decision" where
  "retry_decide cfg stage attempts failure message now jitter =
     (let used = max 1 (if attempts = 0 then 1 else attempts);
          generating = (\<not> download_or_save_stage stage);
          refuse = \<lparr>rd_retry = False, rd_next_retry_at = None, rd_error_code = if_code failure,
                    rd_error_message = message\<rparr>
      in if \<not> transient_failure cfg stage failure \<or> stage_budget cfg stage \<le> used then refuse
         else (let delay =
                 (if generating_switch cfg stage failure \<or>
                     generating \<and> fp_status_code (if_policy failure) = 400
                  then 0 else retry_delay (nat used) jitter)
               in refuse\<lparr>rd_retry := True, rd_next_retry_at := Some (now + delay)\<rparr>))"

section \<open>Lemmas\<close>

lemma retry_delay_bounds:
  assumes "0 \<le> jitter" and "jitter \<le> secs 1"
  shows "secs 5 \<le> retry_delay used jitter" and "retry_delay used jitter \<le> secs 301"
proof -
  have "(1::int) \<le> 3 ^ (used - 1)" by simp
  then have "secs 5 \<le> secs (5 * 3 ^ (used - 1))" by simp
  moreover have "secs 5 \<le> secs 300" by simp
  ultimately show "secs 5 \<le> retry_delay used jitter"
    using assms(1) unfolding retry_delay_def by linarith
  show "retry_delay used jitter \<le> secs 301"
    using assms(2) by (simp add: retry_delay_def secs_def min_def)
qed

lemma retry_delay_mono: "m \<le> n \<Longrightarrow> retry_delay m jitter \<le> retry_delay n jitter"
proof -
  assume "m \<le> n"
  then have "(3::int) ^ (m - 1) \<le> 3 ^ (n - 1)"
    by (intro power_increasing) auto
  then have "secs (5 * 3 ^ (m - 1)) \<le> secs (5 * 3 ^ (n - 1))" by simp
  then show ?thesis unfolding retry_delay_def by linarith
qed

lemma retry_decide_iff:
  "rd_retry (retry_decide cfg stage attempts failure message now jitter) \<longleftrightarrow>
     transient_failure cfg stage failure \<and>
     max 1 (if attempts = 0 then 1 else attempts) < stage_budget cfg stage"
  by (auto simp: retry_decide_def Let_def)

section \<open>Properties\<close>

text \<open>
  Bounded retries: a decision to retry is only taken for a transient failure
  and while the attempts of the stage are below its budget, so a job whose attempt counter
  has reached the budget is never retried; and the retry is due at once or within
  5 to 301 seconds.
\<close>

theorem retry_bounded:
  assumes "rd_retry (retry_decide cfg stage attempts failure message now jitter)"
    and "0 \<le> jitter" and "jitter \<le> secs 1"
  shows "transient_failure cfg stage failure \<and> attempts < stage_budget cfg stage \<and>
    (\<exists>t. rd_next_retry_at (retry_decide cfg stage attempts failure message now jitter) = Some t \<and>
         (t = now \<or> now + secs 5 \<le> t \<and> t \<le> now + secs 301))"
proof -
  from assms(1) have ok: "transient_failure cfg stage failure"
    "max 1 (if attempts = 0 then 1 else attempts) < stage_budget cfg stage"
    by (simp_all add: retry_decide_iff)
  then have "attempts < stage_budget cfg stage" by (simp split: if_splits)
  with ok retry_delay_bounds [OF assms(2,3)] show ?thesis
    by (auto simp: retry_decide_def Let_def)
qed

theorem retry_bounded_witness:
  "let cfg = \<lparr>rs_generation_attempts = 3, rs_download_attempts = 5, rs_save_attempts = 5,
              rs_account_retry_enabled = True, rs_max_account_attempts = 0\<rparr>;
       d = retry_decide cfg SDownloading 2 (image_failure_of (Some ''image_download_failed'') None)
             (MText ''timeout'') 0 7
   in rd_retry d \<and> rd_next_retry_at d = Some (secs 15 + 7)"
proof -
  let ?cfg = "\<lparr>rs_generation_attempts = 3, rs_download_attempts = 5, rs_save_attempts = 5,
              rs_account_retry_enabled = True, rs_max_account_attempts = 0\<rparr>"
  let ?f = "image_failure_of (Some ''image_download_failed'') None"
  let ?d = "retry_decide ?cfg SDownloading 2 ?f (MText ''timeout'') 0 7"
  have r: "rd_retry ?d" by code_simp
  have n: "rd_next_retry_at ?d = Some (secs 15 + 7)" by code_simp
  have "0 \<le> (7::int)" and "7 \<le> secs 1" by (simp_all add: secs_def)
  from retry_bounded [OF r this] show ?thesis using r n by (simp add: Let_def)
qed

text \<open>
  Permanent failures stay permanent: no stage, attempt count or configuration
  retries a hard-fail code, nor, outside the download and save stages, a text-review
  failure (status 400).
\<close>

theorem retry_never_on_permanent_failure:
  assumes "failure = image_failure_of code ra"
    and "if_code failure \<in> set retry_hard_fail_codes \<or> fp_status_code (if_policy failure) = 400"
  shows "\<not> rd_retry (retry_decide cfg stage attempts failure message now jitter)"
proof -
  have row: "map_of failure_policies (if_code failure) = Some (if_policy failure)"
    unfolding assms(1) by (rule image_failure_row)
  from policy_row [OF row] have ok: "policy_row_ok (if_code failure, if_policy failure)" .
  have norm: "normalize_failure_code (if_code failure) = if_code failure"
    by (rule normalize_known_code [OF row])
  have "\<not> transient_failure cfg stage failure"
    using assms(2) ok row norm
    by (auto simp: transient_failure_def generating_switch_def policy_row_ok_def text_or_empty_def
        should_switch_image_account_def should_switch_generating_account_def policy_of_code_def)
  then show ?thesis by (simp add: retry_decide_iff)
qed

theorem retry_never_on_permanent_failure_witness:
  "\<not> rd_retry (retry_decide
     \<lparr>rs_generation_attempts = 3, rs_download_attempts = 5, rs_save_attempts = 5,
      rs_account_retry_enabled = True, rs_max_account_attempts = 9\<rparr>
     SGenerating 1 (image_failure_of (Some ''safety_blocked'') None) (MText ''no'') 0 0)"
proof (rule retry_never_on_permanent_failure [OF refl])
  have "fp_status_code (if_policy (image_failure_of (Some ''safety_blocked'') None)) = 400"
    by code_simp
  then show "if_code (image_failure_of (Some ''safety_blocked'') None) \<in> set retry_hard_fail_codes \<or>
    fp_status_code (if_policy (image_failure_of (Some ''safety_blocked'') None)) = 400" by simp
qed

end
