(* ===== verification/Resource_Controller.thy ===== *)
theory Resource_Controller
  imports Py_Prelude Complex_Main
begin

text \<open>
  The admission control of the queue (\<open>services/image_queue/resource_controller.py\<close>): the
  occupancy latch with its two timers, the hard walls, the four decisions built from them,
  the window of upstream outcomes, and the smoothing of the CPU probes. Percentages and
  seconds, floats in the code, are rationals here, so divisions are exact; the readings of
  psutil, cgroup files and the clock are arguments.
\<close>

section \<open>Snapshots, settings, state\<close>

record resource_snapshot =
  rs_cpu_percent :: rat
  rs_available_memory_bytes :: int
  rs_memory_limit_bytes :: int
  rs_swap_in :: int
  rs_swap_out :: int
  rs_thread_count :: int
  rs_file_handle_count :: int
  rs_database_pool_percent :: rat
  rs_disk_free_bytes :: int
  rs_disk_free_percent :: rat
  rs_swap_used_percent :: rat
  rs_swap_total_bytes :: int

record resource_decision =
  rd_allowed :: bool
  rd_reason :: string
  rd_effective_limit :: int

record resource_settings =
  rc_pause_percent :: rat
  rc_resume_percent :: rat
  rc_hold_seconds :: rat
  rc_absolute_guard :: int
  rc_generation_limit :: int
  rc_nofile_limit :: "int option"

text \<open>The latch: paused or not, why, who latched it, and since when readings are high or low.\<close>

record occupancy_latch =
  oc_paused :: bool
  oc_reason :: string
  oc_source :: string
  oc_high_since :: "rat option"
  oc_low_since :: "rat option"
  oc_cpu_sample :: "(rat \<times> rat) option"

definition initial_latch :: occupancy_latch where
  "initial_latch = \<lparr>oc_paused = False, oc_reason = '''', oc_source = '''', oc_high_since = None,
     oc_low_since = None, oc_cpu_sample = None\<rparr>"

definition denied :: "string \<Rightarrow> resource_decision" where
  "denied reason = \<lparr>rd_allowed = False, rd_reason = reason, rd_effective_limit = 0\<rparr>"

definition granted :: "int \<Rightarrow> resource_decision" where
  "granted limit = \<lparr>rd_allowed = True, rd_reason = '''', rd_effective_limit = limit\<rparr>"

lemma decision_simps [simp]:
  "\<not> rd_allowed (denied r)" "rd_allowed (granted n)" "rd_reason (denied r) = r"
  "rd_effective_limit (denied r) = 0" "rd_effective_limit (granted n) = n" "rd_reason (granted n) = ''''"
  by (simp_all add: denied_def granted_def)

section \<open>Readings\<close>

definition clamp_percent :: "rat \<Rightarrow> rat" where
  "clamp_percent x = max 0 (min 100 x)"

definition memory_used_from_bytes :: "int \<Rightarrow> int \<Rightarrow> rat" where
  "memory_used_from_bytes available limit =
     (if limit \<le> 0 then 0
      else clamp_percent (of_int (max 0 (limit - max 0 available)) / of_int limit * 100))"

definition memory_used_percent :: "resource_snapshot \<Rightarrow> rat" where
  "memory_used_percent s = memory_used_from_bytes (rs_available_memory_bytes s) (rs_memory_limit_bytes s)"

definition occupancy_percentages :: "resource_snapshot \<Rightarrow> rat \<times> rat \<times> rat" where
  "occupancy_percentages s =
     (clamp_percent (rs_cpu_percent s), memory_used_percent s,
      if 0 < rs_swap_total_bytes s then clamp_percent (rs_swap_used_percent s) else 0)"

definition occupancy_reason_from_values :: "resource_settings \<Rightarrow> rat \<Rightarrow> rat \<Rightarrow> rat \<Rightarrow> string" where
  "occupancy_reason_from_values cfg cpu memory swap =
     (if rc_pause_percent cfg \<le> cpu then ''resource_cpu''
      else if rc_pause_percent cfg \<le> memory then ''resource_memory''
      else if rc_pause_percent cfg \<le> swap then ''resource_swap''
      else ''resource_occupancy'')"

definition disk_pressure :: "resource_snapshot \<Rightarrow> bool" where
  "disk_pressure s \<longleftrightarrow> rs_disk_free_bytes s < 5 * 1024 ^ 3 \<or> rs_disk_free_percent s < 5"

definition memory_pressure :: "resource_snapshot \<Rightarrow> bool" where
  "memory_pressure s \<longleftrightarrow>
     0 < rs_memory_limit_bytes s \<and> rs_available_memory_bytes s < rs_memory_limit_bytes s div 20"

definition file_handle_guard :: "resource_settings \<Rightarrow> int" where
  "file_handle_guard cfg =
     (let computed = max 8192 (max 1 (rc_generation_limit cfg) * 8 + 1024)
      in case rc_nofile_limit cfg of
           None \<Rightarrow> computed
         | Some n \<Rightarrow> min computed (max 1 (n - 1024)))"

section \<open>The occupancy latch\<close>

definition cpu_min_interval :: rat where
  "cpu_min_interval = 1 / 5"

text \<open>A high CPU reading is kept for the minimal interval while the latch is open.\<close>

definition stabilize_occupancy_cpu ::
  "resource_settings \<Rightarrow> rat \<Rightarrow> rat \<Rightarrow> occupancy_latch \<Rightarrow> rat \<times> occupancy_latch" where
  "stabilize_occupancy_cpu cfg now raw oc =
     (let clamped = clamp_percent raw;
          sampled = (clamped, oc\<lparr>oc_cpu_sample := Some (clamped, now)\<rparr>)
      in if rc_pause_percent cfg \<le> clamped then sampled
         else case oc_cpu_sample oc of
                Some (v, seen) \<Rightarrow>
                  if \<not> oc_paused oc \<and> rc_pause_percent cfg \<le> v \<and> now - seen < cpu_min_interval
                  then (v, oc) else sampled
              | None \<Rightarrow> sampled)"

definition hold_seconds :: "resource_settings \<Rightarrow> rat" where
  "hold_seconds cfg = max (1 / 10) (rc_hold_seconds cfg)"

definition held :: "resource_settings \<Rightarrow> rat \<Rightarrow> rat option \<Rightarrow> bool" where
  "held cfg now since = (case since of None \<Rightarrow> False | Some t \<Rightarrow> hold_seconds cfg \<le> now - t)"

definition since_or :: "rat \<Rightarrow> rat option \<Rightarrow> rat option" where
  "since_or now since = (case since of None \<Rightarrow> Some now | Some t \<Rightarrow> Some t)"

text \<open>The branch for a high reading.\<close>

definition latch_high ::
  "resource_settings \<Rightarrow> rat \<Rightarrow> rat \<times> rat \<times> rat \<Rightarrow> string \<Rightarrow> occupancy_latch \<Rightarrow> occupancy_latch" where
  "latch_high cfg now values source oc0 =
     (let oc = oc0\<lparr>oc_low_since := None, oc_high_since := since_or now (oc_high_since oc0)\<rparr>
      in if \<not> oc_paused oc \<and> held cfg now (oc_high_since oc)
         then (case values of (cpu, memory, swap) \<Rightarrow>
           oc\<lparr>oc_paused := True, oc_reason := occupancy_reason_from_values cfg cpu memory swap,
              oc_source := (if source \<noteq> '''' \<and> source \<noteq> ''registration'' then source else oc_source oc)\<rparr>)
         else if oc_paused oc \<and> source \<in> {''generation'', ''submission''} \<and>
                 oc_source oc \<in> {'''', ''registration''}
         then oc\<lparr>oc_source := source\<rparr>
         else oc)"

text \<open>The branch of a closed latch, for a reading that is not high.\<close>

definition latch_closed :: "resource_settings \<Rightarrow> rat \<Rightarrow> bool \<Rightarrow> occupancy_latch \<Rightarrow> occupancy_latch" where
  "latch_closed cfg now low oc0 =
     (let oc = oc0\<lparr>oc_high_since := None, oc_low_since := (if low then since_or now (oc_low_since oc0) else None)\<rparr>
      in if low \<and> held cfg now (oc_low_since oc)
         then oc\<lparr>oc_paused := False, oc_reason := '''', oc_source := '''', oc_low_since := None\<rparr>
         else oc)"

text \<open>The branch of an open latch: a low period of the hold time cancels the high timer.\<close>

definition latch_open :: "resource_settings \<Rightarrow> rat \<Rightarrow> bool \<Rightarrow> occupancy_latch \<Rightarrow> occupancy_latch" where
  "latch_open cfg now low oc0 =
     (let oc = oc0\<lparr>oc_low_since := (if low then since_or now (oc_low_since oc0) else None)\<rparr>
      in if low \<and> held cfg now (oc_low_since oc)
         then oc\<lparr>oc_high_since := None, oc_low_since := None\<rparr>
         else oc)"

definition high_reading :: "resource_settings \<Rightarrow> rat \<times> rat \<times> rat \<Rightarrow> bool" where
  "high_reading cfg v =
     (case v of (cpu, memory, swap) \<Rightarrow>
        rc_pause_percent cfg \<le> cpu \<or> rc_pause_percent cfg \<le> memory \<or> rc_pause_percent cfg \<le> swap)"

definition low_reading :: "resource_settings \<Rightarrow> rat \<times> rat \<times> rat \<Rightarrow> bool" where
  "low_reading cfg v =
     (case v of (cpu, memory, swap) \<Rightarrow>
        cpu < rc_resume_percent cfg \<and> memory < rc_resume_percent cfg \<and> swap < rc_resume_percent cfg)"

definition latch_step ::
  "resource_settings \<Rightarrow> rat \<Rightarrow> rat \<times> rat \<times> rat \<Rightarrow> string \<Rightarrow> occupancy_latch \<Rightarrow> occupancy_latch" where
  "latch_step cfg now v source oc =
     (if high_reading cfg v then latch_high cfg now v source oc
      else if oc_paused oc then latch_closed cfg now (low_reading cfg v) oc
      else latch_open cfg now (low_reading cfg v) oc)"

definition stable_values ::
  "resource_settings \<Rightarrow> rat \<Rightarrow> resource_snapshot \<Rightarrow> occupancy_latch \<Rightarrow> (rat \<times> rat \<times> rat) \<times> occupancy_latch" where
  "stable_values cfg now s oc =
     (case occupancy_percentages s of (cpu, memory, swap) \<Rightarrow>
        case stabilize_occupancy_cpu cfg now cpu oc of (cpu', oc') \<Rightarrow> ((cpu', memory, swap), oc'))"

definition update_occupancy_gate ::
  "resource_settings \<Rightarrow> rat \<Rightarrow> resource_snapshot \<Rightarrow> string \<Rightarrow> occupancy_latch \<Rightarrow> string \<times> occupancy_latch" where
  "update_occupancy_gate cfg now s source oc0 =
     (let (v, oc1) = stable_values cfg now s oc0;
          oc = latch_step cfg now v source oc1
      in (if \<not> oc_paused oc then ''''
          else if oc_reason oc \<noteq> '''' then oc_reason oc
          else (case v of (cpu, memory, swap) \<Rightarrow> occupancy_reason_from_values cfg cpu memory swap),
          oc))"

definition fail_closed :: "rat \<Rightarrow> string \<Rightarrow> occupancy_latch \<Rightarrow> occupancy_latch" where
  "fail_closed now reason oc =
     oc\<lparr>oc_paused := True, oc_reason := (if reason = '''' then ''resource_pressure'' else reason),
        oc_source := ''fail_closed'', oc_high_since := Some now, oc_low_since := None\<rparr>"

section \<open>The window of upstream outcomes\<close>

definition ignored_upstream_codes :: "string list" where
  "ignored_upstream_codes =
     [''no_available_account'', ''internal_error'', ''image_claim_timeout'', ''insufficient_quota'',
      ''image_queue_resource_pressure'', ''image_queue_unavailable'', ''image_queue_storage_full'',
      ''queue_timeout'', ''local_artifact_unavailable'', ''worker_local_recovery_unavailable'',
      ''recovery_account_unavailable'', ''task_interrupted'', ''image_task_pending'',
      ''content_policy_violation'', ''invalid_image_input'', ''auth_invalid'', ''account_disabled'']"

definition transient_upstream_codes :: "string list" where
  "transient_upstream_codes =
     [''upstream_timeout'', ''upstream_5xx'', ''upstream_rate_limited'', ''rate_limited'',
      ''image_stream_interrupted'', ''image_poll_timeout'', ''image_stream_timeout'',
      ''network_error'', ''upstream_connection_failed'', ''upstream_connection_timeout'',
      ''upstream_unavailable'', ''upstream_error'']"

definition transient_upstream_failure :: "string \<Rightarrow> bool" where
  "transient_upstream_failure error_code \<longleftrightarrow>
     (let code = py_lower (py_strip error_code)
      in code \<noteq> '''' \<and> code \<notin> set ignored_upstream_codes \<and>
         (take 9 code = ''upstream_'' \<or> code \<in> set transient_upstream_codes))"

text \<open>A deque of the last 40 outcomes.\<close>

definition push_outcome :: "rat \<times> bool \<Rightarrow> (rat \<times> bool) list \<Rightarrow> (rat \<times> bool) list" where
  "push_outcome x xs = (let ys = xs @ [x] in drop (length ys - 40) ys)"

definition note_upstream_outcome ::
  "rat \<Rightarrow> bool \<Rightarrow> string \<Rightarrow> (rat \<times> bool) list \<Rightarrow> (rat \<times> bool) list" where
  "note_upstream_outcome now success error_code xs =
     (if success then push_outcome (now, True) xs
      else if transient_upstream_failure error_code then push_outcome (now, False) xs
      else xs)"

definition prune_upstream_outcomes :: "rat \<Rightarrow> (rat \<times> bool) list \<Rightarrow> (rat \<times> bool) list" where
  "prune_upstream_outcomes now xs = filter (\<lambda>(seen, ok). now - seen < 60) xs"

definition upstream_error_rate :: "rat \<Rightarrow> (rat \<times> bool) list \<Rightarrow> rat" where
  "upstream_error_rate now xs =
     (let recent = prune_upstream_outcomes now xs
      in if length recent < 8 then 0
         else of_nat (length (filter (\<lambda>(seen, ok). \<not> ok) recent)) / of_nat (length recent))"

section \<open>Decisions\<close>

definition hard_resource_wall ::
  "resource_settings \<Rightarrow> rat \<Rightarrow> bool \<Rightarrow> bool \<Rightarrow> resource_snapshot \<Rightarrow> string" where
  "hard_resource_wall cfg rate include_upstream include_database_pool s =
     (if disk_pressure s then ''resource_disk''
      else if include_database_pool \<and> 85 \<le> rs_database_pool_percent s then ''resource_database_pool''
      else if memory_pressure s then ''resource_memory''
      else if file_handle_guard cfg \<le> rs_file_handle_count s then ''resource_file_handles''
      else if rc_absolute_guard cfg \<le> rs_thread_count s then ''resource_threads''
      else if include_upstream \<and> 45 / 100 \<le> rate then ''resource_upstream_errors''
      else '''')"

definition allow_recovery :: "resource_settings \<Rightarrow> resource_snapshot \<Rightarrow> resource_decision" where
  "allow_recovery cfg s =
     (if disk_pressure s then denied ''resource_disk''
      else if 95 \<le> rs_database_pool_percent s then denied ''resource_database_pool''
      else if file_handle_guard cfg \<le> rs_file_handle_count s then denied ''resource_file_handles''
      else if rc_absolute_guard cfg \<le> rs_thread_count s then denied ''resource_threads''
      else granted (max 1 (rc_absolute_guard cfg)))"

definition allow_new_generation ::
  "resource_settings \<Rightarrow> rat \<Rightarrow> rat \<Rightarrow> resource_snapshot \<Rightarrow> occupancy_latch \<Rightarrow>
   resource_decision \<times> occupancy_latch" where
  "allow_new_generation cfg now rate s oc0 =
     (let (occupancy_reason, oc) = update_occupancy_gate cfg now s ''generation'' oc0;
          hard_reason = hard_resource_wall cfg rate True True s
      in (if occupancy_reason \<noteq> '''' then denied occupancy_reason
          else if hard_reason \<noteq> '''' then denied hard_reason
          else granted (max 1 (rc_generation_limit cfg)), oc))"

definition allow_new_registration ::
  "resource_settings \<Rightarrow> rat \<Rightarrow> resource_snapshot \<Rightarrow> occupancy_latch \<Rightarrow>
   resource_decision \<times> occupancy_latch" where
  "allow_new_registration cfg now s oc0 =
     (let (occupancy_reason, oc) = update_occupancy_gate cfg now s ''registration'' oc0
      in (if occupancy_reason \<noteq> '''' then denied occupancy_reason else granted 1, oc))"

definition allow_new_submission ::
  "resource_settings \<Rightarrow> rat \<Rightarrow> rat \<Rightarrow> resource_snapshot \<Rightarrow> occupancy_latch \<Rightarrow>
   resource_decision \<times> occupancy_latch" where
  "allow_new_submission cfg now rate s oc0 =
     (if disk_pressure s then (denied ''resource_disk'', oc0)
      else
        let (occupancy_reason, oc) = update_occupancy_gate cfg now s ''submission'' oc0;
            hard_reason = hard_resource_wall cfg rate False False s
        in (if occupancy_reason \<noteq> '''' then denied occupancy_reason
            else if hard_reason \<noteq> '''' then denied hard_reason
            else granted 1, oc))"

definition evaluate ::
  "resource_settings \<Rightarrow> rat \<Rightarrow> rat \<Rightarrow> resource_snapshot \<Rightarrow> occupancy_latch \<Rightarrow>
   (resource_decision \<times> resource_decision) \<times> occupancy_latch" where
  "evaluate cfg now rate s oc0 =
     (let (generation, oc) = allow_new_generation cfg now rate s oc0
      in ((generation, allow_recovery cfg s), oc))"

definition inspect_generation_gate ::
  "resource_settings \<Rightarrow> rat \<Rightarrow> rat \<Rightarrow> resource_snapshot \<Rightarrow> occupancy_latch \<Rightarrow>
   (bool \<times> string \<times> resource_decision) \<times> occupancy_latch" where
  "inspect_generation_gate cfg now rate s oc0 =
     (let (generation, oc) = allow_new_generation cfg now rate s oc0
      in ((if oc_paused oc
           then (True, if oc_reason oc \<noteq> '''' then oc_reason oc
                       else if rd_reason generation \<noteq> '''' then rd_reason generation
                       else ''resource_occupancy'', generation)
           else if \<not> rd_allowed generation
           then (False, if rd_reason generation \<noteq> '''' then rd_reason generation else ''resource_pressure'',
                 generation)
           else (False, '''', generation)), oc))"

definition generation_gate_reasons :: "string list" where
  "generation_gate_reasons =
     [''resource_cpu'', ''resource_memory'', ''resource_swap'', ''resource_occupancy'',
      ''resource_disk'', ''resource_threads'', ''resource_file_handles'', ''resource_database_pool'',
      ''resource_backlog'', ''resource_upstream_errors'', ''resource_pressure'', ''resource_paused'']"

definition generation_gate_closed :: "bool \<Rightarrow> string \<Rightarrow> bool" where
  "generation_gate_closed paused reason \<longleftrightarrow> paused \<or> reason \<in> set generation_gate_reasons"

section \<open>Probes\<close>

text \<open>
  The host's CPU percentage from the idle and total times of two samples: a frozen counter or
  a short quiet interval keeps the last percentage, so a dip within the minimal interval is
  not seen. The fourth component of a sample is its percentage.
\<close>

type_synonym host_sample = "rat \<times> rat \<times> rat \<times> rat"

definition host_cpu_percent ::
  "resource_settings \<Rightarrow> rat \<Rightarrow> rat \<Rightarrow> rat \<Rightarrow> rat \<Rightarrow> host_sample option \<Rightarrow> rat \<times> host_sample option" where
  "host_cpu_percent cfg now idle ticks bootstrap previous =
     (case previous of
        None \<Rightarrow> (bootstrap, Some (idle, ticks, now, bootstrap))
      | Some (last_idle, last_total, last_now, last_percent) \<Rightarrow>
          let elapsed = now - last_now;
              dt_total = ticks - last_total;
              percent = clamp_percent ((1 - (idle - last_idle) / dt_total) * 100)
          in if elapsed \<le> 0 \<or> dt_total \<le> 0 then (last_percent, previous)
             else if elapsed < cpu_min_interval \<and> percent < rc_pause_percent cfg \<and> percent < last_percent
             then (last_percent, previous)
             else (percent, Some (idle, ticks, now, percent)))"

record container_probe =
  cp_sample :: "(int \<times> rat) option"
  cp_percent :: "rat option"

definition container_cpu_percent ::
  "resource_settings \<Rightarrow> rat \<Rightarrow> rat option \<Rightarrow> int option \<Rightarrow> rat \<Rightarrow> container_probe \<Rightarrow> rat \<times> container_probe" where
  "container_cpu_percent cfg now limit_cores usage fallback probe =
     (case (limit_cores, usage) of
        (Some cores, Some used) \<Rightarrow>
          (case cp_sample probe of
             Some (last_used, last_now) \<Rightarrow>
               if used < last_used
               then (case cp_percent probe of
                       Some p \<Rightarrow> (if rc_pause_percent cfg \<le> p \<or> fallback \<le> p then p else fallback,
                                  probe\<lparr>cp_sample := Some (used, now)\<rparr>)
                     | None \<Rightarrow> (fallback, probe\<lparr>cp_sample := Some (used, now)\<rparr>))
               else if now - last_now \<le> 0
               then (case cp_percent probe of Some p \<Rightarrow> (p, probe) | None \<Rightarrow> (fallback, probe))
               else
                 let elapsed = now - last_now;
                     percent = clamp_percent (of_int (used - last_used) / 1000000 / elapsed / cores * 100)
                 in (case cp_percent probe of
                       Some p \<Rightarrow>
                         if elapsed < cpu_min_interval \<and> percent < rc_pause_percent cfg \<and> percent < p
                         then (p, probe)
                         else (percent, \<lparr>cp_sample = Some (used, now), cp_percent = Some percent\<rparr>)
                     | None \<Rightarrow> (percent, \<lparr>cp_sample = Some (used, now), cp_percent = Some percent\<rparr>))
           | None \<Rightarrow>
               (case cp_percent probe of
                  Some p \<Rightarrow> (if rc_pause_percent cfg \<le> p \<or> fallback \<le> p then p else fallback,
                             probe\<lparr>cp_sample := Some (used, now)\<rparr>)
                | None \<Rightarrow> (fallback, probe\<lparr>cp_sample := Some (used, now)\<rparr>)))
      | _ \<Rightarrow> (fallback, probe))"

definition swap_rates :: "int \<times> int \<times> rat \<Rightarrow> (int \<times> int \<times> rat) option \<Rightarrow> int \<times> int" where
  "swap_rates current previous =
     (case (current, previous) of
        ((si, so, now), Some (psi, pso, pnow)) \<Rightarrow>
          if now \<le> pnow then (0, 0)
          else (\<lfloor>of_int (max 0 (si - psi)) / (now - pnow)\<rfloor>, \<lfloor>of_int (max 0 (so - pso)) / (now - pnow)\<rfloor>)
      | _ \<Rightarrow> (0, 0))"

text \<open>
  Within the minimal interval a cached snapshot is reused with the occupancy fields of the
  fresh probe \<open>fresh\<close>, unless these are lower than the cached ones and below the pause limit.
\<close>

definition swap_percent_of :: "resource_snapshot \<Rightarrow> rat" where
  "swap_percent_of s = (if 0 < rs_swap_total_bytes s then rs_swap_used_percent s else 0)"

definition refresh_occupancy_fields ::
  "resource_settings \<Rightarrow> resource_snapshot \<Rightarrow> resource_snapshot \<Rightarrow> resource_snapshot" where
  "refresh_occupancy_fields cfg fresh cached =
     (let pause = rc_pause_percent cfg;
          newer = (\<lambda>overlay kept. pause \<le> overlay \<or> kept \<le> overlay);
          cpu = (if newer (rs_cpu_percent fresh) (clamp_percent (rs_cpu_percent cached))
                 then rs_cpu_percent fresh else clamp_percent (rs_cpu_percent cached));
          memory = (if newer (memory_used_percent fresh) (memory_used_percent cached) then fresh else cached);
          swap = (if newer (swap_percent_of fresh) (swap_percent_of cached) then fresh else cached)
      in cached\<lparr>rs_cpu_percent := cpu,
           rs_available_memory_bytes := rs_available_memory_bytes memory,
           rs_memory_limit_bytes := rs_memory_limit_bytes memory,
           rs_swap_in := rs_swap_in swap, rs_swap_out := rs_swap_out swap,
           rs_swap_used_percent := rs_swap_used_percent swap,
           rs_swap_total_bytes := rs_swap_total_bytes swap\<rparr>)"

definition probe_machine ::
  "resource_settings \<Rightarrow> rat \<Rightarrow> resource_snapshot \<Rightarrow> (rat \<times> resource_snapshot) option \<Rightarrow>
   resource_snapshot \<times> (rat \<times> resource_snapshot) option" where
  "probe_machine cfg now fresh cache =
     (case cache of
        Some (stamp, cached) \<Rightarrow>
          if now - stamp < cpu_min_interval
          then (let r = refresh_occupancy_fields cfg fresh cached in (r, Some (stamp, r)))
          else (fresh, Some (now, fresh))
      | None \<Rightarrow> (fresh, Some (now, fresh)))"

section \<open>The latch keeps its hold time\<close>

text \<open>
  The readings the latch has seen, oldest first, with the CPU value as the latch used it. It
  starts open, or closed by \<open>fail_closed\<close> when the controller could not be set up.
\<close>

inductive latch_history ::
  "resource_settings \<Rightarrow> (rat \<times> rat \<times> rat \<times> rat) list \<Rightarrow> occupancy_latch \<Rightarrow> bool"
  for cfg :: resource_settings where
  fresh: "latch_history cfg [] initial_latch"
| failed: "latch_history cfg [] (fail_closed now reason initial_latch)"
| reading: "latch_history cfg h oc \<Longrightarrow> stable_values cfg now s oc = (v, oc1) \<Longrightarrow>
    latch_history cfg (h @ [(now, v)]) (latch_step cfg now v source oc1)"

definition low_since_start :: "resource_settings \<Rightarrow> (rat \<times> rat \<times> rat \<times> rat) list \<Rightarrow> rat \<Rightarrow> bool" where
  "low_since_start cfg h t \<longleftrightarrow>
     (\<exists>pre v suf. h = pre @ (t, v) # suf \<and> (\<forall>(u, w) \<in> set ((t, v) # suf). low_reading cfg w))"

lemma low_since_start_snoc:
  assumes "low_since_start cfg h t" and "low_reading cfg v"
  shows "low_since_start cfg (h @ [(now, v)]) t"
proof -
  from assms(1) obtain pre w suf where "h = pre @ (t, w) # suf"
    "\<forall>(u, x) \<in> set ((t, w) # suf). low_reading cfg x"
    by (auto simp: low_since_start_def)
  with assms(2) show ?thesis
    unfolding low_since_start_def
    by (intro exI [of _ pre] exI [of _ w] exI [of _ "suf @ [(now, v)]"]) auto
qed

lemma low_since_start_now: "low_reading cfg v \<Longrightarrow> low_since_start cfg (h @ [(now, v)]) now"
  unfolding low_since_start_def by (intro exI [of _ h] exI [of _ v] exI [of _ "[]"]) simp

lemma stabilize_frame:
  assumes "stabilize_occupancy_cpu cfg now raw oc = (v, oc1)"
  shows "oc1 = oc \<or> (\<exists>x. oc1 = oc\<lparr>oc_cpu_sample := x\<rparr>)"
  using assms by (auto simp: stabilize_occupancy_cpu_def Let_def split: option.splits if_splits)

lemma stable_values_frame:
  assumes "stable_values cfg now s oc = (v, oc1)"
  shows "oc_paused oc1 = oc_paused oc" "oc_low_since oc1 = oc_low_since oc"
    "oc_high_since oc1 = oc_high_since oc" "oc_reason oc1 = oc_reason oc"
proof -
  from assms obtain x w where "stabilize_occupancy_cpu cfg now x oc = (w, oc1)"
    by (auto simp: stable_values_def split: prod.splits)
  from stabilize_frame [OF this]
  show "oc_paused oc1 = oc_paused oc" "oc_low_since oc1 = oc_low_since oc"
    "oc_high_since oc1 = oc_high_since oc" "oc_reason oc1 = oc_reason oc" by auto
qed

text \<open>What one step does to the timers and to the latch.\<close>

lemma latch_step_low_since:
  assumes "oc_low_since (latch_step cfg now v source oc) = Some t"
  shows "low_reading cfg v \<and> since_or now (oc_low_since oc) = Some t"
  using assms
  by (simp add: latch_step_def latch_high_def latch_closed_def latch_open_def Let_def
      split: if_splits prod.splits)

lemma latch_step_high_since:
  assumes "oc_high_since (latch_step cfg now v source oc) = Some t"
  shows "oc_high_since oc = Some t \<or> high_reading cfg v \<and> t = now"
  using assms
  by (cases "oc_high_since oc")
     (simp_all add: latch_step_def latch_high_def latch_closed_def latch_open_def since_or_def Let_def
      split: if_splits prod.splits)

lemma latch_step_pauses:
  assumes "oc_paused (latch_step cfg now v source oc)" and "\<not> oc_paused oc"
  shows "high_reading cfg v \<and> held cfg now (oc_high_since (latch_step cfg now v source oc))"
  using assms
  by (simp add: latch_step_def latch_high_def latch_open_def Let_def split: if_splits prod.splits)

lemma latch_step_resumes:
  assumes "\<not> oc_paused (latch_step cfg now v source oc)" and "oc_paused oc"
  shows "\<not> high_reading cfg v \<and> low_reading cfg v \<and> held cfg now (since_or now (oc_low_since oc)) \<and>
    oc_high_since (latch_step cfg now v source oc) = None"
  using assms
  by (simp add: latch_step_def latch_high_def latch_closed_def Let_def split: if_splits prod.splits)

lemma low_since_step:
  assumes "\<And>u. oc_low_since oc = Some u \<Longrightarrow> low_since_start cfg h u"
    and "low_reading cfg v" and "since_or now (oc_low_since oc) = Some t"
  shows "low_since_start cfg (h @ [(now, v)]) t"
  using assms low_since_start_snoc low_since_start_now
  by (cases "oc_low_since oc") (auto simp: since_or_def)

lemma latch_history_low:
  "latch_history cfg h oc \<Longrightarrow> oc_low_since oc = Some t \<Longrightarrow> low_since_start cfg h t"
proof (induction arbitrary: t rule: latch_history.induct)
  case (reading h oc now s v oc1 source)
  from latch_step_low_since [OF reading.prems] show ?case
    unfolding stable_values_frame(2) [OF reading.hyps(2)]
    using reading.IH by (blast intro: low_since_step)
qed (simp_all add: initial_latch_def fail_closed_def)

text \<open>The timer of an open latch started at a high reading.\<close>

lemma latch_history_high:
  "latch_history cfg h oc \<Longrightarrow> oc_high_since oc = Some t \<Longrightarrow> \<not> oc_paused oc \<Longrightarrow>
   \<exists>v. (t, v) \<in> set h \<and> high_reading cfg v"
proof (induction arbitrary: t rule: latch_history.induct)
  case (reading h oc now s v oc1 source)
  note frame = stable_values_frame [OF reading.hyps(2)]
  have open': "\<not> oc_paused oc"
    using latch_step_resumes [OF reading.prems(2)] reading.prems(1) frame(1) by auto
  from latch_step_high_since [OF reading.prems(1)] show ?case
  proof
    assume "oc_high_since oc1 = Some t"
    then obtain w where "(t, w) \<in> set h" "high_reading cfg w"
      using reading.IH [OF _ open'] frame(3) by auto
    then show ?thesis by (intro exI [of _ w]) simp
  next
    assume "high_reading cfg v \<and> t = now"
    then show ?thesis by (intro exI [of _ v]) simp
  qed
qed (simp_all add: initial_latch_def fail_closed_def)

lemma update_gate_step:
  "snd (update_occupancy_gate cfg now s source oc) =
     latch_step cfg now (fst (stable_values cfg now s oc)) source (snd (stable_values cfg now s oc))"
  by (simp add: update_occupancy_gate_def Let_def split: prod.split)

lemma history_update:
  assumes "latch_history cfg h oc"
  shows "latch_history cfg (h @ [(now, fst (stable_values cfg now s oc))])
    (snd (update_occupancy_gate cfg now s source oc))"
  unfolding update_gate_step by (rule latch_history.reading [OF assms]) simp

section \<open>Properties\<close>

text \<open>
  Property C18. The occupancy latch has hysteresis in time: it only closes on a reading that
  reaches the pause limit when another such reading lies at least the hold time back, and it
  only opens when every reading for at least the hold time was below the resume limit.
\<close>

theorem latch_flips_only_after_hold:
  assumes "latch_history cfg h oc"
    and "oc' = snd (update_occupancy_gate cfg now s source oc)"
    and "h' = h @ [(now, fst (stable_values cfg now s oc))]"
  shows "(\<not> oc_paused oc \<and> oc_paused oc' \<longrightarrow>
      high_reading cfg (fst (stable_values cfg now s oc)) \<and>
      (\<exists>t w. (t, w) \<in> set h' \<and> high_reading cfg w \<and> hold_seconds cfg \<le> now - t)) \<and>
    (oc_paused oc \<and> \<not> oc_paused oc' \<longrightarrow>
      (\<exists>t. low_since_start cfg h' t \<and> hold_seconds cfg \<le> now - t))"
proof -
  obtain v oc1 where v: "stable_values cfg now s oc = (v, oc1)" by fastforce
  note frame = stable_values_frame [OF v]
  have oc': "oc' = latch_step cfg now v source oc1" unfolding assms(2) update_gate_step v by simp
  have h': "h' = h @ [(now, v)]" using assms(3) v by simp
  have "high_reading cfg v \<and> (\<exists>t w. (t, w) \<in> set h' \<and> high_reading cfg w \<and> hold_seconds cfg \<le> now - t)"
    if p: "\<not> oc_paused oc" "oc_paused oc'"
  proof -
    from latch_step_pauses [OF p(2) [unfolded oc'] p(1) [folded frame(1)]]
    obtain t where t: "high_reading cfg v" "oc_high_since (latch_step cfg now v source oc1) = Some t"
      "hold_seconds cfg \<le> now - t" by (auto simp: held_def split: option.splits)
    from latch_step_high_since [OF t(2)] have "\<exists>w. (t, w) \<in> set h' \<and> high_reading cfg w"
    proof
      assume "oc_high_since oc1 = Some t"
      then obtain w where "(t, w) \<in> set h" "high_reading cfg w"
        using latch_history_high [OF assms(1) _ p(1)] frame(3) by auto
      then show ?thesis by (intro exI [of _ w]) (simp add: h')
    next
      assume "high_reading cfg v \<and> t = now"
      then show ?thesis by (intro exI [of _ v]) (simp add: h')
    qed
    with t show ?thesis by blast
  qed
  moreover have "\<exists>t. low_since_start cfg h' t \<and> hold_seconds cfg \<le> now - t"
    if p: "oc_paused oc" "\<not> oc_paused oc'"
  proof -
    from latch_step_resumes [OF p(2) [unfolded oc'] p(1) [folded frame(1)]]
    obtain t where "low_reading cfg v" "since_or now (oc_low_since oc) = Some t" "hold_seconds cfg \<le> now - t"
      unfolding frame(2) by (auto simp: held_def split: option.splits)
    with low_since_step [OF latch_history_low [OF assms(1)]] show ?thesis unfolding h' by blast
  qed
  ultimately show ?thesis by (simp add: v)
qed

definition demo_resource_settings :: resource_settings where
  "demo_resource_settings = \<lparr>rc_pause_percent = 90, rc_resume_percent = 80, rc_hold_seconds = 5 / 2,
     rc_absolute_guard = 64, rc_generation_limit = 4, rc_nofile_limit = None\<rparr>"

definition demo_busy :: resource_snapshot where
  "demo_busy = \<lparr>rs_cpu_percent = 95, rs_available_memory_bytes = 50, rs_memory_limit_bytes = 100,
     rs_swap_in = 0, rs_swap_out = 0, rs_thread_count = 10, rs_file_handle_count = 10,
     rs_database_pool_percent = 10, rs_disk_free_bytes = 6 * 1024 ^ 3, rs_disk_free_percent = 50,
     rs_swap_used_percent = 0, rs_swap_total_bytes = 0\<rparr>"

definition demo_latch :: occupancy_latch where
  "demo_latch = snd (update_occupancy_gate demo_resource_settings 0 demo_busy ''generation'' initial_latch)"

theorem latch_flips_only_after_hold_witness:
  "\<not> oc_paused demo_latch \<and>
   oc_paused (snd (update_occupancy_gate demo_resource_settings 3 demo_busy ''generation'' demo_latch)) \<and>
   (\<exists>t w. (t, w) \<in> {(0, fst (stable_values demo_resource_settings 0 demo_busy initial_latch)),
                   (3, fst (stable_values demo_resource_settings 3 demo_busy demo_latch))} \<and>
      high_reading demo_resource_settings w \<and> hold_seconds demo_resource_settings \<le> 3 - t)"
proof -
  have h: "latch_history demo_resource_settings
      ([] @ [(0, fst (stable_values demo_resource_settings 0 demo_busy initial_latch))]) demo_latch"
    unfolding demo_latch_def by (rule history_update [OF latch_history.fresh])
  have p: "\<not> oc_paused demo_latch"
    "oc_paused (snd (update_occupancy_gate demo_resource_settings 3 demo_busy ''generation'' demo_latch))"
    by code_simp+
  from latch_flips_only_after_hold [OF h refl refl, of 3 demo_busy "''generation''"] p
  show ?thesis by (simp only: set_append list.set append_Nil) blast
qed

lemma hard_wall_reason:
  "hard_resource_wall cfg rate up pool s \<noteq> '''' \<Longrightarrow>
   hard_resource_wall cfg rate up pool s \<in> set generation_gate_reasons"
  by (auto simp: hard_resource_wall_def generation_gate_reasons_def split: if_splits)

lemma generation_wall_covers_recovery:
  "hard_resource_wall cfg rate True True s = '''' \<Longrightarrow> rd_allowed (allow_recovery cfg s)"
  by (auto simp: hard_resource_wall_def allow_recovery_def split: if_splits)

lemma occupancy_reason_iff:
  assumes "update_occupancy_gate cfg now s source oc0 = (r, oc)"
  shows "r = '''' \<longleftrightarrow> \<not> oc_paused oc"
  using assms
  by (auto simp: update_occupancy_gate_def occupancy_reason_from_values_def Let_def
      split: prod.splits if_splits)

text \<open>
  The reported gate is the decision: \<open>inspect_generation_gate\<close> reports a closed
  gate (by its flag or by a reason the workers know) exactly when a new generation is
  refused; a grant carries a positive limit and a refusal none; and the recovery of paid work
  is never refused while new work is admitted, because its walls are the weaker ones.
\<close>

theorem gate_report_matches_decision:
  assumes "inspect_generation_gate cfg now rate s oc = ((paused, reason, d), oc')"
  shows "(generation_gate_closed paused reason \<longleftrightarrow> \<not> rd_allowed d) \<and> paused = oc_paused oc' \<and>
    (rd_allowed d \<longleftrightarrow> 0 < rd_effective_limit d) \<and>
    (rd_allowed d \<longrightarrow> rd_allowed (allow_recovery cfg s) \<and> 0 < rd_effective_limit (allow_recovery cfg s))"
proof -
  obtain r oc1 where u: "update_occupancy_gate cfg now s ''generation'' oc = (r, oc1)" by fastforce
  let ?wall = "hard_resource_wall cfg rate True True s"
  have r: "r = '''' \<longleftrightarrow> \<not> oc_paused oc1" by (rule occupancy_reason_iff [OF u])
  have recovery: "rd_allowed (allow_recovery cfg s) \<longrightarrow> 0 < rd_effective_limit (allow_recovery cfg s)"
    by (auto simp: allow_recovery_def)
  show ?thesis
  proof (cases "oc_paused oc1")
    case True
    with assms u r show ?thesis
      by (auto simp: inspect_generation_gate_def allow_new_generation_def Let_def generation_gate_closed_def)
  next
    case False
    show ?thesis
    proof (cases "?wall = ''''")
      case True
      with assms u r False recovery generation_wall_covers_recovery [OF True] show ?thesis
        by (auto simp: inspect_generation_gate_def allow_new_generation_def Let_def
            generation_gate_closed_def generation_gate_reasons_def)
    next
      case wall: False
      with assms u r False hard_wall_reason [OF wall] show ?thesis
        by (auto simp: inspect_generation_gate_def allow_new_generation_def Let_def generation_gate_closed_def)
    qed
  qed
qed

theorem gate_report_matches_decision_witness:
  "\<exists>paused reason d oc'. inspect_generation_gate demo_resource_settings 3 0 demo_busy demo_latch =
     ((paused, reason, d), oc') \<and> generation_gate_closed paused reason \<and> \<not> rd_allowed d"
proof -
  obtain paused reason d oc' where r: "inspect_generation_gate demo_resource_settings 3 0 demo_busy demo_latch =
     ((paused, reason, d), oc')" by (metis prod.collapse)
  have "\<not> rd_allowed (snd (snd (fst (inspect_generation_gate demo_resource_settings 3 0 demo_busy demo_latch))))"
    by code_simp
  then have "\<not> rd_allowed d" by (simp add: r)
  moreover from this have "generation_gate_closed paused reason"
    using gate_report_matches_decision [OF r] by blast
  ultimately show ?thesis using r by blast
qed

end
