(* ===== verification/Claim_Scheduler.thy ===== *)
theory Claim_Scheduler
  imports Queue_Types Resource_Controller
begin

text \<open>
  \<open>services/image_queue/scheduler.py\<close>: from the resource decisions and the number of running
  generations, which kinds of job the dispatcher may pull next.
\<close>

section \<open>Definitions\<close>

record claim_dispatch_plan =
  pl_allow_generation :: bool
  pl_allow_recovery :: bool
  pl_generation_limit :: int
  pl_pause_reason :: string

definition generation_stages :: "job_stage list" where
  "generation_stages = [SQueued, SLeased, SGenerating]"

definition recovery_stages :: "job_stage list" where
  "recovery_stages = [SResolving, SDownloading, STransforming, SSaving]"

definition is_generation_stage :: "job_stage \<Rightarrow> bool" where
  "is_generation_stage s \<longleftrightarrow> s \<in> set generation_stages"

definition is_recovery_stage :: "job_stage \<Rightarrow> bool" where
  "is_recovery_stage s \<longleftrightarrow> s \<in> set recovery_stages"

definition plan_claim_dispatch ::
  "resource_decision \<Rightarrow> resource_decision \<Rightarrow> int \<Rightarrow> int \<Rightarrow> int option \<Rightarrow> claim_dispatch_plan" where
  "plan_claim_dispatch generation recovery active_generation_count pending_capacity hard_limit =
     (let allow_recovery = (rd_allowed recovery \<and> 0 < pending_capacity);
          limit0 = (if rd_allowed generation then max 0 (rd_effective_limit generation) else 0);
          limit = (case hard_limit of None \<Rightarrow> limit0 | Some h \<Rightarrow> min limit0 (max 0 h));
          allow_generation = (rd_allowed generation \<and> 0 < pending_capacity \<and>
                              active_generation_count < limit);
          pause =
            (if \<not> allow_generation \<and> \<not> allow_recovery
             then (if rd_reason generation \<noteq> '''' then rd_reason generation
                   else if rd_reason recovery \<noteq> '''' then rd_reason recovery
                   else ''resource_paused'')
             else if \<not> allow_generation then rd_reason generation
             else '''')
      in \<lparr>pl_allow_generation = allow_generation, pl_allow_recovery = allow_recovery,
          pl_generation_limit = limit, pl_pause_reason = pause\<rparr>)"

section \<open>Properties\<close>

lemma stage_kinds_disjoint: "\<not> (is_generation_stage s \<and> is_recovery_stage s)"
  by (auto simp: is_generation_stage_def is_recovery_stage_def generation_stages_def
      recovery_stages_def)

text \<open>
  The dispatcher never exceeds its limits: a plan allows a generation only
  while the running generations are below both the resource controller's effective limit
  and the hard limit and there is pending capacity, recovery only with pending capacity;
  and a plan that allows nothing always names a reason.
\<close>

theorem dispatch_plan_limits:
  assumes "plan_claim_dispatch g r active capacity hard = p" and "0 \<le> active"
  shows "(pl_allow_generation p \<longrightarrow>
            rd_allowed g \<and> 0 < capacity \<and> active < rd_effective_limit g \<and>
            (\<forall>h. hard = Some h \<longrightarrow> active < h) \<and> pl_pause_reason p = '''') \<and>
         (pl_allow_recovery p \<longrightarrow> rd_allowed r \<and> 0 < capacity) \<and>
         (\<not> pl_allow_generation p \<and> \<not> pl_allow_recovery p \<longrightarrow> pl_pause_reason p \<noteq> '''') \<and>
         0 \<le> pl_generation_limit p"
  using assms(2) unfolding assms(1) [symmetric]
  by (cases hard) (auto simp: plan_claim_dispatch_def Let_def)

theorem dispatch_plan_limits_witness:
  "\<exists>p. plan_claim_dispatch \<lparr>rd_allowed = True, rd_reason = '''', rd_effective_limit = 8\<rparr>
         \<lparr>rd_allowed = False, rd_reason = ''resource_disk'', rd_effective_limit = 0\<rparr> 2 1 (Some 3) = p \<and>
       pl_allow_generation p \<and> \<not> pl_allow_recovery p \<and> pl_pause_reason p = ''''"
proof -
  let ?p = "plan_claim_dispatch \<lparr>rd_allowed = True, rd_reason = '''', rd_effective_limit = 8\<rparr>
     \<lparr>rd_allowed = False, rd_reason = ''resource_disk'', rd_effective_limit = 0\<rparr> 2 1 (Some 3)"
  have gen: "pl_allow_generation ?p" and rec: "\<not> pl_allow_recovery ?p"
    by (simp_all add: plan_claim_dispatch_def)
  have "pl_pause_reason ?p = ''''"
    using dispatch_plan_limits [OF refl, of 2] gen by simp
  with gen rec show ?thesis by blast
qed

end
