(* ===== verification/Queue_Rows.thy ===== *)
theory Queue_Rows
  imports Queue_Types
begin

text \<open>
  The rows of the queue database (\<open>services/image_queue/models.py\<close>) as records, the value
  classes that cross the repository's interface (\<open>types.py\<close>), and the pure helpers on a
  single row. A nullable column is an \<open>option\<close>. Not represented: the prompt texts, the
  schema and legacy-import bookkeeping tables, and the resource sample inside a worker row.
\<close>

section \<open>Rows\<close>

record image_attempt =
  att_slot :: nat
  att_attempt :: nat
  att_status :: string
  att_account_email :: string
  att_account_id :: string
  att_failure_code :: string
  att_switched_account :: bool

text \<open>The JSON result of a job: its fields and, apart, the list under \<open>_image_attempts\<close>.\<close>

record result_payload =
  rp_fields :: jobj
  rp_attempts :: "image_attempt list"

record stage_timing =
  st_started_at :: "time option"
  st_ended_at :: "time option"

record image_task =
  t_id :: uuid
  t_owner_key :: string
  t_client_task_id :: "string option"
  t_idempotency_key :: "string option"
  t_request_hash :: string
  t_task_type :: string
  t_public_model :: string
  t_request_payload :: jobj
  t_required_jobs :: nat
  t_succeeded_jobs :: nat
  t_failed_jobs :: nat
  t_status :: task_status
  t_wait_reason :: "string option"
  t_error_code :: "string option"
  t_error_message :: "msg option"
  t_delivery_status :: delivery_status
  t_response_attempted_at :: "time option"
  t_delivery_acked_at :: "time option"
  t_cancel_requested :: bool
  t_created_at :: time
  t_queued_at :: time
  t_started_at :: "time option"
  t_completed_at :: "time option"
  t_updated_at :: time
  t_version :: nat

record image_job =
  j_id :: uuid
  j_task_id :: uuid
  j_ordinal :: nat
  j_status :: job_status
  j_stage :: job_stage
  j_generate_attempts :: nat
  j_download_attempts :: nat
  j_save_attempts :: nat
  j_available_at :: time
  j_next_retry_at :: "time option"
  j_lease_owner :: "string option"
  j_lease_token :: "uuid option"
  j_lease_version :: nat
  j_lease_expires_at :: "time option"
  j_heartbeat_at :: "time option"
  j_account_id :: "uuid option"
  j_conversation_id :: "string option"
  j_image_urls :: "string list"
  j_file_ids :: "string list"
  j_sediment_ids :: "string list"
  j_quota_consumed :: bool
  j_quota_accounted :: bool
  j_quota_accounting_attempts :: nat
  j_quota_accounting_error :: "msg option"
  j_result_payload :: result_payload
  j_stage_timings :: "(job_stage \<times> stage_timing) list"
  j_error_code :: "string option"
  j_error_message :: "msg option"
  j_created_at :: time
  j_updated_at :: time
  j_started_at :: "time option"
  j_completed_at :: "time option"

record task_event =
  ev_task_id :: uuid
  ev_job_id :: "uuid option"
  ev_attempt :: nat
  ev_type :: string
  ev_from_status :: "string option"
  ev_to_status :: "string option"
  ev_data :: jval

record task_artifact =
  a_task_id :: uuid
  a_job_id :: "uuid option"
  a_kind :: string
  a_ordinal :: "nat option"
  a_status :: artifact_status
  a_storage_backend :: string
  a_worker_id :: string
  a_relative_path :: string
  a_sha256 :: string
  a_mime_type :: string
  a_byte_size :: nat
  a_width :: nat
  a_height :: nat
  a_source_url :: "string option"
  a_payload_blob :: "nat list option"
  a_created_at :: time
  a_ready_at :: "time option"

record account_lease =
  l_account_id :: uuid
  l_slot_no :: nat
  l_job_id :: uuid
  l_lease_owner :: string
  l_lease_token :: uuid
  l_lease_version :: nat
  l_expires_at :: time
  l_heartbeat_at :: time

text \<open>
  The row of a worker. Its JSON snapshot is split up: the identity (texts as
  \<open>_snapshot_text\<close> reads them, empty when absent; the start of the process as parsed), the
  activity flag, and the other keys.
\<close>

datatype start_stamp = NoStart | UnreadableStart | StartedAt time

record worker_state =
  w_worker_id :: string
  w_heartbeat_at :: time
  w_instance_id :: string
  w_process_instance_id :: string
  w_process_started_at :: start_stamp
  w_configured_id :: string
  w_worker_active :: bool
  w_fields :: jobj
  w_effective_concurrency :: nat
  w_pause_reason :: "string option"
  w_started_at :: time

record idempotency_alias =
  al_owner_key :: string
  al_idempotency_key :: string
  al_task_id :: uuid

section \<open>Values at the interface\<close>

record artifact_descriptor =
  d_task_id :: uuid
  d_job_id :: "uuid option"
  d_kind :: string
  d_status :: artifact_status
  d_relative_path :: string
  d_sha256 :: string
  d_mime_type :: string
  d_byte_size :: nat
  d_width :: nat
  d_height :: nat
  d_public_url :: string
  d_storage_backend :: string
  d_absolute_path :: "string option"
  d_source_url :: string
  d_ordinal :: "nat option"
  d_worker_id :: string

record enqueue_request =
  q_owner_key :: string
  q_idempotency_key :: string
  q_request_hash :: string
  q_task_type :: string
  q_request_payload :: jobj
  q_required_jobs :: int
  q_client_task_id :: string
  q_public_model :: string
  q_task_id :: "uuid option"
  q_input_artifacts :: "artifact_descriptor list"

record claimed_job =
  c_job :: image_job
  c_lease_token :: uuid
  c_lease_version :: nat
  c_lease_owner :: string
  c_lease_expires_at :: time
  c_account_id :: "uuid option"
  c_account_slot :: int

record job_checkpoint =
  cp_stage :: job_stage
  cp_conversation_id :: string
  cp_image_urls :: "string list"
  cp_file_ids :: "string list"
  cp_sediment_ids :: "string list"

record account_candidate =
  ac_account_id :: uuid
  ac_access_token :: string
  ac_plan_type :: string
  ac_source_type :: string
  ac_success :: nat
  ac_fail :: nat

text \<open>
  The argument \<open>task_or_client_id\<close>: the text the code makes of it (\<open>str(...).strip()\<close>) and
  the UUID the standard library parses from it, if any.
\<close>

record task_ref =
  id_text :: string
  id_uuid :: "uuid option"

record task_snapshot =
  ts_id :: uuid
  ts_owner_key :: string
  ts_client_task_id :: string
  ts_idempotency_key :: string
  ts_status :: task_status
  ts_required_jobs :: nat
  ts_succeeded_jobs :: nat
  ts_failed_jobs :: nat
  ts_wait_reason :: string
  ts_error_code :: string
  ts_error_message :: "msg option"
  ts_delivery_status :: delivery_status
  ts_stage :: string
  ts_conversation_id :: string
  ts_can_resume_poll :: bool
  ts_cancel_requested :: bool
  ts_data :: "result_payload list"

text \<open>The settings the repository reads from \<open>database.settings\<close>.\<close>

record queue_settings =
  lease_seconds :: int
  claim_max_runtime_seconds :: int
  recovery_account_timeout_seconds :: int
  delivery_grace_seconds :: int
  terminal_retention_seconds :: int

section \<open>Remote checkpoints and stages of a job\<close>

definition empty_payload :: result_payload where
  "empty_payload = \<lparr>rp_fields = [], rp_attempts = []\<rparr>"

text \<open>The truth value of the JSON object: it has a field or a list of attempts.\<close>

definition payload_truthy :: "result_payload \<Rightarrow> bool" where
  "payload_truthy p \<longleftrightarrow> rp_fields p \<noteq> [] \<or> rp_attempts p \<noteq> []"

definition payload_preserving_image_attempts :: "result_payload \<Rightarrow> result_payload" where
  "payload_preserving_image_attempts p =
     \<lparr>rp_fields = [], rp_attempts = dedup_first (rp_attempts p)\<rparr>"

definition has_conversation :: "image_job \<Rightarrow> bool" where
  "has_conversation j \<longleftrightarrow> text_or_empty (j_conversation_id j) \<noteq> ''''"

definition has_remote_ids :: "image_job \<Rightarrow> bool" where
  "has_remote_ids j \<longleftrightarrow> has_conversation j \<or> j_file_ids j \<noteq> [] \<or> j_sediment_ids j \<noteq> []"

definition job_can_resume_poll :: "image_job \<Rightarrow> bool" where
  "job_can_resume_poll j \<longleftrightarrow>
     j_image_urls j \<noteq> [] \<or> has_conversation j \<or> j_file_ids j \<noteq> [] \<or> j_sediment_ids j \<noteq> []"

definition job_recovery_stage :: "image_job \<Rightarrow> job_stage" where
  "job_recovery_stage j =
     (if j_image_urls j \<noteq> [] then SDownloading
      else if has_remote_ids j then SResolving
      else j_stage j)"

definition attempts_sum :: "image_job \<Rightarrow> nat" where
  "attempts_sum j = j_generate_attempts j + j_download_attempts j + j_save_attempts j"

datatype attempt_group = GGenerate | GDownload | GSave

definition attempt_group :: "job_stage \<Rightarrow> attempt_group" where
  "attempt_group s =
     (if s \<in> {SDownloading, SResolving} then GDownload
      else if s \<in> {STransforming, SSaving} then GSave
      else GGenerate)"

definition increment_attempt :: "image_job \<Rightarrow> image_job" where
  "increment_attempt j =
     (if j_stage j \<in> {SDownloading, SResolving}
        then j\<lparr>j_download_attempts := j_download_attempts j + 1\<rparr>
      else if j_stage j \<in> {STransforming, SSaving}
        then j\<lparr>j_save_attempts := j_save_attempts j + 1\<rparr>
      else j\<lparr>j_generate_attempts := j_generate_attempts j + 1\<rparr>)"

text \<open>\<open>max(0, n - 1)\<close> on a counter is the truncated subtraction of \<open>nat\<close>.\<close>

definition refund_occupancy_claim_attempt :: "image_job \<Rightarrow> image_job" where
  "refund_occupancy_claim_attempt j =
     (if j_stage j \<in> {SDownloading, SResolving}
        then j\<lparr>j_download_attempts := j_download_attempts j - 1\<rparr>
      else if j_stage j \<in> {STransforming, SSaving}
        then j\<lparr>j_save_attempts := j_save_attempts j - 1\<rparr>
      else j\<lparr>j_generate_attempts := j_generate_attempts j - 1\<rparr>)"

lemma refund_increment: "refund_occupancy_claim_attempt (increment_attempt j) = j"
  by (cases j) (simp add: refund_occupancy_claim_attempt_def increment_attempt_def)

lemma job_recovery_stage_resumable:
  "job_can_resume_poll j \<Longrightarrow> job_recovery_stage j \<in> {SDownloading, SResolving}"
  by (auto simp: job_can_resume_poll_def job_recovery_stage_def has_remote_ids_def)

section \<open>Stage timings\<close>

text \<open>
  The dictionary of stage timings keeps the insertion order of Python dictionaries: an
  assignment replaces the value of a present key in place and appends a new key.
\<close>

definition dict_set :: "'k \<Rightarrow> 'v \<Rightarrow> ('k \<times> 'v) list \<Rightarrow> ('k \<times> 'v) list" where
  "dict_set k v kvs =
     (if k \<in> fst ` set kvs then map (\<lambda>(k', v'). if k' = k then (k, v) else (k', v')) kvs
      else kvs @ [(k, v)])"

lemma map_of_replace_other:
  "x \<noteq> k \<Longrightarrow> map_of (map (\<lambda>(k', v'). if k' = k then (k, v) else (k', v')) kvs) x = map_of kvs x"
  by (induction kvs) auto

lemma map_of_replace_same:
  "k \<in> fst ` set kvs \<Longrightarrow>
   map_of (map (\<lambda>(k', v'). if k' = k then (k, v) else (k', v')) kvs) k = Some v"
  by (induction kvs) auto

lemma map_fst_replace: "map fst (map (\<lambda>(k', v'). if k' = k then (k, v) else (k', v')) xs) = map fst xs"
  by (induction xs) auto

lemma distinct_dict_set: "distinct (map fst xs) \<Longrightarrow> distinct (map fst (dict_set k v xs))"
  unfolding dict_set_def by (simp only: map_fst_replace map_append split: if_split) simp

lemma map_of_dict_set: "map_of (dict_set k v kvs) = (map_of kvs)(k \<mapsto> v)"
proof
  fix x
  show "map_of (dict_set k v kvs) x = ((map_of kvs)(k \<mapsto> v)) x"
  proof (cases "x = k")
    case True
    have "k \<notin> fst ` set kvs \<Longrightarrow> map_of kvs k = None"
      by (simp add: map_of_eq_None_iff)
    with True show ?thesis
      by (cases "k \<in> fst ` set kvs")
         (simp_all add: dict_set_def map_of_replace_same map_add_def)
  next
    case False
    then show ?thesis
      by (auto simp: dict_set_def map_of_replace_other map_add_def split: option.splits)
  qed
qed

definition empty_timing :: stage_timing where
  "empty_timing = \<lparr>st_started_at = None, st_ended_at = None\<rparr>"

definition timing_of :: "(job_stage \<times> stage_timing) list \<Rightarrow> job_stage \<Rightarrow> stage_timing" where
  "timing_of tms s = (case map_of tms s of Some e \<Rightarrow> e | None \<Rightarrow> empty_timing)"

definition apply_claim_stage_timings ::
  "(job_stage \<times> stage_timing) list \<Rightarrow> job_stage \<Rightarrow> job_stage \<Rightarrow> time \<Rightarrow>
   (job_stage \<times> stage_timing) list" where
  "apply_claim_stage_timings tms previous nxt stamp =
     (let current =
            (if previous \<noteq> nxt
             then let e = timing_of tms previous
                  in dict_set previous
                       (e\<lparr>st_started_at := (case st_started_at e of None \<Rightarrow> Some stamp | Some t \<Rightarrow> Some t),
                          st_ended_at := Some stamp\<rparr>) tms
             else tms);
          e = timing_of current nxt
      in dict_set nxt
           (e\<lparr>st_started_at := (if previous \<noteq> nxt \<or> st_started_at e = None then Some stamp
                               else st_started_at e),
              st_ended_at := None\<rparr>) current)"

definition touch_stage_timing :: "image_job \<Rightarrow> job_stage \<Rightarrow> job_stage \<Rightarrow> time \<Rightarrow> image_job" where
  "touch_stage_timing j previous nxt now =
     j\<lparr>j_stage_timings := apply_claim_stage_timings (j_stage_timings j) previous nxt now\<rparr>"

text \<open>The next stage is open and started; a stage that is left is closed at the stamp.\<close>

lemma stage_timings_next_open:
  "timing_of (apply_claim_stage_timings tms p n t) n =
     \<lparr>st_started_at = (if p = n \<and> st_started_at (timing_of tms n) \<noteq> None
                      then st_started_at (timing_of tms n) else Some t),
      st_ended_at = None\<rparr>"
  by (auto simp: apply_claim_stage_timings_def timing_of_def map_of_dict_set Let_def empty_timing_def
      split: option.splits)

lemma stage_timings_previous_closed:
  "p \<noteq> n \<Longrightarrow> st_ended_at (timing_of (apply_claim_stage_timings tms p n t) p) = Some t"
  by (auto simp: apply_claim_stage_timings_def timing_of_def map_of_dict_set Let_def)

lemma stage_timings_others:
  "s \<noteq> p \<Longrightarrow> s \<noteq> n \<Longrightarrow>
   timing_of (apply_claim_stage_timings tms p n t) s = timing_of tms s"
  by (auto simp: apply_claim_stage_timings_def timing_of_def map_of_dict_set Let_def)

text \<open>Where the running stage of a leased job began, for the dispatch statistics.\<close>

definition timing_started :: "(job_stage \<times> stage_timing) list \<Rightarrow> job_stage \<Rightarrow> time option" where
  "timing_started tms s = (case map_of tms s of Some e \<Rightarrow> st_started_at e | None \<Rightarrow> None)"

definition or_else :: "'a option \<Rightarrow> 'a option \<Rightarrow> 'a option" where
  "or_else a b = (case a of Some x \<Rightarrow> Some x | None \<Rightarrow> b)"

definition dispatch_lease_started_at ::
  "job_stage \<Rightarrow> (job_stage \<times> stage_timing) list \<Rightarrow> time option \<Rightarrow> time option \<Rightarrow> time option" where
  "dispatch_lease_started_at stage tms heartbeat_at job_started_at =
     (let started =
            (if stage = SResolving
             then or_else (timing_started tms SGenerating)
                    (or_else (timing_started tms SLeased) (timing_started tms SResolving))
             else if stage = SGenerating
             then or_else (timing_started tms SGenerating) (timing_started tms SLeased)
             else timing_started tms stage)
      in or_else started (or_else job_started_at heartbeat_at))"

section \<open>Image attempts\<close>

text \<open>
  \<open>merge_image_attempt_records\<close> on normalised attempts: the incoming ones are renumbered
  after those of their slot and marked where the account changed. \<open>collect\<close> keeps the
  first of equal attempts.
\<close>

fun renumber_attempts ::
  "nat \<Rightarrow> nat \<Rightarrow> string \<Rightarrow> string \<Rightarrow> image_attempt list \<Rightarrow> image_attempt list" where
  "renumber_attempts slot nxt last_email last_account [] = []"
| "renumber_attempts slot nxt last_email last_account (a # as) =
     (let email = py_strip (att_account_email a);
          account = py_strip (att_account_id a);
          switched = (last_email \<noteq> '''' \<and> email \<noteq> '''' \<and> py_lower last_email \<noteq> py_lower email) \<or>
                     (last_account \<noteq> '''' \<and> account \<noteq> '''' \<and> last_account \<noteq> account)
      in a\<lparr>att_slot := slot, att_attempt := nxt, att_switched_account := switched\<rparr> #
         renumber_attempts slot (nxt + 1)
           (if email \<noteq> '''' then email else last_email)
           (if account \<noteq> '''' then account else last_account) as)"

definition merge_image_attempt_records ::
  "image_attempt list \<Rightarrow> image_attempt list \<Rightarrow> nat \<Rightarrow> image_attempt list" where
  "merge_image_attempt_records existing_payload incoming slot =
     (let existing = dedup_first existing_payload;
          slot_value = max 1 slot;
          next_attempt = 1 + length (filter (\<lambda>a. max 1 (att_slot a) = slot_value) existing);
          last_email = (if existing = [] then '''' else py_strip (att_account_email (last existing)));
          last_account = (if existing = [] then '''' else py_strip (att_account_id (last existing)))
      in existing @ renumber_attempts slot_value next_attempt last_email last_account
                      (dedup_first incoming))"

lemma renumber_attempts_numbers:
  "map att_attempt (renumber_attempts slot n e a as) = [n..<n + length as]"
  "\<forall>x \<in> set (renumber_attempts slot n e a as). att_slot x = slot"
  by (induction as arbitrary: n e a) (simp_all add: Let_def upt_conv_Cons del: upt_Suc)

lemma length_renumber_attempts [simp]:
  "length (renumber_attempts slot n e a as) = length as"
  by (metis length_map length_upt add_diff_cancel_left' renumber_attempts_numbers(1))

section \<open>Artifacts\<close>

text \<open>\<open>_artifact_row\<close>: the row for a descriptor; \<open>created_at\<close> and \<open>ready_at\<close> read the clock.\<close>

definition artifact_row :: "time \<Rightarrow> artifact_descriptor \<Rightarrow> string \<Rightarrow> nat list option \<Rightarrow> task_artifact" where
  "artifact_row clk d worker blob =
     \<lparr>a_task_id = d_task_id d, a_job_id = d_job_id d, a_kind = d_kind d, a_ordinal = d_ordinal d,
      a_status = d_status d, a_storage_backend = d_storage_backend d, a_worker_id = py_strip worker,
      a_relative_path = d_relative_path d, a_sha256 = d_sha256 d, a_mime_type = d_mime_type d,
      a_byte_size = d_byte_size d, a_width = d_width d, a_height = d_height d,
      a_source_url = none_if_empty (d_source_url d), a_payload_blob = blob, a_created_at = clk,
      a_ready_at = (if d_status d = AReady then Some clk else None)\<rparr>"

definition artifact_descriptor_of :: "task_artifact \<Rightarrow> artifact_descriptor" where
  "artifact_descriptor_of a =
     \<lparr>d_task_id = a_task_id a, d_job_id = a_job_id a, d_kind = a_kind a, d_status = a_status a,
      d_relative_path = a_relative_path a, d_sha256 = a_sha256 a, d_mime_type = a_mime_type a,
      d_byte_size = a_byte_size a, d_width = a_width a, d_height = a_height a, d_public_url = '''',
      d_storage_backend = a_storage_backend a, d_absolute_path = None,
      d_source_url = text_or_empty (a_source_url a), d_ordinal = a_ordinal a,
      d_worker_id = a_worker_id a\<rparr>"

end
