(* ===== verification/Account_Dispatch.thy ===== *)
theory Account_Dispatch
  imports Queue_Rows
begin

text \<open>
  \<open>services/image_account_dispatch.py\<close>: the order in which the accounts of the pool are
  tried for a job. Idle accounts come first, then busy ones, then slow ones, then saturated
  ones; within a group the account with fewer generations, then a rotation by the job.
\<close>

section \<open>Definitions\<close>

definition slow_generation_time :: time where
  "slow_generation_time = secs 60"

record dispatch_stats =
  ds_inflight :: nat
  ds_generating_time :: time
  ds_success :: nat
  ds_fail :: nat

definition total_generations :: "dispatch_stats \<Rightarrow> nat" where
  "total_generations s = ds_success s + ds_fail s + ds_inflight s"

definition is_slow :: "dispatch_stats \<Rightarrow> time \<Rightarrow> bool" where
  "is_slow s threshold \<longleftrightarrow> 0 < ds_inflight s \<and> threshold \<le> ds_generating_time s"

definition dispatch_group :: "dispatch_stats \<Rightarrow> int \<Rightarrow> time \<Rightarrow> nat" where
  "dispatch_group s account_concurrency slow =
     (let inflight = int (ds_inflight s);
          max_concurrency = max 1 (if account_concurrency = 0 then 1 else account_concurrency)
      in if inflight \<le> 0 then 0
         else if max_concurrency \<le> inflight then 3
         else if is_slow s slow then 2
         else 1)"

definition candidate_stats ::
  "(uuid \<times> dispatch_stats) list \<Rightarrow> account_candidate \<Rightarrow> dispatch_stats" where
  "candidate_stats stats c =
     (case map_of stats (ac_account_id c) of
        Some s \<Rightarrow> s
      | None \<Rightarrow> \<lparr>ds_inflight = 0, ds_generating_time = 0, ds_success = ac_success c,
                 ds_fail = ac_fail c\<rparr>)"

text \<open>The sort key; \<open>%\<close> on Python integers is \<open>mod\<close> on \<open>int\<close>.\<close>

definition rank_key ::
  "('c \<Rightarrow> dispatch_stats) \<Rightarrow> int \<Rightarrow> time \<Rightarrow> nat \<Rightarrow> nat \<Rightarrow> nat \<times> 'c \<Rightarrow> nat \<times> nat \<times> int" where
  "rank_key stats concurrency slow cnt offset item =
     (case item of (index, c) \<Rightarrow>
        (dispatch_group (stats c) concurrency slow,
         total_generations (stats c),
         (int index - int offset) mod int cnt))"

definition rank_items ::
  "('c \<Rightarrow> dispatch_stats) \<Rightarrow> int \<Rightarrow> time \<Rightarrow> nat \<Rightarrow> 'c list \<Rightarrow> 'c list" where
  "rank_items stats concurrency slow rot items =
     (let cnt = length items;
          offset = (if cnt = 0 then 0 else rot mod cnt)
      in map snd (sort_key (rank_key stats concurrency slow cnt offset) (enumerate 0 items)))"

definition rank_image_account_candidates ::
  "account_candidate list \<Rightarrow> (uuid \<times> dispatch_stats) list \<Rightarrow> int \<Rightarrow> nat \<Rightarrow> account_candidate list" where
  "rank_image_account_candidates candidates stats concurrency rot =
     rank_items (candidate_stats stats) concurrency slow_generation_time rot candidates"

definition token_stats :: "(string \<times> dispatch_stats) list \<Rightarrow> string \<Rightarrow> dispatch_stats" where
  "token_stats stats token =
     (case map_of stats token of
        Some s \<Rightarrow> s
      | None \<Rightarrow> \<lparr>ds_inflight = 0, ds_generating_time = 0, ds_success = 0, ds_fail = 0\<rparr>)"

definition rank_image_account_tokens ::
  "string list \<Rightarrow> (string \<times> dispatch_stats) list \<Rightarrow> int \<Rightarrow> nat \<Rightarrow> string list" where
  "rank_image_account_tokens tokens stats concurrency rot =
     rank_items (token_stats stats) concurrency slow_generation_time rot tokens"

section \<open>The ranking is a permutation\<close>

lemma mset_rank_items: "mset (rank_items stats concurrency slow rot items) = mset items"
  by (simp add: rank_items_def Let_def mset_map [symmetric] del: mset_map)
     (metis mset_map mset_sort map_snd_enumerate)

interpretation account_ranking:
  ranking "\<lambda>cs. rank_image_account_candidates cs stats concurrency rot"
  for stats concurrency rot
  by unfold_locales (simp add: rank_image_account_candidates_def mset_rank_items)

interpretation token_ranking:
  ranking "\<lambda>ts. rank_image_account_tokens ts stats concurrency rot"
  for stats concurrency rot
  by unfold_locales (simp add: rank_image_account_tokens_def mset_rank_items)

section \<open>The order\<close>

lemma sorted_map_fst: "sorted ys \<Longrightarrow> sorted (map fst ys)"
  for ys :: "('a::linorder \<times> 'b::linorder) list"
proof (induction ys)
  case (Cons y ys)
  then have "fst y \<le> fst z" if "z \<in> set ys" for z
    using that by (fastforce simp: less_eq_prod_def)
  with Cons show ?case by auto
qed simp

lemma mset_rotate_list: "mset (rotate n xs) = mset xs"
proof (induction n)
  case (Suc n)
  have "mset (rotate1 ys) = mset ys" for ys :: "'a list" by (cases ys) simp_all
  with Suc show ?case by simp
qed simp

lemma rank_items_sorted_groups:
  "sorted (map (\<lambda>c. dispatch_group (stats c) concurrency slow)
            (rank_items stats concurrency slow rot items))"
proof -
  let ?n = "length items"
  let ?off = "if ?n = 0 then 0 else rot mod ?n"
  let ?k = "rank_key stats concurrency slow ?n ?off"
  let ?xs = "sort_key ?k (enumerate 0 items)"
  have "sorted (map fst (map ?k ?xs))"
    by (intro sorted_map_fst sorted_sort_key)
  then have "sorted (map (\<lambda>x. dispatch_group (stats (snd x)) concurrency slow) ?xs)"
    by (simp add: comp_def rank_key_def case_prod_beta)
  then show ?thesis
    by (simp add: rank_items_def Let_def comp_def)
qed

text \<open>With equal statistics only the rotation is left.\<close>

lemma rotate_index_mod:
  "i < n \<Longrightarrow> off < n \<Longrightarrow> (int ((off + i) mod n) - int off) mod int n = int i"
  by (simp add: zmod_int mod_diff_left_eq)

lemma rank_items_equal_stats:
  assumes eq: "\<And>c d. c \<in> set items \<Longrightarrow> d \<in> set items \<Longrightarrow> stats c = stats d"
  shows "rank_items stats concurrency slow rot items = rotate rot items"
proof (cases "items = []")
  case True
  then show ?thesis by (simp add: rank_items_def)
next
  case False
  let ?n = "length items" and ?e = "enumerate 0 items"
  let ?off = "rot mod ?n"
  let ?k = "rank_key stats concurrency slow ?n ?off"
  have n: "0 < ?n" using False by simp
  obtain s where s: "\<And>c. c \<in> set items \<Longrightarrow> stats c = s"
    using eq False by (metis last_in_set)
  have key: "?k (rotate rot ?e ! i) = (dispatch_group s concurrency slow, total_generations s, int i)"
    if "i < ?n" for i
  proof -
    have "rotate rot ?e ! i = ?e ! ((?off + i) mod ?n)"
      using that by (simp add: nth_rotate mod_add_left_eq)
    also have "\<dots> = ((?off + i) mod ?n, items ! ((?off + i) mod ?n))"
      using n by (simp add: nth_enumerate_eq)
    finally show ?thesis
      using that n s [of "items ! ((?off + i) mod ?n)"] rotate_index_mod [of i ?n ?off]
      by (simp add: rank_key_def)
  qed
  have srt: "sorted (map ?k (rotate rot ?e))"
    by (simp add: sorted_iff_nth_mono key)
  have "inj_on ?k (set ?e)"
  proof -
    have "distinct (map ?k (rotate rot ?e))"
      by (simp add: distinct_conv_nth key)
    then show ?thesis by (simp add: distinct_map)
  qed
  then have "sort_key ?k ?e = rotate rot ?e"
    by (intro sort_key_inj_key_eq) (simp_all add: srt mset_rotate_list)
  with False show ?thesis
    by (simp add: rank_items_def Let_def rotate_map [symmetric])
qed

section \<open>Properties\<close>

text \<open>
  The ranking of the account pool is a permutation of the candidates sorted by
  dispatch group: no account is lost or tried twice, every idle account is tried before any
  busy one, and saturated accounts come last.
\<close>

theorem rank_candidates_sorted_permutation:
  "mset (rank_image_account_candidates cs stats concurrency rot) = mset cs \<and>
   sorted (map (\<lambda>c. dispatch_group (candidate_stats stats c) concurrency slow_generation_time)
             (rank_image_account_candidates cs stats concurrency rot))"
  using account_ranking.rank_mset rank_items_sorted_groups
  by (simp add: rank_image_account_candidates_def)

text \<open>
  Fair rotation: when the accounts have equal statistics the ranking is the
  candidate list rotated by the job's number, so consecutive jobs start at consecutive
  accounts.
\<close>

theorem rank_candidates_fair_rotation:
  assumes "\<And>c d. c \<in> set cs \<Longrightarrow> d \<in> set cs \<Longrightarrow> candidate_stats stats c = candidate_stats stats d"
  shows "rank_image_account_candidates cs stats concurrency rot = List.rotate rot cs"
  unfolding rank_image_account_candidates_def by (rule rank_items_equal_stats) (rule assms)

theorem rank_candidates_fair_rotation_witness:
  "let c = (\<lambda>n. \<lparr>ac_account_id = n, ac_access_token = ''t'', ac_plan_type = '''', ac_source_type = '''', ac_success = 4, ac_fail = 1\<rparr>)
   in rank_image_account_candidates [c 10, c 11, c 12] [] 2 7 = [c 11, c 12, c 10]"
proof -
  let ?c = "\<lambda>n. \<lparr>ac_account_id = n, ac_access_token = ''t'', ac_plan_type = '''', ac_source_type = '''', ac_success = 4, ac_fail = 1\<rparr>"
  have "rank_image_account_candidates [?c 10, ?c 11, ?c 12] [] 2 7 =
        List.rotate 7 [?c 10, ?c 11, ?c 12]"
    by (rule rank_candidates_fair_rotation) (auto simp: candidate_stats_def)
  also have "\<dots> = [?c 11, ?c 12, ?c 10]"
    by (simp add: rotate_drop_take)
  finally show ?thesis by (simp add: Let_def)
qed

end
