(* ===== verification/Queue_Store.thy ===== *)
theory Queue_Store
  imports Queue_Rows
begin

text \<open>
  The queue database as a state: one list of rows per table, the queries and row updates the
  repository is written with, the event log, the lease checks of a claimed job, the task
  snapshot, and \<open>_aggregate_task\<close>, which recomputes a task from its jobs. A session of the
  code is one atomic function on this state; an exception rolls it back.
\<close>

section \<open>The state\<close>

record queue_db =
  db_tasks :: "image_task list"
  db_jobs :: "image_job list"
  db_events :: "task_event list"
  db_artifacts :: "task_artifact list"
  db_leases :: "account_lease list"
  db_workers :: "worker_state list"
  db_aliases :: "idempotency_alias list"

definition empty_db :: queue_db where
  "empty_db = \<lparr>db_tasks = [], db_jobs = [], db_events = [], db_artifacts = [], db_leases = [],
               db_workers = [], db_aliases = []\<rparr>"

datatype queue_error =
  IdempotencyConflict string
| TaskStateConflict string
| ResourcePressure string
| ValueError string
| IntegrityError
| WorkerIdentityConflict string

section \<open>Queries\<close>

definition job_row :: "queue_db \<Rightarrow> uuid \<Rightarrow> image_job option" where
  "job_row db i = find (\<lambda>j. j_id j = i) (db_jobs db)"

definition task_row :: "queue_db \<Rightarrow> uuid \<Rightarrow> image_task option" where
  "task_row db i = find (\<lambda>t. t_id t = i) (db_tasks db)"

definition jobs_of :: "queue_db \<Rightarrow> uuid \<Rightarrow> image_job list" where
  "jobs_of db tid = sort_key j_ordinal (filter (\<lambda>j. j_task_id j = tid) (db_jobs db))"

section \<open>Row updates\<close>

definition upd_job :: "uuid \<Rightarrow> (image_job \<Rightarrow> image_job) \<Rightarrow> queue_db \<Rightarrow> queue_db" where
  "upd_job i f db = db\<lparr>db_jobs := upd_rows (\<lambda>j. j_id j = i) f (db_jobs db)\<rparr>"

definition upd_task :: "uuid \<Rightarrow> (image_task \<Rightarrow> image_task) \<Rightarrow> queue_db \<Rightarrow> queue_db" where
  "upd_task i f db = db\<lparr>db_tasks := upd_rows (\<lambda>t. t_id t = i) f (db_tasks db)\<rparr>"

definition upd_artifacts ::
  "(task_artifact \<Rightarrow> bool) \<Rightarrow> (task_artifact \<Rightarrow> task_artifact) \<Rightarrow> queue_db \<Rightarrow> queue_db" where
  "upd_artifacts p f db = db\<lparr>db_artifacts := upd_rows p f (db_artifacts db)\<rparr>"

definition add_artifact :: "task_artifact \<Rightarrow> queue_db \<Rightarrow> queue_db" where
  "add_artifact a db = db\<lparr>db_artifacts := db_artifacts db @ [a]\<rparr>"

definition drop_leases :: "(account_lease \<Rightarrow> bool) \<Rightarrow> queue_db \<Rightarrow> queue_db" where
  "drop_leases p db = db\<lparr>db_leases := filter (\<lambda>l. \<not> p l) (db_leases db)\<rparr>"

text \<open>\<open>_event\<close>: one row appended to the log, its data sanitised.\<close>

definition log_event ::
  "uuid \<Rightarrow> uuid option \<Rightarrow> string \<Rightarrow> nat \<Rightarrow> string option \<Rightarrow> string option \<Rightarrow> jobj \<Rightarrow> queue_db \<Rightarrow> queue_db" where
  "log_event tid jid kind attempt from_status to_status data db =
     db\<lparr>db_events := db_events db @
        [\<lparr>ev_task_id = tid, ev_job_id = jid, ev_attempt = attempt, ev_type = kind,
          ev_from_status = from_status, ev_to_status = to_status,
          ev_data = sanitize_event_data (JObj data)\<rparr>]\<rparr>"

lemma store_projections [simp, store_simps]:
  "db_tasks (upd_job i f db) = db_tasks db" "db_leases (upd_job i f db) = db_leases db"
  "db_artifacts (upd_job i f db) = db_artifacts db" "db_workers (upd_job i f db) = db_workers db"
  "db_aliases (upd_job i f db) = db_aliases db" "db_events (upd_job i f db) = db_events db"
  "db_jobs (upd_task i g db) = db_jobs db" "db_leases (upd_task i g db) = db_leases db"
  "db_artifacts (upd_task i g db) = db_artifacts db" "db_workers (upd_task i g db) = db_workers db"
  "db_aliases (upd_task i g db) = db_aliases db" "db_events (upd_task i g db) = db_events db"
  "db_tasks (drop_leases p db) = db_tasks db" "db_jobs (drop_leases p db) = db_jobs db"
  "db_artifacts (drop_leases p db) = db_artifacts db" "db_workers (drop_leases p db) = db_workers db"
  "db_aliases (drop_leases p db) = db_aliases db" "db_events (drop_leases p db) = db_events db"
  "db_tasks (log_event t j k a fs ts d db) = db_tasks db"
  "db_jobs (log_event t j k a fs ts d db) = db_jobs db"
  "db_leases (log_event t j k a fs ts d db) = db_leases db"
  "db_artifacts (log_event t j k a fs ts d db) = db_artifacts db"
  "db_workers (log_event t j k a fs ts d db) = db_workers db"
  "db_aliases (log_event t j k a fs ts d db) = db_aliases db"
  "db_tasks (upd_artifacts q h db) = db_tasks db" "db_jobs (upd_artifacts q h db) = db_jobs db"
  "db_leases (upd_artifacts q h db) = db_leases db" "db_workers (upd_artifacts q h db) = db_workers db"
  "db_aliases (upd_artifacts q h db) = db_aliases db" "db_events (upd_artifacts q h db) = db_events db"
  "db_tasks (add_artifact x db) = db_tasks db" "db_jobs (add_artifact x db) = db_jobs db"
  "db_leases (add_artifact x db) = db_leases db" "db_workers (add_artifact x db) = db_workers db"
  "db_aliases (add_artifact x db) = db_aliases db" "db_events (add_artifact x db) = db_events db"
  by (simp_all add: upd_job_def upd_task_def drop_leases_def log_event_def upd_artifacts_def
      add_artifact_def)

lemma db_jobs_upd_job: "db_jobs (upd_job i f db) = upd_rows (\<lambda>j. j_id j = i) f (db_jobs db)"
  by (simp add: upd_job_def)

lemma db_tasks_upd_task: "db_tasks (upd_task i f db) = upd_rows (\<lambda>t. t_id t = i) f (db_tasks db)"
  by (simp add: upd_task_def)

lemma db_leases_drop: "db_leases (drop_leases p db) = filter (\<lambda>l. \<not> p l) (db_leases db)"
  by (simp add: drop_leases_def)

lemma job_rowD: "job_row db i = Some j \<Longrightarrow> j \<in> set (db_jobs db) \<and> j_id j = i"
  by (auto simp: job_row_def dest: find_SomeD)

lemma task_rowD: "task_row db i = Some t \<Longrightarrow> t \<in> set (db_tasks db) \<and> t_id t = i"
  by (auto simp: task_row_def dest: find_SomeD)

lemma set_jobs_of [simp]: "set (jobs_of db tid) = {j \<in> set (db_jobs db). j_task_id j = tid}"
  by (auto simp: jobs_of_def)

section \<open>Aggregating a task\<close>

definition status_count :: "image_job list \<Rightarrow> job_status \<Rightarrow> nat" where
  "status_count jobs s = length (filter (\<lambda>j. j_status j = s) jobs)"

text \<open>The inner function \<open>apply_active_status\<close>; \<open>wr\<close> is its \<open>wait_reason\<close> argument.\<close>

definition apply_active_status ::
  "time \<Rightarrow> image_job list \<Rightarrow> string option \<Rightarrow> image_task \<Rightarrow> image_task" where
  "apply_active_status now jobs wr t =
     (if \<exists>j \<in> set jobs. j_stage j \<in> {STransforming, SSaving}
      then t\<lparr>t_status := TSaving, t_wait_reason := wr\<rparr>
      else if 0 < status_count jobs JRetryWait
      then t\<lparr>t_status := TRetrying, t_wait_reason := or_else wr (Some ''scheduled_retry'')\<rparr>
      else if 0 < status_count jobs JLeased \<or> 0 < status_count jobs JRunning
      then t\<lparr>t_status := TRunning, t_wait_reason := wr,
             t_started_at := or_else (t_started_at t) (Some now)\<rparr>
      else t\<lparr>t_status := TQueued,
             t_wait_reason := or_else wr (or_else (t_wait_reason t) (Some ''queued''))\<rparr>)"

text \<open>\<open>value or default\<close> on a nullable text or message column.\<close>

definition text_or :: "string option \<Rightarrow> string \<Rightarrow> string" where
  "text_or v d = (let c = text_or_empty v in if c = '''' then d else c)"

definition message_or :: "msg option \<Rightarrow> msg \<Rightarrow> msg" where
  "message_or v d = (case v of None \<Rightarrow> d | Some m \<Rightarrow> if m = MText '''' then d else m)"

definition failed_code :: "image_job option \<Rightarrow> string" where
  "failed_code failed =
     (case failed of None \<Rightarrow> ''image_job_failed'' | Some j \<Rightarrow> text_or (j_error_code j) ''image_job_failed'')"

definition failed_message :: "image_job option \<Rightarrow> msg" where
  "failed_message failed =
     (case failed of None \<Rightarrow> MImageTaskFailed | Some j \<Rightarrow> message_or (j_error_message j) MImageTaskFailed)"

definition aggregate_row :: "time \<Rightarrow> image_job list \<Rightarrow> image_task \<Rightarrow> image_task" where
  "aggregate_row now jobs t0 =
     (let t = t0\<lparr>t_succeeded_jobs := status_count jobs JSuccess,
                 t_failed_jobs := status_count jobs JFailed\<rparr>;
          all_terminal = (jobs \<noteq> [] \<and> (\<forall>j \<in> set jobs. terminal_job (j_status j)));
          has_failed = (0 < status_count jobs JFailed);
          failed = find (\<lambda>j. j_status j = JFailed) jobs;
          t' =
            (if t_cancel_requested t \<and> all_terminal
             then t\<lparr>t_status := TCanceled, t_completed_at := or_else (t_completed_at t) (Some now)\<rparr>
             else if jobs \<noteq> [] \<and> t_succeeded_jobs t = t_required_jobs t
             then t\<lparr>t_status := TSuccess, t_wait_reason := None, t_error_code := None,
                    t_error_message := None, t_completed_at := Some now\<rparr>
             else if has_failed \<and> all_terminal
             then t\<lparr>t_status := TFailed, t_error_code := Some (failed_code failed),
                    t_error_message := Some (failed_message failed), t_completed_at := Some now\<rparr>
             else if all_terminal
             then t\<lparr>t_status := TFailed,
                    t_error_code := Some (text_or (t_error_code t) ''image_job_failed''),
                    t_error_message := Some (message_or (t_error_message t) MImageTaskFailed),
                    t_completed_at := Some now\<rparr>
             else if t_cancel_requested t
             then apply_active_status now jobs (Some ''canceling'') (t\<lparr>t_completed_at := None\<rparr>)
             else if has_failed
             then apply_active_status now jobs (Some ''sibling_jobs_running'')
                    (t\<lparr>t_error_code := Some (failed_code failed),
                       t_error_message := Some (failed_message failed), t_completed_at := None\<rparr>)
             else apply_active_status now jobs None t)
      in t'\<lparr>t_updated_at := now, t_version := t_version t' + 1\<rparr>)"

definition aggregate_task :: "time \<Rightarrow> uuid \<Rightarrow> queue_db \<Rightarrow> queue_db" where
  "aggregate_task now tid db = upd_task tid (aggregate_row now (jobs_of db tid)) db"

lemma aggregate_projections [simp, store_simps]:
  "db_jobs (aggregate_task now tid db) = db_jobs db"
  "db_leases (aggregate_task now tid db) = db_leases db"
  "db_artifacts (aggregate_task now tid db) = db_artifacts db"
  "db_workers (aggregate_task now tid db) = db_workers db"
  "db_aliases (aggregate_task now tid db) = db_aliases db"
  by (simp_all add: aggregate_task_def)

section \<open>Snapshots\<close>

definition task_representative_job :: "image_job list \<Rightarrow> image_job option" where
  "task_representative_job jobs =
     (let pick = (\<lambda>ss. find (\<lambda>j. j_status j \<in> ss) jobs)
      in or_else (pick {JRunning, JLeased})
           (or_else (pick {JRetryWait})
             (or_else (pick {JQueued})
               (or_else (pick {JFailed})
                 (or_else (pick {JSuccess}) (case jobs of [] \<Rightarrow> None | j # _ \<Rightarrow> Some j))))))"

definition snapshot_from_jobs :: "image_task \<Rightarrow> image_job list \<Rightarrow> task_snapshot" where
  "snapshot_from_jobs t jobs =
     (let representative = task_representative_job jobs
      in \<lparr>ts_id = t_id t, ts_owner_key = t_owner_key t,
          ts_client_task_id = text_or_empty (t_client_task_id t),
          ts_idempotency_key = text_or_empty (t_idempotency_key t),
          ts_status = t_status t, ts_required_jobs = t_required_jobs t,
          ts_succeeded_jobs = t_succeeded_jobs t, ts_failed_jobs = t_failed_jobs t,
          ts_wait_reason = text_or_empty (t_wait_reason t),
          ts_error_code = text_or_empty (t_error_code t), ts_error_message = t_error_message t,
          ts_delivery_status = t_delivery_status t,
          ts_stage = (case representative of
                        Some j \<Rightarrow> job_stage_value (job_recovery_stage j)
                      | None \<Rightarrow> task_status_value (t_status t)),
          ts_conversation_id = (case representative of
                        Some j \<Rightarrow> text_or_empty (j_conversation_id j) | None \<Rightarrow> ''''),
          ts_can_resume_poll = (\<exists>j \<in> set jobs. j_status j = JFailed \<and> job_can_resume_poll j),
          ts_cancel_requested = t_cancel_requested t,
          ts_data = map j_result_payload
                      (filter (\<lambda>j. j_status j = JSuccess \<and> payload_truthy (j_result_payload j)) jobs)\<rparr>)"

definition task_snapshot_of :: "queue_db \<Rightarrow> image_task \<Rightarrow> task_snapshot" where
  "task_snapshot_of db t = snapshot_from_jobs t (jobs_of db (t_id t))"

definition snapshot_by_id :: "queue_db \<Rightarrow> uuid \<Rightarrow> task_snapshot option" where
  "snapshot_by_id db tid = map_option (task_snapshot_of db) (task_row db tid)"

definition get_task_by_id :: "task_ref \<Rightarrow> queue_db \<Rightarrow> task_snapshot option" where
  "get_task_by_id ref db =
     (case id_uuid ref of None \<Rightarrow> None | Some i \<Rightarrow> snapshot_by_id db i)"

section \<open>The lease of a claimed job\<close>

text \<open>
  \<open>_claimed_job\<close>: the row of the job, provided that token, version and owner of its lease are
  still those of the claim. Everything a worker writes goes through this check.
\<close>

definition holds_claim :: "claimed_job \<Rightarrow> image_job \<Rightarrow> bool" where
  "holds_claim c j \<longleftrightarrow>
     j_id j = j_id (c_job c) \<and> j_lease_token j = Some (c_lease_token c) \<and>
     j_lease_version j = c_lease_version c \<and> j_lease_owner j = Some (c_lease_owner c)"

definition claimed_job_row :: "queue_db \<Rightarrow> claimed_job \<Rightarrow> image_job option" where
  "claimed_job_row db c = find (holds_claim c) (db_jobs db)"

definition release_account_lease :: "claimed_job \<Rightarrow> queue_db \<Rightarrow> queue_db" where
  "release_account_lease c db =
     drop_leases (\<lambda>l. l_job_id l = j_id (c_job c) \<and> l_lease_token l = c_lease_token c \<and>
                      l_lease_version l = c_lease_version c) db"

definition clear_job_lease :: "image_job \<Rightarrow> image_job" where
  "clear_job_lease j =
     j\<lparr>j_lease_owner := None, j_lease_token := None, j_lease_expires_at := None,
       j_heartbeat_at := None\<rparr>"

lemma claimed_job_rowD:
  "claimed_job_row db c = Some j \<Longrightarrow> j \<in> set (db_jobs db) \<and> holds_claim c j"
  by (auto simp: claimed_job_row_def dest: find_SomeD)

lemma release_projections [simp, store_simps]:
  "db_jobs (release_account_lease c db) = db_jobs db"
  "db_tasks (release_account_lease c db) = db_tasks db"
  "db_artifacts (release_account_lease c db) = db_artifacts db"
  "db_workers (release_account_lease c db) = db_workers db"
  "db_aliases (release_account_lease c db) = db_aliases db"
  by (simp_all add: release_account_lease_def)

section \<open>Writing artifacts\<close>

text \<open>
  The unique constraints of the artifact table: the path; job, kind and hash; task, kind and
  ordinal (SQL never equates two NULLs). A write that breaks one raises IntegrityError when
  the session is flushed.
\<close>

definition artifact_conflict :: "task_artifact \<Rightarrow> task_artifact \<Rightarrow> bool" where
  "artifact_conflict a b \<longleftrightarrow>
     a_relative_path a = a_relative_path b \<or>
     (a_job_id a \<noteq> None \<and> a_job_id a = a_job_id b \<and> a_kind a = a_kind b \<and> a_sha256 a = a_sha256 b) \<or>
     (a_ordinal a \<noteq> None \<and> a_task_id a = a_task_id b \<and> a_kind a = a_kind b \<and>
      a_ordinal a = a_ordinal b)"

definition insert_artifact :: "task_artifact \<Rightarrow> queue_db \<Rightarrow> queue_error + queue_db" where
  "insert_artifact a db =
     (if \<exists>b \<in> set (db_artifacts db). artifact_conflict a b then Inl IntegrityError
      else Inr (add_artifact a db))"

definition artifact_at :: "queue_db \<Rightarrow> string \<Rightarrow> task_artifact option" where
  "artifact_at db path = find (\<lambda>a. a_relative_path a = path) (db_artifacts db)"

text \<open>Rewriting the row \<open>a\<close> as \<open>a'\<close> (the path stays).\<close>

definition rewrite_artifact :: "task_artifact \<Rightarrow> task_artifact \<Rightarrow> queue_db \<Rightarrow> queue_error + queue_db" where
  "rewrite_artifact a a' db =
     (if \<exists>b \<in> set (db_artifacts db). a_relative_path b \<noteq> a_relative_path a \<and> artifact_conflict a' b
      then Inl IntegrityError
      else Inr (upd_artifacts (\<lambda>b. a_relative_path b = a_relative_path a) (\<lambda>_. a') db))"

definition artifacts_ok :: "queue_db \<Rightarrow> bool" where
  "artifacts_ok db \<longleftrightarrow> distinct (map a_relative_path (db_artifacts db))"

lemma insert_artifact_projections:
  assumes "insert_artifact a db = Inr db'"
  shows "db_jobs db' = db_jobs db" "db_tasks db' = db_tasks db" "db_leases db' = db_leases db"
    "db_events db' = db_events db"
  using assms by (auto simp: insert_artifact_def split: if_splits)

lemma rewrite_artifact_projections:
  assumes "rewrite_artifact a a' db = Inr db'"
  shows "db_jobs db' = db_jobs db" "db_tasks db' = db_tasks db" "db_leases db' = db_leases db"
    "db_events db' = db_events db"
  using assms by (auto simp: rewrite_artifact_def split: if_splits)

end
