(* ===== verification/Queue_Invariant.thy ===== *)
theory Queue_Invariant
  imports Queue_Store
begin

text \<open>
  The well-formedness of the queue database and the library of preservation lemmas: for each
  row update, what the caller has to show. \<open>store_ok_except S\<close> is the invariant while the
  tasks in \<open>S\<close> wait to be re-aggregated; aggregating a task takes it out of \<open>S\<close>.
\<close>

section \<open>The invariant\<close>

text \<open>
  One job: its lease columns are set together, exactly while a worker holds it; a terminal
  status has its terminal stage; a result or a persisted image URL implies that the quota
  was consumed, and only consumed quota is accounted.
\<close>

definition job_ok :: "image_job \<Rightarrow> bool" where
  "job_ok j \<longleftrightarrow>
     (j_lease_token j \<noteq> None \<longleftrightarrow> active_job (j_status j)) \<and>
     (j_lease_owner j \<noteq> None \<longleftrightarrow> active_job (j_status j)) \<and>
     (j_lease_expires_at j \<noteq> None \<longleftrightarrow> active_job (j_status j)) \<and>
     (j_heartbeat_at j \<noteq> None \<longleftrightarrow> active_job (j_status j)) \<and>
     (j_status j = JSuccess \<longrightarrow> j_stage j = SSuccess \<and> j_quota_consumed j) \<and>
     (j_status j = JFailed \<longrightarrow> j_stage j = SFailed) \<and>
     (j_status j = JCanceled \<longrightarrow> j_stage j = SCanceled) \<and>
     (j_image_urls j \<noteq> [] \<longrightarrow> j_quota_consumed j) \<and>
     (j_quota_accounted j \<longrightarrow> j_quota_consumed j)"

text \<open>An account lease and the job that holds it name the same token, version and account.\<close>

definition lease_matches :: "image_job \<Rightarrow> account_lease \<Rightarrow> bool" where
  "lease_matches j l \<longleftrightarrow>
     active_job (j_status j) \<and> j_lease_token j = Some (l_lease_token l) \<and>
     j_lease_version j = l_lease_version l \<and> j_account_id j = Some (l_account_id l)"

definition lease_ok :: "queue_db \<Rightarrow> account_lease \<Rightarrow> bool" where
  "lease_ok db l \<longleftrightarrow> (\<exists>j \<in> set (db_jobs db). j_id j = l_job_id l \<and> lease_matches j l)"

definition lease_key :: "account_lease \<Rightarrow> uuid \<times> nat" where
  "lease_key l = (l_account_id l, l_slot_no l)"

definition keys_ok :: "queue_db \<Rightarrow> bool" where
  "keys_ok db \<longleftrightarrow>
     distinct (map j_id (db_jobs db)) \<and> distinct (map t_id (db_tasks db)) \<and>
     distinct (map lease_key (db_leases db)) \<and> distinct (map l_job_id (db_leases db))"

definition statuses_of :: "queue_db \<Rightarrow> uuid \<Rightarrow> job_status list" where
  "statuses_of db tid = map j_status (filter (\<lambda>j. j_task_id j = tid) (db_jobs db))"

text \<open>
  The abstract outcome of a task: what its status must be once all its jobs are terminal.
\<close>

definition task_outcome :: "bool \<Rightarrow> job_status list \<Rightarrow> task_status" where
  "task_outcome cancel_requested ss =
     (if cancel_requested then TCanceled
      else if \<forall>s \<in> set ss. s = JSuccess then TSuccess
      else TFailed)"

definition all_terminal :: "job_status list \<Rightarrow> bool" where
  "all_terminal ss \<longleftrightarrow> (\<forall>s \<in> set ss. terminal_job s)"

definition task_ok :: "image_task \<Rightarrow> job_status list \<Rightarrow> bool" where
  "task_ok t ss \<longleftrightarrow>
     t_succeeded_jobs t = count_list ss JSuccess \<and>
     t_failed_jobs t = count_list ss JFailed \<and>
     (if all_terminal ss then t_status t = task_outcome (t_cancel_requested t) ss
      else \<not> terminal_task (t_status t))"

definition task_shape_ok :: "queue_db \<Rightarrow> image_task \<Rightarrow> bool" where
  "task_shape_ok db t \<longleftrightarrow>
     length (statuses_of db (t_id t)) = t_required_jobs t \<and> 1 \<le> t_required_jobs t"

definition fk_ok :: "queue_db \<Rightarrow> bool" where
  "fk_ok db \<longleftrightarrow> j_task_id ` set (db_jobs db) \<subseteq> t_id ` set (db_tasks db)"

definition store_ok_except :: "uuid set \<Rightarrow> queue_db \<Rightarrow> bool" where
  "store_ok_except S db \<longleftrightarrow>
     keys_ok db \<and> fk_ok db \<and>
     (\<forall>j \<in> set (db_jobs db). job_ok j) \<and>
     (\<forall>l \<in> set (db_leases db). lease_ok db l) \<and>
     (\<forall>t \<in> set (db_tasks db). task_shape_ok db t) \<and>
     (\<forall>t \<in> set (db_tasks db). t_id t \<notin> S \<longrightarrow> task_ok t (statuses_of db (t_id t)))"

definition store_ok :: "queue_db \<Rightarrow> bool" where
  "store_ok db \<longleftrightarrow> store_ok_except {} db"

lemma store_ok_exceptI: "store_ok db \<Longrightarrow> store_ok_except S db"
  by (auto simp: store_ok_def store_ok_except_def)

lemma store_ok_except_mono: "store_ok_except S db \<Longrightarrow> S \<subseteq> S' \<Longrightarrow> store_ok_except S' db"
  by (auto simp: store_ok_except_def)

lemma store_ok_empty: "store_ok empty_db"
  by (simp add: store_ok_def store_ok_except_def keys_ok_def fk_ok_def empty_db_def)

section \<open>Consequences\<close>

lemma job_unique:
  "store_ok_except S db \<Longrightarrow> j \<in> set (db_jobs db) \<Longrightarrow> k \<in> set (db_jobs db) \<Longrightarrow> j_id j = j_id k \<Longrightarrow>
   j = k"
  by (auto simp: store_ok_except_def keys_ok_def dest: distinct_map_eq)

lemma task_unique:
  "store_ok_except S db \<Longrightarrow> t \<in> set (db_tasks db) \<Longrightarrow> u \<in> set (db_tasks db) \<Longrightarrow> t_id t = t_id u \<Longrightarrow>
   t = u"
  by (auto simp: store_ok_except_def keys_ok_def dest: distinct_map_eq)

lemma store_job_ok: "store_ok_except S db \<Longrightarrow> j \<in> set (db_jobs db) \<Longrightarrow> job_ok j"
  by (auto simp: store_ok_except_def)

lemma lease_of_job:
  assumes "store_ok_except S db" and "l \<in> set (db_leases db)" and "j \<in> set (db_jobs db)"
    and "l_job_id l = j_id j"
  shows "lease_matches j l"
proof -
  from assms(1,2) obtain k where k: "k \<in> set (db_jobs db)" "j_id k = l_job_id l" "lease_matches k l"
    by (auto simp: store_ok_except_def lease_ok_def)
  with assms have "k = j" by (auto intro: job_unique)
  with k show ?thesis by simp
qed

lemma no_lease_when_inactive:
  assumes "store_ok_except S db" and "j \<in> set (db_jobs db)" and "\<not> active_job (j_status j)"
    and "l \<in> set (db_leases db)"
  shows "l_job_id l \<noteq> j_id j"
  using lease_of_job [OF assms(1,4,2)] assms(3) by (auto simp: lease_matches_def)

text \<open>After the account lease of a valid claim is released, no lease is left for its job.\<close>

lemma release_leaves_no_lease:
  assumes "store_ok_except S db" and "claimed_job_row db c = Some j"
    and "l \<in> set (db_leases (release_account_lease c db))"
  shows "l_job_id l \<noteq> j_id j"
proof
  assume eq: "l_job_id l = j_id j"
  from assms(2) have j: "j \<in> set (db_jobs db)" "holds_claim c j"
    by (auto dest: claimed_job_rowD)
  from assms(3) have l: "l \<in> set (db_leases db)"
    "\<not> (l_job_id l = j_id (c_job c) \<and> l_lease_token l = c_lease_token c \<and>
        l_lease_version l = c_lease_version c)"
    by (auto simp: release_account_lease_def db_leases_drop)
  from lease_of_job [OF assms(1) l(1) j(1) eq] j(2) eq l(2) show False
    by (auto simp: lease_matches_def holds_claim_def)
qed

lemma claimed_job_active:
  assumes "store_ok_except S db" and "claimed_job_row db c = Some j"
  shows "active_job (j_status j)"
  using assms by (auto dest!: claimed_job_rowD simp: holds_claim_def store_ok_except_def job_ok_def)

lemma job_row_unique:
  "store_ok_except S db \<Longrightarrow> j \<in> set (db_jobs db) \<Longrightarrow> job_row db (j_id j) = Some j"
  unfolding job_row_def by (rule find_key) (auto simp: store_ok_except_def keys_ok_def)

lemma task_row_unique:
  "store_ok_except S db \<Longrightarrow> t \<in> set (db_tasks db) \<Longrightarrow> task_row db (t_id t) = Some t"
  unfolding task_row_def by (rule find_key) (auto simp: store_ok_except_def keys_ok_def)

lemma task_of_job:
  assumes "store_ok_except S db" and "j \<in> set (db_jobs db)"
  obtains t where "task_row db (j_task_id j) = Some t" "t \<in> set (db_tasks db)" "t_id t = j_task_id j"
proof -
  from assms obtain t where t: "t \<in> set (db_tasks db)" "t_id t = j_task_id j"
    by (auto simp: store_ok_except_def fk_ok_def)
  with task_row_unique [OF assms(1) t(1)] show ?thesis by (auto intro: that)
qed

text \<open>A task with a job in progress is in progress.\<close>

lemma open_job_open_task:
  assumes "store_ok db" and "j \<in> set (db_jobs db)" and "\<not> terminal_job (j_status j)"
    and "task_row db (j_task_id j) = Some t"
  shows "\<not> terminal_task (t_status t)"
proof -
  have "j_status j \<in> set (statuses_of db (j_task_id j))" using assms(2) by (auto simp: statuses_of_def)
  with assms(3) have "\<not> all_terminal (statuses_of db (j_task_id j))"
    by (auto simp: all_terminal_def)
  with assms(1) task_rowD [OF assms(4)] show ?thesis
    by (force simp: store_ok_def store_ok_except_def task_ok_def)
qed

lemma job_row_upd_job:
  "(\<And>j. j_id (f j) = j_id j) \<Longrightarrow>
   job_row (upd_job i f db) i' = (if i' = i then map_option f (job_row db i) else job_row db i')"
  by (simp add: job_row_def db_jobs_upd_job find_upd_rows_key find_upd_rows_other)

lemma task_row_upd_task:
  "(\<And>t. t_id (f t) = t_id t) \<Longrightarrow>
   task_row (upd_task i f db) i' = (if i' = i then map_option f (task_row db i) else task_row db i')"
  by (simp add: task_row_def db_tasks_upd_task find_upd_rows_key find_upd_rows_other)

lemma row_projections [simp, store_simps]:
  "job_row (upd_task i g db) n = job_row db n" "task_row (upd_job i f db) n = task_row db n"
  "job_row (drop_leases p db) n = job_row db n" "task_row (drop_leases p db) n = task_row db n"
  "job_row (log_event t k e a fs ts d db) n = job_row db n"
  "task_row (log_event t k e a fs ts d db) n = task_row db n"
  "job_row (release_account_lease c db) n = job_row db n"
  "task_row (release_account_lease c db) n = task_row db n"
  "job_row (aggregate_task clk tid db) n = job_row db n"
  by (simp_all add: job_row_def task_row_def)

text \<open>The number of jobs of a task in a status, after one job changed.\<close>

lemma status_count_filter:
  "status_count (jobs_of db tid) s =
     length (filter (\<lambda>j. j_task_id j = tid \<and> j_status j = s) (db_jobs db))"
proof -
  have "status_count (jobs_of db tid) s = size (filter_mset (\<lambda>j. j_status j = s) (mset (jobs_of db tid)))"
    by (simp add: status_count_def flip: mset_filter)
  also have "\<dots> = length (filter (\<lambda>j. j_status j = s) (filter (\<lambda>j. j_task_id j = tid) (db_jobs db)))"
    by (simp add: jobs_of_def flip: mset_filter)
  also have "\<dots> = length (filter (\<lambda>j. j_task_id j = tid \<and> j_status j = s) (db_jobs db))"
    by simp
  finally show ?thesis .
qed

lemma status_count_upd_job:
  assumes "store_ok_except S db" and "j \<in> set (db_jobs db)" and "j_task_id (f j) = j_task_id j"
  shows "status_count (jobs_of (upd_job (j_id j) f db) (j_task_id j)) s + (if j_status j = s then 1 else 0) =
         status_count (jobs_of db (j_task_id j)) s + (if j_status (f j) = s then 1 else 0)"
proof -
  have "distinct (map j_id (db_jobs db))"
    using assms(1) by (simp add: store_ok_except_def keys_ok_def)
  from count_upd_key [OF this assms(2),
      of "\<lambda>k. j_task_id k = j_task_id j \<and> j_status k = s" f] assms(3)
  show ?thesis by (simp add: status_count_filter db_jobs_upd_job)
qed

lemma count_list_full: "count_list ss x = length ss \<longleftrightarrow> (\<forall>s \<in> set ss. s = x)"
proof (induction ss)
  case (Cons s ss)
  have "count_list ss x \<le> length ss" by (rule count_le_length)
  with Cons show ?case by auto
qed simp

text \<open>A task is successful exactly when it counts as many successes as it has jobs.\<close>

lemma task_success_iff:
  assumes "store_ok db" and "task_row db i = Some t"
  shows "t_status t = TSuccess \<longleftrightarrow> \<not> t_cancel_requested t \<and> t_succeeded_jobs t = t_required_jobs t"
proof -
  have t: "t \<in> set (db_tasks db)" "t_id t = i" using task_rowD [OF assms(2)] by auto
  let ?ss = "statuses_of db i"
  have ok: "task_ok t ?ss" "length ?ss = t_required_jobs t" "?ss \<noteq> []"
    using assms(1) t by (auto simp: store_ok_def store_ok_except_def task_shape_ok_def)
  have full: "t_succeeded_jobs t = t_required_jobs t \<longleftrightarrow> (\<forall>s \<in> set ?ss. s = JSuccess)"
    using ok count_list_full [of ?ss JSuccess] by (simp add: task_ok_def)
  have "\<forall>s \<in> set ?ss. s = JSuccess \<Longrightarrow> all_terminal ?ss" by (auto simp: all_terminal_def)
  with ok full show ?thesis
    by (auto simp: task_ok_def task_outcome_def split: if_splits)
qed

section \<open>Preservation: rows the invariant does not read\<close>

lemma ok_events [simp]: "store_ok_except S (db\<lparr>db_events := e\<rparr>) = store_ok_except S db"
  "store_ok_except S (db\<lparr>db_artifacts := a\<rparr>) = store_ok_except S db"
  "store_ok_except S (db\<lparr>db_workers := w\<rparr>) = store_ok_except S db"
  "store_ok_except S (db\<lparr>db_aliases := al\<rparr>) = store_ok_except S db"
  by (simp_all add: store_ok_except_def keys_ok_def fk_ok_def lease_ok_def task_shape_ok_def
      statuses_of_def)

lemma ok_log_event [simp]:
  "store_ok_except S (log_event t j k a fs ts d db) = store_ok_except S db"
  by (simp add: log_event_def)

lemma ok_upd_artifacts [simp]: "store_ok_except S (upd_artifacts p f db) = store_ok_except S db"
  by (simp add: upd_artifacts_def)

lemma ok_add_artifact [simp]: "store_ok_except S (add_artifact x db) = store_ok_except S db"
  by (simp add: add_artifact_def)

section \<open>Preservation: leases\<close>

lemma ok_drop_leases [store_intros]:
  "store_ok_except S db \<Longrightarrow> store_ok_except S (drop_leases p db)"
  by (auto simp: store_ok_except_def keys_ok_def fk_ok_def lease_ok_def task_shape_ok_def
      statuses_of_def db_leases_drop distinct_map_filter)

lemma ok_release [store_intros]:
  "store_ok_except S db \<Longrightarrow> store_ok_except S (release_account_lease c db)"
  by (simp add: release_account_lease_def ok_drop_leases)

lemma ok_add_lease:
  assumes "store_ok_except S db" and "lease_ok db l" and "lease_key l \<notin> lease_key ` set (db_leases db)"
    and "\<And>k. k \<in> set (db_leases db) \<Longrightarrow> l_job_id k \<noteq> l_job_id l"
  shows "store_ok_except S (db\<lparr>db_leases := db_leases db @ [l]\<rparr>)"
proof -
  have "lease_ok (db\<lparr>db_leases := x\<rparr>) k = lease_ok db k" for x k
    by (simp add: lease_ok_def)
  moreover have "l_job_id l \<notin> l_job_id ` set (db_leases db)"
    using assms(4) by force
  ultimately show ?thesis
    using assms(1-3)
    by (auto simp: store_ok_except_def keys_ok_def fk_ok_def task_shape_ok_def statuses_of_def)
qed

section \<open>Preservation: tasks\<close>

definition task_frame :: "image_task \<Rightarrow> image_task \<Rightarrow> bool" where
  "task_frame t u \<longleftrightarrow> t_id u = t_id t \<and> t_required_jobs u = t_required_jobs t"

definition task_same :: "image_task \<Rightarrow> image_task \<Rightarrow> bool" where
  "task_same t u \<longleftrightarrow> task_frame t u \<and> t_status u = t_status t \<and>
     t_succeeded_jobs u = t_succeeded_jobs t \<and> t_failed_jobs u = t_failed_jobs t \<and>
     t_cancel_requested u = t_cancel_requested t"

lemma statuses_upd_task [simp]: "statuses_of (upd_task i f db) tid = statuses_of db tid"
  by (simp add: statuses_of_def)

lemma ok_upd_task:
  assumes ok: "store_ok_except S db"
    and f: "\<And>t. t \<in> set (db_tasks db) \<Longrightarrow> t_id t = i \<Longrightarrow>
      task_frame t (f t) \<and> (i \<in> S' \<or> task_ok (f t) (statuses_of db i))"
    and S: "S \<subseteq> insert i S'"
  shows "store_ok_except S' (upd_task i f db)"
proof -
  have ids: "map t_id (db_tasks (upd_task i f db)) = map t_id (db_tasks db)"
    unfolding db_tasks_upd_task by (rule map_upd_rows) (use f in \<open>auto simp: task_frame_def\<close>)
  have keys: "keys_ok (upd_task i f db)"
    using ok ids by (simp add: store_ok_except_def keys_ok_def)
  have fk: "fk_ok (upd_task i f db)"
    using ok arg_cong [OF ids, of set] by (simp add: store_ok_except_def fk_ok_def)
  have jobs: "\<forall>j \<in> set (db_jobs (upd_task i f db)). job_ok j"
    "\<forall>l \<in> set (db_leases (upd_task i f db)). lease_ok (upd_task i f db) l"
    using ok by (simp_all add: store_ok_except_def lease_ok_def)
  have tasks: "task_shape_ok (upd_task i f db) u \<and>
      (t_id u \<notin> S' \<longrightarrow> task_ok u (statuses_of (upd_task i f db) (t_id u)))"
    if u: "u \<in> set (db_tasks (upd_task i f db))" for u
  proof -
    from u obtain t where t: "t \<in> set (db_tasks db)" "u = (if t_id t = i then f t else t)"
      by (auto simp: db_tasks_upd_task upd_rows_def)
    then show ?thesis
      using ok f [of t] S by (auto simp: store_ok_except_def task_shape_ok_def task_frame_def)
  qed
  show ?thesis
    unfolding store_ok_except_def using keys fk jobs tasks by blast
qed

lemma ok_upd_task_same [store_intros]:
  assumes "store_ok_except S db" and "\<And>t. task_same t (f t)"
  shows "store_ok_except S (upd_task i f db)"
proof (rule ok_upd_task [OF assms(1)])
  fix t assume t: "t \<in> set (db_tasks db)" "t_id t = i"
  have "task_ok t (statuses_of db i)" if "i \<notin> S"
    using assms(1) t that by (auto simp: store_ok_except_def)
  with assms(2) [of t] show "task_frame t (f t) \<and> (i \<in> S \<or> task_ok (f t) (statuses_of db i))"
    by (auto simp: task_same_def task_ok_def split: if_splits)
qed auto

lemma ok_upd_task_pending [store_intros]:
  assumes "store_ok_except S db" and "\<And>t. task_frame t (f t)" and "i \<in> S"
  shows "store_ok_except S (upd_task i f db)"
  by (rule ok_upd_task [OF assms(1)]) (use assms in auto)

section \<open>Preservation: aggregation\<close>

lemma status_count_jobs_of:
  "status_count (jobs_of db tid) s = count_list (statuses_of db tid) s"
  by (simp add: status_count_filter statuses_of_def count_list_eq_length_filter filter_map comp_def
      eq_commute [of s])

lemma apply_active_status_nonterminal: "\<not> terminal_task (t_status (apply_active_status now jobs wr t))"
  by (simp add: apply_active_status_def)

lemma apply_active_status_frame [simp]:
  "t_id (apply_active_status now jobs wr t) = t_id t"
  "t_required_jobs (apply_active_status now jobs wr t) = t_required_jobs t"
  "t_succeeded_jobs (apply_active_status now jobs wr t) = t_succeeded_jobs t"
  "t_failed_jobs (apply_active_status now jobs wr t) = t_failed_jobs t"
  "t_cancel_requested (apply_active_status now jobs wr t) = t_cancel_requested t"
  "t_delivery_status (apply_active_status now jobs wr t) = t_delivery_status t"
  by (simp_all add: apply_active_status_def)

lemma aggregate_row_frame [simp]:
  "t_id (aggregate_row now jobs t) = t_id t"
  "t_required_jobs (aggregate_row now jobs t) = t_required_jobs t"
  "t_succeeded_jobs (aggregate_row now jobs t) = status_count jobs JSuccess"
  "t_failed_jobs (aggregate_row now jobs t) = status_count jobs JFailed"
  "t_cancel_requested (aggregate_row now jobs t) = t_cancel_requested t"
  "t_delivery_status (aggregate_row now jobs t) = t_delivery_status t"
  by (simp_all add: aggregate_row_def Let_def)

lemma task_row_aggregate:
  "task_row (aggregate_task clk tid db) n =
     (if n = tid then map_option (aggregate_row clk (jobs_of db tid)) (task_row db tid)
      else task_row db n)"
  unfolding aggregate_task_def by (rule task_row_upd_task) simp

text \<open>
  The status \<open>_aggregate_task\<close> computes is the abstract outcome: terminal exactly when all
  jobs are, and then canceled, successful or failed as the jobs say.
\<close>

lemma aggregate_row_status:
  assumes "jobs \<noteq> []" and "t_required_jobs t = length jobs"
  shows "if all_terminal (map j_status jobs)
         then t_status (aggregate_row now jobs t) =
                task_outcome (t_cancel_requested t) (map j_status jobs)
         else \<not> terminal_task (t_status (aggregate_row now jobs t))"
proof -
  have "status_count jobs s = count_list (map j_status jobs) s" for s
    by (simp add: status_count_def count_list_eq_length_filter filter_map comp_def eq_commute [of s])
  then have full: "status_count jobs JSuccess = t_required_jobs t \<longleftrightarrow>
      (\<forall>s \<in> set (map j_status jobs). s = JSuccess)"
    using assms(2) count_list_full [of "map j_status jobs" JSuccess] by simp
  have trm: "(\<forall>j \<in> set jobs. terminal_job (j_status j)) \<longleftrightarrow> all_terminal (map j_status jobs)"
    by (simp add: all_terminal_def)
  have succ: "\<forall>s \<in> set (map j_status jobs). s = JSuccess \<Longrightarrow> all_terminal (map j_status jobs)"
    by (simp add: all_terminal_def)
  show ?thesis
    using assms(1) full trm succ
    by (auto simp: aggregate_row_def Let_def task_outcome_def apply_active_status_nonterminal)
qed

lemma statuses_perm:
  "set (map j_status (jobs_of db tid)) = set (statuses_of db tid)"
  "length (jobs_of db tid) = length (statuses_of db tid)"
  by (auto simp: statuses_of_def jobs_of_def)

lemma task_ok_aggregate:
  assumes "task_shape_ok db t" and "t_id t = tid"
  shows "task_ok (aggregate_row now (jobs_of db tid) t) (statuses_of db tid)"
proof -
  have len: "t_required_jobs t = length (jobs_of db tid)" "jobs_of db tid \<noteq> []"
    using assms statuses_perm(2) [of db tid] by (auto simp: task_shape_ok_def)
  have "all_terminal (map j_status (jobs_of db tid)) = all_terminal (statuses_of db tid)"
    "task_outcome c (map j_status (jobs_of db tid)) = task_outcome c (statuses_of db tid)" for c
    unfolding all_terminal_def task_outcome_def statuses_perm(1) by simp_all
  with aggregate_row_status [OF len(2,1), of now] show ?thesis
    by (simp add: task_ok_def status_count_jobs_of)
qed

lemma ok_aggregate [store_intros]:
  assumes "store_ok_except (insert tid S) db"
  shows "store_ok_except S (aggregate_task now tid db)"
  unfolding aggregate_task_def
proof (rule ok_upd_task [OF assms])
  fix t assume "t \<in> set (db_tasks db)" "t_id t = tid"
  with assms show "task_frame t (aggregate_row now (jobs_of db tid) t) \<and>
      (tid \<in> S \<or> task_ok (aggregate_row now (jobs_of db tid) t) (statuses_of db tid))"
    by (auto simp: task_frame_def store_ok_except_def intro: task_ok_aggregate)
qed auto

section \<open>Preservation: jobs\<close>

lemma ok_upd_job:
  assumes ok: "store_ok_except S db"
    and f: "\<And>j. j \<in> set (db_jobs db) \<Longrightarrow> j_id j = i \<Longrightarrow>
      j_id (f j) = i \<and> j_task_id (f j) = j_task_id j \<and> job_ok (f j) \<and>
      (j_status (f j) = j_status j \<or> j_task_id j \<in> S) \<and>
      (\<forall>l \<in> set (db_leases db). l_job_id l = i \<longrightarrow> lease_matches (f j) l)"
  shows "store_ok_except S (upd_job i f db)"
proof -
  let ?db = "upd_job i f db"
  have ids: "map j_id (db_jobs ?db) = map j_id (db_jobs db)"
    "map j_task_id (db_jobs ?db) = map j_task_id (db_jobs db)"
    unfolding db_jobs_upd_job by (rule map_upd_rows; use f in force)+
  have keys: "keys_ok ?db"
    using ok ids(1) by (simp add: store_ok_except_def keys_ok_def)
  have fk: "fk_ok ?db"
    using ok arg_cong [OF ids(2), of set] by (simp add: store_ok_except_def fk_ok_def)
  have jobs: "\<forall>j \<in> set (db_jobs ?db). job_ok j"
    using ok f by (auto simp: store_ok_except_def db_jobs_upd_job upd_rows_def)
  have leases: "lease_ok ?db l" if l: "l \<in> set (db_leases ?db)" for l
  proof -
    from ok l obtain j where j: "j \<in> set (db_jobs db)" "j_id j = l_job_id l" "lease_matches j l"
      by (auto simp: store_ok_except_def lease_ok_def)
    let ?j = "if j_id j = i then f j else j"
    from j f [of j] l have "?j \<in> set (db_jobs ?db) \<and> j_id ?j = l_job_id l \<and> lease_matches ?j l"
      by (auto simp: db_jobs_upd_job upd_rows_def)
    then show ?thesis unfolding lease_ok_def by blast
  qed
  have filt: "filter (\<lambda>j. j_task_id j = tid) (db_jobs ?db) =
      upd_rows (\<lambda>j. j_id j = i) f (filter (\<lambda>j. j_task_id j = tid) (db_jobs db))" for tid
    unfolding db_jobs_upd_job by (rule filter_upd_rows_same) (use f in simp)
  have len: "length (statuses_of ?db tid) = length (statuses_of db tid)" for tid
    by (simp add: statuses_of_def filt)
  have stat: "statuses_of ?db tid = statuses_of db tid" if "tid \<notin> S" for tid
    unfolding statuses_of_def filt by (rule map_upd_rows) (use f that in auto)
  show ?thesis
    using ok keys fk jobs leases len stat
    by (simp add: store_ok_except_def task_shape_ok_def)
qed

text \<open>
  A job that loses its lease: the caller has dropped its account leases, and the task is
  aggregated afterwards.
\<close>

lemma ok_upd_job_inactive:
  assumes "store_ok_except S db" and "j0 \<in> set (db_jobs db)" and "j_id j0 = i"
    and "j_id (f j0) = i" "j_task_id (f j0) = j_task_id j0" "job_ok (f j0)"
    and "j_task_id j0 \<in> S"
    and "\<And>l. l \<in> set (db_leases db) \<Longrightarrow> l_job_id l \<noteq> i"
  shows "store_ok_except S (upd_job i f db)"
proof (rule ok_upd_job [OF assms(1)])
  fix j assume "j \<in> set (db_jobs db)" "j_id j = i"
  with assms have "j = j0" by (auto intro: job_unique)
  with assms show "j_id (f j) = i \<and> j_task_id (f j) = j_task_id j \<and> job_ok (f j) \<and>
      (j_status (f j) = j_status j \<or> j_task_id j \<in> S) \<and>
      (\<forall>l \<in> set (db_leases db). l_job_id l = i \<longrightarrow> lease_matches (f j) l)"
    by auto
qed

text \<open>A change that keeps status, lease and account of the job keeps everything.\<close>

definition job_same_lease :: "image_job \<Rightarrow> image_job \<Rightarrow> bool" where
  "job_same_lease j k \<longleftrightarrow>
     j_id k = j_id j \<and> j_task_id k = j_task_id j \<and> j_status k = j_status j \<and>
     j_lease_token k = j_lease_token j \<and> j_lease_version k = j_lease_version j \<and>
     j_account_id k = j_account_id j"

lemma ok_upd_job_same:
  assumes "store_ok_except S db"
    and "\<And>j. j \<in> set (db_jobs db) \<Longrightarrow> j_id j = i \<Longrightarrow> job_same_lease j (f j) \<and> job_ok (f j)"
  shows "store_ok_except S (upd_job i f db)"
proof (rule ok_upd_job [OF assms(1)])
  fix j assume j: "j \<in> set (db_jobs db)" "j_id j = i"
  have "lease_matches (f j) l" if "l \<in> set (db_leases db)" "l_job_id l = i" for l
    using lease_of_job [OF assms(1) that(1) j(1)] that(2) j assms(2) [OF j]
    by (simp add: lease_matches_def job_same_lease_def)
  with assms(2) [OF j] j(2) show "j_id (f j) = i \<and> j_task_id (f j) = j_task_id j \<and> job_ok (f j) \<and>
      (j_status (f j) = j_status j \<or> j_task_id j \<in> S) \<and>
      (\<forall>l \<in> set (db_leases db). l_job_id l = i \<longrightarrow> lease_matches (f j) l)"
    by (auto simp: job_same_lease_def)
qed

end
