(* ===== verification/Queue_Work.thy ===== *)
theory Queue_Work
  imports Queue_Invariant Failure_Policy "HOL-Library.List_Lexorder" "HOL-Library.Char_ord"
begin

text \<open>
  What a worker writes about the job it has claimed (\<open>repository.py\<close>): checkpoints, quota
  marks, heartbeats, artifacts, attempts, and the ways a claim ends (success, retry,
  failure, timeout, release). Each operation is the function on the row it mutates and the
  handler that finds the row through the lease check, writes, logs and re-aggregates. A
  clock argument \<open>clk\<close> is \<open>utc_now()\<close> of the session; where the code leaves \<open>updated_at\<close>
  to the column's \<open>onupdate\<close>, the row function sets it to the clock.
\<close>

section \<open>Row functions\<close>

definition text_id :: "uuid option \<Rightarrow> jval" where
  "text_id v = (case v of None \<Rightarrow> JStr '''' | Some i \<Rightarrow> JUid i)"

definition should_switch_claimed_account :: "job_stage \<Rightarrow> string option \<Rightarrow> bool" where
  "should_switch_claimed_account stage error_code =
     (if stage \<in> {SResolving, SDownloading, STransforming, SSaving}
      then should_switch_image_account error_code
      else should_switch_generating_account error_code)"

definition checkpoint_attempts :: "job_stage \<Rightarrow> image_job \<Rightarrow> image_job" where
  "checkpoint_attempts next_stage j =
     (let next_group = attempt_group next_stage
      in if next_group \<noteq> attempt_group (j_stage j)
         then (if next_group = GDownload then j\<lparr>j_download_attempts := j_download_attempts j + 1\<rparr>
               else if next_group = GSave then j\<lparr>j_save_attempts := j_save_attempts j + 1\<rparr>
               else j)
         else j)"

definition checkpoint_row :: "time \<Rightarrow> job_checkpoint \<Rightarrow> image_job \<Rightarrow> image_job" where
  "checkpoint_row clk cp j0 =
     (let j1 = touch_stage_timing (checkpoint_attempts (cp_stage cp) j0) (j_stage j0) (cp_stage cp) clk;
          j2 = j1\<lparr>j_stage := cp_stage cp, j_status := JRunning\<rparr>;
          j3 = (if cp_conversation_id cp \<noteq> ''''
                then j2\<lparr>j_conversation_id := Some (cp_conversation_id cp)\<rparr> else j2);
          j4 = (if cp_image_urls cp \<noteq> []
                then j3\<lparr>j_image_urls := cp_image_urls cp, j_quota_consumed := True\<rparr> else j3);
          j5 = (if cp_file_ids cp \<noteq> [] then j4\<lparr>j_file_ids := cp_file_ids cp\<rparr> else j4);
          j6 = (if cp_sediment_ids cp \<noteq> [] then j5\<lparr>j_sediment_ids := cp_sediment_ids cp\<rparr> else j5)
      in j6\<lparr>j_updated_at := clk\<rparr>)"

definition complete_row :: "time \<Rightarrow> artifact_descriptor \<Rightarrow> result_payload \<Rightarrow> image_job \<Rightarrow> image_job" where
  "complete_row clk artifact incoming j0 =
     (let j = touch_stage_timing j0 (j_stage j0) SSuccess clk;
          merged = merge_image_attempt_records (rp_attempts (j_result_payload j0))
                     (rp_attempts incoming) (if j_ordinal j0 = 0 then 1 else j_ordinal j0);
          url = (case map_of (rp_fields incoming) ''url'' of
                   Some (JStr u) \<Rightarrow> if u = '''' then d_public_url artifact else u
                 | _ \<Rightarrow> d_public_url artifact);
          fields = dict_set ''relative_path'' (JStr (d_relative_path artifact))
                    (dict_set ''height'' (JInt (int (d_height artifact)))
                      (dict_set ''width'' (JInt (int (d_width artifact)))
                        (dict_set ''url'' (JStr url) (rp_fields incoming))))
      in clear_job_lease
           (j\<lparr>j_quota_consumed := True, j_status := JSuccess, j_stage := SSuccess,
              j_result_payload := \<lparr>rp_fields = fields, rp_attempts = merged\<rparr>,
              j_error_code := None, j_error_message := None,
              j_completed_at := Some clk, j_updated_at := clk\<rparr>))"

definition canceled_row :: "time \<Rightarrow> image_job \<Rightarrow> image_job" where
  "canceled_row clk j =
     clear_job_lease
       (j\<lparr>j_status := JCanceled, j_stage := SCanceled,
          j_completed_at := or_else (j_completed_at j) (Some clk), j_updated_at := clk\<rparr>)"

definition retry_row :: "time \<Rightarrow> string \<Rightarrow> msg \<Rightarrow> time \<Rightarrow> image_job \<Rightarrow> image_job" where
  "retry_row clk code message next_retry j =
     (let j1 = j\<lparr>j_status := JRetryWait, j_error_code := Some code, j_error_message := Some message,
                 j_next_retry_at := Some next_retry, j_available_at := next_retry,
                 j_updated_at := clk\<rparr>;
          j2 = (if should_switch_claimed_account (j_stage j) (Some code)
                then j1\<lparr>j_conversation_id := None, j_file_ids := [], j_sediment_ids := []\<rparr> else j1)
      in clear_job_lease j2)"

definition fail_row :: "time \<Rightarrow> string \<Rightarrow> msg \<Rightarrow> image_job \<Rightarrow> image_job" where
  "fail_row clk code message j =
     clear_job_lease
       (j\<lparr>j_status := JFailed, j_stage := SFailed, j_error_code := Some code,
          j_error_message := Some message, j_completed_at := Some clk, j_updated_at := clk\<rparr>)"

definition timed_out_row :: "time \<Rightarrow> string \<Rightarrow> msg \<Rightarrow> bool \<Rightarrow> image_job \<Rightarrow> image_job" where
  "timed_out_row clk code message quota j0 =
     (let j = touch_stage_timing j0 (j_stage j0) SFailed clk
      in clear_job_lease
           (j\<lparr>j_status := JFailed, j_stage := SFailed, j_error_code := Some code,
              j_error_message := Some message, j_available_at := clk, j_completed_at := Some clk,
              j_updated_at := clk,
              j_quota_consumed := (if quota \<or> j_quota_consumed j0 then True else j_quota_consumed j0)\<rparr>))"

definition released_stage :: "image_job \<Rightarrow> job_stage" where
  "released_stage j =
     (if j_stage j \<in> {SQueued, SLeased, SRetryWait} then SQueued
      else if j_stage j = SSaving then SSaving
      else if j_image_urls j \<noteq> [] then SDownloading
      else if has_remote_ids j then SResolving
      else if j_stage j \<in> {SGenerating, STransforming} then j_stage j
      else SQueued)"

definition release_row :: "time \<Rightarrow> bool \<Rightarrow> bool \<Rightarrow> image_job \<Rightarrow> image_job" where
  "release_row clk cancel refund j =
     (if cancel
      then clear_job_lease (j\<lparr>j_status := JCanceled, j_stage := SCanceled, j_completed_at := Some clk,
                              j_updated_at := clk\<rparr>)
      else (let j1 = (if refund then refund_occupancy_claim_attempt j else j)
            in clear_job_lease (j1\<lparr>j_status := JQueued, j_stage := released_stage j1,
                                   j_available_at := clk, j_updated_at := clk\<rparr>)))"

section \<open>Checkpoints and marks\<close>

definition checkpoint_job :: "time \<Rightarrow> claimed_job \<Rightarrow> job_checkpoint \<Rightarrow> queue_db \<Rightarrow> bool \<times> queue_db" where
  "checkpoint_job clk c cp db =
     (case claimed_job_row db c of
        None \<Rightarrow> (False, db)
      | Some j \<Rightarrow>
          let j' = checkpoint_row clk cp j;
              db1 = (if cp_stage cp \<in> {STransforming, SSaving} then release_account_lease c db else db);
              db2 = upd_job (j_id j) (checkpoint_row clk cp) db1;
              db3 = log_event (j_task_id j) (Some (j_id j)) ''job_checkpoint'' (attempts_sum j')
                      (Some (job_stage_value (j_stage j))) (Some (job_stage_value (j_stage j')))
                      [(''conversation_id'', JStr (text_or_empty (j_conversation_id j'))),
                       (''image_urls'', JList (map JStr (j_image_urls j'))),
                       (''file_ids'', JList (map JStr (j_file_ids j'))),
                       (''sediment_ids'', JList (map JStr (j_sediment_ids j')))] db2
          in (True, aggregate_task clk (j_task_id j) db3))"

definition mark_quota_consumed :: "time \<Rightarrow> claimed_job \<Rightarrow> queue_db \<Rightarrow> bool \<times> queue_db" where
  "mark_quota_consumed clk c db =
     (case claimed_job_row db c of
        None \<Rightarrow> (False, db)
      | Some j \<Rightarrow>
          if j_quota_consumed j then (True, db)
          else (True, log_event (j_task_id j) (Some (j_id j)) ''quota_consumed'' (attempts_sum j) None None []
                        (upd_job (j_id j) (\<lambda>j. j\<lparr>j_quota_consumed := True, j_updated_at := clk\<rparr>) db)))"

definition mark_quota_accounted :: "time \<Rightarrow> uuid \<Rightarrow> uuid \<Rightarrow> queue_db \<Rightarrow> bool \<times> queue_db" where
  "mark_quota_accounted clk job_id account_id db =
     (case job_row db job_id of
        None \<Rightarrow> (False, db)
      | Some j \<Rightarrow>
          if \<not> j_quota_consumed j \<or> j_quota_accounted j then (False, db)
          else if j_account_id j \<noteq> None \<and> j_account_id j \<noteq> Some account_id then (False, db)
          else (True, log_event (j_task_id j) (Some job_id) ''quota_accounted'' (attempts_sum j) None None
                        [(''account_id'', JUid account_id)]
                        (upd_job job_id (\<lambda>j. j\<lparr>j_quota_accounted := True, j_quota_accounting_error := None,
                                               j_updated_at := clk\<rparr>) db)))"

definition record_quota_accounting_failure :: "time \<Rightarrow> uuid \<Rightarrow> string option \<Rightarrow> queue_db \<Rightarrow> nat \<times> queue_db" where
  "record_quota_accounting_failure clk job_id error db =
     (let raw = text_or_empty error;
          message = (if raw = '''' then MQuotaAccountingIncomplete
                     else if py_strip raw = '''' then MText ''quota accounting could not be completed''
                     else MText (py_strip raw))
      in case job_row db job_id of
           None \<Rightarrow> (0, db)
         | Some j \<Rightarrow>
             if \<not> j_quota_consumed j \<or> j_quota_accounted j then (0, db)
             else (let n = j_quota_accounting_attempts j + 1
                   in (n, log_event (j_task_id j) (Some job_id) ''quota_accounting_failed'' (attempts_sum j)
                            None None
                            [(''accounting_attempt'', JInt (int n)), (''error'', JMsg message)]
                            (upd_job job_id (\<lambda>j. j\<lparr>j_quota_accounting_attempts := n,
                                                   j_quota_accounting_error := Some message,
                                                   j_updated_at := clk\<rparr>) db))))"

definition max_quota_accounting_attempts :: nat where
  "max_quota_accounting_attempts = 5"

definition list_unaccounted_terminal_quota_jobs :: "int \<Rightarrow> queue_db \<Rightarrow> image_job list" where
  "list_unaccounted_terminal_quota_jobs limit db =
     take (nat (max 1 (min 1000 limit)))
       (sort_key (\<lambda>j. (case j_completed_at j of None \<Rightarrow> (1::nat, 0) | Some t \<Rightarrow> (0, t), j_created_at j))
         (filter (\<lambda>j. j_quota_consumed j \<and> \<not> j_quota_accounted j \<and>
                      j_quota_accounting_attempts j < max_quota_accounting_attempts \<and>
                      terminal_job (j_status j)) (db_jobs db)))"

section \<open>Heartbeats\<close>

definition heartbeat_claim ::
  "queue_settings \<Rightarrow> time \<Rightarrow> time \<Rightarrow> string \<Rightarrow> claimed_job \<Rightarrow> nat \<times> queue_db \<Rightarrow> nat \<times> queue_db" where
  "heartbeat_claim cfg clk now worker c st =
     (case st of (updated, db) \<Rightarrow>
        let expires = now + secs (lease_seconds cfg)
        in if c_lease_owner c \<noteq> worker then (updated, db)
           else if \<not> (\<exists>j \<in> set (db_jobs db). holds_claim c j \<and> active_job (j_status j)) then (updated, db)
           else
             let db1 = upd_job (j_id (c_job c))
                         (\<lambda>j. if holds_claim c j \<and> active_job (j_status j)
                              then j\<lparr>j_heartbeat_at := Some now, j_lease_expires_at := Some expires,
                                     j_updated_at := clk\<rparr> else j) db
             in (updated + 1, db1\<lparr>db_leases :=
                  upd_rows (\<lambda>l. l_job_id l = j_id (c_job c) \<and> l_lease_token l = c_lease_token c \<and>
                                l_lease_version l = c_lease_version c)
                    (\<lambda>l. l\<lparr>l_heartbeat_at := now, l_expires_at := expires\<rparr>) (db_leases db1)\<rparr>))"

definition heartbeat_claims ::
  "queue_settings \<Rightarrow> time \<Rightarrow> time \<Rightarrow> string \<Rightarrow> claimed_job list \<Rightarrow> queue_db \<Rightarrow> nat \<times> queue_db" where
  "heartbeat_claims cfg clk now worker claims db =
     fold (heartbeat_claim cfg clk now worker) claims (0, db)"

section \<open>Artifacts of a claimed job\<close>

definition descriptor_onto_row :: "time \<Rightarrow> artifact_descriptor \<Rightarrow> string \<Rightarrow> task_artifact \<Rightarrow> task_artifact" where
  "descriptor_onto_row clk d worker a =
     a\<lparr>a_kind := d_kind d, a_ordinal := d_ordinal d, a_status := d_status d,
       a_storage_backend := d_storage_backend d,
       a_worker_id := (if worker \<noteq> '''' then worker else a_worker_id a),
       a_sha256 := d_sha256 d, a_mime_type := d_mime_type d, a_byte_size := d_byte_size d,
       a_width := d_width d, a_height := d_height d, a_source_url := none_if_empty (d_source_url d),
       a_ready_at := (if d_status d = AReady then Some clk else None)\<rparr>"

definition first_text :: "string list \<Rightarrow> string" where
  "first_text xs = (case filter (\<lambda>x. x \<noteq> '''') xs of [] \<Rightarrow> '''' | x # _ \<Rightarrow> x)"

definition record_artifact ::
  "time \<Rightarrow> claimed_job \<Rightarrow> artifact_descriptor \<Rightarrow> string option \<Rightarrow> queue_db \<Rightarrow>
   queue_error + (bool \<times> queue_db)" where
  "record_artifact clk c d worker db =
     (case claimed_job_row db c of
        None \<Rightarrow> Inr (False, db)
      | Some j \<Rightarrow>
          if d_task_id d \<noteq> j_task_id j \<or> d_job_id d \<noteq> Some (j_id j)
          then Inl (ValueError ''artifact does not belong to claimed job'')
          else
            let owner = py_strip (first_text [text_or_empty worker, c_lease_owner c,
                                              text_or_empty (j_lease_owner j)]);
                existing = artifact_at db (d_relative_path d);
                was_ready = (case existing of None \<Rightarrow> False | Some a \<Rightarrow> a_status a = AReady);
                written =
                  (case existing of
                     None \<Rightarrow> insert_artifact (artifact_row clk d owner None) db
                   | Some a \<Rightarrow>
                       if a_task_id a \<noteq> d_task_id d \<or> a_job_id a \<noteq> d_job_id d
                       then Inl (ValueError ''artifact path belongs to a different image job'')
                       else rewrite_artifact a (descriptor_onto_row clk d owner a) db)
            in case written of
                 Inl e \<Rightarrow> Inl e
               | Inr db1 \<Rightarrow>
                   Inr (True,
                     if was_ready then db1
                     else log_event (j_task_id j) (Some (j_id j)) ''artifact_ready'' (attempts_sum j)
                            None None
                            [(''kind'', JStr (d_kind d)), (''artifact_path'', JStr (d_relative_path d)),
                             (''sha256'', JStr (d_sha256 d))] db1))"

definition recovery_artifact :: "string list \<Rightarrow> uuid \<Rightarrow> task_artifact \<Rightarrow> bool" where
  "recovery_artifact kinds job_id a \<longleftrightarrow>
     a_job_id a = Some job_id \<and> a_kind a \<in> set kinds \<and> a_status a = AReady"

definition invalid_artifact :: "task_artifact \<Rightarrow> task_artifact" where
  "invalid_artifact a = a\<lparr>a_status := AInvalid, a_ready_at := None\<rparr>"

definition invalidate_recovery_artifacts ::
  "claimed_job \<Rightarrow> string list \<Rightarrow> queue_db \<Rightarrow> nat \<times> queue_db" where
  "invalidate_recovery_artifacts c kinds db =
     (case claimed_job_row db c of
        None \<Rightarrow> (0, db)
      | Some j \<Rightarrow>
          let p = recovery_artifact kinds (j_id j);
              arts = filter p (db_artifacts db);
              db1 = upd_artifacts p invalid_artifact db
          in (length arts,
              if arts = [] then db1
              else log_event (j_task_id j) (Some (j_id j)) ''local_recovery_artifacts_invalidated''
                     (attempts_sum j) None None
                     [(''paths'', JList (map (JStr \<circ> a_relative_path) arts)),
                      (''kinds'', JList (map JStr (sort (remdups (map a_kind arts)))))] db1))"

definition record_claim_event :: "claimed_job \<Rightarrow> string \<Rightarrow> jobj \<Rightarrow> queue_db \<Rightarrow> bool \<times> queue_db" where
  "record_claim_event c kind data db =
     (case claimed_job_row db c of
        None \<Rightarrow> (False, db)
      | Some j \<Rightarrow>
          (True, log_event (j_task_id j) (Some (j_id j)) kind
             (max (j_generate_attempts j) (max (j_download_attempts j) (j_save_attempts j)))
             None None data db))"

definition append_image_attempts ::
  "time \<Rightarrow> claimed_job \<Rightarrow> image_attempt list \<Rightarrow> queue_db \<Rightarrow> bool \<times> queue_db" where
  "append_image_attempts clk c incoming db =
     (if incoming = [] then (False, db)
      else case claimed_job_row db c of
             None \<Rightarrow> (False, db)
           | Some j \<Rightarrow>
               let slot = (if j_ordinal j = 0 then 1 else j_ordinal j);
                   merged = merge_image_attempt_records (rp_attempts (j_result_payload j)) incoming slot;
                   data = (if merged = [] then
                             (j_generate_attempts j, [(''slot'', JInt (int slot)), (''attempt'', JInt 0)])
                           else let a = last merged in
                             (if att_attempt a = 0 then j_generate_attempts j else att_attempt a,
                              [(''slot'', JInt (int (if att_slot a = 0 then slot else att_slot a))),
                               (''attempt'', JInt (int (att_attempt a))),
                               (''status'', JStr (att_status a)),
                               (''account_email'', JStr (att_account_email a)),
                               (''failure_code'', JStr (att_failure_code a)),
                               (''switched_account'', JBool (att_switched_account a))]))
               in (True,
                   log_event (j_task_id j) (Some (j_id j)) ''image_account_attempt'' (fst data) None None
                     (snd data)
                     (upd_job (j_id j)
                        (\<lambda>j. j\<lparr>j_result_payload := (j_result_payload j)\<lparr>rp_attempts := merged\<rparr>,
                               j_updated_at := clk\<rparr>) db)))"

section \<open>Ending a claim\<close>

definition write_final_artifact ::
  "time \<Rightarrow> artifact_descriptor \<Rightarrow> string \<Rightarrow> queue_db \<Rightarrow> queue_error + queue_db" where
  "write_final_artifact clk d owner db =
     (case artifact_at db (d_relative_path d) of
        None \<Rightarrow> insert_artifact (artifact_row clk d owner None) db
      | Some a \<Rightarrow>
          if a_task_id a \<noteq> d_task_id d \<or> a_job_id a \<noteq> d_job_id d
          then Inl (ValueError ''artifact path belongs to a different image job'')
          else if a_kind a \<noteq> d_kind d \<or> a_sha256 a \<noteq> d_sha256 d
          then Inl (ValueError ''artifact path conflicts with a different image artifact'')
          else rewrite_artifact a (descriptor_onto_row clk d owner a) db)"

definition complete_job ::
  "time \<Rightarrow> claimed_job \<Rightarrow> artifact_descriptor \<Rightarrow> result_payload \<Rightarrow> queue_db \<Rightarrow>
   queue_error + (task_snapshot option \<times> queue_db)" where
  "complete_job clk c d payload db =
     (case claimed_job_row db c of
        None \<Rightarrow> Inr (None, db)
      | Some j \<Rightarrow>
          let tid = j_task_id j;
              task = task_row db tid
          in if (case task of None \<Rightarrow> False
                 | Some t \<Rightarrow> t_cancel_requested t \<and> t_status t = TCanceled \<and> \<not> j_quota_consumed j)
             then let db1 = release_account_lease c db;
                      db2 = upd_job (j_id j) (canceled_row clk) db1;
                      db3 = log_event tid (Some (j_id j)) ''job_canceled'' 0
                              (Some (job_status_value (j_status j))) (Some (job_status_value JCanceled))
                              [] db2;
                      db4 = aggregate_task clk tid db3
                  in Inr (snapshot_by_id db4 tid, db4)
             else if d_task_id d \<noteq> tid \<or> d_job_id d \<noteq> Some (j_id j)
             then Inl (ValueError ''artifact does not belong to claimed job'')
             else case write_final_artifact clk d
                         (py_strip (first_text [c_lease_owner c, text_or_empty (j_lease_owner j)])) db of
                    Inl e \<Rightarrow> Inl e
                  | Inr db0 \<Rightarrow>
                      let db1 = release_account_lease c db0;
                          db2 = upd_job (j_id j) (complete_row clk d payload) db1;
                          db3 = log_event tid (Some (j_id j)) ''job_succeeded'' (attempts_sum j)
                                  (Some (job_status_value (j_status j)))
                                  (Some (job_status_value JSuccess))
                                  [(''artifact_path'', JStr (d_relative_path d)),
                                   (''sha256'', JStr (d_sha256 d))] db2
                      in if task = None then Inr (None, db3)
                         else let db4 = aggregate_task clk tid db3
                              in Inr (snapshot_by_id db4 tid, db4))"

definition schedule_retry ::
  "time \<Rightarrow> claimed_job \<Rightarrow> string \<Rightarrow> msg \<Rightarrow> time \<Rightarrow> queue_db \<Rightarrow> task_snapshot option \<times> queue_db" where
  "schedule_retry clk c code message next_retry db =
     (case claimed_job_row db c of
        None \<Rightarrow> (None, db)
      | Some j \<Rightarrow>
          let tid = j_task_id j;
              db1 = release_account_lease c db;
              db2 = upd_job (j_id j) (retry_row clk code message next_retry) db1;
              db3 = log_event tid (Some (j_id j)) ''job_retry_scheduled'' (attempts_sum j)
                      (Some (job_status_value (j_status j))) (Some (job_status_value JRetryWait))
                      [(''error_code'', JStr code), (''next_retry_at'', JTime next_retry)] db2;
              db4 = aggregate_task clk tid db3
          in (snapshot_by_id db4 tid, db4))"

definition fail_job ::
  "time \<Rightarrow> claimed_job \<Rightarrow> string \<Rightarrow> msg \<Rightarrow> queue_db \<Rightarrow> task_snapshot option \<times> queue_db" where
  "fail_job clk c code message db =
     (case claimed_job_row db c of
        None \<Rightarrow> (None, db)
      | Some j \<Rightarrow>
          let tid = j_task_id j;
              db1 = release_account_lease c db;
              db2 = upd_job (j_id j) (fail_row clk code message) db1;
              db3 = log_event tid (Some (j_id j)) ''job_failed'' 0
                      (Some (job_status_value (j_status j))) (Some (job_status_value JFailed))
                      [(''error_code'', JStr code), (''error_message'', JMsg message)] db2;
              db4 = aggregate_task clk tid db3
          in (snapshot_by_id db4 tid, db4))"

definition fail_timed_out_claim ::
  "time \<Rightarrow> time \<Rightarrow> claimed_job \<Rightarrow> string \<Rightarrow> msg \<Rightarrow> bool \<Rightarrow> queue_db \<Rightarrow>
   task_snapshot option \<times> queue_db" where
  "fail_timed_out_claim clk now c code message quota db =
     (case find (\<lambda>j. holds_claim c j \<and> active_job (j_status j)) (db_jobs db) of
        None \<Rightarrow> (None, db)
      | Some j \<Rightarrow>
          let tid = j_task_id j;
              db1 = release_account_lease c db;
              db2 = upd_job (j_id j) (timed_out_row now code message quota) db1;
              db3 = log_event tid (Some (j_id j)) ''job_claim_timed_out'' (attempts_sum j)
                      (Some (job_status_value (j_status j))) (Some (job_status_value JFailed))
                      [(''error_code'', JStr code), (''error_message'', JMsg message)] db2;
              db4 = aggregate_task clk tid db3
          in (snapshot_by_id db4 tid, db4))"

definition release_claim :: "time \<Rightarrow> claimed_job \<Rightarrow> bool \<Rightarrow> queue_db \<Rightarrow> bool \<times> queue_db" where
  "release_claim clk c refund db =
     (case claimed_job_row db c of
        None \<Rightarrow> (False, db)
      | Some j \<Rightarrow>
          let tid = j_task_id j;
              cancel = (case task_row db tid of None \<Rightarrow> False | Some t \<Rightarrow> t_cancel_requested t);
              db1 = release_account_lease c db;
              db2 = upd_job (j_id j) (release_row clk cancel refund) db1;
              db3 = (if cancel
                     then log_event tid (Some (j_id j)) ''job_canceled'' 0
                            (Some (job_status_value (j_status j))) (Some (job_status_value JCanceled))
                            [] db2
                     else db2)
          in (True, aggregate_task clk tid db3))"

end
