(* ===== verification/Queue_Example.thy ===== *)
theory Queue_Example
  imports Queue_Invariant
begin

text \<open>
  A small concrete store, shared by the witnesses: the task 1 of the owner \<open>o\<close> with two jobs,
  10 generating under a lease of worker \<open>w\<close> on account 7, and 11 queued.
\<close>

definition demo_task :: image_task where
  "demo_task =
     \<lparr>t_id = 1, t_owner_key = ''o'', t_client_task_id = None, t_idempotency_key = Some ''k'',
      t_request_hash = ''h'', t_task_type = ''generation'', t_public_model = ''m'',
      t_request_payload = [], t_required_jobs = 2, t_succeeded_jobs = 0, t_failed_jobs = 0,
      t_status = TRunning, t_wait_reason = None, t_error_code = None, t_error_message = None,
      t_delivery_status = DPending, t_response_attempted_at = None, t_delivery_acked_at = None,
      t_cancel_requested = False, t_created_at = 0, t_queued_at = 0, t_started_at = Some 5,
      t_completed_at = None, t_updated_at = 5, t_version = 2\<rparr>"

definition demo_queued :: image_job where
  "demo_queued =
     \<lparr>j_id = 11, j_task_id = 1, j_ordinal = 2, j_status = JQueued, j_stage = SQueued,
      j_generate_attempts = 0, j_download_attempts = 0, j_save_attempts = 0, j_available_at = 0,
      j_next_retry_at = None, j_lease_owner = None, j_lease_token = None, j_lease_version = 0,
      j_lease_expires_at = None, j_heartbeat_at = None, j_account_id = None,
      j_conversation_id = None, j_image_urls = [], j_file_ids = [], j_sediment_ids = [],
      j_quota_consumed = False, j_quota_accounted = False, j_quota_accounting_attempts = 0,
      j_quota_accounting_error = None, j_result_payload = empty_payload, j_stage_timings = [],
      j_error_code = None, j_error_message = None, j_created_at = 0, j_updated_at = 0,
      j_started_at = None, j_completed_at = None\<rparr>"

definition demo_running :: image_job where
  "demo_running = demo_queued\<lparr>j_id := 10, j_ordinal := 1, j_status := JRunning, j_stage := SGenerating,
     j_generate_attempts := 1, j_lease_owner := Some ''w'', j_lease_token := Some 100,
     j_lease_version := 1, j_lease_expires_at := Some 60000000, j_heartbeat_at := Some 5,
     j_account_id := Some 7, j_started_at := Some 5\<rparr>"

definition demo_lease :: account_lease where
  "demo_lease = \<lparr>l_account_id = 7, l_slot_no = 0, l_job_id = 10, l_lease_owner = ''w'',
     l_lease_token = 100, l_lease_version = 1, l_expires_at = 60000000, l_heartbeat_at = 5\<rparr>"

definition demo_db :: queue_db where
  "demo_db = empty_db\<lparr>db_tasks := [demo_task], db_jobs := [demo_running, demo_queued],
     db_leases := [demo_lease]\<rparr>"

definition demo_claim :: claimed_job where
  "demo_claim = \<lparr>c_job = demo_running, c_lease_token = 100, c_lease_version = 1,
     c_lease_owner = ''w'', c_lease_expires_at = 60000000, c_account_id = Some 7,
     c_account_slot = 0\<rparr>"

definition demo_descriptor :: artifact_descriptor where
  "demo_descriptor = \<lparr>d_task_id = 1, d_job_id = Some 10, d_kind = ''final'', d_status = AReady,
     d_relative_path = ''p'', d_sha256 = ''s'', d_mime_type = ''image/png'', d_byte_size = 9,
     d_width = 2, d_height = 3, d_public_url = ''u'', d_storage_backend = ''local'',
     d_absolute_path = None, d_source_url = '''', d_ordinal = Some 1, d_worker_id = ''w''\<rparr>"

lemma demo_ok: "store_ok demo_db"
  by code_simp

lemma demo_claim_row: "claimed_job_row demo_db demo_claim = Some demo_running"
  by code_simp

end
