(* ===== verification/Queue_Work_Correct.thy ===== *)
theory Queue_Work_Correct
  imports Queue_Work Queue_Example
begin

text \<open>
  The worker's operations keep the store invariant, are fenced by the lease, and end a claim
  at most once. The interface \<open>fenced_operations\<close> states what the rest of the queue relies
  on; it is interpreted on the operations of \<open>Queue_Work\<close>.
\<close>

section \<open>The operations as one interface\<close>

datatype worker_op =
  WCheckpoint job_checkpoint
| WMarkQuota
| WRecordArtifact artifact_descriptor "string option"
| WInvalidateArtifacts "string list"
| WClaimEvent string jobj
| WAppendAttempts "image_attempt list"
| WComplete artifact_descriptor result_payload
| WRetry string msg time
| WFail string msg
| WTimeout time string msg bool
| WRelease bool

text \<open>An operation that raises leaves the database as it was: the session rolls back.\<close>

definition rolled_back :: "queue_db \<Rightarrow> queue_error + ('r \<times> queue_db) \<Rightarrow> queue_db" where
  "rolled_back db r = (case r of Inl _ \<Rightarrow> db | Inr (_, db') \<Rightarrow> db')"

fun run_worker_op :: "time \<Rightarrow> worker_op \<Rightarrow> claimed_job \<Rightarrow> queue_db \<Rightarrow> queue_db" where
  "run_worker_op clk (WCheckpoint cp) c db = snd (checkpoint_job clk c cp db)"
| "run_worker_op clk WMarkQuota c db = snd (mark_quota_consumed clk c db)"
| "run_worker_op clk (WRecordArtifact d w) c db = rolled_back db (record_artifact clk c d w db)"
| "run_worker_op clk (WInvalidateArtifacts ks) c db = snd (invalidate_recovery_artifacts c ks db)"
| "run_worker_op clk (WClaimEvent k data) c db = snd (record_claim_event c k data db)"
| "run_worker_op clk (WAppendAttempts as) c db = snd (append_image_attempts clk c as db)"
| "run_worker_op clk (WComplete d p) c db = rolled_back db (complete_job clk c d p db)"
| "run_worker_op clk (WRetry code m t) c db = snd (schedule_retry clk c code m t db)"
| "run_worker_op clk (WFail code m) c db = snd (fail_job clk c code m db)"
| "run_worker_op clk (WTimeout now code m q) c db = snd (fail_timed_out_claim clk now c code m q db)"
| "run_worker_op clk (WRelease refund) c db = snd (release_claim clk c refund db)"

text \<open>The operations that give the claim up; completion does so unless it raises.\<close>

fun ends_claim :: "time \<Rightarrow> worker_op \<Rightarrow> claimed_job \<Rightarrow> queue_db \<Rightarrow> bool" where
  "ends_claim clk (WComplete d p) c db = (case complete_job clk c d p db of Inl _ \<Rightarrow> False | Inr _ \<Rightarrow> True)"
| "ends_claim clk (WRetry _ _ _) c db = True"
| "ends_claim clk (WFail _ _) c db = True"
| "ends_claim clk (WTimeout _ _ _ _) c db = True"
| "ends_claim clk (WRelease _) c db = True"
| "ends_claim clk _ c db = False"

locale fenced_operations =
  fixes run :: "time \<Rightarrow> worker_op \<Rightarrow> claimed_job \<Rightarrow> queue_db \<Rightarrow> queue_db"
    and ends_with :: "time \<Rightarrow> worker_op \<Rightarrow> claimed_job \<Rightarrow> queue_db \<Rightarrow> bool"
  assumes fenced: "claimed_job_row db c = None \<Longrightarrow> run clk w c db = db"
    and keeps: "store_ok db \<Longrightarrow> store_ok (run clk w c db)"
    and ends: "store_ok db \<Longrightarrow> ends_with clk w c db \<Longrightarrow>
      claimed_job_row (run clk w c db) c = None"
begin

definition run_all :: "(time \<times> worker_op) list \<Rightarrow> claimed_job \<Rightarrow> queue_db \<Rightarrow> queue_db" where
  "run_all ops c db = fold (\<lambda>(clk, w). run clk w c) ops db"

lemma run_all_stale: "claimed_job_row db c = None \<Longrightarrow> run_all ops c db = db"
  by (induction ops) (auto simp: run_all_def fenced)

lemma run_all_keeps: "store_ok db \<Longrightarrow> store_ok (run_all ops c db)"
  by (induction ops arbitrary: db) (auto simp: run_all_def keeps)

lemma settled_once:
  "store_ok db \<Longrightarrow> ends_with clk w c db \<Longrightarrow> run_all ops c (run clk w c db) = run clk w c db"
  by (rule run_all_stale) (rule ends)

end

section \<open>Row functions keep the row invariant\<close>

lemma clear_job_lease_simps [simp]:
  "j_id (clear_job_lease j) = j_id j" "j_task_id (clear_job_lease j) = j_task_id j"
  "j_status (clear_job_lease j) = j_status j" "j_stage (clear_job_lease j) = j_stage j"
  "j_lease_token (clear_job_lease j) = None" "j_lease_owner (clear_job_lease j) = None"
  "j_lease_expires_at (clear_job_lease j) = None" "j_heartbeat_at (clear_job_lease j) = None"
  "j_image_urls (clear_job_lease j) = j_image_urls j"
  "j_quota_consumed (clear_job_lease j) = j_quota_consumed j"
  "j_quota_accounted (clear_job_lease j) = j_quota_accounted j"
  "j_lease_version (clear_job_lease j) = j_lease_version j"
  "j_account_id (clear_job_lease j) = j_account_id j"
  by (simp_all add: clear_job_lease_def)

lemma checkpoint_row_same:
  "j_id (checkpoint_row clk cp j) = j_id j" "j_task_id (checkpoint_row clk cp j) = j_task_id j"
  "j_status (checkpoint_row clk cp j) = JRunning"
  "j_stage (checkpoint_row clk cp j) = cp_stage cp"
  "j_lease_token (checkpoint_row clk cp j) = j_lease_token j"
  "j_lease_owner (checkpoint_row clk cp j) = j_lease_owner j"
  "j_lease_expires_at (checkpoint_row clk cp j) = j_lease_expires_at j"
  "j_heartbeat_at (checkpoint_row clk cp j) = j_heartbeat_at j"
  "j_lease_version (checkpoint_row clk cp j) = j_lease_version j"
  "j_account_id (checkpoint_row clk cp j) = j_account_id j"
  "j_quota_accounted (checkpoint_row clk cp j) = j_quota_accounted j"
  "j_quota_consumed (checkpoint_row clk cp j) = (j_quota_consumed j \<or> cp_image_urls cp \<noteq> [])"
  "j_image_urls (checkpoint_row clk cp j) =
     (if cp_image_urls cp \<noteq> [] then cp_image_urls cp else j_image_urls j)"
  by (simp_all add: checkpoint_row_def checkpoint_attempts_def touch_stage_timing_def Let_def)

lemma checkpoint_row_ok: "job_ok j \<Longrightarrow> active_job (j_status j) \<Longrightarrow> job_ok (checkpoint_row clk cp j)"
  by (auto simp: job_ok_def checkpoint_row_same)

lemma ending_rows_ids [simp]:
  "j_id (complete_row clk d p j) = j_id j" "j_task_id (complete_row clk d p j) = j_task_id j"
  "j_id (canceled_row clk j) = j_id j" "j_task_id (canceled_row clk j) = j_task_id j"
  "j_id (retry_row clk code m t j) = j_id j" "j_task_id (retry_row clk code m t j) = j_task_id j"
  "j_id (fail_row clk code m j) = j_id j" "j_task_id (fail_row clk code m j) = j_task_id j"
  "j_id (timed_out_row clk code m q j) = j_id j" "j_task_id (timed_out_row clk code m q j) = j_task_id j"
  "j_id (release_row clk cancel refund j) = j_id j"
  "j_task_id (release_row clk cancel refund j) = j_task_id j"
  by (simp_all add: complete_row_def canceled_row_def retry_row_def fail_row_def timed_out_row_def
      release_row_def touch_stage_timing_def refund_occupancy_claim_attempt_def Let_def)

lemma ending_rows_tokens [simp]:
  "j_lease_token (complete_row clk d p j) = None" "j_lease_token (canceled_row clk j) = None"
  "j_lease_token (retry_row clk code m t j) = None" "j_lease_token (fail_row clk code m j) = None"
  "j_lease_token (timed_out_row clk code m q j) = None"
  "j_lease_token (release_row clk cancel refund j) = None"
  by (simp_all add: complete_row_def canceled_row_def retry_row_def fail_row_def timed_out_row_def
      release_row_def Let_def)

lemma ending_rows_ok:
  assumes "job_ok j"
  shows "job_ok (complete_row clk d p j)" "job_ok (canceled_row clk j)"
    "job_ok (retry_row clk code m t j)" "job_ok (fail_row clk code m j)"
    "job_ok (timed_out_row clk code m q j)" "job_ok (release_row clk cancel refund j)"
  using assms
  by (auto simp: job_ok_def complete_row_def canceled_row_def retry_row_def fail_row_def
      timed_out_row_def release_row_def touch_stage_timing_def refund_occupancy_claim_attempt_def
      Let_def)

section \<open>Preservation\<close>

text \<open>
  The common shape of the operations that end a claim: the account lease is released, the row
  loses its lease, an event is logged and the task aggregated.
\<close>

lemma end_claim_ok:
  assumes "store_ok db" and "claimed_job_row db c = Some j"
    and "j_id (f j) = j_id j" "j_task_id (f j) = j_task_id j" "job_ok (f j)"
  shows "store_ok_except {j_task_id j} (upd_job (j_id j) f (release_account_lease c db))"
proof (rule ok_upd_job_inactive)
  show "store_ok_except {j_task_id j} (release_account_lease c db)"
    by (intro ok_release store_ok_exceptI assms(1))
  show "j \<in> set (db_jobs (release_account_lease c db))"
    using claimed_job_rowD [OF assms(2)] by simp
  show "l_job_id l \<noteq> j_id j" if "l \<in> set (db_leases (release_account_lease c db))" for l
    using release_leaves_no_lease [OF store_ok_exceptI [OF assms(1)] assms(2) that] .
qed (use assms in auto)

lemma settle_ok:
  "store_ok_except {tid} db \<Longrightarrow> store_ok (aggregate_task clk tid db)"
  unfolding store_ok_def by (rule ok_aggregate)

lemma claimed_row_ok: "store_ok db \<Longrightarrow> claimed_job_row db c = Some j \<Longrightarrow> job_ok j"
  by (auto simp: store_ok_def dest: claimed_job_rowD intro: store_job_ok)

lemma checkpoint_job_ok:
  assumes ok: "store_ok db"
  shows "store_ok (snd (checkpoint_job clk c cp db))"
proof (cases "claimed_job_row db c")
  case None
  then show ?thesis using ok by (simp add: checkpoint_job_def)
next
  case (Some j)
  let ?db1 = "if cp_stage cp \<in> {STransforming, SSaving} then release_account_lease c db else db"
  have ok1: "store_ok_except {j_task_id j} ?db1"
    using ok by (auto intro: ok_release store_ok_exceptI)
  have act: "active_job (j_status j)"
    using claimed_job_active [OF store_ok_exceptI [OF ok] Some] .
  have j: "j \<in> set (db_jobs ?db1)" using claimed_job_rowD [OF Some] by simp
  have "store_ok_except {j_task_id j} (upd_job (j_id j) (checkpoint_row clk cp) ?db1)"
  proof (rule ok_upd_job [OF ok1])
    fix k assume "k \<in> set (db_jobs ?db1)" "j_id k = j_id j"
    with ok1 j have k: "k = j" by (auto intro: job_unique)
    have "lease_matches (checkpoint_row clk cp j) l"
      if "l \<in> set (db_leases ?db1)" "l_job_id l = j_id j" for l
      using lease_of_job [OF ok1 that(1) j that(2)]
      by (simp add: lease_matches_def checkpoint_row_same)
    with k claimed_row_ok [OF ok Some] act
    show "j_id (checkpoint_row clk cp k) = j_id j \<and>
        j_task_id (checkpoint_row clk cp k) = j_task_id k \<and> job_ok (checkpoint_row clk cp k) \<and>
        (j_status (checkpoint_row clk cp k) = j_status k \<or> j_task_id k \<in> {j_task_id j}) \<and>
        (\<forall>l \<in> set (db_leases ?db1). l_job_id l = j_id j \<longrightarrow> lease_matches (checkpoint_row clk cp k) l)"
      by (auto simp: checkpoint_row_same intro: checkpoint_row_ok)
  qed
  with Some show ?thesis
    by (auto simp: checkpoint_job_def Let_def intro!: settle_ok)
qed

lemma mark_quota_consumed_ok:
  "store_ok db \<Longrightarrow> store_ok (snd (mark_quota_consumed clk c db))"
  unfolding store_ok_def
  by (auto simp: mark_quota_consumed_def job_same_lease_def job_ok_def
      split: option.splits intro!: ok_upd_job_same dest: store_job_ok)

lemma mark_quota_accounted_ok:
  assumes "store_ok db"
  shows "store_ok (snd (mark_quota_accounted clk i a db))"
proof -
  have "store_ok_except {} (upd_job i (\<lambda>j. j\<lparr>j_quota_accounted := True,
          j_quota_accounting_error := None, j_updated_at := clk\<rparr>) db)"
    if row: "job_row db i = Some j" and q: "j_quota_consumed j" for j
  proof (rule ok_upd_job_same)
    show ok: "store_ok_except {} db" using assms by (simp add: store_ok_def)
    fix k assume k: "k \<in> set (db_jobs db)" "j_id k = i"
    with ok job_rowD [OF row] have "k = j" by (auto intro: job_unique)
    with q store_job_ok [OF ok k(1)]
    show "job_same_lease k (k\<lparr>j_quota_accounted := True, j_quota_accounting_error := None,
              j_updated_at := clk\<rparr>) \<and>
          job_ok (k\<lparr>j_quota_accounted := True, j_quota_accounting_error := None, j_updated_at := clk\<rparr>)"
      by (simp add: job_same_lease_def job_ok_def)
  qed
  with assms show ?thesis
    by (auto simp: mark_quota_accounted_def store_ok_def split: option.splits)
qed

lemma record_quota_accounting_failure_ok:
  "store_ok db \<Longrightarrow> store_ok (snd (record_quota_accounting_failure clk i e db))"
  unfolding store_ok_def record_quota_accounting_failure_def Let_def
  by (auto simp: job_same_lease_def job_ok_def split: option.splits
      intro!: ok_upd_job_same dest: store_job_ok)

lemma append_image_attempts_ok:
  "store_ok db \<Longrightarrow> store_ok (snd (append_image_attempts clk c as db))"
  unfolding store_ok_def append_image_attempts_def Let_def
  by (auto simp: job_same_lease_def job_ok_def split: option.splits
      intro!: ok_upd_job_same dest: store_job_ok)

lemma ok_lease_times:
  assumes "\<And>l. p l \<Longrightarrow> lease_key (f l) = lease_key l \<and> l_job_id (f l) = l_job_id l \<and>
              l_lease_token (f l) = l_lease_token l \<and> l_lease_version (f l) = l_lease_version l"
    and "store_ok_except S db"
  shows "store_ok_except S (db\<lparr>db_leases := upd_rows p f (db_leases db)\<rparr>)"
proof -
  have maps: "map lease_key (upd_rows p f (db_leases db)) = map lease_key (db_leases db)"
    "map l_job_id (upd_rows p f (db_leases db)) = map l_job_id (db_leases db)"
    by (rule map_upd_rows; use assms(1) in blast)+
  have "lease_ok (db\<lparr>db_leases := x\<rparr>) l = lease_ok db l" for x l
    by (simp add: lease_ok_def)
  moreover have "p l \<Longrightarrow> lease_ok db (f l) = lease_ok db l" for l
    using assms(1) [of l] by (simp add: lease_ok_def lease_matches_def lease_key_def)
  ultimately show ?thesis
    using assms(2) maps
    by (auto simp: store_ok_except_def keys_ok_def fk_ok_def task_shape_ok_def statuses_of_def
        set_upd_rows)
qed

lemma heartbeat_claim_ok:
  "store_ok (snd st) \<Longrightarrow> store_ok (snd (heartbeat_claim cfg clk now worker c st))"
  unfolding store_ok_def heartbeat_claim_def Let_def
  by (auto split: prod.splits simp del: store_projections intro!: ok_lease_times ok_upd_job_same
      simp: lease_key_def job_same_lease_def job_ok_def dest: store_job_ok)

lemma heartbeat_claims_ok:
  "store_ok db \<Longrightarrow> store_ok (snd (heartbeat_claims cfg clk now worker cs db))"
  unfolding heartbeat_claims_def
  by (rule fold_invariant [where P = "\<lambda>st. store_ok (snd st)" and Q = "\<lambda>_. True"])
     (auto intro: heartbeat_claim_ok)

lemma store_ok_artifact_write:
  "insert_artifact a db = Inr db' \<Longrightarrow> store_ok db' = store_ok db"
  "rewrite_artifact a a' db = Inr db' \<Longrightarrow> store_ok db' = store_ok db"
  by (auto simp: insert_artifact_def rewrite_artifact_def store_ok_def split: if_splits)

lemma claimed_artifact_write:
  "insert_artifact a db = Inr db' \<Longrightarrow> claimed_job_row db' c = claimed_job_row db c"
  "rewrite_artifact a a' db = Inr db' \<Longrightarrow> claimed_job_row db' c = claimed_job_row db c"
  by (auto simp: insert_artifact_def rewrite_artifact_def claimed_job_row_def split: if_splits)

lemma record_artifact_ok: "store_ok db \<Longrightarrow> store_ok (rolled_back db (record_artifact clk c d w db))"
  by (auto simp: record_artifact_def rolled_back_def Let_def store_ok_def
      split: option.splits sum.splits if_splits
      dest: store_ok_artifact_write [unfolded store_ok_def])

lemma invalidate_recovery_artifacts_ok:
  "store_ok db \<Longrightarrow> store_ok (snd (invalidate_recovery_artifacts c ks db))"
  by (auto simp: invalidate_recovery_artifacts_def Let_def store_ok_def split: option.splits)

lemma record_claim_event_ok: "store_ok db \<Longrightarrow> store_ok (snd (record_claim_event c k data db))"
  by (auto simp: record_claim_event_def store_ok_def split: option.splits)

lemma write_final_artifact_ok:
  "write_final_artifact clk d w db = Inr db' \<Longrightarrow> store_ok db' = store_ok db"
  "write_final_artifact clk d w db = Inr db' \<Longrightarrow> claimed_job_row db' c = claimed_job_row db c"
  by (auto simp: write_final_artifact_def split: option.splits if_splits
      dest: store_ok_artifact_write claimed_artifact_write)

lemma complete_job_ok: "store_ok db \<Longrightarrow> store_ok (rolled_back db (complete_job clk c d p db))"
proof -
  assume ok: "store_ok db"
  have fin: "store_ok (aggregate_task clk (j_task_id j)
      (log_event t i k a fs ts data (upd_job (j_id j) f (release_account_lease c db'))))"
    if "store_ok db'" "claimed_job_row db' c = Some j"
      "f = complete_row clk d p \<or> f = canceled_row clk" for db' j f t i k a fs ts data
    using that ending_rows_ok [OF claimed_row_ok [OF that(1,2)]]
    by (auto intro!: settle_ok end_claim_ok)
  have none: "store_ok (log_event t i k a fs ts data
      (upd_job (j_id j) (complete_row clk d p) (release_account_lease c db')))"
    if "store_ok db'" "claimed_job_row db' c = Some j" "task_row db (j_task_id j) = None"
      "db_tasks db' = db_tasks db" for db' j t i k a fs ts data
  proof -
    have "j \<in> set (db_jobs db')" using that(2) by (auto dest: claimed_job_rowD)
    with that(1) have "j_task_id j \<in> t_id ` set (db_tasks db')"
      by (auto simp: store_ok_def store_ok_except_def fk_ok_def)
    with that(3,4) show ?thesis
      by (auto simp: task_row_def dest: find_NoneD)
  qed
  show ?thesis
  proof (cases "claimed_job_row db c")
    case None
    then show ?thesis using ok by (simp add: complete_job_def rolled_back_def)
  next
    case (Some j)
    have tasks: "write_final_artifact clk d w db = Inr db' \<Longrightarrow> db_tasks db' = db_tasks db" for w db'
      by (auto simp: write_final_artifact_def split: option.splits if_splits
          dest: insert_artifact_projections rewrite_artifact_projections)
    have row: "write_final_artifact clk d w db = Inr db' \<Longrightarrow> claimed_job_row db' c = Some j" for w db'
      using write_final_artifact_ok(2) Some by simp
    have st: "write_final_artifact clk d w db = Inr db' \<Longrightarrow> store_ok db'" for w db'
      using write_final_artifact_ok(1) ok by simp
    show ?thesis
      using ok Some fin [OF ok Some] fin [OF st row] none [OF st row _ tasks]
      by (auto simp: complete_job_def rolled_back_def Let_def
          split: option.splits sum.splits if_splits)
  qed
qed

lemma schedule_retry_ok: "store_ok db \<Longrightarrow> store_ok (snd (schedule_retry clk c code m t db))"
  using ending_rows_ok claimed_row_ok
  by (auto simp: schedule_retry_def Let_def split: option.splits intro!: settle_ok end_claim_ok)

lemma fail_job_ok: "store_ok db \<Longrightarrow> store_ok (snd (fail_job clk c code m db))"
  using ending_rows_ok claimed_row_ok
  by (auto simp: fail_job_def Let_def split: option.splits intro!: settle_ok end_claim_ok)

lemma release_claim_ok: "store_ok db \<Longrightarrow> store_ok (snd (release_claim clk c refund db))"
  using ending_rows_ok claimed_row_ok
  by (auto simp: release_claim_def Let_def split: option.splits intro!: settle_ok end_claim_ok)

text \<open>Under the invariant the timeout's extra status test is implied by the lease check.\<close>

lemma timed_out_row_found:
  assumes "store_ok db"
  shows "find (\<lambda>j. holds_claim c j \<and> active_job (j_status j)) (db_jobs db) = claimed_job_row db c"
  unfolding claimed_job_row_def
  by (rule find_cong)
     (use assms in \<open>auto simp: holds_claim_def store_ok_def store_ok_except_def job_ok_def\<close>)

lemma fail_timed_out_claim_ok:
  "store_ok db \<Longrightarrow> store_ok (snd (fail_timed_out_claim clk now c code m q db))"
  using ending_rows_ok claimed_row_ok
  by (auto simp: fail_timed_out_claim_def timed_out_row_found Let_def split: option.splits
      intro!: settle_ok end_claim_ok)

section \<open>Fencing\<close>

lemma run_worker_op_fenced: "claimed_job_row db c = None \<Longrightarrow> run_worker_op clk w c db = db"
proof (cases w)
  case (WTimeout now code m q)
  assume "claimed_job_row db c = None"
  then have "find (\<lambda>j. holds_claim c j \<and> active_job (j_status j)) (db_jobs db) = None"
    by (auto simp: claimed_job_row_def find_None_iff)
  with WTimeout show ?thesis by (simp add: fail_timed_out_claim_def)
qed (auto simp: checkpoint_job_def mark_quota_consumed_def record_artifact_def rolled_back_def
      invalidate_recovery_artifacts_def record_claim_event_def append_image_attempts_def
      complete_job_def schedule_retry_def fail_job_def release_claim_def)

lemma run_worker_op_keeps: "store_ok db \<Longrightarrow> store_ok (run_worker_op clk w c db)"
  by (cases w) (auto intro: checkpoint_job_ok mark_quota_consumed_ok record_artifact_ok
      invalidate_recovery_artifacts_ok record_claim_event_ok append_image_attempts_ok
      complete_job_ok schedule_retry_ok fail_job_ok fail_timed_out_claim_ok release_claim_ok)

lemma claim_gone:
  assumes "store_ok db" and "claimed_job_row db c = Some j" and "j_lease_token (f j) = None"
    and "db_jobs db' = upd_rows (\<lambda>k. j_id k = j_id j) f (db_jobs db)"
    and "j_id (f j) = j_id j"
  shows "claimed_job_row db' c = None"
proof -
  have "\<not> holds_claim c k" if k: "k \<in> set (db_jobs db')" for k
  proof
    assume h: "holds_claim c k"
    from k assms(4) obtain k0 where k0: "k0 \<in> set (db_jobs db)" "k = (if j_id k0 = j_id j then f k0 else k0)"
      by (auto simp: upd_rows_def)
    have j: "j \<in> set (db_jobs db)" "j_id j = j_id (c_job c)"
      using claimed_job_rowD [OF assms(2)] by (auto simp: holds_claim_def)
    show False
    proof (cases "j_id k0 = j_id j")
      case True
      with assms(1) k0(1) j(1) have "k0 = j" unfolding store_ok_def by (auto intro: job_unique)
      with k0(2) h assms(3) show False by (simp add: holds_claim_def)
    next
      case False
      with k0(2) h j(2) show False by (simp add: holds_claim_def)
    qed
  qed
  then show ?thesis by (simp add: claimed_job_row_def find_None_iff)
qed

lemma complete_job_ends:
  assumes ok: "store_ok db" and r: "complete_job clk c d p db = Inr (snap, db')"
  shows "claimed_job_row db' c = None"
proof (cases "claimed_job_row db c")
  case None
  with r show ?thesis by (simp add: complete_job_def)
next
  case (Some j)
  have jobs: "write_final_artifact clk d w db = Inr db0 \<Longrightarrow> db_jobs db0 = db_jobs db" for w db0
    by (auto simp: write_final_artifact_def split: option.splits if_splits
        dest: insert_artifact_projections rewrite_artifact_projections)
  show ?thesis
    using r Some jobs
    by (auto simp: complete_job_def Let_def db_jobs_upd_job split: option.splits sum.splits if_splits
        intro!: claim_gone [OF ok Some])
qed

lemma run_worker_op_ends:
  assumes ok: "store_ok db" and e: "ends_claim clk w c db"
  shows "claimed_job_row (run_worker_op clk w c db) c = None"
proof (cases "claimed_job_row db c")
  case None
  then show ?thesis by (simp add: run_worker_op_fenced)
next
  case (Some j)
  show ?thesis
    using e Some ok complete_job_ends [OF ok]
    by (cases w) (auto simp: schedule_retry_def fail_job_def fail_timed_out_claim_def
        timed_out_row_found release_claim_def rolled_back_def Let_def db_jobs_upd_job
        split: sum.splits intro!: claim_gone [OF ok Some])
qed

interpretation worker: fenced_operations run_worker_op ends_claim
  by unfold_locales (auto intro: run_worker_op_fenced run_worker_op_keeps run_worker_op_ends)

end
