(* ===== verification/Queue_Work_Properties.thy ===== *)
theory Queue_Work_Properties
  imports Queue_Work_Correct
begin

text \<open>
  What the worker's protocol guarantees: fencing, at most one outcome per claim, the
  invariant, and what completion, retry and release write.
\<close>

section \<open>What the endings write\<close>

lemma final_artifact_written:
  assumes "write_final_artifact clk d w db = Inr db'"
  shows "\<exists>a \<in> set (db_artifacts db'). a_relative_path a = d_relative_path d \<and>
           a_status a = d_status d \<and> a_sha256 a = d_sha256 d \<and> a_job_id a = d_job_id d \<and>
           a_task_id a = d_task_id d"
proof (cases "artifact_at db (d_relative_path d)")
  case None
  with assms show ?thesis
    by (auto simp: write_final_artifact_def insert_artifact_def add_artifact_def artifact_row_def
        split: if_splits)
next
  case (Some a)
  then have a: "a \<in> set (db_artifacts db)" "a_relative_path a = d_relative_path d"
    by (auto simp: artifact_at_def dest: find_SomeD)
  with assms Some have ids: "a_task_id a = d_task_id d" "a_job_id a = d_job_id d"
    and db': "db' = upd_artifacts (\<lambda>b. a_relative_path b = a_relative_path a)
                      (\<lambda>_. descriptor_onto_row clk d w a) db"
    by (auto simp: write_final_artifact_def rewrite_artifact_def split: if_splits)
  have "descriptor_onto_row clk d w a \<in> set (db_artifacts db')"
    using a(1) unfolding db' by (auto simp: upd_artifacts_def upd_rows_def)
  with ids a(2) show ?thesis
    by (intro bexI [of _ "descriptor_onto_row clk d w a"]) (simp_all add: descriptor_onto_row_def)
qed

lemma write_final_artifact_projections:
  assumes "write_final_artifact clk d w db = Inr db'"
  shows "db_jobs db' = db_jobs db" "db_tasks db' = db_tasks db" "db_leases db' = db_leases db"
  using assms
  by (auto simp: write_final_artifact_def split: option.splits if_splits
      dest: insert_artifact_projections rewrite_artifact_projections)

text \<open>
  In a well-formed store the cancellation branch of the completion is never taken: a task
  with a claimed job is not yet CANCELED.
\<close>

lemma complete_job_branches:
  assumes ok: "store_ok db" and row: "claimed_job_row db c = Some j"
    and r: "complete_job clk c d p db = Inr (snap, db')"
  obtains t w db0 where "task_row db (j_task_id j) = Some t" "d_task_id d = j_task_id j"
    "d_job_id d = Some (j_id j)" "write_final_artifact clk d w db = Inr db0"
    "db' = aggregate_task clk (j_task_id j)
             (log_event (j_task_id j) (Some (j_id j)) ''job_succeeded'' (attempts_sum j)
               (Some (job_status_value (j_status j))) (Some (job_status_value JSuccess))
               [(''artifact_path'', JStr (d_relative_path d)), (''sha256'', JStr (d_sha256 d))]
               (upd_job (j_id j) (complete_row clk d p) (release_account_lease c db0)))"
    "snap = snapshot_by_id db' (j_task_id j)"
proof -
  have j: "j \<in> set (db_jobs db)" using row by (auto dest: claimed_job_rowD)
  obtain t where t: "task_row db (j_task_id j) = Some t"
    using task_of_job [OF store_ok_exceptI [OF ok] j] by metis
  have "\<not> terminal_job (j_status j)"
    using claimed_job_active [OF store_ok_exceptI [OF ok] row] by (cases "j_status j") auto
  then have "t_status t \<noteq> TCanceled"
    using open_job_open_task [OF ok j _ t] by auto
  with r row t that show ?thesis
    by (auto simp: complete_job_def Let_def split: if_splits sum.splits)
qed

section \<open>Properties\<close>



text \<open>
  Property C2. A claim is settled at most once: after the worker completed, retried, failed, timed out
  or released a job, every further operation under the same claim leaves the database
  untouched, so an outcome is never written twice nor overwritten by its own worker.
\<close>

theorem claim_settled_at_most_once:
  assumes "store_ok db" and "ends_claim clk w c db"
  shows "fold (\<lambda>(clk, w). run_worker_op clk w c) ops (run_worker_op clk w c db) = run_worker_op clk w c db"
  using worker.settled_once [OF assms] by (simp add: worker.run_all_def)

theorem claim_settled_at_most_once_witness:
  "let db1 = run_worker_op 20 (WComplete demo_descriptor empty_payload) demo_claim demo_db
   in map j_status (db_jobs db1) = [JSuccess, JQueued] \<and>
      fold (\<lambda>(clk, w). run_worker_op clk w demo_claim) [(30, WFail ''late'' (MText ''m'')), (31, WRelease True)] db1 = db1"
proof -
  have e: "ends_claim 20 (WComplete demo_descriptor empty_payload) demo_claim demo_db" by code_simp
  have s: "map j_status (db_jobs (run_worker_op 20 (WComplete demo_descriptor empty_payload) demo_claim demo_db))
             = [JSuccess, JQueued]" by code_simp
  show ?thesis
    unfolding Let_def using s claim_settled_at_most_once [OF demo_ok e] by blast
qed

text \<open>
  Every operation of a worker keeps the database well formed: keys and leases unique and
  matched to a job in progress, lease columns set exactly while a job is claimed, task
  counters and status in agreement with the jobs.
\<close>

theorem worker_ops_keep_store_ok:
  assumes "store_ok db"
  shows "store_ok (fold (\<lambda>(clk, w). run_worker_op clk w c) ops db)"
  using worker.run_all_keeps [OF assms] by (simp add: worker.run_all_def)

theorem worker_ops_keep_store_ok_witness:
  "store_ok (fold (\<lambda>(clk, w). run_worker_op clk w demo_claim)
     [(9, WMarkQuota), (12, WRetry ''upstream_error'' (MText ''x'') 99)] demo_db)"
  by (rule worker_ops_keep_store_ok [OF demo_ok])

text \<open>
  Completion: a completed job stands in the store as SUCCESS with its quota consumed, its
  result naming the artifact, no lease of any kind left, the artifact recorded; the task
  counts one success more, and is SUCCESS exactly when that was the last missing job.
\<close>

theorem complete_job_effect:
  assumes "store_ok db" and "claimed_job_row db c = Some j"
    and "complete_job clk c d p db = Inr (snap, db')"
  shows "\<exists>t t'. task_row db (j_task_id j) = Some t \<and> task_row db' (j_task_id j) = Some t' \<and>
    job_row db' (j_id j) = Some (complete_row clk d p j) \<and>
    (\<forall>l \<in> set (db_leases db'). l_job_id l \<noteq> j_id j) \<and>
    (\<exists>a \<in> set (db_artifacts db'). a_relative_path a = d_relative_path d \<and> a_status a = d_status d \<and>
       a_sha256 a = d_sha256 d \<and> a_job_id a = Some (j_id j) \<and> a_task_id a = j_task_id j) \<and>
    t_succeeded_jobs t' = t_succeeded_jobs t + 1 \<and>
    (t_status t' = TSuccess \<longleftrightarrow> \<not> t_cancel_requested t \<and> t_succeeded_jobs t' = t_required_jobs t) \<and>
    snap = Some (task_snapshot_of db' t')"
proof -
  from assms obtain t w db0 where t: "task_row db (j_task_id j) = Some t"
    and ids: "d_task_id d = j_task_id j" "d_job_id d = Some (j_id j)"
    and wr: "write_final_artifact clk d w db = Inr db0"
    and db': "db' = aggregate_task clk (j_task_id j)
             (log_event (j_task_id j) (Some (j_id j)) ''job_succeeded'' (attempts_sum j)
               (Some (job_status_value (j_status j))) (Some (job_status_value JSuccess))
               [(''artifact_path'', JStr (d_relative_path d)), (''sha256'', JStr (d_sha256 d))]
               (upd_job (j_id j) (complete_row clk d p) (release_account_lease c db0)))"
    and snap: "snap = snapshot_by_id db' (j_task_id j)"
    by (elim complete_job_branches)
  note pr = write_final_artifact_projections [OF wr]
  have ok0: "store_ok db0" using assms(1) write_final_artifact_ok(1) [OF wr] by simp
  have row0: "claimed_job_row db0 c = Some j" using assms(2) write_final_artifact_ok(2) [OF wr] by simp
  have j: "j \<in> set (db_jobs db0)" using row0 by (auto dest: claimed_job_rowD)
  let ?db2 = "upd_job (j_id j) (complete_row clk d p) (release_account_lease c db0)"
  let ?t' = "aggregate_row clk (jobs_of ?db2 (j_task_id j)) t"
  have okr: "store_ok_except {} (release_account_lease c db0)"
    using ok0 by (intro ok_release store_ok_exceptI)
  have jobs': "jobs_of (log_event u v k a fs ts x ?db2) tid = jobs_of ?db2 tid" for u v k a fs ts x tid
    by (simp add: jobs_of_def)
  have t0: "task_row db0 (j_task_id j) = Some t" using t pr(2) by (simp add: task_row_def)
  have t': "task_row db' (j_task_id j) = Some ?t'"
    using t0 by (simp add: db' task_row_aggregate jobs')
  have job': "job_row db' (j_id j) = Some (complete_row clk d p j)"
    using job_row_unique [OF store_ok_exceptI [OF ok0] j]
    by (simp add: db' job_row_upd_job)
  have art: "db_artifacts db' = db_artifacts db0" by (simp add: db')
  have lea: "l_job_id l \<noteq> j_id j" if "l \<in> set (db_leases db')" for l
    using release_leaves_no_lease [OF store_ok_exceptI [OF ok0] row0, of l] that by (simp add: db')
  have ina: "j_status j \<noteq> JSuccess"
    using claimed_job_active [OF store_ok_exceptI [OF ok0] row0] by auto
  have tin: "t \<in> set (db_tasks db0)" "t_id t = j_task_id j" using task_rowD [OF t0] by auto
  have old: "t_succeeded_jobs t = status_count (jobs_of db0 (j_task_id j)) JSuccess"
    using ok0 tin by (auto simp: store_ok_def store_ok_except_def task_ok_def status_count_jobs_of)
  have "status_count (jobs_of ?db2 (j_task_id j)) JSuccess =
        status_count (jobs_of (release_account_lease c db0) (j_task_id j)) JSuccess + 1"
    using status_count_upd_job [OF okr, of j "complete_row clk d p" JSuccess] j ina
    by (auto simp: complete_row_def Let_def touch_stage_timing_def)
  then have succ: "t_succeeded_jobs ?t' = t_succeeded_jobs t + 1"
    using old by (simp add: jobs_of_def)
  have ok': "store_ok db'"
    using complete_job_ok [OF assms(1), of clk c d p] assms(3) by (simp add: rolled_back_def)
  have fin: "t_status ?t' = TSuccess \<longleftrightarrow>
      \<not> t_cancel_requested t \<and> t_succeeded_jobs ?t' = t_required_jobs t"
    using task_success_iff [OF ok' t'] by simp
  show ?thesis
    using t t' job' lea final_artifact_written [OF wr] ids art succ fin snap
    by (auto simp: snapshot_by_id_def)
qed

theorem complete_job_effect_witness:
  "case complete_job 20 demo_claim demo_descriptor empty_payload demo_db of
     Inl _ \<Rightarrow> False
   | Inr (snap, db') \<Rightarrow> (\<exists>t'. task_row db' 1 = Some t' \<and> t_succeeded_jobs t' = 1 \<and>
       t_status t' \<noteq> TSuccess \<and> snap = Some (task_snapshot_of db' t'))"
proof -
  have run: "case complete_job 20 demo_claim demo_descriptor empty_payload demo_db of
      Inl _ \<Rightarrow> False | Inr _ \<Rightarrow> True" by code_simp
  then obtain snap db' where r: "complete_job 20 demo_claim demo_descriptor empty_payload demo_db = Inr (snap, db')"
    by (auto split: sum.splits)
  have t: "task_row demo_db 1 = Some demo_task" by code_simp
  from complete_job_effect [OF demo_ok demo_claim_row r] t r show ?thesis
    by (auto simp: demo_running_def demo_queued_def demo_task_def)
qed

text \<open>
  Retry: the job waits until the given time without a lease, keeps what was paid for (image
  URLs, quota, attempts, result), and forgets the remote conversation and files exactly when
  the failure makes the next attempt switch the account.
\<close>

theorem schedule_retry_effect:
  assumes "store_ok db" and "claimed_job_row db c = Some j"
    and "schedule_retry clk c code message due db = (snap, db')"
  shows "\<exists>k. job_row db' (j_id j) = Some k \<and> j_status k = JRetryWait \<and> j_available_at k = due \<and>
    j_next_retry_at k = Some due \<and> j_stage k = j_stage j \<and> j_lease_token k = None \<and>
    (\<forall>l \<in> set (db_leases db'). l_job_id l \<noteq> j_id j) \<and>
    j_image_urls k = j_image_urls j \<and> j_quota_consumed k = j_quota_consumed j \<and>
    attempts_sum k = attempts_sum j \<and> j_result_payload k = j_result_payload j \<and>
    (if should_switch_claimed_account (j_stage j) (Some code)
     then j_conversation_id k = None \<and> j_file_ids k = [] \<and> j_sediment_ids k = []
     else j_conversation_id k = j_conversation_id j \<and> j_file_ids k = j_file_ids j \<and>
          j_sediment_ids k = j_sediment_ids j)"
proof -
  have j: "j \<in> set (db_jobs db)" using assms(2) by (auto dest: claimed_job_rowD)
  have db': "db' = snd (schedule_retry clk c code message due db)" using assms(3) by simp
  have row: "job_row db' (j_id j) = Some (retry_row clk code message due j)"
    using assms(2) job_row_unique [OF store_ok_exceptI [OF assms(1)] j]
    by (simp add: db' schedule_retry_def Let_def job_row_upd_job)
  have lea: "l_job_id l \<noteq> j_id j" if "l \<in> set (db_leases db')" for l
    using release_leaves_no_lease [OF store_ok_exceptI [OF assms(1)] assms(2), of l] that assms(2)
    by (simp add: db' schedule_retry_def Let_def)
  show ?thesis
    using row lea by (simp add: retry_row_def Let_def clear_job_lease_def attempts_sum_def)
qed

theorem schedule_retry_effect_witness:
  "\<exists>k. job_row (snd (schedule_retry 20 demo_claim ''auth_invalid'' (MText ''x'') 30 demo_db)) 10 = Some k \<and>
       j_status k = JRetryWait \<and> j_available_at k = 30"
  using schedule_retry_effect [OF demo_ok demo_claim_row surjective_pairing,
      of 20 "''auth_invalid''" "MText ''x''" 30]
  by (auto simp: demo_running_def)

text \<open>
  A released claim loses no progress: unless the task was canceled, the job goes back to the
  queue with its URLs and remote identifiers, and a job that left the generating stages with
  a persisted URL or remote identifier resumes at downloading, resolving or saving, never at
  a new generation.
\<close>

theorem release_claim_keeps_progress:
  assumes "store_ok db" and "claimed_job_row db c = Some j"
    and "task_row db (j_task_id j) = Some t" and "\<not> t_cancel_requested t"
  shows "fst (release_claim clk c refund db) \<and>
    (\<exists>k. job_row (snd (release_claim clk c refund db)) (j_id j) = Some k \<and> j_status k = JQueued \<and>
      j_available_at k = clk \<and> j_lease_token k = None \<and> j_image_urls k = j_image_urls j \<and>
      j_conversation_id k = j_conversation_id j \<and> j_file_ids k = j_file_ids j \<and>
      j_sediment_ids k = j_sediment_ids j \<and> j_quota_consumed k = j_quota_consumed j \<and>
      (job_can_resume_poll j \<and> j_stage j \<notin> {SQueued, SLeased, SRetryWait} \<longrightarrow>
         j_stage k \<in> {SResolving, SDownloading, SSaving}))"
proof -
  have j: "j \<in> set (db_jobs db)" using assms(2) by (auto dest: claimed_job_rowD)
  have row: "job_row (snd (release_claim clk c refund db)) (j_id j) =
      Some (release_row clk False refund j)"
    using assms job_row_unique [OF store_ok_exceptI [OF assms(1)] j]
    by (simp add: release_claim_def Let_def job_row_upd_job)
  have "fst (release_claim clk c refund db)"
    using assms(2) by (simp add: release_claim_def Let_def)
  moreover have "job_can_resume_poll j \<Longrightarrow> j_stage j \<notin> {SQueued, SLeased, SRetryWait} \<Longrightarrow>
      released_stage (if refund then refund_occupancy_claim_attempt j else j)
        \<in> {SResolving, SDownloading, SSaving}"
    by (auto simp: released_stage_def job_can_resume_poll_def has_remote_ids_def has_conversation_def
        refund_occupancy_claim_attempt_def)
  ultimately show ?thesis
    using row
    by (simp add: release_row_def Let_def clear_job_lease_def refund_occupancy_claim_attempt_def)
qed

theorem release_claim_keeps_progress_witness:
  "fst (release_claim 20 demo_claim True demo_db) \<and>
   (\<exists>k. job_row (snd (release_claim 20 demo_claim True demo_db)) 10 = Some k \<and> j_status k = JQueued)"
proof -
  have t: "task_row demo_db (j_task_id demo_running) = Some demo_task" by code_simp
  have "\<not> t_cancel_requested demo_task" by code_simp
  from release_claim_keeps_progress [OF demo_ok demo_claim_row t this, of 20 True] show ?thesis
    by (auto simp: demo_running_def)
qed

text \<open>
  Consumed quota is settled with the account at most once: of any two attempts to mark a
  job accounted, whatever account and time they name, the second is refused once the first
  succeeded, and an accounted job is no longer listed for accounting.
\<close>

theorem quota_accounted_once:
  assumes "store_ok db" and "mark_quota_accounted clk i account db = (True, db')"
  shows "mark_quota_accounted clk' i account' db' = (False, db') \<and>
    (\<forall>j \<in> set (list_unaccounted_terminal_quota_jobs limit db'). j_id j \<noteq> i)"
proof -
  from assms(2) obtain j where row: "job_row db i = Some j"
    and db': "db' = log_event (j_task_id j) (Some i) ''quota_accounted'' (attempts_sum j) None None
                [(''account_id'', JUid account)]
                (upd_job i (\<lambda>j. j\<lparr>j_quota_accounted := True, j_quota_accounting_error := None,
                                   j_updated_at := clk\<rparr>) db)"
    by (auto simp: mark_quota_accounted_def split: option.splits if_splits)
  have row': "job_row db' i = Some (j\<lparr>j_quota_accounted := True, j_quota_accounting_error := None,
                                   j_updated_at := clk\<rparr>)"
    using row by (simp add: db' job_row_upd_job)
  have jobs': "db_jobs db' = upd_rows (\<lambda>j. j_id j = i)
      (\<lambda>j. j\<lparr>j_quota_accounted := True, j_quota_accounting_error := None, j_updated_at := clk\<rparr>)
      (db_jobs db)"
    by (simp add: db' db_jobs_upd_job)
  have "\<not> j_quota_accounted k" if "k \<in> set (list_unaccounted_terminal_quota_jobs limit db')" for k
    using that by (auto simp: list_unaccounted_terminal_quota_jobs_def dest!: in_set_takeD)
  moreover have "k \<in> set (db_jobs db')" if "k \<in> set (list_unaccounted_terminal_quota_jobs limit db')" for k
    using that by (auto simp: list_unaccounted_terminal_quota_jobs_def dest!: in_set_takeD)
  moreover have "j_quota_accounted k" if k: "k \<in> set (db_jobs db')" "j_id k = i" for k
  proof -
    from k(1) obtain k0 where "k = (if j_id k0 = i
        then k0\<lparr>j_quota_accounted := True, j_quota_accounting_error := None, j_updated_at := clk\<rparr> else k0)"
      unfolding jobs' by (rule in_upd_rowsE)
    with k(2) show ?thesis by (simp split: if_splits)
  qed
  ultimately have "\<forall>j \<in> set (list_unaccounted_terminal_quota_jobs limit db'). j_id j \<noteq> i"
    by blast
  moreover have "mark_quota_accounted clk' i account' db' = (False, db')"
    using row' by (simp add: mark_quota_accounted_def)
  ultimately show ?thesis by blast
qed

theorem quota_accounted_once_witness:
  "let db1 = snd (mark_quota_consumed 9 demo_claim demo_db);
       db2 = snd (mark_quota_accounted 10 10 7 db1)
   in fst (mark_quota_accounted 10 10 7 db1) \<and> \<not> fst (mark_quota_accounted 11 10 7 db2)"
proof -
  let ?db1 = "snd (mark_quota_consumed 9 demo_claim demo_db)"
  have ok: "store_ok ?db1" by (rule mark_quota_consumed_ok [OF demo_ok])
  have f: "fst (mark_quota_accounted 10 10 7 ?db1)" by code_simp
  then have "mark_quota_accounted 10 10 7 ?db1 = (True, snd (mark_quota_accounted 10 10 7 ?db1))"
    by (metis (full_types) prod.collapse)
  from conjunct1 [OF quota_accounted_once [OF ok this, of 11 7]] f show ?thesis
    unfolding Let_def by (metis fst_conv)
qed

end
