(* ===== verification/Queue_Claim.thy ===== *)
theory Queue_Claim
  imports Queue_Work Account_Dispatch
begin

text \<open>
  \<open>claim_next_job\<close> (\<open>repository.py\<close>): the query for the next claimable job, the choice of the
  account or of a local recovery, the account slot, and the ownership transfer. The loop of
  \<open>_claim_next_job_once\<close> is the iteration of \<open>claim_iteration\<close>; each iteration is one
  transaction, its cursor the sort key of the job looked at last.
\<close>

section \<open>The claim query\<close>

type_synonym job_key = "time \<times> time \<times> nat \<times> uuid"

definition job_sort_key :: "image_job \<Rightarrow> job_key" where
  "job_sort_key j = (j_available_at j, j_created_at j, j_ordinal j, j_id j)"

text \<open>The comparison with \<open>after_sort_key\<close> that the query spells out is the lexicographic one.\<close>

definition claimable_job ::
  "time \<Rightarrow> uuid list \<Rightarrow> job_key option \<Rightarrow> bool \<Rightarrow> bool \<Rightarrow> queue_db \<Rightarrow> image_job \<Rightarrow> bool" where
  "claimable_job now excluded after recovery_only generation_only db j \<longleftrightarrow>
     waiting_job (j_status j) \<and> j_available_at j \<le> now \<and>
     (\<exists>t \<in> set (db_tasks db). t_id t = j_task_id j \<and> \<not> t_cancel_requested t) \<and>
     j_id j \<notin> set excluded \<and>
     (case after of None \<Rightarrow> True | Some k \<Rightarrow> k < job_sort_key j) \<and>
     (if recovery_only then j_stage j \<notin> {SQueued, SLeased, SGenerating}
      else if generation_only then j_stage j \<in> {SQueued, SLeased, SGenerating, SRetryWait}
      else True)"

definition claimable_job_statement ::
  "time \<Rightarrow> uuid list \<Rightarrow> job_key option \<Rightarrow> bool \<Rightarrow> bool \<Rightarrow> queue_db \<Rightarrow> image_job option" where
  "claimable_job_statement now excluded after recovery_only generation_only db =
     first_by job_sort_key
       (filter (claimable_job now excluded after recovery_only generation_only db) (db_jobs db))"

section \<open>Account leases\<close>

definition account_lease_occupies_slot :: "time \<Rightarrow> queue_db \<Rightarrow> account_lease \<Rightarrow> bool" where
  "account_lease_occupies_slot now db l \<longleftrightarrow>
     now < l_expires_at l \<or>
     (\<exists>j \<in> set (db_jobs db). j_id j = l_job_id l \<and> active_job (j_status j))"

text \<open>The count over all accounts (None) or over the given ones.\<close>

definition count_account_leases :: "time \<Rightarrow> uuid list option \<Rightarrow> queue_db \<Rightarrow> nat" where
  "count_account_leases now accounts db =
     length (filter (\<lambda>l. (case accounts of None \<Rightarrow> True | Some ids \<Rightarrow> l_account_id l \<in> set ids) \<and>
                         account_lease_occupies_slot now db l) (db_leases db))"

definition clear_orphan_account_leases :: "uuid \<Rightarrow> queue_db \<Rightarrow> queue_db" where
  "clear_orphan_account_leases job_id db = drop_leases (\<lambda>l. l_job_id l = job_id) db"

definition clear_expired_inactive_account_leases :: "time \<Rightarrow> queue_db \<Rightarrow> queue_db" where
  "clear_expired_inactive_account_leases now db =
     drop_leases (\<lambda>l. l_expires_at l \<le> now \<and>
       (\<exists>j \<in> set (db_jobs db). j_id j = l_job_id l \<and> \<not> active_job (j_status j))) db"

text \<open>The statistics of the candidates, for the ranking; times are in microseconds.\<close>

definition lease_generating_time :: "time \<Rightarrow> queue_db \<Rightarrow> account_lease \<Rightarrow> time" where
  "lease_generating_time now db l =
     (case (case job_row db (l_job_id l) of
              Some j \<Rightarrow> dispatch_lease_started_at (j_stage j) (j_stage_timings j)
                          (Some (l_heartbeat_at l)) (j_started_at j)
            | None \<Rightarrow> Some (l_heartbeat_at l)) of
        None \<Rightarrow> 0
      | Some started \<Rightarrow> now - started)"

definition candidate_dispatch_stats ::
  "time \<Rightarrow> queue_db \<Rightarrow> account_candidate \<Rightarrow> dispatch_stats" where
  "candidate_dispatch_stats now db c =
     (let mine = filter (\<lambda>l. l_account_id l = ac_account_id c \<and> account_lease_occupies_slot now db l)
                   (db_leases db)
      in \<lparr>ds_inflight = length mine,
          ds_generating_time = foldr max (map (lease_generating_time now db) mine) 0,
          ds_success = ac_success c, ds_fail = ac_fail c\<rparr>)"

text \<open>A dictionary comprehension keeps the last of two candidates with the same account.\<close>

definition dispatch_stats_for_candidates ::
  "time \<Rightarrow> queue_db \<Rightarrow> account_candidate list \<Rightarrow> (uuid \<times> dispatch_stats) list" where
  "dispatch_stats_for_candidates now db candidates =
     map (\<lambda>c. (ac_account_id c, candidate_dispatch_stats now db c)) (rev candidates)"

definition acquire_account_slot ::
  "account_candidate \<Rightarrow> int \<Rightarrow> image_job \<Rightarrow> string \<Rightarrow> uuid \<Rightarrow> nat \<Rightarrow> time \<Rightarrow> time \<Rightarrow> queue_db \<Rightarrow>
   queue_error + (nat option \<times> queue_db)" where
  "acquire_account_slot candidate concurrency j worker token version expires now db =
     (case find (\<lambda>s. (ac_account_id candidate, s) \<notin> lease_key ` set (db_leases db))
             [0..<nat (max 1 concurrency)] of
        None \<Rightarrow> Inr (None, db)
      | Some s \<Rightarrow>
          if \<exists>l \<in> set (db_leases db). l_job_id l = j_id j then Inl IntegrityError
          else Inr (Some s, db\<lparr>db_leases := db_leases db @
                 [\<lparr>l_account_id = ac_account_id candidate, l_slot_no = s, l_job_id = j_id j,
                   l_lease_owner = worker, l_lease_token = token, l_lease_version = version,
                   l_expires_at = expires, l_heartbeat_at = now\<rparr>]\<rparr>))"

fun acquire_first_slot ::
  "account_candidate list \<Rightarrow> int \<Rightarrow> image_job \<Rightarrow> string \<Rightarrow> uuid \<Rightarrow> nat \<Rightarrow> time \<Rightarrow> time \<Rightarrow> queue_db \<Rightarrow>
   queue_error + ((account_candidate \<times> nat) option \<times> queue_db)" where
  "acquire_first_slot [] concurrency j worker token version expires now db = Inr (None, db)"
| "acquire_first_slot (c # cs) concurrency j worker token version expires now db =
     (case acquire_account_slot c concurrency j worker token version expires now db of
        Inl e \<Rightarrow> Inl e
      | Inr (Some s, db') \<Rightarrow> Inr (Some (c, s), db')
      | Inr (None, db') \<Rightarrow> acquire_first_slot cs concurrency j worker token version expires now db')"

section \<open>The route of a job\<close>

record claim_request =
  cr_worker_id :: string
  cr_candidates :: "account_candidate list"
  cr_account_concurrency :: int
  cr_claim_time :: time
  cr_allow_generation :: bool
  cr_recovery_only :: bool
  cr_prefer_recovery :: bool
  cr_local_available :: "(image_job \<Rightarrow> artifact_descriptor list \<Rightarrow> bool) option"
  cr_allow_unowned :: bool
  cr_expected_instance :: string

definition ensure_worker_process_current :: "string \<Rightarrow> string \<Rightarrow> queue_db \<Rightarrow> bool" where
  "ensure_worker_process_current worker expected db =
     (if py_strip expected = '''' then True
      else case find (\<lambda>w. w_worker_id w = worker) (db_workers db) of
             None \<Rightarrow> False
           | Some w \<Rightarrow> w_process_instance_id w = py_strip expected)"

definition recovery_artifact_rows :: "uuid \<Rightarrow> queue_db \<Rightarrow> task_artifact list" where
  "recovery_artifact_rows job_id db =
     sort_key (\<lambda>a. (a_kind a, - a_created_at a))
       (filter (recovery_artifact [''downloaded'', ''upscaled'', ''final''] job_id) (db_artifacts db))"

text \<open>
  The artifacts this worker may resume from: its own, unowned ones if allowed, and those of
  workers that stopped. The flag says that a live worker owns another one.
\<close>

definition own_local_artifact :: "queue_settings \<Rightarrow> claim_request \<Rightarrow> queue_db \<Rightarrow> task_artifact \<Rightarrow> bool" where
  "own_local_artifact cfg req db a \<longleftrightarrow>
     (let owner = py_strip (a_worker_id a)
      in owner = py_strip (cr_worker_id req) \<or>
         owner = '''' \<and> cr_allow_unowned req \<or>
         owner \<noteq> '''' \<and> \<not> (\<exists>w \<in> set (db_workers db).
            cr_claim_time req - secs (max 60 (2 * lease_seconds cfg)) < w_heartbeat_at w \<and>
            py_strip (w_worker_id w) = owner))"

definition local_recovery_artifacts ::
  "queue_settings \<Rightarrow> claim_request \<Rightarrow> queue_db \<Rightarrow> image_job \<Rightarrow> artifact_descriptor list \<times> bool" where
  "local_recovery_artifacts cfg req db j =
     (if j_stage j \<in> {SQueued, SLeased, SGenerating} then ([], False)
      else let rows = recovery_artifact_rows (j_id j) db
           in if py_strip (cr_worker_id req) = '''' then (map artifact_descriptor_of rows, False)
              else (map artifact_descriptor_of (filter (own_local_artifact cfg req db) rows),
                    \<exists>a \<in> set rows. \<not> own_local_artifact cfg req db a))"

datatype claim_route =
  RFail string msg
| RWait string
| RLocal
| RAccountless
| RAccounts bool "account_candidate list"

definition recovery_expired :: "queue_settings \<Rightarrow> time \<Rightarrow> image_job \<Rightarrow> bool" where
  "recovery_expired cfg now j \<longleftrightarrow>
     j_updated_at j + secs (max 30 (recovery_account_timeout_seconds cfg)) \<le> now"

definition claim_route_of ::
  "queue_settings \<Rightarrow> claim_request \<Rightarrow> queue_db \<Rightarrow> image_job \<Rightarrow> claim_route" where
  "claim_route_of cfg req db j =
     (let (local, foreign) = local_recovery_artifacts cfg req db j;
          local_recovery = (local \<noteq> [] \<and>
            (case cr_local_available req of None \<Rightarrow> True | Some available \<Rightarrow> available j local));
          candidates = cr_candidates req;
          has_remote_checkpoint = job_can_resume_poll j;
          switch = should_switch_claimed_account (j_stage j) (j_error_code j);
          expired = recovery_expired cfg (cr_claim_time req) j
      in if foreign \<and> local = [] \<and> \<not> has_remote_checkpoint
         then (if expired then RFail ''worker_local_recovery_unavailable'' MForeignLocalArtifact
               else RWait ''worker_local_recovery'')
         else if local_recovery then RLocal
         else if j_image_urls j \<noteq> [] \<and>
           (j_account_id j = None \<or>
            \<not> (\<exists>c \<in> set candidates. Some (ac_account_id c) = j_account_id j) \<or>
            should_switch_image_account (j_error_code j))
         then RAccountless
         else if has_remote_checkpoint \<and> j_account_id j \<noteq> None \<and> \<not> switch
         then (let own = filter (\<lambda>c. Some (ac_account_id c) = j_account_id j) candidates
               in if own = []
                  then (if expired then RFail ''recovery_account_unavailable'' MRecoveryAccountGone
                        else RWait ''recovery_account'')
                  else RAccounts True own)
         else if switch \<and> j_account_id j \<noteq> None \<and> 1 < length candidates
         then RAccounts True (filter (\<lambda>c. Some (ac_account_id c) \<noteq> j_account_id j) candidates)
         else RAccounts False candidates)"

section \<open>One iteration\<close>

text \<open>The loop variables, the database, and the database as of the last commit.\<close>

record claim_state =
  cs_db :: queue_db
  cs_committed :: queue_db
  cs_recovery_pass :: bool
  cs_after :: "job_key option"

datatype claim_step =
  Stop "queue_error + claimed_job option" queue_db
| Again claim_state

definition commit_and_continue :: "queue_db \<Rightarrow> image_job \<Rightarrow> claim_state \<Rightarrow> claim_step" where
  "commit_and_continue db j st =
     Again (st\<lparr>cs_db := db, cs_committed := db, cs_after := Some (job_sort_key j)\<rparr>)"

definition unrecoverable_row :: "time \<Rightarrow> string \<Rightarrow> msg \<Rightarrow> image_job \<Rightarrow> image_job" where
  "unrecoverable_row now code message j =
     j\<lparr>j_status := JFailed, j_stage := SFailed, j_error_code := Some code,
       j_error_message := Some message, j_completed_at := Some now, j_updated_at := now\<rparr>"

definition fail_unrecoverable ::
  "time \<Rightarrow> time \<Rightarrow> string \<Rightarrow> msg \<Rightarrow> image_job \<Rightarrow> queue_db \<Rightarrow> queue_db" where
  "fail_unrecoverable clk now code message j db =
     aggregate_task clk (j_task_id j)
       (log_event (j_task_id j) (Some (j_id j)) ''job_failed'' (attempts_sum j)
          (Some (job_status_value (j_status j))) (Some (job_status_value JFailed))
          [(''error_code'', JStr code)]
          (upd_job (j_id j) (unrecoverable_row now code message) db))"

definition set_wait_reason :: "time \<Rightarrow> string \<Rightarrow> uuid \<Rightarrow> queue_db \<Rightarrow> queue_db" where
  "set_wait_reason now reason tid db =
     upd_task tid (\<lambda>t. t\<lparr>t_wait_reason := Some reason, t_updated_at := now\<rparr>) db"

definition claimed_stage :: "job_stage \<Rightarrow> job_stage" where
  "claimed_stage s = (if s \<in> {SQueued, SRetryWait} then SLeased else s)"

definition claimed_row ::
  "time \<Rightarrow> string \<Rightarrow> uuid \<Rightarrow> time \<Rightarrow> uuid option \<Rightarrow> image_job \<Rightarrow> image_job" where
  "claimed_row now worker token expires account j =
     (increment_attempt j)\<lparr>
       j_status := JLeased, j_stage := claimed_stage (j_stage j),
       j_stage_timings := apply_claim_stage_timings (j_stage_timings j) (j_stage j)
                            (claimed_stage (j_stage j)) now,
       j_lease_owner := Some worker, j_lease_token := Some token,
       j_lease_version := j_lease_version j + 1, j_lease_expires_at := Some expires,
       j_heartbeat_at := Some now, j_account_id := account,
       j_started_at := or_else (j_started_at j) (Some now), j_updated_at := now\<rparr>"

text \<open>
  The ownership transfer for the chosen account and slot. A negative slot is a recovery that
  holds no account: the job keeps its account.
\<close>

definition finish_claim ::
  "queue_settings \<Rightarrow> claim_request \<Rightarrow> uuid \<Rightarrow> image_job \<Rightarrow> uuid \<Rightarrow> int \<Rightarrow> claim_state \<Rightarrow> queue_db \<Rightarrow> claim_step" where
  "finish_claim cfg req token j account slot st db =
     (let now = cr_claim_time req;
          worker = cr_worker_id req;
          expires = now + secs (lease_seconds cfg);
          version = j_lease_version j + 1;
          job_account = (if 0 \<le> slot then Some account else j_account_id j);
          matches = (\<lambda>k. j_id k = j_id j \<and> waiting_job (j_status k) \<and>
                         j_lease_version k = j_lease_version j);
          row = claimed_row now worker token expires job_account j
      in if cr_expected_instance req \<noteq> '''' \<and>
            \<not> ensure_worker_process_current worker (cr_expected_instance req) db
         then Stop (Inl (WorkerIdentityConflict worker)) (cs_committed st)
         else if length (filter matches (db_jobs db)) \<noteq> 1
         then commit_and_continue
                (if 0 \<le> slot
                 then drop_leases (\<lambda>l. l_job_id l = j_id j \<and> l_lease_token l = token \<and>
                                       l_lease_version l = version) db
                 else db) j st
         else
           let db1 = db\<lparr>db_jobs := upd_rows matches (\<lambda>_. row) (db_jobs db)\<rparr>;
               db2 = upd_task (j_task_id j)
                       (\<lambda>t. t\<lparr>t_status := TRunning, t_wait_reason := None,
                              t_started_at := or_else (t_started_at t) (Some now),
                              t_updated_at := now, t_version := t_version t + 1\<rparr>) db1;
               db3 = log_event (j_task_id j) (Some (j_id j)) ''job_leased'' (attempts_sum row)
                       (Some (job_status_value (j_status j))) (Some (job_status_value JLeased))
                       [(''worker_id'', JStr worker), (''account_id'', JUid account),
                        (''slot_no'', JInt slot)] db2
           in Stop (Inr (Some
                \<lparr>c_job = row, c_lease_token = token, c_lease_version = version,
                 c_lease_owner = worker, c_lease_expires_at = expires,
                 c_account_id = j_account_id row, c_account_slot = slot\<rparr>)) db3)"

definition account_or_zero :: "image_job \<Rightarrow> uuid" where
  "account_or_zero j = (case j_account_id j of Some a \<Rightarrow> a | None \<Rightarrow> 0)"

definition ranked_candidates ::
  "claim_request \<Rightarrow> image_job \<Rightarrow> queue_db \<Rightarrow> account_candidate list \<Rightarrow> account_candidate list" where
  "ranked_candidates req j db cands =
     (if 1 < length cands
      then rank_image_account_candidates cands
             (dispatch_stats_for_candidates (cr_claim_time req) db cands)
             (cr_account_concurrency req) (j_id j)
      else cands)"

definition claim_iteration ::
  "queue_settings \<Rightarrow> claim_request \<Rightarrow> time \<Rightarrow> uuid \<Rightarrow> claim_state \<Rightarrow> claim_step" where
  "claim_iteration cfg req clk token st =
     (let now = cr_claim_time req; pass = cs_recovery_pass st
      in case claimable_job_statement now [] (cs_after st) pass (\<not> pass \<and> \<not> cr_recovery_only req)
                (cs_db st) of
           None \<Rightarrow>
             if pass \<and> cr_allow_generation req \<and> \<not> cr_recovery_only req
             then Again (st\<lparr>cs_recovery_pass := False, cs_after := None\<rparr>)
             else Stop (Inr None) (cs_db st)
         | Some j \<Rightarrow>
             let db = clear_orphan_account_leases (j_id j) (cs_db st)
             in case claim_route_of cfg req db j of
                  RFail code message \<Rightarrow>
                    commit_and_continue (fail_unrecoverable clk now code message j db) j st
                | RWait reason \<Rightarrow>
                    commit_and_continue (set_wait_reason now reason (j_task_id j) db) j st
                | RLocal \<Rightarrow> finish_claim cfg req token j (account_or_zero j) (-1) st db
                | RAccountless \<Rightarrow> finish_claim cfg req token j (account_or_zero j) (-2) st db
                | RAccounts restricted cands \<Rightarrow>
                    (case acquire_first_slot (ranked_candidates req j db cands)
                            (cr_account_concurrency req) j (cr_worker_id req) token
                            (j_lease_version j + 1) (now + secs (lease_seconds cfg)) now db of
                       Inl e \<Rightarrow> Stop (Inl e) (cs_committed st)
                     | Inr (None, db1) \<Rightarrow>
                         let db2 = set_wait_reason now ''account_capacity'' (j_task_id j) db1
                         in if \<not> pass \<and> \<not> restricted then Stop (Inr None) db2
                            else commit_and_continue db2 j st
                     | Inr (Some (c, s), db1) \<Rightarrow>
                         finish_claim cfg req token j (ac_account_id c) (int s) st db1))"

section \<open>The loop\<close>

text \<open>
  Each iteration looks at a job strictly behind the cursor and no iteration moves a sort
  key, so the jobs behind the cursor get fewer; the recovery pass is left at most once.
\<close>

definition jobs_ahead :: "claim_state \<Rightarrow> nat" where
  "jobs_ahead st =
     length (filter (\<lambda>k. case cs_after st of None \<Rightarrow> True | Some a \<Rightarrow> a < k)
               (map job_sort_key (db_jobs (cs_db st))))"

lemma next_jobD:
  assumes "claimable_job_statement now ex after r g db = Some j"
  shows "j \<in> set (db_jobs db)" "claimable_job now ex after r g db j"
    "\<And>k. k \<in> set (db_jobs db) \<Longrightarrow> claimable_job now ex after r g db k \<Longrightarrow>
       job_sort_key j \<le> job_sort_key k"
  using first_by_Some [OF assms [unfolded claimable_job_statement_def]] by auto

lemma sort_keys_upd_job:
  "(\<And>j. job_sort_key (f j) = job_sort_key j) \<Longrightarrow>
   map job_sort_key (db_jobs (upd_job i f db)) = map job_sort_key (db_jobs db)"
  unfolding db_jobs_upd_job by (rule map_upd_rows) simp

lemma acquire_slot_jobs:
  "acquire_account_slot c n j w t v e now db = Inr (r, db') \<Longrightarrow>
   db_jobs db' = db_jobs db \<and> db_tasks db' = db_tasks db"
  by (auto simp: acquire_account_slot_def split: option.splits if_splits)

lemma acquire_first_jobs:
  "acquire_first_slot cs n j w t v e now db = Inr (r, db') \<Longrightarrow>
   db_jobs db' = db_jobs db \<and> db_tasks db' = db_tasks db"
proof (induction cs arbitrary: db)
  case (Cons c cs)
  show ?case
  proof (cases "acquire_account_slot c n j w t v e now db")
    case (Inr p)
    obtain s db1 where p: "p = (s, db1)" by (cases p)
    from Inr p have "db_jobs db1 = db_jobs db \<and> db_tasks db1 = db_tasks db"
      using acquire_slot_jobs by blast
    with Cons.IH [of db1] Cons.prems Inr p show ?thesis by (cases s) simp_all
  qed (use Cons.prems in simp)
qed simp

lemma orphan_projections [simp, store_simps]:
  "db_jobs (clear_orphan_account_leases i db) = db_jobs db"
  "db_tasks (clear_orphan_account_leases i db) = db_tasks db"
  "db_jobs (clear_expired_inactive_account_leases now db) = db_jobs db"
  "db_tasks (clear_expired_inactive_account_leases now db) = db_tasks db"
  "db_jobs (set_wait_reason now r tid db) = db_jobs db"
  by (simp_all add: clear_orphan_account_leases_def clear_expired_inactive_account_leases_def
      set_wait_reason_def)

definition moved_on :: "claim_state \<Rightarrow> image_job \<Rightarrow> claim_state \<Rightarrow> bool" where
  "moved_on st j st' \<longleftrightarrow>
     (\<exists>db'. st' = st\<lparr>cs_db := db', cs_committed := db', cs_after := Some (job_sort_key j)\<rparr> \<and>
            map job_sort_key (db_jobs db') = map job_sort_key (db_jobs (cs_db st)))"

lemma commit_moved_on:
  "commit_and_continue db j st = Again st' \<Longrightarrow>
   map job_sort_key (db_jobs db) = map job_sort_key (db_jobs (cs_db st)) \<Longrightarrow> moved_on st j st'"
  by (auto simp: commit_and_continue_def moved_on_def)

lemma finish_moved_on:
  "finish_claim cfg req token j acc s st db = Again st' \<Longrightarrow> db_jobs db = db_jobs (cs_db st) \<Longrightarrow>
   moved_on st j st'"
  by (auto simp: finish_claim_def Let_def split: if_splits intro: commit_moved_on)

lemma finish_acquired_moved_on:
  assumes "finish_claim cfg req token j acc s st db' = Again st'"
    and "acquire_first_slot cs n j w t v e now db = Inr (r, db')" and "db_jobs db = db_jobs (cs_db st)"
  shows "moved_on st j st'"
  using finish_moved_on [OF assms(1)] acquire_first_jobs [OF assms(2)] assms(3) by simp

lemma commit_acquired_moved_on:
  assumes "commit_and_continue (set_wait_reason now reason tid db') j st = Again st'"
    and "acquire_first_slot cs n j w t v e now' db = Inr (r, db')" and "db_jobs db = db_jobs (cs_db st)"
  shows "moved_on st j st'"
  using commit_moved_on [OF assms(1)] acquire_first_jobs [OF assms(2)] assms(3) by simp

lemma fail_unrecoverable_keys:
  "map job_sort_key (db_jobs (fail_unrecoverable clk now code m j db)) =
   map job_sort_key (db_jobs db)"
  by (simp add: fail_unrecoverable_def sort_keys_upd_job unrecoverable_row_def job_sort_key_def)

lemma claim_iteration_moved_on:
  assumes "claim_iteration cfg req clk token st = Again st'"
    and "claimable_job_statement (cr_claim_time req) [] (cs_after st) (cs_recovery_pass st)
           (\<not> cs_recovery_pass st \<and> \<not> cr_recovery_only req) (cs_db st) = Some j"
  shows "moved_on st j st'"
proof (cases "claim_route_of cfg req (clear_orphan_account_leases (j_id j) (cs_db st)) j")
  case (RAccounts restricted cands)
  with assms show ?thesis
    by (auto simp: claim_iteration_def Let_def
        split: sum.splits option.splits prod.splits if_splits
        elim: finish_acquired_moved_on commit_acquired_moved_on)
qed (use assms in \<open>simp_all add: claim_iteration_def Let_def commit_moved_on finish_moved_on
       fail_unrecoverable_keys\<close>)

lemma claim_iteration_again:
  assumes "claim_iteration cfg req clk token st = Again st'"
  shows "cs_recovery_pass st \<and> \<not> cs_recovery_pass st' \<or>
    cs_recovery_pass st' = cs_recovery_pass st \<and>
    map job_sort_key (db_jobs (cs_db st')) = map job_sort_key (db_jobs (cs_db st)) \<and>
    (\<exists>k \<in> set (map job_sort_key (db_jobs (cs_db st))). cs_after st' = Some k \<and>
       (\<forall>a. cs_after st = Some a \<longrightarrow> a < k))"
proof (cases "claimable_job_statement (cr_claim_time req) [] (cs_after st) (cs_recovery_pass st)
    (\<not> cs_recovery_pass st \<and> \<not> cr_recovery_only req) (cs_db st)")
  case None
  with assms show ?thesis
    by (auto simp: claim_iteration_def Let_def split: if_splits)
next
  case (Some j)
  from next_jobD(1,2) [OF Some]
  have after: "job_sort_key j \<in> set (map job_sort_key (db_jobs (cs_db st)))"
    "\<And>a. cs_after st = Some a \<Longrightarrow> a < job_sort_key j"
    by (simp_all add: claimable_job_def)
  with claim_iteration_moved_on [OF assms Some] show ?thesis
    by (auto simp: moved_on_def simp del: split_paired_All)
qed

lemma claim_iteration_pass:
  assumes "claim_iteration cfg req clk token st = Again st'"
  shows "cs_recovery_pass st' = cs_recovery_pass st \<or>
    cs_recovery_pass st \<and> \<not> cs_recovery_pass st' \<and> cr_allow_generation req \<and> \<not> cr_recovery_only req"
proof (cases "claimable_job_statement (cr_claim_time req) [] (cs_after st) (cs_recovery_pass st)
    (\<not> cs_recovery_pass st \<and> \<not> cr_recovery_only req) (cs_db st)")
  case None
  with assms show ?thesis
    by (auto simp: claim_iteration_def Let_def split: if_splits)
next
  case (Some j)
  from claim_iteration_moved_on [OF assms Some] show ?thesis by (auto simp: moved_on_def)
qed

function claim_loop ::
  "queue_settings \<Rightarrow> claim_request \<Rightarrow> time \<Rightarrow> (nat \<Rightarrow> uuid) \<Rightarrow> nat \<Rightarrow> claim_state \<Rightarrow>
   (queue_error + claimed_job option) \<times> queue_db" where
  "claim_loop cfg req clk tok n st =
     (case claim_iteration cfg req clk (tok n) st of
        Stop r db \<Rightarrow> (r, db)
      | Again st' \<Rightarrow> claim_loop cfg req clk tok (Suc n) st')"
  by pat_completeness auto

lemma jobs_ahead_less:
  assumes "map job_sort_key (db_jobs (cs_db st')) = map job_sort_key (db_jobs (cs_db st))"
    and "k \<in> set (map job_sort_key (db_jobs (cs_db st)))" and "cs_after st' = Some k"
    and "\<And>a. cs_after st = Some a \<Longrightarrow> a < k"
  shows "jobs_ahead st' < jobs_ahead st"
proof -
  let ?ks = "map job_sort_key (db_jobs (cs_db st))"
  let ?p = "\<lambda>x. k < x" and ?q = "\<lambda>x. case cs_after st of None \<Rightarrow> True | Some a \<Rightarrow> a < x"
  have sub: "filter ?p ?ks = filter ?p (filter ?q ?ks)"
    unfolding filter_filter
    by (rule filter_cong) (use assms(4) in \<open>auto split: option.splits dest: less_trans\<close>)
  have "k \<in> set (filter ?q ?ks)"
    using assms(2,4) by (simp split: option.splits)
  then have "length (filter ?p (filter ?q ?ks)) < length (filter ?q ?ks)"
    by (rule length_filter_less) simp
  with sub assms(1,3) show ?thesis by (simp add: jobs_ahead_def)
qed

termination claim_loop
proof (relation "inv_image (less_than <*lex*> less_than)
    (\<lambda>(cfg, req, clk, tok, n, st). (if cs_recovery_pass st then 1 else 0, jobs_ahead st))")
  show "wf (inv_image (less_than <*lex*> less_than)
    (\<lambda>(cfg, req, clk, tok, n, st). (if cs_recovery_pass st then 1 else (0::nat), jobs_ahead st)))"
    by auto
  show "((cfg, req, clk, tok, Suc n, st'), (cfg, req, clk, tok, n, st))
    \<in> inv_image (less_than <*lex*> less_than)
        (\<lambda>(cfg, req, clk, tok, n, st). (if cs_recovery_pass st then 1 else 0, jobs_ahead st))"
    if "claim_iteration cfg req clk (tok n) st = Again st'"
    for cfg req clk st st' and tok :: "nat \<Rightarrow> uuid" and n
  proof (cases "cs_recovery_pass st \<and> \<not> cs_recovery_pass st'")
    case False
    with claim_iteration_again [OF that] have "cs_recovery_pass st' = cs_recovery_pass st"
      "jobs_ahead st' < jobs_ahead st"
      by (blast intro: jobs_ahead_less)+
    then show ?thesis by simp
  qed simp
qed

declare claim_loop.simps [simp del]

definition claim_next_job_once ::
  "queue_settings \<Rightarrow> claim_request \<Rightarrow> time \<Rightarrow> (nat \<Rightarrow> uuid) \<Rightarrow> queue_db \<Rightarrow>
   (queue_error + claimed_job option) \<times> queue_db" where
  "claim_next_job_once cfg req clk tok db =
     (if cr_expected_instance req \<noteq> '''' \<and>
         \<not> ensure_worker_process_current (cr_worker_id req) (cr_expected_instance req) db
      then (Inl (WorkerIdentityConflict (cr_worker_id req)), db)
      else
        let db1 = clear_expired_inactive_account_leases (cr_claim_time req) db;
            pass = (cr_prefer_recovery req \<or> cr_recovery_only req)
        in if \<not> pass \<and> \<not> cr_allow_generation req then (Inr None, db1)
           else claim_loop cfg req clk tok 0
                  \<lparr>cs_db = db1, cs_committed = db, cs_recovery_pass = pass, cs_after = None\<rparr>)"

text \<open>An IntegrityError is retried, five attempts in all; each attempt draws its own tokens.\<close>

fun claim_attempts ::
  "nat \<Rightarrow> queue_settings \<Rightarrow> claim_request \<Rightarrow> time \<Rightarrow> (nat \<Rightarrow> nat \<Rightarrow> uuid) \<Rightarrow> queue_db \<Rightarrow>
   (queue_error + claimed_job option) \<times> queue_db" where
  "claim_attempts 0 cfg req clk tok db = (Inr None, db)"
| "claim_attempts (Suc n) cfg req clk tok db =
     (case claim_next_job_once cfg req clk (tok n) db of
        (r, db') \<Rightarrow> if r = Inl IntegrityError then claim_attempts n cfg req clk tok db'
                    else (r, db'))"

definition claim_next_job ::
  "queue_settings \<Rightarrow> claim_request \<Rightarrow> time \<Rightarrow> (nat \<Rightarrow> nat \<Rightarrow> uuid) \<Rightarrow> queue_db \<Rightarrow>
   (queue_error + claimed_job option) \<times> queue_db" where
  "claim_next_job cfg req clk tok db = claim_attempts 5 cfg req clk tok db"

end
