(* ===== verification/Queue_Claim_Correct.thy ===== *)
theory Queue_Claim_Correct
  imports Queue_Claim Queue_Work_Correct
begin

text \<open>
  The claim keeps the store well formed, hands out only jobs that were claimable, gives each
  claim a fresh lease, and never takes more slots of an account than the concurrency.
\<close>

section \<open>Slots\<close>

definition slot_lease ::
  "account_candidate \<Rightarrow> nat \<Rightarrow> image_job \<Rightarrow> string \<Rightarrow> uuid \<Rightarrow> nat \<Rightarrow> time \<Rightarrow> time \<Rightarrow> account_lease" where
  "slot_lease c s j worker token version expires now =
     \<lparr>l_account_id = ac_account_id c, l_slot_no = s, l_job_id = j_id j, l_lease_owner = worker,
      l_lease_token = token, l_lease_version = version, l_expires_at = expires, l_heartbeat_at = now\<rparr>"

lemma find_upt: "find p [m..<n] = Some s \<Longrightarrow> p s \<and> s < n"
  by (auto dest: find_SomeD)

lemma acquire_slotD:
  assumes "acquire_account_slot c n j w t v e now db = Inr (r, db')"
  shows "case r of None \<Rightarrow> db' = db
    | Some s \<Rightarrow> s < nat (max 1 n) \<and> (ac_account_id c, s) \<notin> lease_key ` set (db_leases db) \<and>
        db' = db\<lparr>db_leases := db_leases db @ [slot_lease c s j w t v e now]\<rparr>"
proof (cases "find (\<lambda>s. (ac_account_id c, s) \<notin> lease_key ` set (db_leases db)) [0..<nat (max 1 n)]")
  case None
  with assms show ?thesis by (simp add: acquire_account_slot_def)
next
  case (Some s)
  from assms have "r = Some s" "db' = db\<lparr>db_leases := db_leases db @ [slot_lease c s j w t v e now]\<rparr>"
    unfolding acquire_account_slot_def Some by (simp_all add: slot_lease_def split: if_splits)
  with find_upt [OF Some] show ?thesis by simp
qed

lemma acquire_firstD:
  "acquire_first_slot cs n j w t v e now db = Inr (r, db') \<Longrightarrow>
   (case r of None \<Rightarrow> db' = db
    | Some (c, s) \<Rightarrow> c \<in> set cs \<and> s < nat (max 1 n) \<and>
        (ac_account_id c, s) \<notin> lease_key ` set (db_leases db) \<and>
        db' = db\<lparr>db_leases := db_leases db @ [slot_lease c s j w t v e now]\<rparr>)"
proof (induction cs)
  case (Cons c cs)
  show ?case
  proof (cases "acquire_account_slot c n j w t v e now db")
    case (Inr p)
    obtain s db1 where p: "p = (s, db1)" by (cases p)
    note slot = acquire_slotD [of c n j w t v e now db s db1]
    show ?thesis
    proof (cases s)
      case None
      with slot Inr p Cons.prems have "acquire_first_slot cs n j w t v e now db = Inr (r, db')"
        by simp
      from Cons.IH [OF this] show ?thesis by (auto split: option.splits)
    qed (use slot Inr p Cons.prems in auto)
  qed (use Cons.prems in simp)
qed simp

lemma acquire_first_no_error:
  assumes "\<And>l. l \<in> set (db_leases db) \<Longrightarrow> l_job_id l \<noteq> j_id j"
  shows "acquire_first_slot cs n j w t v e now db \<noteq> Inl err"
proof (induction cs)
  case (Cons c cs)
  show ?case
  proof (cases "acquire_account_slot c n j w t v e now db")
    case (Inl x)
    with assms show ?thesis by (auto simp: acquire_account_slot_def split: option.splits if_splits)
  next
    case (Inr p)
    obtain s db1 where p: "p = (s, db1)" by (cases p)
    from acquire_slotD [of c n j w t v e now db s db1] Inr p Cons show ?thesis
      by (cases s) simp_all
  qed
qed simp

section \<open>The ownership transfer\<close>

lemma claimed_row_simps [simp]:
  "j_id (claimed_row now w tok e acc j) = j_id j"
  "j_task_id (claimed_row now w tok e acc j) = j_task_id j"
  "j_status (claimed_row now w tok e acc j) = JLeased"
  "j_lease_token (claimed_row now w tok e acc j) = Some tok"
  "j_lease_version (claimed_row now w tok e acc j) = j_lease_version j + 1"
  "j_lease_owner (claimed_row now w tok e acc j) = Some w"
  "j_account_id (claimed_row now w tok e acc j) = acc"
  "j_stage (claimed_row now w tok e acc j) = claimed_stage (j_stage j)"
  "j_image_urls (claimed_row now w tok e acc j) = j_image_urls j"
  by (simp_all add: claimed_row_def increment_attempt_def)

lemma claimed_row_job_ok: "job_ok j \<Longrightarrow> job_ok (claimed_row now w tok e acc j)"
  by (auto simp: job_ok_def claimed_row_def increment_attempt_def)

text \<open>The task of a claimed job is running, whatever its other jobs do.\<close>

lemma task_ok_running:
  assumes "t_succeeded_jobs u = t_succeeded_jobs t" "t_failed_jobs u = t_failed_jobs t"
    "t_status u = TRunning"
    and "count_list ss JSuccess = count_list ss' JSuccess" "count_list ss JFailed = count_list ss' JFailed"
    and "\<not> all_terminal ss" and "task_ok t ss'"
  shows "task_ok u ss"
  using assms by (simp add: task_ok_def)

definition step_ok :: "claim_step \<Rightarrow> bool" where
  "step_ok r = (case r of Stop _ db \<Rightarrow> store_ok db
                | Again st \<Rightarrow> store_ok (cs_db st) \<and> store_ok (cs_committed st))"

definition no_lease :: "image_job \<Rightarrow> queue_db \<Rightarrow> bool" where
  "no_lease j db \<longleftrightarrow> (\<forall>l \<in> set (db_leases db). l_job_id l \<noteq> j_id j)"

lemma claim_cas_wins:
  assumes "store_ok db" and "j \<in> set (db_jobs db)" and "waiting_job (j_status j)"
  shows "filter (\<lambda>k. j_id k = j_id j \<and> waiting_job (j_status k) \<and> j_lease_version k = j_lease_version j)
           (db_jobs db) = [j]"
proof -
  have "distinct (map j_id (db_jobs db))"
    using assms(1) by (simp add: store_ok_def store_ok_except_def keys_ok_def)
  from filter_key [OF this assms(2),
      of "\<lambda>k. waiting_job (j_status k) \<and> j_lease_version k = j_lease_version j"] assms(3)
  show ?thesis by simp
qed

lemma claim_cas_row:
  assumes "store_ok db" and "j \<in> set (db_jobs db)" and "waiting_job (j_status j)"
  shows "upd_rows (\<lambda>k. j_id k = j_id j \<and> waiting_job (j_status k) \<and> j_lease_version k = j_lease_version j)
           (\<lambda>_. row) (db_jobs db) = upd_rows (\<lambda>k. j_id k = j_id j) (\<lambda>_. row) (db_jobs db)"
  by (rule upd_rows_cong) (use assms in \<open>auto dest: job_unique [of "{}"] simp: store_ok_def\<close>)

text \<open>The lease and the job's row belong together: they enter the store in one step.\<close>

lemma ok_claim_row:
  assumes ok: "store_ok db" and j: "j \<in> set (db_jobs db)" "waiting_job (j_status j)"
    and free: "no_lease j db"
    and row: "job_ok row" "j_id row = j_id j" "j_task_id row = j_task_id j"
    and new: "new = [] \<or> (\<exists>l. new = [l] \<and> l_job_id l = j_id j \<and> lease_matches row l \<and>
                lease_key l \<notin> lease_key ` set (db_leases db))"
  shows "store_ok_except {j_task_id j}
    (db\<lparr>db_leases := db_leases db @ new, db_jobs := upd_rows (\<lambda>k. j_id k = j_id j) (\<lambda>_. row) (db_jobs db)\<rparr>)"
proof -
  let ?db1 = "upd_job (j_id j) (\<lambda>_. row) db"
  have ok1: "store_ok_except {j_task_id j} ?db1"
    by (rule ok_upd_job_inactive [OF store_ok_exceptI [OF ok] j(1)])
       (use row free in \<open>auto simp: no_lease_def\<close>)
  have eq: "db\<lparr>db_leases := db_leases db @ new, db_jobs := upd_rows (\<lambda>k. j_id k = j_id j) (\<lambda>_. row) (db_jobs db)\<rparr>
      = ?db1\<lparr>db_leases := db_leases ?db1 @ new\<rparr>"
    by (simp add: upd_job_def)
  from new show ?thesis
  proof
    assume "new = []"
    moreover have "?db1\<lparr>db_leases := db_leases ?db1 @ []\<rparr> = ?db1" by simp
    ultimately show ?thesis using ok1 unfolding eq by (simp del: store_projections)
  next
    assume "\<exists>l. new = [l] \<and> l_job_id l = j_id j \<and> lease_matches row l \<and>
                lease_key l \<notin> lease_key ` set (db_leases db)"
    then obtain l where l: "new = [l]" "l_job_id l = j_id j" "lease_matches row l"
      "lease_key l \<notin> lease_key ` set (db_leases db)" by blast
    have "row \<in> set (db_jobs ?db1)"
      using j(1) by (auto simp: db_jobs_upd_job upd_rows_def)
    with l row(2) have "lease_ok ?db1 l" by (auto simp: lease_ok_def)
    with ok_add_lease [OF ok1 this] l free show ?thesis
      unfolding eq by (simp add: no_lease_def)
  qed
qed

lemma finish_claim_ok:
  assumes ok: "store_ok db" "store_ok (cs_committed st)"
    and j: "j \<in> set (db_jobs db)" "waiting_job (j_status j)" and free: "no_lease j db"
    and new: "slot < 0 \<and> new = [] \<or>
      (\<exists>c s. slot = int s \<and> acc = ac_account_id c \<and> (acc, s) \<notin> lease_key ` set (db_leases db) \<and>
        new = [slot_lease c s j (cr_worker_id req) token (j_lease_version j + 1)
                 (cr_claim_time req + secs (lease_seconds cfg)) (cr_claim_time req)])"
  shows "step_ok (finish_claim cfg req token j acc slot st (db\<lparr>db_leases := db_leases db @ new\<rparr>))"
proof -
  let ?now = "cr_claim_time req" and ?w = "cr_worker_id req"
  let ?acc = "if 0 \<le> slot then Some acc else j_account_id j"
  let ?row = "claimed_row ?now ?w token (?now + secs (lease_seconds cfg)) ?acc j"
  let ?db1 = "db\<lparr>db_leases := db_leases db @ new,
      db_jobs := upd_rows (\<lambda>k. j_id k = j_id j) (\<lambda>_. ?row) (db_jobs db)\<rparr>"
  let ?run = "\<lambda>t. t\<lparr>t_status := TRunning, t_wait_reason := None,
      t_started_at := or_else (t_started_at t) (Some ?now), t_updated_at := ?now,
      t_version := t_version t + 1\<rparr>"
  have jok: "job_ok j" using ok(1) j(1) by (auto simp: store_ok_def intro: store_job_ok)
  have new': "new = [] \<or> (\<exists>l. new = [l] \<and> l_job_id l = j_id j \<and> lease_matches ?row l \<and>
      lease_key l \<notin> lease_key ` set (db_leases db))"
    using new by (auto simp: slot_lease_def lease_matches_def lease_key_def)
  have ok1: "store_ok_except {j_task_id j} ?db1"
    by (rule ok_claim_row [OF ok(1) j free]) (use jok new' in \<open>auto intro: claimed_row_job_ok\<close>)
  have "store_ok_except {} (upd_task (j_task_id j) ?run ?db1)"
  proof (rule ok_upd_task [OF ok1])
    fix t assume t: "t \<in> set (db_tasks ?db1)" "t_id t = j_task_id j"
    have cnt: "count_list (statuses_of ?db1 (j_task_id j)) s = count_list (statuses_of db (j_task_id j)) s"
      if "terminal_job s" for s
    proof -
      have eq: "statuses_of ?db1 i = statuses_of (upd_job (j_id j) (\<lambda>_. ?row) db) i" for i
        by (simp add: statuses_of_def upd_job_def)
      from that j(2) have "s \<noteq> JLeased" "s \<noteq> j_status j"
        by (auto simp: terminal_job_def waiting_job_def)
      with status_count_upd_job [OF store_ok_exceptI [OF ok(1)] j(1), where f = "\<lambda>_. ?row" and s = s]
      show ?thesis by (simp add: eq flip: status_count_jobs_of)
    qed
    have "?row \<in> set (db_jobs ?db1)" using j(1) by (auto simp: upd_rows_def)
    then have "JLeased \<in> set (statuses_of ?db1 (j_task_id j))" by (force simp: statuses_of_def)
    then have nt: "\<not> all_terminal (statuses_of ?db1 (j_task_id j))"
      using all_terminal_def [of "statuses_of ?db1 (j_task_id j)"] terminal_job_def [of JLeased]
      by blast
    have "task_ok t (statuses_of db (j_task_id j))"
      using ok(1) t by (auto simp: store_ok_def store_ok_except_def)
    then show "task_frame t (?run t) \<and> (j_task_id j \<in> {} \<or> task_ok (?run t) (statuses_of ?db1 (j_task_id j)))"
      using cnt nt by (auto simp: task_frame_def intro: task_ok_running)
  qed auto
  then have fin: "store_ok (upd_task (j_task_id j) ?run ?db1)" by (simp add: store_ok_def)
  show ?thesis
    using fin ok(2) claim_cas_wins [OF ok(1) j] claim_cas_row [OF ok(1) j]
    by (simp add: finish_claim_def Let_def step_ok_def store_ok_def)
qed

section \<open>The iteration and the loop\<close>

lemma ok_clear_orphan: "store_ok db \<Longrightarrow> store_ok (clear_orphan_account_leases i db)"
  by (simp add: store_ok_def clear_orphan_account_leases_def ok_drop_leases)

lemma ok_clear_expired: "store_ok db \<Longrightarrow> store_ok (clear_expired_inactive_account_leases now db)"
  by (simp add: store_ok_def clear_expired_inactive_account_leases_def ok_drop_leases)

lemma no_lease_orphan: "no_lease j (clear_orphan_account_leases (j_id j) db)"
  by (simp add: no_lease_def clear_orphan_account_leases_def db_leases_drop)

lemma set_wait_reason_ok: "store_ok db \<Longrightarrow> store_ok (set_wait_reason now r tid db)"
  unfolding store_ok_def set_wait_reason_def
  by (rule ok_upd_task_same) (auto simp: task_same_def task_frame_def)

lemma fail_unrecoverable_ok:
  assumes "store_ok db" and "j \<in> set (db_jobs db)" and "waiting_job (j_status j)" and "no_lease j db"
  shows "store_ok (fail_unrecoverable clk now code m j db)"
  unfolding fail_unrecoverable_def
proof (rule settle_ok, unfold ok_log_event, rule ok_upd_job_inactive [OF store_ok_exceptI [OF assms(1)] assms(2)])
  have "job_ok j" using assms by (auto simp: store_ok_def intro: store_job_ok)
  with assms(3) show "job_ok (unrecoverable_row now code m j)"
    by (auto simp: job_ok_def unrecoverable_row_def waiting_job_def)
qed (use assms(4) in \<open>auto simp: unrecoverable_row_def no_lease_def\<close>)

lemma claim_iteration_ok:
  assumes ok: "store_ok (cs_db st)" "store_ok (cs_committed st)"
  shows "step_ok (claim_iteration cfg req clk token st)"
proof (cases "claimable_job_statement (cr_claim_time req) [] (cs_after st) (cs_recovery_pass st)
    (\<not> cs_recovery_pass st \<and> \<not> cr_recovery_only req) (cs_db st)")
  case None
  with ok show ?thesis by (simp add: claim_iteration_def step_ok_def)
next
  case (Some j)
  let ?db = "clear_orphan_account_leases (j_id j) (cs_db st)"
  have j: "j \<in> set (db_jobs ?db)" "waiting_job (j_status j)"
    using next_jobD(1,2) [OF Some] by (simp_all add: claimable_job_def)
  have okd: "store_ok ?db" by (rule ok_clear_orphan [OF ok(1)])
  note free = no_lease_orphan [of j "cs_db st"]
  have local: "step_ok (finish_claim cfg req token j acc s st ?db)" if "s < 0" for acc s
    using finish_claim_ok [OF okd ok(2) j free, of s "[]"] that by simp
  show ?thesis
  proof (cases "claim_route_of cfg req ?db j")
    case (RAccounts restricted cands)
    let ?acq = "acquire_first_slot (ranked_candidates req j ?db cands) (cr_account_concurrency req) j
       (cr_worker_id req) token (j_lease_version j + 1)
       (cr_claim_time req + secs (lease_seconds cfg)) (cr_claim_time req) ?db"
    show ?thesis
    proof (cases ?acq)
      case (Inl e)
      with Some RAccounts ok show ?thesis by (simp add: claim_iteration_def Let_def step_ok_def)
    next
      case (Inr p)
      obtain r db1 where p: "p = (r, db1)" by (cases p)
      note acq = acquire_firstD [OF Inr [unfolded p]]
      show ?thesis
      proof (cases r)
        case None
        with acq okd have "store_ok (set_wait_reason now q tid db1)" for now q tid
          by (simp add: set_wait_reason_ok)
        with Some RAccounts Inr p None show ?thesis
          by (simp add: claim_iteration_def Let_def step_ok_def commit_and_continue_def)
      next
        case (Some cs)
        obtain c s where cs: "cs = (c, s)" by (cases cs)
        with acq Some have "(ac_account_id c, s) \<notin> lease_key ` set (db_leases ?db)"
          and db1: "db1 = ?db\<lparr>db_leases := db_leases ?db @
            [slot_lease c s j (cr_worker_id req) token (j_lease_version j + 1)
               (cr_claim_time req + secs (lease_seconds cfg)) (cr_claim_time req)]\<rparr>"
          by simp_all
        then have "step_ok (finish_claim cfg req token j (ac_account_id c) (int s) st db1)"
          unfolding db1 by (intro finish_claim_ok [OF okd ok(2) j free]) auto
        with \<open>claimable_job_statement _ _ _ _ _ _ = _\<close> RAccounts Inr p Some cs show ?thesis
          by (simp add: claim_iteration_def Let_def)
      qed
    qed
  qed (use Some okd j free local set_wait_reason_ok [OF okd] fail_unrecoverable_ok [OF okd j free] in
       \<open>simp_all add: claim_iteration_def Let_def step_ok_def commit_and_continue_def\<close>)
qed

lemma claim_loop_ok:
  "store_ok (cs_db st) \<Longrightarrow> store_ok (cs_committed st) \<Longrightarrow> store_ok (snd (claim_loop cfg req clk tok n st))"
proof (induction cfg req clk tok n st rule: claim_loop.induct)
  case (1 cfg req clk tok n st)
  note step = claim_iteration_ok [OF 1(2,3), of cfg req clk "tok n"]
  show ?case
  proof (cases "claim_iteration cfg req clk (tok n) st")
    case (Stop r db)
    with step show ?thesis by (simp add: claim_loop.simps [of _ _ _ _ n] step_ok_def)
  next
    case (Again st')
    with step 1(1) [OF Again] show ?thesis by (simp add: claim_loop.simps [of _ _ _ _ n] step_ok_def)
  qed
qed

lemma claim_once_ok: "store_ok db \<Longrightarrow> store_ok (snd (claim_next_job_once cfg req clk tok db))"
  by (auto simp: claim_next_job_once_def Let_def intro!: claim_loop_ok ok_clear_expired)

lemma claim_next_job_ok: "store_ok db \<Longrightarrow> store_ok (snd (claim_next_job cfg req clk tok db))"
proof -
  have "store_ok db \<Longrightarrow> store_ok (snd (claim_attempts n cfg req clk tok db))" for n
  proof (induction n arbitrary: db)
    case (Suc n)
    from claim_once_ok [OF Suc.prems, of cfg req clk "tok n"] Suc.IH show ?case
      by (auto split: prod.splits)
  qed simp
  then show "store_ok db \<Longrightarrow> ?thesis" by (simp add: claim_next_job_def)
qed

section \<open>What a claim hands out\<close>

definition claim_for ::
  "queue_settings \<Rightarrow> claim_request \<Rightarrow> uuid \<Rightarrow> image_job \<Rightarrow> uuid option \<Rightarrow> int \<Rightarrow> claimed_job" where
  "claim_for cfg req token j account slot =
     (let expires = cr_claim_time req + secs (lease_seconds cfg);
          row = claimed_row (cr_claim_time req) (cr_worker_id req) token expires account j
      in \<lparr>c_job = row, c_lease_token = token, c_lease_version = j_lease_version j + 1,
          c_lease_owner = cr_worker_id req, c_lease_expires_at = expires, c_account_id = account,
          c_account_slot = slot\<rparr>)"

text \<open>
  The claim \<open>c\<close> was made for the row \<open>j\<close> and stands in \<open>db\<close>: the row is replaced by the
  claimed one, and a slot that is not negative is held by exactly the lease of this claim.
\<close>

definition claim_stands ::
  "queue_settings \<Rightarrow> claim_request \<Rightarrow> image_job \<Rightarrow> claimed_job \<Rightarrow> queue_db \<Rightarrow> bool" where
  "claim_stands cfg req j c db \<longleftrightarrow>
     (\<exists>token account slot. c = claim_for cfg req token j account slot) \<and>
     job_row db (j_id j) = Some (c_job c) \<and>
     (if 0 \<le> c_account_slot c
      then c_account_slot c < max 1 (cr_account_concurrency req) \<and>
           (\<exists>l \<in> set (db_leases db). l_job_id l = j_id j \<and> Some (l_account_id l) = c_account_id c \<and>
              int (l_slot_no l) = c_account_slot c \<and> l_lease_token l = c_lease_token c \<and>
              l_lease_version l = c_lease_version c)
      else (\<forall>l \<in> set (db_leases db). l_job_id l \<noteq> j_id j) \<and> c_account_id c = j_account_id j)"

lemma finish_claim_stop:
  assumes "finish_claim cfg req token j acc slot st db = Stop (Inr (Some c)) db'"
  shows "c = claim_for cfg req token j (if 0 \<le> slot then Some acc else j_account_id j) slot"
    and "db_leases db' = db_leases db"
    and "db_jobs db' = upd_rows (\<lambda>k. j_id k = j_id j \<and> waiting_job (j_status k) \<and>
           j_lease_version k = j_lease_version j) (\<lambda>_. c_job c) (db_jobs db)"
  using assms
  by (auto simp: finish_claim_def claim_for_def commit_and_continue_def Let_def split: if_splits)

lemma finish_claim_stands:
  assumes ok: "store_ok db0" and j: "j \<in> set (db_jobs db0)" "waiting_job (j_status j)"
    and free: "no_lease j db0" and jobs: "db_jobs db = db_jobs db0"
    and new: "slot < 0 \<and> db_leases db = db_leases db0 \<or>
      (\<exists>c s. slot = int s \<and> s < nat (max 1 (cr_account_concurrency req)) \<and> acc = ac_account_id c \<and>
        db_leases db = db_leases db0 @ [slot_lease c s j (cr_worker_id req) token (j_lease_version j + 1)
           (cr_claim_time req + secs (lease_seconds cfg)) (cr_claim_time req)])"
    and fin: "finish_claim cfg req token j acc slot st db = Stop (Inr (Some c)) db'"
  shows "claim_stands cfg req j c db'"
proof -
  note c = finish_claim_stop(1) [OF fin] and leases = finish_claim_stop(2) [OF fin]
  have jobs': "db_jobs db' = upd_rows (\<lambda>k. j_id k = j_id j) (\<lambda>_. c_job c) (db_jobs db0)"
    unfolding finish_claim_stop(3) [OF fin] jobs by (rule claim_cas_row [OF ok j])
  have "j_id (c_job c) = j_id j" by (simp add: c claim_for_def Let_def)
  then have row: "job_row db' (j_id j) = Some (c_job c)"
    using job_row_unique [OF store_ok_exceptI [OF ok] j(1)]
    by (simp add: job_row_def jobs' find_upd_rows_key)
  show ?thesis
    using row leases new free c
    by (auto simp: claim_stands_def no_lease_def claim_for_def slot_lease_def Let_def)
qed

lemma claim_iteration_stands:
  assumes ok: "store_ok (cs_db st)" and run: "claim_iteration cfg req clk token st = Stop (Inr (Some c)) db'"
  obtains j where "claimable_job_statement (cr_claim_time req) [] (cs_after st) (cs_recovery_pass st)
      (\<not> cs_recovery_pass st \<and> \<not> cr_recovery_only req) (cs_db st) = Some j"
    "claim_stands cfg req j c db'"
proof (cases "claimable_job_statement (cr_claim_time req) [] (cs_after st) (cs_recovery_pass st)
    (\<not> cs_recovery_pass st \<and> \<not> cr_recovery_only req) (cs_db st)")
  case None
  with run show ?thesis by (simp add: claim_iteration_def Let_def split: if_splits)
next
  case (Some j)
  let ?db = "clear_orphan_account_leases (j_id j) (cs_db st)"
  have j: "j \<in> set (db_jobs ?db)" "waiting_job (j_status j)"
    using next_jobD(1,2) [OF Some] by (simp_all add: claimable_job_def)
  note stands = finish_claim_stands [OF ok_clear_orphan [OF ok] j no_lease_orphan]
  have local: "claim_stands cfg req j c db'"
    if "finish_claim cfg req token j acc s st ?db = Stop (Inr (Some c)) db'" "s < 0" for acc s
    by (rule stands [OF _ _ that(1)]) (use that(2) in auto)
  have "claim_stands cfg req j c db'"
  proof (cases "claim_route_of cfg req ?db j")
    case (RAccounts restricted cands)
    let ?acq = "acquire_first_slot (ranked_candidates req j ?db cands) (cr_account_concurrency req) j
       (cr_worker_id req) token (j_lease_version j + 1)
       (cr_claim_time req + secs (lease_seconds cfg)) (cr_claim_time req) ?db"
    from run Some RAccounts obtain ca s db1 where acq: "?acq = Inr (Some (ca, s), db1)"
      and fin: "finish_claim cfg req token j (ac_account_id ca) (int s) st db1 = Stop (Inr (Some c)) db'"
      by (auto simp: claim_iteration_def Let_def commit_and_continue_def
          split: sum.splits option.splits prod.splits if_splits)
    from acquire_firstD [OF acq] show ?thesis
      by (intro stands [OF _ _ fin]) auto
  qed (use run Some in \<open>auto simp: claim_iteration_def Let_def commit_and_continue_def intro: local\<close>)
  with Some that show ?thesis by blast
qed

text \<open>The loop neither makes a job claimable nor changes one that stays claimable.\<close>

definition waiting_rows :: "queue_db \<Rightarrow> image_job set" where
  "waiting_rows db = {j \<in> set (db_jobs db). waiting_job (j_status j)}"

definition cancel_flags :: "queue_db \<Rightarrow> (uuid \<times> bool) list" where
  "cancel_flags db = map (\<lambda>t. (t_id t, t_cancel_requested t)) (db_tasks db)"

definition no_new_work :: "queue_db \<Rightarrow> queue_db \<Rightarrow> bool" where
  "no_new_work db db' \<longleftrightarrow> waiting_rows db' \<subseteq> waiting_rows db \<and> cancel_flags db' = cancel_flags db"

lemma no_new_work_trans: "no_new_work a b \<Longrightarrow> no_new_work b c \<Longrightarrow> no_new_work a c"
  by (auto simp: no_new_work_def)

lemma no_new_work_same: "db_jobs db' = db_jobs db \<Longrightarrow> db_tasks db' = db_tasks db \<Longrightarrow> no_new_work db db'"
  by (simp add: no_new_work_def waiting_rows_def cancel_flags_def)

lemma no_new_work_upd_task:
  "(\<And>t. t_id (f t) = t_id t \<and> t_cancel_requested (f t) = t_cancel_requested t) \<Longrightarrow>
   no_new_work db (upd_task i f db)"
  by (simp add: no_new_work_def waiting_rows_def cancel_flags_def db_tasks_upd_task map_upd_rows)

lemma no_new_work_fail: "no_new_work db (fail_unrecoverable clk now code m j db)"
proof -
  have "no_new_work db (upd_job (j_id j) (unrecoverable_row now code m) db)"
    by (auto simp: no_new_work_def waiting_rows_def cancel_flags_def db_jobs_upd_job set_upd_rows
        unrecoverable_row_def waiting_job_def)
  moreover have "no_new_work db1 (aggregate_task clk i (log_event t u k a fs ts d db1))"
    for db1 i t u k a fs ts d
  proof (rule no_new_work_trans [of _ "log_event t u k a fs ts d db1"])
    show "no_new_work db1 (log_event t u k a fs ts d db1)" by (rule no_new_work_same) simp_all
    show "no_new_work (log_event t u k a fs ts d db1) (aggregate_task clk i (log_event t u k a fs ts d db1))"
      unfolding aggregate_task_def by (rule no_new_work_upd_task) simp
  qed
  ultimately show ?thesis unfolding fail_unrecoverable_def by (rule no_new_work_trans)
qed

lemma no_new_work_wait:
  assumes "db_jobs db1 = db_jobs db" "db_tasks db1 = db_tasks db"
  shows "no_new_work db (set_wait_reason now r i db1)"
proof (rule no_new_work_trans [of _ db1])
  show "no_new_work db db1" using assms by (rule no_new_work_same)
  show "no_new_work db1 (set_wait_reason now r i db1)"
    unfolding set_wait_reason_def by (rule no_new_work_upd_task) simp
qed

lemma commit_no_new_work:
  "commit_and_continue db1 j st = Again st' \<Longrightarrow> no_new_work db db1 \<Longrightarrow> no_new_work db (cs_db st')"
  by (auto simp: commit_and_continue_def)

lemma finish_no_new_work:
  assumes "finish_claim cfg req token j acc slot st db1 = Again st'"
    and "db_jobs db1 = db_jobs db" "db_tasks db1 = db_tasks db"
  shows "no_new_work db (cs_db st')"
proof -
  from assms(1) obtain p where "commit_and_continue db1 j st = Again st' \<or>
      commit_and_continue (drop_leases p db1) j st = Again st'"
    by (auto simp: finish_claim_def Let_def split: if_splits)
  then show ?thesis
  proof
    assume "commit_and_continue db1 j st = Again st'"
    then show ?thesis by (rule commit_no_new_work) (use assms(2,3) in \<open>simp add: no_new_work_same\<close>)
  next
    assume "commit_and_continue (drop_leases p db1) j st = Again st'"
    then show ?thesis by (rule commit_no_new_work) (use assms(2,3) in \<open>simp add: no_new_work_same\<close>)
  qed
qed

lemma claim_iteration_no_new_work:
  assumes "claim_iteration cfg req clk token st = Again st'"
  shows "no_new_work (cs_db st) (cs_db st')"
proof (cases "claimable_job_statement (cr_claim_time req) [] (cs_after st) (cs_recovery_pass st)
    (\<not> cs_recovery_pass st \<and> \<not> cr_recovery_only req) (cs_db st)")
  case None
  with assms show ?thesis
    by (auto simp: claim_iteration_def Let_def split: if_splits intro: no_new_work_same)
next
  case (Some j)
  let ?db = "clear_orphan_account_leases (j_id j) (cs_db st)"
  have fail: "no_new_work (cs_db st) (fail_unrecoverable clk now code m j ?db)" for now code m
    by (rule no_new_work_trans [OF no_new_work_same no_new_work_fail]) simp_all
  have wait: "no_new_work (cs_db st) (set_wait_reason now r i db1)"
    if "db_jobs db1 = db_jobs ?db \<and> db_tasks db1 = db_tasks ?db" for now r i db1
    using that by (intro no_new_work_wait) simp_all
  show ?thesis
  proof (cases "claim_route_of cfg req ?db j")
    case (RAccounts restricted cands)
    let ?acq = "acquire_first_slot (ranked_candidates req j ?db cands) (cr_account_concurrency req) j
       (cr_worker_id req) token (j_lease_version j + 1)
       (cr_claim_time req + secs (lease_seconds cfg)) (cr_claim_time req) ?db"
    show ?thesis
    proof (cases ?acq)
      case (Inl e)
      with assms Some RAccounts show ?thesis by (simp add: claim_iteration_def Let_def)
    next
      case (Inr p)
      obtain r db1 where p: "p = (r, db1)" by (cases p)
      have same: "db_jobs db1 = db_jobs ?db \<and> db_tasks db1 = db_tasks ?db"
        by (rule acquire_first_jobs [OF Inr [unfolded p]])
      show ?thesis
      proof (cases r)
        case None
        with assms Some RAccounts Inr p show ?thesis
          by (auto simp: claim_iteration_def Let_def split: if_splits
              elim!: commit_no_new_work intro!: wait [OF same])
      next
        case (Some q)
        obtain c s where "q = (c, s)" by (cases q)
        with Some assms \<open>claimable_job_statement _ _ _ _ _ _ = _\<close> RAccounts Inr p
        have "finish_claim cfg req token j (ac_account_id c) (int s) st db1 = Again st'"
          by (simp add: claim_iteration_def Let_def)
        then show ?thesis by (rule finish_no_new_work) (use same in simp_all)
      qed
    qed
  qed (use assms Some in \<open>auto simp: claim_iteration_def Let_def
         elim!: commit_no_new_work finish_no_new_work intro!: fail wait\<close>)
qed

lemma claimable_before:
  assumes "no_new_work db db'" and "claimable_job now ex after r g db' j" and "j \<in> set (db_jobs db')"
  shows "j \<in> set (db_jobs db) \<and> claimable_job now ex None r g db j"
proof -
  have "j \<in> waiting_rows db'" using assms(2,3) by (simp add: waiting_rows_def claimable_job_def)
  then have w: "j \<in> waiting_rows db" using assms(1) by (auto simp: no_new_work_def)
  from assms(2) have "(j_task_id j, False) \<in> set (cancel_flags db')"
    by (force simp: claimable_job_def cancel_flags_def)
  then have "(j_task_id j, False) \<in> set (cancel_flags db)" using assms(1) by (simp add: no_new_work_def)
  with w assms(2) show ?thesis
    by (fastforce simp: claimable_job_def cancel_flags_def waiting_rows_def)
qed

lemma claim_loop_stands:
  assumes "store_ok (cs_db st)" "store_ok (cs_committed st)" "no_new_work db (cs_db st)"
    and "claim_loop cfg req clk tok n st = (Inr (Some c), db')"
  shows "\<exists>j pass. j \<in> set (db_jobs db) \<and>
    claimable_job (cr_claim_time req) [] None pass (\<not> pass \<and> \<not> cr_recovery_only req) db j \<and>
    (pass \<longrightarrow> cs_recovery_pass st) \<and>
    (\<not> pass \<longrightarrow> \<not> cs_recovery_pass st \<or> cr_allow_generation req \<and> \<not> cr_recovery_only req) \<and>
    claim_stands cfg req j c db'"
  using assms
proof (induction cfg req clk tok n st rule: claim_loop.induct)
  case (1 cfg req clk tok n st)
  show ?case
  proof (cases "claim_iteration cfg req clk (tok n) st")
    case (Stop r db1)
    with 1(5) have "claim_iteration cfg req clk (tok n) st = Stop (Inr (Some c)) db'"
      by (simp add: claim_loop.simps [of _ _ _ _ n])
    from claim_iteration_stands [OF 1(2) this] obtain j where
      j: "claimable_job_statement (cr_claim_time req) [] (cs_after st) (cs_recovery_pass st)
        (\<not> cs_recovery_pass st \<and> \<not> cr_recovery_only req) (cs_db st) = Some j" "claim_stands cfg req j c db'"
      by blast
    from claimable_before [OF 1(4) next_jobD(2,1) [OF j(1)]] j(2) show ?thesis by blast
  next
    case (Again st')
    with claim_iteration_ok [OF 1(2,3), of cfg req clk "tok n"]
    have ok: "store_ok (cs_db st')" "store_ok (cs_committed st')" by (simp_all add: step_ok_def)
    have nn: "no_new_work db (cs_db st')"
      by (rule no_new_work_trans [OF 1(4) claim_iteration_no_new_work [OF Again]])
    have rest: "claim_loop cfg req clk tok (Suc n) st' = (Inr (Some c), db')"
      using 1(5) Again by (simp add: claim_loop.simps [of _ _ _ _ n])
    have pass: "cs_recovery_pass st' = cs_recovery_pass st \<or>
        cs_recovery_pass st \<and> \<not> cs_recovery_pass st' \<and> cr_allow_generation req \<and> \<not> cr_recovery_only req"
      by (rule claim_iteration_pass [OF Again])
    from 1(1) [OF Again ok nn rest] pass show ?thesis by blast
  qed
qed

section \<open>No collision is left to retry\<close>

lemma claim_iteration_no_integrity:
  assumes "claim_iteration cfg req clk token st = Stop r db'"
  shows "r \<noteq> Inl IntegrityError"
proof (cases "claimable_job_statement (cr_claim_time req) [] (cs_after st) (cs_recovery_pass st)
    (\<not> cs_recovery_pass st \<and> \<not> cr_recovery_only req) (cs_db st)")
  case None
  with assms show ?thesis
    by (auto simp: claim_iteration_def Let_def split: if_splits)
next
  case (Some j)
  let ?db = "clear_orphan_account_leases (j_id j) (cs_db st)"
  have fin: "finish_claim cfg req token j acc s st db1 = Stop r db' \<Longrightarrow> r \<noteq> Inl IntegrityError" for acc s db1
    by (auto simp: finish_claim_def commit_and_continue_def Let_def split: if_splits)
  have "acquire_first_slot cs n j w t v e now ?db \<noteq> Inl err" for cs n w t v e now err
    using no_lease_orphan [of j "cs_db st"] by (intro acquire_first_no_error) (simp add: no_lease_def)
  with assms Some fin show ?thesis
    by (auto simp: claim_iteration_def Let_def commit_and_continue_def
        split: claim_route.splits sum.splits option.splits prod.splits if_splits)
qed

lemma claim_loop_no_integrity: "fst (claim_loop cfg req clk tok n st) \<noteq> Inl IntegrityError"
proof (induction cfg req clk tok n st rule: claim_loop.induct)
  case (1 cfg req clk tok n st)
  show ?case
  proof (cases "claim_iteration cfg req clk (tok n) st")
    case (Stop r db)
    with claim_iteration_no_integrity [OF Stop] show ?thesis
      by (simp add: claim_loop.simps [of _ _ _ _ n])
  next
    case (Again st')
    with 1 show ?thesis by (simp add: claim_loop.simps [of _ _ _ _ n])
  qed
qed

lemma claim_next_job_first_attempt:
  "claim_next_job cfg req clk tok db = claim_next_job_once cfg req clk (tok 4) db"
proof -
  have "fst (claim_next_job_once cfg req clk (tok 4) db) \<noteq> Inl IntegrityError"
    using claim_loop_no_integrity by (auto simp: claim_next_job_once_def Let_def)
  moreover have "claim_next_job cfg req clk tok db = claim_attempts (Suc 4) cfg req clk tok db"
    by (simp add: claim_next_job_def flip: numeral_eq_Suc)
  ultimately show ?thesis
    unfolding claim_attempts.simps by (cases "claim_next_job_once cfg req clk (tok 4) db") simp
qed

lemma find_key_claim:
  assumes "store_ok db" and "k \<in> set (db_jobs db)" and "holds_claim c k"
  shows "claimed_job_row db c = Some k"
proof (cases "claimed_job_row db c")
  case None
  with assms show ?thesis by (auto simp: claimed_job_row_def dest: find_NoneD)
next
  case (Some m)
  then have "m \<in> set (db_jobs db)" "holds_claim c m" by (auto dest: claimed_job_rowD)
  with assms have "m = k"
    by (intro job_unique [of "{}" db]) (auto simp: store_ok_def holds_claim_def)
  with Some show ?thesis by simp
qed

lemma claim_next_job_stands:
  assumes "store_ok db" and "claim_next_job cfg req clk tok db = (Inr (Some c), db')"
  shows "\<exists>j \<in> set (db_jobs db). \<exists>pass.
    claimable_job (cr_claim_time req) [] None pass (\<not> pass \<and> \<not> cr_recovery_only req) db j \<and>
    (pass \<longrightarrow> cr_prefer_recovery req \<or> cr_recovery_only req) \<and> (\<not> pass \<longrightarrow> cr_allow_generation req) \<and>
    claim_stands cfg req j c db' \<and> store_ok db'"
proof -
  let ?db1 = "clear_expired_inactive_account_leases (cr_claim_time req) db"
  let ?st = "\<lparr>cs_db = ?db1, cs_committed = db,
    cs_recovery_pass = cr_prefer_recovery req \<or> cr_recovery_only req, cs_after = None\<rparr>"
  have once: "claim_next_job_once cfg req clk (tok 4) db = (Inr (Some c), db')"
    using assms(2) by (simp add: claim_next_job_first_attempt)
  then have go: "cr_prefer_recovery req \<or> cr_recovery_only req \<or> cr_allow_generation req"
    and loop: "claim_loop cfg req clk (tok 4) 0 ?st = (Inr (Some c), db')"
    by (auto simp: claim_next_job_once_def Let_def split: if_splits)
  have ok: "store_ok (cs_db ?st)" "store_ok (cs_committed ?st)" "no_new_work db (cs_db ?st)"
    using assms(1) by (simp_all add: ok_clear_expired no_new_work_same)
  have "store_ok db'" using claim_next_job_ok [OF assms(1), of cfg req clk tok] assms(2) by simp
  with claim_loop_stands [OF ok loop] go show ?thesis by auto
qed

definition demo_request :: claim_request where
  "demo_request = \<lparr>cr_worker_id = ''w'',
     cr_candidates = [\<lparr>ac_account_id = 7, ac_access_token = ''t'', ac_plan_type = '''', ac_source_type = '''', ac_success = 1, ac_fail = 0\<rparr>],
     cr_account_concurrency = 2, cr_claim_time = 100, cr_allow_generation = True,
     cr_recovery_only = False, cr_prefer_recovery = True, cr_local_available = None,
     cr_allow_unowned = False, cr_expected_instance = ''''\<rparr>"

definition demo_settings :: queue_settings where
  "demo_settings = \<lparr>lease_seconds = 60, claim_max_runtime_seconds = 600,
     recovery_account_timeout_seconds = 600, delivery_grace_seconds = 60,
     terminal_retention_seconds = 3600\<rparr>"

lemma demo_claim_next:
  obtains c db' where "claim_next_job demo_settings demo_request 100 (\<lambda>_ n. 500 + n) demo_db = (Inr (Some c), db')"
    "c_account_slot c = 1" "j_id (c_job c) = 11"
proof -
  let ?r = "claim_next_job demo_settings demo_request 100 (\<lambda>_ n. 500 + n) demo_db"
  have "case fst ?r of Inr (Some c) \<Rightarrow> c_account_slot c = 1 \<and> j_id (c_job c) = 11 | _ \<Rightarrow> False"
    by code_simp
  then obtain c where "fst ?r = Inr (Some c)" "c_account_slot c = 1" "j_id (c_job c) = 11"
    by (auto split: sum.splits option.splits)
  with that show ?thesis by (metis prod.collapse)
qed

lemma demo_job_11: "j \<in> set (db_jobs demo_db) \<Longrightarrow> j_id j = 11 \<Longrightarrow> j = demo_queued"
  by (auto simp: demo_db_def empty_db_def demo_running_def)

section \<open>Properties\<close>

text \<open>
  Property C10. What a claim hands out: the job was waiting, due and not canceled in the
  database the claim started from, and of a stage the request admits. It now stands leased
  to this worker under the claim's token with the next lease version and one attempt more; a
  claim with a slot holds exactly that slot of the account, below the concurrency, and a
  claim without one holds no account.
\<close>

theorem claim_hands_out_claimable_job:
  assumes "store_ok db" and "claim_next_job cfg req clk tok db = (Inr (Some c), db')"
  shows "\<exists>j \<in> set (db_jobs db). \<exists>pass.
    claimable_job (cr_claim_time req) [] None pass (\<not> pass \<and> \<not> cr_recovery_only req) db j \<and>
    (pass \<longrightarrow> cr_prefer_recovery req \<or> cr_recovery_only req) \<and> (\<not> pass \<longrightarrow> cr_allow_generation req) \<and>
    claim_stands cfg req j c db' \<and> store_ok db'"
  by (rule claim_next_job_stands [OF assms])

theorem claim_hands_out_claimable_job_witness:
  "\<exists>c db'. claim_next_job demo_settings demo_request 100 (\<lambda>_ n. 500 + n) demo_db = (Inr (Some c), db') \<and>
     c_account_slot c = 1 \<and> claim_stands demo_settings demo_request demo_queued c db' \<and> store_ok db'"
proof -
  from demo_claim_next obtain c db'
    where r: "claim_next_job demo_settings demo_request 100 (\<lambda>_ n. 500 + n) demo_db = (Inr (Some c), db')"
      "c_account_slot c = 1" "j_id (c_job c) = 11" .
  from claim_hands_out_claimable_job [OF demo_ok r(1)] obtain j where
    j: "j \<in> set (db_jobs demo_db)" "claim_stands demo_settings demo_request j c db'" "store_ok db'"
    by blast
  then have "j_id j = 11" using r(3) by (auto simp: claim_stands_def claim_for_def Let_def)
  with j(1) have "j = demo_queued" by (rule demo_job_11)
  with r j show ?thesis by blast
qed

text \<open>
  Claim order: within a pass the job a claim returns is the first in the order
  of availability, creation, ordinal and identifier among the claimable jobs behind the
  cursor; a job is only passed over after its own iteration put it behind the cursor.
\<close>

theorem claim_in_order:
  assumes "store_ok (cs_db st)" and "claim_iteration cfg req clk token st = Stop (Inr (Some c)) db'"
    and "k \<in> set (db_jobs (cs_db st))"
    and "claimable_job (cr_claim_time req) [] (cs_after st) (cs_recovery_pass st)
           (\<not> cs_recovery_pass st \<and> \<not> cr_recovery_only req) (cs_db st) k"
  shows "job_sort_key (c_job c) \<le> job_sort_key k"
proof -
  from claim_iteration_stands [OF assms(1,2)] obtain j where
    j: "claimable_job_statement (cr_claim_time req) [] (cs_after st) (cs_recovery_pass st)
      (\<not> cs_recovery_pass st \<and> \<not> cr_recovery_only req) (cs_db st) = Some j" "claim_stands cfg req j c db'"
    by blast
  have "job_sort_key (c_job c) = job_sort_key j"
    using j(2) by (auto simp: claim_stands_def claim_for_def Let_def job_sort_key_def claimed_row_def
        increment_attempt_def)
  with next_jobD(3) [OF j(1) assms(3,4)] show ?thesis by simp
qed

definition demo_claim_state :: claim_state where
  "demo_claim_state = \<lparr>cs_db = demo_db, cs_committed = demo_db, cs_recovery_pass = False, cs_after = None\<rparr>"

theorem claim_in_order_witness:
  "\<exists>c db'. claim_iteration demo_settings demo_request 100 9 demo_claim_state = Stop (Inr (Some c)) db' \<and>
     job_sort_key (c_job c) \<le> job_sort_key demo_queued"
proof -
  let ?r = "claim_iteration demo_settings demo_request 100 9 demo_claim_state"
  have "case ?r of Stop (Inr (Some c)) _ \<Rightarrow> True | _ \<Rightarrow> False" by code_simp
  then obtain c db' where r: "?r = Stop (Inr (Some c)) db'"
    by (auto split: claim_step.splits sum.splits option.splits)
  have ok: "store_ok (cs_db demo_claim_state)" by (simp add: demo_claim_state_def demo_ok)
  have "demo_queued \<in> set (db_jobs (cs_db demo_claim_state))" by code_simp
  moreover have "claimable_job (cr_claim_time demo_request) [] (cs_after demo_claim_state)
      (cs_recovery_pass demo_claim_state)
      (\<not> cs_recovery_pass demo_claim_state \<and> \<not> cr_recovery_only demo_request) (cs_db demo_claim_state) demo_queued"
    by code_simp
  ultimately show ?thesis using claim_in_order [OF ok r] r by blast
qed

text \<open>
  Property C11. The claim loop makes progress: an iteration that goes on has either left the
  recovery pass for good or has strictly fewer jobs ahead of its cursor, so
  \<open>claim_next_job\<close> returns after finitely many iterations on every database.
\<close>

theorem claim_loop_progress:
  assumes "claim_iteration cfg req clk token st = Again st'"
  shows "cs_recovery_pass st \<and> \<not> cs_recovery_pass st' \<or>
    cs_recovery_pass st' = cs_recovery_pass st \<and> jobs_ahead st' < jobs_ahead st"
  using claim_iteration_again [OF assms] by (blast intro: jobs_ahead_less)

theorem claim_loop_progress_witness:
  "\<exists>st'. claim_iteration demo_settings demo_request 100 9 (demo_claim_state\<lparr>cs_recovery_pass := True\<rparr>) = Again st' \<and>
     \<not> cs_recovery_pass st'"
proof -
  let ?st = "demo_claim_state\<lparr>cs_recovery_pass := True\<rparr>"
  have "case claim_iteration demo_settings demo_request 100 9 ?st of Again st' \<Rightarrow> jobs_ahead st' = jobs_ahead ?st | _ \<Rightarrow> False"
    by code_simp
  then obtain st' where st': "claim_iteration demo_settings demo_request 100 9 ?st = Again st'"
    "jobs_ahead st' = jobs_ahead ?st"
    by (auto split: claim_step.splits)
  from claim_loop_progress [OF st'(1)] st' show ?thesis by auto
qed

text \<open>
  The account follows the remote work: a job with a remote checkpoint whose
  failure does not call for another account is only tried on the account that made the
  checkpoint, and a failure that does call for another one keeps the old account out as
  soon as there is an alternative.
\<close>

theorem claim_route_respects_account:
  assumes "claim_route_of cfg req db j = RAccounts restricted cands" and "j_account_id j = Some a"
  shows "set cands \<subseteq> set (cr_candidates req) \<and>
    (job_can_resume_poll j \<and> \<not> should_switch_claimed_account (j_stage j) (j_error_code j) \<longrightarrow>
       cands \<noteq> [] \<and> (\<forall>c \<in> set cands. ac_account_id c = a)) \<and>
    (should_switch_claimed_account (j_stage j) (j_error_code j) \<and> 1 < length (cr_candidates req) \<longrightarrow>
       (\<forall>c \<in> set cands. ac_account_id c \<noteq> a))"
  using assms
  by (auto simp: claim_route_of_def Let_def split: prod.splits if_splits)

theorem claim_route_respects_account_witness:
  "\<exists>cands. claim_route_of demo_settings demo_request demo_db
       (demo_queued\<lparr>j_account_id := Some 7, j_conversation_id := Some ''cv''\<rparr>) = RAccounts True cands \<and>
     (\<forall>c \<in> set cands. ac_account_id c = 7)"
proof -
  let ?j = "demo_queued\<lparr>j_account_id := Some 7, j_conversation_id := Some ''cv''\<rparr>"
  have r: "claim_route_of demo_settings demo_request demo_db ?j = RAccounts True (cr_candidates demo_request)"
    by code_simp
  have "job_can_resume_poll ?j \<and> \<not> should_switch_claimed_account (j_stage ?j) (j_error_code ?j)"
    by code_simp
  with claim_route_respects_account [OF r, of 7] r show ?thesis by simp
qed

text \<open>
  A claim that is handed back with a refund costs nothing: releasing right
  after the claim restores the three attempt counters of the job, whatever its stage.
\<close>

theorem claim_then_release_refunds:
  assumes "store_ok db" and "claim_stands cfg req j c db"
    and "task_row db (j_task_id j) = Some t" and "\<not> t_cancel_requested t"
  shows "\<exists>k. job_row (snd (release_claim clk c True db)) (j_id j) = Some k \<and> j_status k = JQueued \<and>
    j_generate_attempts k = j_generate_attempts j \<and> j_download_attempts k = j_download_attempts j \<and>
    j_save_attempts k = j_save_attempts j"
proof -
  from assms(2) obtain token account slot where c: "c = claim_for cfg req token j account slot"
    and row: "job_row db (j_id j) = Some (c_job c)"
    by (auto simp: claim_stands_def)
  let ?k = "c_job c"
  have k: "?k \<in> set (db_jobs db)" "j_id ?k = j_id j" "j_task_id ?k = j_task_id j" "holds_claim c ?k"
    using row job_rowD [OF row] by (auto simp: c claim_for_def Let_def holds_claim_def)
  have "claimed_job_row db c = Some ?k"
    using find_key_claim [OF assms(1) k(1,4)] .
  then have "job_row (snd (release_claim clk c True db)) (j_id ?k) = Some (release_row clk False True ?k)"
    using assms(3,4) k row by (simp add: release_claim_def Let_def job_row_upd_job)
  moreover have "j_generate_attempts (refund_occupancy_claim_attempt ?k) = j_generate_attempts j \<and>
      j_download_attempts (refund_occupancy_claim_attempt ?k) = j_download_attempts j \<and>
      j_save_attempts (refund_occupancy_claim_attempt ?k) = j_save_attempts j"
    by (auto simp: c claim_for_def claimed_row_def Let_def refund_occupancy_claim_attempt_def
        increment_attempt_def claimed_stage_def)
  ultimately show ?thesis
    using k(2) by (simp add: release_row_def Let_def clear_job_lease_def)
qed

theorem claim_then_release_refunds_witness:
  "\<exists>c db' k. claim_next_job demo_settings demo_request 100 (\<lambda>_ n. 500 + n) demo_db = (Inr (Some c), db') \<and>
     job_row (snd (release_claim 200 c True db')) 11 = Some k \<and> j_generate_attempts k = 0"
proof -
  from demo_claim_next obtain c db'
    where r: "claim_next_job demo_settings demo_request 100 (\<lambda>_ n. 500 + n) demo_db = (Inr (Some c), db')"
      "c_account_slot c = 1" "j_id (c_job c) = 11" .
  from claim_next_job_stands [OF demo_ok r(1)] obtain j where
    j: "j \<in> set (db_jobs demo_db)" "claim_stands demo_settings demo_request j c db'" "store_ok db'"
    by blast
  then have "j_id j = 11" using r(3) by (auto simp: claim_stands_def claim_for_def Let_def)
  with j(1) have jd: "j = demo_queued" by (rule demo_job_11)
  have "case task_row (snd (claim_next_job demo_settings demo_request 100 (\<lambda>_ n. 500 + n) demo_db)) 1 of
      Some t \<Rightarrow> \<not> t_cancel_requested t | None \<Rightarrow> False" by code_simp
  then obtain t where t: "task_row db' (j_task_id j) = Some t" "\<not> t_cancel_requested t"
    unfolding r(1) by (auto simp: jd demo_queued_def split: option.splits)
  from claim_then_release_refunds [OF j(3,2) t, of 200] r(1) show ?thesis
    by (auto simp: jd demo_queued_def)
qed

end
