(* ===== verification/Queue_Intake.thy ===== *)
theory Queue_Intake
  imports Queue_Claim
begin

text \<open>
  How tasks enter the queue and are looked up (\<open>repository.py\<close>, \<open>idempotency.py\<close>): the
  identifiers of a request, \<open>enqueue_task\<close> with its replay and backlog rules,
  \<open>expire_pending_tasks\<close>, the queue position, and \<open>_find_task\<close>. The advisory locks of
  PostgreSQL only serialise sessions and are not represented; the bytes of an input artifact
  come from a parameter.
\<close>

section \<open>Replay keys and prompts\<close>

definition idempotency_key_max_length :: nat where
  "idempotency_key_max_length = 200"

definition clean_replay_key :: "string option \<Rightarrow> string \<Rightarrow> queue_error + string" where
  "clean_replay_key v label =
     (let cleaned = py_strip (text_or_empty v)
      in if idempotency_key_max_length < length cleaned then Inl (ValueError label) else Inr cleaned)"

text \<open>Headers with the same name up to case and blanks: the last one wins.\<close>

definition header_value :: "(string \<times> string) list \<Rightarrow> string \<Rightarrow> string option" where
  "header_value headers name = map_of (rev (map (\<lambda>(k, v). (py_lower (py_strip k), v)) headers)) name"

fun first_replay_key :: "(string option \<times> string) list \<Rightarrow> string \<Rightarrow> queue_error + string" where
  "first_replay_key [] client_task_id = clean_replay_key (Some client_task_id) ''client_task_id''"
| "first_replay_key ((v, label) # rest) client_task_id =
     (case clean_replay_key v label of
        Inl e \<Rightarrow> Inl e
      | Inr key \<Rightarrow> if key \<noteq> '''' then Inr key else first_replay_key rest client_task_id)"

definition select_idempotency_key :: "(string \<times> string) list \<Rightarrow> string \<Rightarrow> queue_error + string" where
  "select_idempotency_key headers client_task_id =
     first_replay_key
       [(header_value headers ''idempotency-key'', ''Idempotency-Key''),
        (header_value headers ''x-newapi-request-id'', ''X-NewAPI-Request-Id''),
        (header_value headers ''x-oneapi-request-id'', ''X-OneAPI-Request-Id'')] client_task_id"

text \<open>A request without a key gets a generated one, from a fresh UUID's hex digits.\<close>

definition ensure_idempotency_key ::
  "(string \<times> string) list \<Rightarrow> string \<Rightarrow> string \<Rightarrow> queue_error + (string \<times> bool)" where
  "ensure_idempotency_key headers client_task_id fresh_hex =
     (case select_idempotency_key headers client_task_id of
        Inl e \<Rightarrow> Inl e
      | Inr key \<Rightarrow> if key \<noteq> '''' then Inr (key, False) else Inr (''request:'' @ fresh_hex, True))"

definition py_endswith :: "string \<Rightarrow> string \<Rightarrow> bool" where
  "py_endswith s suffix \<longleftrightarrow> take (length suffix) (rev s) = rev suffix"

definition build_effective_prompt ::
  "string \<Rightarrow> bool \<Rightarrow> string option \<Rightarrow> string \<times> string option" where
  "build_effective_prompt prompt suffix_enabled prompt_suffix =
     (let original = py_strip prompt;
          suffix = py_strip (text_or_empty prompt_suffix);
          newline = CHR 0x0A
      in if \<not> suffix_enabled \<or> suffix = '''' then (original, None)
         else if py_endswith original suffix then (original, Some ''v1'')
         else (if original \<noteq> '''' then original @ [newline, newline] @ suffix else suffix, Some ''v1''))"

section \<open>Looking tasks up\<close>

definition task_at :: "queue_db \<Rightarrow> string \<Rightarrow> (image_task \<Rightarrow> bool) \<Rightarrow> image_task option" where
  "task_at db owner p =
     first_by (\<lambda>t. (t_created_at t, t_id t)) (filter (\<lambda>t. t_owner_key t = owner \<and> p t) (db_tasks db))"

definition option_list :: "'a option \<Rightarrow> 'a list" where
  "option_list v = (case v of None \<Rightarrow> [] | Some x \<Rightarrow> [x])"

definition find_task ::
  "queue_db \<Rightarrow> string \<Rightarrow> task_ref \<Rightarrow> queue_error + image_task option" where
  "find_task db owner_key ref =
     (let owner = py_strip owner_key;
          ident = py_strip (id_text ref);
          by_id = (case id_uuid ref of
                     None \<Rightarrow> []
                   | Some i \<Rightarrow> option_list (find (\<lambda>t. t_owner_key t = owner \<and> t_id t = i) (db_tasks db)));
          by_name = option_list (task_at db owner (\<lambda>t. t_client_task_id t = Some ident)) @
                    option_list (task_at db owner (\<lambda>t. t_idempotency_key t = Some ident));
          by_alias = option_list
            (find (\<lambda>t. t_owner_key t = owner \<and>
                       (\<exists>a \<in> set (db_aliases db). al_task_id a = t_id t \<and> al_idempotency_key a = ident))
               (db_tasks db));
          named = by_id @ by_name;
          found = (if named = [] then by_alias else named)
      in if ident = '''' then Inr (case by_id of [] \<Rightarrow> None | t # _ \<Rightarrow> Some t)
         else case found of
                [] \<Rightarrow> Inr None
              | t # ts \<Rightarrow> if \<exists>u \<in> set ts. t_id u \<noteq> t_id t
                         then Inl (IdempotencyConflict ''image task identifier matches multiple tasks'')
                         else Inr (Some t))"

definition get_task :: "string \<Rightarrow> task_ref \<Rightarrow> queue_db \<Rightarrow> queue_error + task_snapshot option" where
  "get_task owner_key ref db =
     (case find_task db owner_key ref of
        Inl e \<Rightarrow> Inl e
      | Inr found \<Rightarrow> Inr (map_option (task_snapshot_of db) found))"

definition get_task_by_idempotency_key ::
  "string \<Rightarrow> string \<Rightarrow> queue_db \<Rightarrow> task_snapshot option" where
  "get_task_by_idempotency_key owner_key key db =
     (case find (\<lambda>t. t_owner_key t = owner_key \<and> t_idempotency_key t = Some key) (db_tasks db) of
        Some t \<Rightarrow> Some (task_snapshot_of db t)
      | None \<Rightarrow>
          (case find (\<lambda>a. al_owner_key a = owner_key \<and> al_idempotency_key a = key) (db_aliases db) of
             None \<Rightarrow> None
           | Some a \<Rightarrow> snapshot_by_id db (al_task_id a)))"

text \<open>The position of a task: one more than the waiting jobs that sort before its first one.\<close>

definition queue_position :: "uuid option \<Rightarrow> queue_db \<Rightarrow> nat" where
  "queue_position task_id db =
     (case task_id of
        None \<Rightarrow> 0
      | Some tid \<Rightarrow>
          (case first_by job_sort_key
                  (filter (\<lambda>j. j_task_id j = tid \<and> waiting_job (j_status j)) (db_jobs db)) of
             None \<Rightarrow> 0
           | Some target \<Rightarrow>
               length (filter (\<lambda>j. waiting_job (j_status j) \<and> job_sort_key j < job_sort_key target)
                         (db_jobs db)) + 1))"

section \<open>Enqueueing\<close>

definition request_identifiers :: "enqueue_request \<Rightarrow> string list" where
  "request_identifiers q =
     filter (\<lambda>v. v \<noteq> '''') (remdups [py_strip (q_idempotency_key q), py_strip (q_client_task_id q)])"

definition optional_in :: "string option \<Rightarrow> string list \<Rightarrow> bool" where
  "optional_in v ids = (case v of None \<Rightarrow> False | Some x \<Rightarrow> x \<in> set ids)"

definition matching_tasks :: "enqueue_request \<Rightarrow> queue_db \<Rightarrow> image_task list" where
  "matching_tasks q db =
     (let ids = request_identifiers q;
          alias_ids = map al_task_id
            (filter (\<lambda>a. al_owner_key a = q_owner_key q \<and> al_idempotency_key a \<in> set ids) (db_aliases db))
      in filter (\<lambda>t. t_owner_key t = q_owner_key q \<and>
                     (optional_in (t_idempotency_key t) ids \<or> optional_in (t_client_task_id t) ids))
           (db_tasks db) @
         filter (\<lambda>t. t_id t \<in> set alias_ids) (db_tasks db))"

definition matching_existing_task ::
  "enqueue_request \<Rightarrow> queue_db \<Rightarrow> queue_error + image_task option" where
  "matching_existing_task q db =
     (if request_identifiers q = [] then Inr None
      else case matching_tasks q db of
             [] \<Rightarrow> Inr None
           | t # ts \<Rightarrow>
               if \<exists>u \<in> set ts. t_id u \<noteq> t_id t
               then Inl (IdempotencyConflict
                      ''idempotency key and client_task_id refer to different image tasks'')
               else Inr (Some t))"

definition bind_idempotency_alias ::
  "string \<Rightarrow> string \<Rightarrow> image_task \<Rightarrow> queue_db \<Rightarrow> queue_error + queue_db" where
  "bind_idempotency_alias owner_key idempotency_key task db =
     (let key = py_strip idempotency_key
      in if key = '''' \<or> key = py_strip (text_or_empty (t_idempotency_key task)) \<or>
            key = py_strip (text_or_empty (t_client_task_id task))
         then Inr db
         else case find (\<lambda>a. al_owner_key a = owner_key \<and> al_idempotency_key a = key) (db_aliases db) of
                Some a \<Rightarrow>
                  if al_task_id a \<noteq> t_id task
                  then Inl (IdempotencyConflict
                         ''idempotency key and client_task_id refer to different image tasks'')
                  else Inr db
              | None \<Rightarrow>
                  Inr (db\<lparr>db_aliases := db_aliases db @
                    [\<lparr>al_owner_key = owner_key, al_idempotency_key = key, al_task_id = t_id task\<rparr>]\<rparr>))"

definition count_backlog_tasks :: "queue_db \<Rightarrow> nat" where
  "count_backlog_tasks db =
     length (filter (\<lambda>t. t_status t \<in> {TQueued, TRetrying} \<and> t_started_at t = None \<and>
                         t_completed_at t = None) (db_tasks db))"

definition new_task_row :: "time \<Rightarrow> uuid \<Rightarrow> nat \<Rightarrow> enqueue_request \<Rightarrow> image_task" where
  "new_task_row clk tid required q =
     \<lparr>t_id = tid, t_owner_key = q_owner_key q,
      t_client_task_id = none_if_empty (q_client_task_id q),
      t_idempotency_key = none_if_empty (q_idempotency_key q),
      t_request_hash = q_request_hash q, t_task_type = q_task_type q,
      t_public_model = q_public_model q, t_request_payload = q_request_payload q,
      t_required_jobs = required, t_succeeded_jobs = 0, t_failed_jobs = 0, t_status = TQueued,
      t_wait_reason = Some ''queued'', t_error_code = None, t_error_message = None,
      t_delivery_status = DPending, t_response_attempted_at = None, t_delivery_acked_at = None,
      t_cancel_requested = False, t_created_at = clk, t_queued_at = clk, t_started_at = None,
      t_completed_at = None, t_updated_at = clk, t_version = 1\<rparr>"

definition new_job_row :: "time \<Rightarrow> uuid \<Rightarrow> uuid \<Rightarrow> nat \<Rightarrow> image_job" where
  "new_job_row clk jid tid ordinal =
     \<lparr>j_id = jid, j_task_id = tid, j_ordinal = ordinal, j_status = JQueued, j_stage = SQueued,
      j_generate_attempts = 0, j_download_attempts = 0, j_save_attempts = 0, j_available_at = clk,
      j_next_retry_at = None, j_lease_owner = None, j_lease_token = None, j_lease_version = 0,
      j_lease_expires_at = None, j_heartbeat_at = None, j_account_id = None,
      j_conversation_id = None, j_image_urls = [], j_file_ids = [], j_sediment_ids = [],
      j_quota_consumed = False, j_quota_accounted = False, j_quota_accounting_attempts = 0,
      j_quota_accounting_error = None, j_result_payload = empty_payload, j_stage_timings = [],
      j_error_code = None, j_error_message = None, j_created_at = clk, j_updated_at = clk,
      j_started_at = None, j_completed_at = None\<rparr>"

text \<open>The unique constraints of the task table, checked when the new rows are flushed.\<close>

definition task_conflict :: "image_task \<Rightarrow> image_task \<Rightarrow> bool" where
  "task_conflict t u \<longleftrightarrow>
     t_id t = t_id u \<or>
     t_owner_key t = t_owner_key u \<and>
     (t_idempotency_key t \<noteq> None \<and> t_idempotency_key t = t_idempotency_key u \<or>
      t_client_task_id t \<noteq> None \<and> t_client_task_id t = t_client_task_id u)"

definition job_conflict :: "uuid list \<Rightarrow> queue_db \<Rightarrow> bool" where
  "job_conflict ids db \<longleftrightarrow> \<not> distinct ids \<or> (\<exists>j \<in> set (db_jobs db). j_id j \<in> set ids)"

text \<open>The rows of the input artifacts; a mismatch or an unreadable payload is a ValueError.\<close>

definition private_artifact_payload ::
  "(string \<Rightarrow> (nat list \<times> string) option) \<Rightarrow> artifact_descriptor \<Rightarrow> queue_error + nat list option" where
  "private_artifact_payload read d =
     (if d_kind d \<noteq> ''input'' \<and> d_kind d \<noteq> ''mask'' then Inr None
      else case d_absolute_path d of
             None \<Rightarrow> Inl (ValueError ''private input artifact payload path is missing'')
           | Some path \<Rightarrow>
               (case read path of
                  None \<Rightarrow> Inl (ValueError ''private input artifact payload is unreadable'')
                | Some (bytes, sha) \<Rightarrow>
                    if length bytes \<noteq> d_byte_size d
                    then Inl (ValueError ''private input artifact payload size mismatch'')
                    else if sha \<noteq> d_sha256 d
                    then Inl (ValueError ''private input artifact payload checksum mismatch'')
                    else Inr (Some bytes)))"

fun input_artifact_rows ::
  "time \<Rightarrow> (string \<Rightarrow> (nat list \<times> string) option) \<Rightarrow> uuid \<Rightarrow> artifact_descriptor list \<Rightarrow>
   queue_error + task_artifact list" where
  "input_artifact_rows clk read tid [] = Inr []"
| "input_artifact_rows clk read tid (d # ds) =
     (if d_task_id d \<noteq> tid \<or> d_job_id d \<noteq> None
      then Inl (ValueError ''input artifact does not belong to enqueued task'')
      else case private_artifact_payload read d of
             Inl e \<Rightarrow> Inl e
           | Inr blob \<Rightarrow>
               (case input_artifact_rows clk read tid ds of
                  Inl e \<Rightarrow> Inl e
                | Inr rows \<Rightarrow> Inr (artifact_row clk d '''' blob # rows)))"

definition create_task ::
  "time \<Rightarrow> (string \<Rightarrow> (nat list \<times> string) option) \<Rightarrow> uuid \<Rightarrow> (nat \<Rightarrow> uuid) \<Rightarrow> enqueue_request \<Rightarrow> queue_db \<Rightarrow>
   queue_error + (image_task \<times> queue_db)" where
  "create_task clk read tid new_job_id q db =
     (let required = nat (max 1 (if q_required_jobs q = 0 then 1 else q_required_jobs q));
          task = new_task_row clk tid required q;
          ordinals = [1..<Suc required]
      in if \<exists>u \<in> set (db_tasks db). task_conflict task u then Inl IntegrityError
         else case input_artifact_rows clk read tid (q_input_artifacts q) of
                Inl e \<Rightarrow> Inl e
              | Inr artifacts \<Rightarrow>
                  if job_conflict (map new_job_id ordinals) db then Inl IntegrityError
                  else (case fold_result insert_artifact artifacts
                               (db\<lparr>db_tasks := db_tasks db @ [task],
                                   db_jobs := db_jobs db @
                                     map (\<lambda>n. new_job_row clk (new_job_id n) tid n) ordinals\<rparr>) of
                          Inl e \<Rightarrow> Inl e
                        | Inr db1 \<Rightarrow>
                            Inr (task, log_event tid None ''task_queued'' 0 None (Some (task_status_value TQueued))
                              [(''required_jobs'', JInt (int required)),
                               (''public_model'', JStr (q_public_model q)),
                               (''trace_headers'',
                                 case map_of (q_request_payload q) ''trace_headers'' of
                                   Some (JObj o') \<Rightarrow> JObj o' | _ \<Rightarrow> JObj [])] db1)))"

definition replay_task ::
  "enqueue_request \<Rightarrow> image_task \<Rightarrow> queue_db \<Rightarrow> queue_error + ((task_snapshot \<times> bool) \<times> queue_db)" where
  "replay_task q existing db =
     (if t_request_hash existing \<noteq> q_request_hash q
      then Inl (IdempotencyConflict ''idempotency key was already used with a different request'')
      else case bind_idempotency_alias (q_owner_key q) (q_idempotency_key q) existing db of
             Inl e \<Rightarrow> Inl e
           | Inr db1 \<Rightarrow> Inr ((task_snapshot_of db1 existing, False), db1))"

definition enqueue_session ::
  "time \<Rightarrow> (string \<Rightarrow> (nat list \<times> string) option) \<Rightarrow> uuid \<Rightarrow> (nat \<Rightarrow> uuid) \<Rightarrow> int option \<Rightarrow>
   enqueue_request \<Rightarrow> queue_db \<Rightarrow> queue_error + ((task_snapshot \<times> bool) \<times> queue_db)" where
  "enqueue_session clk read fresh_id new_job_id max_backlog q db =
     (case matching_existing_task q db of
        Inl e \<Rightarrow> Inl e
      | Inr (Some existing) \<Rightarrow> replay_task q existing db
      | Inr None \<Rightarrow>
          if (case max_backlog of None \<Rightarrow> False | Some b \<Rightarrow> max 1 b \<le> int (count_backlog_tasks db))
          then Inl (ResourcePressure ''resource_backlog'')
          else
            let tid = (case q_task_id q of Some i \<Rightarrow> i | None \<Rightarrow> fresh_id)
            in case create_task clk read tid new_job_id q db of
                 Inl e \<Rightarrow> Inl e
               | Inr (task, db1) \<Rightarrow> Inr ((task_snapshot_of db1 task, True), db1))"

definition enqueue_task ::
  "time \<Rightarrow> (string \<Rightarrow> (nat list \<times> string) option) \<Rightarrow> uuid \<Rightarrow> (nat \<Rightarrow> uuid) \<Rightarrow> int option \<Rightarrow>
   enqueue_request \<Rightarrow> queue_db \<Rightarrow> queue_error + ((task_snapshot \<times> bool) \<times> queue_db)" where
  "enqueue_task clk read fresh_id new_job_id max_backlog q db =
     (if py_strip (q_owner_key q) = '''' then Inl (ValueError ''owner_key is required'')
      else if py_strip (q_request_hash q) = '''' then Inl (ValueError ''request_hash is required'')
      else case enqueue_session clk read fresh_id new_job_id max_backlog q db of
             Inr r \<Rightarrow> Inr r
           | Inl IntegrityError \<Rightarrow>
               (case matching_existing_task q db of
                  Inl e \<Rightarrow> Inl e
                | Inr None \<Rightarrow> Inl IntegrityError
                | Inr (Some existing) \<Rightarrow> replay_task q existing db)
           | Inl e \<Rightarrow> Inl e)"

section \<open>Expiry of pending jobs\<close>

definition expirable_job :: "time \<Rightarrow> queue_db \<Rightarrow> image_job \<Rightarrow> bool" where
  "expirable_job cutoff db j \<longleftrightarrow>
     \<not> j_quota_consumed j \<and>
     (\<exists>t \<in> set (db_tasks db). t_id t = j_task_id j \<and> \<not> terminal_task (t_status t) \<and>
        t_completed_at t = None \<and>
        (j_status j = JQueued \<and> j_stage j \<in> {SQueued, SLeased, SGenerating} \<and>
           (j_available_at j \<le> cutoff \<or> t_queued_at t \<le> cutoff) \<or>
         j_status j = JRetryWait \<and> j_available_at j \<le> cutoff))"

definition expired_row :: "time \<Rightarrow> int \<Rightarrow> image_job \<Rightarrow> image_job" where
  "expired_row now ttl j =
     clear_job_lease
       (j\<lparr>j_status := JFailed, j_stage := SFailed, j_error_code := Some ''queue_timeout'',
          j_error_message := Some (MQueueTimeout ttl), j_completed_at := Some now,
          j_updated_at := now\<rparr>)"

definition expire_job :: "time \<Rightarrow> int \<Rightarrow> image_job \<Rightarrow> queue_db \<Rightarrow> queue_db" where
  "expire_job now ttl j db =
     log_event (j_task_id j) (Some (j_id j)) ''job_pending_expired'' 0
       (Some (job_status_value (j_status j))) (Some (job_status_value JFailed))
       [(''pending_ttl_seconds'', JInt ttl)] (upd_job (j_id j) (expired_row now ttl) db)"

definition settle_expired_task :: "time \<Rightarrow> time \<Rightarrow> int \<Rightarrow> uuid \<Rightarrow> queue_db \<Rightarrow> queue_db" where
  "settle_expired_task clk now ttl tid db =
     (let db1 = aggregate_task clk tid
                  (upd_task tid (\<lambda>t. t\<lparr>t_wait_reason := Some ''queue_timeout''\<rparr>) db)
      in case task_row db1 tid of
           None \<Rightarrow> db
         | Some t \<Rightarrow>
             log_event tid None ''task_pending_expired'' 0 None (Some (task_status_value (t_status t)))
               [(''pending_ttl_seconds'', JInt ttl), (''queued_at'', JTime (t_queued_at t)),
                (''expired_at'', JTime now)] db1)"

definition expire_pending_tasks :: "time \<Rightarrow> time \<Rightarrow> int \<Rightarrow> queue_db \<Rightarrow> uuid list \<times> queue_db" where
  "expire_pending_tasks clk now pending_ttl_seconds db =
     (let ttl = max 1 pending_ttl_seconds;
          jobs = sort_key (\<lambda>j. (j_created_at j, j_id j))
                   (filter (expirable_job (now - secs ttl) db) (db_jobs db));
          tids = dedup_first (map j_task_id jobs);
          db1 = fold (expire_job now ttl) jobs db
      in (tids, fold (settle_expired_task clk now ttl) tids db1))"

end
