(* ===== verification/Queue_Intake_Correct.thy ===== *)
theory Queue_Intake_Correct
  imports Queue_Intake Queue_Claim_Correct
begin

text \<open>
  Enqueueing and expiry keep the store well formed; replays find the task of the first
  request; the backlog stays within its limit; expiry only fails jobs nothing was paid for.
\<close>

section \<open>New tasks\<close>

lemma new_job_row_simps [simp]:
  "j_id (new_job_row clk i tid n) = i" "j_task_id (new_job_row clk i tid n) = tid"
  "j_status (new_job_row clk i tid n) = JQueued" "j_ordinal (new_job_row clk i tid n) = n"
  "j_stage (new_job_row clk i tid n) = SQueued"
  by (simp_all add: new_job_row_def)

lemma new_job_row_ok [simp]: "job_ok (new_job_row clk i tid n)"
  by (simp add: job_ok_def new_job_row_def active_job_def)

lemma ok_new_task:
  assumes ok: "store_ok db" and tid: "tid \<notin> t_id ` set (db_tasks db)"
    and ids: "distinct (map jid ns)" "\<And>j. j \<in> set (db_jobs db) \<Longrightarrow> j_id j \<notin> jid ` set ns"
    and t: "t_id t = tid" "t_required_jobs t = length ns" "ns \<noteq> []" "t_succeeded_jobs t = 0"
      "t_failed_jobs t = 0" "\<not> terminal_task (t_status t)"
  shows "store_ok (db\<lparr>db_tasks := db_tasks db @ [t],
           db_jobs := db_jobs db @ map (\<lambda>n. new_job_row clk (jid n) tid n) ns\<rparr>)" (is "store_ok ?db")
proof -
  have none: "filter (\<lambda>j. j_task_id j = tid) (db_jobs db) = []"
    using ok tid by (auto simp: filter_empty_conv store_ok_def store_ok_except_def fk_ok_def)
  have new: "statuses_of ?db tid = replicate (length ns) JQueued"
    using none by (simp add: statuses_of_def comp_def map_replicate_const)
  have old: "statuses_of ?db i = statuses_of db i" if "i \<noteq> tid" for i
    using that by (simp add: statuses_of_def comp_def)
  have "map j_id (map (\<lambda>n. new_job_row clk (jid n) tid n) ns) = map jid ns" by simp
  with ok tid ids t have keys: "keys_ok ?db"
    by (auto simp: store_ok_def store_ok_except_def keys_ok_def distinct_map comp_def inj_on_def)
  have lea: "lease_ok ?db l" if "l \<in> set (db_leases db)" for l
    using ok that by (fastforce simp: store_ok_def store_ok_except_def lease_ok_def)
  have tok: "task_shape_ok ?db u \<and> task_ok u (statuses_of ?db (t_id u))" if u: "u \<in> set (db_tasks db)" for u
  proof -
    have "t_id u \<noteq> tid" using u tid by auto
    with ok u old [of "t_id u"] show ?thesis
      by (auto simp: store_ok_def store_ok_except_def task_shape_ok_def)
  qed
  have tnew: "task_shape_ok ?db t \<and> task_ok t (statuses_of ?db (t_id t))"
    using t new by (cases ns) (auto simp: task_shape_ok_def task_ok_def all_terminal_def terminal_job_def
        count_list_eq_length_filter)
  have "fk_ok ?db" using ok by (auto simp: store_ok_def store_ok_except_def fk_ok_def t)
  moreover have "\<forall>j \<in> set (db_jobs ?db). job_ok j"
    using ok by (auto simp: store_ok_def store_ok_except_def)
  ultimately show ?thesis
    using keys lea tok tnew by (simp add: store_ok_def store_ok_except_def)
qed

lemma insert_artifacts_same:
  assumes "fold_result insert_artifact arts db = Inr db'"
  shows "store_ok db' = store_ok db \<and> db_tasks db' = db_tasks db \<and> db_jobs db' = db_jobs db \<and>
         db_leases db' = db_leases db \<and> db_aliases db' = db_aliases db"
  by (rule fold_result_invariant [OF assms, where P = "\<lambda>x. store_ok x = store_ok db \<and>
        db_tasks x = db_tasks db \<and> db_jobs x = db_jobs db \<and> db_leases x = db_leases db \<and>
        db_aliases x = db_aliases db"])
     (auto simp: insert_artifact_def store_ok_def split: if_splits)

text \<open>What a successful creation writes.\<close>

lemma create_taskD:
  assumes "create_task clk read tid new_id q db = Inr (t, db')"
  obtains n where "n = nat (max 1 (if q_required_jobs q = 0 then 1 else q_required_jobs q))" "1 \<le> n"
    "t = new_task_row clk tid n q" "\<forall>u \<in> set (db_tasks db). \<not> task_conflict t u"
    "\<not> job_conflict (map new_id [1..<Suc n]) db" "db_tasks db' = db_tasks db @ [t]"
    "db_jobs db' = db_jobs db @ map (\<lambda>k. new_job_row clk (new_id k) tid k) [1..<Suc n]"
    "db_leases db' = db_leases db" "db_aliases db' = db_aliases db"
    "store_ok db' = store_ok (db\<lparr>db_tasks := db_tasks db @ [t],
        db_jobs := db_jobs db @ map (\<lambda>k. new_job_row clk (new_id k) tid k) [1..<Suc n]\<rparr>)"
proof -
  let ?n = "nat (max 1 (if q_required_jobs q = 0 then 1 else q_required_jobs q))"
  have n: "1 \<le> ?n" by simp
  let ?t = "new_task_row clk tid ?n q"
  let ?base = "db\<lparr>db_tasks := db_tasks db @ [?t],
        db_jobs := db_jobs db @ map (\<lambda>k. new_job_row clk (new_id k) tid k) [1..<Suc ?n]\<rparr>"
  from assms obtain arts db1 fs data where
    c: "\<forall>u \<in> set (db_tasks db). \<not> task_conflict ?t u" "\<not> job_conflict (map new_id [1..<Suc ?n]) db" "t = ?t"
    and f: "fold_result insert_artifact arts ?base = Inr db1"
    and d: "db' = log_event tid None ''task_queued'' 0 None fs data db1"
    unfolding create_task_def Let_def by (auto split: if_splits sum.splits)
  note same = insert_artifacts_same [OF f]
  have eq: "store_ok db' = store_ok ?base" using same by (simp add: d store_ok_def)
  show ?thesis
    by (rule that [OF refl n c(3)]) (use c same eq in \<open>simp_all add: d\<close>)
qed

lemma create_task_ok:
  assumes "store_ok db" and "create_task clk read tid new_id q db = Inr (t, db')"
  shows "store_ok db'"
proof -
  from assms(2) obtain n where n: "1 \<le> n" "t = new_task_row clk tid n q"
    "\<forall>u \<in> set (db_tasks db). \<not> task_conflict t u" "\<not> job_conflict (map new_id [1..<Suc n]) db"
    "store_ok db' = store_ok (db\<lparr>db_tasks := db_tasks db @ [t],
        db_jobs := db_jobs db @ map (\<lambda>k. new_job_row clk (new_id k) tid k) [1..<Suc n]\<rparr>)"
    by (elim create_taskD) blast
  show ?thesis
    unfolding n(5)
    by (rule ok_new_task [OF assms(1)])
       (use n in \<open>force simp: task_conflict_def job_conflict_def new_task_row_def terminal_task_def\<close>)+
qed

lemma bind_alias_ok:
  "bind_idempotency_alias o' k t db = Inr db' \<Longrightarrow> store_ok db' = store_ok db \<and> db_tasks db' = db_tasks db \<and>
     db_jobs db' = db_jobs db \<and> db_leases db' = db_leases db"
  by (auto simp: bind_idempotency_alias_def Let_def store_ok_def split: if_splits option.splits)

lemma replay_task_ok:
  assumes "replay_task q t db = Inr (r, db')"
  shows "store_ok db' = store_ok db" "db_tasks db' = db_tasks db" "db_jobs db' = db_jobs db"
    "db_leases db' = db_leases db" "snd r = False" "ts_id (fst r) = t_id t"
  using assms
  by (auto simp: replay_task_def task_snapshot_of_def snapshot_from_jobs_def Let_def
      split: if_splits sum.splits dest!: bind_alias_ok)

lemma enqueue_task_cases:
  assumes "enqueue_task clk read fresh new_id b q db = Inr (r, db')"
  obtains t where "matching_existing_task q db = Inr (Some t)" "replay_task q t db = Inr (r, db')"
  | t where "matching_existing_task q db = Inr None"
      "case b of None \<Rightarrow> True | Some m \<Rightarrow> int (count_backlog_tasks db) < max 1 m"
      "create_task clk read (case q_task_id q of Some i \<Rightarrow> i | None \<Rightarrow> fresh) new_id q db = Inr (t, db')"
      "r = (task_snapshot_of db' t, True)"
proof (cases "enqueue_session clk read fresh new_id b q db")
  case (Inr p)
  with assms have p: "p = (r, db')" by (simp add: enqueue_task_def split: if_splits)
  show ?thesis
  proof (cases "matching_existing_task q db")
    case (Inl e)
    with Inr show ?thesis by (simp add: enqueue_session_def)
  next
    case (Inr m)
    show ?thesis
    proof (cases m)
      case (Some t)
      with Inr \<open>enqueue_session _ _ _ _ _ _ _ = _\<close> p that(1) show ?thesis
        by (simp add: enqueue_session_def)
    next
      case None
      let ?tid = "case q_task_id q of Some i \<Rightarrow> i | None \<Rightarrow> fresh"
      from None Inr \<open>enqueue_session _ _ _ _ _ _ _ = _\<close> p
      have lim: "case b of None \<Rightarrow> True | Some m \<Rightarrow> int (count_backlog_tasks db) < max 1 m"
        and run: "\<exists>t. create_task clk read ?tid new_id q db = Inr (t, db') \<and> r = (task_snapshot_of db' t, True)"
        by (auto simp: enqueue_session_def Let_def not_le
            split: if_splits sum.splits option.splits prod.splits)
      from run obtain t where "create_task clk read ?tid new_id q db = Inr (t, db')"
        "r = (task_snapshot_of db' t, True)" by blast
      with that(2) [OF _ lim] Inr None show ?thesis by simp
    qed
  qed
next
  case (Inl e)
  with assms show ?thesis
    by (cases e) (auto simp: enqueue_task_def split: if_splits sum.splits option.splits intro: that(1))
qed

lemma enqueue_task_ok:
  assumes "store_ok db" and "enqueue_task clk read fresh new_id b q db = Inr (r, db')"
  shows "store_ok db'"
  using assms(2) by (rule enqueue_task_cases) (use assms(1) in \<open>auto dest: replay_task_ok create_task_ok\<close>)

section \<open>Replays\<close>

lemma in_matching_tasks:
  "u \<in> set (matching_tasks q db) \<longleftrightarrow> u \<in> set (db_tasks db) \<and>
     (t_owner_key u = q_owner_key q \<and> (optional_in (t_idempotency_key u) (request_identifiers q) \<or>
        optional_in (t_client_task_id u) (request_identifiers q)) \<or>
      (\<exists>a \<in> set (db_aliases db). al_owner_key a = q_owner_key q \<and>
         al_idempotency_key a \<in> set (request_identifiers q) \<and> al_task_id a = t_id u))"
  by (auto simp: matching_tasks_def Let_def image_iff)

lemma find_append:
  "find p (xs @ ys) = (case find p xs of None \<Rightarrow> find p ys | Some x \<Rightarrow> Some x)"
  by (induction xs) auto

lemma matching_existingD:
  assumes "matching_existing_task q db = Inr (Some t)"
  shows "t \<in> set (matching_tasks q db)" "t \<in> set (db_tasks db)"
    "\<And>u. u \<in> set (matching_tasks q db) \<Longrightarrow> t_id u = t_id t"
proof -
  from assms obtain ts where "matching_tasks q db = t # ts" "\<forall>u \<in> set ts. t_id u = t_id t"
    by (auto simp: matching_existing_task_def split: if_splits list.splits)
  then show "t \<in> set (matching_tasks q db)" "\<And>u. u \<in> set (matching_tasks q db) \<Longrightarrow> t_id u = t_id t"
    by auto
  then show "t \<in> set (db_tasks db)" by (auto simp: in_matching_tasks)
qed

lemma matching_existingI:
  assumes "t \<in> set (matching_tasks q db)" and "request_identifiers q \<noteq> []"
    and "\<And>u. u \<in> set (matching_tasks q db) \<Longrightarrow> u = t"
  shows "matching_existing_task q db = Inr (Some t)"
proof -
  from assms(1) obtain x xs where x: "matching_tasks q db = x # xs" by (cases "matching_tasks q db") auto
  have "x = t" "\<forall>u \<in> set xs. t_id u = t_id x" using assms(3) x by auto
  with x assms(2) show ?thesis by (auto simp: matching_existing_task_def)
qed

lemma request_identifiers_nonempty: "py_strip (q_idempotency_key q) \<noteq> '''' \<Longrightarrow> request_identifiers q \<noteq> []"
  by (auto simp: request_identifiers_def filter_empty_conv)

lemma replay_of_created:
  assumes ok: "store_ok db'" and key: "py_strip (q_idempotency_key q) = q_idempotency_key q" "q_idempotency_key q \<noteq> ''''"
    and m: "matching_existing_task q db = Inr None"
    and cr: "create_task clk read tid new_id q db = Inr (t, db')"
  shows "matching_existing_task q db' = Inr (Some t) \<and> replay_task q t db' = Inr ((task_snapshot_of db' t, False), db')"
proof -
  from cr obtain n where t: "t = new_task_row clk tid n q" and tasks: "db_tasks db' = db_tasks db @ [t]"
    and al: "db_aliases db' = db_aliases db"
    by (elim create_taskD) blast
  have ids: "request_identifiers q \<noteq> []" using key by (intro request_identifiers_nonempty) simp
  have none: "matching_tasks q db = []"
    using m ids by (auto simp: matching_existing_task_def split: list.splits if_splits)
  have kin: "q_idempotency_key q \<in> set (request_identifiers q)"
    using key by (simp add: request_identifiers_def)
  have in': "t \<in> set (matching_tasks q db')"
    using kin key(2) by (simp add: in_matching_tasks tasks t new_task_row_def optional_in_def none_if_empty_def)
  have sub: "u = t" if "u \<in> set (matching_tasks q db')" for u
  proof (rule ccontr)
    assume "u \<noteq> t"
    with that have "u \<in> set (matching_tasks q db)"
      by (auto simp: in_matching_tasks tasks al)
    with none show False by simp
  qed
  have "bind_idempotency_alias (q_owner_key q) (q_idempotency_key q) t db' = Inr db'"
    using key by (simp add: bind_idempotency_alias_def t new_task_row_def none_if_empty_def text_or_empty_def)
  moreover have "t_request_hash t = q_request_hash q" by (simp add: t new_task_row_def)
  ultimately show ?thesis
    using matching_existingI [OF in' ids sub] by (simp add: replay_task_def)
qed

lemma replay_of_replay:
  assumes ok: "store_ok db" and ids: "request_identifiers q \<noteq> []"
    and m: "matching_existing_task q db = Inr (Some t)"
    and r: "replay_task q t db = Inr (r, db')"
  shows "matching_existing_task q db' = Inr (Some t) \<and> replay_task q t db' = Inr ((task_snapshot_of db' t, False), db')"
proof -
  note md = matching_existingD [OF m]
  from r have hash: "t_request_hash t = q_request_hash q"
    and bind: "bind_idempotency_alias (q_owner_key q) (q_idempotency_key q) t db = Inr db'"
    by (auto simp: replay_task_def split: if_splits sum.splits)
  have tasks: "db_tasks db' = db_tasks db" using bind_alias_ok [OF bind] by simp
  have al: "set (db_aliases db) \<subseteq> set (db_aliases db')"
    "\<And>a. a \<in> set (db_aliases db') \<Longrightarrow> a \<in> set (db_aliases db) \<or> al_task_id a = t_id t"
    using bind by (auto simp: bind_idempotency_alias_def Let_def split: if_splits option.splits)
  have uniq: "u = t" if "u \<in> set (db_tasks db)" "t_id u = t_id t" for u
    using ok that md(2) by (auto simp: store_ok_def intro: task_unique)
  have in': "t \<in> set (matching_tasks q db')"
    using md(1) al(1) by (auto simp: in_matching_tasks tasks)
  have sub: "u = t" if "u \<in> set (matching_tasks q db')" for u
  proof -
    from that al(2) have "u \<in> set (matching_tasks q db) \<or> u \<in> set (db_tasks db) \<and> t_id u = t_id t"
      by (force simp: in_matching_tasks tasks)
    with md(3) uniq show ?thesis by (auto simp: in_matching_tasks)
  qed
  have again: "bind_idempotency_alias (q_owner_key q) (q_idempotency_key q) t db' = Inr db'"
    using bind by (auto simp: bind_idempotency_alias_def Let_def find_append split: if_splits option.splits)
  show ?thesis
    using matching_existingI [OF in' ids sub] again hash by (simp add: replay_task_def)
qed

section \<open>Expiry\<close>

lemma ok_upd_job_row:
  assumes "store_ok_except S db" and "\<And>l. l \<in> set (db_leases db) \<Longrightarrow> l_job_id l \<noteq> i"
    and "\<And>j. j \<in> set (db_jobs db) \<Longrightarrow> j_id j = i \<Longrightarrow>
       j_id (f j) = i \<and> j_task_id (f j) = j_task_id j \<and> job_ok (f j) \<and> j_task_id j \<in> S"
  shows "store_ok_except S (upd_job i f db)"
  by (rule ok_upd_job [OF assms(1)]) (use assms(2,3) in blast)

lemma expired_row_ok: "job_ok j \<Longrightarrow> job_ok (expired_row now ttl j)"
  by (simp add: job_ok_def expired_row_def clear_job_lease_def active_job_def)

lemma expired_row_ids [simp]:
  "j_id (expired_row now ttl j) = j_id j" "j_task_id (expired_row now ttl j) = j_task_id j"
  by (simp_all add: expired_row_def)

lemma expire_job_projections [simp]:
  "db_leases (expire_job now ttl j db) = db_leases db"
  "db_tasks (expire_job now ttl j db) = db_tasks db"
  "db_jobs (expire_job now ttl j db) = upd_rows (\<lambda>k. j_id k = j_id j) (expired_row now ttl) (db_jobs db)"
  by (simp_all add: expire_job_def db_jobs_upd_job)

definition task_of_ids :: "queue_db \<Rightarrow> uuid set \<Rightarrow> uuid set" where
  "task_of_ids db ids = j_task_id ` {j \<in> set (db_jobs db). j_id j \<in> ids}"

lemma expire_jobs_ok:
  assumes "store_ok_except S db" and "\<And>j l. j \<in> set js \<Longrightarrow> l \<in> set (db_leases db) \<Longrightarrow> l_job_id l \<noteq> j_id j"
    and "\<And>j k. j \<in> set js \<Longrightarrow> k \<in> set (db_jobs db) \<Longrightarrow> j_id k = j_id j \<Longrightarrow> j_task_id k \<in> S"
  shows "store_ok_except S (fold (expire_job now ttl) js db)"
  using assms
proof (induction js arbitrary: db)
  case (Cons j js)
  have "store_ok_except S (expire_job now ttl j db)"
    unfolding expire_job_def ok_log_event
    by (rule ok_upd_job_row [OF Cons.prems(1)])
       (use Cons.prems in \<open>auto intro: expired_row_ok [OF store_job_ok [OF Cons.prems(1)]]\<close>)
  then show ?case
    unfolding fold_Cons comp_apply
  proof (rule Cons.IH)
    fix i l assume "i \<in> set js" "l \<in> set (db_leases (expire_job now ttl j db))"
    then show "l_job_id l \<noteq> j_id i" using Cons.prems(2) by simp
  next
    fix i k assume i: "i \<in> set js" "k \<in> set (db_jobs (expire_job now ttl j db))" "j_id k = j_id i"
    from i(2) obtain k0 where k0: "k0 \<in> set (db_jobs db)"
      "k = (if j_id k0 = j_id j then expired_row now ttl k0 else k0)"
      unfolding expire_job_projections by (rule in_upd_rowsE)
    then have "j_id k = j_id k0" "j_task_id k = j_task_id k0" by simp_all
    with k0(1) i(1,3) Cons.prems(3) [of i k0] show "j_task_id k \<in> S" by simp
  qed
qed simp

lemma settle_expired_task_ok:
  assumes "store_ok_except (insert tid S) db"
  shows "store_ok_except S (settle_expired_task clk now ttl tid db)"
proof (cases "task_row db tid")
  case None
  have "t_id t \<noteq> tid" if "t \<in> set (db_tasks db)" for t
    using None that by (auto simp: task_row_def dest: find_NoneD)
  then have "store_ok_except S db" using assms by (auto simp: store_ok_except_def)
  moreover have "task_row (upd_task tid (\<lambda>t. t\<lparr>t_wait_reason := Some ''queue_timeout''\<rparr>) db) tid = None"
    using None by (simp add: task_row_upd_task)
  ultimately show ?thesis
    by (simp add: settle_expired_task_def task_row_aggregate Let_def)
next
  case (Some t)
  have row: "task_row (upd_task tid (\<lambda>t. t\<lparr>t_wait_reason := Some ''queue_timeout''\<rparr>) db) tid =
      Some (t\<lparr>t_wait_reason := Some ''queue_timeout''\<rparr>)"
    using Some by (simp add: task_row_upd_task)
  have "store_ok_except S (aggregate_task clk tid
      (upd_task tid (\<lambda>t. t\<lparr>t_wait_reason := Some ''queue_timeout''\<rparr>) db))"
    by (rule ok_aggregate, rule ok_upd_task_pending [OF assms]) (simp_all add: task_frame_def)
  with row show ?thesis
    by (simp add: settle_expired_task_def task_row_aggregate Let_def)
qed

lemma settle_expired_tasks_ok:
  "store_ok_except (set tids \<union> S) db \<Longrightarrow> store_ok_except S (fold (settle_expired_task clk now ttl) tids db)"
proof (induction tids arbitrary: db)
  case (Cons tid tids)
  then have "store_ok_except (insert tid (set tids \<union> S)) db" by simp
  from Cons.IH [OF settle_expired_task_ok [OF this]] show ?case by simp
qed simp

lemma expire_pending_tasks_ok:
  assumes ok: "store_ok db"
  shows "store_ok (snd (expire_pending_tasks clk now ttl db))"
proof -
  let ?ttl = "max 1 ttl"
  let ?js = "sort_key (\<lambda>j. (j_created_at j, j_id j))
      (filter (expirable_job (now - secs ?ttl) db) (db_jobs db))"
  let ?tids = "dedup_first (map j_task_id ?js)"
  have js: "j \<in> set (db_jobs db) \<and> waiting_job (j_status j)" if "j \<in> set ?js" for j
    using that by (auto simp: expirable_job_def waiting_job_def)
  have "store_ok_except (set ?tids) (fold (expire_job now ?ttl) ?js db)"
  proof (rule expire_jobs_ok [OF store_ok_exceptI [OF ok]])
    fix j l assume j: "j \<in> set ?js" and l: "l \<in> set (db_leases db)"
    from js [OF j] have "\<not> active_job (j_status j)" by (auto simp: waiting_job_def active_job_def)
    with no_lease_when_inactive [OF store_ok_exceptI [OF ok] _ this l] js [OF j]
    show "l_job_id l \<noteq> j_id j" by blast
  next
    fix j k assume "j \<in> set ?js" "k \<in> set (db_jobs db)" "j_id k = j_id j"
    with js ok have "k = j" by (auto simp: store_ok_def intro: job_unique)
    with \<open>j \<in> set ?js\<close> show "j_task_id k \<in> set ?tids" by simp
  qed
  then have "store_ok_except (set ?tids \<union> {}) (fold (expire_job now ?ttl) ?js db)" by simp
  from settle_expired_tasks_ok [OF this] show ?thesis
    by (simp add: expire_pending_tasks_def Let_def store_ok_def)
qed

text \<open>The jobs after the sweep: each one as before, or an expirable one expired.\<close>

lemma settle_expired_jobs [simp]: "db_jobs (settle_expired_task clk now ttl tid db) = db_jobs db"
  by (simp add: settle_expired_task_def Let_def split: option.splits)

lemma settle_expired_all_jobs [simp]:
  "db_jobs (fold (settle_expired_task clk now ttl) tids db) = db_jobs db"
  by (induction tids arbitrary: db) simp_all

lemma expire_jobs_rows:
  assumes "distinct (map j_id js)"
  shows "db_jobs (fold (expire_job now ttl) js db) =
     upd_rows (\<lambda>k. j_id k \<in> j_id ` set js) (expired_row now ttl) (db_jobs db)"
  using assms
proof (induction js arbitrary: db)
  case (Cons j js)
  then show ?case by (auto simp: upd_rows_def)
qed (simp add: upd_rows_def)

section \<open>Properties\<close>

text \<open>
  Intake: a created task enters with its full set of jobs, ordinals 1 to the
  required number (at least one), all queued and unleased; nothing else changes in the job
  and task tables, the store stays well formed, and the waiting backlog was below the limit.
\<close>

theorem enqueue_creates_task:
  assumes "store_ok db"
    and "enqueue_task clk read fresh new_id backlog q db = Inr ((snap, True), db')"
  shows "\<exists>t n. n = nat (max 1 (q_required_jobs q)) \<and> db_tasks db' = db_tasks db @ [t] \<and>
    snap = task_snapshot_of db' t \<and> t_required_jobs t = n \<and> t_status t = TQueued \<and>
    t_owner_key t = q_owner_key q \<and> t_request_hash t = q_request_hash q \<and>
    (\<exists>new. db_jobs db' = db_jobs db @ new \<and> map j_ordinal new = [1..<Suc n] \<and>
       (\<forall>j \<in> set new. j_task_id j = t_id t \<and> j_status j = JQueued \<and> j_lease_token j = None)) \<and>
    (\<forall>m. backlog = Some m \<longrightarrow> int (count_backlog_tasks db) < max 1 m \<and>
       int (count_backlog_tasks db') \<le> max 1 m) \<and>
    store_ok db'"
  using assms(2)
proof (cases rule: enqueue_task_cases)
  case (1 t)
  then show ?thesis using replay_task_ok(5) [OF 1(2)] by simp
next
  case (2 t)
  from 2(3) obtain n where n: "n = nat (max 1 (if q_required_jobs q = 0 then 1 else q_required_jobs q))" "1 \<le> n"
    and t: "t = new_task_row clk (case q_task_id q of Some i \<Rightarrow> i | None \<Rightarrow> fresh) n q"
    and tasks: "db_tasks db' = db_tasks db @ [t]"
    and jobs: "db_jobs db' = db_jobs db @
      map (\<lambda>k. new_job_row clk (new_id k) (case q_task_id q of Some i \<Rightarrow> i | None \<Rightarrow> fresh) k) [1..<Suc n]"
    by (elim create_taskD) blast
  have n': "n = nat (max 1 (q_required_jobs q))" using n(1) by simp
  have cnt: "count_backlog_tasks db' = count_backlog_tasks db + 1"
    by (simp add: count_backlog_tasks_def tasks t new_task_row_def)
  have snap: "snap = task_snapshot_of db' t" using 2(4) by simp
  have ok: "store_ok db'" by (rule enqueue_task_ok [OF assms])
  have new: "\<exists>new. db_jobs db' = db_jobs db @ new \<and> map j_ordinal new = [1..<Suc n] \<and>
       (\<forall>j \<in> set new. j_task_id j = t_id t \<and> j_status j = JQueued \<and> j_lease_token j = None)"
    unfolding jobs by (intro exI conjI, rule refl)
      (simp_all add: comp_def t new_task_row_def new_job_row_def)
  have row: "t_required_jobs t = n \<and> t_status t = TQueued \<and> t_owner_key t = q_owner_key q \<and>
      t_request_hash t = q_request_hash q"
    by (simp add: t new_task_row_def)
  have lim: "\<forall>m. backlog = Some m \<longrightarrow> int (count_backlog_tasks db) < max 1 m \<and>
      int (count_backlog_tasks db') \<le> max 1 m"
    using 2(2) cnt by auto
  show ?thesis using n' tasks snap row new lim ok by blast
qed

definition demo_enqueue :: enqueue_request where
  "demo_enqueue = \<lparr>q_owner_key = ''o'', q_idempotency_key = ''k2'', q_request_hash = ''h2'',
     q_task_type = ''generation'', q_request_payload = [], q_required_jobs = 2,
     q_client_task_id = '''', q_public_model = ''m'', q_task_id = None, q_input_artifacts = []\<rparr>"

lemma demo_enqueued:
  obtains snap db' where
    "enqueue_task 50 (\<lambda>_. None) 2 (\<lambda>n. 20 + n) (Some 1) demo_enqueue demo_db = Inr ((snap, True), db')"
    "map j_id (db_jobs db') = [10, 11, 21, 22]"
proof -
  have "case enqueue_task 50 (\<lambda>_. None) 2 (\<lambda>n. 20 + n) (Some 1) demo_enqueue demo_db of
      Inr ((snap, c), db') \<Rightarrow> c \<and> map j_id (db_jobs db') = [10, 11, 21, 22] | Inl _ \<Rightarrow> False"
    by code_simp
  with that show ?thesis by (auto split: sum.splits)
qed

theorem enqueue_creates_task_witness:
  "\<exists>snap db'. enqueue_task 50 (\<lambda>_. None) 2 (\<lambda>n. 20 + n) (Some 1) demo_enqueue demo_db = Inr ((snap, True), db') \<and>
     count_backlog_tasks db' \<le> 1 \<and> store_ok db'"
proof -
  from demo_enqueued obtain snap db' where
    r: "enqueue_task 50 (\<lambda>_. None) 2 (\<lambda>n. 20 + n) (Some 1) demo_enqueue demo_db = Inr ((snap, True), db')"
    by blast
  from enqueue_creates_task [OF demo_ok r] r show ?thesis by auto
qed



text \<open>
  A key names one request: a request whose key or client identifier already
  names a task of the owner is never turned into a second task, and with another request
  hash it is refused as a conflict.
\<close>

theorem enqueue_key_conflict:
  assumes "store_ok db" and "py_strip (q_owner_key q) \<noteq> ''''" and "py_strip (q_request_hash q) \<noteq> ''''"
    and "t \<in> set (db_tasks db)" and "t_owner_key t = q_owner_key q"
    and "optional_in (t_idempotency_key t) (request_identifiers q) \<or>
         optional_in (t_client_task_id t) (request_identifiers q)"
    and "t_request_hash t \<noteq> q_request_hash q"
  shows "\<exists>m. enqueue_task clk read fresh new_id backlog q db = Inl (IdempotencyConflict m)"
proof -
  have tin: "t \<in> set (matching_tasks q db)" using assms(4-6) by (simp add: in_matching_tasks)
  have ids: "request_identifiers q \<noteq> []"
    using assms(6) by (auto simp: optional_in_def split: option.splits)
  then have not_none: "matching_existing_task q db \<noteq> Inr None"
    using tin by (auto simp: matching_existing_task_def split: list.splits if_splits)
  show ?thesis
  proof (cases "matching_existing_task q db")
    case (Inl e)
    then obtain m where "e = IdempotencyConflict m"
      by (auto simp: matching_existing_task_def split: if_splits list.splits)
    with Inl assms(2,3) show ?thesis by (auto simp: enqueue_task_def enqueue_session_def)
  next
    case (Inr r)
    with not_none obtain u where u: "matching_existing_task q db = Inr (Some u)" by (cases r) auto
    have "t_id t = t_id u" by (rule matching_existingD(3) [OF u tin])
    with matching_existingD(2) [OF u] assms(1,4) have "u = t"
      by (auto simp: store_ok_def intro: task_unique)
    with u assms(2,3,7) show ?thesis
      by (auto simp: enqueue_task_def enqueue_session_def replay_task_def)
  qed
qed

theorem enqueue_key_conflict_witness:
  "\<exists>m. enqueue_task 50 (\<lambda>_. None) 2 (\<lambda>n. 20 + n) None (demo_enqueue\<lparr>q_client_task_id := ''k ''\<rparr>) demo_db =
     Inl (IdempotencyConflict m)"
proof (rule enqueue_key_conflict [OF demo_ok, of _ demo_task])
  show "demo_task \<in> set (db_tasks demo_db)" by code_simp
qed (simp_all add: demo_enqueue_def demo_task_def, code_simp+)

text \<open>
  Expiry spares paid work: the sweep fails only jobs that were waiting, had not
  consumed quota and had no image URL; every other row of the job table is left untouched,
  and the store stays well formed, the tasks of the failed jobs aggregated.
\<close>

theorem expiry_spares_paid_work:
  assumes "store_ok db" and "expire_pending_tasks clk now ttl db = (tids, db')"
  shows "store_ok db' \<and> length (db_jobs db') = length (db_jobs db) \<and>
    (\<forall>n < length (db_jobs db). db_jobs db' ! n = db_jobs db ! n \<or>
       (waiting_job (j_status (db_jobs db ! n)) \<and> \<not> j_quota_consumed (db_jobs db ! n) \<and>
        j_image_urls (db_jobs db ! n) = [] \<and> j_task_id (db_jobs db ! n) \<in> set tids \<and>
        db_jobs db' ! n = expired_row now (max 1 ttl) (db_jobs db ! n)))"
proof -
  let ?ttl = "max 1 ttl"
  let ?ex = "expirable_job (now - secs ?ttl) db"
  let ?js = "sort_key (\<lambda>j. (j_created_at j, j_id j)) (filter ?ex (db_jobs db))"
  have "distinct (map j_id (db_jobs db))"
    using assms(1) by (simp add: store_ok_def store_ok_except_def keys_ok_def)
  then have "distinct (map j_id (filter ?ex (db_jobs db)))" by (rule distinct_map_filter)
  then have "distinct (map j_id ?js)"
    by (simp add: distinct_map)
  then have jobs: "db_jobs db' = upd_rows (\<lambda>k. j_id k \<in> j_id ` set ?js) (expired_row now ?ttl) (db_jobs db)"
    and tids: "tids = dedup_first (map j_task_id ?js)"
    using assms(2) expire_jobs_rows [of ?js now ?ttl db]
    by (auto simp: expire_pending_tasks_def Let_def)
  have ok: "store_ok db'" using expire_pending_tasks_ok [OF assms(1), of clk now ttl] assms(2) by simp
  have sel: "?ex k" if "k \<in> set (db_jobs db)" "j_id k \<in> j_id ` set ?js" for k
  proof -
    from that(2) obtain j where "j \<in> set (db_jobs db)" "?ex j" "j_id k = j_id j" by auto
    with that(1) assms(1) show ?thesis by (auto simp: store_ok_def dest: job_unique)
  qed
  have paid: "j_image_urls k = [] \<and> waiting_job (j_status k) \<and> \<not> j_quota_consumed k \<and> j_task_id k \<in> set tids"
    if k: "k \<in> set (db_jobs db)" "?ex k" for k
  proof -
    have "job_ok k" using assms(1) k(1) by (auto simp: store_ok_def intro: store_job_ok)
    with k show ?thesis by (auto simp: expirable_job_def job_ok_def waiting_job_def tids)
  qed
  show ?thesis
    using ok sel paid by (auto simp: jobs upd_rows_def)
qed

theorem expiry_spares_paid_work_witness:
  "\<exists>tids db'. expire_pending_tasks 50 100000000 10 demo_db = (tids, db') \<and> store_ok db' \<and>
     map j_status (db_jobs db') = [JRunning, JFailed]"
proof -
  have s: "map j_status (db_jobs (snd (expire_pending_tasks 50 100000000 10 demo_db))) = [JRunning, JFailed]"
    by code_simp
  from expiry_spares_paid_work [OF demo_ok surjective_pairing, of 50 100000000 10] s show ?thesis
    by (metis prod.collapse)
qed

text \<open>
  The queue position tells the truth about the claim order: when every waiting
  job is due and not canceled, a task is at position 1 exactly when the unrestricted claim
  query returns one of its jobs next.
\<close>

theorem queue_position_is_claim_order:
  assumes "store_ok db"
    and "\<And>j. j \<in> set (db_jobs db) \<Longrightarrow> waiting_job (j_status j) \<Longrightarrow> claimable_job now [] None False False db j"
  shows "queue_position (Some tid) db = 1 \<longleftrightarrow>
    (\<exists>j. claimable_job_statement now [] None False False db = Some j \<and> j_task_id j = tid)"
proof -
  let ?W = "filter (\<lambda>j. waiting_job (j_status j)) (db_jobs db)"
  let ?T = "filter (\<lambda>j. j_task_id j = tid \<and> waiting_job (j_status j)) (db_jobs db)"
  have same: "filter (claimable_job now [] None False False db) (db_jobs db) = ?W"
    by (rule filter_cong) (use assms(2) in \<open>auto simp: claimable_job_def\<close>)
  have key: "j = k" if "j \<in> set ?W" "k \<in> set ?W" "job_sort_key j = job_sort_key k" for j k
    using that assms(1) by (auto simp: job_sort_key_def store_ok_def intro: job_unique)
  show ?thesis
  proof
    assume "queue_position (Some tid) db = 1"
    then obtain j where j: "first_by job_sort_key ?T = Some j"
      and none: "\<forall>k \<in> set (db_jobs db). waiting_job (j_status k) \<longrightarrow> \<not> job_sort_key k < job_sort_key j"
      by (auto simp: queue_position_def filter_empty_conv split: option.splits)
    from first_by_Some(1) [OF j] have jW: "j \<in> set ?W" "j_task_id j = tid" by auto
    then obtain m where m: "first_by job_sort_key ?W = Some m"
      using first_by_exists [OF jW(1), of job_sort_key] by blast
    note mm = first_by_Some [OF m]
    have "job_sort_key m \<le> job_sort_key j" by (rule mm(2) [OF jW(1)])
    moreover have "job_sort_key j \<le> job_sort_key m" using none mm(1) by (simp add: not_less)
    ultimately have "m = j" using key [OF mm(1) jW(1)] by (simp add: antisym)
    with m jW same show "\<exists>j. claimable_job_statement now [] None False False db = Some j \<and> j_task_id j = tid"
      by (simp add: claimable_job_statement_def)
  next
    assume "\<exists>j. claimable_job_statement now [] None False False db = Some j \<and> j_task_id j = tid"
    then obtain j where j: "first_by job_sort_key ?W = Some j" "j_task_id j = tid"
      by (auto simp: claimable_job_statement_def same)
    note least = first_by_Some [OF j(1)]
    then have "j \<in> set ?T" using j(2) by auto
    then obtain m where m: "first_by job_sort_key ?T = Some m"
      using first_by_exists [OF \<open>j \<in> set ?T\<close>, of job_sort_key] by blast
    have "job_sort_key m \<le> job_sort_key j" "m \<in> set ?W"
      using first_by_Some [OF m] \<open>j \<in> set ?T\<close> by auto
    with least(2) [of m] have "job_sort_key m = job_sort_key j" by (intro antisym)
    with key [OF \<open>m \<in> set ?W\<close> least(1)] have "m = j" by blast
    have "\<not> job_sort_key k < job_sort_key j" if "k \<in> set (db_jobs db)" "waiting_job (j_status k)" for k
      using least(2) [of k] that by (simp add: not_less)
    then have "filter (\<lambda>k. waiting_job (j_status k) \<and> job_sort_key k < job_sort_key j) (db_jobs db) = []"
      by (simp add: filter_empty_conv)
    with m \<open>m = j\<close> show "queue_position (Some tid) db = 1"
      by (simp add: queue_position_def)
  qed
qed

theorem queue_position_is_claim_order_witness:
  "queue_position (Some 1) demo_db = 1"
proof -
  have "claimable_job 100 [] None False False demo_db j"
    if "j \<in> set (db_jobs demo_db)" "waiting_job (j_status j)" for j
  proof -
    have "list_all (\<lambda>j. waiting_job (j_status j) \<longrightarrow> claimable_job 100 [] None False False demo_db j) (db_jobs demo_db)"
      by code_simp
    with that show ?thesis by (auto simp: list_all_iff)
  qed
  moreover have "claimable_job_statement 100 [] None False False demo_db = Some demo_queued" "j_task_id demo_queued = 1"
    by code_simp+
  ultimately show ?thesis using queue_position_is_claim_order [OF demo_ok, of 100 1] by blast
qed

end
