(* ===== verification/Queue_Recovery.thy ===== *)
theory Queue_Recovery
  imports Queue_Intake
begin

text \<open>
  Bringing jobs back (\<open>repository.py\<close>, \<open>recovery.py\<close>): leases of dead workers are reclaimed,
  queued jobs are put on the stage their checkpoint allows, failed tasks are resumed, local
  artifacts adopted, and results that cannot be delivered are requeued or failed.
\<close>

section \<open>Reclaiming leases\<close>

definition lease_protected :: "claimed_job list \<Rightarrow> image_job \<Rightarrow> bool" where
  "lease_protected claims j \<longleftrightarrow>
     (\<exists>c \<in> set claims. j_id j = j_id (c_job c) \<and> j_lease_token j = Some (c_lease_token c) \<and>
        j_lease_version j = c_lease_version c)"

definition lease_due :: "bool \<Rightarrow> time \<Rightarrow> image_job \<Rightarrow> bool" where
  "lease_due include_unexpired now j \<longleftrightarrow>
     active_job (j_status j) \<and>
     (include_unexpired \<or> (case j_lease_expires_at j of None \<Rightarrow> False | Some e \<Rightarrow> e \<le> now))"

definition owner_text :: "image_job \<Rightarrow> string" where
  "owner_text j = py_strip (text_or_empty (j_lease_owner j))"

definition fresh_worker_cutoff :: "queue_settings \<Rightarrow> time \<Rightarrow> time" where
  "fresh_worker_cutoff cfg now = now - secs (max 60 (2 * lease_seconds cfg))"

text \<open>The owners among \<open>jobs\<close> whose worker sent a heartbeat recently.\<close>

definition owner_active :: "queue_settings \<Rightarrow> time \<Rightarrow> image_job list \<Rightarrow> queue_db \<Rightarrow> string \<Rightarrow> bool" where
  "owner_active cfg now jobs db owner \<longleftrightarrow>
     (\<exists>w \<in> set (db_workers db).
        w_worker_id w \<noteq> '''' \<and> w_worker_id w \<in> owner_text ` set jobs \<and>
        fresh_worker_cutoff cfg now < w_heartbeat_at w \<and> py_strip (w_worker_id w) = owner)"

definition claim_runtime_expired :: "queue_settings \<Rightarrow> time \<Rightarrow> image_job \<Rightarrow> bool" where
  "claim_runtime_expired cfg now j \<longleftrightarrow>
     (case or_else (j_heartbeat_at j) (or_else (j_started_at j) (Some (j_updated_at j))) of
        None \<Rightarrow> True
      | Some t \<Rightarrow> t \<le> now - secs (max (claim_max_runtime_seconds cfg) (lease_seconds cfg)))"

definition reclaimable_jobs ::
  "queue_settings \<Rightarrow> time \<Rightarrow> claimed_job list \<Rightarrow> bool \<Rightarrow> bool \<Rightarrow> queue_db \<Rightarrow> image_job list" where
  "reclaimable_jobs cfg now protected include_unexpired ignore_live_owners db =
     (let due = filter (\<lambda>j. lease_due include_unexpired now j \<and> \<not> lease_protected protected j) (db_jobs db)
      in filter (\<lambda>j. ignore_live_owners \<or> \<not> owner_active cfg now due db (owner_text j) \<or>
                     claim_runtime_expired cfg now j) due)"

definition reclaimed_stage :: "image_job \<Rightarrow> job_stage" where
  "reclaimed_stage j =
     (if j_stage j = SSaving then SSaving
      else if j_image_urls j \<noteq> [] then SDownloading
      else if has_remote_ids j then SResolving
      else SGenerating)"

definition reclaimed_row :: "time \<Rightarrow> bool \<Rightarrow> image_job \<Rightarrow> image_job" where
  "reclaimed_row now canceled j =
     (let j1 = (if canceled
                then j\<lparr>j_status := JCanceled, j_stage := SCanceled, j_completed_at := Some now\<rparr>
                else j\<lparr>j_status := JQueued, j_stage := reclaimed_stage j, j_available_at := now\<rparr>)
      in (clear_job_lease j1)\<lparr>j_lease_version := j_lease_version j + 1, j_updated_at := now\<rparr>)"

definition task_canceled :: "queue_db \<Rightarrow> uuid \<Rightarrow> bool" where
  "task_canceled db tid = (case task_row db tid of None \<Rightarrow> False | Some t \<Rightarrow> t_cancel_requested t)"

definition reclaim_job :: "time \<Rightarrow> image_job \<Rightarrow> queue_db \<Rightarrow> queue_db" where
  "reclaim_job now j db =
     (let canceled = task_canceled db (j_task_id j);
          row = reclaimed_row now canceled j;
          db1 = drop_leases (\<lambda>l. l_job_id l = j_id j) db
      in log_event (j_task_id j) (Some (j_id j))
           (if canceled then ''job_canceled_after_lease_expiry'' else ''lease_expired'') 0
           (Some (job_status_value (j_status j))) (Some (job_status_value (j_status row)))
           [(''lease_version'', JInt (int (j_lease_version row)))]
           (upd_job (j_id j) (reclaimed_row now canceled) db1))"

definition reclaim_expired_leases ::
  "queue_settings \<Rightarrow> time \<Rightarrow> time \<Rightarrow> claimed_job list \<Rightarrow> bool \<Rightarrow> bool \<Rightarrow> queue_db \<Rightarrow> nat \<times> queue_db" where
  "reclaim_expired_leases cfg clk now protected include_unexpired ignore_live_owners db =
     (let jobs = reclaimable_jobs cfg now protected include_unexpired ignore_live_owners db
      in (length jobs,
          fold (aggregate_task clk) (dedup_first (map j_task_id jobs)) (fold (reclaim_job now) jobs db)))"

definition stale_worker_row :: "queue_settings \<Rightarrow> time \<Rightarrow> string \<Rightarrow> worker_state \<Rightarrow> worker_state" where
  "stale_worker_row cfg clk reason w =
     w\<lparr>w_heartbeat_at := clk - secs (max 60 (2 * lease_seconds cfg) + 1), w_worker_active := False,
       w_effective_concurrency := 0, w_pause_reason := Some reason\<rparr>"

definition stale_all_worker_states :: "queue_settings \<Rightarrow> time \<Rightarrow> queue_db \<Rightarrow> nat \<times> queue_db" where
  "stale_all_worker_states cfg clk db =
     (length (db_workers db),
      db\<lparr>db_workers := map (\<lambda>w. (stale_worker_row cfg clk ''restored'' w)\<lparr>w_process_instance_id := ''''\<rparr>)
                         (db_workers db)\<rparr>)"

definition mark_worker_inactive ::
  "queue_settings \<Rightarrow> time \<Rightarrow> string \<Rightarrow> string \<Rightarrow> queue_db \<Rightarrow> bool \<times> queue_db" where
  "mark_worker_inactive cfg clk worker_id process_instance_id db =
     (let worker = py_strip worker_id; expected = py_strip process_instance_id
      in if worker = '''' then (False, db)
         else case find (\<lambda>w. w_worker_id w = worker) (db_workers db) of
                None \<Rightarrow> (False, db)
              | Some w \<Rightarrow>
                  if expected \<noteq> '''' \<and> w_process_instance_id w \<noteq> '''' \<and> w_process_instance_id w \<noteq> expected
                  then (False, db)
                  else (True, db\<lparr>db_workers :=
                          upd_rows (\<lambda>w. w_worker_id w = worker) (stale_worker_row cfg clk ''stopped'')
                            (db_workers db)\<rparr>))"

definition reclaim_restored_leases :: "queue_settings \<Rightarrow> time \<Rightarrow> time \<Rightarrow> queue_db \<Rightarrow> nat \<times> queue_db" where
  "reclaim_restored_leases cfg clk now db =
     reclaim_expired_leases cfg clk now [] True True (snd (stale_all_worker_states cfg clk db))"

section \<open>Requeueing\<close>

definition list_recoverable_jobs :: "queue_db \<Rightarrow> image_job list" where
  "list_recoverable_jobs db =
     filter (\<lambda>j. j_status j = JQueued \<and>
                 j_stage j \<notin> {SQueued, SRetryWait, SSuccess, SFailed, SCanceled}) (db_jobs db)"

definition recovery_row :: "time \<Rightarrow> job_stage \<Rightarrow> image_job \<Rightarrow> image_job" where
  "recovery_row now stage j =
     j\<lparr>j_status := JQueued, j_stage := stage, j_available_at := now, j_next_retry_at := None,
       j_updated_at := now\<rparr>"

definition requeue_job_for_recovery ::
  "uuid \<Rightarrow> job_stage \<Rightarrow> time \<Rightarrow> queue_db \<Rightarrow> bool \<times> queue_db" where
  "requeue_job_for_recovery job_id stage now db =
     (case job_row db job_id of
        None \<Rightarrow> (False, db)
      | Some j \<Rightarrow>
          if terminal_job (j_status j) then (False, db)
          else if \<not> waiting_job (j_status j) then (False, db)
          else if j_lease_owner j \<noteq> None \<or> j_lease_token j \<noteq> None then (False, db)
          else (True, log_event (j_task_id j) (Some (j_id j)) ''job_recovered'' 0
                        (Some (job_stage_value (j_stage j))) (Some (job_stage_value stage))
                        [(''checkpoint'', JStr (job_stage_value stage))]
                        (upd_job (j_id j) (recovery_row now stage) db)))"

definition recover_stage :: "image_job \<Rightarrow> job_stage" where
  "recover_stage j =
     (if j_stage j = SSaving then SSaving
      else if job_can_resume_poll j then (if j_image_urls j \<noteq> [] then SDownloading else SResolving)
      else SGenerating)"

record recovery_summary =
  rv_reclaimed :: nat
  rv_requeued :: nat
  rv_resumed_downloads :: nat
  rv_resumed_generation :: nat

definition recover ::
  "queue_settings \<Rightarrow> time \<Rightarrow> time \<Rightarrow> bool \<Rightarrow> queue_db \<Rightarrow> recovery_summary \<times> queue_db" where
  "recover cfg clk now reclaim_restored db =
     (let (reclaimed, db1) =
            (if reclaim_restored then reclaim_restored_leases cfg clk now db
             else reclaim_expired_leases cfg clk now [] False False db);
          jobs = list_recoverable_jobs db1;
          downloads = length (filter (\<lambda>j. recover_stage j \<noteq> SGenerating) jobs);
          generations = length (filter (\<lambda>j. recover_stage j = SGenerating) jobs);
          db2 = fold (\<lambda>j db. snd (requeue_job_for_recovery (j_id j) (recover_stage j) now db)) jobs db1
      in (\<lparr>rv_reclaimed = reclaimed, rv_requeued = downloads + generations,
           rv_resumed_downloads = downloads, rv_resumed_generation = generations\<rparr>, db2))"

section \<open>Resuming a failed task\<close>

text \<open>The timeout in seconds; None is a value \<open>float\<close> cannot read.\<close>

definition resume_timeout :: "int option \<Rightarrow> int" where
  "resume_timeout extra = (case extra of None \<Rightarrow> 30 | Some x \<Rightarrow> min 120 (max 5 x))"

definition resumable_stage :: "image_job \<Rightarrow> job_stage option" where
  "resumable_stage j =
     (if j_image_urls j \<noteq> [] then Some SDownloading
      else if has_remote_ids j then Some SResolving
      else None)"

definition resumed_row :: "time \<Rightarrow> job_stage \<Rightarrow> image_job \<Rightarrow> image_job" where
  "resumed_row clk stage j =
     j\<lparr>j_status := JQueued, j_stage := stage, j_error_code := None, j_error_message := None,
       j_available_at := clk, j_next_retry_at := None, j_completed_at := None, j_updated_at := clk,
       j_download_attempts := 0\<rparr>"

definition resume_job :: "time \<Rightarrow> int \<Rightarrow> image_job \<Rightarrow> queue_db \<Rightarrow> queue_db" where
  "resume_job clk timeout j db =
     (case resumable_stage j of
        None \<Rightarrow> db
      | Some stage \<Rightarrow>
          log_event (j_task_id j) (Some (j_id j)) ''job_manually_resumed'' 0
            (Some (job_status_value (j_status j))) (Some (job_status_value JQueued))
            [(''checkpoint'', JStr (job_stage_value stage)),
             (''resume_poll_timeout_seconds'', JInt timeout)]
            (upd_job (j_id j) (resumed_row clk stage) db))"

definition reopened_task :: "image_task \<Rightarrow> image_task" where
  "reopened_task t =
     t\<lparr>t_error_code := None, t_error_message := None, t_delivery_status := DPending,
       t_response_attempted_at := None, t_delivery_acked_at := None, t_completed_at := None\<rparr>"

definition failed_jobs_of :: "uuid \<Rightarrow> queue_db \<Rightarrow> image_job list" where
  "failed_jobs_of tid db =
     sort_key j_id (filter (\<lambda>j. j_task_id j = tid \<and> j_status j = JFailed) (db_jobs db))"

definition note_resume_timeout :: "int \<Rightarrow> image_task \<Rightarrow> image_task" where
  "note_resume_timeout timeout t =
     t\<lparr>t_request_payload :=
        dict_set ''resume_poll_timeout_seconds'' (JInt timeout) (t_request_payload t)\<rparr>"

definition resume_task_jobs :: "time \<Rightarrow> int \<Rightarrow> uuid \<Rightarrow> queue_db \<Rightarrow> queue_db" where
  "resume_task_jobs clk timeout tid db =
     aggregate_task clk tid (upd_task tid reopened_task
       (fold (resume_job clk timeout) (failed_jobs_of tid db)
          (upd_task tid (note_resume_timeout timeout) db)))"

definition resume_failed_task ::
  "time \<Rightarrow> string \<Rightarrow> task_ref \<Rightarrow> int option \<Rightarrow> queue_db \<Rightarrow>
   queue_error + (task_snapshot option \<times> queue_db)" where
  "resume_failed_task clk owner_key ref extra db =
     (case find_task db owner_key ref of
        Inl e \<Rightarrow> Inl e
      | Inr None \<Rightarrow> Inr (None, db)
      | Inr (Some t) \<Rightarrow>
          if t_cancel_requested t
          then Inl (ValueError ''canceled image task cannot be resumed'')
          else if \<forall>j \<in> set (failed_jobs_of (t_id t) db). resumable_stage j = None
          then Inl (ValueError ''image task has no recoverable remote checkpoint'')
          else let db' = resume_task_jobs clk (resume_timeout extra) (t_id t) db
               in Inr (snapshot_by_id db' (t_id t), db'))"

section \<open>Local artifacts\<close>

definition adopted_stage :: "string \<Rightarrow> job_stage" where
  "adopted_stage kind = (if kind = ''downloaded'' then STransforming else SSaving)"

definition adopted_row :: "time \<Rightarrow> job_stage \<Rightarrow> image_job \<Rightarrow> image_job" where
  "adopted_row clk stage j =
     clear_job_lease
       (j\<lparr>j_status := JQueued, j_stage := stage, j_available_at := clk, j_next_retry_at := None,
          j_completed_at := None, j_error_code := None, j_error_message := None, j_updated_at := clk\<rparr>)"

definition adopt_recovery_artifact ::
  "time \<Rightarrow> uuid \<Rightarrow> artifact_descriptor \<Rightarrow> string \<Rightarrow> queue_db \<Rightarrow> queue_error + (bool \<times> queue_db)" where
  "adopt_recovery_artifact clk job_id d worker_id db =
     (if d_kind d \<notin> {''downloaded'', ''upscaled'', ''final''}
      then Inl (ValueError ''only image job output artifacts can be recovered'')
      else if d_status d \<noteq> AReady then Inl (ValueError ''only ready artifacts can be recovered'')
      else case job_row db job_id of
             None \<Rightarrow> Inr (False, db)
           | Some j \<Rightarrow>
               let timed_out = (j_status j = JFailed \<and> j_error_code j = Some ''image_claim_timeout'')
               in if \<not> waiting_job (j_status j) \<and> \<not> timed_out then Inr (False, db)
                  else if d_task_id d \<noteq> j_task_id j \<or> d_job_id d \<noteq> Some (j_id j)
                  then Inl (ValueError ''artifact does not belong to recoverable job'')
                  else if artifact_at db (d_relative_path d) \<noteq> None then Inr (False, db)
                  else case insert_artifact (artifact_row clk d worker_id None) db of
                         Inl e \<Rightarrow> Inl e
                       | Inr db1 \<Rightarrow>
                           if timed_out
                           then let db2 = upd_job (j_id j) (adopted_row clk (adopted_stage (d_kind d))) db1;
                                    db3 = upd_task (j_task_id j)
                                      (\<lambda>t. t\<lparr>t_error_code := None, t_error_message := None,
                                             t_completed_at := None\<rparr>) db2;
                                    db4 = log_event (j_task_id j) (Some (j_id j)) ''job_recovered'' 0
                                      (Some (job_status_value (j_status j)))
                                      (Some (job_status_value JQueued))
                                      [(''kind'', JStr (d_kind d)),
                                       (''artifact_path'', JStr (d_relative_path d)),
                                       (''sha256'', JStr (d_sha256 d)),
                                       (''recovery'', JStr ''timeout'')] db3
                                in Inr (True, aggregate_task clk (j_task_id j) db4)
                           else Inr (True, log_event (j_task_id j) (Some (j_id j)) ''artifact_recovered''
                                  (attempts_sum j) None None
                                  [(''kind'', JStr (d_kind d)),
                                   (''artifact_path'', JStr (d_relative_path d)),
                                   (''sha256'', JStr (d_sha256 d))] db1))"

section \<open>Undeliverable results\<close>

definition owned_task_of_job ::
  "string \<Rightarrow> uuid \<Rightarrow> uuid \<Rightarrow> queue_db \<Rightarrow> (image_job \<times> image_task) option" where
  "owned_task_of_job owner_key tid jid db =
     (case find (\<lambda>j. j_id j = jid \<and> j_task_id j = tid) (db_jobs db) of
        None \<Rightarrow> None
      | Some j \<Rightarrow>
          (case find (\<lambda>t. t_id t = tid \<and> t_owner_key t = owner_key) (db_tasks db) of
             None \<Rightarrow> None
           | Some t \<Rightarrow> Some (j, t)))"

definition requeue_plan :: "string \<Rightarrow> image_job \<Rightarrow> (job_stage \<times> string list) option" where
  "requeue_plan local_kind j =
     (if local_kind = ''upscaled'' then Some (SSaving, [''final''])
      else if local_kind = ''downloaded'' then Some (STransforming, [''final'', ''upscaled''])
      else if j_image_urls j \<noteq> [] then Some (SDownloading, [''final'', ''upscaled'', ''downloaded''])
      else if has_remote_ids j then Some (SResolving, [''final'', ''upscaled'', ''downloaded''])
      else None)"

definition requeued_row :: "time \<Rightarrow> job_stage \<Rightarrow> image_job \<Rightarrow> image_job" where
  "requeued_row clk stage j =
     j\<lparr>j_status := JQueued, j_stage := stage,
       j_result_payload := payload_preserving_image_attempts (j_result_payload j),
       j_error_code := None, j_error_message := None, j_available_at := clk,
       j_next_retry_at := None, j_completed_at := None, j_updated_at := clk\<rparr>"

definition artifact_of_kinds :: "uuid \<Rightarrow> string list \<Rightarrow> task_artifact \<Rightarrow> bool" where
  "artifact_of_kinds jid kinds a \<longleftrightarrow> a_job_id a = Some jid \<and> a_kind a \<in> set kinds"

definition requeue_undeliverable_result ::
  "time \<Rightarrow> string \<Rightarrow> uuid \<Rightarrow> uuid \<Rightarrow> string \<Rightarrow> string \<Rightarrow> queue_db \<Rightarrow>
   queue_error + (task_snapshot option \<times> queue_db)" where
  "requeue_undeliverable_result clk owner_key tid jid local_kind error_message db =
     (if local_kind \<notin> {'''', ''downloaded'', ''upscaled''}
      then Inl (ValueError ''invalid local recovery artifact kind'')
      else case owned_task_of_job owner_key tid jid db of
             None \<Rightarrow> Inr (None, db)
           | Some (j, t) \<Rightarrow>
               if j_status j \<noteq> JSuccess then Inr (Some (task_snapshot_of db t), db)
               else case requeue_plan local_kind j of
                      None \<Rightarrow> Inr (None, db)
                    | Some (stage, discard) \<Rightarrow>
                        let gone = artifact_of_kinds jid discard;
                            paths = map a_relative_path (filter gone (db_artifacts db));
                            db1 = upd_artifacts gone invalid_artifact db;
                            db2 = (if paths = [] then db1
                                   else log_event tid (Some jid) ''result_artifacts_marked_for_cleanup''
                                          (attempts_sum j) None None
                                          [(''paths'', JList (map JStr paths))] db1);
                            db3 = upd_job jid (requeued_row clk stage) db2;
                            db4 = upd_task tid reopened_task db3;
                            db5 = log_event tid (Some jid) ''result_artifact_recovery_queued''
                                    (attempts_sum j) (Some (job_status_value (j_status j)))
                                    (Some (job_status_value JQueued))
                                    [(''recovery_stage'', JStr (job_stage_value stage)),
                                     (''error'', if error_message = '''' then JMsg MFinalUndeliverable
                                                 else JStr error_message)] db4;
                            db6 = aggregate_task clk tid db5
                        in Inr (snapshot_by_id db6 tid, db6))"

definition undeliverable_row :: "time \<Rightarrow> string \<Rightarrow> string \<Rightarrow> image_job \<Rightarrow> image_job" where
  "undeliverable_row now code message j0 =
     (let j = touch_stage_timing j0 (j_stage j0) SFailed now
      in clear_job_lease
           (j\<lparr>j_status := JFailed, j_stage := SFailed,
              j_result_payload := payload_preserving_image_attempts (j_result_payload j0),
              j_error_code := Some code, j_error_message := Some (MText message),
              j_available_at := now, j_completed_at := Some now, j_updated_at := now\<rparr>))"

definition fail_undeliverable_result ::
  "time \<Rightarrow> time \<Rightarrow> string \<Rightarrow> uuid \<Rightarrow> uuid \<Rightarrow> string \<Rightarrow> string \<Rightarrow> queue_db \<Rightarrow>
   task_snapshot option \<times> queue_db" where
  "fail_undeliverable_result clk failed_at owner_key tid jid code message db =
     (case owned_task_of_job owner_key tid jid db of
        None \<Rightarrow> (None, db)
      | Some (j, t) \<Rightarrow>
          if j_status j \<noteq> JSuccess then (Some (task_snapshot_of db t), db)
          else
            let gone = recovery_artifact [''final''] jid;
                paths = map a_relative_path (filter gone (db_artifacts db));
                db1 = upd_artifacts gone invalid_artifact
                        (upd_job jid (undeliverable_row failed_at code message) db);
                db2 = log_event tid (Some jid) ''result_url_unreachable'' (attempts_sum j)
                        (Some (job_status_value (j_status j))) (Some (job_status_value JFailed))
                        [(''error_code'', JStr code), (''error_message'', JStr message),
                         (''artifact_paths'', JList (map JStr paths))] db1;
                db3 = aggregate_task clk tid db2
            in (snapshot_by_id db3 tid, db3))"

definition remove_invalid_artifacts :: "uuid \<Rightarrow> string list \<Rightarrow> queue_db \<Rightarrow> nat \<times> queue_db" where
  "remove_invalid_artifacts tid relative_paths db =
     (let paths = filter (\<lambda>p. p \<noteq> '''') (map py_strip relative_paths);
          gone = (\<lambda>a. a_task_id a = tid \<and> a_relative_path a \<in> set paths \<and> a_status a = AInvalid)
      in (length (filter gone (db_artifacts db)),
          db\<lparr>db_artifacts := filter (\<lambda>a. \<not> gone a) (db_artifacts db)\<rparr>))"

definition list_local_recovery_candidates :: "queue_db \<Rightarrow> image_job list" where
  "list_local_recovery_candidates db =
     take 100 (sort_key job_sort_key
       (filter (\<lambda>j.
          (waiting_job (j_status j) \<and> j_stage j \<in> {SResolving, SDownloading, STransforming, SSaving} \<or>
           j_status j = JFailed \<and> j_error_code j = Some ''image_claim_timeout'' \<and> j_stage j = SFailed) \<and>
          (\<exists>t \<in> set (db_tasks db). t_id t = j_task_id j \<and> \<not> t_cancel_requested t) \<and>
          \<not> (\<exists>a \<in> set (db_artifacts db).
               recovery_artifact [''downloaded'', ''upscaled'', ''final''] (j_id j) a))
        (db_jobs db)))"

end
