(* ===== verification/Queue_Recovery_Correct.thy ===== *)
theory Queue_Recovery_Correct
  imports Queue_Recovery Queue_Intake_Correct
begin

text \<open>
  Recovery keeps the store well formed; a reclaimed lease is gone for good; a job with a
  checkpoint is never generated again; only failed work with a checkpoint is resumed; and a
  requeued result of a canceled task is stuck.
\<close>

section \<open>Waiting jobs\<close>

text \<open>A task does not tell the two waiting statuses of its jobs apart.\<close>

definition collapse_waiting :: "job_status \<Rightarrow> job_status" where
  "collapse_waiting s = (if waiting_job s then JQueued else s)"

lemma count_list_collapse:
  "\<not> waiting_job x \<Longrightarrow> count_list (map collapse_waiting ss) x = count_list ss x"
  by (induction ss) (auto simp: collapse_waiting_def)

lemma task_ok_collapse: "task_ok t (map collapse_waiting ss) = task_ok t ss"
proof -
  have "all_terminal (map collapse_waiting ss) = all_terminal ss"
    by (auto simp: all_terminal_def collapse_waiting_def waiting_job_def terminal_job_def)
  moreover have "collapse_waiting s = JSuccess \<longleftrightarrow> s = JSuccess" for s
    by (auto simp: collapse_waiting_def)
  then have "task_outcome c (map collapse_waiting ss) = task_outcome c ss" for c
    by (simp add: task_outcome_def)
  ultimately show ?thesis
    by (simp add: task_ok_def count_list_collapse)
qed

lemma ok_upd_job_waiting:
  assumes ok: "store_ok db" and j0: "j0 \<in> set (db_jobs db)" "j_id j0 = i" "waiting_job (j_status j0)"
    and f: "j_id (f j0) = i" "j_task_id (f j0) = j_task_id j0" "job_ok (f j0)"
      "waiting_job (j_status (f j0))"
  shows "store_ok (upd_job i f db)"
proof -
  let ?db = "upd_job i f db"
  have only: "k = j0" if "k \<in> set (db_jobs db)" "j_id k = i" for k
    using ok that j0 by (auto simp: store_ok_def intro: job_unique)
  have inactive: "\<not> active_job (j_status j0)" using j0(3) job_status_groups by blast
  have exc: "store_ok_except {j_task_id j0} ?db"
  proof (rule ok_upd_job_inactive [where f = f, OF store_ok_exceptI [OF ok] j0(1,2) f(1-3)])
    show "l_job_id l \<noteq> i" if "l \<in> set (db_leases db)" for l
      using no_lease_when_inactive [OF store_ok_exceptI [OF ok] j0(1) inactive that] j0(2) by simp
  qed simp
  have filt: "filter (\<lambda>k. j_task_id k = tid) (db_jobs ?db) =
      upd_rows (\<lambda>k. j_id k = i) f (filter (\<lambda>k. j_task_id k = tid) (db_jobs db))" for tid
    unfolding db_jobs_upd_job by (rule filter_upd_rows_same) (use only f(2) in auto)
  have "map (\<lambda>k. collapse_waiting (j_status k)) (upd_rows (\<lambda>k. j_id k = i) f
      (filter (\<lambda>k. j_task_id k = tid) (db_jobs db))) =
    map (\<lambda>k. collapse_waiting (j_status k)) (filter (\<lambda>k. j_task_id k = tid) (db_jobs db))" for tid
    by (rule map_upd_rows) (use only f(4) j0(3) in \<open>auto simp: collapse_waiting_def\<close>)
  then have "map collapse_waiting (statuses_of ?db tid) = map collapse_waiting (statuses_of db tid)" for tid
    by (simp add: statuses_of_def filt comp_def)
  then have "task_ok t (statuses_of ?db tid) = task_ok t (statuses_of db tid)" for t tid
    using task_ok_collapse by metis
  with ok exc show ?thesis
    by (simp add: store_ok_def store_ok_except_def)
qed

section \<open>Folds over jobs and tasks\<close>

lemma aggregate_all_ok:
  "store_ok_except (set tids \<union> S) db \<Longrightarrow> store_ok_except S (fold (aggregate_task clk) tids db)"
proof (induction tids arbitrary: db)
  case (Cons tid tids)
  then have "store_ok_except (insert tid (set tids \<union> S)) db" by simp
  from Cons.IH [OF ok_aggregate [OF this]] show ?case by simp
qed simp

lemma aggregate_all_projections [simp]:
  "db_jobs (fold (aggregate_task clk) tids db) = db_jobs db"
  "db_leases (fold (aggregate_task clk) tids db) = db_leases db"
  "db_artifacts (fold (aggregate_task clk) tids db) = db_artifacts db"
  "db_workers (fold (aggregate_task clk) tids db) = db_workers db"
  by (induction tids arbitrary: db) simp_all

text \<open>The jobs with an identity in \<open>ids\<close> belong to the tasks in \<open>S\<close>.\<close>

definition jobs_within :: "uuid set \<Rightarrow> uuid set \<Rightarrow> queue_db \<Rightarrow> bool" where
  "jobs_within S ids db \<longleftrightarrow> (\<forall>k \<in> set (db_jobs db). j_id k \<in> ids \<longrightarrow> j_task_id k \<in> S)"

lemma jobs_within_upd_job:
  assumes "jobs_within S ids db" and "\<And>k. j_id (f k) = j_id k" and "\<And>k. j_task_id (f k) = j_task_id k"
  shows "jobs_within S ids (upd_job i f db)"
  unfolding jobs_within_def
proof (intro ballI impI)
  fix k assume k: "k \<in> set (db_jobs (upd_job i f db))" "j_id k \<in> ids"
  from k(1) obtain k0 where k0: "k0 \<in> set (db_jobs db)" "k = (if j_id k0 = i then f k0 else k0)"
    unfolding db_jobs_upd_job by (rule in_upd_rowsE)
  then have "j_id k = j_id k0" "j_task_id k = j_task_id k0" using assms(2,3) by simp_all
  with assms(1) k(2) k0(1) show "j_task_id k \<in> S" by (simp add: jobs_within_def)
qed

lemma jobs_within_frame:
  "db_jobs db' = db_jobs db \<Longrightarrow> jobs_within S ids db' = jobs_within S ids db"
  by (simp add: jobs_within_def)

lemma id_in_selected:
  "(\<And>j. j \<in> set js \<Longrightarrow> j_id k = j_id j \<Longrightarrow> k = j) \<Longrightarrow> j_id k \<in> j_id ` set js \<longleftrightarrow> k \<in> set js"
  by blast

lemma jobs_within_selected:
  assumes "store_ok db" and "\<And>j. j \<in> set js \<Longrightarrow> j \<in> set (db_jobs db)"
  shows "jobs_within (j_task_id ` set js) (j_id ` set js) db"
  unfolding jobs_within_def
proof (intro ballI impI)
  fix k assume "k \<in> set (db_jobs db)" "j_id k \<in> j_id ` set js"
  with assms have "k \<in> set js" by (auto simp: store_ok_def dest: job_unique)
  then show "j_task_id k \<in> j_task_id ` set js" by simp
qed

section \<open>Reclaiming\<close>

lemma reclaimed_row_simps [simp]:
  "j_id (reclaimed_row now c j) = j_id j" "j_task_id (reclaimed_row now c j) = j_task_id j"
  "j_status (reclaimed_row now c j) = (if c then JCanceled else JQueued)"
  "j_stage (reclaimed_row now c j) = (if c then SCanceled else reclaimed_stage j)"
  "j_lease_token (reclaimed_row now c j) = None" "j_lease_owner (reclaimed_row now c j) = None"
  "j_lease_version (reclaimed_row now c j) = j_lease_version j + 1"
  "j_image_urls (reclaimed_row now c j) = j_image_urls j"
  "j_quota_consumed (reclaimed_row now c j) = j_quota_consumed j"
  "j_conversation_id (reclaimed_row now c j) = j_conversation_id j"
  "j_file_ids (reclaimed_row now c j) = j_file_ids j"
  "j_sediment_ids (reclaimed_row now c j) = j_sediment_ids j"
  by (simp_all add: reclaimed_row_def Let_def clear_job_lease_def)

lemma reclaimed_row_ok: "job_ok j \<Longrightarrow> job_ok (reclaimed_row now c j)"
  by (auto simp: job_ok_def reclaimed_row_def Let_def clear_job_lease_def)

lemma reclaim_job_step:
  assumes "store_ok_except S db" and "jobs_within S ids db" and "j_id j \<in> ids"
  shows "store_ok_except S (reclaim_job now j db) \<and> jobs_within S ids (reclaim_job now j db)"
proof -
  let ?db1 = "drop_leases (\<lambda>l. l_job_id l = j_id j) db"
  let ?f = "reclaimed_row now (task_canceled db (j_task_id j))"
  have w: "jobs_within S ids ?db1" using assms(2) by (simp add: jobs_within_def)
  have "store_ok_except S (upd_job (j_id j) ?f ?db1)"
    by (rule ok_upd_job_row [OF ok_drop_leases [OF assms(1)]])
       (use assms w in \<open>auto simp: db_leases_drop jobs_within_def
          intro: reclaimed_row_ok store_job_ok\<close>)
  moreover have "jobs_within S ids (upd_job (j_id j) ?f ?db1)"
    by (rule jobs_within_upd_job [OF w]) simp_all
  ultimately show ?thesis
    by (simp add: reclaim_job_def Let_def jobs_within_def)
qed

lemma reclaim_expired_leases_ok:
  assumes ok: "store_ok db"
  shows "store_ok (snd (reclaim_expired_leases cfg clk now prot all_due ignore db))"
proof -
  let ?js = "reclaimable_jobs cfg now prot all_due ignore db"
  let ?S = "j_task_id ` set ?js" and ?I = "j_id ` set ?js"
  have js: "j \<in> set (db_jobs db)" if "j \<in> set ?js" for j
    using that by (auto simp: reclaimable_jobs_def Let_def)
  have "store_ok_except ?S (fold (reclaim_job now) ?js db) \<and> jobs_within ?S ?I (fold (reclaim_job now) ?js db)"
    by (rule fold_invariant [where Q = "\<lambda>j. j_id j \<in> ?I"])
       (use ok js in \<open>auto intro: store_ok_exceptI jobs_within_selected dest: reclaim_job_step\<close>)
  then have "store_ok_except (set (dedup_first (map j_task_id ?js)) \<union> {}) (fold (reclaim_job now) ?js db)"
    by simp
  from aggregate_all_ok [OF this] show ?thesis
    by (simp add: reclaim_expired_leases_def Let_def store_ok_def)
qed

lemma store_ok_workers [simp]: "store_ok (db\<lparr>db_workers := w\<rparr>) = store_ok db"
  by (simp add: store_ok_def)

lemma reclaim_restored_leases_ok:
  "store_ok db \<Longrightarrow> store_ok (snd (reclaim_restored_leases cfg clk now db))"
  unfolding reclaim_restored_leases_def
  by (rule reclaim_expired_leases_ok) (simp add: stale_all_worker_states_def)

lemma mark_worker_inactive_ok:
  "store_ok db \<Longrightarrow> store_ok (snd (mark_worker_inactive cfg clk w p db))"
  by (simp add: mark_worker_inactive_def Let_def split: option.splits)

section \<open>Requeueing and resuming\<close>

lemma recovery_row_ok: "job_ok j \<Longrightarrow> waiting_job (j_status j) \<Longrightarrow> job_ok (recovery_row now stage j)"
  by (auto simp: job_ok_def recovery_row_def waiting_job_def)

lemma requeue_job_for_recovery_ok:
  assumes ok: "store_ok db"
  shows "store_ok (snd (requeue_job_for_recovery jid stage now db))"
proof (cases "job_row db jid")
  case (Some j)
  note j = job_rowD [OF Some]
  show ?thesis
  proof (cases "waiting_job (j_status j)")
    case True
    have "store_ok (upd_job (j_id j) (recovery_row now stage) db)"
      by (rule ok_upd_job_waiting [OF ok, of j])
         (use True j ok in \<open>auto simp: store_ok_def recovery_row_def [of now stage j]
            intro: recovery_row_ok [unfolded recovery_row_def] store_job_ok\<close>)
    with Some ok show ?thesis by (simp add: requeue_job_for_recovery_def store_ok_def)
  qed (use Some ok in \<open>simp add: requeue_job_for_recovery_def\<close>)
qed (use ok in \<open>simp add: requeue_job_for_recovery_def\<close>)

lemma recover_ok:
  assumes "store_ok db"
  shows "store_ok (snd (recover cfg clk now restored db))"
proof -
  let ?r = "if restored then reclaim_restored_leases cfg clk now db
            else reclaim_expired_leases cfg clk now [] False False db"
  have r: "store_ok (snd ?r)"
    using assms by (simp add: reclaim_restored_leases_ok reclaim_expired_leases_ok)
  have "store_ok (fold (\<lambda>j db. snd (requeue_job_for_recovery (j_id j) (recover_stage j) now db)) js (snd ?r))" for js
    by (rule fold_invariant [where Q = "\<lambda>_. True"]) (use r in \<open>auto intro: requeue_job_for_recovery_ok\<close>)
  then show ?thesis by (cases ?r) (simp add: recover_def Let_def split: prod.split)
qed

definition inactive_within :: "uuid set \<Rightarrow> queue_db \<Rightarrow> bool" where
  "inactive_within ids db \<longleftrightarrow>
     (\<forall>k \<in> set (db_jobs db). j_id k \<in> ids \<longrightarrow> \<not> active_job (j_status k))"

lemma resumed_row_simps [simp]:
  "j_id (resumed_row clk s j) = j_id j" "j_task_id (resumed_row clk s j) = j_task_id j"
  "j_status (resumed_row clk s j) = JQueued" "j_stage (resumed_row clk s j) = s"
  by (simp_all add: resumed_row_def)

lemma resumed_row_ok: "job_ok j \<Longrightarrow> \<not> active_job (j_status j) \<Longrightarrow> job_ok (resumed_row clk s j)"
  by (auto simp: job_ok_def resumed_row_def)

lemma inactive_within_upd_job:
  assumes "inactive_within ids db" and "\<And>k. j_id (f k) = j_id k" and "\<And>k. \<not> active_job (j_status (f k))"
  shows "inactive_within ids (upd_job i f db)"
  unfolding inactive_within_def
proof (intro ballI impI)
  fix k assume k: "k \<in> set (db_jobs (upd_job i f db))" "j_id k \<in> ids"
  from k(1) obtain k0 where k0: "k0 \<in> set (db_jobs db)" "k = (if j_id k0 = i then f k0 else k0)"
    unfolding db_jobs_upd_job by (rule in_upd_rowsE)
  then have "j_id k = j_id k0" using assms(2) by simp
  with assms(1,3) k(2) k0 show "\<not> active_job (j_status k)" by (auto simp: inactive_within_def)
qed

lemma inactive_no_lease:
  assumes "store_ok_except S db" and "inactive_within ids db" and "i \<in> ids"
    and "l \<in> set (db_leases db)"
  shows "l_job_id l \<noteq> i"
proof
  assume "l_job_id l = i"
  with assms(1,4) obtain k where "k \<in> set (db_jobs db)" "j_id k = i" "lease_matches k l"
    by (auto simp: store_ok_except_def lease_ok_def)
  with assms(2,3) show False by (auto simp: inactive_within_def lease_matches_def)
qed

lemma rewrite_within_step:
  assumes "store_ok_except S db" and "jobs_within S ids db" and "inactive_within ids db" and "i \<in> ids"
    and "\<And>k. j_id (f k) = j_id k" and "\<And>k. j_task_id (f k) = j_task_id k"
    and "\<And>k. \<not> active_job (j_status (f k))"
    and "\<And>k. job_ok k \<Longrightarrow> \<not> active_job (j_status k) \<Longrightarrow> job_ok (f k)"
  shows "store_ok_except S (upd_job i f db) \<and> jobs_within S ids (upd_job i f db) \<and>
         inactive_within ids (upd_job i f db)"
proof -
  have "store_ok_except S (upd_job i f db)"
  proof (rule ok_upd_job_row [OF assms(1) inactive_no_lease [OF assms(1,3,4)]])
    fix j assume j: "j \<in> set (db_jobs db)" "j_id j = i"
    with assms(2-4) have "j_task_id j \<in> S" "\<not> active_job (j_status j)"
      by (auto simp: jobs_within_def inactive_within_def)
    with assms(5,6) j assms(8) [OF store_job_ok [OF assms(1) j(1)]]
    show "j_id (f j) = i \<and> j_task_id (f j) = j_task_id j \<and> job_ok (f j) \<and> j_task_id j \<in> S" by simp
  qed
  moreover have "jobs_within S ids (upd_job i f db)"
    by (rule jobs_within_upd_job [OF assms(2,5,6)])
  moreover have "inactive_within ids (upd_job i f db)"
    by (rule inactive_within_upd_job [OF assms(3,5,7)])
  ultimately show ?thesis by blast
qed

lemma resume_job_step:
  assumes "store_ok_except S db" and "jobs_within S ids db" and "inactive_within ids db" and "j_id j \<in> ids"
  shows "store_ok_except S (resume_job clk n j db) \<and> jobs_within S ids (resume_job clk n j db) \<and>
         inactive_within ids (resume_job clk n j db)"
proof (cases "resumable_stage j")
  case (Some s)
  have "store_ok_except S (upd_job (j_id j) (resumed_row clk s) db) \<and>
      jobs_within S ids (upd_job (j_id j) (resumed_row clk s) db) \<and>
      inactive_within ids (upd_job (j_id j) (resumed_row clk s) db)"
    by (rule rewrite_within_step [OF assms]) (simp_all add: resumed_row_ok)
  with Some show ?thesis by (simp add: resume_job_def jobs_within_def inactive_within_def)
qed (use assms in \<open>simp add: resume_job_def\<close>)

text \<open>What a resumption that is not refused did.\<close>

lemma resume_failed_taskD:
  assumes "resume_failed_task clk owner ref extra db = Inr (snap, db')"
  obtains "find_task db owner ref = Inr None" "db' = db"
  | t where "find_task db owner ref = Inr (Some t)" "\<not> t_cancel_requested t"
    "\<exists>j \<in> set (failed_jobs_of (t_id t) db). resumable_stage j \<noteq> None"
    "snap = snapshot_by_id db' (t_id t)" "db' = resume_task_jobs clk (resume_timeout extra) (t_id t) db"
proof (cases "find_task db owner ref")
  case (Inr r)
  show ?thesis
  proof (cases r)
    case None
    with Inr assms show ?thesis by (intro that(1)) (simp_all add: resume_failed_task_def)
  next
    case (Some t)
    with Inr assms show ?thesis
      by (intro that(2) [of t]) (auto simp: resume_failed_task_def Let_def split: if_splits)
  qed
qed (use assms in \<open>simp add: resume_failed_task_def\<close>)

lemma failed_jobs_ofD:
  assumes "j \<in> set (failed_jobs_of tid db)"
  shows "j \<in> set (db_jobs db)" "j_status j = JFailed" "j_task_id j = tid"
  using assms by (auto simp: failed_jobs_of_def)

lemma resume_jobs_ok:
  assumes "store_ok_except S db" and "jobs_within S (j_id ` set js) db" and "inactive_within (j_id ` set js) db"
  shows "store_ok_except S (fold (resume_job clk n) js db)"
proof -
  have "store_ok_except S (fold (resume_job clk n) js db) \<and> jobs_within S (j_id ` set js) (fold (resume_job clk n) js db) \<and>
      inactive_within (j_id ` set js) (fold (resume_job clk n) js db)"
  proof (rule fold_invariant [where Q = "\<lambda>j. j_id j \<in> j_id ` set js"])
    show "store_ok_except S db \<and> jobs_within S (j_id ` set js) db \<and> inactive_within (j_id ` set js) db"
      using assms by blast
  qed (use resume_job_step in auto)
  then show ?thesis by blast
qed

lemma resume_task_jobs_ok:
  assumes ok: "store_ok db"
  shows "store_ok (resume_task_jobs clk n tid db)"
proof -
  let ?js = "failed_jobs_of tid db" and ?db1 = "upd_task tid (note_resume_timeout n) db"
  have ok1: "store_ok ?db1"
    using ok unfolding store_ok_def
    by (rule ok_upd_task_same) (simp add: note_resume_timeout_def task_same_def task_frame_def)
  have in_js: "k \<in> set ?js" if "k \<in> set (db_jobs db)" "j_id k \<in> j_id ` set ?js" for k
    using that ok failed_jobs_ofD(1) by (auto simp: store_ok_def dest: job_unique)
  have "j_status k = JFailed \<and> j_task_id k = tid" if "k \<in> set (db_jobs db)" "j_id k \<in> j_id ` set ?js" for k
    using failed_jobs_ofD(2,3) [OF in_js [OF that]] by simp
  then have "inactive_within (j_id ` set ?js) ?db1" "jobs_within {tid} (j_id ` set ?js) ?db1"
    unfolding inactive_within_def jobs_within_def by fastforce+
  then have "store_ok_except {tid} (fold (resume_job clk n) ?js ?db1)"
    by (intro resume_jobs_ok store_ok_exceptI ok1)
  then have "store_ok_except {tid} (upd_task tid reopened_task (fold (resume_job clk n) ?js ?db1))"
    by (rule ok_upd_task_pending) (simp_all add: task_frame_def reopened_task_def)
  then show ?thesis unfolding resume_task_jobs_def by (rule settle_ok)
qed

lemma resume_failed_task_ok:
  assumes "store_ok db" and "resume_failed_task clk owner ref extra db = Inr (snap, db')"
  shows "store_ok db'"
  by (rule resume_failed_taskD [OF assms(2)]) (use assms(1) resume_task_jobs_ok in simp_all)

section \<open>Artifacts and undeliverable results\<close>

text \<open>A job no worker holds is rewritten; its task is aggregated afterwards.\<close>

lemma rewrite_inactive_ok:
  assumes ok: "store_ok db" and j: "j \<in> set (db_jobs db)" "\<not> active_job (j_status j)"
    and f: "j_id (f j) = j_id j" "j_task_id (f j) = j_task_id j" "job_ok (f j)"
  shows "store_ok_except {j_task_id j} (upd_job (j_id j) f db)"
proof (rule ok_upd_job_inactive [where f = f, OF store_ok_exceptI [OF ok] j(1) refl f])
  show "l_job_id l \<noteq> j_id j" if "l \<in> set (db_leases db)" for l
    by (rule no_lease_when_inactive [OF store_ok_exceptI [OF ok] j that])
qed simp

lemma recovery_rows_simps [simp]:
  "j_id (adopted_row clk s j) = j_id j" "j_task_id (adopted_row clk s j) = j_task_id j"
  "j_status (adopted_row clk s j) = JQueued"
  "j_id (requeued_row clk s j) = j_id j" "j_task_id (requeued_row clk s j) = j_task_id j"
  "j_status (requeued_row clk s j) = JQueued" "j_stage (requeued_row clk s j) = s"
  "j_id (undeliverable_row now code m j) = j_id j"
  "j_task_id (undeliverable_row now code m j) = j_task_id j"
  "j_status (undeliverable_row now code m j) = JFailed"
  by (simp_all add: adopted_row_def requeued_row_def undeliverable_row_def touch_stage_timing_def Let_def)

lemma recovery_rows_ok:
  assumes "job_ok j" and "\<not> active_job (j_status j)"
  shows "job_ok (adopted_row clk s j)" "job_ok (requeued_row clk s j)"
    "job_ok (undeliverable_row now code m j)"
  using assms
  by (auto simp: job_ok_def adopted_row_def requeued_row_def undeliverable_row_def
      touch_stage_timing_def Let_def)

lemma store_ok_insert_artifact:
  "insert_artifact a db = Inr db' \<Longrightarrow> store_ok db' = store_ok db"
  by (auto simp: insert_artifact_def store_ok_def split: if_splits)

lemma adopt_recovery_artifact_ok:
  assumes ok: "store_ok db" and a: "adopt_recovery_artifact clk jid d w db = Inr (r, db')"
  shows "store_ok db'"
proof (cases "job_row db jid")
  case None
  with a ok show ?thesis by (auto simp: adopt_recovery_artifact_def split: if_splits)
next
  case (Some j)
  let ?late = "j_status j = JFailed \<and> j_error_code j = Some ''image_claim_timeout''"
  show ?thesis
  proof (cases "insert_artifact (artifact_row clk d w None) db")
    case (Inl e)
    with a Some ok show ?thesis
      by (simp add: adopt_recovery_artifact_def split: if_splits)
  next
    case (Inr db1)
    have ok1: "store_ok db1" using store_ok_insert_artifact [OF Inr] ok by simp
    have j: "j \<in> set (db_jobs db1)"
      using job_rowD [OF Some] insert_artifact_projections(1) [OF Inr] by simp
    show ?thesis
    proof (cases ?late)
      case True
      let ?up = "\<lambda>t. t\<lparr>t_error_code := None, t_error_message := None, t_completed_at := None\<rparr>"
      let ?db2 = "upd_job (j_id j) (adopted_row clk (adopted_stage (d_kind d))) db1"
      have "store_ok_except {j_task_id j} ?db2"
        by (rule rewrite_inactive_ok [OF ok1 j])
           (use True ok1 j in \<open>auto simp: store_ok_def intro: recovery_rows_ok store_job_ok\<close>)
      then have "store_ok_except {j_task_id j} (upd_task (j_task_id j) ?up ?db2)"
        by (rule ok_upd_task_pending) (simp_all add: task_frame_def)
      then have "store_ok (aggregate_task clk (j_task_id j)
          (log_event t k e n fs ts data (upd_task (j_task_id j) ?up ?db2)))" for t k e n fs ts data
        by (intro settle_ok) simp
      with a Some Inr True ok show ?thesis
        by (auto simp: adopt_recovery_artifact_def Let_def split: if_splits)
    next
      case False
      have "store_ok (log_event t k e n fs ts data db1)" for t k e n fs ts data
        using ok1 by (simp add: store_ok_def)
      with a Some Inr False ok show ?thesis
        by (auto simp: adopt_recovery_artifact_def Let_def split: if_splits)
    qed
  qed
qed

lemma owned_task_of_jobD:
  assumes "owned_task_of_job owner tid jid db = Some (j, t)"
  shows "j \<in> set (db_jobs db)" "j_id j = jid" "j_task_id j = tid" "t \<in> set (db_tasks db)"
    "t_id t = tid" "t_owner_key t = owner"
  using assms by (auto simp: owned_task_of_job_def dest: find_SomeD split: option.splits)

lemma store_ok_upd_artifacts [simp]: "store_ok (upd_artifacts p f db) = store_ok db"
  by (simp add: store_ok_def)

lemma store_ok_log_event [simp]: "store_ok (log_event t k e n fs ts data db) = store_ok db"
  by (simp add: store_ok_def)

lemma requeue_undeliverable_result_ok:
  assumes ok: "store_ok db"
    and r: "requeue_undeliverable_result clk owner tid jid kind err db = Inr (s, db')"
  shows "store_ok db'"
proof (cases "owned_task_of_job owner tid jid db")
  case None
  with r ok show ?thesis by (simp add: requeue_undeliverable_result_def split: if_splits)
next
  case (Some p)
  obtain j t where p: "p = (j, t)" by (cases p)
  note o = owned_task_of_jobD [OF Some [unfolded p]]
  show ?thesis
  proof (cases "j_status j = JSuccess \<and> requeue_plan kind j \<noteq> None")
    case False
    with r Some p ok show ?thesis
      by (auto simp: requeue_undeliverable_result_def split: if_splits option.splits)
  next
    case True
    then obtain stage discard where plan: "requeue_plan kind j = Some (stage, discard)" by auto
    let ?gone = "artifact_of_kinds jid discard"
    let ?paths = "map a_relative_path (filter ?gone (db_artifacts db))"
    let ?db2 = "(if ?paths = [] then upd_artifacts ?gone invalid_artifact db
       else log_event tid (Some jid) ''result_artifacts_marked_for_cleanup'' (attempts_sum j) None None
              [(''paths'', JList (map JStr ?paths))] (upd_artifacts ?gone invalid_artifact db))"
    have ok2: "store_ok ?db2" and j2: "j \<in> set (db_jobs ?db2)" using ok o by simp_all
    have "store_ok_except {j_task_id j} (upd_job (j_id j) (requeued_row clk stage) ?db2)"
      by (rule rewrite_inactive_ok [OF ok2 j2])
         (use True ok o in \<open>auto simp: store_ok_def intro: recovery_rows_ok store_job_ok\<close>)
    then have "store_ok_except {tid} (upd_task tid reopened_task (upd_job jid (requeued_row clk stage) ?db2))"
      unfolding o(2,3) by (rule ok_upd_task_pending) (simp_all add: task_frame_def reopened_task_def)
    then have "store_ok (aggregate_task clk tid (log_event u k e n fs ts data
        (upd_task tid reopened_task (upd_job jid (requeued_row clk stage) ?db2))))" for u k e n fs ts data
      by (intro settle_ok) simp
    with r Some p True plan show ?thesis
      by (auto simp: requeue_undeliverable_result_def Let_def split: if_splits)
  qed
qed

lemma fail_undeliverable_result_ok:
  assumes ok: "store_ok db"
  shows "store_ok (snd (fail_undeliverable_result clk at owner tid jid code m db))"
proof (cases "owned_task_of_job owner tid jid db")
  case (Some p)
  obtain j t where p: "p = (j, t)" by (cases p)
  note o = owned_task_of_jobD [OF Some [unfolded p]]
  show ?thesis
  proof (cases "j_status j = JSuccess")
    case True
    have "store_ok_except {j_task_id j} (upd_job (j_id j) (undeliverable_row at code m) db)"
      by (rule rewrite_inactive_ok [OF ok o(1)])
         (use True ok o in \<open>auto simp: store_ok_def intro: recovery_rows_ok store_job_ok\<close>)
    with Some p True show ?thesis
      unfolding o(2,3) by (simp add: fail_undeliverable_result_def Let_def settle_ok)
  qed (use Some p ok in \<open>simp add: fail_undeliverable_result_def\<close>)
qed (use ok in \<open>simp add: fail_undeliverable_result_def\<close>)

lemma remove_invalid_artifacts_ok: "store_ok db \<Longrightarrow> store_ok (snd (remove_invalid_artifacts tid ps db))"
  by (simp add: remove_invalid_artifacts_def Let_def store_ok_def)

section \<open>Properties\<close>

text \<open>The table of jobs after the leases of \<open>js\<close> were reclaimed.\<close>

lemma reclaim_job_projections [simp]:
  "db_tasks (reclaim_job now j db) = db_tasks db"
  "db_leases (reclaim_job now j db) = filter (\<lambda>l. l_job_id l \<noteq> j_id j) (db_leases db)"
  "db_jobs (reclaim_job now j db) = upd_rows (\<lambda>k. j_id k = j_id j)
     (reclaimed_row now (task_canceled db (j_task_id j))) (db_jobs db)"
  "task_canceled (reclaim_job now j db) tid = task_canceled db tid"
  by (simp_all add: reclaim_job_def Let_def db_leases_drop db_jobs_upd_job task_canceled_def task_row_def)

lemma reclaim_jobs_leases:
  "db_leases (fold (reclaim_job now) js db) = filter (\<lambda>l. l_job_id l \<notin> j_id ` set js) (db_leases db)"
  by (induction js arbitrary: db) (simp_all add: conj_commute)

lemma reclaim_jobs_rows:
  assumes "distinct (map j_id js)"
    and "\<And>j k. j \<in> set js \<Longrightarrow> k \<in> set (db_jobs db) \<Longrightarrow> j_id k = j_id j \<Longrightarrow> j_task_id k = j_task_id j"
  shows "db_jobs (fold (reclaim_job now) js db) = upd_rows (\<lambda>k. j_id k \<in> j_id ` set js)
           (\<lambda>k. reclaimed_row now (task_canceled db (j_task_id k)) k) (db_jobs db)"
  using assms
proof (induction js arbitrary: db)
  case (Cons j js)
  have "db_jobs (fold (reclaim_job now) js (reclaim_job now j db)) =
      upd_rows (\<lambda>k. j_id k \<in> j_id ` set js) (\<lambda>k. reclaimed_row now (task_canceled db (j_task_id k)) k)
        (db_jobs (reclaim_job now j db))"
  proof (subst Cons.IH)
    show "distinct (map j_id js)" using Cons.prems(1) by simp
    fix i k assume i: "i \<in> set js" "k \<in> set (db_jobs (reclaim_job now j db))" "j_id k = j_id i"
    from i(2) obtain k0 where k0: "k0 \<in> set (db_jobs db)"
      "k = (if j_id k0 = j_id j then reclaimed_row now (task_canceled db (j_task_id j)) k0 else k0)"
      unfolding reclaim_job_projections by (rule in_upd_rowsE)
    then have "j_id k = j_id k0" "j_task_id k = j_task_id k0" by simp_all
    with i(1,3) k0(1) Cons.prems(2) [of i k0] show "j_task_id k = j_task_id i" by simp
  qed simp
  moreover have "j_id j \<notin> j_id ` set js" using Cons.prems(1) by simp
  ultimately show ?case
    using Cons.prems(2) [of j] by (auto simp: upd_rows_def)
qed (simp add: upd_rows_def)

lemma reclaim_expired_leases_rows:
  assumes ok: "store_ok db" and r: "reclaim_expired_leases cfg clk now prot all_due ignore db = (n, db')"
  defines "ids \<equiv> j_id ` set (reclaimable_jobs cfg now prot all_due ignore db)"
  shows "db_jobs db' = upd_rows (\<lambda>k. j_id k \<in> ids)
           (\<lambda>k. reclaimed_row now (task_canceled db (j_task_id k)) k) (db_jobs db)"
    and "db_leases db' = filter (\<lambda>l. l_job_id l \<notin> ids) (db_leases db)"
    and "\<And>j. j \<in> set (db_jobs db) \<Longrightarrow>
      j_id j \<in> ids \<longleftrightarrow> j \<in> set (reclaimable_jobs cfg now prot all_due ignore db)"
proof -
  let ?js = "reclaimable_jobs cfg now prot all_due ignore db"
  have sub: "j \<in> set (db_jobs db)" if "j \<in> set ?js" for j
    using that by (auto simp: reclaimable_jobs_def Let_def)
  have "distinct (map j_id (db_jobs db))"
    using ok by (simp add: store_ok_def store_ok_except_def keys_ok_def)
  then have dist: "distinct (map j_id ?js)"
    by (simp add: reclaimable_jobs_def Let_def distinct_map_filter)
  have same: "k = j" if "j \<in> set ?js" "k \<in> set (db_jobs db)" "j_id k = j_id j" for j k
    using sub [OF that(1)] that(2,3) ok by (auto simp: store_ok_def dest: job_unique)
  have db': "db_jobs db' = db_jobs (fold (reclaim_job now) ?js db)"
    "db_leases db' = db_leases (fold (reclaim_job now) ?js db)"
    using r by (auto simp: reclaim_expired_leases_def Let_def)
  show "db_jobs db' = upd_rows (\<lambda>k. j_id k \<in> ids)
      (\<lambda>k. reclaimed_row now (task_canceled db (j_task_id k)) k) (db_jobs db)"
    unfolding db' ids_def by (rule reclaim_jobs_rows [OF dist]) (use same in blast)
  show "db_leases db' = filter (\<lambda>l. l_job_id l \<notin> ids) (db_leases db)"
    unfolding db' ids_def by (rule reclaim_jobs_leases)
  show "j_id j \<in> ids \<longleftrightarrow> j \<in> set ?js" if "j \<in> set (db_jobs db)" for j
    using that same by (auto simp: ids_def)
qed

lemma find_upd_rows_same:
  "(\<And>r. r \<in> set rows \<Longrightarrow> p r \<Longrightarrow> \<not> q (f r) \<and> \<not> q r) \<Longrightarrow> find q (upd_rows p f rows) = find q rows"
  by (induction rows) (auto simp: upd_rows_def)

lemma reclaimed_fence:
  assumes ok: "store_ok db" and c: "claimed_job_row db c = Some j"
    and r: "reclaim_expired_leases cfg clk now prot all_due ignore db = (n, db')"
  shows "if j \<in> set (reclaimable_jobs cfg now prot all_due ignore db)
         then claimed_job_row db' c = None \<and> (\<forall>l \<in> set (db_leases db'). l_job_id l \<noteq> j_id j)
         else claimed_job_row db' c = Some j \<and>
           filter (\<lambda>l. l_job_id l = j_id j) (db_leases db') = filter (\<lambda>l. l_job_id l = j_id j) (db_leases db)"
proof -
  let ?ids = "j_id ` set (reclaimable_jobs cfg now prot all_due ignore db)"
  note rows = reclaim_expired_leases_rows [OF ok r]
  have j: "j \<in> set (db_jobs db)" "holds_claim c j" using claimed_job_rowD [OF c] by auto
  have in_ids: "j_id j \<in> ?ids \<longleftrightarrow> j \<in> set (reclaimable_jobs cfg now prot all_due ignore db)"
    by (rule rows(3) [OF j(1)])
  show ?thesis
  proof (cases "j_id j \<in> ?ids")
    case True
    have "\<not> holds_claim c k" if "k \<in> set (db_jobs db')" for k
    proof -
      from that obtain k0 where "k0 \<in> set (db_jobs db)"
        "k = (if j_id k0 \<in> ?ids then reclaimed_row now (task_canceled db (j_task_id k0)) k0 else k0)"
        unfolding rows(1) by (rule in_upd_rowsE)
      with True j(2) show ?thesis by (auto simp: holds_claim_def)
    qed
    then have "claimed_job_row db' c = None" by (simp add: claimed_job_row_def find_None_iff)
    with True rows(2) in_ids show ?thesis by auto
  next
    case False
    have "claimed_job_row db' c = claimed_job_row db c"
      unfolding claimed_job_row_def rows(1)
      by (rule find_upd_rows_same) (use False j(2) in \<open>auto simp: holds_claim_def\<close>)
    moreover have "filter (\<lambda>l. l_job_id l = j_id j) (db_leases db') = filter (\<lambda>l. l_job_id l = j_id j) (db_leases db)"
      unfolding rows(2) filter_filter by (rule filter_cong [OF refl]) (use False in metis)
    ultimately show ?thesis using False c in_ids by auto
  qed
qed

lemma live_claims_spared:
  assumes "claimed_job_row db c = Some j"
  shows "c \<in> set prot \<Longrightarrow> j \<notin> set (reclaimable_jobs cfg now prot all_due ignore db)"
    and "w \<in> set (db_workers db) \<Longrightarrow> w_worker_id w = owner_text j \<Longrightarrow> owner_text j \<noteq> '''' \<Longrightarrow>
      fresh_worker_cutoff cfg now < w_heartbeat_at w \<Longrightarrow> \<not> claim_runtime_expired cfg now j \<Longrightarrow>
      j \<notin> set (reclaimable_jobs cfg now prot all_due False db)"
proof -
  from claimed_job_rowD [OF assms] have h: "holds_claim c j" by simp
  then show "c \<in> set prot \<Longrightarrow> j \<notin> set (reclaimable_jobs cfg now prot all_due ignore db)"
    by (auto simp: reclaimable_jobs_def Let_def lease_protected_def holds_claim_def)
  have strip: "py_strip (owner_text j) = owner_text j" by (simp add: owner_text_def py_strip_idem)
  assume w: "w \<in> set (db_workers db)" "w_worker_id w = owner_text j" "owner_text j \<noteq> ''''"
    "fresh_worker_cutoff cfg now < w_heartbeat_at w" "\<not> claim_runtime_expired cfg now j"
  have "owner_active cfg now jobs db (owner_text j)" if "j \<in> set jobs" for jobs
    unfolding owner_active_def using w strip that by (intro bexI [of _ w]) auto
  then have "j \<notin> set (filter (\<lambda>j. False \<or> \<not> owner_active cfg now jobs db (owner_text j) \<or>
      claim_runtime_expired cfg now j) jobs)" for jobs
    using w(5) by auto
  then show "j \<notin> set (reclaimable_jobs cfg now prot all_due False db)"
    unfolding reclaimable_jobs_def Let_def .
qed

text \<open>
  Property C13. Reclaiming fences exactly the dead claims: if the job of a standing claim is
  reclaimed, the claim no longer stands and no account lease of the job is left; if it is
  not, the row and the account leases of the job are untouched. A claim that is protected,
  or whose owner sent a recent heartbeat and that is within the maximal runtime, is spared.
\<close>

theorem reclaim_fences_exactly_dead_claims:
  assumes "store_ok db" and "claimed_job_row db c = Some j"
    and "reclaim_expired_leases cfg clk now protected include_unexpired ignore_live db = (n, db')"
  shows "store_ok db' \<and>
    (if j \<in> set (reclaimable_jobs cfg now protected include_unexpired ignore_live db)
     then claimed_job_row db' c = None \<and> (\<forall>l \<in> set (db_leases db'). l_job_id l \<noteq> j_id j)
     else claimed_job_row db' c = Some j \<and>
       filter (\<lambda>l. l_job_id l = j_id j) (db_leases db') = filter (\<lambda>l. l_job_id l = j_id j) (db_leases db)) \<and>
    (c \<in> set protected \<longrightarrow> claimed_job_row db' c = Some j) \<and>
    (\<forall>w \<in> set (db_workers db). \<not> ignore_live \<and> w_worker_id w = owner_text j \<and> owner_text j \<noteq> '''' \<and>
       fresh_worker_cutoff cfg now < w_heartbeat_at w \<and> \<not> claim_runtime_expired cfg now j \<longrightarrow>
       claimed_job_row db' c = Some j)"
proof -
  have "store_ok db'" using reclaim_expired_leases_ok [OF assms(1)] assms(3) by (metis snd_conv)
  with reclaimed_fence [OF assms] live_claims_spared [OF assms(2)] show ?thesis by auto
qed

theorem reclaim_fences_exactly_dead_claims_witness:
  "let r = reclaim_expired_leases demo_settings 1 70000000 [] False False demo_db
   in claimed_job_row (snd r) demo_claim = None \<and> store_ok (snd r)"
proof -
  have "demo_running \<in> set (reclaimable_jobs demo_settings 70000000 [] False False demo_db)" by code_simp
  with reclaim_fences_exactly_dead_claims [OF demo_ok demo_claim_row surjective_pairing]
  show ?thesis by (simp add: Let_def)
qed

text \<open>
  What recovery does to one job: everything paid for is kept, and the job is either left
  alone, canceled, or queued, a job with a checkpoint on a stage that does not generate.
\<close>

definition work_kept :: "image_job \<Rightarrow> image_job \<Rightarrow> bool" where
  "work_kept j k \<longleftrightarrow>
     j_id k = j_id j \<and> j_task_id k = j_task_id j \<and> j_image_urls k = j_image_urls j \<and>
     j_conversation_id k = j_conversation_id j \<and> j_file_ids k = j_file_ids j \<and>
     j_sediment_ids k = j_sediment_ids j \<and> j_quota_consumed k = j_quota_consumed j \<and>
     j_quota_accounted k = j_quota_accounted j \<and> attempts_sum k = attempts_sum j \<and>
     (k = j \<or> j_status k = JCanceled \<or>
      j_status k = JQueued \<and> (job_can_resume_poll j \<longrightarrow> j_stage k \<in> {SSaving, SDownloading, SResolving}))"

lemma work_kept_refl: "work_kept j j"
  by (simp add: work_kept_def)

lemma work_kept_trans: "work_kept j k \<Longrightarrow> work_kept k l \<Longrightarrow> work_kept j l"
  by (auto simp: work_kept_def job_can_resume_poll_def has_conversation_def)

lemma work_kept_reclaimed: "work_kept j (reclaimed_row now c j)"
  by (auto simp: work_kept_def reclaimed_row_def Let_def clear_job_lease_def attempts_sum_def
      reclaimed_stage_def job_can_resume_poll_def has_remote_ids_def)

lemma work_kept_requeued:
  "j_stage j = j_stage k \<Longrightarrow> j_image_urls j = j_image_urls k \<Longrightarrow> job_can_resume_poll j = job_can_resume_poll k \<Longrightarrow>
   work_kept k (recovery_row now (recover_stage j) k)"
  by (auto simp: work_kept_def recovery_row_def attempts_sum_def recover_stage_def)

lemma list_all2_upd_rows:
  "(\<And>r. r \<in> set rows \<Longrightarrow> p r \<Longrightarrow> R r (f r)) \<Longrightarrow> (\<And>r. R r r) \<Longrightarrow> list_all2 R rows (upd_rows p f rows)"
  by (induction rows) (auto simp: upd_rows_def)

lemma list_all2_work_kept_trans:
  "list_all2 work_kept xs ys \<Longrightarrow> list_all2 work_kept ys zs \<Longrightarrow> list_all2 work_kept xs zs"
  by (rule list_all2_trans [of work_kept work_kept work_kept]) (auto intro: work_kept_trans)

lemma reclaim_keeps_work:
  assumes "store_ok db" and "reclaim_expired_leases cfg clk now prot all_due ignore db = (n, db')"
  shows "list_all2 work_kept (db_jobs db) (db_jobs db')"
  unfolding reclaim_expired_leases_rows(1) [OF assms]
  by (rule list_all2_upd_rows) (auto intro: work_kept_reclaimed work_kept_refl)

text \<open>Requeueing the jobs of a snapshot of the table, each at the stage of its row there.\<close>

lemma requeue_job_keeps_work:
  assumes "j_stage j = j_stage k" "j_image_urls j = j_image_urls k" "job_can_resume_poll j = job_can_resume_poll k"
    and "job_row db (j_id j) = Some k" and "distinct (map j_id (db_jobs db))"
  shows "list_all2 work_kept (db_jobs db) (db_jobs (snd (requeue_job_for_recovery (j_id j) (recover_stage j) now db)))"
proof -
  note k = job_rowD [OF assms(4)]
  have "list_all2 work_kept (db_jobs db) (upd_rows (\<lambda>r. j_id r = j_id k) (recovery_row now (recover_stage j)) (db_jobs db))"
  proof (rule list_all2_upd_rows)
    fix r assume "r \<in> set (db_jobs db)" "j_id r = j_id k"
    with k assms(5) have "r = k" by (auto dest: distinct_map_eq)
    then show "work_kept r (recovery_row now (recover_stage j) r)" using assms(1-3) by (simp add: work_kept_requeued)
  qed (rule work_kept_refl)
  then show ?thesis
    using assms(4) by (simp add: requeue_job_for_recovery_def db_jobs_upd_job list_all2_refl work_kept_refl)
qed

lemma requeue_all_keeps_work:
  assumes "store_ok db" and "distinct (map j_id js)" and "\<And>j. j \<in> set js \<Longrightarrow> j \<in> set (db_jobs db)"
  shows "list_all2 work_kept (db_jobs db)
    (db_jobs (fold (\<lambda>j db. snd (requeue_job_for_recovery (j_id j) (recover_stage j) now db)) js db))"
  using assms
proof (induction js arbitrary: db)
  case Nil
  then show ?case by (simp add: list_all2_refl work_kept_refl)
next
  case (Cons j js)
  let ?db1 = "snd (requeue_job_for_recovery (j_id j) (recover_stage j) now db)"
  have j: "job_row db (j_id j) = Some j"
    using Cons.prems job_row_unique by (auto simp: store_ok_def)
  have d: "distinct (map j_id (db_jobs db))"
    using Cons.prems(1) by (simp add: store_ok_def store_ok_except_def keys_ok_def)
  have one: "list_all2 work_kept (db_jobs db) (db_jobs ?db1)"
    by (rule requeue_job_keeps_work [OF refl refl refl j d])
  have "i \<in> set (db_jobs ?db1)" if "i \<in> set js" for i
  proof -
    have "j_id i \<noteq> j_id j" using Cons.prems(2) that by (metis distinct.simps(2) image_eqI list.simps(9) list.set_map)
    moreover have "i \<in> set (db_jobs db)" using Cons.prems(3) that by simp
    ultimately show ?thesis
      using j by (auto simp: requeue_job_for_recovery_def db_jobs_upd_job upd_rows_def image_iff)
  qed
  then have "list_all2 work_kept (db_jobs ?db1) (db_jobs (fold
      (\<lambda>j db. snd (requeue_job_for_recovery (j_id j) (recover_stage j) now db)) js ?db1))"
    using Cons.prems by (intro Cons.IH requeue_job_for_recovery_ok) auto
  with one show ?case by (auto intro: list_all2_work_kept_trans)
qed

lemma recover_keeps_work:
  assumes ok: "store_ok db"
  shows "list_all2 work_kept (db_jobs db) (db_jobs (snd (recover cfg clk now restored db)))"
proof -
  let ?r = "if restored then reclaim_restored_leases cfg clk now db
            else reclaim_expired_leases cfg clk now [] False False db"
  obtain n db1 where r: "?r = (n, db1)" by (cases ?r)
  let ?stale = "snd (stale_all_worker_states cfg clk db)"
  have stale: "store_ok ?stale" "db_jobs ?stale = db_jobs db"
    using ok by (simp_all add: stale_all_worker_states_def)
  have "list_all2 work_kept (db_jobs db) (db_jobs db1) \<and> store_ok db1"
  proof (cases restored)
    case True
    with r have "reclaim_expired_leases cfg clk now [] True True ?stale = (n, db1)"
      by (simp add: reclaim_restored_leases_def)
    with reclaim_keeps_work [OF stale(1)] reclaim_expired_leases_ok [OF stale(1)] stale(2) show ?thesis
      by (metis snd_conv)
  next
    case False
    with r have "reclaim_expired_leases cfg clk now [] False False db = (n, db1)" by simp
    with reclaim_keeps_work [OF ok] reclaim_expired_leases_ok [OF ok] show ?thesis by (metis snd_conv)
  qed
  moreover have "distinct (map j_id (list_recoverable_jobs db1))" if "store_ok db1"
    using that by (simp add: list_recoverable_jobs_def distinct_map_filter store_ok_def store_ok_except_def keys_ok_def)
  ultimately have "list_all2 work_kept (db_jobs db) (db_jobs (fold
      (\<lambda>j db. snd (requeue_job_for_recovery (j_id j) (recover_stage j) now db)) (list_recoverable_jobs db1) db1))"
    by (elim conjE, intro list_all2_work_kept_trans [OF _ requeue_all_keeps_work])
       (auto simp: list_recoverable_jobs_def)
  with r show ?thesis by (simp add: recover_def Let_def)
qed

text \<open>
  Property C14. Recovery after a crash or a restore loses nothing that was paid for: every job
  keeps its checkpoint, its quota flags and its attempts; a job is left as it is, canceled
  with its task, or queued again, and a job with a remote checkpoint is queued at a stage
  that resolves, downloads or saves, never at one that generates a second image.
\<close>

theorem recovery_never_regenerates:
  assumes "store_ok db" and "recover cfg clk now restored db = (summary, db')"
  shows "store_ok db' \<and> length (db_jobs db') = length (db_jobs db) \<and>
    (\<forall>n < length (db_jobs db). work_kept (db_jobs db ! n) (db_jobs db' ! n))"
  using recover_keeps_work [OF assms(1), of cfg clk now restored] recover_ok [OF assms(1), of cfg clk now restored] assms(2)
  by (simp add: list_all2_conv_all_nth)

theorem recovery_never_regenerates_witness:
  "let db' = snd (recover demo_settings 1 70000000 False
               (upd_job 10 (\<lambda>j. j\<lparr>j_conversation_id := Some ''x''\<rparr>) demo_db))
   in store_ok db' \<and> map j_stage (db_jobs db') = [SResolving, SQueued]"
proof -
  let ?db = "upd_job 10 (\<lambda>j. j\<lparr>j_conversation_id := Some ''x''\<rparr>) demo_db"
  have ok: "store_ok ?db" by code_simp
  have "map j_stage (db_jobs (snd (recover demo_settings 1 70000000 False ?db))) = [SResolving, SQueued]"
    by code_simp
  with recovery_never_regenerates [OF ok surjective_pairing] show ?thesis by (simp add: Let_def)
qed

text \<open>The table of jobs after the failed jobs of a task were resumed.\<close>

definition resumed_or_same :: "time \<Rightarrow> image_job \<Rightarrow> image_job" where
  "resumed_or_same clk j = (case resumable_stage j of None \<Rightarrow> j | Some s \<Rightarrow> resumed_row clk s j)"

lemma resumed_or_same_simps [simp]:
  "j_id (resumed_or_same clk j) = j_id j" "j_task_id (resumed_or_same clk j) = j_task_id j"
  by (simp_all add: resumed_or_same_def split: option.split)

lemma resume_job_rows:
  assumes "\<And>k. k \<in> set (db_jobs db) \<Longrightarrow> j_id k = j_id j \<Longrightarrow> k = j"
  shows "db_jobs (resume_job clk n j db) = upd_rows (\<lambda>k. j_id k = j_id j) (resumed_or_same clk) (db_jobs db)"
proof (cases "resumable_stage j")
  case None
  have "upd_rows (\<lambda>k. j_id k = j_id j) (resumed_or_same clk) (db_jobs db) =
      upd_rows (\<lambda>k. j_id k = j_id j) (\<lambda>k. k) (db_jobs db)"
    by (rule upd_rows_cong [OF refl]) (use assms None in \<open>metis resumed_or_same_def option.case(1)\<close>)
  with None show ?thesis by (simp add: resume_job_def upd_rows_def)
next
  case (Some s)
  have "upd_rows (\<lambda>k. j_id k = j_id j) (resumed_or_same clk) (db_jobs db) =
      upd_rows (\<lambda>k. j_id k = j_id j) (resumed_row clk s) (db_jobs db)"
    by (rule upd_rows_cong [OF refl]) (use assms Some in \<open>metis resumed_or_same_def option.case(2)\<close>)
  with Some show ?thesis by (simp add: resume_job_def db_jobs_upd_job)
qed

lemma resume_jobs_rows:
  assumes "distinct (map j_id js)" and "\<And>j k. j \<in> set js \<Longrightarrow> k \<in> set (db_jobs db) \<Longrightarrow> j_id k = j_id j \<Longrightarrow> k = j"
  shows "db_jobs (fold (resume_job clk n) js db) =
           upd_rows (\<lambda>k. j_id k \<in> j_id ` set js) (resumed_or_same clk) (db_jobs db)"
  using assms
proof (induction js arbitrary: db)
  case (Cons j js)
  have rows: "db_jobs (resume_job clk n j db) = upd_rows (\<lambda>k. j_id k = j_id j) (resumed_or_same clk) (db_jobs db)"
    by (rule resume_job_rows) (use Cons.prems(2) in simp)
  have new: "j_id j \<notin> j_id ` set js" using Cons.prems(1) by simp
  have "db_jobs (fold (resume_job clk n) js (resume_job clk n j db)) =
      upd_rows (\<lambda>k. j_id k \<in> j_id ` set js) (resumed_or_same clk) (db_jobs (resume_job clk n j db))"
  proof (rule Cons.IH)
    show "distinct (map j_id js)" using Cons.prems(1) by simp
    fix i k assume i: "i \<in> set js" "k \<in> set (db_jobs (resume_job clk n j db))" "j_id k = j_id i"
    from i(2) obtain k0 where k0: "k0 \<in> set (db_jobs db)"
      "k = (if j_id k0 = j_id j then resumed_or_same clk k0 else k0)"
      unfolding rows by (rule in_upd_rowsE)
    have "j_id i \<noteq> j_id j" using new i(1) by (metis image_eqI)
    with k0(2) i(3) have "k = k0" by (simp split: if_splits)
    with i k0(1) Cons.prems(2) [of i k0] show "k = i" by simp
  qed
  then show ?case
    unfolding fold_Cons comp_apply rows using new by (auto simp: upd_rows_def)
qed (simp add: upd_rows_def)

lemma resume_task_jobs_rows:
  assumes ok: "store_ok db"
  shows "db_jobs (resume_task_jobs clk n tid db) =
     upd_rows (\<lambda>j. j_task_id j = tid \<and> j_status j = JFailed) (resumed_or_same clk) (db_jobs db)"
proof -
  let ?js = "failed_jobs_of tid db"
  have d: "distinct (map j_id (db_jobs db))"
    using ok by (simp add: store_ok_def store_ok_except_def keys_ok_def)
  then have dist: "distinct (map j_id ?js)"
    by (simp add: failed_jobs_of_def distinct_map distinct_map_filter inj_on_def)
  have same: "k = j" if "j \<in> set ?js" "k \<in> set (db_jobs db)" "j_id k = j_id j" for j k
    using that d failed_jobs_ofD(1) [OF that(1)] by (auto dest: distinct_map_eq)
  have "db_jobs (resume_task_jobs clk n tid db) =
      upd_rows (\<lambda>k. j_id k \<in> j_id ` set ?js) (resumed_or_same clk) (db_jobs db)"
    using resume_jobs_rows [OF dist, of "upd_task tid (note_resume_timeout n) db"] same
    unfolding resume_task_jobs_def by simp
  also have "\<dots> = upd_rows (\<lambda>j. j_task_id j = tid \<and> j_status j = JFailed) (resumed_or_same clk) (db_jobs db)"
  proof (rule upd_rows_cong)
    fix k assume k: "k \<in> set (db_jobs db)"
    have "j_id k \<in> j_id ` set ?js \<longleftrightarrow> k \<in> set ?js" by (rule id_in_selected) (rule same [OF _ k])
    also have "\<dots> \<longleftrightarrow> j_task_id k = tid \<and> j_status k = JFailed" using k by (simp add: failed_jobs_of_def)
    finally show "(j_id k \<in> j_id ` set ?js) = (j_task_id k = tid \<and> j_status k = JFailed)" .
  qed simp
  finally show ?thesis .
qed

lemma task_atD: "task_at db owner p = Some t \<Longrightarrow> t \<in> set (db_tasks db) \<and> t_owner_key t = owner"
  by (auto simp: task_at_def dest: first_by_Some(1))

lemma find_taskD:
  assumes "find_task db owner ref = Inr (Some t)"
  shows "t \<in> set (db_tasks db)" "t_owner_key t = py_strip owner"
proof -
  let ?owned = "{t \<in> set (db_tasks db). t_owner_key t = py_strip owner}"
  let ?ident = "py_strip (id_text ref)"
  have found: "set (option_list (find (\<lambda>t. t_owner_key t = py_strip owner \<and> p t) (db_tasks db))) \<subseteq> ?owned"
    "set (option_list (task_at db (py_strip owner) p)) \<subseteq> ?owned" for p
    by (auto simp: option_list_def dest: find_SomeD task_atD split: option.splits dest!: sym [of "Some _"])
  define I where "I = (case id_uuid ref of None \<Rightarrow> [] | Some i \<Rightarrow>
      option_list (find (\<lambda>t. t_owner_key t = py_strip owner \<and> t_id t = i) (db_tasks db)))"
  define N where "N = option_list (task_at db (py_strip owner) (\<lambda>t. t_client_task_id t = Some ?ident)) @
      option_list (task_at db (py_strip owner) (\<lambda>t. t_idempotency_key t = Some ?ident))"
  define A where "A = option_list (find (\<lambda>t. t_owner_key t = py_strip owner \<and>
      (\<exists>a \<in> set (db_aliases db). al_task_id a = t_id t \<and> al_idempotency_key a = ?ident)) (db_tasks db))"
  have "set I \<subseteq> ?owned" using found(1) by (cases "id_uuid ref") (simp_all add: I_def)
  moreover have "set N \<subseteq> ?owned" "set A \<subseteq> ?owned"
    using found by (simp_all add: N_def A_def)
  moreover have "t \<in> set I \<union> set N \<union> set A"
    using assms unfolding find_task_def Let_def I_def [symmetric] N_def [symmetric] A_def [symmetric]
    by (cases "I @ N"; cases I; cases A) (auto split: if_splits)
  ultimately show "t \<in> set (db_tasks db)" "t_owner_key t = py_strip owner" by auto
qed

lemma resumed_task_open:
  assumes ok: "store_ok db" and t: "task_row db tid = Some t"
    and j: "j \<in> set (failed_jobs_of tid db)" "resumable_stage j \<noteq> None"
  shows "\<exists>t'. task_row (resume_task_jobs clk n tid db) tid = Some t' \<and> \<not> terminal_task (t_status t') \<and>
           t_delivery_status t' = DPending"
proof -
  let ?db' = "resume_task_jobs clk n tid db"
  have "task_row (fold (resume_job clk n) js x) i = task_row x i" for js x i
    by (induction js arbitrary: x) (simp_all add: resume_job_def split: option.split)
  with t obtain t' where t': "task_row ?db' tid = Some t'" "t_delivery_status t' = DPending"
    by (simp add: resume_task_jobs_def task_row_aggregate task_row_upd_task reopened_task_def
        note_resume_timeout_def)
  have "resumed_or_same clk j \<in> set (db_jobs ?db')"
    unfolding resume_task_jobs_rows [OF ok] upd_rows_def
    using failed_jobs_ofD [OF j(1)] by (auto intro!: image_eqI [of _ _ j])
  moreover have "j_status (resumed_or_same clk j) = JQueued" "j_task_id (resumed_or_same clk j) = tid"
    using j(2) failed_jobs_ofD(3) [OF j(1)] by (auto simp: resumed_or_same_def)
  ultimately have "\<not> terminal_task (t_status t')"
    using open_job_open_task [OF resume_task_jobs_ok [OF ok]] t'(1) by fastforce
  with t' show ?thesis by blast
qed

text \<open>
  Only failed work with a remote checkpoint is resumed: a resumption succeeds
  only for a task of the same owner that is not canceled and has such a job; exactly its
  failed jobs with a checkpoint are queued again, at the stage that reads the checkpoint;
  all other jobs, the delivered images among them, are untouched; the task is open again
  and its delivery starts over.
\<close>

theorem resume_only_from_checkpoint:
  assumes "store_ok db" and "resume_failed_task clk owner ref extra db = Inr (Some snap, db')"
  shows "\<exists>t. find_task db owner ref = Inr (Some t) \<and> t_owner_key t = py_strip owner \<and>
    \<not> t_cancel_requested t \<and> store_ok db' \<and> ts_id snap = t_id t \<and>
    \<not> terminal_task (ts_status snap) \<and> ts_delivery_status snap = DPending \<and>
    db_jobs db' = upd_rows (\<lambda>j. j_task_id j = t_id t \<and> j_status j = JFailed) (resumed_or_same clk) (db_jobs db) \<and>
    (\<exists>j \<in> set (db_jobs db). j_task_id j = t_id t \<and> j_status j = JFailed \<and> job_can_resume_poll j)"
  using assms(2)
proof (cases rule: resume_failed_taskD)
  case 1
  with assms(2) show ?thesis by (simp add: resume_failed_task_def)
next
  case (2 t)
  note t = find_taskD [OF 2(1)]
  from 2(3) obtain j where j: "j \<in> set (failed_jobs_of (t_id t) db)" "resumable_stage j \<noteq> None" by blast
  have "task_row db (t_id t) = Some t" using assms(1) t(1) by (auto simp: store_ok_def intro: task_row_unique)
  from resumed_task_open [OF assms(1) this j] 2(5) obtain t' where
    t': "task_row db' (t_id t) = Some t'" "\<not> terminal_task (t_status t')" "t_delivery_status t' = DPending"
    by blast
  with 2(4) have "snap = task_snapshot_of db' t'" "t_id t' = t_id t"
    by (auto simp: snapshot_by_id_def dest: task_rowD)
  then have "ts_id snap = t_id t \<and> \<not> terminal_task (ts_status snap) \<and> ts_delivery_status snap = DPending"
    using t' by (simp add: task_snapshot_of_def snapshot_from_jobs_def Let_def)
  moreover have "job_can_resume_poll j"
    using j(2) by (auto simp: resumable_stage_def job_can_resume_poll_def has_remote_ids_def split: if_splits)
  ultimately show ?thesis
    using 2 t failed_jobs_ofD [OF j(1)] resume_failed_task_ok [OF assms] resume_task_jobs_rows [OF assms(1)]
    by blast
qed

definition demo_failed_db :: queue_db where
  "demo_failed_db = empty_db\<lparr>
     db_tasks := [demo_task\<lparr>t_status := TFailed, t_failed_jobs := 2, t_delivery_status := DAcknowledged\<rparr>],
     db_jobs := [demo_queued\<lparr>j_id := 10, j_ordinal := 1, j_status := JFailed, j_stage := SFailed,
                   j_conversation_id := Some ''x''\<rparr>,
                 demo_queued\<lparr>j_status := JFailed, j_stage := SFailed\<rparr>]\<rparr>"

lemma demo_failed_ok: "store_ok demo_failed_db"
  by code_simp

theorem resume_only_from_checkpoint_witness:
  "\<exists>snap db'. resume_failed_task 50 ''o'' \<lparr>id_text = ''k'', id_uuid = None\<rparr> None demo_failed_db = Inr (Some snap, db') \<and>
     map j_stage (db_jobs db') = [SResolving, SFailed] \<and> \<not> terminal_task (ts_status snap) \<and> store_ok db'"
proof -
  have "case resume_failed_task 50 ''o'' \<lparr>id_text = ''k'', id_uuid = None\<rparr> None demo_failed_db of
      Inr (Some snap, db') \<Rightarrow> map j_stage (db_jobs db') = [SResolving, SFailed] | _ \<Rightarrow> False"
    by code_simp
  then obtain snap db' where r: "resume_failed_task 50 ''o'' \<lparr>id_text = ''k'', id_uuid = None\<rparr> None demo_failed_db =
      Inr (Some snap, db')" "map j_stage (db_jobs db') = [SResolving, SFailed]"
    by (auto split: sum.splits option.splits prod.splits)
  from resume_only_from_checkpoint [OF demo_failed_ok r(1)]
  have "\<not> terminal_task (ts_status snap) \<and> store_ok db'" by (elim exE conjE) (rule conjI)
  with r show ?thesis by (intro exI [of _ snap] exI [of _ db'] conjI) simp_all
qed

end
