(* ===== verification/Queue_Delivery.thy ===== *)
theory Queue_Delivery
  imports Queue_Intake
begin

text \<open>
  The end of a task's life (\<open>repository.py\<close>): cancellation, the delivery handshake with the
  client, the public final artifacts, which artifacts are protected from cleanup, and the
  purge of terminal tasks.
\<close>

section \<open>Cancellation\<close>

definition cancel_waiting_row :: "time \<Rightarrow> image_job \<Rightarrow> image_job" where
  "cancel_waiting_row now j =
     j\<lparr>j_status := JCanceled, j_stage := SCanceled, j_completed_at := Some now, j_updated_at := now\<rparr>"

definition cancel_waiting_job :: "time \<Rightarrow> uuid \<Rightarrow> image_job \<Rightarrow> queue_db \<Rightarrow> queue_db" where
  "cancel_waiting_job now tid j db =
     (if \<not> waiting_job (j_status j) then db
      else log_event tid (Some (j_id j)) ''job_canceled'' 0
             (Some (job_status_value (j_status j))) (Some (job_status_value JCanceled)) []
             (upd_job (j_id j) (cancel_waiting_row now) db))"

text \<open>
  The body under the locks, for a task that is not terminal and was not canceled before.
  Jobs a worker holds are left to the worker; then the task only becomes canceled when
  they have settled.
\<close>

definition cancel_task :: "time \<Rightarrow> uuid \<Rightarrow> queue_db \<Rightarrow> queue_db" where
  "cancel_task now tid db =
     (let jobs = sort_key j_id (filter (\<lambda>j. j_task_id j = tid) (db_jobs db));
          open' = (\<exists>j \<in> set jobs. \<not> terminal_job (j_status j));
          db1 = upd_task tid (\<lambda>t. t\<lparr>t_cancel_requested := True\<rparr>) db;
          db2 = fold (cancel_waiting_job now tid) jobs db1;
          db3 = (if open' then aggregate_task now tid db2
                 else upd_task tid
                        (\<lambda>t. t\<lparr>t_status := TCanceled, t_completed_at := Some now, t_updated_at := now,
                               t_version := t_version t + 1\<rparr>) db2);
          status = map_option (\<lambda>t. task_status_value (t_status t)) (task_row db3 tid)
      in log_event tid None ''task_canceled'' 0 None status [] db3)"

definition request_cancel ::
  "time \<Rightarrow> string \<Rightarrow> task_ref \<Rightarrow> queue_db \<Rightarrow> queue_error + (task_snapshot option \<times> queue_db)" where
  "request_cancel now owner_key ref db =
     (case find_task db owner_key ref of
        Inl e \<Rightarrow> Inl e
      | Inr None \<Rightarrow> Inr (None, db)
      | Inr (Some t) \<Rightarrow>
          if t_owner_key t \<noteq> owner_key then Inr (None, db)
          else if terminal_task (t_status t) \<or> t_cancel_requested t
          then Inr (Some (task_snapshot_of db t), db)
          else let db' = cancel_task now (t_id t) db
               in Inr (snapshot_by_id db' (t_id t), db'))"

definition is_cancel_requested :: "uuid \<Rightarrow> queue_db \<Rightarrow> bool" where
  "is_cancel_requested tid db =
     (case task_row db tid of None \<Rightarrow> False | Some t \<Rightarrow> t_cancel_requested t)"

section \<open>Delivery\<close>

definition attempted_row :: "time \<Rightarrow> image_task \<Rightarrow> image_task" where
  "attempted_row now t =
     t\<lparr>t_delivery_status := DResponseAttempted,
       t_response_attempted_at := or_else (t_response_attempted_at t) (Some now)\<rparr>"

text \<open>A row whose columns did not change is not written, so \<open>updated_at\<close> stays.\<close>

definition touched :: "time \<Rightarrow> image_task \<Rightarrow> image_task \<Rightarrow> image_task" where
  "touched now t t' = (if t' = t then t else t'\<lparr>t_updated_at := now\<rparr>)"

definition mark_response_attempted ::
  "time \<Rightarrow> string \<Rightarrow> task_ref \<Rightarrow> queue_db \<Rightarrow> queue_error + (task_snapshot option \<times> queue_db)" where
  "mark_response_attempted now owner_key ref db =
     (case find_task db owner_key ref of
        Inl e \<Rightarrow> Inl e
      | Inr None \<Rightarrow> Inr (None, db)
      | Inr (Some t) \<Rightarrow>
          let db' = upd_task (t_id t)
                      (\<lambda>t. if t_delivery_status t \<noteq> DAcknowledged then touched now t (attempted_row now t)
                           else t) db
          in Inr (snapshot_by_id db' (t_id t), db'))"

definition mark_responses_attempted :: "time \<Rightarrow> string \<Rightarrow> uuid list \<Rightarrow> queue_db \<Rightarrow> queue_db" where
  "mark_responses_attempted now owner_key ids db =
     db\<lparr>db_tasks := upd_rows
          (\<lambda>t. t_owner_key t = owner_key \<and> t_id t \<in> set ids \<and> t_delivery_status t \<noteq> DAcknowledged)
          (\<lambda>t. (attempted_row now t)\<lparr>t_updated_at := now\<rparr>) (db_tasks db)\<rparr>"

definition available_results :: "uuid \<Rightarrow> queue_db \<Rightarrow> nat" where
  "available_results tid db =
     length (filter (\<lambda>j. j_task_id j = tid \<and> j_status j = JSuccess \<and> payload_truthy (j_result_payload j))
               (db_jobs db))"

definition acknowledged_row :: "time \<Rightarrow> image_task \<Rightarrow> image_task" where
  "acknowledged_row now t =
     t\<lparr>t_delivery_status := DAcknowledged, t_delivery_acked_at := Some now, t_updated_at := now\<rparr>"

definition acknowledge ::
  "time \<Rightarrow> string \<Rightarrow> task_ref \<Rightarrow> queue_db \<Rightarrow> queue_error + (task_snapshot option \<times> queue_db)" where
  "acknowledge now owner_key ref db =
     (case find_task db owner_key ref of
        Inl e \<Rightarrow> Inl e
      | Inr None \<Rightarrow> Inr (None, db)
      | Inr (Some t) \<Rightarrow>
          let terminal_with_results = (t_status t \<in> {TFailed, TCanceled} \<and> 0 < t_succeeded_jobs t);
              available = available_results (t_id t) db
          in if t_status t \<noteq> TSuccess \<and> \<not> terminal_with_results
             then Inl (TaskStateConflict
               ''only successful or partial completed image results can be acknowledged'')
             else if t_delivery_status t = DAcknowledged
             then Inr (Some (task_snapshot_of db t), db)
             else if (t_status t = TSuccess \<and> available < max 1 (t_required_jobs t)) \<or>
                     (terminal_with_results \<and> available = 0)
             then Inl (TaskStateConflict ''deliverable image result is no longer available'')
             else let db' = log_event (t_id t) None ''delivery_acknowledged'' 0 None None []
                              (upd_task (t_id t) (acknowledged_row now) db)
                  in Inr (snapshot_by_id db' (t_id t), db'))"

section \<open>Public final artifacts\<close>

text \<open>\<open>str(path or "").strip().replace("\\", "/").lstrip("/")\<close>\<close>

definition normalize_path :: "string \<Rightarrow> string" where
  "normalize_path path =
     dropWhile (\<lambda>c. c = CHR ''/'') (map (\<lambda>c. if c = CHR 0x5C then CHR ''/'' else c) (py_strip path))"

definition public_final :: "queue_db \<Rightarrow> string \<Rightarrow> task_artifact \<Rightarrow> bool" where
  "public_final db rel a \<longleftrightarrow>
     a_relative_path a = rel \<and> a_kind a = ''final'' \<and> a_status a = AReady \<and>
     (\<exists>j \<in> set (db_jobs db). a_job_id a = Some (j_id j) \<and> j_status j = JSuccess) \<and>
     (\<exists>t \<in> set (db_tasks db). a_task_id a = t_id t \<and> terminal_task (t_status t))"

definition find_public_final :: "string \<Rightarrow> queue_db \<Rightarrow> task_artifact option" where
  "find_public_final path db =
     (let rel = normalize_path path
      in if rel = '''' then None else find (public_final db rel) (db_artifacts db))"

definition public_final_artifact_descriptor :: "string \<Rightarrow> queue_db \<Rightarrow> artifact_descriptor option" where
  "public_final_artifact_descriptor path db = map_option artifact_descriptor_of (find_public_final path db)"

definition is_public_final_artifact :: "string \<Rightarrow> queue_db \<Rightarrow> bool" where
  "is_public_final_artifact path db \<longleftrightarrow> find_public_final path db \<noteq> None"

definition withdrawn_row :: "time \<Rightarrow> image_job \<Rightarrow> image_job" where
  "withdrawn_row now j =
     j\<lparr>j_result_payload := payload_preserving_image_attempts (j_result_payload j), j_updated_at := now\<rparr>"

definition withdraw_result :: "time \<Rightarrow> uuid option \<Rightarrow> queue_db \<Rightarrow> queue_db" where
  "withdraw_result now jid db =
     (case jid of None \<Rightarrow> db | Some i \<Rightarrow> upd_job i (withdrawn_row now) db)"

definition invalidate_public_final_artifact ::
  "time \<Rightarrow> string \<Rightarrow> queue_db \<Rightarrow> artifact_descriptor option \<times> queue_db" where
  "invalidate_public_final_artifact now path db =
     (case find_public_final path db of
        None \<Rightarrow> (None, db)
      | Some a \<Rightarrow>
          (Some (artifact_descriptor_of (invalid_artifact a)),
           aggregate_task now (a_task_id a)
             (log_event (a_task_id a) (a_job_id a) ''public_final_artifact_invalidated'' 0 None None
                [(''relative_path'', JStr (normalize_path path)), (''kind'', JStr ''final''),
                 (''worker_id'', JStr (a_worker_id a))]
                (upd_artifacts (\<lambda>b. a_relative_path b = a_relative_path a) invalid_artifact
                   (withdraw_result now (a_job_id a) db)))))"

definition drop_artifacts :: "(task_artifact \<Rightarrow> bool) \<Rightarrow> queue_db \<Rightarrow> queue_db" where
  "drop_artifacts p db = db\<lparr>db_artifacts := filter (\<lambda>a. \<not> p a) (db_artifacts db)\<rparr>"

definition delete_public_final_artifact :: "time \<Rightarrow> string \<Rightarrow> queue_db \<Rightarrow> bool \<times> queue_db" where
  "delete_public_final_artifact now path db =
     (case find_public_final path db of
        None \<Rightarrow> (False, db)
      | Some a \<Rightarrow>
          (True,
           aggregate_task now (a_task_id a)
             (log_event (a_task_id a) (a_job_id a) ''public_final_artifact_deleted'' 0 None None
                [(''relative_path'', JStr (normalize_path path)), (''kind'', JStr ''final'')]
                (drop_artifacts (\<lambda>b. a_relative_path b = a_relative_path a)
                   (withdraw_result now (a_job_id a) db)))))"

text \<open>The succeeded job of an owner's task whose result names the path.\<close>

definition find_job_for_result_path :: "string \<Rightarrow> uuid \<Rightarrow> string \<Rightarrow> queue_db \<Rightarrow> image_job option" where
  "find_job_for_result_path owner_key tid path db =
     (let owner = py_strip owner_key; rel = normalize_path path
      in if owner = '''' \<or> rel = '''' then None
         else if \<not> (\<exists>t \<in> set (db_tasks db). t_id t = tid \<and> t_owner_key t = owner) then None
         else find (\<lambda>j. j_status j = JSuccess \<and>
                        (case map_of (rp_fields (j_result_payload j)) ''relative_path'' of
                           Some (JStr p) \<Rightarrow> normalize_path p = rel | _ \<Rightarrow> False))
                (jobs_of db tid))"

definition list_artifacts :: "uuid \<Rightarrow> queue_db \<Rightarrow> artifact_descriptor list" where
  "list_artifacts tid db =
     map artifact_descriptor_of
       (sort_key (\<lambda>a. (a_created_at a, a_relative_path a))
          (filter (\<lambda>a. a_task_id a = tid) (db_artifacts db)))"

definition list_invalid_artifacts ::
  "int \<Rightarrow> string \<Rightarrow> bool \<Rightarrow> queue_db \<Rightarrow> artifact_descriptor list" where
  "list_invalid_artifacts limit worker_id include_unowned db =
     (let worker = py_strip worker_id;
          visible = (\<lambda>a. worker = '''' \<or> a_worker_id a = worker \<or> (include_unowned \<and> a_worker_id a = ''''))
      in map artifact_descriptor_of
           (take (nat (max 1 (min 1000 limit)))
              (sort_key (\<lambda>a. (a_created_at a, a_relative_path a))
                 (filter (\<lambda>a. a_status a = AInvalid \<and> visible a) (db_artifacts db)))))"

section \<open>Protection of artifacts\<close>

definition delivery_cutoff :: "queue_settings \<Rightarrow> time \<Rightarrow> time" where
  "delivery_cutoff cfg now = now - secs (max 1 (delivery_grace_seconds cfg))"

definition terminal_retention_cutoff :: "queue_settings \<Rightarrow> time \<Rightarrow> time" where
  "terminal_retention_cutoff cfg now = now - secs (max 1 (terminal_retention_seconds cfg))"

text \<open>An attempted response counts until every cutoff has passed; no attempt time means now.\<close>

definition still_protected :: "time list \<Rightarrow> image_task \<Rightarrow> bool" where
  "still_protected cutoffs t \<longleftrightarrow>
     (case t_delivery_status t of
        DPending \<Rightarrow> True
      | DResponseAttempted \<Rightarrow>
          (case t_response_attempted_at t of None \<Rightarrow> True | Some at \<Rightarrow> \<exists>c \<in> set cutoffs. c < at)
      | DAcknowledged \<Rightarrow> False)"

definition task_delivery_still_protected :: "time \<Rightarrow> image_task \<Rightarrow> bool" where
  "task_delivery_still_protected cutoff t = still_protected [cutoff] t"

definition task_success_artifact_still_protected :: "time \<Rightarrow> time \<Rightarrow> image_task \<Rightarrow> bool" where
  "task_success_artifact_still_protected cutoff retention t = still_protected [cutoff, retention] t"

definition unaccounted_quota :: "uuid \<Rightarrow> queue_db \<Rightarrow> bool" where
  "unaccounted_quota tid db \<longleftrightarrow>
     (\<exists>j \<in> set (db_jobs db). j_task_id j = tid \<and> j_quota_consumed j \<and> \<not> j_quota_accounted j)"

definition protected_artifact :: "queue_settings \<Rightarrow> time \<Rightarrow> queue_db \<Rightarrow> image_task \<Rightarrow> task_artifact \<Rightarrow> bool" where
  "protected_artifact cfg now db t a \<longleftrightarrow>
     unaccounted_quota (t_id t) db \<or>
     t_status t \<in> {TQueued, TRunning, TSaving, TRetrying} \<or>
     (t_status t = TSuccess \<and>
      task_success_artifact_still_protected (delivery_cutoff cfg now) (terminal_retention_cutoff cfg now) t) \<or>
     (t_status t \<in> {TFailed, TCanceled} \<and> a_kind a = ''final'' \<and> a_status a = AReady \<and>
      (\<exists>j \<in> set (db_jobs db). a_job_id a = Some (j_id j) \<and> j_status j \<in> {JSuccess, JFailed}) \<and>
      task_delivery_still_protected (delivery_cutoff cfg now) t)"

definition protected_artifact_paths :: "queue_settings \<Rightarrow> time \<Rightarrow> queue_db \<Rightarrow> string list" where
  "protected_artifact_paths cfg now db =
     filter (\<lambda>p. py_strip p \<noteq> '''')
       (map a_relative_path
          (filter (\<lambda>a. \<exists>t \<in> set (db_tasks db). t_id t = a_task_id a \<and> protected_artifact cfg now db t a)
             (db_artifacts db)))"

section \<open>Purging terminal tasks\<close>

definition delivery_finished :: "time list \<Rightarrow> image_task \<Rightarrow> bool" where
  "delivery_finished cutoffs t \<longleftrightarrow>
     t_delivery_status t = DAcknowledged \<or>
     t_delivery_status t = DResponseAttempted \<and>
     (case t_response_attempted_at t of None \<Rightarrow> False | Some at \<Rightarrow> \<forall>c \<in> set cutoffs. at \<le> c)"

definition purgeable_task :: "queue_settings \<Rightarrow> int \<Rightarrow> time \<Rightarrow> queue_db \<Rightarrow> image_task \<Rightarrow> bool" where
  "purgeable_task cfg retention_seconds now db t \<longleftrightarrow>
     (let retention = now - secs (max 1 retention_seconds); cutoff = delivery_cutoff cfg now
      in (case t_completed_at t of None \<Rightarrow> False | Some at \<Rightarrow> at \<le> retention) \<and>
         \<not> unaccounted_quota (t_id t) db \<and>
         ((t_status t = TSuccess \<and> delivery_finished [cutoff, retention] t) \<or>
          (t_status t \<in> {TFailed, TCanceled} \<and>
           (t_succeeded_jobs t = 0 \<or> delivery_finished [cutoff] t))))"

text \<open>Deleting tasks deletes the rows that refer to them or to their jobs.\<close>

definition delete_tasks :: "uuid list \<Rightarrow> queue_db \<Rightarrow> queue_db" where
  "delete_tasks ids db =
     (let gone = (\<lambda>tid. tid \<in> set ids);
          gone_job = (\<lambda>jid. \<exists>j \<in> set (db_jobs db). j_id j = jid \<and> gone (j_task_id j));
          refers = (\<lambda>tid jid. gone tid \<or> (case jid of None \<Rightarrow> False | Some i \<Rightarrow> gone_job i))
      in db\<lparr>db_tasks := filter (\<lambda>t. \<not> gone (t_id t)) (db_tasks db),
            db_jobs := filter (\<lambda>j. \<not> gone (j_task_id j)) (db_jobs db),
            db_events := filter (\<lambda>e. \<not> refers (ev_task_id e) (ev_job_id e)) (db_events db),
            db_artifacts := filter (\<lambda>a. \<not> refers (a_task_id a) (a_job_id a)) (db_artifacts db),
            db_leases := filter (\<lambda>l. \<not> gone_job (l_job_id l)) (db_leases db),
            db_aliases := filter (\<lambda>al. \<not> gone (al_task_id al)) (db_aliases db)\<rparr>)"

text \<open>The artifacts a worker may clean up: its own, unowned ones if asked, those of dead workers.\<close>

definition cleanup_artifact :: "queue_settings \<Rightarrow> time \<Rightarrow> string \<Rightarrow> bool \<Rightarrow> queue_db \<Rightarrow> task_artifact \<Rightarrow> bool" where
  "cleanup_artifact cfg now worker include_unowned db a \<longleftrightarrow>
     (let owner = py_strip (a_worker_id a)
      in owner = worker \<or> owner = '''' \<and> include_unowned \<or>
         owner \<noteq> '''' \<and> \<not> (\<exists>w \<in> set (db_workers db).
           now - secs (max 60 (2 * lease_seconds cfg)) < w_heartbeat_at w \<and> py_strip (w_worker_id w) = owner))"

record purged_tasks =
  pt_removed :: nat
  pt_artifacts :: "artifact_descriptor list"
  pt_task_ids :: "uuid list"

definition purge_terminal_tasks ::
  "queue_settings \<Rightarrow> string \<Rightarrow> bool \<Rightarrow> int \<Rightarrow> time \<Rightarrow> queue_db \<Rightarrow> purged_tasks \<times> queue_db" where
  "purge_terminal_tasks cfg worker_id include_unowned retention_seconds now db =
     (let ids = map t_id (filter (purgeable_task cfg retention_seconds now db) (db_tasks db));
          worker = py_strip worker_id;
          rows = filter (\<lambda>a. a_task_id a \<in> set ids) (db_artifacts db);
          selected = (if worker = '''' then rows
                      else filter (cleanup_artifact cfg now worker include_unowned db) rows);
          pending = \<lparr>pt_removed = 0, pt_artifacts = map artifact_descriptor_of selected, pt_task_ids = ids\<rparr>
      in if ids = [] then (\<lparr>pt_removed = 0, pt_artifacts = [], pt_task_ids = []\<rparr>, db)
         else if worker = '''' \<and> rows = []
         then (pending\<lparr>pt_removed := length ids\<rparr>, delete_tasks ids db)
         else (pending, db))"

text \<open>
  The rows of the removed artifacts are deleted, then the tasks no artifact refers to any
  more. The ids are those of an earlier purge; they are not checked again.
\<close>

definition finalize_terminal_tasks ::
  "queue_settings \<Rightarrow> time \<Rightarrow> uuid list \<Rightarrow> string \<Rightarrow> bool \<Rightarrow> queue_db \<Rightarrow> nat \<times> queue_db" where
  "finalize_terminal_tasks cfg now task_ids worker_id include_unowned db =
     (let worker = py_strip worker_id;
          db1 = drop_artifacts
                  (\<lambda>a. a_task_id a \<in> set task_ids \<and>
                       (worker = '''' \<or> cleanup_artifact cfg now worker include_unowned db a)) db;
          remaining = a_task_id ` set (db_artifacts db1);
          ids = filter (\<lambda>i. i \<notin> remaining) task_ids
      in if task_ids = [] then (0, db)
         else (length (filter (\<lambda>t. t_id t \<in> set ids) (db_tasks db1)), delete_tasks ids db1))"

end
