(* ===== verification/Queue_Delivery_Correct.thy ===== *)
theory Queue_Delivery_Correct
  imports Queue_Delivery Queue_Recovery_Correct
begin

text \<open>
  Cancellation, delivery and purging keep the store well formed; a canceled task is never
  claimed again; an acknowledged result was there; what is purged is no longer protected,
  save for one case; and two defects of the code, proved of it.
\<close>

section \<open>Cancellation\<close>

lemma cancel_waiting_row_simps [simp]:
  "j_id (cancel_waiting_row now j) = j_id j" "j_task_id (cancel_waiting_row now j) = j_task_id j"
  "j_status (cancel_waiting_row now j) = JCanceled"
  by (simp_all add: cancel_waiting_row_def)

lemma cancel_waiting_row_ok:
  "job_ok j \<Longrightarrow> \<not> active_job (j_status j) \<Longrightarrow> job_ok (cancel_waiting_row now j)"
  by (auto simp: job_ok_def cancel_waiting_row_def)

lemma cancel_job_step:
  assumes "store_ok_except S db" and "jobs_within S ids db" and "inactive_within ids db"
    and "waiting_job (j_status j) \<Longrightarrow> j_id j \<in> ids"
  shows "store_ok_except S (cancel_waiting_job now tid j db) \<and> jobs_within S ids (cancel_waiting_job now tid j db) \<and>
         inactive_within ids (cancel_waiting_job now tid j db)"
proof (cases "waiting_job (j_status j)")
  case True
  have "store_ok_except S (upd_job (j_id j) (cancel_waiting_row now) db) \<and>
      jobs_within S ids (upd_job (j_id j) (cancel_waiting_row now) db) \<and>
      inactive_within ids (upd_job (j_id j) (cancel_waiting_row now) db)"
    by (rule rewrite_within_step [OF assms(1-3)]) (use True assms(4) in \<open>simp_all add: cancel_waiting_row_ok\<close>)
  with True show ?thesis by (simp add: cancel_waiting_job_def jobs_within_def inactive_within_def)
qed (use assms in \<open>simp add: cancel_waiting_job_def\<close>)

lemma cancel_jobs_ok:
  assumes "store_ok_except S db" and "jobs_within S ids db" and "inactive_within ids db"
    and "\<And>j. j \<in> set js \<Longrightarrow> waiting_job (j_status j) \<Longrightarrow> j_id j \<in> ids"
  shows "store_ok_except S (fold (cancel_waiting_job now tid) js db)"
proof -
  have "store_ok_except S (fold (cancel_waiting_job now tid) js db) \<and>
      jobs_within S ids (fold (cancel_waiting_job now tid) js db) \<and>
      inactive_within ids (fold (cancel_waiting_job now tid) js db)"
  proof (rule fold_invariant [where Q = "\<lambda>j. waiting_job (j_status j) \<longrightarrow> j_id j \<in> ids"])
    show "store_ok_except S db \<and> jobs_within S ids db \<and> inactive_within ids db"
      using assms by blast
  next
    fix j :: image_job and db1 assume "waiting_job (j_status j) \<longrightarrow> j_id j \<in> ids"
      "store_ok_except S db1 \<and> jobs_within S ids db1 \<and> inactive_within ids db1"
    then show "store_ok_except S (cancel_waiting_job now tid j db1) \<and>
        jobs_within S ids (cancel_waiting_job now tid j db1) \<and>
        inactive_within ids (cancel_waiting_job now tid j db1)"
      by (intro cancel_job_step) blast+
  qed (use assms(4) in blast)
  then show ?thesis by blast
qed

lemma cancel_job_rows:
  assumes "\<And>k. k \<in> set (db_jobs db) \<Longrightarrow> j_id k = j_id j \<Longrightarrow> k = j"
  shows "db_jobs (cancel_waiting_job now tid j db) =
     upd_rows (\<lambda>k. j_id k = j_id j \<and> waiting_job (j_status k)) (cancel_waiting_row now) (db_jobs db)"
proof (cases "waiting_job (j_status j)")
  case True
  have "upd_rows (\<lambda>k. j_id k = j_id j) (cancel_waiting_row now) (db_jobs db) =
      upd_rows (\<lambda>k. j_id k = j_id j \<and> waiting_job (j_status k)) (cancel_waiting_row now) (db_jobs db)"
    by (rule upd_rows_cong) (use assms True in auto)
  with True show ?thesis by (simp add: cancel_waiting_job_def db_jobs_upd_job)
next
  case False
  have "upd_rows (\<lambda>k. j_id k = j_id j \<and> waiting_job (j_status k)) (cancel_waiting_row now) (db_jobs db) = db_jobs db"
    by (rule upd_rows_none) (use assms False in blast)
  with False show ?thesis by (simp add: cancel_waiting_job_def)
qed

lemma cancel_jobs_rows:
  assumes "distinct (map j_id js)" and "\<And>j k. j \<in> set js \<Longrightarrow> k \<in> set (db_jobs db) \<Longrightarrow> j_id k = j_id j \<Longrightarrow> k = j"
  shows "db_jobs (fold (cancel_waiting_job now tid) js db) =
     upd_rows (\<lambda>k. j_id k \<in> j_id ` set js \<and> waiting_job (j_status k)) (cancel_waiting_row now) (db_jobs db)"
  using assms
proof (induction js arbitrary: db)
  case (Cons j js)
  have rows: "db_jobs (cancel_waiting_job now tid j db) =
      upd_rows (\<lambda>k. j_id k = j_id j \<and> waiting_job (j_status k)) (cancel_waiting_row now) (db_jobs db)"
    by (rule cancel_job_rows) (use Cons.prems(2) in simp)
  have new: "j_id j \<notin> j_id ` set js" using Cons.prems(1) by simp
  have "db_jobs (fold (cancel_waiting_job now tid) js (cancel_waiting_job now tid j db)) =
      upd_rows (\<lambda>k. j_id k \<in> j_id ` set js \<and> waiting_job (j_status k)) (cancel_waiting_row now)
        (db_jobs (cancel_waiting_job now tid j db))"
  proof (rule Cons.IH)
    show "distinct (map j_id js)" using Cons.prems(1) by simp
    fix i k assume i: "i \<in> set js" "k \<in> set (db_jobs (cancel_waiting_job now tid j db))" "j_id k = j_id i"
    from i(2) obtain k0 where k0: "k0 \<in> set (db_jobs db)"
      "k = (if j_id k0 = j_id j \<and> waiting_job (j_status k0) then cancel_waiting_row now k0 else k0)"
      unfolding rows by (rule in_upd_rowsE)
    have "j_id i \<noteq> j_id j" using new i(1) by (metis image_eqI)
    with k0(2) i(3) have "k = k0" by (simp split: if_splits)
    with i k0(1) Cons.prems(2) [of i k0] show "k = i" by simp
  qed
  then show ?case
    unfolding fold_Cons comp_apply rows using new by (auto simp: upd_rows_def)
qed (simp add: upd_rows_def)

lemma cancel_jobs_task_rows [simp]:
  "task_row (fold (cancel_waiting_job now tid) js db) i = task_row db i"
  by (induction js arbitrary: db) (simp_all add: cancel_waiting_job_def)

text \<open>An open task has an open job, so the branch of a task without one is never taken.\<close>

lemma open_task_open_job:
  assumes "store_ok db" and "t \<in> set (db_tasks db)" and "\<not> terminal_task (t_status t)"
  obtains j where "j \<in> set (db_jobs db)" "j_task_id j = t_id t" "\<not> terminal_job (j_status j)"
proof -
  have "task_ok t (statuses_of db (t_id t))"
    using assms by (auto simp: store_ok_def store_ok_except_def)
  with assms(3) have "\<not> all_terminal (statuses_of db (t_id t))"
    by (auto simp: task_ok_def task_outcome_def split: if_splits)
  with that show ?thesis by (auto simp: all_terminal_def statuses_of_def)
qed

definition cancel_rows :: "time \<Rightarrow> uuid \<Rightarrow> image_job list \<Rightarrow> image_job list" where
  "cancel_rows now tid =
     upd_rows (\<lambda>k. j_task_id k = tid \<and> waiting_job (j_status k)) (cancel_waiting_row now)"

lemma cancel_task_effect:
  assumes ok: "store_ok db" and t: "t \<in> set (db_tasks db)" "\<not> terminal_task (t_status t)"
  shows "store_ok (cancel_task now (t_id t) db)"
    and "db_jobs (cancel_task now (t_id t) db) = cancel_rows now (t_id t) (db_jobs db)"
    and "\<exists>t'. task_row (cancel_task now (t_id t) db) (t_id t) = Some t' \<and> t_cancel_requested t'"
proof -
  let ?tid = "t_id t"
  let ?js = "sort_key j_id (filter (\<lambda>j. j_task_id j = ?tid) (db_jobs db))"
  let ?W = "j_id ` {j \<in> set ?js. waiting_job (j_status j)}"
  let ?db1 = "upd_task ?tid (\<lambda>t. t\<lparr>t_cancel_requested := True\<rparr>) db"
  let ?db2 = "fold (cancel_waiting_job now ?tid) ?js ?db1"
  have d: "distinct (map j_id (db_jobs db))"
    using ok by (simp add: store_ok_def store_ok_except_def keys_ok_def)
  have same: "k = j" if "j \<in> set ?js" "k \<in> set (db_jobs db)" "j_id k = j_id j" for j k
    using that d by (auto dest: distinct_map_eq)
  have op: "\<exists>j \<in> set ?js. \<not> terminal_job (j_status j)"
    by (rule open_task_open_job [OF ok t]) auto
  have ct: "cancel_task now ?tid db = log_event ?tid None ''task_canceled'' 0 None
      (map_option (\<lambda>t. task_status_value (t_status t)) (task_row (aggregate_task now ?tid ?db2) ?tid)) []
      (aggregate_task now ?tid ?db2)"
    using op by (simp add: cancel_task_def Let_def)
  have "store_ok_except {?tid} ?db1"
    by (rule ok_upd_task_pending [OF store_ok_exceptI [OF ok]]) (simp_all add: task_frame_def)
  moreover have "jobs_within {?tid} ?W ?db1" "inactive_within ?W ?db1"
    using same job_status_groups(4) by (auto simp: jobs_within_def inactive_within_def)
  ultimately have "store_ok_except {?tid} ?db2" by (rule cancel_jobs_ok) auto
  then show "store_ok (cancel_task now ?tid db)" by (simp add: ct settle_ok)
  have "distinct (map j_id ?js)" using d by (simp add: distinct_map distinct_map_filter inj_on_def)
  from cancel_jobs_rows [OF this, of ?db1 now ?tid] same
  have "db_jobs ?db2 = upd_rows (\<lambda>k. j_id k \<in> j_id ` set ?js \<and> waiting_job (j_status k))
      (cancel_waiting_row now) (db_jobs db)" by simp
  also have "\<dots> = cancel_rows now ?tid (db_jobs db)"
    unfolding cancel_rows_def
  proof (rule upd_rows_cong [OF _ refl])
    fix k assume k: "k \<in> set (db_jobs db)"
    have "j_id k \<in> j_id ` set ?js \<longleftrightarrow> k \<in> set ?js" by (rule id_in_selected) (rule same [OF _ k])
    with k show "(j_id k \<in> j_id ` set ?js \<and> waiting_job (j_status k)) =
        (j_task_id k = ?tid \<and> waiting_job (j_status k))" by auto
  qed
  finally show "db_jobs (cancel_task now ?tid db) = cancel_rows now ?tid (db_jobs db)" by (simp add: ct)
  have "task_row db ?tid = Some t" using ok t(1) by (auto simp: store_ok_def intro: task_row_unique)
  then show "\<exists>t'. task_row (cancel_task now ?tid db) ?tid = Some t' \<and> t_cancel_requested t'"
    by (simp add: ct task_row_aggregate task_row_upd_task)
qed

lemma request_cancelD:
  assumes "request_cancel now owner ref db = Inr (snap, db')"
  obtains "db' = db" "snap = None"
  | t where "find_task db owner ref = Inr (Some t)" "terminal_task (t_status t) \<or> t_cancel_requested t"
      "db' = db" "snap = Some (task_snapshot_of db t)"
  | t where "find_task db owner ref = Inr (Some t)" "\<not> terminal_task (t_status t)" "\<not> t_cancel_requested t"
      "db' = cancel_task now (t_id t) db" "snap = snapshot_by_id db' (t_id t)"
proof (cases "find_task db owner ref")
  case (Inr r)
  show ?thesis
  proof (cases r)
    case None
    with Inr assms show ?thesis by (intro that(1)) (simp_all add: request_cancel_def)
  next
    case (Some t)
    show ?thesis
    proof (cases "t_owner_key t = owner")
      case True
      show ?thesis
      proof (cases "terminal_task (t_status t) \<or> t_cancel_requested t")
        case c: True
        with Inr assms Some True show ?thesis
          by (intro that(2) [of t]) (auto simp: request_cancel_def)
      next
        case c: False
        with Inr assms Some True show ?thesis
          by (intro that(3) [of t]) (auto simp: request_cancel_def Let_def)
      qed
    qed (use Inr assms Some in \<open>intro that(1), simp_all add: request_cancel_def\<close>)
  qed
qed (use assms in \<open>simp add: request_cancel_def\<close>)

lemma request_cancel_ok:
  assumes "store_ok db" and "request_cancel now owner ref db = Inr (snap, db')"
  shows "store_ok db'"
  using assms(2)
proof (cases rule: request_cancelD)
  case (3 t)
  with find_taskD [OF 3(1)] cancel_task_effect(1) [OF assms(1)] show ?thesis by simp
qed (use assms(1) in simp_all)

text \<open>The jobs of a canceled or terminal task are out of reach of the claim query.\<close>

lemma settled_task_not_claimable:
  assumes "store_ok db" and "task_row db tid = Some t" and "terminal_task (t_status t) \<or> t_cancel_requested t"
    and "j \<in> set (db_jobs db)" and "j_task_id j = tid"
  shows "\<not> claimable_job now ex after r g db j"
proof
  assume c: "claimable_job now ex after r g db j"
  then have w: "waiting_job (j_status j)" by (auto simp: claimable_job_def waiting_job_def)
  from c obtain u where "u \<in> set (db_tasks db)" "t_id u = j_task_id j" "\<not> t_cancel_requested u"
    by (auto simp: claimable_job_def)
  moreover have "t \<in> set (db_tasks db)" "t_id t = tid" using task_rowD [OF assms(2)] by auto
  ultimately have "\<not> t_cancel_requested t" using assms(1,5) by (metis store_ok_def task_unique)
  with assms(3) have "terminal_task (t_status t)" by blast
  with open_job_open_task [OF assms(1,4)] assms(2,5) w job_status_groups(3) show False by blast
qed

section \<open>Delivery\<close>

lemma ok_upd_tasks_same:
  assumes "store_ok db" and same: "\<And>t. task_same t (f t)"
  shows "store_ok (db\<lparr>db_tasks := upd_rows p f (db_tasks db)\<rparr>)" (is "store_ok ?db")
proof -
  have ids: "map t_id (upd_rows p f (db_tasks db)) = map t_id (db_tasks db)"
    by (rule map_upd_rows) (use same in \<open>simp add: task_same_def task_frame_def\<close>)
  then have keys: "keys_ok ?db" using assms(1) by (simp add: store_ok_def store_ok_except_def keys_ok_def)
  have fk: "fk_ok ?db"
    using assms(1) arg_cong [OF ids, of set] by (simp add: store_ok_def store_ok_except_def fk_ok_def)
  have st: "statuses_of ?db i = statuses_of db i" for i by (simp add: statuses_of_def)
  have tasks: "task_shape_ok ?db u \<and> task_ok u (statuses_of ?db (t_id u))"
    if u: "u \<in> set (upd_rows p f (db_tasks db))" for u
  proof -
    from u obtain t where t: "t \<in> set (db_tasks db)" "u = (if p t then f t else t)" by (rule in_upd_rowsE)
    have "task_same t u" using same [of t] by (simp add: t(2) task_same_def task_frame_def)
    with assms(1) t(1) show ?thesis
      by (simp add: store_ok_def store_ok_except_def task_shape_ok_def task_ok_def st task_same_def task_frame_def)
  qed
  have "lease_ok ?db l = lease_ok db l" for l by (simp add: lease_ok_def)
  with assms(1) keys fk tasks show ?thesis by (simp add: store_ok_def store_ok_except_def)
qed

lemma mark_responses_attempted_ok:
  "store_ok db \<Longrightarrow> store_ok (mark_responses_attempted now owner ids db)"
  unfolding mark_responses_attempted_def
  by (rule ok_upd_tasks_same) (simp_all add: task_same_def task_frame_def attempted_row_def)

lemma mark_response_attempted_ok:
  assumes "store_ok db" and "mark_response_attempted now owner ref db = Inr (snap, db')"
  shows "store_ok db'"
proof -
  have "store_ok (upd_task i (\<lambda>t. if t_delivery_status t \<noteq> DAcknowledged
      then touched now t (attempted_row now t) else t) db)" for i
    using assms(1) unfolding store_ok_def
    by (rule ok_upd_task_same) (simp add: task_same_def task_frame_def touched_def attempted_row_def)
  with assms show ?thesis
    by (auto simp: mark_response_attempted_def Let_def split: sum.splits option.splits)
qed

lemma acknowledgeD:
  assumes "acknowledge now owner ref db = Inr (Some snap, db')"
  obtains t where "find_task db owner ref = Inr (Some t)"
    "t_status t = TSuccess \<or> t_status t \<in> {TFailed, TCanceled} \<and> 0 < t_succeeded_jobs t"
    "db' = db \<and> t_delivery_status t = DAcknowledged \<and> snap = task_snapshot_of db t \<or>
     db' = log_event (t_id t) None ''delivery_acknowledged'' 0 None None [] (upd_task (t_id t) (acknowledged_row now) db) \<and>
     t_delivery_status t \<noteq> DAcknowledged \<and> Some snap = snapshot_by_id db' (t_id t) \<and>
     (t_status t = TSuccess \<longrightarrow> t_required_jobs t \<le> available_results (t_id t) db) \<and>
     0 < available_results (t_id t) db"
proof (cases "find_task db owner ref")
  case (Inr r)
  show ?thesis
  proof (cases r)
    case (Some t)
    with Inr assms show ?thesis
      by (intro that [of t]) (auto simp: acknowledge_def Let_def not_less split: if_splits)
  qed (use Inr assms in \<open>simp add: acknowledge_def\<close>)
qed (use assms in \<open>simp add: acknowledge_def\<close>)

lemma acknowledge_ok:
  assumes "store_ok db" and "acknowledge now owner ref db = Inr (snap, db')"
  shows "store_ok db'"
proof -
  have "store_ok (upd_task i (acknowledged_row now) db)" for i
    using assms(1) unfolding store_ok_def
    by (rule ok_upd_task_same) (simp add: task_same_def task_frame_def acknowledged_row_def)
  with assms show ?thesis
    by (auto simp: acknowledge_def Let_def split: sum.splits option.splits if_splits)
qed

section \<open>Public artifacts\<close>

lemma drop_artifacts_projections [simp]:
  "db_jobs (drop_artifacts p db) = db_jobs db" "db_tasks (drop_artifacts p db) = db_tasks db"
  "db_leases (drop_artifacts p db) = db_leases db" "store_ok (drop_artifacts p db) = store_ok db"
  "store_ok_except S (drop_artifacts p db) = store_ok_except S db"
  by (simp_all add: drop_artifacts_def store_ok_def)

lemma withdraw_result_ok: "store_ok db \<Longrightarrow> store_ok (withdraw_result now jid db)"
  unfolding store_ok_def withdraw_result_def
  by (cases jid)
     (auto intro!: ok_upd_job_same dest: store_job_ok simp: withdrawn_row_def job_same_lease_def job_ok_def)

lemma delete_public_final_artifact_ok:
  assumes "store_ok db"
  shows "store_ok (snd (delete_public_final_artifact now path db))"
  using withdraw_result_ok [OF assms, of now] assms
  by (auto simp: delete_public_final_artifact_def intro!: settle_ok store_ok_exceptI split: option.split)

lemma invalidate_public_final_artifact_ok:
  assumes "store_ok db"
  shows "store_ok (snd (invalidate_public_final_artifact now path db))"
  using withdraw_result_ok [OF assms, of now] assms
  by (auto simp: invalidate_public_final_artifact_def intro!: settle_ok store_ok_exceptI split: option.split)

section \<open>Purging\<close>

lemma delete_tasks_ok:
  assumes ok: "store_ok db"
  shows "store_ok (delete_tasks ids db)"
proof -
  let ?db = "delete_tasks ids db"
  have rows: "db_tasks ?db = filter (\<lambda>t. t_id t \<notin> set ids) (db_tasks db)"
    "db_jobs ?db = filter (\<lambda>j. j_task_id j \<notin> set ids) (db_jobs db)"
    "db_leases ?db = filter (\<lambda>l. \<not> (\<exists>j \<in> set (db_jobs db). j_id j = l_job_id l \<and> j_task_id j \<in> set ids)) (db_leases db)"
    by (simp_all add: delete_tasks_def Let_def)
  have st: "statuses_of ?db i = statuses_of db i" if "i \<notin> set ids" for i
    unfolding statuses_of_def rows filter_filter using that by (auto intro: arg_cong [where f = "map _"] filter_cong)
  have keys: "keys_ok ?db"
    using ok unfolding keys_ok_def rows by (auto simp: store_ok_def store_ok_except_def keys_ok_def intro: distinct_map_filter)
  have fk: "fk_ok ?db"
    using ok unfolding fk_ok_def rows by (auto simp: store_ok_def store_ok_except_def fk_ok_def)
  have lease: "lease_ok ?db l" if l: "l \<in> set (db_leases ?db)" for l
  proof -
    from ok l obtain j where j: "j \<in> set (db_jobs db)" "j_id j = l_job_id l" "lease_matches j l"
      unfolding rows by (auto simp: store_ok_def store_ok_except_def lease_ok_def)
    with l have "j \<in> set (db_jobs ?db)" unfolding rows by auto
    with j show ?thesis by (auto simp: lease_ok_def)
  qed
  have "task_shape_ok ?db t \<and> task_ok t (statuses_of ?db (t_id t))" if "t \<in> set (db_tasks ?db)" for t
    using ok that st unfolding rows by (auto simp: store_ok_def store_ok_except_def task_shape_ok_def)
  moreover have "\<forall>j \<in> set (db_jobs ?db). job_ok j"
    using ok unfolding rows by (auto simp: store_ok_def store_ok_except_def)
  ultimately show ?thesis
    using keys fk lease by (simp add: store_ok_def store_ok_except_def)
qed

lemma purge_terminal_tasks_ok:
  "store_ok db \<Longrightarrow> store_ok (snd (purge_terminal_tasks cfg w inc ret now db))"
  by (simp add: purge_terminal_tasks_def Let_def delete_tasks_ok)

lemma finalize_terminal_tasks_ok:
  "store_ok db \<Longrightarrow> store_ok (snd (finalize_terminal_tasks cfg now ids w inc db))"
  by (simp add: finalize_terminal_tasks_def Let_def delete_tasks_ok)

section \<open>Properties\<close>

lemma task_row_of_find:
  "store_ok db \<Longrightarrow> find_task db owner ref = Inr (Some t) \<Longrightarrow> task_row db (t_id t) = Some t"
  by (auto simp: store_ok_def intro: task_row_unique find_taskD(1))

lemma snapshot_id [simp]: "ts_id (task_snapshot_of db t) = t_id t"
  by (simp add: task_snapshot_of_def snapshot_from_jobs_def Let_def)

lemma cancel_rows_terminal:
  "(\<forall>k \<in> set (cancel_rows now tid js). j_task_id k = tid \<longrightarrow> terminal_job (j_status k)) \<longleftrightarrow>
   (\<forall>j \<in> set js. j_task_id j = tid \<longrightarrow> \<not> active_job (j_status j))"
proof -
  let ?f = "\<lambda>j. if j_task_id j = tid \<and> waiting_job (j_status j) then cancel_waiting_row now j else j"
  have "(j_task_id (?f j) = tid \<longrightarrow> terminal_job (j_status (?f j))) \<longleftrightarrow>
      (j_task_id j = tid \<longrightarrow> \<not> active_job (j_status j))" for j
    using job_status_groups [of "j_status j"] by simp blast
  then show ?thesis unfolding cancel_rows_def upd_rows_def set_map by (simp only: ball_simps)
qed

lemma canceled_iff_all_terminal:
  assumes "store_ok db" and "task_row db tid = Some t" and "t_cancel_requested t"
  shows "t_status t = TCanceled \<longleftrightarrow> all_terminal (statuses_of db tid)"
proof -
  have "task_ok t (statuses_of db tid)"
    using assms(1) task_rowD [OF assms(2)] by (auto simp: store_ok_def store_ok_except_def)
  with assms(3) show ?thesis
    by (cases "all_terminal (statuses_of db tid)") (auto simp: task_ok_def task_outcome_def terminal_task_def)
qed

text \<open>
  Cancellation stops the work: once a cancellation was answered, no claim query
  with any cursor, at any time, finds a job of the task; the first cancellation of an open
  task cancels exactly its waiting jobs and leaves the jobs workers hold to the workers, and
  the task is canceled at once if and only if no worker holds a job of it.
\<close>

theorem cancel_stops_claims:
  assumes "store_ok db" and "request_cancel now owner ref db = Inr (Some snap, db')"
  shows "store_ok db' \<and>
    (\<forall>j \<in> set (db_jobs db'). j_task_id j = ts_id snap \<longrightarrow> \<not> claimable_job at ex after r g db' j) \<and>
    (\<forall>t. task_row db (ts_id snap) = Some t \<and> \<not> terminal_task (t_status t) \<and> \<not> t_cancel_requested t \<longrightarrow>
       db_jobs db' = cancel_rows now (ts_id snap) (db_jobs db) \<and>
       (ts_status snap = TCanceled \<longleftrightarrow>
          (\<forall>j \<in> set (db_jobs db). j_task_id j = ts_id snap \<longrightarrow> \<not> active_job (j_status j))))"
  using assms(2)
proof (cases rule: request_cancelD)
  case (2 t)
  note row = task_row_of_find [OF assms(1) 2(1)]
  from 2 have "ts_id snap = t_id t" by simp
  with row 2 settled_task_not_claimable [OF assms(1) row] assms(1) show ?thesis by auto
next
  case (3 t)
  note t = find_taskD(1) [OF 3(1)] and row = task_row_of_find [OF assms(1) 3(1)]
  note eff = cancel_task_effect [OF assms(1) t 3(2), of now]
  from eff(3) obtain t' where t': "task_row db' (t_id t) = Some t'" "t_cancel_requested t'"
    unfolding 3(4) by blast
  then have snap: "snap = task_snapshot_of db' t'" "t_id t' = t_id t"
    using 3(5) by (auto simp: snapshot_by_id_def dest: task_rowD)
  have ok': "store_ok db'" using eff(1) 3(4) by simp
  have jobs: "db_jobs db' = cancel_rows now (t_id t) (db_jobs db)" using eff(2) 3(4) by simp
  have "ts_status snap = t_status t'"
    unfolding snap by (simp add: task_snapshot_of_def snapshot_from_jobs_def Let_def)
  moreover have "t_status t' = TCanceled \<longleftrightarrow> all_terminal (statuses_of db' (t_id t))"
    by (rule canceled_iff_all_terminal [OF ok' t'])
  moreover have "all_terminal (statuses_of db' (t_id t)) \<longleftrightarrow>
      (\<forall>j \<in> set (db_jobs db). j_task_id j = t_id t \<longrightarrow> \<not> active_job (j_status j))"
    unfolding cancel_rows_terminal [where tid = "t_id t" and now = now, symmetric] all_terminal_def statuses_of_def jobs
    by auto
  ultimately show ?thesis
    using settled_task_not_claimable [OF ok' t'(1)] t'(2) ok' jobs snap by simp
qed simp

theorem cancel_stops_claims_witness:
  "\<exists>snap db'. request_cancel 30 ''o'' \<lparr>id_text = ''k'', id_uuid = None\<rparr> demo_db = Inr (Some snap, db') \<and>
     map j_status (db_jobs db') = [JRunning, JCanceled] \<and> ts_status snap \<noteq> TCanceled \<and>
     (\<forall>j \<in> set (db_jobs db'). j_task_id j = ts_id snap \<longrightarrow> \<not> claimable_job 99 [] None False False db' j)"
proof -
  have "case request_cancel 30 ''o'' \<lparr>id_text = ''k'', id_uuid = None\<rparr> demo_db of
      Inr (Some snap, db') \<Rightarrow> map j_status (db_jobs db') = [JRunning, JCanceled] \<and> ts_status snap \<noteq> TCanceled
    | _ \<Rightarrow> False" by code_simp
  then obtain snap db' where r: "request_cancel 30 ''o'' \<lparr>id_text = ''k'', id_uuid = None\<rparr> demo_db = Inr (Some snap, db')"
    "map j_status (db_jobs db') = [JRunning, JCanceled]" "ts_status snap \<noteq> TCanceled"
    by (auto split: sum.splits option.splits prod.splits)
  from cancel_stops_claims [OF demo_ok r(1), of 99 "[]" None False False]
  have "\<forall>j \<in> set (db_jobs db'). j_task_id j = ts_id snap \<longrightarrow> \<not> claimable_job 99 [] None False False db' j"
    by (elim conjE)
  with r show ?thesis by (intro exI [of _ snap] exI [of _ db'] conjI)
qed

text \<open>
  Acknowledgement is honest: a delivery is only acknowledged for a task of the
  owner that finished with at least one image, for a successful one only when every job
  still has its result, and it changes nothing but the delivery columns of that task.
\<close>

theorem acknowledge_only_available_results:
  assumes "store_ok db" and "acknowledge now owner ref db = Inr (Some snap, db')"
  shows "\<exists>t. task_row db (ts_id snap) = Some t \<and> t_owner_key t = py_strip owner \<and> terminal_task (t_status t) \<and>
    0 < t_succeeded_jobs t \<and> ts_delivery_status snap = DAcknowledged \<and> store_ok db' \<and>
    db_jobs db' = db_jobs db \<and> db_artifacts db' = db_artifacts db \<and> db_leases db' = db_leases db \<and>
    (t_delivery_status t = DAcknowledged \<longrightarrow> db' = db) \<and>
    (t_delivery_status t \<noteq> DAcknowledged \<and> t_status t = TSuccess \<longrightarrow>
       (\<forall>j \<in> set (db_jobs db). j_task_id j = t_id t \<longrightarrow> payload_truthy (j_result_payload j)))"
proof -
  from acknowledgeD [OF assms(2)] obtain t where
    f: "find_task db owner ref = Inr (Some t)"
    and fin: "t_status t = TSuccess \<or> t_status t \<in> {TFailed, TCanceled} \<and> 0 < t_succeeded_jobs t"
    and res: "db' = db \<and> t_delivery_status t = DAcknowledged \<and> snap = task_snapshot_of db t \<or>
     db' = log_event (t_id t) None ''delivery_acknowledged'' 0 None None [] (upd_task (t_id t) (acknowledged_row now) db) \<and>
     t_delivery_status t \<noteq> DAcknowledged \<and> Some snap = snapshot_by_id db' (t_id t) \<and>
     (t_status t = TSuccess \<longrightarrow> t_required_jobs t \<le> available_results (t_id t) db) \<and>
     0 < available_results (t_id t) db" by blast
  note row = task_row_of_find [OF assms(1) f]
  let ?J = "filter (\<lambda>j. j_task_id j = t_id t) (db_jobs db)"
  have shape: "length ?J = t_required_jobs t" "1 \<le> t_required_jobs t"
    using assms(1) task_rowD [OF row] by (auto simp: store_ok_def store_ok_except_def task_shape_ok_def statuses_of_def)
  have "0 < t_succeeded_jobs t"
    using fin task_success_iff [OF assms(1) row] shape(2) by auto
  moreover have "payload_truthy (j_result_payload j)"
    if "t_required_jobs t \<le> available_results (t_id t) db" "j \<in> set (db_jobs db)" "j_task_id j = t_id t" for j
  proof -
    let ?p = "\<lambda>j. j_status j = JSuccess \<and> payload_truthy (j_result_payload j)"
    have "length ?J \<le> length (filter ?p ?J)"
      using that(1) shape(1) by (simp add: available_results_def conj_commute conj_left_commute)
    moreover have "j \<in> set ?J" using that(2,3) by simp
    ultimately have "?p j" using length_filter_less [of j ?J ?p] by fastforce
    then show ?thesis by simp
  qed
  moreover have "ts_delivery_status snap = DAcknowledged \<and> ts_id snap = t_id t"
    using res row
    by (auto simp: snapshot_by_id_def task_row_upd_task acknowledged_row_def task_snapshot_of_def
        snapshot_from_jobs_def Let_def dest: task_rowD)
  ultimately show ?thesis
    using res row find_taskD [OF f] acknowledge_ok [OF assms] fin
    by (auto simp: terminal_task_def)
qed

text \<open>
  Purging and protection exclude each other but for one case: with the same
  clock and retention, an artifact of a task that may be purged is only still protected when
  the task failed or was canceled without a single image and the artifact is a ready final
  one whose delivery is open.
\<close>

theorem purgeable_artifacts_unprotected:
  assumes "store_ok db" and "t \<in> set (db_tasks db)"
    and "purgeable_task cfg (terminal_retention_seconds cfg) now db t"
    and "protected_artifact cfg now db t a"
  shows "t_status t \<in> {TFailed, TCanceled} \<and> t_succeeded_jobs t = 0 \<and> a_kind a = ''final'' \<and>
    a_status a = AReady \<and> t_delivery_status t \<noteq> DAcknowledged \<and>
    (\<exists>j \<in> set (db_jobs db). a_job_id a = Some (j_id j) \<and> (j_task_id j = t_id t \<longrightarrow> j_status j = JFailed))"
proof -
  have quota: "\<not> unaccounted_quota (t_id t) db" and fin: "t_status t \<in> {TSuccess, TFailed, TCanceled}"
    using assms(3) by (auto simp: purgeable_task_def Let_def)
  have over: "\<not> still_protected cs t" if "delivery_finished cs t" for cs
    using that by (auto simp: still_protected_def delivery_finished_def split: option.splits) (meson leD)
  have "t_status t \<noteq> TSuccess"
    using assms(3,4) over quota
    by (auto simp: purgeable_task_def protected_artifact_def Let_def task_success_artifact_still_protected_def
        terminal_retention_cutoff_def)
  then have fail: "t_status t \<in> {TFailed, TCanceled}" using fin by simp
  with assms(4) quota have art: "a_kind a = ''final''" "a_status a = AReady"
      "task_delivery_still_protected (delivery_cutoff cfg now) t"
    and job: "\<exists>j \<in> set (db_jobs db). a_job_id a = Some (j_id j) \<and> j_status j \<in> {JSuccess, JFailed}"
    by (auto simp: protected_artifact_def)
  have none: "t_succeeded_jobs t = 0"
    using assms(3) fail over art(3) by (auto simp: purgeable_task_def Let_def task_delivery_still_protected_def)
  have "j_status j \<noteq> JSuccess" if "j \<in> set (db_jobs db)" "j_task_id j = t_id t" for j
  proof
    assume "j_status j = JSuccess"
    with that have "JSuccess \<in> set (statuses_of db (t_id t))" by (force simp: statuses_of_def)
    moreover have "count_list (statuses_of db (t_id t)) JSuccess = 0"
      using assms(1,2) none by (auto simp: store_ok_def store_ok_except_def task_ok_def)
    ultimately show False by (simp add: count_list_0_iff)
  qed
  moreover have "t_delivery_status t \<noteq> DAcknowledged"
    using art(3) by (auto simp: task_delivery_still_protected_def still_protected_def)
  ultimately show ?thesis using fail none art job by auto
qed

text \<open>The case occurs: a failed job that left a final artifact, its delivery pending for ever.\<close>

definition demo_final :: task_artifact where
  "demo_final = artifact_row 3 (demo_descriptor\<lparr>d_job_id := Some 10\<rparr>) ''w'' None"

definition demo_leftover_db :: queue_db where
  "demo_leftover_db = demo_failed_db\<lparr>
     db_tasks := [demo_task\<lparr>t_status := TFailed, t_failed_jobs := 2, t_completed_at := Some 10\<rparr>],
     db_artifacts := [demo_final]\<rparr>"

theorem purgeable_artifacts_unprotected_witness:
  "\<exists>t. t \<in> set (db_tasks demo_leftover_db) \<and>
     purgeable_task demo_settings (terminal_retention_seconds demo_settings) 1000000000000 demo_leftover_db t \<and>
     protected_artifact demo_settings 1000000000000 demo_leftover_db t demo_final \<and> t_succeeded_jobs t = 0"
proof -
  let ?t = "hd (db_tasks demo_leftover_db)"
  have ok: "store_ok demo_leftover_db" and "?t \<in> set (db_tasks demo_leftover_db)"
    and "purgeable_task demo_settings (terminal_retention_seconds demo_settings) 1000000000000 demo_leftover_db ?t"
    and "protected_artifact demo_settings 1000000000000 demo_leftover_db ?t demo_final"
    by code_simp+
  with purgeable_artifacts_unprotected [OF this] show ?thesis by blast
qed

lemma requeue_undeliverableD:
  assumes r: "requeue_undeliverable_result clk owner tid jid kind err db = Inr (snap, db')"
    and o: "owned_task_of_job owner tid jid db = Some (j, t)"
    and s: "j_status j = JSuccess" "requeue_plan kind j = Some (stage, discard)"
  obtains db2 data where "db_jobs db2 = db_jobs db" "db_tasks db2 = db_tasks db"
    "db' = aggregate_task clk tid (log_event tid (Some jid) ''result_artifact_recovery_queued'' (attempts_sum j)
       (Some ''success'') (Some ''queued'') data
       (upd_task tid reopened_task (upd_job jid (requeued_row clk stage) db2)))"
proof -
  let ?gone = "artifact_of_kinds jid discard"
  let ?paths = "map a_relative_path (filter ?gone (db_artifacts db))"
  let ?db1 = "upd_artifacts ?gone invalid_artifact db"
  let ?db2 = "(if ?paths = [] then ?db1
     else log_event tid (Some jid) ''result_artifacts_marked_for_cleanup'' (attempts_sum j) None None
            [(''paths'', JList (map JStr ?paths))] ?db1)"
  let ?data = "[(''recovery_stage'', JStr (job_stage_value stage)),
    (''error'', if err = '''' then JMsg MFinalUndeliverable else JStr err)]"
  show ?thesis
    by (rule that [of ?db2 ?data]) (use r o s in \<open>auto simp: requeue_undeliverable_result_def Let_def split: if_splits\<close>)
qed

text \<open>
  Property C15. A requeued result of a canceled task is stuck: recovering an undeliverable
  result of a canceled task puts a job back into the queue that no claim query ever finds;
  the task is open again, so it is never purged, and canceling it once more changes nothing.
\<close>

theorem requeue_of_canceled_task_is_stuck:
  assumes "store_ok db" and "owned_task_of_job owner tid jid db = Some (j, t)" and "t_cancel_requested t"
    and "j_status j = JSuccess" and "requeue_plan kind j \<noteq> None" and "kind \<in> {'''', ''downloaded'', ''upscaled''}"
  shows "\<exists>snap db' j' t'. requeue_undeliverable_result clk owner tid jid kind err db = Inr (snap, db') \<and>
    j' \<in> set (db_jobs db') \<and> j_id j' = jid \<and> j_status j' = JQueued \<and>
    (\<forall>now ex after r g. \<not> claimable_job now ex after r g db' j') \<and>
    task_row db' tid = Some t' \<and> \<not> terminal_task (t_status t') \<and>
    (\<forall>cfg ret now. \<not> purgeable_task cfg ret now db' t') \<and>
    (\<forall>now o' ref snap' db''. request_cancel now o' ref db' = Inr (Some snap', db'') \<and> ts_id snap' = tid \<longrightarrow>
       db'' = db')"
proof -
  note o = owned_task_of_jobD [OF assms(2)]
  have row: "task_row db tid = Some t" using assms(1) o(4,5) by (auto simp: store_ok_def intro: task_row_unique)
  from assms(5) obtain stage discard where plan: "requeue_plan kind j = Some (stage, discard)" by auto
  obtain snap db' where r: "requeue_undeliverable_result clk owner tid jid kind err db = Inr (snap, db')"
    using assms(2,4,6) plan by (auto simp: requeue_undeliverable_result_def Let_def)
  have ok': "store_ok db'" by (rule requeue_undeliverable_result_ok [OF assms(1) r])
  from requeue_undeliverableD [OF r assms(2,4) plan] obtain db2 data where
    db2: "db_jobs db2 = db_jobs db" "db_tasks db2 = db_tasks db"
    and db': "db' = aggregate_task clk tid (log_event tid (Some jid) ''result_artifact_recovery_queued''
       (attempts_sum j) (Some ''success'') (Some ''queued'') data
       (upd_task tid reopened_task (upd_job jid (requeued_row clk stage) db2)))" by blast
  have jobs: "db_jobs db' = upd_rows (\<lambda>k. j_id k = jid) (requeued_row clk stage) (db_jobs db)"
    by (simp add: db' db_jobs_upd_job db2)
  have "task_row db2 tid = Some t" using row by (simp add: task_row_def db2)
  then have trow: "task_row db' tid = Some (aggregate_row clk (jobs_of db' tid) (reopened_task t))"
    by (simp add: db' task_row_aggregate task_row_upd_task reopened_task_def jobs_of_def)
  let ?j' = "requeued_row clk stage j" and ?t' = "aggregate_row clk (jobs_of db' tid) (reopened_task t)"
  have j': "?j' \<in> set (db_jobs db')" "j_id ?j' = jid" "j_status ?j' = JQueued" "j_task_id ?j' = tid"
    using o(1-3) by (auto simp: jobs upd_rows_def)
  have c: "t_cancel_requested ?t'" using assms(3) by (simp add: reopened_task_def)
  have op: "\<not> terminal_task (t_status ?t')"
    using open_job_open_task [OF ok' j'(1)] trow j'(3,4) by simp
  have again: "db'' = db'" if "request_cancel now o' ref db' = Inr (Some snap', db'')" "ts_id snap' = tid"
    for now o' ref snap' db''
    using that(1)
  proof (cases rule: request_cancelD)
    case (3 u)
    note u = find_taskD(1) [OF 3(1)]
    from cancel_task_effect(3) [OF ok' u 3(2), of now] have "ts_id snap' = t_id u"
      using 3(4,5) by (auto simp: snapshot_by_id_def dest: task_rowD)
    with task_row_of_find [OF ok' 3(1)] trow that(2) have "u = ?t'" by simp
    with c 3(3) show ?thesis by metis
  qed simp_all
  have "\<not> purgeable_task cfg ret now db' ?t'" for cfg ret now
    using op by (auto simp: purgeable_task_def Let_def terminal_task_def)
  with r j' op again trow settled_task_not_claimable [OF ok' trow _ j'(1,4)] c show ?thesis by blast
qed

definition demo_attempt :: image_attempt where
  "demo_attempt = \<lparr>att_slot = 1, att_attempt = 1, att_status = ''ok'', att_account_email = ''a@b'',
     att_account_id = ''7'', att_failure_code = '''', att_switched_account = False\<rparr>"

definition demo_delivered_job :: image_job where
  "demo_delivered_job = demo_queued\<lparr>j_id := 10, j_ordinal := 1, j_status := JSuccess, j_stage := SSuccess,
     j_quota_consumed := True, j_quota_accounted := True, j_conversation_id := Some ''x'',
     j_result_payload := \<lparr>rp_fields = [(''url'', JStr ''u'')], rp_attempts = [demo_attempt]\<rparr>\<rparr>"

definition demo_canceled_db :: queue_db where
  "demo_canceled_db = empty_db\<lparr>
     db_tasks := [demo_task\<lparr>t_status := TCanceled, t_cancel_requested := True, t_succeeded_jobs := 1\<rparr>],
     db_jobs := [demo_delivered_job, demo_queued\<lparr>j_status := JCanceled, j_stage := SCanceled\<rparr>]\<rparr>"

theorem requeue_of_canceled_task_is_stuck_witness:
  "\<exists>snap db' j'. requeue_undeliverable_result 50 ''o'' 1 10 '''' '''' demo_canceled_db = Inr (snap, db') \<and>
     j' \<in> set (db_jobs db') \<and> j_status j' = JQueued \<and> \<not> claimable_job 99 [] None False False db' j'"
proof -
  have ok: "store_ok demo_canceled_db"
    and o: "owned_task_of_job ''o'' 1 10 demo_canceled_db = Some (demo_delivered_job, hd (db_tasks demo_canceled_db))"
    and c: "t_cancel_requested (hd (db_tasks demo_canceled_db))" and s: "j_status demo_delivered_job = JSuccess"
    and p: "requeue_plan '''' demo_delivered_job \<noteq> None" and k: "'''' \<in> {'''', ''downloaded'', ''upscaled''}"
    by code_simp+
  from requeue_of_canceled_task_is_stuck [OF ok o c s p k, of 50 "''''"] show ?thesis by blast
qed

text \<open>
  A deleted result is still counted: the deletion keeps the attempts in the payload, so the
  payload is still truthy and the delivery of a task without any artifact is acknowledged.
\<close>

definition demo_delivered_db :: queue_db where
  "demo_delivered_db = empty_db\<lparr>
     db_tasks := [demo_task\<lparr>t_status := TSuccess, t_required_jobs := 1, t_succeeded_jobs := 1\<rparr>],
     db_jobs := [demo_delivered_job], db_artifacts := [demo_final]\<rparr>"

theorem acknowledge_only_available_results_witness:
  "\<exists>snap db'. acknowledge 60 ''o'' \<lparr>id_text = ''k'', id_uuid = None\<rparr> demo_delivered_db = Inr (Some snap, db') \<and>
     ts_delivery_status snap = DAcknowledged \<and> db_artifacts db' = [demo_final]"
proof -
  have ok: "store_ok demo_delivered_db"
    and t: "case acknowledge 60 ''o'' \<lparr>id_text = ''k'', id_uuid = None\<rparr> demo_delivered_db of
      Inr (Some snap, db') \<Rightarrow> True | _ \<Rightarrow> False"
    by code_simp+
  from t obtain snap db' where
    r: "acknowledge 60 ''o'' \<lparr>id_text = ''k'', id_uuid = None\<rparr> demo_delivered_db = Inr (Some snap, db')"
    by (auto split: sum.splits option.splits prod.splits)
  from acknowledge_only_available_results [OF ok r] r show ?thesis by (auto simp: demo_delivered_db_def)
qed

lemma deleted_result_still_acknowledged:
  "let (deleted, db1) = delete_public_final_artifact 50 ''p'' demo_delivered_db
   in store_ok demo_delivered_db \<and> deleted \<and> db_artifacts db1 = [] \<and>
      (case acknowledge 60 ''o'' \<lparr>id_text = ''k'', id_uuid = None\<rparr> db1 of
         Inr (Some snap, db2) \<Rightarrow> ts_delivery_status snap = DAcknowledged | _ \<Rightarrow> False)"
  by code_simp

text \<open>
  A withdrawn result loses its image but not its history: after a public final
  artifact was deleted, it is no longer public and its job keeps the account attempts and
  nothing else of its payload, so a job with recorded attempts still counts as a result that
  can be acknowledged; no other job changes and the store stays well formed.
\<close>

theorem delete_public_final_artifact_effect:
  assumes "store_ok db" and "delete_public_final_artifact now path db = (True, db')"
  shows "store_ok db' \<and> \<not> is_public_final_artifact path db' \<and>
    (\<exists>a jid. find_public_final path db = Some a \<and> a_job_id a = Some jid \<and>
       db_artifacts db' = filter (\<lambda>b. a_relative_path b \<noteq> a_relative_path a) (db_artifacts db) \<and>
       db_jobs db' = upd_rows (\<lambda>j. j_id j = jid) (withdrawn_row now) (db_jobs db)) \<and>
    (\<forall>j. rp_fields (j_result_payload (withdrawn_row now j)) = [] \<and>
         (payload_truthy (j_result_payload (withdrawn_row now j)) \<longleftrightarrow> rp_attempts (j_result_payload j) \<noteq> []))"
proof -
  from assms(2) obtain a where a: "find_public_final path db = Some a"
    by (auto simp: delete_public_final_artifact_def split: option.splits)
  then have pub: "public_final db (normalize_path path) a"
    by (auto simp: find_public_final_def Let_def dest: find_SomeD split: if_splits)
  then obtain jid where jid: "a_job_id a = Some jid" and rel: "a_relative_path a = normalize_path path"
    by (auto simp: public_final_def)
  have arts: "db_artifacts db' = filter (\<lambda>b. a_relative_path b \<noteq> a_relative_path a) (db_artifacts db)"
    using assms(2) a jid by (auto simp: delete_public_final_artifact_def drop_artifacts_def withdraw_result_def)
  moreover have "db_jobs db' = upd_rows (\<lambda>j. j_id j = jid) (withdrawn_row now) (db_jobs db)"
    using assms(2) a jid by (auto simp: delete_public_final_artifact_def withdraw_result_def db_jobs_upd_job)
  moreover have "\<not> is_public_final_artifact path db'"
    unfolding is_public_final_artifact_def find_public_final_def Let_def arts rel
    by (auto simp: find_None_iff public_final_def)
  moreover have "store_ok db'" using delete_public_final_artifact_ok [OF assms(1), of now path] assms(2) by simp
  moreover have "dedup_first xs = [] \<longleftrightarrow> xs = []" for xs :: "image_attempt list"
    by (metis set_dedup_first set_empty)
  then have "rp_fields (j_result_payload (withdrawn_row now j)) = [] \<and>
      (payload_truthy (j_result_payload (withdrawn_row now j)) \<longleftrightarrow> rp_attempts (j_result_payload j) \<noteq> [])" for j
    by (simp add: withdrawn_row_def payload_truthy_def payload_preserving_image_attempts_def)
  ultimately show ?thesis using a jid by blast
qed

theorem delete_public_final_artifact_effect_witness:
  "\<exists>db'. delete_public_final_artifact 50 ''p'' demo_delivered_db = (True, db') \<and> store_ok db' \<and>
     \<not> is_public_final_artifact ''p'' db'"
proof -
  have ok: "store_ok demo_delivered_db"
    and t: "fst (delete_public_final_artifact 50 ''p'' demo_delivered_db)"
    by code_simp+
  from t obtain db' where r: "delete_public_final_artifact 50 ''p'' demo_delivered_db = (True, db')"
    by (cases "delete_public_final_artifact 50 ''p'' demo_delivered_db") auto
  from delete_public_final_artifact_effect [OF ok r] r show ?thesis by blast
qed

end
