(* ===== verification/Queue_Registry.thy ===== *)
theory Queue_Registry
  imports Queue_Recovery
begin

text \<open>
  The registry of workers in \<open>services/image_queue/repository.py\<close>: the row a worker refreshes
  with every heartbeat (\<open>update_worker_state\<close>), with the check that no second process takes over
  the identity of a live one; its removal, the delivery status, and what is read from it.
\<close>

section \<open>Reports\<close>

text \<open>
  The snapshot a worker sends: the identity, the activity flag and the other keys, as in
  \<open>worker_state\<close>.
\<close>

record worker_report =
  wr_instance_id :: string
  wr_process_instance_id :: string
  wr_process_started_at :: start_stamp
  wr_configured_id :: string
  wr_worker_active :: bool
  wr_fields :: jobj
  wr_effective_concurrency :: int
  wr_pause_reason :: string

definition delivery_snapshot_keys :: "string list" where
  "delivery_snapshot_keys =
     [''delivery_status'', ''delivery_checked_at'', ''delivery_url'', ''delivery_error'', ''delivery_failures'']"

definition start_time :: "start_stamp \<Rightarrow> time option" where
  "start_time s = (case s of StartedAt t \<Rightarrow> Some t | _ \<Rightarrow> None)"

text \<open>What the new snapshot keeps of the previous one: an identity it lacks, and the delivery keys.\<close>

definition keep_delivery_keys :: "jobj \<Rightarrow> jobj \<Rightarrow> jobj" where
  "keep_delivery_keys previous entries =
     fold (\<lambda>k fs. if k \<notin> fst ` set fs
                  then (case map_of previous k of None \<Rightarrow> fs | Some v \<Rightarrow> dict_set k v fs)
                  else fs)
       delivery_snapshot_keys entries"

definition merged_report :: "worker_state \<Rightarrow> worker_report \<Rightarrow> worker_report" where
  "merged_report w r =
     r\<lparr>wr_instance_id := (if wr_instance_id r = '''' then w_instance_id w else wr_instance_id r),
       wr_process_instance_id :=
         (if wr_process_instance_id r = '''' then w_process_instance_id w else wr_process_instance_id r),
       wr_process_started_at :=
         (if wr_process_started_at r = NoStart then w_process_started_at w else wr_process_started_at r),
       wr_configured_id := (if wr_configured_id r = '''' then w_configured_id w else wr_configured_id r),
       wr_fields := keep_delivery_keys (w_fields w) (wr_fields r)\<rparr>"

definition reported_row :: "time \<Rightarrow> worker_report \<Rightarrow> worker_state \<Rightarrow> worker_state" where
  "reported_row now r w =
     w\<lparr>w_heartbeat_at := now, w_instance_id := wr_instance_id r,
       w_process_instance_id := wr_process_instance_id r,
       w_process_started_at := wr_process_started_at r, w_configured_id := wr_configured_id r,
       w_worker_active := wr_worker_active r, w_fields := wr_fields r,
       w_effective_concurrency := nat (wr_effective_concurrency r),
       w_pause_reason := (if wr_pause_reason r = '''' then None else Some (wr_pause_reason r))\<rparr>"

definition new_worker_row :: "string \<Rightarrow> time \<Rightarrow> worker_state" where
  "new_worker_row worker_id now =
     \<lparr>w_worker_id = worker_id, w_heartbeat_at = now, w_instance_id = '''', w_process_instance_id = '''',
      w_process_started_at = NoStart, w_configured_id = '''', w_worker_active = True, w_fields = [],
      w_effective_concurrency = 0, w_pause_reason = None, w_started_at = now\<rparr>"

section \<open>Identity\<close>

definition unexpired_live_lease :: "queue_settings \<Rightarrow> time \<Rightarrow> image_job \<Rightarrow> bool" where
  "unexpired_live_lease cfg now j \<longleftrightarrow>
     active_job (j_status j) \<and>
     ((case j_lease_expires_at j of None \<Rightarrow> False | Some e \<Rightarrow> now < e) \<or>
      (case j_heartbeat_at j of None \<Rightarrow> False
       | Some h \<Rightarrow> now - secs (max (claim_max_runtime_seconds cfg) (lease_seconds cfg)) < h))"

definition has_unexpired_live_job_leases ::
  "queue_settings \<Rightarrow> time \<Rightarrow> string option \<Rightarrow> queue_db \<Rightarrow> bool" where
  "has_unexpired_live_job_leases cfg now worker db \<longleftrightarrow>
     (\<exists>j \<in> set (db_jobs db). unexpired_live_lease cfg now j \<and>
        (case worker of None \<Rightarrow> True | Some w \<Rightarrow> w = '''' \<or> j_lease_owner j = Some w))"

definition active_job_claims :: "string \<Rightarrow> queue_db \<Rightarrow> nat" where
  "active_job_claims worker db =
     length (filter (\<lambda>j. j_lease_owner j = Some worker \<and> active_job (j_status j)) (db_jobs db))"

definition active_account_claims :: "time \<Rightarrow> string \<Rightarrow> queue_db \<Rightarrow> nat" where
  "active_account_claims now worker db =
     length (filter (\<lambda>l. l_lease_owner l = worker \<and> account_lease_occupies_slot now db l) (db_leases db))"

text \<open>
  A row is live while its heartbeat is recent or its worker holds a lease. Then another
  instance is refused, and so is another process of the same instance, unless it started no
  earlier and the worker holds no claim any more.
\<close>

definition worker_row_live :: "queue_settings \<Rightarrow> time \<Rightarrow> worker_state \<Rightarrow> queue_db \<Rightarrow> bool" where
  "worker_row_live cfg now w db \<longleftrightarrow>
     now - w_heartbeat_at w \<le> secs (max 60 (2 * lease_seconds cfg)) \<or>
     has_unexpired_live_job_leases cfg now (Some (w_worker_id w)) db"

definition identity_conflict :: "time \<Rightarrow> worker_report \<Rightarrow> worker_state \<Rightarrow> queue_db \<Rightarrow> bool" where
  "identity_conflict now r w db \<longleftrightarrow>
     wr_instance_id r \<noteq> '''' \<and> w_instance_id w \<noteq> '''' \<and>
     (w_instance_id w \<noteq> wr_instance_id r \<or>
      wr_process_instance_id r \<noteq> '''' \<and> w_process_instance_id w \<noteq> '''' \<and>
      wr_process_instance_id r \<noteq> w_process_instance_id w \<and>
      (case (start_time (wr_process_started_at r),
             or_else (start_time (w_process_started_at w)) (Some (w_started_at w))) of
         (Some current, Some previous) \<Rightarrow>
           current < previous \<or>
           0 < max (active_job_claims (w_worker_id w) db) (active_account_claims now (w_worker_id w) db)
       | _ \<Rightarrow> True))"

definition update_worker_state ::
  "queue_settings \<Rightarrow> time \<Rightarrow> string \<Rightarrow> worker_report \<Rightarrow> queue_db \<Rightarrow> queue_error + queue_db" where
  "update_worker_state cfg now worker_id r db =
     (case find (\<lambda>w. w_worker_id w = worker_id) (db_workers db) of
        None \<Rightarrow>
          Inr (db\<lparr>db_workers := db_workers db @ [reported_row now r (new_worker_row worker_id now)]\<rparr>)
      | Some w \<Rightarrow>
          if worker_row_live cfg now w db \<and> identity_conflict now r w db
          then Inl (WorkerIdentityConflict worker_id)
          else Inr (db\<lparr>db_workers := upd_rows (\<lambda>v. w_worker_id v = worker_id)
                                      (reported_row now (merged_report w r)) (db_workers db)\<rparr>))"

section \<open>Other operations\<close>

definition delete_worker_state :: "string \<Rightarrow> queue_db \<Rightarrow> bool \<times> queue_db" where
  "delete_worker_state worker_id db =
     (let worker = py_strip worker_id
      in if worker = '''' then (False, db)
         else (\<exists>w \<in> set (db_workers db). w_worker_id w = worker,
               db\<lparr>db_workers := filter (\<lambda>w. w_worker_id w \<noteq> worker) (db_workers db)\<rparr>))"

text \<open>
  The counter is \<open>int(float(str(...)))\<close>, 0 where that raises; \<open>read_number\<close> parses a text. The
  message of an unhealthy delivery is made by \<open>safe_queue_error_message\<close>.
\<close>

definition delivery_failures :: "(string \<Rightarrow> int option) \<Rightarrow> jobj \<Rightarrow> int" where
  "delivery_failures read_number entries =
     (case map_of entries ''delivery_failures'' of
        Some (JInt n) \<Rightarrow> n
      | Some (JStr s) \<Rightarrow> (case read_number s of None \<Rightarrow> 0 | Some n \<Rightarrow> n)
      | _ \<Rightarrow> 0)"

definition delivery_row ::
  "(string \<Rightarrow> int option) \<Rightarrow> bool \<Rightarrow> string \<Rightarrow> msg \<Rightarrow> time \<Rightarrow> worker_state \<Rightarrow> worker_state" where
  "delivery_row read_number healthy url message checked w =
     w\<lparr>w_fields := fold (\<lambda>(k, v). dict_set k v)
       [(''delivery_status'', JStr (if healthy then ''healthy'' else ''unhealthy'')),
        (''delivery_checked_at'', JTime checked),
        (''delivery_url'', JStr (py_strip url)),
        (''delivery_error'', if healthy then JStr '''' else JMsg message),
        (''delivery_failures'',
           JInt (if healthy then 0 else max 0 (delivery_failures read_number (w_fields w)) + 1))]
       (w_fields w)\<rparr>"

definition record_worker_delivery_status ::
  "(string \<Rightarrow> int option) \<Rightarrow> string \<Rightarrow> bool \<Rightarrow> string \<Rightarrow> msg \<Rightarrow> time \<Rightarrow> queue_db \<Rightarrow> bool \<times> queue_db" where
  "record_worker_delivery_status read_number worker_id healthy url message checked db =
     (let worker = py_strip worker_id
      in if worker = '''' then (False, db)
         else (\<exists>w \<in> set (db_workers db). w_worker_id w = worker,
               db\<lparr>db_workers := upd_rows (\<lambda>w. w_worker_id w = worker)
                     (delivery_row read_number healthy url message checked) (db_workers db)\<rparr>))"

definition worker_image_base_url :: "string \<Rightarrow> queue_db \<Rightarrow> string" where
  "worker_image_base_url worker_id db =
     (let worker = py_strip worker_id
      in if worker = '''' then ''''
         else case find (\<lambda>w. w_worker_id w = worker) (db_workers db) of
                None \<Rightarrow> ''''
              | Some w \<Rightarrow> (case map_of (w_fields w) ''image_base_url'' of Some (JStr u) \<Rightarrow> py_strip u | _ \<Rightarrow> ''''))"

definition has_live_worker_states :: "queue_settings \<Rightarrow> time \<Rightarrow> queue_db \<Rightarrow> bool" where
  "has_live_worker_states cfg now db \<longleftrightarrow>
     (\<exists>w \<in> set (db_workers db). fresh_worker_cutoff cfg now \<le> w_heartbeat_at w) \<or>
     has_unexpired_live_job_leases cfg now None db"

text \<open>The reason of the most recent active worker, else that of the most recent one with a reason.\<close>

definition current_worker_pause_reason :: "queue_settings \<Rightarrow> time \<Rightarrow> queue_db \<Rightarrow> string" where
  "current_worker_pause_reason cfg now db =
     (let rows = sort_key (\<lambda>w. - w_heartbeat_at w)
                   (filter (\<lambda>w. fresh_worker_cutoff cfg now \<le> w_heartbeat_at w) (db_workers db))
      in case find w_worker_active rows of
           Some w \<Rightarrow> text_or_empty (w_pause_reason w)
         | None \<Rightarrow> (case filter (\<lambda>s. s \<noteq> '''') (map (\<lambda>w. text_or_empty (w_pause_reason w)) rows) of
                     [] \<Rightarrow> '''' | s # _ \<Rightarrow> s))"

definition reclaim_expired_inactive_account_leases :: "time \<Rightarrow> queue_db \<Rightarrow> nat \<times> queue_db" where
  "reclaim_expired_inactive_account_leases now db =
     (let db' = clear_expired_inactive_account_leases now db
      in (length (db_leases db) - length (db_leases db'), db'))"

end
