(* ===== verification/Queue_Lifecycle.thy ===== *)
theory Queue_Lifecycle
  imports Queue_Delivery_Correct
begin

text \<open>
  The abstract life of one image job, and the proof that every operation of the repository
  moves each row along it. \<open>phase\<close> is what the rest of the system may know of a job: it
  waits, a worker holds it under the token of its claim, or it is done. The number is the lease version, the
  fencing counter: it only grows, and each version is held at most once.
\<close>

section \<open>The specification\<close>

datatype phase = Waiting nat | Held string uuid nat | Done job_status nat

fun version_of :: "phase \<Rightarrow> nat" where
  "version_of (Waiting v) = v"
| "version_of (Held w tok v) = v"
| "version_of (Done s v) = v"

inductive lifecycle :: "phase \<Rightarrow> phase \<Rightarrow> bool" where
  claim: "lifecycle (Waiting v) (Held w tok (Suc v))"
| settle: "terminal_job s \<Longrightarrow> lifecycle (Held w tok v) (Done s v)"
| give_back: "lifecycle (Held w tok v) (Waiting v)"
| fence: "lifecycle (Held w tok v) (Waiting (Suc v))"
| fence_cancel: "lifecycle (Held w tok v) (Done JCanceled (Suc v))"
| abandon: "s = JFailed \<or> s = JCanceled \<Longrightarrow> lifecycle (Waiting v) (Done s v)"
| reopen: "s = JFailed \<or> s = JSuccess \<Longrightarrow> lifecycle (Done s v) (Waiting v)"
| withdraw: "lifecycle (Done JSuccess v) (Done JFailed v)"

inductive_cases from_waitingE: "lifecycle (Waiting v) p"
inductive_cases from_heldE: "lifecycle (Held w tok v) p"
inductive_cases from_doneE: "lifecycle (Done s v) p"

inductive_simps into_success: "lifecycle p (Done JSuccess v)"
inductive_simps into_held: "lifecycle p (Held w tok v)"

text \<open>Consequences of the specification alone.\<close>

lemma version_step: "lifecycle p q \<Longrightarrow> version_of p \<le> version_of q"
  by (cases rule: lifecycle.cases) auto

lemma version_mono: "lifecycle\<^sup>*\<^sup>* p q \<Longrightarrow> version_of p \<le> version_of q"
  by (induction rule: rtranclp_induct) (auto dest: version_step)

lemma canceled_final: "lifecycle\<^sup>*\<^sup>* (Done JCanceled v) q \<Longrightarrow> q = Done JCanceled v"
  by (induction rule: rtranclp_induct) (auto elim: from_doneE)

text \<open>Once a version is not held any more, it is never held again.\<close>

lemma not_held_again_step:
  "lifecycle p q \<Longrightarrow> v \<le> version_of p \<Longrightarrow> p \<noteq> Held w tok v \<Longrightarrow> q \<noteq> Held w tok v"
  by (cases rule: lifecycle.cases) auto

lemma not_held_again:
  "lifecycle\<^sup>*\<^sup>* p q \<Longrightarrow> v \<le> version_of p \<Longrightarrow> p \<noteq> Held w tok v \<Longrightarrow> q \<noteq> Held w tok v"
proof (induction rule: rtranclp_induct)
  case (step q r)
  then have "v \<le> version_of q" using version_mono by (meson order_trans)
  with step show ?case using not_held_again_step by blast
qed simp

text \<open>A job that was not done succeeds only through a claim.\<close>

lemma success_through_claim:
  assumes "lifecycle\<^sup>*\<^sup>* p (Done JSuccess v)" and "p \<noteq> Done JSuccess v"
  obtains w tok where "lifecycle\<^sup>*\<^sup>* p (Held w tok v)"
  using assms by (cases rule: rtranclp.cases) (auto simp: into_success)

section \<open>The abstraction of a row\<close>

definition phase_of :: "image_job \<Rightarrow> phase" where
  "phase_of j =
     (if active_job (j_status j)
      then Held (text_or_empty (j_lease_owner j))
             (case j_lease_token j of Some tok \<Rightarrow> tok | None \<Rightarrow> 0) (j_lease_version j)
      else if waiting_job (j_status j) then Waiting (j_lease_version j)
      else Done (j_status j) (j_lease_version j))"

text \<open>
  What an operation may do to a row: identity and task stay, the phase follows the life
  cycle, and neither quota mark is ever taken back.
\<close>

definition row_step :: "image_job \<Rightarrow> image_job \<Rightarrow> bool" where
  "row_step j k \<longleftrightarrow>
     j_id k = j_id j \<and> j_task_id k = j_task_id j \<and> lifecycle\<^sup>*\<^sup>* (phase_of j) (phase_of k) \<and>
     (j_quota_consumed j \<longrightarrow> j_quota_consumed k) \<and> (j_quota_accounted j \<longrightarrow> j_quota_accounted k)"

lemma row_step_refl [simp, intro]: "row_step j j"
  by (simp add: row_step_def)

lemma row_step_trans: "row_step j k \<Longrightarrow> row_step k l \<Longrightarrow> row_step j l"
  by (auto simp: row_step_def)

lemma row_step_same:
  "j_id k = j_id j \<Longrightarrow> j_task_id k = j_task_id j \<Longrightarrow> phase_of k = phase_of j \<Longrightarrow>
   (j_quota_consumed j \<Longrightarrow> j_quota_consumed k) \<Longrightarrow> (j_quota_accounted j \<Longrightarrow> j_quota_accounted k) \<Longrightarrow>
   row_step j k"
  by (simp add: row_step_def)

lemma row_step_move:
  "phase_of j = p \<Longrightarrow> j_id k = j_id j \<Longrightarrow> j_task_id k = j_task_id j \<Longrightarrow> lifecycle p (phase_of k) \<Longrightarrow>
   (j_quota_consumed j \<Longrightarrow> j_quota_consumed k) \<Longrightarrow> (j_quota_accounted j \<Longrightarrow> j_quota_accounted k) \<Longrightarrow>
   row_step j k"
  by (simp add: row_step_def r_into_rtranclp)

lemma lifecycle_iff:
  "lifecycle p q \<longleftrightarrow>
     (case p of
        Waiting v \<Rightarrow> (\<exists>w tok. q = Held w tok (Suc v)) \<or> q = Done JFailed v \<or> q = Done JCanceled v
      | Held w tok v \<Rightarrow> (\<exists>s. terminal_job s \<and> q = Done s v) \<or> q = Waiting v \<or> q = Waiting (Suc v) \<or>
          q = Done JCanceled (Suc v)
      | Done s v \<Rightarrow> (s = JFailed \<or> s = JSuccess) \<and> q = Waiting v \<or>
          s = JSuccess \<and> q = Done JFailed v)"
  by (cases p) (auto elim: from_waitingE from_heldE from_doneE intro: lifecycle.intros)

section \<open>The row functions\<close>

lemma phase_of_cases:
  "active_job (j_status j) \<Longrightarrow> \<exists>w tok. phase_of j = Held w tok (j_lease_version j)"
  "waiting_job (j_status j) \<Longrightarrow> phase_of j = Waiting (j_lease_version j)"
  "terminal_job (j_status j) \<Longrightarrow> phase_of j = Done (j_status j) (j_lease_version j)"
  by (cases "j_status j"; simp add: phase_of_def)+

lemma version_of_phase [simp]: "version_of (phase_of j) = j_lease_version j"
  by (simp add: phase_of_def)

text \<open>Rows of a held job.\<close>

lemma held_rows:
  assumes "active_job (j_status j)"
  shows "row_step j (checkpoint_row clk cp j)" "row_step j (complete_row clk d p j)"
    "row_step j (canceled_row clk j)" "row_step j (retry_row clk code m t j)"
    "row_step j (fail_row clk code m j)" "row_step j (timed_out_row clk code m q j)"
    "row_step j (release_row clk cancel refund j)" "row_step j (reclaimed_row clk cancel j)"
proof -
  obtain w tok where p: "phase_of j = Held w tok (j_lease_version j)"
    using phase_of_cases(1) [OF assms] by blast
  show "row_step j (checkpoint_row clk cp j)"
    by (rule row_step_same)
       (use assms in \<open>simp_all add: checkpoint_row_def checkpoint_attempts_def touch_stage_timing_def Let_def phase_of_def\<close>)
  note unf = complete_row_def canceled_row_def retry_row_def fail_row_def timed_out_row_def release_row_def
    reclaimed_row_def refund_occupancy_claim_attempt_def touch_stage_timing_def clear_job_lease_def Let_def
  show "row_step j (complete_row clk d p j)" "row_step j (canceled_row clk j)"
    "row_step j (retry_row clk code m t j)" "row_step j (fail_row clk code m j)"
    "row_step j (timed_out_row clk code m q j)" "row_step j (release_row clk cancel refund j)"
    "row_step j (reclaimed_row clk cancel j)"
    by (rule row_step_move [OF p]; simp add: unf phase_of_def lifecycle_iff)+
qed

text \<open>Rows of a waiting job.\<close>

lemma waiting_rows_step:
  assumes "waiting_job (j_status j)"
  shows "row_step j (claimed_row now w tok e acc j)" "row_step j (unrecoverable_row now code m j)"
    "row_step j (expired_row now ttl j)" "row_step j (recovery_row now stage j)"
    "row_step j (cancel_waiting_row now j)"
proof -
  note p = phase_of_cases(2) [OF assms]
  note unf = claimed_row_def unrecoverable_row_def expired_row_def cancel_waiting_row_def
    increment_attempt_def clear_job_lease_def Let_def
  show "row_step j (recovery_row now stage j)"
    by (rule row_step_same) (simp_all add: p, simp_all add: recovery_row_def phase_of_def)
  show "row_step j (claimed_row now w tok e acc j)" "row_step j (unrecoverable_row now code m j)"
    "row_step j (expired_row now ttl j)" "row_step j (cancel_waiting_row now j)"
    by (rule row_step_move [OF p]; simp add: unf phase_of_def lifecycle_iff)+
qed

text \<open>Rows of a job that is done.\<close>

lemma done_rows_step:
  assumes "j_status j = JFailed \<or> j_status j = JSuccess"
  shows "row_step j (resumed_row clk s j)" "row_step j (adopted_row clk s j)"
    "row_step j (requeued_row clk s j)"
    "j_status j = JSuccess \<Longrightarrow> row_step j (undeliverable_row clk code text j)"
proof -
  have p: "phase_of j = Done (j_status j) (j_lease_version j)"
    by (rule phase_of_cases(3)) (use assms in auto)
  note unf = resumed_row_def adopted_row_def requeued_row_def undeliverable_row_def
    touch_stage_timing_def clear_job_lease_def Let_def
  show "row_step j (resumed_row clk s j)" "row_step j (adopted_row clk s j)"
    "row_step j (requeued_row clk s j)"
    by (rule row_step_move [OF p]; use assms in \<open>simp add: unf phase_of_def lifecycle_iff\<close>)+
  show "row_step j (undeliverable_row clk code text j)" if "j_status j = JSuccess"
    by (rule row_step_move [OF p]; use that in \<open>simp add: unf phase_of_def lifecycle_iff\<close>)
qed

section \<open>The operations\<close>

text \<open>
  \<open>evolves n db db'\<close>: no row appears or goes, each moves along the life cycle, and every
  account slot that is taken was taken before or is below \<open>n\<close>.
\<close>

definition rows_step :: "queue_db \<Rightarrow> queue_db \<Rightarrow> bool" where
  "rows_step db db' \<longleftrightarrow> list_all2 row_step (db_jobs db) (db_jobs db')"

definition slots_step :: "nat \<Rightarrow> queue_db \<Rightarrow> queue_db \<Rightarrow> bool" where
  "slots_step n db db' \<longleftrightarrow>
     (\<forall>l \<in> set (db_leases db'). lease_key l \<in> lease_key ` set (db_leases db) \<or> l_slot_no l < n)"

definition evolves :: "nat \<Rightarrow> queue_db \<Rightarrow> queue_db \<Rightarrow> bool" where
  "evolves n db db' \<longleftrightarrow> rows_step db db' \<and> slots_step n db db'"

named_theorems evolving \<open>steps that evolve the store\<close>

lemma evolves_refl [simp, intro, evolving]: "evolves n db db"
  by (auto simp: evolves_def rows_step_def slots_step_def list_all2_refl)

lemma slots_step_trans: "slots_step n a b \<Longrightarrow> slots_step n b c \<Longrightarrow> slots_step n a c"
proof -
  assume ab: "slots_step n a b" and bc: "slots_step n b c"
  have "lease_key l \<in> lease_key ` set (db_leases a) \<or> l_slot_no l < n" if "l \<in> set (db_leases c)" for l
  proof (cases "l_slot_no l < n")
    case False
    with bc that obtain k where "k \<in> set (db_leases b)" "lease_key l = lease_key k"
      by (auto simp: slots_step_def)
    with ab False show ?thesis by (auto simp: slots_step_def lease_key_def)
  qed simp
  then show ?thesis by (simp add: slots_step_def)
qed

lemma evolves_trans: "evolves n a b \<Longrightarrow> evolves n b c \<Longrightarrow> evolves n a c"
  unfolding evolves_def rows_step_def
  by (auto intro: slots_step_trans list_all2_trans [of row_step row_step row_step] row_step_trans)

lemma evolves_mono: "evolves m a b \<Longrightarrow> m \<le> n \<Longrightarrow> evolves n a b"
  by (fastforce simp: evolves_def slots_step_def)

lemma evolves_frame:
  "db_jobs c = db_jobs b \<Longrightarrow> db_leases c = db_leases b \<Longrightarrow> evolves n a c = evolves n a b"
  by (simp add: evolves_def rows_step_def slots_step_def)

lemma evolves_frames [simp]:
  "evolves n a (log_event t j k e fs ts d b) = evolves n a b"
  "evolves n a (aggregate_task now tid b) = evolves n a b"
  "evolves n a (upd_task i f b) = evolves n a b"
  "evolves n a (upd_artifacts p g b) = evolves n a b"
  "evolves n a (add_artifact x b) = evolves n a b"
  "evolves n a (drop_artifacts p b) = evolves n a b"
  "evolves n a (set_wait_reason now r i b) = evolves n a b"
  by (rule evolves_frame; simp add: set_wait_reason_def)+

lemma evolves_drop_leases [evolving]: "evolves n a b \<Longrightarrow> evolves n a (drop_leases p b)"
  by (auto simp: evolves_def rows_step_def slots_step_def db_leases_drop)

lemma evolves_release [evolving]: "evolves n a b \<Longrightarrow> evolves n a (release_account_lease c b)"
  unfolding release_account_lease_def by (rule evolves_drop_leases)

lemma evolves_upd_rows:
  assumes "\<And>j. j \<in> set (db_jobs db) \<Longrightarrow> p j \<Longrightarrow> row_step j (f j)"
    and "db_jobs db' = upd_rows p f (db_jobs db)" and "set (db_leases db') \<subseteq> set (db_leases db)"
  shows "evolves n db db'"
proof -
  have "list_all2 row_step (db_jobs db) (upd_rows p f (db_jobs db))"
    by (rule list_all2_upd_rows) (use assms(1) in auto)
  with assms(2,3) show ?thesis by (auto simp: evolves_def rows_step_def slots_step_def)
qed

lemma evolves_upd_job [evolving]:
  assumes "evolves n a b" and "\<And>j. j \<in> set (db_jobs b) \<Longrightarrow> j_id j = i \<Longrightarrow> row_step j (f j)"
  shows "evolves n a (upd_job i f b)"
  by (rule evolves_trans [OF assms(1)], rule evolves_upd_rows [OF assms(2) db_jobs_upd_job]) simp_all

text \<open>Folds whose every iteration evolves the store, where an invariant holds.\<close>

lemma evolves_fold:
  assumes "P db" and "\<And>x b. x \<in> set xs \<Longrightarrow> P b \<Longrightarrow> P (f x b) \<and> evolves n b (f x b)"
  shows "evolves n db (fold f xs db)"
  using assms
proof (induction xs arbitrary: db)
  case (Cons x xs)
  from Cons.prems have "P (f x db)" "evolves n db (f x db)" by simp_all
  moreover have "evolves n (f x db) (fold f xs (f x db))"
    by (rule Cons.IH) (use Cons.prems \<open>P (f x db)\<close> in simp_all)
  ultimately show ?case by (auto intro: evolves_trans)
qed simp

text \<open>The row an operation found is the only one with its identity.\<close>

lemma found_row_unique:
  assumes "store_ok db" and "j \<in> set (db_jobs db)" and "k \<in> set (db_jobs db)" and "j_id k = j_id j"
  shows "k = j"
  using assms by (auto simp: store_ok_def dest: job_unique)

lemma evolves_update_found:
  assumes "store_ok db" and "j \<in> set (db_jobs db)"
    and "db_jobs b = db_jobs db" and "evolves n db b" and "row_step j (f j)"
  shows "evolves n db (upd_job (j_id j) f b)"
proof (rule evolves_upd_job [OF assms(4)])
  fix k assume "k \<in> set (db_jobs b)" "j_id k = j_id j"
  then have "k = j" using found_row_unique [OF assms(1,2)] assms(3) by simp
  with assms(5) show "row_step k (f k)" by simp
qed

lemma claimed_row_found:
  assumes "store_ok db" and "claimed_job_row db c = Some j"
  shows "j \<in> set (db_jobs db)" "active_job (j_status j)"
  using assms claimed_job_rowD claimed_job_active by (auto simp: store_ok_def)


section \<open>Worker operations\<close>

lemma checkpoint_job_evolves: "store_ok db \<Longrightarrow> evolves n db (snd (checkpoint_job clk c cp db))"
proof (cases "claimed_job_row db c")
  case (Some j)
  assume ok: "store_ok db"
  note j = claimed_row_found [OF ok Some]
  let ?b = "if cp_stage cp \<in> {STransforming, SSaving} then release_account_lease c db else db"
  have "evolves n db (upd_job (j_id j) (checkpoint_row clk cp) ?b)"
    by (rule evolves_update_found [OF ok j(1)]) (auto intro: evolving held_rows j(2))
  with Some show ?thesis by (simp add: checkpoint_job_def Let_def)
qed (simp add: checkpoint_job_def)

lemma mark_quota_consumed_evolves: "evolves n db (snd (mark_quota_consumed clk c db))"
  by (auto simp: mark_quota_consumed_def phase_of_def split: option.split
      intro!: evolves_upd_job row_step_same)

lemma mark_quota_accounted_evolves: "evolves n db (snd (mark_quota_accounted clk jid acc db))"
  by (auto simp: mark_quota_accounted_def phase_of_def split: option.split
      intro!: evolves_upd_job row_step_same)

lemma record_quota_accounting_failure_evolves:
  "evolves n db (snd (record_quota_accounting_failure clk jid err db))"
  by (auto simp: record_quota_accounting_failure_def phase_of_def Let_def split: option.split
      intro!: evolves_upd_job row_step_same)

lemma append_image_attempts_evolves: "evolves n db (snd (append_image_attempts clk c as db))"
  by (auto simp: append_image_attempts_def phase_of_def Let_def split: option.split
      intro!: evolves_upd_job row_step_same)

lemma heartbeat_claim_evolves: "evolves n db (snd (heartbeat_claim cfg clk now w c (k, db)))"
proof -
  let ?f = "\<lambda>j. if holds_claim c j \<and> active_job (j_status j)
    then j\<lparr>j_heartbeat_at := Some now, j_lease_expires_at := Some (now + secs (lease_seconds cfg)),
           j_updated_at := clk\<rparr> else j"
  have "rows_step db (upd_job (j_id (c_job c)) ?f db)"
    unfolding rows_step_def db_jobs_upd_job
    by (rule list_all2_upd_rows) (auto intro: row_step_same simp: phase_of_def)
  then show ?thesis
    by (auto simp: heartbeat_claim_def Let_def evolves_def rows_step_def slots_step_def list_all2_refl
        set_upd_rows lease_key_def image_iff)
qed

lemma heartbeat_claims_evolves: "evolves n db (snd (heartbeat_claims cfg clk now w cs db))"
proof -
  have "evolves n db (snd (fold (heartbeat_claim cfg clk now w) cs (k, db)))" for k
  proof (induction cs arbitrary: k db)
    case (Cons c cs)
    obtain k' db' where s: "heartbeat_claim cfg clk now w c (k, db) = (k', db')" by fastforce
    have "evolves n db db'" using heartbeat_claim_evolves [of n db cfg clk now w c k] by (simp add: s)
    with Cons.IH [of db' k'] s show ?case by (auto intro: evolves_trans)
  qed simp
  then show ?thesis by (simp add: heartbeat_claims_def)
qed

lemma artifact_writes_evolve [simp]:
  "insert_artifact x b = Inr b' \<Longrightarrow> evolves n a b' = evolves n a b"
  "rewrite_artifact x y b = Inr b' \<Longrightarrow> evolves n a b' = evolves n a b"
  by (rule evolves_frame; simp add: insert_artifact_projections rewrite_artifact_projections)+

lemma write_final_artifact_evolves:
  "write_final_artifact clk d owner b = Inr b' \<Longrightarrow> db_jobs b' = db_jobs b \<and> evolves n a b' = evolves n a b"
  by (auto simp: write_final_artifact_def insert_artifact_projections rewrite_artifact_projections
      split: option.splits if_splits)

lemma record_artifact_evolves: "evolves n db (rolled_back db (record_artifact clk c d w db))"
  by (auto simp: record_artifact_def rolled_back_def Let_def split: option.split sum.split if_splits)

lemma invalidate_recovery_artifacts_evolves: "evolves n db (snd (invalidate_recovery_artifacts c ks db))"
  by (simp add: invalidate_recovery_artifacts_def Let_def split: option.split)

lemma record_claim_event_evolves: "evolves n db (snd (record_claim_event c k data db))"
  by (simp add: record_claim_event_def split: option.split)

text \<open>The claim is given up: its account lease goes and the row it held is rewritten.\<close>

lemma end_claim_evolves:
  assumes "store_ok db" and "claimed_job_row db c = Some j"
    and "db_jobs b = db_jobs db" and "evolves n db b" and "row_step j (f j)"
  shows "evolves n db (upd_job (j_id j) f (release_account_lease c b))"
  by (rule evolves_update_found [OF assms(1) claimed_row_found(1) [OF assms(1,2)]])
     (use assms(3-) in \<open>auto intro: evolving\<close>)

lemma ending_ops_evolve:
  assumes ok: "store_ok db"
  shows "evolves n db (snd (schedule_retry clk c code m t db))" "evolves n db (snd (fail_job clk c code m db))"
    "evolves n db (snd (release_claim clk c refund db))"
proof -
  note e = end_claim_evolves [OF ok _ refl evolves_refl] held_rows
  show "evolves n db (snd (schedule_retry clk c code m t db))" "evolves n db (snd (fail_job clk c code m db))"
    "evolves n db (snd (release_claim clk c refund db))"
    using claimed_row_found(2) [OF ok]
    by (simp_all add: schedule_retry_def fail_job_def release_claim_def Let_def e split: option.split)
qed

lemma fail_timed_out_claim_evolves:
  assumes ok: "store_ok db"
  shows "evolves n db (snd (fail_timed_out_claim clk now c code m q db))"
proof (cases "find (\<lambda>j. holds_claim c j \<and> active_job (j_status j)) (db_jobs db)")
  case (Some j)
  from find_SomeD [OF Some] have j: "j \<in> set (db_jobs db)" "active_job (j_status j)" by auto
  have "evolves n db (upd_job (j_id j) (timed_out_row now code m q) (release_account_lease c db))"
    by (rule evolves_update_found [OF ok j(1)]) (auto intro: evolving held_rows j(2))
  with Some show ?thesis by (simp add: fail_timed_out_claim_def Let_def)
qed (simp add: fail_timed_out_claim_def)

lemma complete_job_evolves:
  assumes ok: "store_ok db"
  shows "evolves n db (rolled_back db (complete_job clk c d p db))"
proof (cases "claimed_job_row db c")
  case (Some j)
  note held = held_rows [OF claimed_row_found(2) [OF ok Some]]
  note e = end_claim_evolves [OF ok Some]
  have "evolves n db (upd_job (j_id j) (complete_row clk d p) (release_account_lease c db0))"
    if "write_final_artifact clk d owner db = Inr db0" for owner db0
    by (rule e) (use write_final_artifact_evolves [OF that] held(2) in auto)
  moreover have "evolves n db (upd_job (j_id j) (canceled_row clk) (release_account_lease c db))"
    by (rule e) (use held(3) in auto)
  ultimately show ?thesis
    using Some by (auto simp: complete_job_def rolled_back_def Let_def split: sum.split option.split)
qed (simp add: complete_job_def rolled_back_def)

lemma run_worker_op_evolves: "store_ok db \<Longrightarrow> evolves n db (run_worker_op clk w c db)"
  by (cases w)
     (simp_all add: checkpoint_job_evolves mark_quota_consumed_evolves record_artifact_evolves
       invalidate_recovery_artifacts_evolves record_claim_event_evolves append_image_attempts_evolves
       complete_job_evolves ending_ops_evolve fail_timed_out_claim_evolves)

end
