(* ===== verification/Queue_Refinement.thy ===== *)
theory Queue_Refinement
  imports Queue_Lifecycle
begin

text \<open>
  The remaining operations of the repository move every row along the life cycle: claiming,
  intake and expiry, recovery, cancellation, delivery and purge. Enqueueing adds rows and
  purging removes them; every other operation keeps the rows it finds.
\<close>

section \<open>Claiming\<close>

definition claim_step_evolves :: "nat \<Rightarrow> queue_db \<Rightarrow> claim_step \<Rightarrow> bool" where
  "claim_step_evolves n db0 r =
     (case r of Stop _ db \<Rightarrow> evolves n db0 db
      | Again st \<Rightarrow> evolves n db0 (cs_db st) \<and> evolves n db0 (cs_committed st))"

lemma evolves_new_lease:
  "evolves n db0 db \<Longrightarrow> l_slot_no l < n \<Longrightarrow> evolves n db0 (db\<lparr>db_leases := db_leases db @ [l]\<rparr>)"
  by (auto simp: evolves_def rows_step_def slots_step_def)

lemma evolves_clear_orphan [evolving]:
  "evolves n a b \<Longrightarrow> evolves n a (clear_orphan_account_leases i b)"
  unfolding clear_orphan_account_leases_def by (rule evolves_drop_leases)

lemma finish_claim_evolves:
  assumes ok: "store_ok db1" and j: "j \<in> set (db_jobs db1)" "waiting_job (j_status j)"
    and jobs: "db_jobs db = db_jobs db1"
    and ev: "evolves n db0 db" "evolves n db0 (cs_committed st)"
  shows "claim_step_evolves n db0 (finish_claim cfg req token j acc slot st db)"
proof -
  let ?matches = "\<lambda>k. j_id k = j_id j \<and> waiting_job (j_status k) \<and> j_lease_version k = j_lease_version j"
  have claimed: "evolves n db0 (db\<lparr>db_jobs := upd_rows ?matches
      (\<lambda>_. claimed_row now w tok e a j) (db_jobs db)\<rparr>)" for now w tok e a
  proof (rule evolves_trans [OF ev(1)], rule evolves_upd_rows)
    fix k assume "k \<in> set (db_jobs db)" "?matches k"
    then have "k = j" using found_row_unique [OF ok j(1)] jobs by simp
    then show "row_step k (claimed_row now w tok e a j)" using waiting_rows_step(1) [OF j(2)] by simp
  qed simp_all
  have committed: "claim_step_evolves n db0 (commit_and_continue b j st)" if "evolves n db0 b" for b
    using that by (simp add: commit_and_continue_def claim_step_evolves_def)
  show ?thesis
    using claimed committed [OF ev(1)] committed [OF evolves_drop_leases [OF ev(1)]] ev
    by (simp add: finish_claim_def claim_step_evolves_def Let_def)
qed

lemma claim_iteration_evolves:
  assumes ok: "store_ok (cs_db st)"
    and ev: "evolves n db0 (cs_db st)" "evolves n db0 (cs_committed st)"
    and n: "nat (max 1 (cr_account_concurrency req)) \<le> n"
  shows "claim_step_evolves n db0 (claim_iteration cfg req clk token st)"
proof (cases "claimable_job_statement (cr_claim_time req) [] (cs_after st) (cs_recovery_pass st)
    (\<not> cs_recovery_pass st \<and> \<not> cr_recovery_only req) (cs_db st)")
  case None
  with ev show ?thesis by (simp add: claim_iteration_def claim_step_evolves_def)
next
  case (Some j)
  let ?db = "clear_orphan_account_leases (j_id j) (cs_db st)"
  have okd: "store_ok ?db" by (rule ok_clear_orphan [OF ok])
  have j: "j \<in> set (db_jobs ?db)" "waiting_job (j_status j)"
    using next_jobD(1,2) [OF Some] by (simp_all add: claimable_job_def)
  have evd: "evolves n db0 ?db" by (rule evolves_clear_orphan [OF ev(1)])
  note finish = finish_claim_evolves [OF okd j _ _ ev(2)]
  have committed: "claim_step_evolves n db0 (commit_and_continue b j st)" if "evolves n db0 b" for b
    using that by (simp add: commit_and_continue_def claim_step_evolves_def)
  have failed: "evolves n db0 (fail_unrecoverable clk now code m j ?db)" for now code m
    unfolding fail_unrecoverable_def
    using evolves_trans [OF evd evolves_update_found [OF okd j(1) refl evolves_refl]]
      waiting_rows_step(2) [OF j(2)] by simp
  show ?thesis
  proof (cases "claim_route_of cfg req ?db j")
    case (RAccounts restricted cands)
    let ?acq = "acquire_first_slot (ranked_candidates req j ?db cands) (cr_account_concurrency req) j
       (cr_worker_id req) token (j_lease_version j + 1)
       (cr_claim_time req + secs (lease_seconds cfg)) (cr_claim_time req) ?db"
    show ?thesis
    proof (cases ?acq)
      case (Inl e)
      with Some RAccounts ev show ?thesis by (simp add: claim_iteration_def Let_def claim_step_evolves_def)
    next
      case (Inr p)
      obtain r db1 where p: "p = (r, db1)" by (cases p)
      note acq = acquire_firstD [OF Inr [unfolded p]]
      show ?thesis
      proof (cases r)
        case None
        with acq Some RAccounts Inr p evd committed show ?thesis
          by (simp add: claim_iteration_def Let_def claim_step_evolves_def)
      next
        case r: (Some cs)
        obtain c s where cs: "cs = (c, s)" by (cases cs)
        with acq r have "s < n" and db1: "db1 = ?db\<lparr>db_leases := db_leases ?db @
            [slot_lease c s j (cr_worker_id req) token (j_lease_version j + 1)
               (cr_claim_time req + secs (lease_seconds cfg)) (cr_claim_time req)]\<rparr>"
          using n by simp_all
        then have "evolves n db0 db1" using evolves_new_lease [OF evd] by (simp add: slot_lease_def)
        moreover have "db_jobs db1 = db_jobs ?db" by (simp add: db1)
        ultimately have "claim_step_evolves n db0
            (finish_claim cfg req token j (ac_account_id c) (int s) st db1)"
          by (intro finish)
        with Some RAccounts Inr p r cs show ?thesis by (simp add: claim_iteration_def Let_def)
      qed
    qed
  qed (use Some finish [OF refl evd] committed evd failed in \<open>simp_all add: claim_iteration_def Let_def\<close>)
qed

lemma claim_loop_evolves:
  assumes "store_ok (cs_db st)" "store_ok (cs_committed st)"
    and "evolves n db0 (cs_db st)" "evolves n db0 (cs_committed st)"
    and "nat (max 1 (cr_account_concurrency req)) \<le> n"
  shows "evolves n db0 (snd (claim_loop cfg req clk tok k st))"
  using assms
proof (induction cfg req clk tok k st rule: claim_loop.induct)
  case (1 cfg req clk tok k st)
  note ok = claim_iteration_ok [OF 1(2,3), of cfg req clk "tok k"]
  note ev = claim_iteration_evolves [OF 1(2,4,5,6), of cfg clk "tok k"]
  show ?case
  proof (cases "claim_iteration cfg req clk (tok k) st")
    case (Stop r db)
    with ev show ?thesis by (simp add: claim_loop.simps claim_step_evolves_def)
  next
    case (Again st')
    from ok ev Again have "evolves n db0 (snd (claim_loop cfg req clk tok (Suc k) st'))"
      by (intro 1(1) [OF Again]) (simp_all add: step_ok_def claim_step_evolves_def 1(6))
    with Again show ?thesis by (simp add: claim_loop.simps)
  qed
qed

lemma claim_once_evolves:
  assumes "store_ok db" and "nat (max 1 (cr_account_concurrency req)) \<le> n"
  shows "evolves n db (snd (claim_next_job_once cfg req clk tok db))"
proof -
  have "evolves n db (clear_expired_inactive_account_leases now db)" for now
    unfolding clear_expired_inactive_account_leases_def by (rule evolves_drop_leases) simp
  with assms show ?thesis
    by (auto simp: claim_next_job_once_def Let_def ok_clear_expired intro!: claim_loop_evolves)
qed

lemma claim_next_job_evolves:
  assumes "store_ok db" and "nat (max 1 (cr_account_concurrency req)) \<le> n"
  shows "evolves n db (snd (claim_next_job cfg req clk tok db))"
proof -
  have "evolves n db (snd (claim_attempts k cfg req clk tok db))" for k
    using assms(1)
  proof (induction k arbitrary: db)
    case (Suc k)
    obtain r db' where s: "claim_next_job_once cfg req clk (tok k) db = (r, db')" by fastforce
    have "store_ok db'" "evolves n db db'"
      using claim_once_ok [OF Suc.prems, of cfg req clk "tok k"]
        claim_once_evolves [OF Suc.prems assms(2), of cfg clk "tok k"] by (simp_all add: s)
    with Suc.IH s show ?case by (auto intro: evolves_trans)
  qed simp
  then show ?thesis by (simp add: claim_next_job_def)
qed


section \<open>Intake and expiry\<close>

text \<open>Enqueueing appends rows that wait at version 0 under identities not in use.\<close>

definition new_rows :: "queue_db \<Rightarrow> image_job list \<Rightarrow> bool" where
  "new_rows db rows \<longleftrightarrow>
     (\<forall>j \<in> set rows. phase_of j = Waiting 0 \<and> \<not> j_quota_consumed j \<and> j_id j \<notin> j_id ` set (db_jobs db))"

lemma enqueue_task_rows:
  assumes "enqueue_task clk read fresh new_id b q db = Inr (r, db')"
  obtains rows where "db_jobs db' = db_jobs db @ rows" "new_rows db rows" "db_leases db' = db_leases db"
  using assms
proof (cases rule: enqueue_task_cases)
  case (1 t)
  with that [of "[]"] show ?thesis by (auto simp: new_rows_def dest: replay_task_ok)
next
  case (2 t)
  from 2(3) show ?thesis
  proof (rule create_taskD)
    fix k assume k: "\<not> job_conflict (map new_id [1..<Suc k]) db" "db_leases db' = db_leases db"
      "db_jobs db' = db_jobs db @ map (\<lambda>i. new_job_row clk (new_id i)
         (case q_task_id q of None \<Rightarrow> fresh | Some i \<Rightarrow> i) i) [1..<Suc k]"
    show ?thesis
      by (rule that [OF k(3) _ k(2)])
         (use k(1) in \<open>force simp: new_rows_def phase_of_def job_conflict_def new_job_row_def\<close>)
  qed
qed

lemma settle_expired_leases [simp]:
  "db_leases (fold (settle_expired_task clk now ttl) tids db) = db_leases db"
  by (induction tids arbitrary: db)
     (simp_all add: settle_expired_task_def Let_def split: option.split)

lemma expire_jobs_leases [simp]: "db_leases (fold (expire_job now ttl) js db) = db_leases db"
  by (induction js arbitrary: db) (simp_all add: expire_job_def)

lemma expire_pending_tasks_evolves:
  assumes ok: "store_ok db"
  shows "evolves n db (snd (expire_pending_tasks clk now ttl db))"
proof -
  let ?ttl = "max 1 ttl"
  let ?js = "sort_key (\<lambda>j. (j_created_at j, j_id j)) (filter (expirable_job (now - secs ?ttl) db) (db_jobs db))"
  have "distinct (map j_id (db_jobs db))"
    using ok by (simp add: store_ok_def store_ok_except_def keys_ok_def)
  then have dist: "distinct (map j_id ?js)"
    by (simp add: distinct_map distinct_map_filter inj_on_def)
  have wait: "waiting_job (j_status k)" if "k \<in> set (db_jobs db)" "j_id k \<in> j_id ` set ?js" for k
  proof -
    from that(2) obtain j where j: "j \<in> set ?js" "j_id k = j_id j" by blast
    then have "k = j" using found_row_unique [OF ok _ that(1)] by simp
    with j(1) show ?thesis by (auto simp: expirable_job_def)
  qed
  have "evolves n db (fold (settle_expired_task clk now ?ttl) tids (fold (expire_job now ?ttl) ?js db))" for tids
    by (rule evolves_upd_rows [where p = "\<lambda>k. j_id k \<in> j_id ` set ?js" and f = "expired_row now ?ttl"])
       (use wait waiting_rows_step(3) expire_jobs_rows [OF dist] in auto)
  then show ?thesis by (simp add: expire_pending_tasks_def Let_def)
qed

section \<open>Recovery\<close>

lemma reclaim_expired_leases_evolves:
  assumes ok: "store_ok db"
  shows "evolves n db (snd (reclaim_expired_leases cfg clk now prot all_due ignore db))"
proof -
  obtain k db' where r: "reclaim_expired_leases cfg clk now prot all_due ignore db = (k, db')" by fastforce
  let ?js = "reclaimable_jobs cfg now prot all_due ignore db"
  note rows = reclaim_expired_leases_rows [OF ok r]
  have held: "active_job (j_status j)" if "j \<in> set (db_jobs db)" "j_id j \<in> j_id ` set ?js" for j
    using rows(3) [OF that(1)] that(2) by (auto simp: reclaimable_jobs_def Let_def lease_due_def)
  have "evolves n db db'"
    by (rule evolves_upd_rows [OF _ rows(1)]) (use held held_rows(8) rows(2) in auto)
  with r show ?thesis by simp
qed

lemma evolves_workers [simp]: "evolves n (a\<lparr>db_workers := w\<rparr>) b = evolves n a b"
  "evolves n a (b\<lparr>db_workers := w\<rparr>) = evolves n a b"
  by (simp_all add: evolves_def rows_step_def slots_step_def)

lemma reclaim_restored_leases_evolves:
  assumes "store_ok db"
  shows "evolves n db (snd (reclaim_restored_leases cfg clk now db))"
  using reclaim_expired_leases_evolves [of "snd (stale_all_worker_states cfg clk db)" n cfg clk now "[]" True True] assms
  by (simp add: reclaim_restored_leases_def stale_all_worker_states_def)

lemma mark_worker_inactive_evolves: "evolves n db (snd (mark_worker_inactive cfg clk w i db))"
  by (simp add: mark_worker_inactive_def Let_def split: option.split)

lemma requeue_job_for_recovery_evolves:
  assumes ok: "store_ok db"
  shows "evolves n db (snd (requeue_job_for_recovery jid stage now db))"
proof (cases "job_row db jid")
  case (Some j)
  have "evolves n db (upd_job (j_id j) (recovery_row now stage) db)" if "waiting_job (j_status j)"
    by (rule evolves_update_found [OF ok _ refl evolves_refl])
       (use job_rowD [OF Some] waiting_rows_step(4) [OF that] in auto)
  with Some show ?thesis by (simp add: requeue_job_for_recovery_def)
qed (simp add: requeue_job_for_recovery_def)

lemma recover_evolves:
  assumes "store_ok db"
  shows "evolves n db (snd (recover cfg clk now restored db))"
proof -
  let ?r = "if restored then reclaim_restored_leases cfg clk now db
            else reclaim_expired_leases cfg clk now [] False False db"
  have r: "store_ok (snd ?r)" "evolves n db (snd ?r)"
    using assms by (simp_all add: reclaim_restored_leases_ok reclaim_expired_leases_ok
      reclaim_restored_leases_evolves reclaim_expired_leases_evolves)
  have "evolves n (snd ?r) (fold (\<lambda>j db. snd (requeue_job_for_recovery (j_id j) (recover_stage j) now db)) js (snd ?r))" for js
    by (rule evolves_fold [of store_ok])
       (use r in \<open>auto intro: requeue_job_for_recovery_ok requeue_job_for_recovery_evolves\<close>)
  with r(2) show ?thesis
    by (cases ?r) (auto simp: recover_def Let_def split: prod.split intro: evolves_trans)
qed

lemma resume_task_jobs_leases [simp]: "db_leases (resume_task_jobs clk k tid db) = db_leases db"
proof -
  have "db_leases (fold (resume_job clk k) js b) = db_leases b" for js b
    by (induction js arbitrary: b) (simp_all add: resume_job_def split: option.split)
  then show ?thesis by (simp add: resume_task_jobs_def)
qed

lemma resume_failed_task_evolves:
  assumes "store_ok db" and "resume_failed_task clk owner ref extra db = Inr (snap, db')"
  shows "evolves n db db'"
  using assms(2)
proof (cases rule: resume_failed_taskD)
  case (2 t)
  have "row_step j (resumed_or_same clk j)" if "j_status j = JFailed" for j
    using done_rows_step(1) that by (auto simp: resumed_or_same_def split: option.split)
  then show ?thesis
    unfolding 2(5)
    by (intro evolves_upd_rows [OF _ resume_task_jobs_rows [OF assms(1)]]) auto
qed simp

lemma adopt_recovery_artifact_evolves:
  assumes ok: "store_ok db" and a: "adopt_recovery_artifact clk jid d w db = Inr (r, db')"
  shows "evolves n db db'"
proof (cases "job_row db jid")
  case (Some j)
  have "evolves n db (upd_job (j_id j) (adopted_row clk s) db1)"
    if "insert_artifact x db = Inr db1" "j_status j = JFailed" for s x db1
    by (rule evolves_update_found [OF ok])
       (use job_rowD [OF Some] done_rows_step(2) that insert_artifact_projections(1) [OF that(1)] in auto)
  with a Some show ?thesis
    by (auto simp: adopt_recovery_artifact_def Let_def split: if_splits sum.splits)
qed (use a in \<open>auto simp: adopt_recovery_artifact_def split: if_splits\<close>)

lemma requeue_undeliverable_result_evolves:
  assumes ok: "store_ok db" and r: "requeue_undeliverable_result clk owner tid jid kind err db = Inr (s, db')"
  shows "evolves n db db'"
proof (cases "owned_task_of_job owner tid jid db")
  case (Some p)
  obtain j t where p: "p = (j, t)" by (cases p)
  note o = owned_task_of_jobD [OF Some [unfolded p]]
  have "evolves n db (upd_job jid (requeued_row clk stage) b)"
    if "db_jobs b = db_jobs db" "evolves n db b" "j_status j = JSuccess" for stage b
    using evolves_update_found [OF ok o(1) that(1,2), of "requeued_row clk stage"]
      done_rows_step(3) that(3) o(2) by simp
  with r Some p show ?thesis
    by (auto simp: requeue_undeliverable_result_def Let_def split: if_splits option.splits)
qed (use r in \<open>auto simp: requeue_undeliverable_result_def split: if_splits\<close>)

lemma fail_undeliverable_result_evolves:
  assumes ok: "store_ok db"
  shows "evolves n db (snd (fail_undeliverable_result clk at owner tid jid code m db))"
proof (cases "owned_task_of_job owner tid jid db")
  case (Some p)
  obtain j t where p: "p = (j, t)" by (cases p)
  note o = owned_task_of_jobD [OF Some [unfolded p]]
  have "evolves n db (upd_job jid (undeliverable_row at code m) db)" if "j_status j = JSuccess"
    using evolves_update_found [OF ok o(1) refl evolves_refl, of "undeliverable_row at code m" n]
      done_rows_step(4) that o(2) by simp
  with Some p show ?thesis by (simp add: fail_undeliverable_result_def Let_def)
qed (simp add: fail_undeliverable_result_def)

lemma remove_invalid_artifacts_evolves: "evolves n db (snd (remove_invalid_artifacts tid ps db))"
  by (simp add: remove_invalid_artifacts_def Let_def evolves_frame [of _ db])

section \<open>Cancellation and delivery\<close>

lemma cancel_task_leases [simp]: "db_leases (cancel_task now tid db) = db_leases db"
proof -
  have "db_leases (fold (cancel_waiting_job now tid) js b) = db_leases b" for js b
    by (induction js arbitrary: b) (simp_all add: cancel_waiting_job_def)
  then show ?thesis by (simp add: cancel_task_def Let_def)
qed

lemma request_cancel_evolves:
  assumes "store_ok db" and "request_cancel now owner ref db = Inr (snap, db')"
  shows "evolves n db db'"
  using assms(2)
proof (cases rule: request_cancelD)
  case (3 t)
  note eff = cancel_task_effect(2) [OF assms(1) find_taskD(1) [OF 3(1)] 3(2), of now]
  show ?thesis
    unfolding 3(4)
    by (rule evolves_upd_rows [OF _ eff [unfolded cancel_rows_def]]) (auto intro: waiting_rows_step)
qed simp_all

lemma delivery_ops_evolve:
  "mark_response_attempted now owner ref db = Inr (snap, db') \<Longrightarrow> evolves n db db'"
  "acknowledge now owner ref db = Inr (snap, db') \<Longrightarrow> evolves n db db'"
  "evolves n db (mark_responses_attempted now owner ids db)"
  by (auto simp: mark_response_attempted_def acknowledge_def mark_responses_attempted_def Let_def
      evolves_frame [of _ db] split: sum.splits option.splits if_splits)

lemma withdraw_result_evolves: "evolves n db (withdraw_result now jid db)"
  unfolding withdraw_result_def
  by (auto simp: withdrawn_row_def phase_of_def split: option.split intro!: evolves_upd_job row_step_same)

lemma public_artifact_ops_evolve:
  "evolves n db (snd (delete_public_final_artifact now path db))"
  "evolves n db (snd (invalidate_public_final_artifact now path db))"
  by (simp_all add: delete_public_final_artifact_def invalidate_public_final_artifact_def
      withdraw_result_evolves split: option.split)

text \<open>Purging only drops rows: those of the deleted tasks, and the leases of their jobs.\<close>

definition only_drops :: "queue_db \<Rightarrow> queue_db \<Rightarrow> bool" where
  "only_drops db db' \<longleftrightarrow>
     set (db_jobs db') \<subseteq> set (db_jobs db) \<and> set (db_leases db') \<subseteq> set (db_leases db)"

lemma purge_ops_drop:
  "only_drops db (snd (purge_terminal_tasks cfg w inc ret now db))"
  "only_drops db (snd (finalize_terminal_tasks cfg now ids w inc db))"
  by (auto simp: only_drops_def purge_terminal_tasks_def finalize_terminal_tasks_def delete_tasks_def
      drop_artifacts_def Let_def)

end
