(* ===== verification/Queue_Registry_Correct.thy ===== *)
theory Queue_Registry_Correct
  imports Queue_Registry Queue_Refinement Queue_Example
begin

text \<open>
  The registry of workers keeps the queue untouched, names every worker once, and keeps two
  processes from working under one identity.
\<close>

section \<open>Frames\<close>

lemma update_worker_state_frame:
  assumes "update_worker_state cfg now worker r db = Inr db'"
  shows "\<exists>ws. db' = db\<lparr>db_workers := ws\<rparr>"
  using assms by (auto simp: update_worker_state_def split: option.splits if_splits)

lemma update_worker_state_ok:
  "update_worker_state cfg now worker r db = Inr db' \<Longrightarrow> store_ok db \<Longrightarrow> store_ok db'"
  using update_worker_state_frame by fastforce

lemma update_worker_state_evolves:
  "update_worker_state cfg now worker r db = Inr db' \<Longrightarrow> evolves n db db'"
  using update_worker_state_frame by fastforce

lemma registry_ops_ok:
  assumes "store_ok db"
  shows "store_ok (snd (delete_worker_state worker db))"
    and "store_ok (snd (record_worker_delivery_status rd worker healthy url m checked db))"
    and "store_ok (snd (reclaim_expired_inactive_account_leases now db))"
  using assms ok_clear_expired
  by (simp_all add: delete_worker_state_def record_worker_delivery_status_def
      reclaim_expired_inactive_account_leases_def Let_def)

lemma registry_ops_evolve:
  "evolves n db (snd (delete_worker_state worker db))"
  "evolves n db (snd (record_worker_delivery_status rd worker healthy url m checked db))"
  "evolves n db (snd (reclaim_expired_inactive_account_leases now db))"
  by (simp_all add: delete_worker_state_def record_worker_delivery_status_def
      reclaim_expired_inactive_account_leases_def clear_expired_inactive_account_leases_def
      evolves_drop_leases Let_def)

section \<open>One row per worker\<close>

definition workers_distinct :: "queue_db \<Rightarrow> bool" where
  "workers_distinct db \<longleftrightarrow> distinct (map w_worker_id (db_workers db))"

lemma update_worker_state_distinct:
  assumes "update_worker_state cfg now worker r db = Inr db'" and "workers_distinct db"
  shows "workers_distinct db'"
proof (cases "find (\<lambda>w. w_worker_id w = worker) (db_workers db)")
  case None
  then have "worker \<notin> w_worker_id ` set (db_workers db)" by (auto dest: find_NoneD)
  with assms None show ?thesis
    by (auto simp: update_worker_state_def workers_distinct_def reported_row_def new_worker_row_def)
next
  case (Some w)
  have "map w_worker_id (upd_rows (\<lambda>v. w_worker_id v = worker) (reported_row now r') ws) = map w_worker_id ws"
    for r' ws by (simp add: upd_rows_def reported_row_def)
  with assms Some show ?thesis
    by (auto simp: update_worker_state_def workers_distinct_def split: if_splits)
qed

section \<open>Takeover\<close>

lemma find_upd_rows:
  assumes "find P xs = Some x" and "\<And>y. P (f y) = P y"
  shows "find P (upd_rows P f xs) = Some (f x)"
  using assms by (induction xs) (auto simp: upd_rows_def split: if_splits)

lemma update_worker_state_row:
  assumes "update_worker_state cfg now worker r db = Inr db'"
    and "find (\<lambda>w. w_worker_id w = worker) (db_workers db) = Some w"
  shows "find (\<lambda>w. w_worker_id w = worker) (db_workers db') = Some (reported_row now (merged_report w r) w)"
    and "\<not> (worker_row_live cfg now w db \<and> identity_conflict now r w db)"
proof -
  have "w_worker_id (reported_row now (merged_report w r) v) = w_worker_id v" for v
    by (simp add: reported_row_def)
  then show "find (\<lambda>w. w_worker_id w = worker) (db_workers db') = Some (reported_row now (merged_report w r) w)"
    using assms find_upd_rows [OF assms(2), of "reported_row now (merged_report w r)"]
    by (auto simp: update_worker_state_def split: if_splits)
  show "\<not> (worker_row_live cfg now w db \<and> identity_conflict now r w db)"
    using assms by (simp add: update_worker_state_def split: if_splits)
qed

text \<open>A claim for a process that is not the registered one is refused before it writes.\<close>

lemma claim_of_other_process:
  assumes "cr_expected_instance req \<noteq> ''''"
    and "\<not> ensure_worker_process_current (cr_worker_id req) (cr_expected_instance req) db"
  shows "claim_next_job cfg req clk tok db = (Inl (WorkerIdentityConflict (cr_worker_id req)), db)"
proof -
  have "claim_next_job_once cfg req clk t db = (Inl (WorkerIdentityConflict (cr_worker_id req)), db)" for t
    using assms by (simp add: claim_next_job_once_def)
  then show ?thesis by (simp add: claim_next_job_def eval_nat_numeral)
qed

lemma length_filter_zero: "length (filter P xs) = 0 \<longleftrightarrow> (\<forall>x \<in> set xs. \<not> P x)"
  by (simp add: filter_empty_conv)

text \<open>
  Takeover of a worker: when a second process registers under the identity of a
  worker whose row is still live, it belongs to the same instance, did not start earlier, and
  the first process holds no job and no occupied account slot any more; from then on every
  claim of the first process is refused and leaves the database untouched, and, when it
  started earlier, so is its next heartbeat while the new row is fresh.
\<close>

theorem worker_takeover_is_fenced:
  assumes "update_worker_state cfg now worker r db = Inr db'"
    and "find (\<lambda>w. w_worker_id w = worker) (db_workers db) = Some w"
    and "wr_instance_id r \<noteq> ''''" and "w_instance_id w \<noteq> ''''"
    and "wr_process_instance_id r \<noteq> ''''" and "w_process_instance_id w \<noteq> ''''"
    and "wr_process_instance_id r \<noteq> w_process_instance_id w"
    and "py_strip (w_process_instance_id w) = w_process_instance_id w"
  shows "(worker_row_live cfg now w db \<longrightarrow>
      w_instance_id w = wr_instance_id r \<and>
      (\<exists>new. wr_process_started_at r = StartedAt new \<and>
         (\<forall>old. w_process_started_at w = StartedAt old \<longrightarrow> old \<le> new)) \<and>
      (\<forall>j \<in> set (db_jobs db'). j_lease_owner j = Some worker \<longrightarrow> \<not> active_job (j_status j)) \<and>
      (\<forall>l \<in> set (db_leases db'). l_lease_owner l = worker \<longrightarrow> \<not> account_lease_occupies_slot now db' l)) \<and>
    (\<forall>req cfg' clk tok. cr_worker_id req = worker \<and> cr_expected_instance req = w_process_instance_id w \<longrightarrow>
      claim_next_job cfg' req clk tok db' = (Inl (WorkerIdentityConflict worker), db')) \<and>
    (\<forall>late beat. wr_instance_id beat = wr_instance_id r \<and>
      wr_process_instance_id beat = w_process_instance_id w \<and>
      (\<exists>old new. wr_process_started_at beat = StartedAt old \<and> wr_process_started_at r = StartedAt new \<and> old < new) \<and>
      late - now \<le> secs (max 60 (2 * lease_seconds cfg)) \<longrightarrow>
      update_worker_state cfg late worker beat db' = Inl (WorkerIdentityConflict worker))"
proof (intro conjI allI impI)
  note row = update_worker_state_row [OF assms(1,2)]
  have id: "w_worker_id w = worker" using assms(2) by (auto dest: find_SomeD)
  obtain ws where db': "db' = db\<lparr>db_workers := ws\<rparr>" using update_worker_state_frame [OF assms(1)] by blast
  {
    assume live: "worker_row_live cfg now w db"
    with row(2) have free: "\<not> identity_conflict now r w db" by simp
    with assms(3,4) show "w_instance_id w = wr_instance_id r" by (simp add: identity_conflict_def)
    from free assms(3-7) obtain new prev where t: "start_time (wr_process_started_at r) = Some new"
      "or_else (start_time (w_process_started_at w)) (Some (w_started_at w)) = Some prev" "prev \<le> new"
      and none: "active_job_claims worker db = 0" "active_account_claims now worker db = 0"
      by (auto simp: identity_conflict_def id split: option.splits)
    show "\<exists>new. wr_process_started_at r = StartedAt new \<and>
        (\<forall>old. w_process_started_at w = StartedAt old \<longrightarrow> old \<le> new)"
      using t by (auto simp: start_time_def or_else_def split: start_stamp.splits)
    show "\<forall>j \<in> set (db_jobs db'). j_lease_owner j = Some worker \<longrightarrow> \<not> active_job (j_status j)"
      using none(1) unfolding active_job_claims_def length_filter_zero by (simp add: db')
    show "\<forall>l \<in> set (db_leases db'). l_lease_owner l = worker \<longrightarrow> \<not> account_lease_occupies_slot now db' l"
      using none(2) unfolding active_account_claims_def length_filter_zero
      by (simp add: db' account_lease_occupies_slot_def)
  }
  {
    fix req :: claim_request and cfg' clk tok
    assume "cr_worker_id req = worker \<and> cr_expected_instance req = w_process_instance_id w"
    then show "claim_next_job cfg' req clk tok db' = (Inl (WorkerIdentityConflict worker), db')"
      using claim_of_other_process [of req db'] assms(5-8) row(1)
      by (simp add: ensure_worker_process_current_def reported_row_def merged_report_def)
  }
  fix late and beat :: worker_report
  assume beat: "wr_instance_id beat = wr_instance_id r \<and>
      wr_process_instance_id beat = w_process_instance_id w \<and>
      (\<exists>old new. wr_process_started_at beat = StartedAt old \<and> wr_process_started_at r = StartedAt new \<and> old < new) \<and>
      late - now \<le> secs (max 60 (2 * lease_seconds cfg))"
  let ?v = "reported_row now (merged_report w r) w"
  have "worker_row_live cfg late ?v db'"
    using beat by (simp add: worker_row_live_def reported_row_def)
  moreover have "identity_conflict late beat ?v db'"
    using beat assms(3,5,6,7)
    by (auto simp: identity_conflict_def reported_row_def merged_report_def start_time_def or_else_def)
  ultimately show "update_worker_state cfg late worker beat db' = Inl (WorkerIdentityConflict worker)"
    using row(1) by (simp add: update_worker_state_def)
qed

text \<open>A worker registered by process p1 that holds nothing, and the report of its successor p2.\<close>

definition demo_worker_row :: worker_state where
  "demo_worker_row = (new_worker_row ''w7'' 10)\<lparr>w_instance_id := ''i'', w_process_instance_id := ''p1'',
     w_process_started_at := StartedAt 5\<rparr>"

definition demo_report :: worker_report where
  "demo_report = \<lparr>wr_instance_id = ''i'', wr_process_instance_id = ''p2'',
     wr_process_started_at = StartedAt 8, wr_configured_id = '''', wr_worker_active = True,
     wr_fields = [], wr_effective_concurrency = 4, wr_pause_reason = ''''\<rparr>"

definition demo_registry :: queue_db where
  "demo_registry = demo_db\<lparr>db_workers := [demo_worker_row]\<rparr>"

theorem worker_takeover_is_fenced_witness:
  "\<exists>db'. update_worker_state demo_settings 20 ''w7'' demo_report demo_registry = Inr db' \<and>
     claim_next_job demo_settings (demo_request\<lparr>cr_worker_id := ''w7'', cr_expected_instance := ''p1''\<rparr>)
       100 (\<lambda>_ n. n) db' = (Inl (WorkerIdentityConflict ''w7''), db') \<and>
     update_worker_state demo_settings 30 ''w7''
       (demo_report\<lparr>wr_process_instance_id := ''p1'', wr_process_started_at := StartedAt 5\<rparr>) db' =
       Inl (WorkerIdentityConflict ''w7'')"
proof -
  have "\<not> isl (update_worker_state demo_settings 20 ''w7'' demo_report demo_registry)" by code_simp
  then obtain db' where u: "update_worker_state demo_settings 20 ''w7'' demo_report demo_registry = Inr db'"
    by (cases "update_worker_state demo_settings 20 ''w7'' demo_report demo_registry") auto
  have f: "find (\<lambda>w. w_worker_id w = ''w7'') (db_workers demo_registry) = Some demo_worker_row" by code_simp
  have strip: "py_strip (w_process_instance_id demo_worker_row) = w_process_instance_id demo_worker_row"
    by code_simp
  have ids: "wr_instance_id demo_report = ''i''" "w_instance_id demo_worker_row = ''i''"
    "wr_process_instance_id demo_report = ''p2''" "w_process_instance_id demo_worker_row = ''p1''"
    "wr_process_started_at demo_report = StartedAt 8"
    by (simp_all add: demo_report_def demo_worker_row_def)
  have window: "30 - 20 \<le> secs (max 60 (2 * lease_seconds demo_settings))" by code_simp
  note fenced = worker_takeover_is_fenced [OF u f _ _ _ _ _ strip, unfolded ids, simplified]
  let ?req = "demo_request\<lparr>cr_worker_id := ''w7'', cr_expected_instance := ''p1''\<rparr>"
  let ?beat = "demo_report\<lparr>wr_process_instance_id := ''p1'', wr_process_started_at := StartedAt 5\<rparr>"
  have "claim_next_job demo_settings ?req 100 (\<lambda>_ n. n) db' = (Inl (WorkerIdentityConflict ''w7''), db')"
    using fenced by simp
  moreover have "update_worker_state demo_settings 30 ''w7'' ?beat db' = Inl (WorkerIdentityConflict ''w7'')"
    using fenced window ids by auto
  ultimately show ?thesis using u by blast
qed

end
