(* ===== verification/Queue_System.thy ===== *)
theory Queue_System
  imports Queue_Registry_Correct
begin

text \<open>
  The queue as one system: any interleaving of the sessions of the repository, each an
  atomic step. Every state a run reaches from the empty database is well formed and within
  the concurrency of the accounts, and what a run does to one job is a run of the abstract
  life cycle.
\<close>

section \<open>The step relation\<close>

text \<open>
  One constructor per operation that writes; the sessions that raise are rolled back and
  are no step. \<open>N\<close> bounds the account concurrency the workers claim with.
\<close>

inductive queue_step :: "queue_settings \<Rightarrow> nat \<Rightarrow> queue_db \<Rightarrow> queue_db \<Rightarrow> bool"
  for cfg :: queue_settings and N :: nat where
  enqueued: "enqueue_task clk read fresh new_id backlog q db = Inr (r, db') \<Longrightarrow> queue_step cfg N db db'"
| claimed: "max 1 (cr_account_concurrency req) \<le> int N \<Longrightarrow>
    queue_step cfg N db (snd (claim_next_job cfg req clk tokens db))"
| worked: "queue_step cfg N db (run_worker_op clk w c db)"
| heartbeat: "queue_step cfg N db (snd (heartbeat_claims cfg clk now worker claims db))"
| quota_accounted: "queue_step cfg N db (snd (mark_quota_accounted clk jid account db))"
| quota_failed: "queue_step cfg N db (snd (record_quota_accounting_failure clk jid err db))"
| expired: "queue_step cfg N db (snd (expire_pending_tasks clk now ttl db))"
| reclaimed: "queue_step cfg N db (snd (reclaim_expired_leases cfg clk now prot all_due ignore db))"
| restored: "queue_step cfg N db (snd (reclaim_restored_leases cfg clk now db))"
| stopped: "queue_step cfg N db (snd (mark_worker_inactive cfg clk worker inst db))"
| recovered: "queue_step cfg N db (snd (recover cfg clk now was_restored db))"
| resumed: "resume_failed_task clk owner ref extra db = Inr (snap, db') \<Longrightarrow> queue_step cfg N db db'"
| adopted: "adopt_recovery_artifact clk jid d worker db = Inr (done, db') \<Longrightarrow> queue_step cfg N db db'"
| result_requeued: "requeue_undeliverable_result clk owner tid jid kind why db = Inr (snap, db') \<Longrightarrow>
    queue_step cfg N db db'"
| result_failed: "queue_step cfg N db (snd (fail_undeliverable_result clk at owner tid jid code why db))"
| invalid_removed: "queue_step cfg N db (snd (remove_invalid_artifacts tid paths db))"
| canceled: "request_cancel now owner ref db = Inr (snap, db') \<Longrightarrow> queue_step cfg N db db'"
| responded: "mark_response_attempted now owner ref db = Inr (snap, db') \<Longrightarrow> queue_step cfg N db db'"
| all_responded: "queue_step cfg N db (mark_responses_attempted now owner ids db)"
| acknowledged: "acknowledge now owner ref db = Inr (snap, db') \<Longrightarrow> queue_step cfg N db db'"
| invalidated: "queue_step cfg N db (snd (invalidate_public_final_artifact now path db))"
| deleted: "queue_step cfg N db (snd (delete_public_final_artifact now path db))"
| registered: "update_worker_state cfg clk worker r db = Inr db' \<Longrightarrow> queue_step cfg N db db'"
| unregistered: "queue_step cfg N db (snd (delete_worker_state worker db))"
| delivery_checked: "queue_step cfg N db
    (snd (record_worker_delivery_status rd worker healthy url m checked db))"
| idle_leases_cleared: "queue_step cfg N db (snd (reclaim_expired_inactive_account_leases now db))"
| purged: "queue_step cfg N db (snd (purge_terminal_tasks cfg worker unowned retention now db))"
| finalized: "queue_step cfg N db (snd (finalize_terminal_tasks cfg now ids worker unowned db))"

lemma step_keeps_store_ok:
  assumes "queue_step cfg N db db'" and "store_ok db"
  shows "store_ok db'"
  using assms
  by (cases rule: queue_step.cases)
     (auto intro: enqueue_task_ok resume_failed_task_ok adopt_recovery_artifact_ok
       requeue_undeliverable_result_ok request_cancel_ok mark_response_attempted_ok acknowledge_ok
       claim_next_job_ok run_worker_op_keeps heartbeat_claims_ok mark_quota_accounted_ok
       record_quota_accounting_failure_ok expire_pending_tasks_ok reclaim_expired_leases_ok
       reclaim_restored_leases_ok mark_worker_inactive_ok recover_ok fail_undeliverable_result_ok
       remove_invalid_artifacts_ok mark_responses_attempted_ok invalidate_public_final_artifact_ok
       delete_public_final_artifact_ok update_worker_state_ok registry_ops_ok purge_terminal_tasks_ok
       finalize_terminal_tasks_ok)

text \<open>Every step either evolves the rows, or appends new ones, or drops some.\<close>

lemma step_shape:
  assumes "queue_step cfg N db db'" and "store_ok db"
  obtains (evolve) "evolves N db db'"
  | (grow) rows where "db_jobs db' = db_jobs db @ rows" "new_rows db rows" "db_leases db' = db_leases db"
  | (shrink) "only_drops db db'"
  using assms(1)
proof (cases rule: queue_step.cases)
  case enqueued
  from this show ?thesis by (rule enqueue_task_rows) (rule grow)
next
  case (claimed req clk tokens)
  then have "nat (max 1 (cr_account_concurrency req)) \<le> N" by (simp only: nat_le_iff)
  from claim_next_job_evolves [OF assms(2) this] claimed(1) evolve show ?thesis by simp
qed (use assms(2) in \<open>auto intro: evolve shrink purge_ops_drop run_worker_op_evolves heartbeat_claims_evolves
    mark_quota_accounted_evolves record_quota_accounting_failure_evolves expire_pending_tasks_evolves
    reclaim_expired_leases_evolves reclaim_restored_leases_evolves mark_worker_inactive_evolves
    recover_evolves resume_failed_task_evolves adopt_recovery_artifact_evolves
    requeue_undeliverable_result_evolves fail_undeliverable_result_evolves
    remove_invalid_artifacts_evolves request_cancel_evolves delivery_ops_evolve
    public_artifact_ops_evolve update_worker_state_evolves registry_ops_evolve\<close>)

section \<open>The invariant of the system\<close>

definition system_ok :: "nat \<Rightarrow> queue_db \<Rightarrow> bool" where
  "system_ok N db \<longleftrightarrow> store_ok db \<and> (\<forall>l \<in> set (db_leases db). l_slot_no l < N)"

lemma step_keeps_slots:
  assumes "queue_step cfg N db db'" and "system_ok N db" and "l \<in> set (db_leases db')"
  shows "l_slot_no l < N"
proof -
  have ok: "store_ok db" "\<And>k. k \<in> set (db_leases db) \<Longrightarrow> l_slot_no k < N"
    using assms(2) by (simp_all add: system_ok_def)
  from assms(1) ok(1) show ?thesis
  proof (cases rule: step_shape)
    case evolve
    with assms(3) have "lease_key l \<in> lease_key ` set (db_leases db) \<or> l_slot_no l < N"
      by (simp add: evolves_def slots_step_def)
    then show ?thesis using ok(2) by (auto simp: lease_key_def)
  qed (use assms(3) ok(2) in \<open>auto simp: only_drops_def\<close>)
qed

interpretation queue: safety_system "\<lambda>db. db = empty_db" "queue_step cfg N" "system_ok N" for cfg N
proof
  fix db :: queue_db assume "db = empty_db"
  then show "system_ok N db" using store_ok_empty by (simp add: system_ok_def empty_db_def)
next
  fix db db' assume "system_ok N db" "queue_step cfg N db db'"
  then show "system_ok N db'"
    using step_keeps_store_ok step_keeps_slots unfolding system_ok_def by blast
qed

text \<open>Distinct slots below the bound: an account holds at most as many leases.\<close>

lemma account_leases_bounded:
  assumes "system_ok N db"
  shows "length (filter (\<lambda>l. l_account_id l = a) (db_leases db)) \<le> N"
proof (rule distinct_bounded_length)
  have "distinct (map lease_key (db_leases db))"
    using assms by (simp add: system_ok_def store_ok_def store_ok_except_def keys_ok_def)
  then show "distinct (map l_slot_no (filter (\<lambda>l. l_account_id l = a) (db_leases db)))"
    by (auto simp: distinct_map lease_key_def inj_on_def)
qed (use assms in \<open>auto simp: system_ok_def\<close>)

section \<open>The life of one job\<close>

text \<open>A step of the system after which the job \<open>i\<close> is still there.\<close>

definition step_with_job :: "queue_settings \<Rightarrow> nat \<Rightarrow> uuid \<Rightarrow> queue_db \<Rightarrow> queue_db \<Rightarrow> bool" where
  "step_with_job cfg N i db db' \<longleftrightarrow> queue_step cfg N db db' \<and> job_row db' i \<noteq> None"

definition job_present :: "uuid \<Rightarrow> queue_db \<Rightarrow> bool" where
  "job_present i db \<longleftrightarrow> store_ok db \<and> job_row db i \<noteq> None"

lemma rows_step_row:
  assumes "list_all2 row_step xs ys" and "y \<in> set ys"
  obtains x where "x \<in> set xs" "row_step x y"
  using assms by (induction rule: list_all2_induct) auto

lemma step_row:
  assumes step: "queue_step cfg N db db'" and ok: "store_ok db"
    and rows: "job_row db i = Some j" "job_row db' i = Some k"
  shows "row_step j k"
proof -
  note j = job_rowD [OF rows(1)] and k = job_rowD [OF rows(2)]
  have same: "x = j" if "x \<in> set (db_jobs db)" "j_id x = i" for x
    using found_row_unique [OF ok] j that by blast
  from step ok show ?thesis
  proof (cases rule: step_shape)
    case evolve
    then have "list_all2 row_step (db_jobs db) (db_jobs db')" by (simp add: evolves_def rows_step_def)
    with k obtain x where x: "x \<in> set (db_jobs db)" "row_step x k" by (auto elim: rows_step_row)
    then have "x = j" using same k by (simp add: row_step_def)
    with x show ?thesis by simp
  next
    case (grow rows)
    have "k \<notin> set rows" using grow(2) j k by (auto simp: new_rows_def)
    with grow(1) k same show ?thesis by auto
  next
    case shrink
    with k same show ?thesis by (auto simp: only_drops_def)
  qed
qed

text \<open>
  A refinement: every step of the system is a run of the specification, seen through the
  abstraction.
\<close>

locale simulation = safety_system initial step invariant
  for initial :: "'s \<Rightarrow> bool" and step :: "'s \<Rightarrow> 's \<Rightarrow> bool" and invariant :: "'s \<Rightarrow> bool" +
  fixes abstraction :: "'s \<Rightarrow> 'a"
    and spec :: "'a \<Rightarrow> 'a \<Rightarrow> bool"
  assumes simulates: "invariant s \<Longrightarrow> step s t \<Longrightarrow> spec\<^sup>*\<^sup>* (abstraction s) (abstraction t)"
begin

lemma simulates_run: "step\<^sup>*\<^sup>* s t \<Longrightarrow> invariant s \<Longrightarrow> spec\<^sup>*\<^sup>* (abstraction s) (abstraction t)"
proof (induction rule: rtranclp_induct)
  case (step t u)
  then have "invariant t" using invariant_steps by blast
  with step simulates show ?case by (meson rtranclp_trans)
qed simp

end

text \<open>What the system knows of the job: its row, through the relation on rows.\<close>

definition job_of :: "uuid \<Rightarrow> queue_db \<Rightarrow> image_job" where
  "job_of i db = the (job_row db i)"

interpretation job: simulation "job_present i" "step_with_job cfg N i" "job_present i" "job_of i" row_step
  for cfg N i
proof
  fix db db' assume p: "job_present i db" and s: "step_with_job cfg N i db db'"
  then show "job_present i db'"
    using step_keeps_store_ok by (auto simp: job_present_def step_with_job_def)
  from p s have "row_step (job_of i db) (job_of i db')"
    by (auto simp: job_present_def step_with_job_def job_of_def intro: step_row)
  then show "row_step\<^sup>*\<^sup>* (job_of i db) (job_of i db')" by (rule r_into_rtranclp)
qed simp

lemma run_row:
  assumes "(step_with_job cfg N i)\<^sup>*\<^sup>* db db'" and "job_present i db"
  shows "row_step (job_of i db) (job_of i db')"
proof -
  have "row_step\<^sup>*\<^sup>* (job_of i db) (job_of i db')" by (rule job.simulates_run [OF assms])
  then show ?thesis by (induction rule: rtranclp_induct) (auto intro: row_step_trans)
qed

text \<open>The phase is what the specification speaks of; a claim stands exactly while it is held.\<close>

interpretation life: simulation "job_present i" "step_with_job cfg N i" "job_present i"
  "\<lambda>db. phase_of (job_of i db)" lifecycle
  for cfg N i
proof
  fix db db' assume "job_present i db" "step_with_job cfg N i db db'"
  then show "lifecycle\<^sup>*\<^sup>* (phase_of (job_of i db)) (phase_of (job_of i db'))"
    using run_row [OF r_into_rtranclp] by (auto simp: row_step_def)
qed

lemma claim_stands_iff_held:
  assumes ok: "store_ok db" and row: "job_row db (j_id (c_job c)) = Some j"
  shows "claimed_job_row db c \<noteq> None \<longleftrightarrow>
    phase_of j = Held (c_lease_owner c) (c_lease_token c) (c_lease_version c)"
proof -
  note j = job_rowD [OF row]
  have jok: "job_ok j" using ok j by (auto simp: store_ok_def intro: store_job_ok)
  have "claimed_job_row db c \<noteq> None \<longleftrightarrow> (\<exists>k \<in> set (db_jobs db). holds_claim c k)"
    by (auto simp: claimed_job_row_def find_None_iff)
  also have "\<dots> \<longleftrightarrow> holds_claim c j"
    using j found_row_unique [OF ok] by (metis holds_claim_def)
  also have "\<dots> \<longleftrightarrow> phase_of j = Held (c_lease_owner c) (c_lease_token c) (c_lease_version c)"
    using j jok by (auto simp: holds_claim_def phase_of_def job_ok_def text_or_empty_def split: option.splits)
  finally show ?thesis .
qed

lemma run_keeps_present:
  "(step_with_job cfg N i)\<^sup>*\<^sup>* db db' \<Longrightarrow> job_present i db \<Longrightarrow> job_present i db'"
  by (rule job.invariant_steps)

lemma run_fences:
  assumes present: "job_present (j_id (c_job c)) db" and gone: "claimed_job_row db c = None"
    and issued: "c_lease_version c \<le> version_of (phase_of (job_of (j_id (c_job c)) db))"
    and run: "(step_with_job cfg N (j_id (c_job c)))\<^sup>*\<^sup>* db db'"
  shows "claimed_job_row db' c = None"
proof -
  let ?i = "j_id (c_job c)"
  let ?held = "Held (c_lease_owner c) (c_lease_token c) (c_lease_version c)"
  have iff: "claimed_job_row b c \<noteq> None \<longleftrightarrow> phase_of (job_of ?i b) = ?held" if "job_present ?i b" for b
    using that claim_stands_iff_held by (auto simp: job_present_def job_of_def)
  have "phase_of (job_of ?i db) \<noteq> ?held" using iff [OF present] gone by simp
  from not_held_again [OF life.simulates_run [OF run present] issued this]
  show ?thesis using iff [OF run_keeps_present [OF run present]] by simp
qed

end
