(* ===== verification/Queue_Claim_Progress.thy ===== *)
theory Queue_Claim_Progress
  imports Queue_Claim_Correct
begin

text \<open>
  The converse of what a claim hands out: when there is claimable work and free capacity, a
  claim returns a job. The conditions name what can make the code pass over a job: an
  account slot that is not free, an account that is not offered, or a local artifact that
  another live worker owns.
\<close>

section \<open>Capacity\<close>

definition free_slot :: "int \<Rightarrow> queue_db \<Rightarrow> account_candidate \<Rightarrow> bool" where
  "free_slot concurrency db c \<longleftrightarrow>
     (\<exists>s < nat (max 1 concurrency). (ac_account_id c, s) \<notin> lease_key ` set (db_leases db))"

text \<open>A job the accounts on offer can serve, whose local artifacts are this worker's to use.\<close>

definition servable :: "queue_settings \<Rightarrow> claim_request \<Rightarrow> queue_db \<Rightarrow> image_job \<Rightarrow> bool" where
  "servable cfg req db j \<longleftrightarrow>
     (j_account_id j = None \<or> (\<exists>c \<in> set (cr_candidates req). Some (ac_account_id c) = j_account_id j)) \<and>
     \<not> snd (local_recovery_artifacts cfg req db j)"

definition capacity :: "claim_request \<Rightarrow> queue_db \<Rightarrow> bool" where
  "capacity req db \<longleftrightarrow>
     cr_candidates req \<noteq> [] \<and> distinct (map ac_account_id (cr_candidates req)) \<and>
     (\<forall>c \<in> set (cr_candidates req). free_slot (cr_account_concurrency req) db c) \<and>
     ensure_worker_process_current (cr_worker_id req) (cr_expected_instance req) db"

lemma acquire_slot_succeeds:
  assumes "free_slot n db c" and "no_lease j db"
  shows "\<exists>s db'. acquire_account_slot c n j w t v e now db = Inr (Some s, db')"
proof -
  let ?p = "\<lambda>s. (ac_account_id c, s) \<notin> lease_key ` set (db_leases db)"
  from assms(1) have "find ?p [0..<nat (max 1 n)] \<noteq> None"
    by (auto simp: free_slot_def find_None_iff)
  with assms(2) show ?thesis
    by (auto simp: acquire_account_slot_def no_lease_def split: option.splits)
qed

lemma acquire_first_succeeds:
  assumes "cs \<noteq> []" and "\<And>c. c \<in> set cs \<Longrightarrow> free_slot n db c" and "no_lease j db"
  shows "\<exists>r db'. acquire_first_slot cs n j w t v e now db = Inr (Some r, db')"
proof -
  obtain c rest where cs: "cs = c # rest" using assms(1) by (cases cs) auto
  with acquire_slot_succeeds [OF assms(2,3), of c w t v e now] show ?thesis by auto
qed

lemma ranked_candidates_set: "set (ranked_candidates req j db cands) = set cands"
  by (simp add: ranked_candidates_def account_ranking.set_rank)

lemma capacity_frame:
  assumes "db_leases b = filter p (db_leases db)" and "db_workers b = db_workers db"
  shows "capacity req db \<Longrightarrow> capacity req b"
  using assms by (fastforce simp: capacity_def free_slot_def ensure_worker_process_current_def)

lemma servable_frame:
  assumes "db_workers b = db_workers db" and "db_artifacts b = db_artifacts db"
  shows "servable cfg req b j = servable cfg req db j"
proof -
  have "own_local_artifact cfg req b = own_local_artifact cfg req db"
    using assms(1) by (simp add: own_local_artifact_def fun_eq_iff)
  with assms(2) show ?thesis
    by (simp add: servable_def local_recovery_artifacts_def recovery_artifact_rows_def Let_def)
qed

section \<open>Routes\<close>

text \<open>A servable job is neither failed nor put off, and never left without a candidate.\<close>

lemma other_candidate:
  assumes "distinct (map k cs)" and "1 < length cs"
  shows "filter (\<lambda>c. k c \<noteq> x) cs \<noteq> []"
proof
  assume "filter (\<lambda>c. k c \<noteq> x) cs = []"
  then have "set (map k cs) \<subseteq> {x}" by (auto simp: filter_empty_conv)
  then have "card (set (map k cs)) \<le> 1" using card_mono [of "{x}" "set (map k cs)"] by simp
  with assms show False by (metis distinct_card length_map not_le)
qed

lemma servable_route:
  assumes "capacity req db" and "servable cfg req db j"
  shows "claim_route_of cfg req db j = RLocal \<or> claim_route_of cfg req db j = RAccountless \<or>
    (\<exists>restricted cands. claim_route_of cfg req db j = RAccounts restricted cands \<and> cands \<noteq> [] \<and>
       set cands \<subseteq> set (cr_candidates req))"
proof -
  obtain local foreign where l: "local_recovery_artifacts cfg req db j = (local, foreign)" by fastforce
  with assms(2) have f: "\<not> foreign" by (simp add: servable_def)
  have own: "filter (\<lambda>c. Some (ac_account_id c) = j_account_id j) (cr_candidates req) \<noteq> []"
    if "j_account_id j \<noteq> None"
    using assms(2) that by (auto simp: servable_def filter_empty_conv)
  have other: "filter (\<lambda>c. Some (ac_account_id c) \<noteq> j_account_id j) (cr_candidates req) \<noteq> []"
    if "1 < length (cr_candidates req)"
    using other_candidate [of "\<lambda>c. Some (ac_account_id c)" "cr_candidates req"] assms(1) that
    by (simp add: capacity_def distinct_map inj_on_def)
  have some: "cr_candidates req \<noteq> []" using assms(1) by (simp add: capacity_def)
  show ?thesis
    unfolding claim_route_of_def l Let_def prod.case using f own other some by auto
qed

section \<open>One iteration serves\<close>

lemma finish_claim_serves:
  assumes "store_ok db1" and "j \<in> set (db_jobs db1)" and "waiting_job (j_status j)"
    and "db_jobs db = db_jobs db1"
    and "ensure_worker_process_current (cr_worker_id req) (cr_expected_instance req) db"
  shows "\<exists>c db'. finish_claim cfg req token j acc slot st db = Stop (Inr (Some c)) db'"
  using claim_cas_wins [OF assms(1-3)] assms(4,5) by (simp add: finish_claim_def Let_def)

lemma claim_iteration_serves:
  assumes ok: "store_ok (cs_db st)" and cap: "capacity req (cs_db st)"
    and job: "claimable_job_statement (cr_claim_time req) [] (cs_after st) (cs_recovery_pass st)
      (\<not> cs_recovery_pass st \<and> \<not> cr_recovery_only req) (cs_db st) = Some j"
    and srv: "servable cfg req (cs_db st) j"
  shows "\<exists>c db'. claim_iteration cfg req clk token st = Stop (Inr (Some c)) db'"
proof -
  let ?db = "clear_orphan_account_leases (j_id j) (cs_db st)"
  have j: "j \<in> set (db_jobs ?db)" "waiting_job (j_status j)"
    using next_jobD(1,2) [OF job] by (simp_all add: claimable_job_def)
  have same: "db_workers ?db = db_workers (cs_db st)" "db_artifacts ?db = db_artifacts (cs_db st)"
    by (simp_all add: clear_orphan_account_leases_def)
  have env: "ensure_worker_process_current w i b = ensure_worker_process_current w i (cs_db st)"
    if "db_workers b = db_workers (cs_db st)" for w i b
    using that by (simp add: ensure_worker_process_current_def)
  have capd: "capacity req ?db"
    by (rule capacity_frame [OF _ same(1) cap]) (simp add: clear_orphan_account_leases_def db_leases_drop)
  have "servable cfg req ?db j" using srv servable_frame [OF same] by simp
  note route = servable_route [OF capd this]
  have identity: "ensure_worker_process_current (cr_worker_id req) (cr_expected_instance req) b"
    if "db_workers b = db_workers (cs_db st)" for b
    using cap env [OF that] by (simp add: capacity_def)
  note finish = finish_claim_serves [OF ok_clear_orphan [OF ok] j _ identity]
  from route show ?thesis
  proof (elim disjE exE conjE)
    fix restricted cands
    assume r: "claim_route_of cfg req ?db j = RAccounts restricted cands" "cands \<noteq> []"
      "set cands \<subseteq> set (cr_candidates req)"
    have "\<exists>r db1. acquire_first_slot (ranked_candidates req j ?db cands) (cr_account_concurrency req) j
       (cr_worker_id req) token (j_lease_version j + 1)
       (cr_claim_time req + secs (lease_seconds cfg)) (cr_claim_time req) ?db = Inr (Some r, db1)"
    proof (rule acquire_first_succeeds)
      show "ranked_candidates req j ?db cands \<noteq> []"
        using r(2) ranked_candidates_set [of req j ?db cands] by (metis set_empty)
      show "free_slot (cr_account_concurrency req) ?db c" if "c \<in> set (ranked_candidates req j ?db cands)" for c
        using that r(3) capd by (auto simp: capacity_def ranked_candidates_set)
    qed (rule no_lease_orphan)
    then obtain c s db1 where acq: "acquire_first_slot (ranked_candidates req j ?db cands)
       (cr_account_concurrency req) j (cr_worker_id req) token (j_lease_version j + 1)
       (cr_claim_time req + secs (lease_seconds cfg)) (cr_claim_time req) ?db = Inr (Some (c, s), db1)"
      by fastforce
    have "db_jobs db1 = db_jobs ?db" "db_workers db1 = db_workers (cs_db st)"
      using acquire_firstD [OF acq] same by simp_all
    from finish [OF this] job r acq show ?thesis by (simp add: claim_iteration_def Let_def)
  qed (use job finish [OF refl same(1)] in \<open>simp_all add: claim_iteration_def Let_def\<close>)
qed

section \<open>The claim serves\<close>

text \<open>The work a claim request may take, in the pass that looks for it.\<close>

definition work_in_pass :: "claim_request \<Rightarrow> queue_db \<Rightarrow> bool \<Rightarrow> image_job \<Rightarrow> bool" where
  "work_in_pass req db pass j \<longleftrightarrow>
     j \<in> set (db_jobs db) \<and>
     claimable_job (cr_claim_time req) [] None pass (\<not> pass \<and> \<not> cr_recovery_only req) db j \<and>
     (if pass then cr_prefer_recovery req \<or> cr_recovery_only req
      else cr_allow_generation req \<and> \<not> cr_recovery_only req)"

lemma claimable_job_frame:
  "db_tasks b = db_tasks db \<Longrightarrow> claimable_job now ex after r g b j = claimable_job now ex after r g db j"
  by (simp add: claimable_job_def)

lemma statement_finds:
  assumes "j \<in> set (db_jobs db)" and "claimable_job now ex after r g db j"
  obtains k where "claimable_job_statement now ex after r g db = Some k"
    "k \<in> set (db_jobs db)" "claimable_job now ex after r g db k"
proof -
  have "j \<in> set (filter (claimable_job now ex after r g db) (db_jobs db))" using assms by simp
  then obtain k where "claimable_job_statement now ex after r g db = Some k"
    unfolding claimable_job_statement_def using first_by_exists by fast
  with next_jobD(1,2) [OF this] that show ?thesis by blast
qed

lemma claim_loop_serves:
  assumes ok: "store_ok (cs_db st)" and cap: "capacity req (cs_db st)" and start: "cs_after st = None"
    and pass: "cs_recovery_pass st \<longleftrightarrow> cr_prefer_recovery req \<or> cr_recovery_only req"
    and work: "work_in_pass req (cs_db st) p j"
    and srv: "\<And>k. k \<in> set (db_jobs (cs_db st)) \<Longrightarrow> waiting_job (j_status k) \<Longrightarrow> servable cfg req (cs_db st) k"
  shows "\<exists>c db'. claim_loop cfg req clk tok n st = (Inr (Some c), db')"
proof -
  have serves: "\<exists>c db'. claim_loop cfg req clk tok m s = (Inr (Some c), db')"
    if s: "cs_db s = cs_db st" "cs_after s = None"
      and k: "k \<in> set (db_jobs (cs_db st))" "claimable_job (cr_claim_time req) [] None (cs_recovery_pass s)
         (\<not> cs_recovery_pass s \<and> \<not> cr_recovery_only req) (cs_db st) k" for s k m
  proof -
    from k obtain x where x: "claimable_job_statement (cr_claim_time req) [] None (cs_recovery_pass s)
         (\<not> cs_recovery_pass s \<and> \<not> cr_recovery_only req) (cs_db st) = Some x"
      "x \<in> set (db_jobs (cs_db st))" "waiting_job (j_status x)"
      by (rule statement_finds) (simp add: claimable_job_def)
    have "\<exists>c db'. claim_iteration cfg req clk (tok m) s = Stop (Inr (Some c)) db'"
      by (rule claim_iteration_serves) (use ok cap s x srv in simp_all)
    then show ?thesis by (auto simp: claim_loop.simps)
  qed
  show ?thesis
  proof (cases "cs_recovery_pass st = p")
    case True
    with work show ?thesis by (intro serves [of st]) (auto simp: work_in_pass_def start)
  next
    case False
    with work pass have p: "\<not> p" "cs_recovery_pass st" "cr_allow_generation req" "\<not> cr_recovery_only req"
      by (auto simp: work_in_pass_def split: if_splits)
    let ?next = "st\<lparr>cs_recovery_pass := False, cs_after := None\<rparr>"
    show ?thesis
    proof (cases "\<exists>k \<in> set (db_jobs (cs_db st)). claimable_job (cr_claim_time req) [] None True False (cs_db st) k")
      case True
      then show ?thesis using p by (auto intro!: serves [of st] start)
    next
      case False
      then have "claimable_job_statement (cr_claim_time req) [] None True False (cs_db st) = None"
        by (auto simp: claimable_job_statement_def filter_empty_conv)
      with p start have "claim_iteration cfg req clk (tok n) st = Again ?next"
        by (simp add: claim_iteration_def Let_def)
      moreover have "\<exists>c db'. claim_loop cfg req clk tok (Suc n) ?next = (Inr (Some c), db')"
        using work p by (intro serves [of ?next j]) (simp_all add: work_in_pass_def)
      ultimately show ?thesis by (simp add: claim_loop.simps [of _ _ _ _ n])
    qed
  qed
qed

lemma clear_expired_frame:
  "db_workers (clear_expired_inactive_account_leases now db) = db_workers db"
  "db_artifacts (clear_expired_inactive_account_leases now db) = db_artifacts db"
  by (simp_all add: clear_expired_inactive_account_leases_def)

section \<open>Property\<close>

text \<open>
  Property C7. Progress: if every account on offer has a free slot, the worker process is
  the registered one, and every waiting job can be served by the accounts on offer and the
  artifacts of this worker, then a claim for which there is work in one of its passes
  returns a job; it does not come back empty and does not fail.
\<close>

theorem claim_serves_free_work:
  assumes "store_ok db" and "capacity req db" and "work_in_pass req db pass j"
    and "\<forall>k \<in> set (db_jobs db). waiting_job (j_status k) \<longrightarrow> servable cfg req db k"
  shows "\<exists>c db'. claim_next_job cfg req clk tok db = (Inr (Some c), db')"
proof -
  let ?db1 = "clear_expired_inactive_account_leases (cr_claim_time req) db"
  let ?st = "\<lparr>cs_db = ?db1, cs_committed = db,
    cs_recovery_pass = cr_prefer_recovery req \<or> cr_recovery_only req, cs_after = None\<rparr>"
  note frame = clear_expired_frame [of "cr_claim_time req" db]
  have cap: "capacity req ?db1"
    by (rule capacity_frame [OF _ frame(1) assms(2)])
       (simp add: clear_expired_inactive_account_leases_def db_leases_drop)
  have work: "work_in_pass req ?db1 pass j"
    using assms(3) claimable_job_frame [of ?db1 db] by (simp add: work_in_pass_def)
  have "\<exists>c db'. claim_loop cfg req clk (tok 4) 0 ?st = (Inr (Some c), db')"
    by (rule claim_loop_serves [OF _ _ _ _ , of _ _ pass j])
       (use assms(1,4) cap work servable_frame [OF frame] ok_clear_expired in simp_all)
  moreover have "cr_prefer_recovery req \<or> cr_recovery_only req \<or> cr_allow_generation req"
    using work by (auto simp: work_in_pass_def split: if_splits)
  moreover have "ensure_worker_process_current (cr_worker_id req) (cr_expected_instance req) db"
    using assms(2) by (simp add: capacity_def)
  ultimately show ?thesis
    by (auto simp: claim_next_job_first_attempt claim_next_job_once_def Let_def)
qed

theorem claim_serves_free_work_witness:
  "\<exists>c db'. claim_next_job demo_settings demo_request 100 (\<lambda>_ n. 500 + n) demo_db = (Inr (Some c), db')"
proof (rule claim_serves_free_work [OF demo_ok, of demo_request False demo_queued])
  show "capacity demo_request demo_db" by code_simp
  show "work_in_pass demo_request demo_db False demo_queued" by code_simp
  show "\<forall>k \<in> set (db_jobs demo_db). waiting_job (j_status k) \<longrightarrow> servable demo_settings demo_request demo_db k"
    by code_simp
qed

end
