(* ===== verification/Quota_Service.thy ===== *)
theory Quota_Service
  imports Queue_Rows
begin

text \<open>
  Daily quotas (\<open>services/quota_service.py\<close>): reservations that are taken before a request
  runs, committed when it succeeded and canceled when it did not, with the idempotency keys
  that make a replay free. The JSON file is the state; the file lock makes each operation
  atomic. The clock, the day, the time to live of a reservation and the limits are arguments.
\<close>

section \<open>Scopes, limits, state\<close>

datatype quota_scope = QFast | QThinking | QPro | QImage | QMusic | QVideo

fun quota_scope_value :: "quota_scope \<Rightarrow> string" where
  "quota_scope_value QFast = ''fast''"
| "quota_scope_value QThinking = ''thinking''"
| "quota_scope_value QPro = ''pro''"
| "quota_scope_value QImage = ''image''"
| "quota_scope_value QMusic = ''music''"
| "quota_scope_value QVideo = ''video''"

definition quota_scopes :: "quota_scope list" where
  "quota_scopes = [QFast, QThinking, QPro, QImage, QMusic, QVideo]"

definition normalize_scope :: "string \<Rightarrow> quota_scope" where
  "normalize_scope text =
     (case enum_of quota_scope_value quota_scopes (py_lower (py_strip text)) of
        Some s \<Rightarrow> s | None \<Rightarrow> QFast)"

record quota_settings =
  qs_enabled :: bool
  qs_limit :: "quota_scope \<Rightarrow> int"   \<comment> \<open>negative: no limit, also for a value that is no number\<close>

record quota_item =
  qi_identity :: string
  qi_scope :: quota_scope
  qi_keys :: "string list"
  qi_units :: int
  qi_created_at :: int

record quota_state =
  qs_date :: string
  qs_usage :: "string \<Rightarrow> quota_scope \<Rightarrow> int"
  qs_charged :: "string set"
  qs_reservations :: "(string \<times> quota_item) list"

datatype quota_error = QuotaExceeded quota_scope int

definition empty_quota :: "string \<Rightarrow> quota_state" where
  "empty_quota day = \<lparr>qs_date = day, qs_usage = \<lambda>_ _. 0, qs_charged = {}, qs_reservations = []\<rparr>"

text \<open>\<open>IMAGE_QUOTA_MAX_UNITS\<close> is 4; a count that is no number, or 0, is 1.\<close>

definition image_quota_units :: "int option \<Rightarrow> int" where
  "image_quota_units v = min 4 (max 1 (case v of None \<Rightarrow> 1 | Some n \<Rightarrow> if n = 0 then 1 else n))"

definition reservation_units :: "quota_item \<Rightarrow> int" where
  "reservation_units i = image_quota_units (Some (qi_units i))"

lemma image_quota_units_range: "1 \<le> image_quota_units v \<and> image_quota_units v \<le> 4"
  by (simp add: image_quota_units_def)

lemma reservation_units_pos [simp]: "0 \<le> reservation_units i"
  using image_quota_units_range [of "Some (qi_units i)"] by (simp add: reservation_units_def)

text \<open>
  The count of a request: the first image tool's, if it has one, else the request's. The
  inner option is the value read as a number, the outer one whether there is a value.
\<close>

definition image_quota_units_from_request ::
  "int option \<Rightarrow> (string \<times> int option option) list \<Rightarrow> int" where
  "image_quota_units_from_request n tools =
     image_quota_units
       (case find (\<lambda>(kind, m). py_strip kind = ''image_generation'') tools of
          Some (kind, Some m) \<Rightarrow> m
        | _ \<Rightarrow> n)"

definition used :: "quota_state \<Rightarrow> string \<Rightarrow> quota_scope \<Rightarrow> int" where
  "used st identity scope = max 0 (qs_usage st identity scope)"

definition pending_units :: "(string \<times> quota_item) list \<Rightarrow> string \<Rightarrow> quota_scope \<Rightarrow> int" where
  "pending_units items identity scope =
     sum_list (map (reservation_units \<circ> snd)
       (filter (\<lambda>(rid, i). qi_identity i = identity \<and> qi_scope i = scope) items))"

section \<open>The scope of a request\<close>

definition contains_text :: "string \<Rightarrow> string \<Rightarrow> bool" where
  "contains_text sub s \<longleftrightarrow> (\<exists>i \<in> set [0..<Suc (length s)]. take (length sub) (drop i s) = sub)"

text \<open>
  \<open>re.search(r"\bo[13](?:[-_]|$)", s)\<close>: the flag says that the character before is a word
  character; \<open>$\<close> also matches before a final newline.
\<close>

definition is_word_char :: "char \<Rightarrow> bool" where
  "is_word_char c \<longleftrightarrow>
     (let n = (of_char c :: nat)
      in 48 \<le> n \<and> n \<le> 57 \<or> 65 \<le> n \<and> n \<le> 90 \<or> n = 95 \<or> 97 \<le> n \<and> n \<le> 122 \<or>
         n \<in> {170, 178, 179, 181, 185, 186, 188, 189, 190} \<or> 192 \<le> n \<and> n \<noteq> 215 \<and> n \<noteq> 247)"

fun o_series :: "bool \<Rightarrow> string \<Rightarrow> bool" where
  "o_series after_word (c # d # s) =
     (\<not> after_word \<and> c = CHR ''o'' \<and> (d = CHR ''1'' \<or> d = CHR ''3'') \<and>
        (case s of [] \<Rightarrow> True
         | e # s' \<Rightarrow> e = CHR ''-'' \<or> e = CHR ''_'' \<or> e = CHR 0x0A \<and> s' = []) \<or>
      o_series (is_word_char c) (d # s))"
| "o_series after_word s = False"

definition quota_scope_for_request :: "string \<Rightarrow> string \<Rightarrow> bool \<Rightarrow> quota_scope" where
  "quota_scope_for_request endpoint model image_request =
     (let e = py_lower endpoint; m = py_lower model
      in if image_request \<or> contains_text ''image'' e \<or> contains_text ''/ppt/'' e \<or> contains_text ''/psd/'' e
         then QImage
         else if contains_text ''music'' e \<or> contains_text ''music'' m \<or> contains_text ''audio'' m then QMusic
         else if contains_text ''video'' e \<or> contains_text ''video'' m then QVideo
         else if contains_text ''thinking'' m \<or> contains_text ''reasoning'' m \<or> o_series False m then QThinking
         else if contains_text ''pro'' m then QPro
         else QFast)"

section \<open>Keys\<close>

definition dedupe_key :: "string \<Rightarrow> quota_scope \<Rightarrow> string \<Rightarrow> string" where
  "dedupe_key identity scope key =
     (let k = py_strip key
      in if k = '''' then ''''
         else identity @ ''|'' @ quota_scope_value scope @ ''|'' @ take 200 k)"

definition dedupe_keys_from_values :: "string list \<Rightarrow> string list" where
  "dedupe_keys_from_values values = dedup_first (filter (\<lambda>k. k \<noteq> '''') (map py_strip values))"

definition dedupe_keys :: "string \<Rightarrow> quota_scope \<Rightarrow> string \<Rightarrow> string list \<Rightarrow> string list" where
  "dedupe_keys identity scope key aliases =
     dedupe_keys_from_values (map (dedupe_key identity scope) (key # aliases))"

definition reservation_keys :: "quota_item \<Rightarrow> string list" where
  "reservation_keys i = dedupe_keys_from_values (qi_keys i)"

record quota_identity =
  id_id :: string
  id_name :: string
  id_role :: string

definition identity_id :: "quota_identity \<Rightarrow> string" where
  "identity_id ident =
     (case filter (\<lambda>v. v \<noteq> '''') (map py_strip [id_id ident, id_name ident, id_role ident]) of
        [] \<Rightarrow> ''anonymous''
      | v # _ \<Rightarrow> take 160 v)"

section \<open>Loading\<close>

definition active_reservations :: "int \<Rightarrow> int \<Rightarrow> quota_state \<Rightarrow> (string \<times> quota_item) list" where
  "active_reservations now ttl st =
     filter (\<lambda>(rid, i). now - ttl \<le> qi_created_at i) (qs_reservations st)"

definition load_quota :: "int \<Rightarrow> int \<Rightarrow> string \<Rightarrow> bool \<Rightarrow> quota_state \<Rightarrow> quota_state" where
  "load_quota now ttl today include_expired st =
     (if qs_date st \<noteq> today then empty_quota today
      else if include_expired then st
      else st\<lparr>qs_reservations := active_reservations now ttl st\<rparr>)"

definition add_usage :: "string \<Rightarrow> quota_scope \<Rightarrow> int \<Rightarrow> quota_state \<Rightarrow> quota_state" where
  "add_usage identity scope units st =
     st\<lparr>qs_usage := (qs_usage st)(identity := (qs_usage st identity)(scope := used st identity scope + units))\<rparr>"

definition charge_keys :: "string list \<Rightarrow> quota_state \<Rightarrow> quota_state" where
  "charge_keys keys st = st\<lparr>qs_charged := qs_charged st \<union> set keys\<rparr>"

definition already_charged :: "string list \<Rightarrow> quota_state \<Rightarrow> bool" where
  "already_charged keys st \<longleftrightarrow> (\<exists>k \<in> set keys. k \<in> qs_charged st)"

definition drop_reservation :: "string \<Rightarrow> quota_state \<Rightarrow> quota_state" where
  "drop_reservation rid st = st\<lparr>qs_reservations := filter (\<lambda>(r, i). r \<noteq> rid) (qs_reservations st)\<rparr>"

section \<open>Operations\<close>

record quota_reservation =
  qr_today :: string
  qr_id :: string
  qr_identity :: string
  qr_scope :: string
  qr_dedupe_key :: string
  qr_dedupe_keys :: "string list"
  qr_units :: int
  qr_cancelable :: bool
  qr_committed :: bool
  qr_canceled :: bool

text \<open>A reservation without an identifier: nothing to commit or to cancel.\<close>

definition free_reservation :: "string \<Rightarrow> int \<Rightarrow> quota_reservation" where
  "free_reservation today units = \<lparr>qr_today = today, qr_id = '''', qr_identity = '''', qr_scope = '''',
     qr_dedupe_key = '''', qr_dedupe_keys = [], qr_units = units, qr_cancelable = True,
     qr_committed = False, qr_canceled = False\<rparr>"

definition consume ::
  "quota_settings \<Rightarrow> int \<Rightarrow> int \<Rightarrow> string \<Rightarrow> quota_identity \<Rightarrow> string \<Rightarrow> string \<Rightarrow> quota_state \<Rightarrow>
   quota_error + quota_state" where
  "consume settings now ttl today ident scope_text key st =
     (let scope = normalize_scope scope_text; limit = qs_limit settings scope;
          identity = identity_id ident; k = dedupe_key identity scope key;
          loaded = load_quota now ttl today False st
      in if \<not> qs_enabled settings \<or> limit < 0 then Inr st
         else if k \<noteq> '''' \<and> k \<in> qs_charged loaded then Inr st
         else if limit \<le> used loaded identity scope then Inl (QuotaExceeded scope limit)
         else Inr (charge_keys (if k = '''' then [] else [k]) (add_usage identity scope 1 loaded)))"

definition reserve ::
  "quota_settings \<Rightarrow> int \<Rightarrow> int \<Rightarrow> string \<Rightarrow> string \<Rightarrow> quota_identity \<Rightarrow> string \<Rightarrow> string \<Rightarrow> string list \<Rightarrow>
   int option \<Rightarrow> quota_state \<Rightarrow> quota_error + (quota_reservation \<times> quota_state)" where
  "reserve settings now ttl today fresh ident scope_text key aliases n st =
     (let units = image_quota_units n; scope = normalize_scope scope_text;
          limit = qs_limit settings scope; identity = identity_id ident;
          keys = dedupe_keys identity scope key aliases;
          loaded = load_quota now ttl today False st;
          first = (case keys of [] \<Rightarrow> '''' | k # _ \<Rightarrow> k)
      in if \<not> qs_enabled settings \<or> limit < 0 then Inr (free_reservation '''' units, st)
         else if already_charged keys loaded then Inr (free_reservation today units, st)
         else case find (\<lambda>(rid, i). set keys \<inter> set (reservation_keys i) \<noteq> {}) (qs_reservations loaded) of
           Some (rid, i) \<Rightarrow>
             Inr (\<lparr>qr_today = today, qr_id = rid, qr_identity = identity,
                   qr_scope = quota_scope_value scope,
                   qr_dedupe_key = (case reservation_keys i of [] \<Rightarrow> first | k # _ \<Rightarrow> k),
                   qr_dedupe_keys = reservation_keys i, qr_units = reservation_units i,
                   qr_cancelable = False, qr_committed = False, qr_canceled = False\<rparr>, st)
         | None \<Rightarrow>
             if limit < used loaded identity scope + pending_units (qs_reservations loaded) identity scope + units
             then Inl (QuotaExceeded scope limit)
             else
               Inr (\<lparr>qr_today = today, qr_id = fresh, qr_identity = identity,
                     qr_scope = quota_scope_value scope, qr_dedupe_key = first, qr_dedupe_keys = keys,
                     qr_units = units, qr_cancelable = True, qr_committed = False, qr_canceled = False\<rparr>,
                    loaded\<lparr>qs_reservations := dict_set fresh
                      \<lparr>qi_identity = identity, qi_scope = scope, qi_keys = keys, qi_units = units,
                       qi_created_at = now\<rparr> (qs_reservations loaded)\<rparr>))"

text \<open>
  A commit of an active reservation turns its units into usage, once per key. A reservation
  that expired is committed late, under the limit; a refused late commit still writes the
  state without the expired reservations.
\<close>

definition commit_reservation ::
  "quota_settings \<Rightarrow> int \<Rightarrow> int \<Rightarrow> quota_reservation \<Rightarrow> quota_state \<Rightarrow> quota_error option \<times> quota_state" where
  "commit_reservation settings now ttl q st =
     (if qr_id q = '''' \<or> qs_date st \<noteq> qr_today q then (None, st)
      else
        let loaded = load_quota now ttl (qr_today q) False st;
            rest = drop_reservation (qr_id q) loaded
        in case map_of (qs_reservations loaded) (qr_id q) of
             Some i \<Rightarrow>
               (None,
                if already_charged (reservation_keys i) loaded then rest
                else charge_keys (reservation_keys i)
                       (add_usage (qi_identity i) (qi_scope i) (reservation_units i) rest))
           | None \<Rightarrow>
               if qr_identity q = '''' then (None, rest)
               else
                 let scope = normalize_scope (qr_scope q);
                     limit = qs_limit settings scope;
                     keys = dedupe_keys_from_values (qr_dedupe_key q # qr_dedupe_keys q);
                     late = image_quota_units (Some (qr_units q))
                 in if already_charged keys loaded then (None, rest)
                    else if 0 \<le> limit \<and>
                      limit < used loaded (qr_identity q) scope +
                              pending_units (qs_reservations rest) (qr_identity q) scope + late
                    then (Some (QuotaExceeded scope limit), rest)
                    else (None, charge_keys keys (add_usage (qr_identity q) scope late rest)))"

definition cancel_reservation :: "int \<Rightarrow> int \<Rightarrow> string \<Rightarrow> string \<Rightarrow> quota_state \<Rightarrow> quota_state" where
  "cancel_reservation now ttl today rid st =
     (let loaded = load_quota now ttl today False st
      in if rid = '''' then st
         else if rid \<in> fst ` set (qs_reservations loaded) then drop_reservation rid loaded
         else st)"

text \<open>The two methods of a \<open>QuotaReservation\<close>; each takes effect at most once.\<close>

definition commit ::
  "quota_settings \<Rightarrow> int \<Rightarrow> int \<Rightarrow> quota_reservation \<Rightarrow> quota_state \<Rightarrow>
   quota_error option \<times> quota_reservation \<times> quota_state" where
  "commit settings now ttl q st =
     (if qr_committed q \<or> qr_canceled q \<or> qr_id q = '''' then (None, q, st)
      else case commit_reservation settings now ttl q st of
             (Some e, st') \<Rightarrow> (Some e, q, st')
           | (None, st') \<Rightarrow> (None, q\<lparr>qr_committed := True\<rparr>, st'))"

definition cancel ::
  "int \<Rightarrow> int \<Rightarrow> quota_reservation \<Rightarrow> quota_state \<Rightarrow> quota_reservation \<times> quota_state" where
  "cancel now ttl q st =
     (if qr_committed q \<or> qr_canceled q \<or> qr_id q = '''' then (q, st)
      else if \<not> qr_cancelable q then (q\<lparr>qr_canceled := True\<rparr>, st)
      else (q\<lparr>qr_canceled := True\<rparr>, cancel_reservation now ttl (qr_today q) (qr_id q) st))"

text \<open>
  Reconciliation at start-up: the reservations of the queue's tasks (owner and idempotency
  key) are committed, expired or not; other expired ones are dropped. The second component
  of the accumulator counts the commits.
\<close>

definition reconcile_one ::
  "int \<Rightarrow> int \<Rightarrow> string set \<Rightarrow> string \<times> quota_item \<Rightarrow> quota_state \<times> nat \<Rightarrow> quota_state \<times> nat" where
  "reconcile_one now ttl task_keys entry acc =
     (case (entry, acc) of ((rid, i), (st, n)) \<Rightarrow>
        if task_keys \<inter> set (reservation_keys i) = {}
        then (if qi_created_at i < now - ttl then (drop_reservation rid st, n) else (st, n))
        else (drop_reservation rid
                (if already_charged (reservation_keys i) st then st
                 else charge_keys (reservation_keys i)
                        (add_usage (qi_identity i) (qi_scope i) (reservation_units i) st)),
              n + 1))"

definition reconcile_task_reservations ::
  "int \<Rightarrow> int \<Rightarrow> string \<Rightarrow> (string \<times> string) list \<Rightarrow> quota_state \<Rightarrow> nat \<times> quota_state" where
  "reconcile_task_reservations now ttl today tasks st =
     (let task_keys = set (map (\<lambda>(owner, key). dedupe_key (py_strip owner) QImage (py_strip key))
                         (filter (\<lambda>(owner, key). py_strip owner \<noteq> '''' \<and> py_strip key \<noteq> '''') tasks)) - {''''};
          loaded = load_quota now ttl today True st;
          (st', n) = fold (reconcile_one now ttl task_keys) (qs_reservations loaded) (loaded, 0)
      in if task_keys = {} then (0, st)
         else (n, if n = 0 \<and> length (qs_reservations st') = length (qs_reservations loaded) then st else st'))"

end
