(* ===== verification/Quota_Correct.thy ===== *)
theory Quota_Correct
  imports Quota_Service
begin

text \<open>
  Reservations, commits and cancellations never let an identity use and reserve more than
  its daily limit, whatever expires in between; and a key is charged at most once a day.
\<close>

section \<open>Pending units\<close>

definition counted :: "string \<Rightarrow> quota_scope \<Rightarrow> quota_item \<Rightarrow> int" where
  "counted identity scope i =
     (if qi_identity i = identity \<and> qi_scope i = scope then reservation_units i else 0)"

lemma counted_nonneg [simp]: "0 \<le> counted identity scope i"
  by (simp add: counted_def)

lemma pending_Nil [simp]: "pending_units [] a s = 0"
  by (simp add: pending_units_def)

lemma pending_Cons [simp]: "pending_units (x # xs) a s = counted a s (snd x) + pending_units xs a s"
  by (cases x) (simp add: pending_units_def counted_def)

lemma pending_append: "pending_units (xs @ ys) a s = pending_units xs a s + pending_units ys a s"
  by (induction xs) simp_all

lemma pending_nonneg [simp]: "0 \<le> pending_units xs a s"
  by (induction xs) simp_all

lemma pending_filter: "pending_units (filter p xs) a s \<le> pending_units xs a s"
proof (induction xs)
  case (Cons x xs)
  then show ?case using counted_nonneg [of a s "snd x"] by (auto intro: add_increasing)
qed simp

lemma drop_absent: "k \<notin> fst ` set xs \<Longrightarrow> filter (\<lambda>(r, i). r \<noteq> k) xs = xs"
  by (induction xs) auto

lemma pending_drop:
  "distinct (map fst xs) \<Longrightarrow> map_of xs k = Some i \<Longrightarrow>
   pending_units (filter (\<lambda>(r, i). r \<noteq> k) xs) a s + counted a s i = pending_units xs a s"
proof (induction xs)
  case (Cons x xs)
  obtain r v where x: "x = (r, v)" by (cases x)
  from Cons x show ?case by (cases "r = k") (simp_all add: drop_absent)
qed simp

lemma pending_replace:
  "distinct (map fst xs) \<Longrightarrow>
   pending_units (map (\<lambda>(k', v'). if k' = k then (k, v) else (k', v')) xs) a s
     \<le> pending_units xs a s + counted a s v"
proof (induction xs)
  case (Cons x xs)
  obtain r w where x: "x = (r, w)" by (cases x)
  show ?case
  proof (cases "r = k")
    case True
    with Cons.prems x have "k \<notin> fst ` set xs" by simp
    then have "map (\<lambda>(k', v'). if k' = k then (k, v) else (k', v')) xs = xs"
      by (intro map_idI) (auto simp: image_iff)
    with True x show ?thesis by simp
  next
    case False
    with Cons x show ?thesis by simp
  qed
qed simp

lemma pending_dict_set:
  "distinct (map fst xs) \<Longrightarrow> pending_units (dict_set k v xs) a s \<le> pending_units xs a s + counted a s v"
  by (simp add: dict_set_def pending_replace pending_append)

section \<open>The invariant\<close>

definition active_pending :: "int \<Rightarrow> int \<Rightarrow> quota_state \<Rightarrow> string \<Rightarrow> quota_scope \<Rightarrow> int" where
  "active_pending now ttl st = pending_units (active_reservations now ttl st)"

definition quota_ok :: "quota_settings \<Rightarrow> int \<Rightarrow> int \<Rightarrow> quota_state \<Rightarrow> bool" where
  "quota_ok settings ttl now st \<longleftrightarrow>
     distinct (map fst (qs_reservations st)) \<and>
     (\<forall>a s. 0 \<le> qs_limit settings s \<longrightarrow> used st a s + active_pending now ttl st a s \<le> qs_limit settings s)"

lemma quota_ok_empty: "quota_ok settings ttl now (empty_quota day)"
  by (simp add: quota_ok_def empty_quota_def used_def active_pending_def active_reservations_def)

lemma active_idem [simp]:
  "active_reservations now ttl (st\<lparr>qs_reservations := active_reservations now ttl st\<rparr>) =
   active_reservations now ttl st"
  by (simp add: active_reservations_def split_def)

lemma load_quota_ok:
  assumes "quota_ok settings ttl now st"
  shows "quota_ok settings ttl now (load_quota now ttl today False st)"
    and "active_reservations now ttl (load_quota now ttl today False st) =
      qs_reservations (load_quota now ttl today False st)"
  using assms quota_ok_empty
  by (auto simp: load_quota_def quota_ok_def used_def active_pending_def)
     (auto simp: active_reservations_def distinct_map_filter empty_quota_def)

text \<open>A state whose stored reservations are all active.\<close>

lemma quota_okI:
  assumes "distinct (map fst (qs_reservations st))"
    and "\<And>a s. 0 \<le> qs_limit settings s \<Longrightarrow>
      used st a s + pending_units (qs_reservations st) a s \<le> qs_limit settings s"
  shows "quota_ok settings ttl now st"
  unfolding quota_ok_def active_pending_def
proof (intro conjI assms(1) allI impI)
  fix a s assume "0 \<le> qs_limit settings s"
  from assms(2) [OF this, of a] pending_filter [of "\<lambda>(r, i). now - ttl \<le> qi_created_at i" "qs_reservations st" a s]
  show "used st a s + pending_units (active_reservations now ttl st) a s \<le> qs_limit settings s"
    by (simp add: active_reservations_def)
qed

lemma loadedD:
  assumes "quota_ok settings ttl now st" and "loaded = load_quota now ttl today False st"
  shows "distinct (map fst (qs_reservations loaded))"
    and "0 \<le> qs_limit settings s \<Longrightarrow>
      used loaded a s + pending_units (qs_reservations loaded) a s \<le> qs_limit settings s"
  using load_quota_ok [OF assms(1), of today] unfolding assms(2) [symmetric]
  by (auto simp: quota_ok_def active_pending_def)

lemma drop_reservation_simps [simp]:
  "qs_reservations (drop_reservation k st) = filter (\<lambda>(r, i). r \<noteq> k) (qs_reservations st)"
  "qs_usage (drop_reservation k st) = qs_usage st" "used (drop_reservation k st) a s = used st a s"
  "qs_date (drop_reservation k st) = qs_date st" "qs_charged (drop_reservation k st) = qs_charged st"
  by (simp_all add: drop_reservation_def used_def)

lemma charge_simps [simp]:
  "qs_reservations (charge_keys ks st) = qs_reservations st" "used (charge_keys ks st) a s = used st a s"
  "qs_reservations (add_usage i c u st) = qs_reservations st"
  "qs_usage (charge_keys ks st) = qs_usage st" "qs_date (charge_keys ks st) = qs_date st"
  "qs_date (add_usage i c u st) = qs_date st" "qs_charged (add_usage i c u st) = qs_charged st"
  "qs_charged (charge_keys ks st) = qs_charged st \<union> set ks"
  by (simp_all add: charge_keys_def add_usage_def used_def)

lemma used_add_usage:
  "0 \<le> u \<Longrightarrow> used (add_usage i c u st) a s = used st a s + (if a = i \<and> s = c then u else 0)"
  by (simp add: add_usage_def used_def)

lemma drop_reservation_ok:
  assumes "quota_ok settings ttl now st" and "loaded = load_quota now ttl today False st"
  shows "quota_ok settings ttl now (drop_reservation k loaded)"
proof (rule quota_okI)
  show "distinct (map fst (qs_reservations (drop_reservation k loaded)))"
    using loadedD(1) [OF assms] by (simp add: distinct_map_filter)
  fix a s assume "0 \<le> qs_limit settings s"
  from loadedD(2) [OF assms this, of a] pending_filter [of "\<lambda>(r, i). r \<noteq> k" "qs_reservations loaded" a s]
  show "used (drop_reservation k loaded) a s + pending_units (qs_reservations (drop_reservation k loaded)) a s
      \<le> qs_limit settings s"
    by simp
qed

section \<open>The operations keep it\<close>

lemma reserve_ok:
  assumes ok: "quota_ok settings ttl now st"
    and r: "reserve settings now ttl today fresh ident scope_text key aliases n st = Inr (q, st')"
  shows "quota_ok settings ttl now st'"
proof -
  let ?L = "load_quota now ttl today False st"
  let ?a = "identity_id ident" and ?s = "normalize_scope scope_text" and ?u = "image_quota_units n"
  note L = loadedD [OF ok refl [where t = "load_quota now ttl today False st"]]
  have "quota_ok settings ttl now (?L\<lparr>qs_reservations := dict_set fresh i (qs_reservations ?L)\<rparr>)"
    if lim: "\<not> qs_limit settings ?s < used ?L ?a ?s + pending_units (qs_reservations ?L) ?a ?s + ?u"
      and i: "qi_identity i = ?a" "qi_scope i = ?s" "qi_units i = ?u" for i
  proof (rule quota_okI)
    show "distinct (map fst (qs_reservations (?L\<lparr>qs_reservations := dict_set fresh i (qs_reservations ?L)\<rparr>)))"
      using L(1) by (simp add: distinct_dict_set)
    fix a s assume s: "0 \<le> qs_limit settings s"
    have u: "reservation_units i = ?u"
      using i(3) image_quota_units_range [of n] by (simp add: reservation_units_def image_quota_units_def)
    have "used ?L a s + (pending_units (qs_reservations ?L) a s + counted a s i) \<le> qs_limit settings s"
      using L(2) [OF s, of a] lim i u by (auto simp: counted_def)
    with pending_dict_set [OF L(1), of fresh i a s]
    show "used (?L\<lparr>qs_reservations := dict_set fresh i (qs_reservations ?L)\<rparr>) a s +
        pending_units (qs_reservations (?L\<lparr>qs_reservations := dict_set fresh i (qs_reservations ?L)\<rparr>)) a s
        \<le> qs_limit settings s"
      by (simp add: used_def)
  qed
  with r ok show ?thesis
    by (auto simp: reserve_def Let_def split: if_splits option.splits)
qed

lemma commit_reservation_ok:
  assumes ok: "quota_ok settings ttl now st"
  shows "quota_ok settings ttl now (snd (commit_reservation settings now ttl q st))"
proof -
  let ?L = "load_quota now ttl (qr_today q) False st"
  let ?R = "drop_reservation (qr_id q) ?L"
  note L = loadedD [OF ok refl [where t = "load_quota now ttl (qr_today q) False st"]]
  note rest = drop_reservation_ok [OF ok refl]
  have active: "quota_ok settings ttl now (charge_keys ks (add_usage (qi_identity i) (qi_scope i) (reservation_units i) ?R))"
    if "map_of (qs_reservations ?L) (qr_id q) = Some i" for i ks
  proof (rule quota_okI)
    fix a s assume "0 \<le> qs_limit settings s"
    from L(2) [OF this, of a] pending_drop [OF L(1) that, of a s]
    show "used (charge_keys ks (add_usage (qi_identity i) (qi_scope i) (reservation_units i) ?R)) a s +
        pending_units (qs_reservations (charge_keys ks (add_usage (qi_identity i) (qi_scope i) (reservation_units i) ?R))) a s
        \<le> qs_limit settings s"
      by (auto simp: used_add_usage counted_def)
  qed (use L(1) in \<open>simp add: distinct_map_filter\<close>)
  have late: "quota_ok settings ttl now (charge_keys ks (add_usage b c u ?R))"
    if "\<not> (0 \<le> qs_limit settings c \<and> qs_limit settings c < used ?L b c + pending_units (qs_reservations ?R) b c + u)"
      "0 \<le> u" for ks b c u
  proof (rule quota_okI)
    fix a s assume s: "0 \<le> qs_limit settings s"
    from L(2) [OF s, of a] pending_filter [of "\<lambda>(r, i). r \<noteq> qr_id q" "qs_reservations ?L" a s] that s
    show "used (charge_keys ks (add_usage b c u ?R)) a s +
        pending_units (qs_reservations (charge_keys ks (add_usage b c u ?R))) a s \<le> qs_limit settings s"
      by (auto simp: used_add_usage)
  qed (use L(1) in \<open>simp add: distinct_map_filter\<close>)
  have "0 \<le> image_quota_units v" for v using image_quota_units_range [of v] by simp
  with ok rest active late show ?thesis
    by (simp add: commit_reservation_def Let_def split: option.split)
qed

lemma cancel_reservation_ok:
  assumes "quota_ok settings ttl now st"
  shows "quota_ok settings ttl now (cancel_reservation now ttl today rid st)"
  using assms drop_reservation_ok [OF assms refl] by (simp add: cancel_reservation_def Let_def)

lemma quota_ok_later:
  assumes "quota_ok settings ttl now st" and "now \<le> now'"
  shows "quota_ok settings ttl now' st"
proof -
  have "active_reservations now' ttl st =
      filter (\<lambda>(r, i). now' - ttl \<le> qi_created_at i) (active_reservations now ttl st)"
    using assms(2) by (auto simp: active_reservations_def intro: filter_cong)
  then have "active_pending now' ttl st a s \<le> active_pending now ttl st a s" for a s
    by (simp add: active_pending_def pending_filter)
  with assms(1) show ?thesis by (fastforce simp: quota_ok_def intro: order_trans [OF add_left_mono])
qed


section \<open>The service as a system\<close>

text \<open>The clock moves on, and requests reserve, commit and cancel in any order.\<close>

inductive quota_step :: "quota_settings \<Rightarrow> int \<Rightarrow> int \<times> quota_state \<Rightarrow> int \<times> quota_state \<Rightarrow> bool"
  for settings :: quota_settings and ttl :: int where
  tick: "now \<le> now' \<Longrightarrow> quota_step settings ttl (now, st) (now', st)"
| reserved: "reserve settings now ttl today fresh ident scope_text key aliases n st = Inr (q, st') \<Longrightarrow>
    quota_step settings ttl (now, st) (now, st')"
| committed: "commit settings now ttl q st = (e, q', st') \<Longrightarrow>
    quota_step settings ttl (now, st) (now, st')"
| canceled: "cancel now ttl q st = (q', st') \<Longrightarrow> quota_step settings ttl (now, st) (now, st')"

lemma quota_step_ok:
  assumes "quota_step settings ttl s t" and "quota_ok settings ttl (fst s) (snd s)"
  shows "quota_ok settings ttl (fst t) (snd t)"
  using assms
proof cases
  case (tick now now' st)
  with assms(2) show ?thesis by (simp add: quota_ok_later)
next
  case (reserved now today fresh ident scope_text key aliases n st q st')
  with assms(2) show ?thesis by (simp add: reserve_ok)
next
  case (committed now q st e q' st')
  then have "st' = st \<or> st' = snd (commit_reservation settings now ttl q st)"
    by (auto simp: commit_def split: prod.splits option.splits if_splits)
  with committed(1,2) assms(2) commit_reservation_ok show ?thesis by auto
next
  case (canceled now q st q' st')
  then have "st' = st \<or> st' = cancel_reservation now ttl (qr_today q) (qr_id q) st"
    by (auto simp: cancel_def split: if_splits)
  with canceled(1,2) assms(2) cancel_reservation_ok show ?thesis by auto
qed

interpretation quota: safety_system "\<lambda>s. \<exists>day. snd s = empty_quota day" "quota_step settings ttl"
  "\<lambda>s. quota_ok settings ttl (fst s) (snd s)" for settings ttl
  by unfold_locales (auto simp: quota_ok_empty intro: quota_step_ok)

section \<open>Properties\<close>

text \<open>
  Property C16. The daily limit holds: in every state the service reaches from an empty day,
  over reservations, commits (late ones included), cancellations and expiry, what an
  identity has used of a limited scope and what it has reserved and may still commit stay
  within the limit together.
\<close>

theorem quota_limit_holds:
  assumes "(quota_step settings ttl)\<^sup>*\<^sup>* (t, empty_quota day) (now, st)" and "0 \<le> qs_limit settings s"
  shows "used st a s + active_pending now ttl st a s \<le> qs_limit settings s"
proof -
  have "quota_ok settings ttl (fst (now, st)) (snd (now, st))"
    by (rule quota.reachable_invariant [OF _ assms(1)]) auto
  with assms(2) show ?thesis by (simp add: quota_ok_def)
qed

definition demo_quota_settings :: quota_settings where
  "demo_quota_settings = \<lparr>qs_enabled = True, qs_limit = (\<lambda>s. if s = QImage then 3 else -1)\<rparr>"

definition demo_identity :: quota_identity where
  "demo_identity = \<lparr>id_id = ''u'', id_name = '''', id_role = ''''\<rparr>"

definition demo_reserve :: "quota_error + (quota_reservation \<times> quota_state)" where
  "demo_reserve = reserve demo_quota_settings 10 900 ''d'' ''r1'' demo_identity ''image'' ''k'' [] (Some 2)
     (empty_quota ''d'')"

definition demo_reserved :: "quota_reservation \<times> quota_state" where
  "demo_reserved = (case demo_reserve of Inr p \<Rightarrow> p | Inl _ \<Rightarrow> (free_reservation '''' 1, empty_quota ''d''))"

lemma demo_reserve: "demo_reserve = Inr (fst demo_reserved, snd demo_reserved)"
proof -
  have "case demo_reserve of Inr p \<Rightarrow> True | Inl e \<Rightarrow> False" by code_simp
  then obtain p where p: "demo_reserve = Inr p" by (auto split: sum.splits)
  have "demo_reserved = p" unfolding demo_reserved_def p sum.case by (rule refl)
  with p show ?thesis by (simp only: prod.collapse)
qed

theorem quota_limit_holds_witness:
  "active_pending 10 900 (snd demo_reserved) ''u'' QImage = 2 \<and>
   used (snd demo_reserved) ''u'' QImage + active_pending 10 900 (snd demo_reserved) ''u'' QImage \<le> 3"
proof -
  have "quota_step demo_quota_settings 900 (10, empty_quota ''d'') (10, snd demo_reserved)"
    by (rule quota_step.reserved [OF demo_reserve [unfolded demo_reserve_def]])
  then have "(quota_step demo_quota_settings 900)\<^sup>*\<^sup>* (10, empty_quota ''d'') (10, snd demo_reserved)"
    by (rule r_into_rtranclp [where r = "quota_step demo_quota_settings 900"])
  from quota_limit_holds [OF this, of QImage "''u''"]
  have "used (snd demo_reserved) ''u'' QImage + active_pending 10 900 (snd demo_reserved) ''u'' QImage \<le> 3"
    by (simp add: demo_quota_settings_def)
  moreover have "active_pending 10 900 (snd demo_reserved) ''u'' QImage = 2" by code_simp
  ultimately show ?thesis by blast
qed

text \<open>A commit whose keys were charged before adds nothing.\<close>

lemma commit_charged:
  assumes "\<And>i. (qr_id q, i) \<in> set (qs_reservations st) \<Longrightarrow> already_charged (reservation_keys i) st"
    and "already_charged (dedupe_keys_from_values (qr_dedupe_key q # qr_dedupe_keys q)) st"
  shows "qs_usage (snd (commit_reservation settings now ttl q st)) = qs_usage st"
proof (cases "qs_date st = qr_today q")
  case True
  let ?L = "load_quota now ttl (qr_today q) False st"
  have L: "?L = st\<lparr>qs_reservations := active_reservations now ttl st\<rparr>"
    using True by (simp add: load_quota_def)
  have charged: "already_charged ks ?L = already_charged ks st" for ks by (simp add: L already_charged_def)
  show ?thesis
  proof (cases "map_of (qs_reservations ?L) (qr_id q)")
    case None
    with assms(2) charged show ?thesis by (simp add: commit_reservation_def Let_def L)
  next
    case (Some i)
    then have "(qr_id q, i) \<in> set (qs_reservations st)"
      by (auto simp: L active_reservations_def dest: map_of_SomeD)
    with Some assms(1) charged show ?thesis by (simp add: commit_reservation_def Let_def L)
  qed
qed (simp add: commit_reservation_def)

lemma reserve_charged:
  assumes "already_charged (dedupe_keys (identity_id ident) (normalize_scope scope_text) key aliases) st"
    and "qs_date st = today"
  shows "\<exists>r. qr_id r = '''' \<and>
    reserve settings now ttl today fresh ident scope_text key aliases n st = Inr (r, st)"
proof -
  have "already_charged ks (load_quota now ttl today False st) = already_charged ks st" for ks
    using assms(2) by (simp add: load_quota_def already_charged_def)
  with assms(1) show ?thesis by (simp add: reserve_def Let_def free_reservation_def)
qed



end
