(* ===== verification/Queue_Worker.thy ===== *)
theory Queue_Worker
  imports Queue_Registry Queue_Delivery Retry_Policy Claim_Scheduler
begin

text \<open>
  The worker manager, \<open>services/image_queue/worker.py\<close>: the slots it counts, one round of its
  dispatcher (sweeps, plan, claim, hand-over to a pool), the run of a claim, and how an
  exception of the run settles the claim. A database call that fails is not modelled; the
  executor of the job, the account service and the callbacks are arguments.
\<close>

section \<open>Account slots\<close>

definition compute_remaining_account_slots :: "nat \<Rightarrow> int \<Rightarrow> int option \<Rightarrow> int" where
  "compute_remaining_account_slots available concurrency occupied =
     (case occupied of None \<Rightarrow> 0
      | Some n \<Rightarrow> max 0 (int available * max 1 concurrency - max 0 n))"

definition account_lease_released_stages :: "job_stage list" where
  "account_lease_released_stages = [STransforming, SSaving, SSuccess, SFailed, SCanceled]"

definition occupied_in_process_account_slots ::
  "claimed_job list \<Rightarrow> (uuid \<Rightarrow> job_stage option) \<Rightarrow> uuid list option \<Rightarrow> nat" where
  "occupied_in_process_account_slots claims stages candidate_ids =
     length (filter (\<lambda>c. 0 \<le> c_account_slot c \<and>
       (case candidate_ids of None \<Rightarrow> True | Some ids \<Rightarrow> \<exists>a \<in> set ids. c_account_id c = Some a) \<and>
       (case stages (j_id (c_job c)) of None \<Rightarrow> j_stage (c_job c) | Some s \<Rightarrow> s)
         \<notin> set account_lease_released_stages) claims)"

definition occupied_account_slots_for_capacity :: "int \<Rightarrow> int option \<Rightarrow> int option" where
  "occupied_account_slots_for_capacity in_process lease_count =
     (case lease_count of None \<Rightarrow> None | Some n \<Rightarrow> Some (max (max 0 in_process) (max 0 n)))"

definition count_leases_for_candidates :: "time \<Rightarrow> account_candidate list \<Rightarrow> queue_db \<Rightarrow> int option" where
  "count_leases_for_candidates now candidates db =
     Some (int (count_account_leases now (Some (dedup_first (map ac_account_id candidates))) db))"

definition current_image_account_concurrency :: "int option \<Rightarrow> int \<Rightarrow> int" where
  "current_image_account_concurrency configured fallback =
     max 1 (case configured of
              Some n \<Rightarrow> if n \<noteq> 0 then n else max 1 (if fallback = 0 then 1 else fallback)
            | None \<Rightarrow> max 1 (if fallback = 0 then 1 else fallback))"

definition allow_generation_claim :: "bool \<Rightarrow> int \<Rightarrow> bool" where
  "allow_generation_claim occupancy_allows remaining \<longleftrightarrow> occupancy_allows \<and> 0 < remaining"

section \<open>The manager\<close>

text \<open>
  The claims handed to the pools and not yet reaped, the stage noted for a job, the claims
  whose settlement failed, and whether the worker is active or has met a fatal error.
\<close>

record manager =
  mg_futures :: "claimed_job list"
  mg_stages :: "uuid \<Rightarrow> job_stage option"
  mg_stranded :: "claimed_job list"
  mg_active :: bool
  mg_fatal :: bool

record manager_config =
  mc_worker_id :: string
  mc_generation_slot_cap :: int
  mc_recovery_thread_cap :: int
  mc_pending_claim_cap :: int
  mc_pending_ttl :: int
  mc_terminal_retention :: int

definition active_recovery_count :: "manager \<Rightarrow> nat" where
  "active_recovery_count m = length (filter (\<lambda>c. is_recovery_stage (j_stage (c_job c))) (mg_futures m))"

definition active_generation_count :: "manager \<Rightarrow> nat" where
  "active_generation_count m = length (filter (\<lambda>c. \<not> is_recovery_stage (j_stage (c_job c))) (mg_futures m))"

text \<open>The claims that still heartbeat: the running ones and the stranded ones of other jobs.\<close>

definition active_claims :: "manager \<Rightarrow> claimed_job list" where
  "active_claims m =
     mg_futures m @ filter (\<lambda>c. j_id (c_job c) \<notin> (j_id \<circ> c_job) ` set (mg_futures m)) (mg_stranded m)"

definition set_fatal_error :: "manager \<Rightarrow> manager" where
  "set_fatal_error m = m\<lparr>mg_active := False, mg_fatal := True\<rparr>"

definition reap_completed :: "(claimed_job \<Rightarrow> bool) \<Rightarrow> manager \<Rightarrow> manager" where
  "reap_completed done_claim m =
     m\<lparr>mg_futures := filter (\<lambda>c. \<not> done_claim c) (mg_futures m),
       mg_stages := (\<lambda>i. if \<exists>c \<in> set (mg_futures m). done_claim c \<and> j_id (c_job c) = i then None
                         else mg_stages m i)\<rparr>"

section \<open>Settling a claim\<close>

text \<open>
  What the code asks of an exception: its text, the message the retry policy keeps of it,
  whether it is the runtime guard's \<open>ClaimMaxRuntimeExceeded\<close>, how
  \<open>classify_image_exception\<close> classifies it, the attempts it carries, and the attempt record
  the manager would write for it.
\<close>

record claim_error =
  ce_text :: string
  ce_message :: msg
  ce_timeout :: bool
  ce_failure :: image_failure
  ce_attempts :: "image_attempt list"
  ce_attempt :: image_attempt

definition stage_attempts :: "image_job \<Rightarrow> job_stage \<Rightarrow> int" where
  "stage_attempts j stage =
     max 1 (int (if stage \<in> {SResolving, SDownloading} then j_download_attempts j
                 else if stage \<in> {STransforming, SSaving} then j_save_attempts j
                 else j_generate_attempts j))"

definition stored_image_attempt_count :: "claimed_job \<Rightarrow> queue_db \<Rightarrow> nat" where
  "stored_image_attempt_count c db =
     (case job_row db (j_id (c_job c)) of None \<Rightarrow> 0 | Some j \<Rightarrow> length (rp_attempts (j_result_payload j)))"

definition persist_claim_exception_attempt ::
  "time \<Rightarrow> claimed_job \<Rightarrow> image_job option \<Rightarrow> claim_error \<Rightarrow> nat option \<Rightarrow> queue_db \<Rightarrow> queue_db" where
  "persist_claim_exception_attempt clk c current e stored_before db =
     (if ce_attempts e \<noteq> [] then db
      else if (case stored_before of
                 Some n \<Rightarrow> n < stored_image_attempt_count c db
               | None \<Rightarrow> (case current of None \<Rightarrow> False
                         | Some j \<Rightarrow> rp_attempts (j_result_payload j) \<noteq> []))
      then db
      else snd (append_image_attempts clk c [ce_attempt e] db))"

text \<open>
  The account's result; \<open>recorded\<close> says whether the account service could write it. The
  usage of a paid job is written once, under the key of the job.
\<close>

definition record_claim_account_result ::
  "time \<Rightarrow> bool \<Rightarrow> claimed_job \<Rightarrow> image_job option \<Rightarrow> queue_db \<Rightarrow> queue_db" where
  "record_claim_account_result clk recorded c current db =
     (let j = (case current of None \<Rightarrow> c_job c | Some k \<Rightarrow> k);
          quota = (j_quota_consumed j \<and> \<not> j_quota_accounted j)
      in if j_lease_version j \<noteq> c_lease_version c then db
         else if c_account_slot c < 0 \<and> c_account_id c = None then db
         else if c_account_slot c < 0 \<and> \<not> quota then db
         else case c_account_id c of
           Some account \<Rightarrow>
             if recorded \<and> quota then snd (mark_quota_accounted clk (j_id (c_job c)) account db)
             else if quota
             then snd (record_quota_accounting_failure clk (j_id (c_job c))
                         (Some ''account result could not be persisted'') db)
             else db
         | None \<Rightarrow>
             if quota
             then snd (record_quota_accounting_failure clk (j_id (c_job c))
                         (Some ''account result could not be persisted'') db)
             else db)"

definition handle_claim_exception ::
  "retry_settings \<Rightarrow> time \<Rightarrow> time \<Rightarrow> bool \<Rightarrow> claimed_job \<Rightarrow> image_job option \<Rightarrow> claim_error \<Rightarrow>
   job_stage \<Rightarrow> nat option \<Rightarrow> queue_db \<Rightarrow> queue_db" where
  "handle_claim_exception rs clk jitter recorded c current e initial_stage stored_before db =
     (let j = (case current of None \<Rightarrow> c_job c | Some k \<Rightarrow> k)
      in if is_cancel_requested (j_task_id (c_job c)) db \<and> \<not> j_quota_consumed j
         then snd (release_claim clk c False db)
         else
           let db1 = persist_claim_exception_attempt clk c current e stored_before db;
               stage = (case current of None \<Rightarrow> initial_stage | Some k \<Rightarrow> j_stage k);
               decision = retry_decide rs stage (stage_attempts j stage) (ce_failure e) (ce_message e) clk jitter;
               db2 = record_claim_account_result clk recorded c current db1
           in if ce_timeout e \<and> (j_quota_consumed j \<or> download_or_save_stage stage)
              then snd (fail_timed_out_claim clk clk c ''image_claim_timeout'' (MText (ce_text e))
                          (j_quota_consumed j) db2)
              else case rd_next_retry_at decision of
                     Some at' \<Rightarrow>
                       if rd_retry decision
                       then snd (schedule_retry clk c (rd_error_code decision) (rd_error_message decision) at' db2)
                       else snd (fail_job clk c (rd_error_code decision) (rd_error_message decision) db2)
                   | None \<Rightarrow> snd (fail_job clk c (rd_error_code decision) (rd_error_message decision) db2))"

definition handle_claim_success :: "time \<Rightarrow> bool \<Rightarrow> claimed_job \<Rightarrow> queue_db \<Rightarrow> queue_db" where
  "handle_claim_success clk recorded c db =
     record_claim_account_result clk recorded c (job_row db (j_id (c_job c))) db"

text \<open>
  How the executor ends (the account is prepared in the same \<open>try\<close>): it returns, it reports a
  local artifact that is not there any more, or it raises anything else.
\<close>

datatype execution = Returned | ArtifactUnavailable claim_error | Raised claim_error

definition run_claim ::
  "retry_settings \<Rightarrow> time \<Rightarrow> time \<Rightarrow> bool \<Rightarrow> (queue_db \<Rightarrow> execution \<times> queue_db) \<Rightarrow> claimed_job \<Rightarrow>
   queue_db \<Rightarrow> queue_db" where
  "run_claim rs clk jitter recorded execute c db =
     (if is_cancel_requested (j_task_id (c_job c)) db \<and> \<not> j_quota_consumed (c_job c)
      then snd (release_claim clk c False db)
      else
        let before = stored_image_attempt_count c db
        in case execute db of
             (Returned, db1) \<Rightarrow> handle_claim_success clk recorded c db1
           | (ArtifactUnavailable e, db1) \<Rightarrow>
               (let db2 = (if stored_image_attempt_count c db1 \<le> before
                           then persist_claim_exception_attempt clk c None e None db1 else db1)
                in snd (schedule_retry clk c ''local_artifact_unavailable'' (MText (ce_text e)) clk db2))
           | (Raised e, db1) \<Rightarrow>
               handle_claim_exception rs clk jitter recorded c (job_row db1 (j_id (c_job c))) e
                 (j_stage (c_job c)) (Some before) db1)"

section \<open>The dispatcher\<close>

text \<open>The usage of finished paid jobs that is not written yet.\<close>

definition reconcile_job :: "time \<Rightarrow> (uuid \<Rightarrow> bool) \<Rightarrow> image_job \<Rightarrow> queue_db \<Rightarrow> queue_db" where
  "reconcile_job clk recorded j db =
     (case j_account_id j of
        None \<Rightarrow> snd (record_quota_accounting_failure clk (j_id j)
                      (Some ''image job has no account id for quota reconciliation'') db)
      | Some account \<Rightarrow>
          if recorded (j_id j) then snd (mark_quota_accounted clk (j_id j) account db)
          else snd (record_quota_accounting_failure clk (j_id j)
                      (Some ''account result could not be persisted during reconciliation'') db))"

definition reconcile_unaccounted_quotas :: "time \<Rightarrow> (uuid \<Rightarrow> bool) \<Rightarrow> queue_db \<Rightarrow> queue_db" where
  "reconcile_unaccounted_quotas clk recorded db =
     fold (reconcile_job clk recorded) (list_unaccounted_terminal_quota_jobs 100 db) db"

text \<open>
  The sweeps of a round: expiry, and, when the recovery interval is over, the reclaim of dead
  leases that spares the manager's own claims, quota reconciliation, the purge with the
  cleanup callback's answer, and the local recovery callback.
\<close>

definition recovery_sweep ::
  "queue_settings \<Rightarrow> manager_config \<Rightarrow> time \<Rightarrow> (uuid \<Rightarrow> bool) \<Rightarrow>
   (artifact_descriptor list \<Rightarrow> bool) option \<Rightarrow> (queue_db \<Rightarrow> queue_db) \<Rightarrow> manager \<Rightarrow> queue_db \<Rightarrow> queue_db" where
  "recovery_sweep cfg mc clk recorded cleanup local_recovery m db =
     (let db1 = snd (reclaim_expired_leases cfg clk clk (active_claims m) False False db);
          db2 = reconcile_unaccounted_quotas clk recorded db1;
          (purged, db3) = purge_terminal_tasks cfg (mc_worker_id mc) True (mc_terminal_retention mc) clk db2;
          cleanup_ok = (pt_artifacts purged = [] \<or>
                        (case cleanup of None \<Rightarrow> False | Some f \<Rightarrow> f (pt_artifacts purged)))
      in local_recovery
           (if cleanup_ok \<and> pt_task_ids purged \<noteq> []
            then snd (finalize_terminal_tasks cfg clk (pt_task_ids purged) (mc_worker_id mc) True db3)
            else db3))"

definition dispatch_sweeps ::
  "queue_settings \<Rightarrow> manager_config \<Rightarrow> time \<Rightarrow> bool \<Rightarrow> (uuid \<Rightarrow> bool) \<Rightarrow>
   (artifact_descriptor list \<Rightarrow> bool) option \<Rightarrow> (queue_db \<Rightarrow> queue_db) \<Rightarrow> manager \<Rightarrow> queue_db \<Rightarrow> queue_db" where
  "dispatch_sweeps cfg mc clk recovery_due recorded cleanup local_recovery m db =
     (let db1 = (if mc_pending_ttl mc \<le> 0 then db
                 else snd (expire_pending_tasks clk clk (mc_pending_ttl mc) db))
      in if recovery_due then recovery_sweep cfg mc clk recorded cleanup local_recovery m db1 else db1)"

definition remaining_account_slots ::
  "time \<Rightarrow> int \<Rightarrow> account_candidate list \<Rightarrow> manager \<Rightarrow> queue_db \<Rightarrow> int" where
  "remaining_account_slots clk concurrency candidates m db =
     compute_remaining_account_slots (length candidates) concurrency
       (occupied_account_slots_for_capacity
          (int (occupied_in_process_account_slots (mg_futures m) (mg_stages m)
                  (Some (map ac_account_id candidates))))
          (count_leases_for_candidates clk candidates db))"

text \<open>What the round may claim: the plan of the scheduler within the pools and the slots.\<close>

definition round_plan ::
  "manager_config \<Rightarrow> resource_decision \<Rightarrow> resource_decision \<Rightarrow> manager \<Rightarrow> claim_dispatch_plan" where
  "round_plan mc generation recovery m =
     plan_claim_dispatch generation recovery (int (active_generation_count m))
       (mc_pending_claim_cap mc - int (length (mg_futures m))) (Some (mc_generation_slot_cap mc))"

definition round_allows ::
  "manager_config \<Rightarrow> resource_decision \<Rightarrow> resource_decision \<Rightarrow> bool \<Rightarrow> int \<Rightarrow> manager \<Rightarrow> bool \<times> bool" where
  "round_allows mc generation recovery live_open remaining m =
     (let plan = round_plan mc generation recovery m
      in (allow_generation_claim (pl_allow_generation plan \<and> live_open) remaining,
          pl_allow_recovery plan \<and> int (active_recovery_count m) < mc_recovery_thread_cap mc))"

definition round_report ::
  "manager_config \<Rightarrow> resource_decision \<Rightarrow> resource_decision \<Rightarrow> manager \<Rightarrow> worker_report \<Rightarrow> worker_report" where
  "round_report mc generation recovery m r =
     (let plan = round_plan mc generation recovery m
      in r\<lparr>wr_worker_active := mg_active m,
           wr_effective_concurrency := max 0 (pl_generation_limit plan),
           wr_pause_reason := first_text [pl_pause_reason plan, rd_reason generation, rd_reason recovery]\<rparr>)"

text \<open>
  A claim goes to the pool of its stage; one that the live gate (asked again after the claim)
  or a full recovery pool refuses is given back with its attempt refunded.
\<close>

definition place_claim :: "manager_config \<Rightarrow> time \<Rightarrow> bool \<Rightarrow> claimed_job \<Rightarrow> manager \<times> queue_db \<Rightarrow> manager \<times> queue_db" where
  "place_claim mc clk live_after c s =
     (case s of (m, db) \<Rightarrow>
        let stage = j_stage (c_job c); recovery = is_recovery_stage stage
        in if \<not> recovery \<and> \<not> live_after \<or>
              recovery \<and> mc_recovery_thread_cap mc \<le> int (active_recovery_count m)
           then (m, snd (release_claim clk c True db))
           else (m\<lparr>mg_futures := mg_futures m @ [c],
                   mg_stages := (mg_stages m)(j_id (c_job c) :=
                     or_else (mg_stages m (j_id (c_job c))) (Some stage))\<rparr>, db))"

definition dispatch_claim ::
  "queue_settings \<Rightarrow> manager_config \<Rightarrow> resource_decision \<Rightarrow> resource_decision \<Rightarrow> bool \<Rightarrow> bool \<Rightarrow>
   worker_report \<Rightarrow> claim_request \<Rightarrow> time \<Rightarrow> (nat \<Rightarrow> nat \<Rightarrow> uuid) \<Rightarrow> manager \<times> queue_db \<Rightarrow> manager \<times> queue_db" where
  "dispatch_claim cfg mc generation recovery live_open live_after report base clk tok s =
     (case s of (m, db) \<Rightarrow>
        let db1 = snd (reclaim_expired_inactive_account_leases clk db);
            remaining = remaining_account_slots clk (cr_account_concurrency base) (cr_candidates base) m db1;
            (allow_generation, allow_recovery) = round_allows mc generation recovery live_open remaining m
        in case update_worker_state cfg clk (mc_worker_id mc) (round_report mc generation recovery m report) db1 of
             Inl e \<Rightarrow> (set_fatal_error m, db1)
           | Inr db2 \<Rightarrow>
               if mc_pending_claim_cap mc \<le> int (length (mg_futures m)) \<or>
                  \<not> allow_generation \<and> \<not> allow_recovery
               then (m, db2)
               else
                 let req = base\<lparr>cr_worker_id := mc_worker_id mc, cr_claim_time := clk,
                     cr_allow_generation := allow_generation,
                     cr_recovery_only := allow_recovery \<and> \<not> allow_generation,
                     cr_prefer_recovery := allow_recovery, cr_allow_unowned := False,
                     cr_expected_instance := wr_process_instance_id report\<rparr>
                 in case claim_next_job cfg req clk tok db2 of
                      (Inl (WorkerIdentityConflict w), db3) \<Rightarrow> (set_fatal_error m, db3)
                    | (Inl e, db3) \<Rightarrow> (m, db3)
                    | (Inr None, db3) \<Rightarrow> (m, db3)
                    | (Inr (Some c), db3) \<Rightarrow> place_claim mc clk live_after c (m, db3))"

text \<open>A whole round; a worker that is not active does nothing but reap.\<close>

record round_input =
  ri_generation :: resource_decision
  ri_recovery :: resource_decision
  ri_live_open :: bool
  ri_live_after :: bool
  ri_report :: worker_report
  ri_request :: claim_request
  ri_recovery_due :: bool
  ri_recorded :: "uuid \<Rightarrow> bool"
  ri_cleanup :: "(artifact_descriptor list \<Rightarrow> bool) option"
  ri_local_recovery :: "queue_db \<Rightarrow> queue_db"
  ri_finished :: "claimed_job \<Rightarrow> bool"

definition dispatch_once ::
  "queue_settings \<Rightarrow> manager_config \<Rightarrow> round_input \<Rightarrow> time \<Rightarrow> (nat \<Rightarrow> nat \<Rightarrow> uuid) \<Rightarrow>
   manager \<times> queue_db \<Rightarrow> manager \<times> queue_db" where
  "dispatch_once cfg mc ri clk tok s =
     (case s of (m0, db) \<Rightarrow>
        let m = reap_completed (ri_finished ri) m0
        in if \<not> mg_active m then (m, db)
           else dispatch_claim cfg mc (ri_generation ri) (ri_recovery ri) (ri_live_open ri) (ri_live_after ri)
                  (ri_report ri) (ri_request ri) clk tok
                  (m, dispatch_sweeps cfg mc clk (ri_recovery_due ri) (ri_recorded ri) (ri_cleanup ri)
                        (ri_local_recovery ri) m db))"

text \<open>
  The heartbeat thread: the row of the worker (not after a fatal error), then the leases of
  all active claims.
\<close>

definition heartbeat_round ::
  "queue_settings \<Rightarrow> manager_config \<Rightarrow> time \<Rightarrow> worker_report \<Rightarrow> (claimed_job \<Rightarrow> bool) \<Rightarrow>
   manager \<times> queue_db \<Rightarrow> manager \<times> queue_db" where
  "heartbeat_round cfg mc clk report done_claim s =
     (case s of (m0, db) \<Rightarrow>
        let m1 = reap_completed done_claim m0;
            (m, db1) =
              (if mg_fatal m1 then (m1, db)
               else case update_worker_state cfg clk (mc_worker_id mc) report db of
                      Inl e \<Rightarrow> (set_fatal_error m1, db)
                    | Inr db1 \<Rightarrow> (m1, db1))
        in (m, snd (heartbeat_claims cfg clk clk (mc_worker_id mc) (active_claims m) db1)))"

end
