(* ===== verification/Queue_Worker_Correct.thy ===== *)
theory Queue_Worker_Correct
  imports Queue_Worker Queue_System
begin

text \<open>
  What the worker manager guarantees: everything it does is a run of the queue's step
  relation; a run of a claim that fails gives the claim up; the exception decides the outcome
  of the job; and a round stays within the pools, the slots and the resource decisions.
\<close>

section \<open>The manager only makes steps of the queue\<close>

abbreviation queue_run :: "queue_settings \<Rightarrow> nat \<Rightarrow> queue_db \<Rightarrow> queue_db \<Rightarrow> bool" where
  "queue_run cfg N \<equiv> (queue_step cfg N)\<^sup>*\<^sup>*"

named_theorems runs \<open>operations of the worker as runs of the queue\<close>

lemma run_step: "queue_run cfg N a b \<Longrightarrow> queue_step cfg N b c \<Longrightarrow> queue_run cfg N a c"
  by (rule rtranclp.rtrancl_into_rtrancl)

lemma run_append_attempts [runs]:
  "queue_run cfg N a b \<Longrightarrow> queue_run cfg N a (snd (append_image_attempts clk c xs b))"
  using run_step [OF _ queue_step.worked [where w = "WAppendAttempts xs"]] by simp

lemma run_release [runs]: "queue_run cfg N a b \<Longrightarrow> queue_run cfg N a (snd (release_claim clk c refund b))"
  using run_step [OF _ queue_step.worked [where w = "WRelease refund"]] by simp

lemma run_retry [runs]: "queue_run cfg N a b \<Longrightarrow> queue_run cfg N a (snd (schedule_retry clk c code m t b))"
  using run_step [OF _ queue_step.worked [where w = "WRetry code m t"]] by simp

lemma run_fail [runs]: "queue_run cfg N a b \<Longrightarrow> queue_run cfg N a (snd (fail_job clk c code m b))"
  using run_step [OF _ queue_step.worked [where w = "WFail code m"]] by simp

lemma run_timeout [runs]:
  "queue_run cfg N a b \<Longrightarrow> queue_run cfg N a (snd (fail_timed_out_claim clk now c code m q b))"
  using run_step [OF _ queue_step.worked [where w = "WTimeout now code m q"]] by simp

lemmas run_quota [runs] = run_step [OF _ queue_step.quota_accounted] run_step [OF _ queue_step.quota_failed]
lemmas run_sweeps [runs] = run_step [OF _ queue_step.expired] run_step [OF _ queue_step.reclaimed]
  run_step [OF _ queue_step.purged] run_step [OF _ queue_step.finalized]
  run_step [OF _ queue_step.idle_leases_cleared] run_step [OF _ queue_step.heartbeat]

lemma run_persist [runs]:
  "queue_run cfg N a b \<Longrightarrow> queue_run cfg N a (persist_claim_exception_attempt clk c current e before b)"
  by (simp add: persist_claim_exception_attempt_def run_append_attempts)

lemma run_record [runs]:
  "queue_run cfg N a b \<Longrightarrow> queue_run cfg N a (record_claim_account_result clk recorded c current b)"
  by (simp add: record_claim_account_result_def Let_def run_quota split: option.split)

lemma run_exception [runs]:
  "queue_run cfg N a b \<Longrightarrow>
   queue_run cfg N a (handle_claim_exception rs clk jitter recorded c current e stage before b)"
  by (simp add: handle_claim_exception_def Let_def runs split: option.split)

lemma run_reconcile [runs]:
  assumes "queue_run cfg N a b"
  shows "queue_run cfg N a (reconcile_unaccounted_quotas clk recorded b)"
proof -
  have "queue_run cfg N a (fold (reconcile_job clk recorded) js b)" for js
    using assms by (induction js arbitrary: b) (simp_all add: reconcile_job_def runs split: option.split)
  then show ?thesis by (simp add: reconcile_unaccounted_quotas_def)
qed

lemma run_recovery_sweep [runs]:
  assumes "queue_run cfg N a b" and "\<And>d. queue_run cfg N d (recovery d)"
  shows "queue_run cfg N a (recovery_sweep cfg mc clk recorded cleanup recovery m b)"
proof -
  let ?db2 = "reconcile_unaccounted_quotas clk recorded
    (snd (reclaim_expired_leases cfg clk clk (active_claims m) False False b))"
  obtain p d where p: "purge_terminal_tasks cfg (mc_worker_id mc) True (mc_terminal_retention mc) clk ?db2 = (p, d)"
    by fastforce
  have "queue_run cfg N a (snd (purge_terminal_tasks cfg (mc_worker_id mc) True (mc_terminal_retention mc) clk ?db2))"
    by (intro runs assms(1))
  then have "queue_run cfg N a (if q then snd (finalize_terminal_tasks cfg clk ids w True d) else d)" for q ids w
    by (simp add: p run_sweeps)
  from rtranclp_trans [OF this assms(2)] show ?thesis
    by (simp add: recovery_sweep_def Let_def p)
qed

lemma run_sweeps_round [runs]:
  assumes "queue_run cfg N a b" and "\<And>d. queue_run cfg N d (recovery d)"
  shows "queue_run cfg N a (dispatch_sweeps cfg mc clk due recorded cleanup recovery m b)"
  unfolding dispatch_sweeps_def Let_def
  by (simp add: run_recovery_sweep [OF _ assms(2)] run_sweeps assms(1))

lemma run_registration:
  "queue_run cfg N a b \<Longrightarrow> update_worker_state cfg now worker r b = Inr d \<Longrightarrow> queue_run cfg N a d"
  by (rule run_step [OF _ queue_step.registered])

lemma run_claiming:
  assumes "queue_run cfg N a b" and "claim_next_job cfg req clk tok b = (r, d)"
    and "max 1 (cr_account_concurrency req) \<le> int N"
  shows "queue_run cfg N a d"
  using run_step [OF assms(1) queue_step.claimed [OF assms(3)]] assms(2) by (metis snd_conv)

lemma run_place:
  "queue_run cfg N a (snd s) \<Longrightarrow> queue_run cfg N a (snd (place_claim mc clk live c s))"
  by (cases s) (simp add: place_claim_def Let_def runs)

text \<open>The three ends of a round: a conflict, no claim, or a claim that is placed.\<close>

lemma dispatch_claim_cases:
  obtains (conflict) "dispatch_claim cfg mc g r live_open live_after report base clk tok (m, db) =
      (set_fatal_error m, snd (reclaim_expired_inactive_account_leases clk db))"
  | (idle) db2 where "update_worker_state cfg clk (mc_worker_id mc) (round_report mc g r m report)
      (snd (reclaim_expired_inactive_account_leases clk db)) = Inr db2"
    "dispatch_claim cfg mc g r live_open live_after report base clk tok (m, db) = (m, db2)"
  | (claim) db2 allow_generation allow_recovery req res db3 where
    "update_worker_state cfg clk (mc_worker_id mc) (round_report mc g r m report)
      (snd (reclaim_expired_inactive_account_leases clk db)) = Inr db2"
    "(allow_generation, allow_recovery) = round_allows mc g r live_open
       (remaining_account_slots clk (cr_account_concurrency base) (cr_candidates base) m
          (snd (reclaim_expired_inactive_account_leases clk db))) m"
    "int (length (mg_futures m)) < mc_pending_claim_cap mc" "allow_generation \<or> allow_recovery"
    "req = base\<lparr>cr_worker_id := mc_worker_id mc, cr_claim_time := clk,
       cr_allow_generation := allow_generation, cr_recovery_only := allow_recovery \<and> \<not> allow_generation,
       cr_prefer_recovery := allow_recovery, cr_allow_unowned := False,
       cr_expected_instance := wr_process_instance_id report\<rparr>"
    "claim_next_job cfg req clk tok db2 = (res, db3)"
    "dispatch_claim cfg mc g r live_open live_after report base clk tok (m, db) =
       (case res of Inr (Some c) \<Rightarrow> place_claim mc clk live_after c (m, db3)
        | Inl (WorkerIdentityConflict w) \<Rightarrow> (set_fatal_error m, db3) | _ \<Rightarrow> (m, db3))"
proof -
  let ?db1 = "snd (reclaim_expired_inactive_account_leases clk db)"
  obtain ag ar where a: "(ag, ar) = round_allows mc g r live_open
       (remaining_account_slots clk (cr_account_concurrency base) (cr_candidates base) m ?db1) m"
    by (metis surj_pair)
  let ?req = "base\<lparr>cr_worker_id := mc_worker_id mc, cr_claim_time := clk,
       cr_allow_generation := ag, cr_recovery_only := ar \<and> \<not> ag,
       cr_prefer_recovery := ar, cr_allow_unowned := False,
       cr_expected_instance := wr_process_instance_id report\<rparr>"
  show thesis
  proof (cases "update_worker_state cfg clk (mc_worker_id mc) (round_report mc g r m report) ?db1")
    case (Inl e)
    then show thesis by (intro conflict) (simp add: dispatch_claim_def a [symmetric])
  next
    case (Inr db2)
    obtain res db3 where c: "claim_next_job cfg ?req clk tok db2 = (res, db3)" by fastforce
    show thesis
    proof (cases "mc_pending_claim_cap mc \<le> int (length (mg_futures m)) \<or> \<not> ag \<and> \<not> ar")
      case True
      with Inr show thesis by (intro idle) (simp_all add: dispatch_claim_def a [symmetric])
    next
      case False
      with Inr c show thesis
        by (intro claim [OF Inr a _ _ refl c])
           (auto simp: dispatch_claim_def a [symmetric] split: sum.split option.split queue_error.split)
    qed
  qed
qed

lemma run_dispatch_claim:
  assumes "queue_run cfg N a (snd s)" and "max 1 (cr_account_concurrency base) \<le> int N"
  shows "queue_run cfg N a (snd (dispatch_claim cfg mc g r live_open live_after report base clk tok s))"
proof -
  obtain m db where s: "s = (m, db)" by fastforce
  have 1: "queue_run cfg N a (snd (reclaim_expired_inactive_account_leases clk db))"
    using assms(1) s by (simp add: run_sweeps)
  show ?thesis
    unfolding s
  proof (cases rule: dispatch_claim_cases [of cfg mc g r live_open live_after report base clk tok m db])
    case conflict
    with 1 show "queue_run cfg N a (snd (dispatch_claim cfg mc g r live_open live_after report base clk tok (m, db)))"
      by simp
  next
    case (idle db2)
    with run_registration [OF 1 idle(1)]
    show "queue_run cfg N a (snd (dispatch_claim cfg mc g r live_open live_after report base clk tok (m, db)))"
      by simp
  next
    case (claim db2 ag ar req res db3)
    have "queue_run cfg N a db3"
      using run_claiming [OF run_registration [OF 1 claim(1)] claim(6)] claim(5) assms(2) by simp
    then show "queue_run cfg N a (snd (dispatch_claim cfg mc g r live_open live_after report base clk tok (m, db)))"
      unfolding claim(7)
      by (auto split: sum.split option.split queue_error.split intro!: run_place)
  qed
qed


section \<open>A failed run gives the claim up\<close>

lemma quota_ops_claim:
  "claimed_job_row db c = None \<Longrightarrow> claimed_job_row (snd (mark_quota_accounted clk i a db)) c = None"
  "claimed_job_row db c = None \<Longrightarrow> claimed_job_row (snd (record_quota_accounting_failure clk i er db)) c = None"
  by (auto simp: mark_quota_accounted_def record_quota_accounting_failure_def claimed_job_row_def
      find_None_iff upd_job_def upd_rows_def holds_claim_def Let_def split: option.splits)

lemma settling_ends:
  assumes "store_ok db"
  shows "claimed_job_row (snd (release_claim clk c refund db)) c = None"
    and "claimed_job_row (snd (schedule_retry clk c code m t db)) c = None"
    and "claimed_job_row (snd (fail_job clk c code m db)) c = None"
    and "claimed_job_row (snd (fail_timed_out_claim clk now c code m q db)) c = None"
  using run_worker_op_ends [OF assms, of clk "WRelease refund" c] run_worker_op_ends [OF assms, of clk "WRetry code m t" c]
    run_worker_op_ends [OF assms, of clk "WFail code m" c] run_worker_op_ends [OF assms, of clk "WTimeout now code m q" c]
  by simp_all

lemma persist_ok: "store_ok db \<Longrightarrow> store_ok (persist_claim_exception_attempt clk c current e before db)"
  by (simp add: persist_claim_exception_attempt_def append_image_attempts_ok)

lemma record_ok: "store_ok db \<Longrightarrow> store_ok (record_claim_account_result clk recorded c current db)"
  by (auto simp: record_claim_account_result_def Let_def
      intro: mark_quota_accounted_ok record_quota_accounting_failure_ok split: option.split)

lemma exception_ok:
  "store_ok db \<Longrightarrow> store_ok (handle_claim_exception rs clk jitter recorded c current e stage before db)"
  by (auto simp: handle_claim_exception_def Let_def split: option.split
      intro!: release_claim_ok fail_timed_out_claim_ok schedule_retry_ok fail_job_ok record_ok persist_ok)

lemma exception_ends:
  assumes "store_ok db"
  shows "claimed_job_row (handle_claim_exception rs clk jitter recorded c current e stage before db) c = None"
  using settling_ends [OF assms] settling_ends [OF record_ok [OF persist_ok [OF assms]]]
  by (simp add: handle_claim_exception_def Let_def split: option.split)

text \<open>
  Property C8. A claim is never left behind: whatever state the executor leaves (as long as it
  is a well-formed store), after the run of a claim the store is well formed and the claim no
  longer holds its job, except when the executor returned normally and itself left it held.
\<close>

theorem run_claim_settles:
  assumes "store_ok db" and "store_ok (snd (execute db))"
  shows "store_ok (run_claim rs clk jitter recorded execute c db) \<and>
    (claimed_job_row (run_claim rs clk jitter recorded execute c db) c \<noteq> None \<longrightarrow>
       fst (execute db) = Returned \<and> claimed_job_row (snd (execute db)) c \<noteq> None)"
proof (cases "is_cancel_requested (j_task_id (c_job c)) db \<and> \<not> j_quota_consumed (c_job c)")
  case True
  then show ?thesis
    using settling_ends(1) [OF assms(1)] release_claim_ok [OF assms(1)] by (simp add: run_claim_def)
next
  case False
  obtain x d where x: "execute db = (x, d)" by fastforce
  then have d: "store_ok d" using assms(2) by simp
  have returned: "claimed_job_row (record_claim_account_result clk recorded c k d) c = None"
    if "claimed_job_row d c = None" for k
    using that by (auto simp: record_claim_account_result_def Let_def quota_ops_claim split: option.split)
  show ?thesis
  proof (cases x)
    case Returned
    then show ?thesis
      using False x record_ok [OF d] returned [of "job_row d (j_id (c_job c))"]
      by (cases "claimed_job_row d c") (auto simp: run_claim_def handle_claim_success_def Let_def)
  next
    case (ArtifactUnavailable e)
    show ?thesis
      unfolding run_claim_def if_not_P [OF False] x ArtifactUnavailable
      using settling_ends(2) [OF d] settling_ends(2) [OF persist_ok [OF d]]
        schedule_retry_ok [OF d] schedule_retry_ok [OF persist_ok [OF d]]
      by (simp add: Let_def)
  next
    case (Raised e)
    show ?thesis
      unfolding run_claim_def if_not_P [OF False] x Raised
      using exception_ends [OF d] exception_ok [OF d] by (simp add: Let_def)
  qed
qed

section \<open>The outcome of a failed claim\<close>

text \<open>What the bookkeeping before the settlement leaves of a row: all that the outcome reads.\<close>

definition same_work :: "image_job \<Rightarrow> image_job \<Rightarrow> bool" where
  "same_work j k \<longleftrightarrow>
     j_id k = j_id j \<and> j_task_id k = j_task_id j \<and> j_status k = j_status j \<and> j_stage k = j_stage j \<and>
     j_quota_consumed k = j_quota_consumed j \<and> j_image_urls k = j_image_urls j \<and>
     j_lease_token k = j_lease_token j \<and> j_lease_version k = j_lease_version j \<and>
     j_lease_owner k = j_lease_owner j"

lemma same_work_refl [simp]: "same_work j j"
  by (simp add: same_work_def)

lemma same_work_updates [simp]:
  "same_work j (j\<lparr>j_result_payload := p, j_updated_at := u\<rparr>)"
  "same_work j (j\<lparr>j_quota_accounted := b, j_quota_accounting_error := er, j_updated_at := u\<rparr>)"
  "same_work j (j\<lparr>j_quota_accounting_attempts := n, j_quota_accounting_error := er, j_updated_at := u\<rparr>)"
  by (simp_all add: same_work_def)

lemma same_work_trans: "same_work i j \<Longrightarrow> same_work j k \<Longrightarrow> same_work i k"
  by (simp add: same_work_def)

lemma same_work_holds: "same_work j k \<Longrightarrow> holds_claim c k = holds_claim c j"
  by (simp add: same_work_def holds_claim_def)

lemma claimed_row_upd_job:
  assumes "claimed_job_row db c = Some j" and "\<And>k. same_work k (f k)"
  shows "\<exists>k. claimed_job_row (upd_job i f db) c = Some k \<and> same_work j k"
proof -
  note keeps = same_work_holds [OF assms(2), of c]
  have "\<exists>k. find (holds_claim c) (upd_rows (\<lambda>j. j_id j = i) f js) = Some k \<and> same_work j k"
    if "find (holds_claim c) js = Some j" for js
    using that assms(2) keeps
    by (induction js) (auto simp: upd_rows_def split: if_splits)
  with assms(1) show ?thesis by (simp add: claimed_job_row_def db_jobs_upd_job)
qed

lemma claimed_row_log [simp]: "claimed_job_row (log_event t i k a fs ts d db) c = claimed_job_row db c"
  by (simp add: claimed_job_row_def)

lemma persist_keeps_claim:
  assumes "claimed_job_row db c = Some j"
  shows "\<exists>k. claimed_job_row (persist_claim_exception_attempt clk c current e before db) c = Some k \<and> same_work j k"
proof -
  have "\<exists>k. claimed_job_row (snd (append_image_attempts clk c [x] db)) c = Some k \<and> same_work j k" for x
    using assms by (auto simp: append_image_attempts_def Let_def intro!: claimed_row_upd_job)
  then show ?thesis using assms by (simp add: persist_claim_exception_attempt_def)
qed

lemma quota_ops_keep_claim:
  assumes "claimed_job_row db c = Some j"
  shows "\<exists>k. claimed_job_row (snd (mark_quota_accounted clk i a db)) c = Some k \<and> same_work j k"
    and "\<exists>k. claimed_job_row (snd (record_quota_accounting_failure clk i er db)) c = Some k \<and> same_work j k"
  using assms
  by (auto simp: mark_quota_accounted_def record_quota_accounting_failure_def Let_def
      intro!: claimed_row_upd_job split: option.split)

lemma record_keeps_claim:
  assumes "claimed_job_row db c = Some j"
  shows "\<exists>k. claimed_job_row (record_claim_account_result clk recorded c current db) c = Some k \<and> same_work j k"
  using assms quota_ops_keep_claim [OF assms]
  by (simp add: record_claim_account_result_def Let_def split: option.split)

text \<open>The row each way of settling leaves.\<close>

lemma settled_rows:
  assumes ok: "store_ok db" and row: "claimed_job_row db c = Some j"
  shows "job_row (snd (release_claim clk c refund db)) (j_id j) =
      Some (release_row clk (is_cancel_requested (j_task_id j) db) refund j)"
    and "job_row (snd (schedule_retry clk c code m t db)) (j_id j) = Some (retry_row clk code m t j)"
    and "job_row (snd (fail_job clk c code m db)) (j_id j) = Some (fail_row clk code m j)"
    and "job_row (snd (fail_timed_out_claim clk now c code m q db)) (j_id j) = Some (timed_out_row now code m q j)"
proof -
  have "j \<in> set (db_jobs db)" using row by (auto dest: claimed_job_rowD)
  note unique = job_row_unique [OF store_ok_exceptI [OF ok] this]
  show "job_row (snd (release_claim clk c refund db)) (j_id j) =
      Some (release_row clk (is_cancel_requested (j_task_id j) db) refund j)"
    using row unique by (simp add: release_claim_def Let_def job_row_upd_job is_cancel_requested_def)
  show "job_row (snd (schedule_retry clk c code m t db)) (j_id j) = Some (retry_row clk code m t j)"
    "job_row (snd (fail_job clk c code m db)) (j_id j) = Some (fail_row clk code m j)"
    "job_row (snd (fail_timed_out_claim clk now c code m q db)) (j_id j) = Some (timed_out_row now code m q j)"
    using row unique
    by (simp_all add: schedule_retry_def fail_job_def fail_timed_out_claim_def timed_out_row_found [OF ok]
        Let_def job_row_upd_job)
qed

text \<open>What becomes of the job of a failed claim.\<close>

definition failed_claim_outcome ::
  "retry_settings \<Rightarrow> time \<Rightarrow> bool \<Rightarrow> claim_error \<Rightarrow> image_job \<Rightarrow> image_job \<Rightarrow> bool" where
  "failed_claim_outcome rs now canceled e j k \<longleftrightarrow>
     (if canceled \<and> \<not> j_quota_consumed j then j_status k = JCanceled
      else if ce_timeout e \<and> (j_quota_consumed j \<or> download_or_save_stage (j_stage j))
      then j_status k = JFailed \<and> j_error_code k = Some ''image_claim_timeout''
      else if transient_failure rs (j_stage j) (ce_failure e) \<and>
              stage_attempts j (j_stage j) < stage_budget rs (j_stage j)
      then j_status k = JRetryWait \<and> j_stage k = j_stage j \<and> now \<le> j_available_at k \<and>
           j_error_code k = Some (if_code (ce_failure e))
      else j_status k = JFailed \<and> j_error_code k = Some (if_code (ce_failure e)))"

lemma stage_attempts_pos: "1 \<le> stage_attempts j s"
  by (simp add: stage_attempts_def)

lemma retry_decide_fields:
  assumes "0 \<le> jitter" and "1 \<le> n"
  shows "rd_error_code (retry_decide rs s n f m now jitter) = if_code f"
    and "transient_failure rs s f \<and> n < stage_budget rs s \<Longrightarrow>
      \<exists>t. rd_retry (retry_decide rs s n f m now jitter) \<and>
        rd_next_retry_at (retry_decide rs s n f m now jitter) = Some t \<and> now \<le> t"
    and "\<not> (transient_failure rs s f \<and> n < stage_budget rs s) \<Longrightarrow>
      rd_next_retry_at (retry_decide rs s n f m now jitter) = None"
proof -
  have "0 \<le> retry_delay u jitter" for u
    using assms(1) by (simp add: retry_delay_def secs_def)
  then show "transient_failure rs s f \<and> n < stage_budget rs s \<Longrightarrow>
      \<exists>t. rd_retry (retry_decide rs s n f m now jitter) \<and>
        rd_next_retry_at (retry_decide rs s n f m now jitter) = Some t \<and> now \<le> t"
    using assms(2) by (auto simp: retry_decide_def Let_def)
qed (use assms(2) in \<open>auto simp: retry_decide_def Let_def\<close>)

text \<open>The branches of the handler.\<close>

lemma exception_branches:
  fixes jitter :: time
  defines "after \<equiv> \<lambda>rs now jitter recorded c j e stage before db.
      handle_claim_exception rs now jitter recorded c (Some j) e stage before db"
    and "noted \<equiv> \<lambda>now recorded c j e before db. record_claim_account_result now recorded c (Some j)
      (persist_claim_exception_attempt now c (Some j) e before db)"
    and "canceled \<equiv> \<lambda>c j db. is_cancel_requested (j_task_id (c_job c)) db \<and> \<not> j_quota_consumed j"
    and "timed_out \<equiv> \<lambda>e j. ce_timeout e \<and> (j_quota_consumed j \<or> download_or_save_stage (j_stage j))"
  shows "canceled c j db \<Longrightarrow> after rs now jitter recorded c j e stage before db = snd (release_claim now c False db)"
    and "\<not> canceled c j db \<Longrightarrow> timed_out e j \<Longrightarrow> after rs now jitter recorded c j e stage before db =
      snd (fail_timed_out_claim now now c ''image_claim_timeout'' (MText (ce_text e)) (j_quota_consumed j)
        (noted now recorded c j e before db))"
    and "\<not> canceled c j db \<Longrightarrow> \<not> timed_out e j \<Longrightarrow>
      d = retry_decide rs (j_stage j) (stage_attempts j (j_stage j)) (ce_failure e) (ce_message e) now jitter \<Longrightarrow>
      after rs now jitter recorded c j e stage before db =
      (case rd_next_retry_at d of
         Some t \<Rightarrow> if rd_retry d
           then snd (schedule_retry now c (rd_error_code d) (rd_error_message d) t (noted now recorded c j e before db))
           else snd (fail_job now c (rd_error_code d) (rd_error_message d) (noted now recorded c j e before db))
       | None \<Rightarrow> snd (fail_job now c (rd_error_code d) (rd_error_message d) (noted now recorded c j e before db)))"
  unfolding assms handle_claim_exception_def Let_def option.case
  by (simp_all only: if_P if_not_P simp_thms)

text \<open>
  The exception decides the outcome: an unpaid job of a canceled task is
  canceled; a paid or downloading job that outlived its claim fails with the code the local
  recovery looks for; a transient failure within the budget of the stage waits at the same
  stage for its next attempt; every other failure is final, with the classified code. In
  each case the job has no lease any more and keeps its image URLs and its payment.
\<close>

theorem claim_exception_outcome:
  assumes "store_ok db" and "claimed_job_row db c = Some j"
    and "j_task_id (c_job c) = j_task_id j" and "0 \<le> jitter"
  shows "\<exists>k. job_row (handle_claim_exception rs now jitter recorded c (Some j) e stage before db) (j_id j) = Some k \<and>
    j_lease_token k = None \<and> j_image_urls k = j_image_urls j \<and> j_quota_consumed k = j_quota_consumed j \<and>
    failed_claim_outcome rs now (is_cancel_requested (j_task_id j) db) e j k"
proof -
  let ?after = "handle_claim_exception rs now jitter recorded c (Some j) e stage before db"
  let ?db2 = "record_claim_account_result now recorded c (Some j)
    (persist_claim_exception_attempt now c (Some j) e before db)"
  have ok: "store_ok ?db2" by (intro record_ok persist_ok assms(1))
  obtain k2 where k2: "claimed_job_row ?db2 c = Some k2" "same_work j k2"
    using persist_keeps_claim [OF assms(2)] record_keeps_claim same_work_trans by metis
  then have same: "j_id k2 = j_id j" "j_stage k2 = j_stage j" "j_image_urls k2 = j_image_urls j"
    "j_quota_consumed k2 = j_quota_consumed j" by (simp_all add: same_work_def)
  note rows = settled_rows [OF ok k2(1), unfolded same(1)]
  note retry = retry_decide_fields [OF assms(4) stage_attempts_pos [of j "j_stage j"], of rs "j_stage j" "ce_failure e"
      "ce_message e" now]
  note branches = exception_branches [where c = c and j = j and db = db and e = e and rs = rs and now = now
      and jitter = jitter and recorded = recorded and stage = stage and before = before, unfolded assms(3)]
  show ?thesis
  proof (cases "is_cancel_requested (j_task_id j) db \<and> \<not> j_quota_consumed j")
    case True
    with settled_rows(1) [OF assms(1,2), of now False] show ?thesis
      unfolding branches(1) [OF True]
      by (simp add: failed_claim_outcome_def release_row_def clear_job_lease_def)
  next
    case alive: False
    show ?thesis
    proof (cases "ce_timeout e \<and> (j_quota_consumed j \<or> download_or_save_stage (j_stage j))")
      case True
      show ?thesis
        unfolding branches(2) [OF alive True] rows(4) failed_claim_outcome_def if_not_P [OF alive] if_P [OF True]
        using same by (simp add: timed_out_row_def clear_job_lease_def touch_stage_timing_def Let_def)
    next
      case late: False
      note after = branches(3) [OF alive late refl] and outcome = failed_claim_outcome_def if_not_P [OF alive] if_not_P [OF late]
      show ?thesis
      proof (cases "transient_failure rs (j_stage j) (ce_failure e) \<and>
          stage_attempts j (j_stage j) < stage_budget rs (j_stage j)")
        case True
        from retry(2) [OF True] obtain t where t: "rd_retry (retry_decide rs (j_stage j) (stage_attempts j (j_stage j))
            (ce_failure e) (ce_message e) now jitter)" "rd_next_retry_at (retry_decide rs (j_stage j)
            (stage_attempts j (j_stage j)) (ce_failure e) (ce_message e) now jitter) = Some t" "now \<le> t" by blast
        show ?thesis
          unfolding after t(2) option.case if_P [OF t(1)] rows(2) outcome if_P [OF True] retry(1)
          using same t(3) by (simp add: retry_row_def clear_job_lease_def Let_def)
      next
        case False
        show ?thesis
          unfolding after retry(3) [OF False] option.case rows(3) outcome if_not_P [OF False] retry(1)
          using same by (simp add: fail_row_def clear_job_lease_def)
      qed
    qed
  qed
qed

section \<open>A round stays within the pools\<close>

definition pools_ok :: "manager_config \<Rightarrow> manager \<Rightarrow> bool" where
  "pools_ok mc m \<longleftrightarrow>
     int (length (mg_futures m)) \<le> mc_pending_claim_cap mc \<and>
     int (active_generation_count m) \<le> mc_generation_slot_cap mc \<and>
     int (active_recovery_count m) \<le> mc_recovery_thread_cap mc"

text \<open>The stages of jobs that wait: RETRY_WAIT and the terminal ones are never written for them.\<close>

definition waiting_stages_ok :: "queue_db \<Rightarrow> bool" where
  "waiting_stages_ok db \<longleftrightarrow>
     (\<forall>j \<in> set (db_jobs db). waiting_job (j_status j) \<longrightarrow>
        is_generation_stage (j_stage j) \<or> is_recovery_stage (j_stage j))"

lemma stage_of_claim:
  assumes "store_ok db" and "waiting_stages_ok db"
    and "claim_next_job cfg req clk tok db = (Inr (Some c), db')"
    and "cr_allow_generation req \<longrightarrow> \<not> cr_recovery_only req"
  shows "if is_recovery_stage (j_stage (c_job c)) then cr_prefer_recovery req \<or> cr_recovery_only req
         else cr_allow_generation req"
proof -
  from claim_next_job_stands [OF assms(1,3)] obtain j pass where j: "j \<in> set (db_jobs db)"
    "claimable_job (cr_claim_time req) [] None pass (\<not> pass \<and> \<not> cr_recovery_only req) db j"
    "pass \<longrightarrow> cr_prefer_recovery req \<or> cr_recovery_only req"
    "\<not> pass \<longrightarrow> cr_allow_generation req" "claim_stands cfg req j c db'" by blast
  have stage: "j_stage (c_job c) = claimed_stage (j_stage j)"
    using j(5) by (auto simp: claim_stands_def claim_for_def Let_def claimed_row_def increment_attempt_def
        split: attempt_group.splits)
  have waits: "is_generation_stage (j_stage j) \<or> is_recovery_stage (j_stage j)"
    using j(1,2) assms(2) by (auto simp: waiting_stages_ok_def claimable_job_def)
  have "is_recovery_stage (j_stage (c_job c)) \<longleftrightarrow> is_recovery_stage (j_stage j)"
    unfolding stage by (auto simp: claimed_stage_def is_recovery_stage_def recovery_stages_def)
  moreover have "pass \<Longrightarrow> is_recovery_stage (j_stage j)"
    using j(2) waits by (auto simp: claimable_job_def is_generation_stage_def generation_stages_def)
  moreover have "\<not> pass \<Longrightarrow> \<not> is_recovery_stage (j_stage j)"
    using j(2,4) assms(4) by (auto simp: claimable_job_def is_recovery_stage_def recovery_stages_def)
  ultimately show ?thesis using j(3,4) by auto
qed

lemma round_allows_limits:
  assumes "(ag, ar) = round_allows mc g r live_open remaining m"
  shows "ag \<Longrightarrow> rd_allowed g \<and> live_open \<and> 0 < remaining \<and>
      int (active_generation_count m) < rd_effective_limit g \<and>
      int (active_generation_count m) < mc_generation_slot_cap mc"
    and "ar \<Longrightarrow> rd_allowed r \<and> int (active_recovery_count m) < mc_recovery_thread_cap mc"
  using assms
  by (auto simp: round_allows_def round_plan_def plan_claim_dispatch_def allow_generation_claim_def Let_def
      split: if_splits)

lemma place_claim_pools:
  assumes "place_claim mc clk live_after c (m, db) = (m', db')"
  obtains (refused) "m' = m" "db' = snd (release_claim clk c True db)"
  | (placed) "mg_futures m' = mg_futures m @ [c]" "db' = db"
      "is_recovery_stage (j_stage (c_job c)) \<Longrightarrow> int (active_recovery_count m) < mc_recovery_thread_cap mc"
      "\<not> is_recovery_stage (j_stage (c_job c)) \<Longrightarrow> live_after"
  using assms by (auto simp: place_claim_def Let_def split: if_splits)

lemma counts_append:
  assumes "mg_futures m' = mg_futures m @ [c]"
  shows "active_generation_count m' = active_generation_count m + (if is_recovery_stage (j_stage (c_job c)) then 0 else 1)"
    and "active_recovery_count m' = active_recovery_count m + (if is_recovery_stage (j_stage (c_job c)) then 1 else 0)"
  using assms by (simp_all add: active_generation_count_def active_recovery_count_def)

lemma idle_leases_frame:
  "db_jobs (snd (reclaim_expired_inactive_account_leases clk db)) = db_jobs db"
  by (simp add: reclaim_expired_inactive_account_leases_def clear_expired_inactive_account_leases_def Let_def)

text \<open>
  Admission: a round hands over at most one claim and stays within the pools; a
  new generation starts only when the resource controller allows it before and after the
  claim, below its effective limit and with an account slot left, and recovery work only
  when recovery is allowed; and a claim that is handed over stands in the database.
\<close>

theorem dispatch_stays_within_pools:
  assumes "store_ok db" and "waiting_stages_ok db" and "pools_ok mc m"
    and "dispatch_claim cfg mc g r live_open live_after report base clk tok (m, db) = (m', db')"
  shows "pools_ok mc m' \<and>
    (mg_futures m' = mg_futures m \<or>
     (\<exists>c. mg_futures m' = mg_futures m @ [c] \<and> job_row db' (j_id (c_job c)) = Some (c_job c) \<and>
        (if is_recovery_stage (j_stage (c_job c)) then rd_allowed r
         else rd_allowed g \<and> live_open \<and> live_after \<and>
              int (active_generation_count m) < rd_effective_limit g \<and>
              0 < remaining_account_slots clk (cr_account_concurrency base) (cr_candidates base) m
                    (snd (reclaim_expired_inactive_account_leases clk db)))))"
proof (cases rule: dispatch_claim_cases [of cfg mc g r live_open live_after report base clk tok m db])
  case conflict
  with assms(4) have "m' = set_fatal_error m" by simp
  with assms(3) show ?thesis
    by (simp add: set_fatal_error_def pools_ok_def active_generation_count_def active_recovery_count_def)
next
  case (idle db2)
  with assms(3,4) show ?thesis by simp
next
  case (claim db2 ag ar req res db3)
  let ?db1 = "snd (reclaim_expired_inactive_account_leases clk db)"
  have ok: "store_ok db2" using update_worker_state_ok [OF claim(1)] registry_ops_ok(3) [OF assms(1)] by blast
  obtain ws where "db2 = ?db1\<lparr>db_workers := ws\<rparr>" using update_worker_state_frame [OF claim(1)] by blast
  then have "db_jobs db2 = db_jobs db" by (simp add: idle_leases_frame)
  with assms(2) have stages: "waiting_stages_ok db2" by (simp add: waiting_stages_ok_def)
  note allowed = round_allows_limits [OF claim(2)]
  show ?thesis
  proof (cases "\<exists>c. res = Inr (Some c)")
    case False
    then have "m' = m \<or> m' = set_fatal_error m"
      using claim(7) assms(4) by (auto split: sum.splits option.splits queue_error.splits)
    then show ?thesis using assms(3)
      by (elim disjE) (simp_all add: set_fatal_error_def pools_ok_def active_generation_count_def
          active_recovery_count_def)
  next
    case True
    then obtain c where c: "res = Inr (Some c)" ..
    with claim(7) assms(4) have place: "place_claim mc clk live_after c (m, db3) = (m', db')" by simp
    note claimed = claim(6) [unfolded c]
    from claim_next_job_stands [OF ok claimed] obtain j where "claim_stands cfg req j c db3" by blast
    then have "job_row db3 (j_id j) = Some (c_job c)" by (simp add: claim_stands_def)
    with job_rowD [OF this] have row: "job_row db3 (j_id (c_job c)) = Some (c_job c)" by simp
    from place show ?thesis
    proof (cases rule: place_claim_pools)
      case refused
      with assms(3) show ?thesis by simp
    next
      case placed
      have kind: "if is_recovery_stage (j_stage (c_job c)) then ar else ag"
        using stage_of_claim [OF ok stages claimed] claim(5) by (auto split: if_splits)
      have "pools_ok mc m'"
        using assms(3) counts_append [OF placed(1)] placed(1,3) kind allowed(1) claim(3)
        by (auto simp: pools_ok_def)
      with placed row kind allowed show ?thesis by auto
    qed
  qed
qed

section \<open>Witnesses\<close>

definition demo_retry :: retry_settings where
  "demo_retry = \<lparr>rs_generation_attempts = 3, rs_download_attempts = 5, rs_save_attempts = 5,
     rs_account_retry_enabled = True, rs_max_account_attempts = 0\<rparr>"

definition demo_attempt :: image_attempt where
  "demo_attempt = \<lparr>att_slot = 1, att_attempt = 1, att_status = ''failed'', att_account_email = '''',
     att_account_id = '''', att_failure_code = ''upstream_rate_limited'', att_switched_account = False\<rparr>"

definition demo_error :: claim_error where
  "demo_error = \<lparr>ce_text = ''429'', ce_message = MText ''429'', ce_timeout = False,
     ce_failure = image_failure_of (Some ''upstream_rate_limited'') None, ce_attempts = [], ce_attempt = demo_attempt\<rparr>"

definition demo_failing_run :: queue_db where
  "demo_failing_run = run_claim demo_retry 20 0 True (\<lambda>d. (Raised demo_error, d)) demo_claim demo_db"

definition demo_manager :: manager where
  "demo_manager = \<lparr>mg_futures = [], mg_stages = \<lambda>_. None, mg_stranded = [], mg_active = True, mg_fatal = False\<rparr>"

definition demo_manager_config :: manager_config where
  "demo_manager_config = \<lparr>mc_worker_id = ''w'', mc_generation_slot_cap = 4, mc_recovery_thread_cap = 4,
     mc_pending_claim_cap = 8, mc_pending_ttl = 0, mc_terminal_retention = 3600\<rparr>"

definition demo_round :: round_input where
  "demo_round = \<lparr>ri_generation = granted 4, ri_recovery = granted 4, ri_live_open = True, ri_live_after = True,
     ri_report = demo_report, ri_request = demo_request, ri_recovery_due = True, ri_recorded = \<lambda>_. True,
     ri_cleanup = None, ri_local_recovery = id, ri_finished = \<lambda>_. False\<rparr>"

definition demo_dispatch :: "manager \<times> queue_db" where
  "demo_dispatch = dispatch_claim demo_settings demo_manager_config (granted 4) (granted 4) True True
     demo_report demo_request 100 (\<lambda>_ n. 500 + n) (demo_manager, demo_db)"


theorem run_claim_settles_witness:
  "store_ok demo_failing_run \<and> claimed_job_row demo_failing_run demo_claim = None"
  using run_claim_settles [of demo_db "\<lambda>d. (Raised demo_error, d)" demo_retry 20 0 True demo_claim] demo_ok
  unfolding demo_failing_run_def by fastforce

theorem claim_exception_outcome_witness:
  "\<exists>k. job_row (handle_claim_exception demo_retry 20 0 True demo_claim (Some demo_running) demo_error
       SGenerating None demo_db) 10 = Some k \<and>
     j_status k = JRetryWait \<and> j_error_code k = Some ''upstream_rate_limited'' \<and> 20 \<le> j_available_at k"
proof -
  let ?db = "handle_claim_exception demo_retry 20 0 True demo_claim (Some demo_running) demo_error SGenerating None demo_db"
  have t: "j_task_id (c_job demo_claim) = j_task_id demo_running" "j_id demo_running = 10" by code_simp+
  have cond: "\<not> is_cancel_requested (j_task_id demo_running) demo_db" "\<not> ce_timeout demo_error"
    "transient_failure demo_retry (j_stage demo_running) (ce_failure demo_error)"
    "stage_attempts demo_running (j_stage demo_running) < stage_budget demo_retry (j_stage demo_running)"
    "if_code (ce_failure demo_error) = ''upstream_rate_limited''" by code_simp+
  from claim_exception_outcome [OF demo_ok demo_claim_row t(1), of 0 demo_retry 20 True demo_error SGenerating None]
  obtain k where "job_row ?db 10 = Some k"
    "failed_claim_outcome demo_retry 20 (is_cancel_requested (j_task_id demo_running) demo_db) demo_error demo_running k"
    unfolding t(2) by auto
  with cond show ?thesis by (simp add: failed_claim_outcome_def)
qed

theorem dispatch_stays_within_pools_witness:
  "map (j_id \<circ> c_job) (mg_futures (fst demo_dispatch)) = [11] \<and>
   pools_ok demo_manager_config (fst demo_dispatch)"
proof -
  have c: "waiting_stages_ok demo_db" "pools_ok demo_manager_config demo_manager"
    "map (j_id \<circ> c_job) (mg_futures (fst demo_dispatch)) = [11]" by code_simp+
  from dispatch_stays_within_pools [OF demo_ok c(1,2), of demo_settings "granted 4" "granted 4" True True
      demo_report demo_request 100 "\<lambda>_ n. 500 + n" "fst demo_dispatch" "snd demo_dispatch"] c(3)
  show ?thesis by (simp add: demo_dispatch_def)
qed

end
