(* ===== verification/Account_Model.thy ===== *)
theory Account_Model
  imports Py_Prelude "HOL-Library.Finite_Map"
begin

text \<open>
  The accounts of the pool (\<open>services/account_service.py\<close>, \<open>services/account_credentials.py\<close>):
  an account is the dictionary the service keeps, here a finite map from field names to
  JSON values, so that equality of accounts is the equality of Python dictionaries. The
  theory holds the coercions of values, the normal form of an account
  (\<open>_normalize_account\<close>), the projection of its credentials and the predicates that select
  accounts. Text is the list of its UTF-8 bytes.
\<close>

section \<open>JSON values\<close>

datatype pyval =
    PNone
  | PBool bool
  | PInt int
  | PStr string
  | PList "pyval list"
  | PDict "(string, pyval) fmap"

type_synonym account = "(string, pyval) fmap"

text \<open>
  What the code takes from Python's library and from the helpers it calls: the text of a
  container, \<open>int(text)\<close> and \<open>int(float(text))\<close>, the hexadecimal SHA-256 of a text, the UUID
  derived from a name and the UUID a text spells, the claims of a token (\<open>decode_access_token_payload\<close>), the
  reading and writing of timestamps and a fresh identifier.
\<close>

record account_env =
  env_repr :: "pyval \<Rightarrow> string"
  env_int :: "string \<Rightarrow> int option"
  env_float_int :: "string \<Rightarrow> int option"
  env_digest :: "string \<Rightarrow> string"
  env_uuid5 :: "string \<Rightarrow> uuid"
  env_parse_uuid :: "string \<Rightarrow> uuid option"
  env_claim :: "string \<Rightarrow> string \<Rightarrow> pyval"
  env_parse_time :: "string \<Rightarrow> time option"
  env_stamp :: "time \<Rightarrow> string"
  env_created_stamp :: string
  env_fresh_id :: string

fun nat_text :: "nat \<Rightarrow> string" where
  "nat_text n = (if n < 10 then [char_of (48 + n)] else nat_text (n div 10) @ [char_of (48 + n mod 10)])"

definition int_text :: "int \<Rightarrow> string" where
  "int_text i = (if i < 0 then CHR ''-'' # nat_text (nat (- i)) else nat_text (nat i))"

fun truthy :: "pyval \<Rightarrow> bool" where
  "truthy PNone = False"
| "truthy (PBool b) = b"
| "truthy (PInt i) = (i \<noteq> 0)"
| "truthy (PStr s) = (s \<noteq> '''')"
| "truthy (PList vs) = (vs \<noteq> [])"
| "truthy (PDict d) = (d \<noteq> fmempty)"

fun py_str :: "account_env \<Rightarrow> pyval \<Rightarrow> string" where
  "py_str env PNone = ''None''"
| "py_str env (PBool b) = (if b then ''True'' else ''False'')"
| "py_str env (PInt i) = int_text i"
| "py_str env (PStr s) = s"
| "py_str env v = env_repr env v"

text \<open>\<open>account.get(field)\<close>, \<open>a or b\<close> and \<open>str(value or "")\<close>.\<close>

definition field :: "account \<Rightarrow> string \<Rightarrow> pyval" where
  "field a f = (case fmlookup a f of None \<Rightarrow> PNone | Some v \<Rightarrow> v)"

definition por :: "pyval \<Rightarrow> pyval \<Rightarrow> pyval" where
  "por v w = (if truthy v then v else w)"

definition raw_text :: "account_env \<Rightarrow> pyval \<Rightarrow> string" where
  "raw_text env v = (if truthy v then py_str env v else '''')"

definition text_of :: "account_env \<Rightarrow> pyval \<Rightarrow> string" where
  "text_of env v = py_strip (raw_text env v)"

definition field_text :: "account_env \<Rightarrow> account \<Rightarrow> string \<Rightarrow> string" where
  "field_text env a f = text_of env (field a f)"

definition has_value :: "account_env \<Rightarrow> pyval \<Rightarrow> bool" where
  "has_value env v \<longleftrightarrow> v \<noteq> PNone \<and> py_strip (py_str env v) \<noteq> ''''"

definition bool_value :: "account_env \<Rightarrow> pyval \<Rightarrow> bool \<Rightarrow> bool" where
  "bool_value env v dflt =
     (case v of
        PBool b \<Rightarrow> b
      | PInt i \<Rightarrow> i \<noteq> 0
      | _ \<Rightarrow>
          let raw = py_lower (text_of env v)
          in if raw \<in> {''1'', ''true'', ''yes'', ''y'', ''on''} then True
             else if raw \<in> {''0'', ''false'', ''no'', ''n'', ''off'', ''none'', ''null'', ''''} then False
             else dflt)"

definition quota_value :: "account_env \<Rightarrow> pyval \<Rightarrow> int \<Rightarrow> int" where
  "quota_value env v dflt =
     (if \<not> has_value env v then max 0 dflt
      else case (case v of PInt i \<Rightarrow> Some i | _ \<Rightarrow> env_float_int env (py_strip (py_str env v))) of
             Some n \<Rightarrow> max 0 n
           | None \<Rightarrow> max 0 dflt)"

definition integer_field :: "account_env \<Rightarrow> pyval \<Rightarrow> int option" where
  "integer_field env v =
     (case v of
        PInt i \<Rightarrow> Some i
      | PBool b \<Rightarrow> Some (of_bool b)
      | PStr s \<Rightarrow> env_int env s
      | _ \<Rightarrow> None)"

text \<open>\<open>int(value or 0)\<close> of a numeric field in normal form.\<close>

definition count_of :: "pyval \<Rightarrow> int" where
  "count_of v = (case v of PInt i \<Rightarrow> i | PBool b \<Rightarrow> of_bool b | _ \<Rightarrow> 0)"

section \<open>Identity\<close>

definition hex_digits :: string where "hex_digits = ''0123456789abcdef''"

definition is_hex :: "string \<Rightarrow> bool" where
  "is_hex s \<longleftrightarrow> list_all (\<lambda>c. c \<in> set hex_digits) s"

definition take_last :: "nat \<Rightarrow> 'a list \<Rightarrow> 'a list" where
  "take_last n xs = drop (length xs - n) xs"

definition management_id_for_token :: "account_env \<Rightarrow> string \<Rightarrow> string" where
  "management_id_for_token env token = ''acct_'' @ take 24 (env_digest env token)"

definition is_management_id :: "string \<Rightarrow> bool" where
  "is_management_id s \<longleftrightarrow> take 5 s = ''acct_'' \<and> length (drop 5 s) = 24 \<and> is_hex (drop 5 s)"

text \<open>The UUID under which the image queue knows an account (\<open>image_account_id\<close>).\<close>

definition image_account_id :: "account_env \<Rightarrow> string \<Rightarrow> uuid option" where
  "image_account_id env account_id =
     (let raw = py_lower (py_strip account_id)
      in if raw = '''' then None
         else if take 5 raw = ''acct_''
         then (if is_management_id raw then Some (env_uuid5 env raw) else None)
         else env_parse_uuid env raw)"

definition normalize_management_id :: "account_env \<Rightarrow> pyval \<Rightarrow> string \<Rightarrow> string" where
  "normalize_management_id env v token =
     (let candidate = py_lower (text_of env v)
      in if is_management_id candidate then candidate else management_id_for_token env token)"

definition fingerprint_limit :: nat where "fingerprint_limit = 8"

definition normalize_fingerprints :: "account_env \<Rightarrow> pyval \<Rightarrow> string \<Rightarrow> pyval list" where
  "normalize_fingerprints env v token =
     (let candidates = (case v of PList vs \<Rightarrow> vs | _ \<Rightarrow> []);
          fingerprints = dedup_first (filter is_hex (filter (\<lambda>s. length s = 64)
                           (map (\<lambda>w. py_lower (text_of env w)) candidates)));
          current = env_digest env token;
          first = (case fingerprints of [] \<Rightarrow> current | f # _ \<Rightarrow> f);
          recent = filter (\<lambda>f. f \<noteq> current) (drop 1 fingerprints) @ (if current \<noteq> first then [current] else [])
      in map PStr (first # take_last (fingerprint_limit - 1) recent))"

definition result_key_limit :: nat where "result_key_limit = 256"

definition result_key_max_length :: nat where "result_key_max_length = 256"

definition result_key_text :: "account_env \<Rightarrow> pyval \<Rightarrow> string" where
  "result_key_text env v = take result_key_max_length (text_of env v)"

definition normalize_result_keys :: "account_env \<Rightarrow> pyval \<Rightarrow> string list" where
  "normalize_result_keys env v =
     (case v of
        PList vs \<Rightarrow> take_last result_key_limit
                     (dedup_first (filter (\<lambda>k. k \<noteq> '''') (map (result_key_text env) vs)))
      | _ \<Rightarrow> [])"


declare nat_text.simps [simp del]

definition unique_management_id :: "account_env \<Rightarrow> string \<Rightarrow> pyval \<Rightarrow> string list \<Rightarrow> string" where
  "unique_management_id env token preferred used =
     (let candidate = normalize_management_id env preferred token;
          numbered = (\<lambda>n. ''acct_'' @ take 24 (env_digest env (token @ CHR 0x00 # nat_text n)))
      in if candidate \<notin> set used then candidate
         else case find (\<lambda>n. numbered n \<notin> set used) [1..<length used + 2] of
                Some n \<Rightarrow> numbered n
              | None \<Rightarrow> numbered (length used + 2))"

section \<open>The normal form of an account\<close>

definition st_normal :: string where "st_normal = [CHR 0xE6, CHR 0xAD, CHR 0xA3, CHR 0xE5, CHR 0xB8, CHR 0xB8]"

definition st_limited :: string where "st_limited = [CHR 0xE9, CHR 0x99, CHR 0x90, CHR 0xE6, CHR 0xB5, CHR 0x81]"

definition st_abnormal :: string where "st_abnormal = [CHR 0xE5, CHR 0xBC, CHR 0x82, CHR 0xE5, CHR 0xB8, CHR 0xB8]"

definition st_disabled :: string where "st_disabled = [CHR 0xE7, CHR 0xA6, CHR 0x81, CHR 0xE7, CHR 0x94, CHR 0xA8]"

definition normalize_source_type :: "account_env \<Rightarrow> pyval \<Rightarrow> string" where
  "normalize_source_type env v =
     (if py_lower (text_of env v) \<in> {''codex'', ''cpa'', ''cpa_json'', ''remote_cpa'', ''sub2api''}
      then ''codex'' else ''web'')"

definition account_type_alias :: "string \<Rightarrow> string option" where
  "account_type_alias s = map_of
     [(''free'', ''free''), (''plus'', ''Plus''), (''pro'', ''Pro''), (''prolite'', ''ProLite''),
      (''team'', ''Team''), (''business'', ''Team''), (''enterprise'', ''Enterprise'')] s"

definition normalize_account_type :: "account_env \<Rightarrow> pyval \<Rightarrow> string option" where
  "normalize_account_type env v =
     (let raw = text_of env v;
          key = map (\<lambda>c. if c = CHR ''-'' \<or> c = CHR '' '' then CHR ''_'' else c) (py_lower raw);
          compact = filter (\<lambda>c. c \<noteq> CHR ''_'') key
      in if raw = '''' then None
         else case account_type_alias compact of
                Some t \<Rightarrow> Some t
              | None \<Rightarrow> account_type_alias key)"

definition opt_text :: "string option \<Rightarrow> pyval" where
  "opt_text x = (case x of None \<Rightarrow> PNone | Some s \<Rightarrow> PStr s)"

definition status_alias :: "string \<Rightarrow> string option" where
  "status_alias s = map_of
     [(st_normal, st_normal), (''normal'', st_normal), (''ready'', st_normal),
      (st_limited, st_limited), (''limited'', st_limited), (''rate_limited'', st_limited),
      (''cooling'', st_limited), (''backoff'', st_limited),
      (st_abnormal, st_abnormal), (''abnormal'', st_abnormal), (''invalid'', st_abnormal),
      (''error'', st_abnormal), (''incomplete'', st_abnormal),
      (st_disabled, st_disabled), (''disabled'', st_disabled), (''auto_disabled'', st_disabled)] s"

definition normalize_account_status :: "account_env \<Rightarrow> pyval \<Rightarrow> account \<Rightarrow> string" where
  "normalize_account_status env v a =
     (if bool_value env (field a ''auto_disabled'') False then st_disabled
      else if field a ''enabled'' \<noteq> PNone \<and> \<not> bool_value env (field a ''enabled'') True then st_disabled
      else let raw = text_of env v
           in if raw = '''' then st_normal
              else case status_alias (py_lower raw) of
                     Some s \<Rightarrow> s
                   | None \<Rightarrow> (case status_alias raw of Some s \<Rightarrow> s | None \<Rightarrow> st_normal))"

definition image_limit_entry :: "account_env \<Rightarrow> pyval \<Rightarrow> account option" where
  "image_limit_entry env v =
     (case v of
        PDict d \<Rightarrow>
          if py_lower (text_of env (por (por (por (field d ''feature_name'') (field d ''feature''))
                 (field d ''name'')) (field d ''type'')))
               \<in> {''image_gen'', ''image_generation'', ''image'', ''images''}
          then Some d else None
      | _ \<Rightarrow> None)"

definition extract_image_quota_from_limits ::
  "account_env \<Rightarrow> pyval list \<Rightarrow> int option \<times> string option \<times> bool option" where
  "extract_image_quota_from_limits env limits =
     (if limits = [] then (None, None, None)
      else case List.map_filter (image_limit_entry env) limits of
             d # _ \<Rightarrow>
               (Some (quota_value env (field d ''remaining'') 0),
                none_if_empty (text_of env
                  (por (por (field d ''reset_after'') (field d ''restore_at'')) (field d ''reset_at''))),
                Some False)
           | [] \<Rightarrow> (None, None, Some True))"

definition put :: "string \<Rightarrow> pyval \<Rightarrow> account \<Rightarrow> account" where
  "put = fmupd"

text \<open>\<open>normalized[f] = normalized.get(f) or None\<close> and \<open>normalized.pop(f, None)\<close>.\<close>

definition or_none :: "string \<Rightarrow> account \<Rightarrow> account" where
  "or_none f a = put f (por (field a f) PNone) a"

definition pop :: "string \<Rightarrow> account \<Rightarrow> account" where
  "pop = fmdrop"


definition access_token_of :: "account_env \<Rightarrow> account \<Rightarrow> string" where
  "access_token_of env a = raw_text env (field a ''access_token'')"

definition normalize_identity :: "account_env \<Rightarrow> account \<Rightarrow> account" where
  "normalize_identity env item =
     (let token = por (field item ''access_token'') (field item ''accessToken'');
          token_text = raw_text env token;
          a = put ''access_token'' token (pop ''accessToken'' item);
          a = put ''management_id'' (PStr (normalize_management_id env (field a ''management_id'') token_text)) a;
          a = put ''access_token_fingerprints''
                (PList (normalize_fingerprints env (field a ''access_token_fingerprints'') token_text)) a;
          a = (case fmlookup a ''managed_image_result_idempotency_keys'' of
                 None \<Rightarrow> a
               | Some v \<Rightarrow> put ''managed_image_result_idempotency_keys''
                            (PList (map PStr (normalize_result_keys env v))) a)
      in if py_lower (field_text env a ''type'') = ''codex''
         then pop ''type'' (put ''export_type'' (PStr ''codex'') a) else a)"

definition limits_of :: "account \<Rightarrow> pyval list" where
  "limits_of a = (case field a ''limits_progress'' of PList vs \<Rightarrow> vs | _ \<Rightarrow> [])"

definition settle_status :: "account_env \<Rightarrow> account \<Rightarrow> account" where
  "settle_status env a =
     pop ''auto_disabled'' (pop ''enabled''
       (put ''status'' (PStr (normalize_account_status env (field a ''status'') a)) a))"

definition settle_source_type :: "account_env \<Rightarrow> account \<Rightarrow> account" where
  "settle_source_type env a =
     (let source = field a ''source_type'';
          source = (if \<not> truthy source \<and> py_lower (field_text env a ''export_type'') = ''codex''
                    then PStr ''codex'' else source)
      in put ''source_type'' (PStr (normalize_source_type env source)) a)"

definition settle_proxy :: "account_env \<Rightarrow> account \<Rightarrow> account" where
  "settle_proxy env a = put ''proxy'' (PStr (field_text env a ''proxy'')) a"

definition settle_type :: "account_env \<Rightarrow> account \<Rightarrow> account" where
  "settle_type env a = put ''type'' (opt_text (normalize_account_type env (field a ''type''))) a"

definition normalize_status_fields :: "account_env \<Rightarrow> account \<Rightarrow> account" where
  "normalize_status_fields env a =
     settle_source_type env (settle_proxy env (or_none ''user_id'' (or_none ''email''
       (settle_status env (settle_type env a)))))"

text \<open>The image quota: an explicit value wins over the one derived from the limits.\<close>

definition settle_quota :: "account_env \<Rightarrow> bool \<Rightarrow> int option \<Rightarrow> account \<Rightarrow> account" where
  "settle_quota env explicit derived a =
     put ''quota'' (PInt (quota_value env
       (case derived of Some q \<Rightarrow> if explicit then field a ''quota'' else PInt q | None \<Rightarrow> field a ''quota'') 0)) a"

definition settle_quota_unknown :: "account_env \<Rightarrow> bool option \<Rightarrow> account \<Rightarrow> account" where
  "settle_quota_unknown env derived a =
     put ''image_quota_unknown'' (PBool (bool_value env
       (if has_value env (field a ''image_quota_unknown'') then field a ''image_quota_unknown''
        else PBool (case derived of Some u \<Rightarrow> u | None \<Rightarrow> True)) True)) a"

definition quota_confirmed :: "bool option \<Rightarrow> account \<Rightarrow> bool" where
  "quota_confirmed derived a \<longleftrightarrow>
     derived = Some False \<or>
     truthy (field a ''last_remote_checked_at'') \<and> \<not> truthy (field a ''image_quota_unknown'')"

definition settle_quota_status :: "bool option \<Rightarrow> account \<Rightarrow> account" where
  "settle_quota_status derived a =
     (if field a ''status'' = PStr st_normal \<and> (\<not> quota_confirmed derived a \<or> field a ''quota'' = PInt 0)
      then put ''image_quota_unknown'' (PBool True) a
      else if field a ''status'' = PStr st_limited
      then put ''image_quota_unknown'' (PBool False) (put ''quota'' (PInt 0) a)
      else a)"

definition settle_restore :: "string option \<Rightarrow> account \<Rightarrow> account" where
  "settle_restore derived a =
     put ''restore_at''
       (if truthy (field a ''restore_at'') then field a ''restore_at''
        else case derived of Some r \<Rightarrow> por (PStr r) PNone | None \<Rightarrow> PNone) a"

definition normalize_quota_fields :: "account_env \<Rightarrow> bool \<Rightarrow> pyval list \<Rightarrow> account \<Rightarrow> account" where
  "normalize_quota_fields env explicit limits a =
     (case extract_image_quota_from_limits env limits of (quota, restore, unknown) \<Rightarrow>
        settle_restore restore (or_none ''default_model_slug'' (put ''limits_progress'' (PList limits)
          (settle_quota_status unknown (settle_quota_unknown env unknown (settle_quota env explicit quota a))))))"

definition normalize_counters :: "account_env \<Rightarrow> account \<Rightarrow> account" where
  "normalize_counters env a =
     (let a = put ''success'' (PInt (quota_value env (field a ''success'') 0)) a;
          a = put ''fail'' (PInt (quota_value env (field a ''fail'') 0)) a;
          a = put ''invalid_count'' (PInt (quota_value env (field a ''invalid_count'') 0)) a
      in put ''last_used_at'' (field a ''last_used_at'') a)"

definition check_text_fields :: "string list" where
  "check_text_fields =
     [''last_invalid_at'', ''last_refresh_error'', ''last_refresh_error_at'', ''last_remote_checked_at'',
      ''last_remote_check_attempt_at'', ''last_remote_check_error'', ''last_remote_check_error_at'',
      ''last_remote_check_event'']"

definition settle_check_result :: "account_env \<Rightarrow> account \<Rightarrow> account" where
  "settle_check_result env a =
     (let result = py_lower (field_text env a ''last_remote_check_result'')
      in put ''last_remote_check_result''
           (if result \<in> {''pending'', ''ok'', ''error'', ''invalid''} then PStr result else PNone) a)"

definition check_pending :: "account \<Rightarrow> bool" where
  "check_pending a \<longleftrightarrow> field a ''last_remote_check_result'' = PStr ''pending''"

definition settle_pending_remove :: "account_env \<Rightarrow> account \<Rightarrow> account" where
  "settle_pending_remove env a =
     put ''pending_auth_remove_invalid''
       (if check_pending a \<and> field a ''pending_auth_remove_invalid'' \<noteq> PNone
        then PBool (bool_value env (field a ''pending_auth_remove_invalid'') False) else PNone) a"

definition settle_pending_scope :: "account_env \<Rightarrow> account \<Rightarrow> account" where
  "settle_pending_scope env a =
     put ''pending_auth_scope''
       (if check_pending a
        then PStr (if py_lower (field_text env a ''pending_auth_scope'') = ''image'' then ''image'' else ''account'')
        else PNone) a"

definition settle_verification_id :: "account_env \<Rightarrow> account \<Rightarrow> account" where
  "settle_verification_id env a =
     (let verification = field_text env a ''pending_auth_verification_id''
      in if check_pending a \<and> verification \<noteq> '''' then put ''pending_auth_verification_id'' (PStr verification) a
         else pop ''pending_auth_verification_id'' a)"

definition normalize_remote_check :: "account_env \<Rightarrow> account \<Rightarrow> account" where
  "normalize_remote_check env a =
     settle_verification_id env (settle_pending_scope env (settle_pending_remove env
       (settle_check_result env (fold or_none check_text_fields a))))"

text \<open>The sanitizer (\<open>utils/diagnostics.py\<close>) only trims: credentials are kept in plain text.\<close>

definition sanitize_diagnostic_text :: "account_env \<Rightarrow> pyval \<Rightarrow> pyval" where
  "sanitize_diagnostic_text env v = PStr (text_of env v)"

definition sanitize_field :: "account_env \<Rightarrow> string \<Rightarrow> account \<Rightarrow> account" where
  "sanitize_field env f a = (if truthy (field a f) then put f (sanitize_diagnostic_text env (field a f)) a else a)"

definition refresh_text_fields :: "string list" where
  "refresh_text_fields =
     [''last_token_refresh_at'', ''last_token_refresh_error'', ''last_token_refresh_error_at'',
      ''refresh_token_invalid_at'']"

definition error_text_fields :: "string list" where
  "error_text_fields = [''last_remote_check_error'', ''last_refresh_error'', ''last_token_refresh_error'']"

definition capability_fields :: "string list" where
  "capability_fields =
     [''capability_cooldowns'', ''capability_failure_counts'', ''capability_failure_codes'', ''capability_failed_at'']"

definition normalize_diagnostics :: "account_env \<Rightarrow> account \<Rightarrow> account" where
  "normalize_diagnostics env a =
     (let a = fold pop capability_fields
                (fold (sanitize_field env) error_text_fields (fold or_none refresh_text_fields a))
      in put ''created_at'' (por (field a ''created_at'') (PStr (env_created_stamp env))) a)"

definition normalize_account :: "account_env \<Rightarrow> account \<Rightarrow> account option" where
  "normalize_account env item =
     (if \<not> truthy (por (field item ''access_token'') (field item ''accessToken'')) then None
      else let a = normalize_identity env item;
               limits = limits_of a;
               explicit = has_value env (field a ''quota'')
           in Some (normalize_diagnostics env (normalize_remote_check env (normalize_counters env
                (normalize_quota_fields env explicit limits (normalize_status_fields env a))))))"


section \<open>Credentials\<close>

definition access_token_refresh_skew :: int where "access_token_refresh_skew = 24 * 60 * 60"

datatype access_status = AccessValid | AccessExpiring | AccessInvalid

datatype refresh_status = RefreshValid | RefreshMissing | RefreshInvalid

datatype credential_status = Usable | Recoverable | Unavailable

record access_lifecycle =
  al_status :: access_status
  al_issued_at :: "int option"
  al_expires_at :: "int option"

record credential_availability =
  ca_status :: credential_status
  ca_access :: access_lifecycle
  ca_refresh :: refresh_status

definition positive_timestamp :: "account_env \<Rightarrow> string \<Rightarrow> string \<Rightarrow> int option" where
  "positive_timestamp env token name =
     (case integer_field env (por (env_claim env token name) (PInt 0)) of
        Some n \<Rightarrow> if 0 < n then Some n else None
      | None \<Rightarrow> None)"

definition access_token_expires_in :: "account_env \<Rightarrow> int \<Rightarrow> string \<Rightarrow> int option" where
  "access_token_expires_in env now token = map_option (\<lambda>e. e - now) (positive_timestamp env token ''exp'')"

definition project_access_token_lifecycle :: "account_env \<Rightarrow> int \<Rightarrow> bool \<Rightarrow> string \<Rightarrow> access_lifecycle" where
  "project_access_token_lifecycle env now confirmed_invalid access_token =
     (let token = py_strip access_token;
          issued = positive_timestamp env token ''iat'';
          expires = positive_timestamp env token ''exp'';
          expires_in = map_option (\<lambda>e. e - now) expires
      in if token = '''' then \<lparr>al_status = AccessInvalid, al_issued_at = None, al_expires_at = None\<rparr>
         else \<lparr>al_status =
                 (if confirmed_invalid \<or> (case expires_in of Some r \<Rightarrow> r \<le> 0 | None \<Rightarrow> False) then AccessInvalid
                  else if case expires_in of Some r \<Rightarrow> r \<le> access_token_refresh_skew | None \<Rightarrow> False
                  then AccessExpiring else AccessValid),
               al_issued_at = issued, al_expires_at = expires\<rparr>)"

definition project_credential_availability ::
  "account_env \<Rightarrow> int \<Rightarrow> bool \<Rightarrow> bool \<Rightarrow> string \<Rightarrow> string \<Rightarrow> credential_availability" where
  "project_credential_availability env now access_invalid refresh_invalid access_token refresh_token =
     (let access = project_access_token_lifecycle env now access_invalid access_token;
          refresh = (if py_strip refresh_token = '''' then RefreshMissing
                     else if refresh_invalid then RefreshInvalid else RefreshValid);
          status = (if al_status access \<noteq> AccessInvalid then Usable
                    else if refresh = RefreshValid then Recoverable else Unavailable)
      in \<lparr>ca_status = status, ca_access = access, ca_refresh = refresh\<rparr>)"

definition token_needs_refresh :: "account_env \<Rightarrow> int \<Rightarrow> bool \<Rightarrow> string \<Rightarrow> bool" where
  "token_needs_refresh env now force token \<longleftrightarrow>
     force \<or> (case access_token_expires_in env now token of
                Some r \<Rightarrow> r \<le> access_token_refresh_skew | None \<Rightarrow> False)"

definition access_token_still_usable :: "account_env \<Rightarrow> int \<Rightarrow> string \<Rightarrow> bool" where
  "access_token_still_usable env now token \<longleftrightarrow>
     (case access_token_expires_in env now token of Some r \<Rightarrow> 0 < r | None \<Rightarrow> True)"

section \<open>Selection\<close>

text \<open>\<open>int(time.time())\<close>.\<close>

definition unix_seconds :: "time \<Rightarrow> int" where
  "unix_seconds now = now div secs 1"

definition is_account_selectable :: "account_env \<Rightarrow> time \<Rightarrow> bool \<Rightarrow> bool \<Rightarrow> account \<Rightarrow> bool" where
  "is_account_selectable env now allow_limited allow_image_pending a \<longleftrightarrow>
     field a ''status'' \<in> (if allow_limited then {PStr st_normal, PStr st_limited} else {PStr st_normal}) \<and>
     ca_status (project_credential_availability env (unix_seconds now)
         (py_lower (field_text env a ''last_remote_check_result'') = ''invalid'')
         (truthy (field a ''refresh_token_invalid_at''))
         (raw_text env (field a ''access_token'')) (raw_text env (field a ''refresh_token''))) \<noteq> Unavailable \<and>
     (field a ''last_remote_check_result'' \<noteq> PStr ''pending'' \<or>
      allow_image_pending \<and> field a ''pending_auth_scope'' = PStr ''image'')"

definition token_refresh_error_backoff :: int where "token_refresh_error_backoff = 5 * 60"

definition recent_token_refresh_error :: "account_env \<Rightarrow> time \<Rightarrow> account \<Rightarrow> bool" where
  "recent_token_refresh_error env now a \<longleftrightarrow>
     (let raw = field_text env a ''last_token_refresh_error_at''
      in raw \<noteq> '''' \<and>
         (case env_parse_time env raw of
            Some t \<Rightarrow> now - t < secs token_refresh_error_backoff | None \<Rightarrow> False))"

definition is_image_account_available :: "account_env \<Rightarrow> time \<Rightarrow> account \<Rightarrow> bool" where
  "is_image_account_available env now a \<longleftrightarrow>
     is_account_selectable env now False False a \<and>
     (recent_token_refresh_error env now a \<longrightarrow>
        field_text env a ''access_token'' \<noteq> '''' \<and>
        access_token_still_usable env (unix_seconds now) (field_text env a ''access_token'')) \<and>
     (truthy (field a ''image_quota_unknown'') \<or>
      field a ''status'' = PStr st_normal \<or> 0 < count_of (field a ''quota''))"

definition is_unlimited_image_quota_account :: "account_env \<Rightarrow> account \<Rightarrow> bool" where
  "is_unlimited_image_quota_account env a \<longleftrightarrow>
     truthy (field a ''image_quota_unknown'') \<and>
     (case normalize_account_type env (field a ''type'') of
        Some t \<Rightarrow> py_lower t \<in> {''pro'', ''prolite''} | None \<Rightarrow> False)"

text \<open>A request filters accounts by plan, by a set of plans and by source.\<close>

record account_filter =
  af_plan_type :: "string option"
  af_source_type :: "string option"
  af_plan_types :: "string list"

definition matches_plan_type :: "account_env \<Rightarrow> account \<Rightarrow> string option \<Rightarrow> bool" where
  "matches_plan_type env a plan =
     (case plan of
        None \<Rightarrow> True
      | Some p \<Rightarrow> p = '''' \<or>
          (case (normalize_account_type env (PStr p), normalize_account_type env (field a ''type'')) of
             (Some x, Some y) \<Rightarrow> py_lower x = py_lower y
           | _ \<Rightarrow> False))"

definition matches_source_type :: "account_env \<Rightarrow> account \<Rightarrow> string option \<Rightarrow> bool" where
  "matches_source_type env a source =
     (case source of
        None \<Rightarrow> True
      | Some s \<Rightarrow> s = '''' \<or> normalize_source_type env (field a ''source_type'') = normalize_source_type env (PStr s))"

definition matches_any_plan_type :: "account_env \<Rightarrow> account \<Rightarrow> string list \<Rightarrow> bool" where
  "matches_any_plan_type env a plans =
     (plans = [] \<or>
      (case normalize_account_type env (field a ''type'') of
         None \<Rightarrow> False
       | Some t \<Rightarrow> t \<in> set (List.map_filter (\<lambda>p. normalize_account_type env (PStr p)) plans)))"

definition matches_filter :: "account_env \<Rightarrow> account \<Rightarrow> account_filter \<Rightarrow> bool" where
  "matches_filter env a f =
     (matches_plan_type env a (af_plan_type f) \<and> matches_any_plan_type env a (af_plan_types f) \<and>
      matches_source_type env a (af_source_type f))"

end
