(* ===== verification/Keyed_Storage.thy ===== *)
theory Keyed_Storage
  imports Queue_Rows
begin

text \<open>
  The storage of accounts and keys (\<open>services/storage/\<close>): a collection of items under their
  identity with a revision, changed by batches that carry the revision they were computed
  from (\<open>mutation.py\<close>, \<open>database_storage.py\<close>). The client's contract is the locale
  \<open>cas_store\<close>; the database adapter is interpreted in it.
\<close>

section \<open>Batches\<close>

datatype storage_error = RevisionConflict nat nat | InvalidItems

record 'v mutation =
  mu_upserts :: "'v list"
  mu_delete_keys :: "string list"
  mu_expected :: "nat option"

record mutation_result =
  mr_revision :: nat
  mr_inserted :: nat
  mr_updated :: nat
  mr_deleted :: nat

text \<open>\<open>key\<close> is \<open>item_key\<close>: the stripped text of the identity field, empty when it is missing.\<close>

definition normalize_items :: "('v \<Rightarrow> string) \<Rightarrow> 'v list \<Rightarrow> storage_error + 'v list" where
  "normalize_items key items =
     (if (\<exists>v \<in> set items. key v = '''') \<or> \<not> distinct (map key items) then Inl InvalidItems else Inr items)"

definition normalize_mutation ::
  "('v \<Rightarrow> string) \<Rightarrow> 'v mutation \<Rightarrow> storage_error + ('v list \<times> string list)" where
  "normalize_mutation key m =
     (case normalize_items key (mu_upserts m) of
        Inl e \<Rightarrow> Inl e
      | Inr upserts \<Rightarrow>
          let delete_keys = dedup_first (map py_strip (mu_delete_keys m))
          in if '''' \<in> set delete_keys then Inl InvalidItems
             else if key ` set upserts \<inter> set delete_keys \<noteq> {} then Inl InvalidItems
             else Inr (upserts, delete_keys))"

section \<open>The database adapter\<close>

record 'v storage =
  st_items :: "(string \<times> 'v) list"
  st_version :: nat

definition load_snapshot :: "'v storage \<Rightarrow> 'v list \<times> nat" where
  "load_snapshot s = (map snd (st_items s), st_version s)"

definition check_revision :: "nat option \<Rightarrow> nat \<Rightarrow> storage_error option" where
  "check_revision expected actual =
     (case expected of None \<Rightarrow> None
      | Some r \<Rightarrow> if r \<noteq> actual then Some (RevisionConflict r actual) else None)"

definition upsert_item ::
  "('v \<Rightarrow> string) \<Rightarrow> 'v \<Rightarrow> (string \<times> 'v) list \<times> nat \<times> nat \<Rightarrow> (string \<times> 'v) list \<times> nat \<times> nat" where
  "upsert_item key v acc =
     (case acc of (items, inserted, updated) \<Rightarrow>
        case map_of items (key v) of
          None \<Rightarrow> (dict_set (key v) v items, inserted + 1, updated)
        | Some old \<Rightarrow> if old \<noteq> v then (dict_set (key v) v items, inserted, updated + 1)
                      else (items, inserted, updated))"

definition write_items ::
  "('v \<Rightarrow> string) \<Rightarrow> 'v list \<Rightarrow> (string \<Rightarrow> bool) \<Rightarrow> 'v storage \<Rightarrow> mutation_result \<times> 'v storage" where
  "write_items key upserts gone s =
     (let kept = filter (\<lambda>(k, v). \<not> gone k) (st_items s);
          deleted = length (st_items s) - length kept;
          (items, inserted, updated) = fold (upsert_item key) upserts (kept, 0, 0);
          version = (if 0 < inserted + updated + deleted then st_version s + 1 else st_version s)
      in (\<lparr>mr_revision = version, mr_inserted = inserted, mr_updated = updated, mr_deleted = deleted\<rparr>,
          \<lparr>st_items = items, st_version = version\<rparr>))"

definition mutate_items ::
  "('v \<Rightarrow> string) \<Rightarrow> 'v mutation \<Rightarrow> 'v storage \<Rightarrow> storage_error + (mutation_result \<times> 'v storage)" where
  "mutate_items key m s =
     (case normalize_mutation key m of
        Inl e \<Rightarrow> Inl e
      | Inr (upserts, delete_keys) \<Rightarrow>
          (case check_revision (mu_expected m) (st_version s) of
             Some e \<Rightarrow> Inl e
           | None \<Rightarrow> Inr (write_items key upserts (\<lambda>k. k \<in> set delete_keys) s)))"

definition replace_items ::
  "('v \<Rightarrow> string) \<Rightarrow> 'v list \<Rightarrow> nat option \<Rightarrow> 'v storage \<Rightarrow> storage_error + (mutation_result \<times> 'v storage)" where
  "replace_items key items expected s =
     (case normalize_items key items of
        Inl e \<Rightarrow> Inl e
      | Inr desired \<Rightarrow>
          (case check_revision expected (st_version s) of
             Some e \<Rightarrow> Inl e
           | None \<Rightarrow> Inr (write_items key desired (\<lambda>k. k \<notin> key ` set desired) s)))"

text \<open>
  The reference of \<open>mutation.py\<close>: a batch applied to a plain list of items
  (\<open>apply_mutation_to_items\<close>) and the counts of a replacement (\<open>replacement_counts\<close>).
\<close>

definition pop_counted :: "string \<Rightarrow> (string \<times> 'v) list \<times> nat \<Rightarrow> (string \<times> 'v) list \<times> nat" where
  "pop_counted k acc =
     (case acc of (items, deleted) \<Rightarrow>
        case map_of items k of
          None \<Rightarrow> (items, deleted)
        | Some _ \<Rightarrow> (filter (\<lambda>(k', v). k' \<noteq> k) items, deleted + 1))"

definition apply_mutation_to_items ::
  "('v \<Rightarrow> string) \<Rightarrow> 'v list \<Rightarrow> 'v mutation \<Rightarrow> storage_error + ('v list \<times> nat \<times> nat \<times> nat)" where
  "apply_mutation_to_items key current m =
     (case normalize_mutation key m of
        Inl e \<Rightarrow> Inl e
      | Inr (upserts, delete_keys) \<Rightarrow>
          (case normalize_items key current of
             Inl e \<Rightarrow> Inl e
           | Inr items \<Rightarrow>
               let (kept, deleted) = fold pop_counted delete_keys (map (\<lambda>v. (key v, v)) items, 0);
                   (by_key, inserted, updated) = fold (upsert_item key) upserts (kept, 0, 0)
               in Inr (map snd by_key, inserted, updated, deleted)))"

text \<open>The batch that turns one view into another, with the revision it is based on.\<close>

definition mutation_between ::
  "(string \<times> 'v) list \<Rightarrow> (string \<times> 'v) list \<Rightarrow> nat \<Rightarrow> 'v mutation" where
  "mutation_between baseline desired revision =
     \<lparr>mu_upserts = map snd (filter (\<lambda>(k, v). map_of baseline k \<noteq> Some v) desired),
      mu_delete_keys = filter (\<lambda>k. map_of desired k = None) (map fst baseline),
      mu_expected = Some revision\<rparr>"

section \<open>What a batch does\<close>

definition mutation_ok :: "('v \<Rightarrow> string) \<Rightarrow> 'v mutation \<Rightarrow> bool" where
  "mutation_ok key m \<longleftrightarrow> (\<exists>p. normalize_mutation key m = Inr p)"

definition upsert_map :: "('v \<Rightarrow> string) \<Rightarrow> 'v list \<Rightarrow> string \<rightharpoonup> 'v" where
  "upsert_map key vs = map_of (map (\<lambda>v. (key v, v)) vs)"

definition mutated :: "('v \<Rightarrow> string) \<Rightarrow> 'v mutation \<Rightarrow> (string \<rightharpoonup> 'v) \<Rightarrow> string \<rightharpoonup> 'v" where
  "mutated key m c =
     (\<lambda>k. case upsert_map key (mu_upserts m) k of
            Some v \<Rightarrow> Some v
          | None \<Rightarrow> if k \<in> py_strip ` set (mu_delete_keys m) then None else c k)"

lemma upsert_item_content:
  "map_of (fst (upsert_item key v acc)) = (map_of (fst acc))(key v \<mapsto> v)"
  by (auto simp: upsert_item_def map_of_dict_set split: prod.splits option.splits)

lemma fold_upsert_content:
  "map_of (fst (fold (upsert_item key) vs acc)) =
     (\<lambda>k. case upsert_map key (rev vs) k of Some v \<Rightarrow> Some v | None \<Rightarrow> map_of (fst acc) k)"
proof (induction vs arbitrary: acc)
  case (Cons v vs)
  show ?case
    by (rule ext)
       (simp add: Cons upsert_item_content upsert_map_def map_add_def split: option.splits)
qed (simp add: upsert_map_def)

lemma upsert_map_rev: "distinct (map key vs) \<Longrightarrow> upsert_map key (rev vs) = upsert_map key vs"
  unfolding upsert_map_def
  by (subst map_of_inject_set) (simp_all add: comp_def flip: rev_map)

text \<open>A batch that counts no change changes nothing.\<close>

abbreviation change_count :: "'a \<times> nat \<times> nat \<Rightarrow> nat" where
  "change_count acc \<equiv> fst (snd acc) + snd (snd acc)"

lemma upsert_item_counts:
  shows "change_count acc \<le> change_count (upsert_item key v acc)"
    and "change_count (upsert_item key v acc) = change_count acc \<Longrightarrow> fst (upsert_item key v acc) = fst acc"
  by (auto simp: upsert_item_def split: prod.splits option.splits if_splits)

lemma fold_upsert_counts:
  "change_count acc \<le> change_count (fold (upsert_item key) vs acc) \<and>
   (change_count (fold (upsert_item key) vs acc) = change_count acc \<longrightarrow>
      fst (fold (upsert_item key) vs acc) = fst acc)"
proof (induction vs arbitrary: acc)
  case (Cons v vs)
  show ?case
    using upsert_item_counts [where acc = acc and key = key and v = v] Cons.IH [of "upsert_item key v acc"]
    by (auto simp only: fold_Cons o_apply)
qed simp

lemma map_of_drop_keys:
  "map_of (filter (\<lambda>(k, v). \<not> gone k) xs) = (\<lambda>k. if gone k then None else map_of xs k)"
  by (induction xs) (auto simp: fun_eq_iff)

lemma write_items_content:
  assumes "write_items key vs gone s = (r, s')" and "distinct (map key vs)"
  shows "map_of (st_items s') =
      (\<lambda>k. case upsert_map key vs k of Some v \<Rightarrow> Some v | None \<Rightarrow> if gone k then None else map_of (st_items s) k)"
    and "mr_revision r = st_version s'"
    and "st_version s' = st_version s \<or> st_version s' = st_version s + 1"
    and "st_version s' = st_version s \<Longrightarrow> st_items s' = st_items s"
proof -
  let ?kept = "filter (\<lambda>(k, v). \<not> gone k) (st_items s)"
  obtain items ins upd where f: "fold (upsert_item key) vs (?kept, 0, 0) = (items, ins, upd)"
    by (metis surj_pair)
  have kept: "map_of ?kept = (\<lambda>k. if gone k then None else map_of (st_items s) k)"
    by (rule map_of_drop_keys)
  have version: "st_version s' = (if 0 < ins + upd + (length (st_items s) - length ?kept) then st_version s + 1 else st_version s)"
    and items: "st_items s' = items" and rev: "mr_revision r = st_version s'"
    using assms(1) by (auto simp add: write_items_def f Let_def simp del: length_filter_le)
  show "map_of (st_items s') =
      (\<lambda>k. case upsert_map key vs k of Some v \<Rightarrow> Some v | None \<Rightarrow> if gone k then None else map_of (st_items s) k)"
    using fold_upsert_content [of key vs "(?kept, 0, 0)"]
    by (simp only: f fst_conv items kept upsert_map_rev [OF assms(2)])
  show "mr_revision r = st_version s'" by (rule rev)
  show "st_version s' = st_version s \<or> st_version s' = st_version s + 1" by (simp add: version)
  assume "st_version s' = st_version s"
  then have counts: "ins + upd = 0" and "length (st_items s) \<le> length ?kept"
    by (auto simp: version simp del: length_filter_le split: if_splits)
  then have all_kept: "?kept = st_items s" by (metis (no_types, lifting) filter_id_conv length_filter_less not_less)
  show "st_items s' = st_items s"
    using fold_upsert_counts [where acc = "(?kept, 0, 0)" and vs = vs and key = key] counts
    by (simp add: f items) (simp add: all_kept)
qed


section \<open>The adapter against the reference\<close>

text \<open>The rows of the table carry their item's identity, each once.\<close>

definition storage_ok :: "('v \<Rightarrow> string) \<Rightarrow> 'v storage \<Rightarrow> bool" where
  "storage_ok key s \<longleftrightarrow>
     distinct (map fst (st_items s)) \<and> (\<forall>(k, v) \<in> set (st_items s). key v = k \<and> k \<noteq> '''')"

lemma filter_key_length:
  "distinct (map fst xs) \<Longrightarrow>
     length (filter (\<lambda>(k', v). k' \<noteq> k) xs) = length xs - (case map_of xs k of None \<Rightarrow> 0 | Some _ \<Rightarrow> 1)"
proof (induction xs)
  case (Cons x xs)
  show ?case
  proof (cases "fst x = k")
    case True
    with Cons.prems have "filter (\<lambda>(k', v). k' \<noteq> k) xs = xs"
      by (auto simp: filter_id_conv image_iff)
    with True show ?thesis by (cases x) simp
  next
    case False
    have "map_of xs k \<noteq> None \<Longrightarrow> 0 < length xs" by (cases xs) auto
    with False Cons show ?thesis by (auto simp: case_prod_beta split: option.splits)
  qed
qed simp

lemma add_diffs: "c \<le> b \<Longrightarrow> b \<le> a \<Longrightarrow> n + (a - b) + (b - c) = n + (a - c)" for a b c n :: nat
  by arith

lemma fold_pop_counted:
  "distinct (map fst xs) \<Longrightarrow>
     fold pop_counted ks (xs, n) =
       (filter (\<lambda>(k, v). k \<notin> set ks) xs, n + (length xs - length (filter (\<lambda>(k, v). k \<notin> set ks) xs)))"
proof (induction ks arbitrary: xs n)
  case (Cons k ks)
  let ?ys = "filter (\<lambda>(k', v). k' \<noteq> k) xs"
  have pop: "pop_counted k (xs, n) = (?ys, n + (length xs - length ?ys))"
  proof (cases "map_of xs k")
    case None
    then have "?ys = xs" by (force simp: filter_id_conv map_of_eq_None_iff)
    with None show ?thesis by (simp add: pop_counted_def)
  next
    case (Some v)
    then have "0 < length xs" by (cases xs) auto
    then have "n + (length xs - (length xs - 1)) = n + 1" by arith
    moreover have "length ?ys = length xs - 1" using filter_key_length [OF Cons.prems, of k] Some by simp
    ultimately show ?thesis using Some by (simp only: pop_counted_def prod.case option.case)
  qed
  have both: "filter (\<lambda>(k', v). k' \<notin> set ks) ?ys = filter (\<lambda>(k', v). k' \<notin> set (k # ks)) xs"
    by (auto intro!: filter_cong)
  have "distinct (map fst ?ys)" using Cons.prems by (rule distinct_map_filter)
  from Cons.IH [OF this] show ?case
    using add_diffs [OF length_filter_le [of "\<lambda>(k', v). k' \<notin> set ks" ?ys] length_filter_le [of "\<lambda>(k', v). k' \<noteq> k" xs]]
    by (simp only: fold_Cons o_apply pop both)
qed simp

lemma storage_ok_items: "storage_ok key s \<Longrightarrow> map (\<lambda>v. (key v, v)) (map snd (st_items s)) = st_items s"
  by (auto simp: storage_ok_def comp_def intro!: map_idI)

lemma storage_ok_normal: "storage_ok key s \<Longrightarrow> normalize_items key (map snd (st_items s)) = Inr (map snd (st_items s))"
proof -
  assume ok: "storage_ok key s"
  from storage_ok_items [OF ok] have "map key (map snd (st_items s)) = map fst (st_items s)"
    by (metis (no_types, lifting) comp_def fst_conv list.map_comp map_eq_conv)
  then have "distinct (map key (map snd (st_items s)))" using ok by (simp only: storage_ok_def)
  moreover have "\<forall>v \<in> set (map snd (st_items s)). key v \<noteq> ''''" using ok by (auto simp: storage_ok_def)
  ultimately show ?thesis by (simp add: normalize_items_def)
qed

text \<open>
  The database adapter is the reference: on a table whose rows carry their own
  identity, a batch that is not based on an outdated revision leaves the items, in their
  order, and reports the counts of inserted, updated and deleted items that
  \<open>apply_mutation_to_items\<close> computes on the plain list, and it is refused for the same
  reason.
\<close>

theorem mutate_matches_reference:
  assumes "storage_ok key s" and "mu_expected m = None \<or> mu_expected m = Some (st_version s)"
  shows "(case mutate_items key m s of
            Inl e \<Rightarrow> Inl e
          | Inr (r, s') \<Rightarrow> Inr (fst (load_snapshot s'), mr_inserted r, mr_updated r, mr_deleted r)) =
         apply_mutation_to_items key (fst (load_snapshot s)) m"
proof (cases "normalize_mutation key m")
  case (Inr p)
  obtain upserts ks where p: "p = (upserts, ks)" by (cases p)
  have rev: "check_revision (mu_expected m) (st_version s) = None"
    using assms(2) by (auto simp: check_revision_def)
  obtain items ins upd where f:
    "fold (upsert_item key) upserts (filter (\<lambda>(k, v). k \<notin> set ks) (st_items s), 0, 0) = (items, ins, upd)"
    by (metis surj_pair)
  have "distinct (map fst (st_items s))" using assms(1) by (simp add: storage_ok_def)
  from fold_pop_counted [OF this] show ?thesis
    by (simp add: mutate_items_def apply_mutation_to_items_def load_snapshot_def Inr p rev write_items_def f Let_def
        storage_ok_normal [OF assms(1)] storage_ok_items [OF assms(1), simplified])
qed (simp add: mutate_items_def apply_mutation_to_items_def)

theorem mutate_matches_reference_witness:
  "apply_mutation_to_items (\<lambda>(k, n). k) [(''a'', 1::nat), (''b'', 2)]
     \<lparr>mu_upserts = [(''c'', 3), (''a'', 5)], mu_delete_keys = ['' b''], mu_expected = Some 7\<rparr> =
   Inr ([(''a'', 5), (''c'', 3)], 1, 1, 1)"
proof -
  let ?key = "\<lambda>(k :: string, n :: nat). k"
  let ?s = "\<lparr>st_items = [(''a'', (''a'', 1)), (''b'', (''b'', 2))], st_version = 7\<rparr>"
  let ?m = "\<lparr>mu_upserts = [(''c'', 3), (''a'', 5)], mu_delete_keys = ['' b''], mu_expected = Some 7\<rparr>"
  have run: "mutate_items ?key ?m ?s =
      Inr (\<lparr>mr_revision = 8, mr_inserted = 1, mr_updated = 1, mr_deleted = 1\<rparr>,
        \<lparr>st_items = [(''a'', (''a'', 5)), (''c'', (''c'', 3))], st_version = 8\<rparr>)" by code_simp
  have "storage_ok ?key ?s" "mu_expected ?m = None \<or> mu_expected ?m = Some (st_version ?s)"
    by (simp_all add: storage_ok_def)
  from mutate_matches_reference [OF this] show ?thesis
    unfolding run by (simp add: load_snapshot_def)
qed

section \<open>The contract of the clients\<close>

text \<open>Any process may write: a step of the table is a batch or a replacement that is accepted.\<close>

inductive storage_step :: "('v \<Rightarrow> string) \<Rightarrow> 'v storage \<Rightarrow> 'v storage \<Rightarrow> bool" for key where
  mutated_step: "mutate_items key m s = Inr (r, t) \<Longrightarrow> storage_step key s t"
| replaced_step: "replace_items key items expected s = Inr (r, t) \<Longrightarrow> storage_step key s t"

text \<open>
  What a client of the storage relies on: a batch computed from an outdated revision is
  refused and changes nothing, a batch on the current revision does exactly what it says,
  and a revision names one content for ever.
\<close>

locale cas_store =
  fixes content :: "'s \<Rightarrow> string \<rightharpoonup> 'v"
    and revision :: "'s \<Rightarrow> nat"
    and valid :: "'s \<Rightarrow> bool"
    and key :: "'v \<Rightarrow> string"
    and mutate :: "'v mutation \<Rightarrow> 's \<Rightarrow> storage_error + (mutation_result \<times> 's)"
    and step :: "'s \<Rightarrow> 's \<Rightarrow> bool"
  assumes refused: "mutation_ok key m \<Longrightarrow> mu_expected m = Some r \<Longrightarrow> r \<noteq> revision s \<Longrightarrow>
      mutate m s = Inl (RevisionConflict r (revision s))"
    and accepted: "valid s \<Longrightarrow> mutation_ok key m \<Longrightarrow> mu_expected m = Some (revision s) \<Longrightarrow>
      \<exists>res s'. mutate m s = Inr (res, s') \<and> content s' = mutated key m (content s) \<and>
        mr_revision res = revision s' \<and> valid s'"
    and versioned: "valid s \<Longrightarrow> step s t \<Longrightarrow>
      valid t \<and> (content t = content s \<and> revision t = revision s \<or> revision s < revision t)"
begin

lemma history_versioned:
  "step\<^sup>*\<^sup>* s t \<Longrightarrow> valid s \<Longrightarrow>
     valid t \<and> (content t = content s \<and> revision t = revision s \<or> revision s < revision t)"
proof (induction rule: rtranclp_induct)
  case (step t u)
  then show ?case using versioned [of t u] by auto
qed simp

text \<open>No lost update: a write that is accepted saw everything written before it.\<close>

lemma accepted_write_saw_everything:
  assumes "step\<^sup>*\<^sup>* s t" "valid s" "mutation_ok key m" "mu_expected m = Some (revision s)"
    and "mutate m t = Inr (res, u)"
  shows "content t = content s \<and> content u = mutated key m (content s)"
proof -
  have same: "revision t = revision s"
    using refused [OF assms(3,4), of t] assms(5) by (cases "revision t = revision s") auto
  with history_versioned [OF assms(1,2)] have content: "content t = content s" by auto
  obtain res' u' where "mutate m t = Inr (res', u')" "content u' = mutated key m (content t)"
    using accepted [of t m] history_versioned [OF assms(1,2)] assms(3,4) same by auto
  with assms(5) content show ?thesis by simp
qed

end

lemma normalize_distinct: "normalize_mutation key m = Inr (us, ks) \<Longrightarrow> us = mu_upserts m \<and> distinct (map key us)"
  by (auto simp: normalize_mutation_def normalize_items_def Let_def split: sum.splits if_splits)

lemma normalize_delete_keys: "normalize_mutation key m = Inr (us, ks) \<Longrightarrow> set ks = py_strip ` set (mu_delete_keys m)"
  by (auto simp: normalize_mutation_def normalize_items_def Let_def split: sum.splits if_splits)

lemma normalize_nonempty: "normalize_mutation key m = Inr (us, ks) \<Longrightarrow> \<forall>v \<in> set us. key v \<noteq> ''''"
  by (auto simp: normalize_mutation_def normalize_items_def Let_def split: sum.splits if_splits)

lemma upsert_item_ok:
  assumes "distinct (map fst (fst acc)) \<and> (\<forall>(k, v) \<in> set (fst acc). key v = k \<and> k \<noteq> '''')" and "key v \<noteq> ''''"
  shows "distinct (map fst (fst (upsert_item key v acc))) \<and>
    (\<forall>(k, v) \<in> set (fst (upsert_item key v acc)). key v = k \<and> k \<noteq> '''')"
proof -
  have "distinct (map fst (dict_set (key v) v (fst acc)))"
    using assms(1) by (simp add: distinct_dict_set)
  moreover have "\<forall>(k, v) \<in> set (dict_set (key v) v (fst acc)). key v = k \<and> k \<noteq> ''''"
    using assms by (auto simp: dict_set_def split: if_splits)
  moreover have "fst (upsert_item key v acc) = dict_set (key v) v (fst acc) \<or>
      fst (upsert_item key v acc) = fst acc"
    by (simp add: upsert_item_def split: prod.split option.split)
  ultimately show ?thesis using assms(1) by (elim disjE) (simp, simp)
qed

lemma fold_upsert_ok:
  "distinct (map fst (fst acc)) \<and> (\<forall>(k, v) \<in> set (fst acc). key v = k \<and> k \<noteq> '''') \<Longrightarrow>
   \<forall>v \<in> set vs. key v \<noteq> '''' \<Longrightarrow>
   distinct (map fst (fst (fold (upsert_item key) vs acc))) \<and>
     (\<forall>(k, v) \<in> set (fst (fold (upsert_item key) vs acc)). key v = k \<and> k \<noteq> '''')"
proof (induction vs arbitrary: acc)
  case (Cons v vs)
  have "key v \<noteq> ''''" using Cons.prems(2) by simp
  moreover have "\<forall>v \<in> set vs. key v \<noteq> ''''" using Cons.prems(2) by simp
  ultimately show ?case
    using Cons.IH [OF upsert_item_ok [OF Cons.prems(1)]] by (simp only: fold_Cons o_apply)
qed simp

lemma write_items_ok:
  assumes "write_items key vs gone s = (r, s')" "storage_ok key s" "\<forall>v \<in> set vs. key v \<noteq> ''''"
  shows "storage_ok key s'"
proof -
  let ?kept = "filter (\<lambda>(k, v). \<not> gone k) (st_items s)"
  obtain items ins upd where f: "fold (upsert_item key) vs (?kept, 0, 0) = (items, ins, upd)"
    by (metis surj_pair)
  have "distinct (map fst ?kept) \<and> (\<forall>(k, v) \<in> set ?kept. key v = k \<and> k \<noteq> '''')"
    using assms(2) by (auto simp: storage_ok_def intro: distinct_map_filter)
  from fold_upsert_ok [where acc = "(?kept, 0, 0)", simplified fst_conv, OF this assms(3)] f
  have "distinct (map fst items) \<and> (\<forall>(k, v) \<in> set items. key v = k \<and> k \<noteq> '''')" by simp
  moreover have "st_items s' = items" using assms(1) f by (auto simp: write_items_def Let_def)
  ultimately show ?thesis by (simp add: storage_ok_def)
qed


lemma mutate_items_ok:
  assumes "storage_ok key s" and "mutate_items key m s = Inr (r, t)"
  shows "storage_ok key t" and "map_of (st_items t) = mutated key m (map_of (st_items s))"
    and "mr_revision r = st_version t"
    and "map_of (st_items t) = map_of (st_items s) \<and> st_version t = st_version s \<or> st_version s < st_version t"
proof -
  obtain us ks where n: "normalize_mutation key m = Inr (us, ks)"
    and w: "write_items key us (\<lambda>k. k \<in> set ks) s = (r, t)"
    using assms(2) by (auto simp: mutate_items_def split: sum.splits option.splits)
  note us = normalize_distinct [OF n] and content = write_items_content [OF w]
  show "storage_ok key t" by (rule write_items_ok [OF w assms(1) normalize_nonempty [OF n]])
  show "map_of (st_items t) = mutated key m (map_of (st_items s))"
    unfolding mutated_def normalize_delete_keys [OF n, symmetric] conjunct1 [OF us, symmetric]
    by (rule content(1) [OF conjunct2 [OF us]])
  show "mr_revision r = st_version t"
    "map_of (st_items t) = map_of (st_items s) \<and> st_version t = st_version s \<or> st_version s < st_version t"
    using content(2,3,4) us by auto
qed

lemma replace_items_ok:
  assumes "storage_ok key s" and "replace_items key items expected s = Inr (r, t)"
  shows "storage_ok key t"
    and "map_of (st_items t) = map_of (st_items s) \<and> st_version t = st_version s \<or> st_version s < st_version t"
proof -
  have n: "(\<forall>v \<in> set items. key v \<noteq> '''') \<and> distinct (map key items)"
    and w: "write_items key items (\<lambda>k. k \<notin> key ` set items) s = (r, t)"
    using assms(2) by (auto simp: replace_items_def normalize_items_def split: sum.splits option.splits if_splits)
  show "storage_ok key t" by (rule write_items_ok [OF w assms(1)]) (use n in blast)
  show "map_of (st_items t) = map_of (st_items s) \<and> st_version t = st_version s \<or> st_version s < st_version t"
    using write_items_content(2,3,4) [OF w] n by auto
qed

interpretation db: cas_store "\<lambda>s. map_of (st_items s)" st_version "storage_ok key" key "mutate_items key" "storage_step key"
  for key
proof (unfold_locales, goal_cases)
  case (1 m r s)
  then show ?case by (auto simp: mutation_ok_def mutate_items_def check_revision_def)
next
  case (2 s m)
  then obtain us ks where "normalize_mutation key m = Inr (us, ks)"
    by (auto simp: mutation_ok_def)
  moreover obtain res t where "write_items key us (\<lambda>k. k \<in> set ks) s = (res, t)" by fastforce
  ultimately have m: "mutate_items key m s = Inr (res, t)"
    using 2(3) by (simp add: mutate_items_def check_revision_def)
  with mutate_items_ok [OF 2(1) m] show ?case by auto
next
  case (3 s t)
  then show ?case by (auto elim!: storage_step.cases dest: mutate_items_ok replace_items_ok)
qed

lemma map_of_changed:
  "distinct (map fst xs) \<Longrightarrow>
     map_of (filter (\<lambda>(k, v). b k \<noteq> Some v) xs) k = (if b k = map_of xs k then None else map_of xs k)"
proof (induction xs)
  case (Cons x xs)
  obtain a v where x: "x = (a, v)" by (cases x)
  have "k = a \<Longrightarrow> map_of xs k = None" using Cons.prems x by (simp add: map_of_eq_None_iff)
  with Cons x show ?case by auto
qed simp

text \<open>The batch between two views: an accepted one leaves exactly the wanted content.\<close>

lemma mutation_between_content:
  assumes "distinct (map fst desired)" and "\<forall>(k, v) \<in> set desired. key v = k"
    and "\<forall>(k, v) \<in> set baseline. py_strip k = k" "\<forall>(k, v) \<in> set desired. py_strip k = k"
  shows "mutated key (mutation_between baseline desired r) (map_of baseline) = map_of desired"
proof
  fix k
  have ups: "map (\<lambda>v. (key v, v)) (map snd (filter P desired)) = filter P desired" for P
    using assms(2) by (induction desired) auto
  have deleted: "py_strip ` set (filter (\<lambda>k. map_of desired k = None) (map fst baseline)) =
      {k \<in> fst ` set baseline. map_of desired k = None}"
    using assms(3) by force
  have up: "upsert_map key (map snd (filter (\<lambda>(k, v). map_of baseline k \<noteq> Some v) desired)) k =
      (if map_of baseline k = map_of desired k then None else map_of desired k)"
    unfolding upsert_map_def ups by (rule map_of_changed [OF assms(1)])
  have "map_of baseline k \<noteq> None \<longleftrightarrow> k \<in> fst ` set baseline"
    by (simp add: map_of_eq_None_iff)
  then show "mutated key (mutation_between baseline desired r) (map_of baseline) k = map_of desired k"
    unfolding mutated_def mutation_between_def mutation.select_convs up deleted
    by (cases "map_of desired k") auto
qed


section \<open>No lost update\<close>



end
