(* ===== verification/Account_Store.thy ===== *)
theory Account_Store
  imports Account_Model Keyed_Storage
begin

text \<open>
  The pool of a process and its storage: loading, the three-way merge after a conflict, the
  rotation of tokens and the save loop of \<open>services/account_service.py\<close>. A process keeps its
  view of the accounts, the snapshot it is based on and the revision of that snapshot; other
  processes write to the same storage between any two of its accesses.
\<close>

section \<open>The state of a process\<close>

type_synonym accounts = "(string \<times> account) list"

record pool =
  pl_accounts :: accounts
  pl_persisted :: accounts
  pl_revision :: nat
  pl_index :: nat
  pl_checked_at :: time
  pl_inflight :: "(string \<times> nat) list"
  pl_started :: "(string \<times> time list) list"
  pl_aliases :: "(string \<times> string) list"
  pl_refresh_pending :: "string list"
  pl_refresh_scopes :: "(string \<times> string) list"
  pl_refresh_started :: "(string \<times> time) list"
  pl_refresh_active :: "(string \<times> string) list"
  pl_refresh_rerun :: "string list"

definition dict_drop :: "'k \<Rightarrow> ('k \<times> 'v) list \<Rightarrow> ('k \<times> 'v) list" where
  "dict_drop k kvs = filter (\<lambda>(k', v). k' \<noteq> k) kvs"

abbreviation dict_keys :: "('k \<times> 'v) list \<Rightarrow> 'k list" where
  "dict_keys kvs \<equiv> map fst kvs"

section \<open>Token aliases\<close>

text \<open>Follow the aliases of rotated tokens until a token of the pool or a cycle is met.\<close>

function follow_alias :: "(string \<Rightarrow> bool) \<Rightarrow> (string \<times> string) list \<Rightarrow> string list \<Rightarrow> string \<Rightarrow> string" where
  "follow_alias stop aliases seen token =
     (if stop token \<or> token \<in> set seen then token
      else case map_of aliases token of
             None \<Rightarrow> token
           | Some target \<Rightarrow> follow_alias stop aliases (token # seen) target)"
  by pat_completeness auto

termination
proof (relation "measure (\<lambda>(stop, aliases, seen, token). card (fst ` set aliases - set seen))", goal_cases)
  case (2 stop aliases seen token target)
  then have "token \<in> fst ` set aliases - set seen" by (force dest: map_of_SomeD)
  then have "fst ` set aliases - set (token # seen) \<subset> fst ` set aliases - set seen" by auto
  then show ?case by (simp only: in_measure prod.case) (rule psubset_card_mono, simp)
qed simp

declare follow_alias.simps [simp del]

definition resolve_access_token :: "pool \<Rightarrow> string \<Rightarrow> string" where
  "resolve_access_token p token =
     follow_alias (\<lambda>t. t = '''' \<or> t \<in> set (dict_keys (pl_accounts p))) (pl_aliases p) [] (py_strip token)"

definition prune_token_aliases :: "pool \<Rightarrow> pool" where
  "prune_token_aliases p =
     (let present = (\<lambda>t. t \<in> set (dict_keys (pl_accounts p)));
          target = follow_alias present (pl_aliases p) []
      in p\<lparr>pl_aliases := map (\<lambda>s. (s, target s))
             (filter (\<lambda>s. present (target s) \<and> target s \<noteq> s) (dict_keys (pl_aliases p)))\<rparr>)"

definition wrapped_index :: "nat \<Rightarrow> accounts \<Rightarrow> nat" where
  "wrapped_index i accounts = (if accounts = [] then 0 else i mod length accounts)"

definition remove_account_runtime_state :: "string list \<Rightarrow> pool \<Rightarrow> pool" where
  "remove_account_runtime_state tokens p =
     (let removed = map py_strip (filter (\<lambda>t. t \<noteq> '''') tokens)
      in if removed = [] then p
         else p\<lparr>pl_inflight := filter (\<lambda>(t, n). t \<notin> set removed) (pl_inflight p),
                pl_started := filter (\<lambda>(t, n). t \<notin> set removed) (pl_started p),
                pl_aliases := filter (\<lambda>(s, t). s \<notin> set removed \<and> t \<notin> set removed) (pl_aliases p),
                pl_index := wrapped_index (pl_index p) (pl_accounts p)\<rparr>)"

text \<open>The runtime state of rotated tokens moves to the new token.\<close>

definition starts_of :: "pool \<Rightarrow> string \<Rightarrow> time list" where
  "starts_of p t = (case map_of (pl_started p) t of None \<Rightarrow> [] | Some ts \<Rightarrow> ts)"

definition inflight_of :: "pool \<Rightarrow> string \<Rightarrow> nat" where
  "inflight_of p t = (case map_of (pl_inflight p) t of None \<Rightarrow> 0 | Some n \<Rightarrow> n)"

definition move_slots :: "string \<Rightarrow> string list \<Rightarrow> pool \<Rightarrow> pool" where
  "move_slots new_token sources p =
     (let olds = filter (\<lambda>s. s \<noteq> new_token) sources;
          old_inflight = sum_list (map (inflight_of p) olds);
          inflight = filter (\<lambda>(t, n). t \<notin> set olds) (pl_inflight p);
          merged = concat (map (starts_of p) olds) @ starts_of p new_token;
          started = filter (\<lambda>(t, n). t \<notin> set olds) (pl_started p)
      in p\<lparr>pl_aliases := fold (\<lambda>s. dict_set s new_token) olds (pl_aliases p),
           pl_inflight := (if old_inflight \<noteq> 0
                           then dict_set new_token (inflight_of p new_token + old_inflight) inflight
                           else inflight),
           pl_started := (if merged \<noteq> [] then dict_set new_token (sort merged) started
                          else dict_drop new_token started)\<rparr>)"

definition move_refreshes :: "string \<Rightarrow> string list \<Rightarrow> pool \<Rightarrow> pool" where
  "move_refreshes new_token sources p =
     (let old_scopes = List.map_filter (map_of (pl_refresh_scopes p)) sources;
          scopes = filter (\<lambda>(t, s). t \<notin> set sources) (pl_refresh_scopes p);
          old_started = List.map_filter (map_of (pl_refresh_started p)) sources;
          started = filter (\<lambda>(t, s). t \<notin> set sources) (pl_refresh_started p)
      in p\<lparr>pl_refresh_pending :=
             dedup_first (map (\<lambda>t. if t \<in> set sources then new_token else t) (pl_refresh_pending p)),
           pl_refresh_scopes :=
             (if old_scopes = [] then scopes
              else dict_set new_token
                     (if ''account'' \<in> set old_scopes \<or> map_of scopes new_token = Some ''account''
                      then ''account'' else ''image'') scopes),
           pl_refresh_started :=
             (if old_started = [] then started
              else dict_set new_token
                     (max (Max (set old_started))
                        (case map_of started new_token of None \<Rightarrow> 0 | Some t \<Rightarrow> t)) started)\<rparr>)"

definition move_account_runtime_token :: "string \<Rightarrow> string list \<Rightarrow> pool \<Rightarrow> pool" where
  "move_account_runtime_token new_token sources p = move_refreshes new_token sources (move_slots new_token sources p)"


section \<open>Views\<close>

definition management_id :: "account_env \<Rightarrow> account \<Rightarrow> string" where
  "management_id env a = field_text env a ''management_id''"

definition tokens_by_management_id :: "account_env \<Rightarrow> accounts \<Rightarrow> (string \<times> string) list" where
  "tokens_by_management_id env loaded =
     fold (\<lambda>(token, a) d. if management_id env a \<noteq> '''' then dict_set (management_id env a) token d else d)
       loaded []"

text \<open>Tokens of the view that the loaded accounts no longer have, with the token that replaces them.\<close>

definition passive_token_rotations :: "account_env \<Rightarrow> accounts \<Rightarrow> pool \<Rightarrow> (string \<times> string list) list" where
  "passive_token_rotations env loaded p =
     List.map_filter
       (\<lambda>(old_token, a).
          if old_token \<in> set (dict_keys loaded) then None
          else case map_of (tokens_by_management_id env loaded) (management_id env a) of
                 None \<Rightarrow> None
               | Some new_token \<Rightarrow>
                   if new_token = '''' \<or> new_token = old_token then None
                   else Some (new_token,
                     filter (\<lambda>s. resolve_access_token p s = old_token)
                       (dedup_first (old_token # dict_keys (pl_aliases p)))))
       (pl_accounts p)"

definition apply_account_view ::
  "account_env \<Rightarrow> time \<Rightarrow> accounts \<Rightarrow> accounts \<Rightarrow> nat \<Rightarrow> bool \<Rightarrow> pool \<Rightarrow> pool" where
  "apply_account_view env now accounts persisted revision preserve_index p =
     (let rotations = passive_token_rotations env accounts p;
          p = p\<lparr>pl_accounts := accounts, pl_persisted := persisted, pl_revision := revision\<rparr>;
          p = fold (\<lambda>(new_token, sources). move_account_runtime_token new_token sources) rotations p;
          p = (if preserve_index then p else p\<lparr>pl_index := wrapped_index (pl_index p) accounts\<rparr>)
      in p\<lparr>pl_checked_at := now\<rparr>)"

section \<open>Loading\<close>

definition recover_interrupted_check :: "account_env \<Rightarrow> time \<Rightarrow> account \<Rightarrow> account" where
  "recover_interrupted_check env now a =
     (let a = put ''last_remote_check_result'' (PStr ''error'') a;
          a = put ''last_remote_check_error''
                (por (field a ''last_remote_check_error'')
                   (PStr ''Account verification was interrupted by a service restart.'')) a;
          a = put ''last_remote_check_error_at'' (PStr (env_stamp env now)) a;
          a = put ''pending_auth_scope'' PNone (put ''pending_auth_remove_invalid'' PNone a)
      in pop ''pending_auth_verification_id'' a)"

definition load_item ::
  "account_env \<Rightarrow> time \<Rightarrow> bool \<Rightarrow> account \<Rightarrow> accounts \<times> string list \<times> bool \<Rightarrow> accounts \<times> string list \<times> bool" where
  "load_item env now recover item acc =
     (case acc of (loaded, used, changed) \<Rightarrow>
        case normalize_account env item of
          None \<Rightarrow> (loaded, used, True)
        | Some a \<Rightarrow>
            let token = field_text env a ''access_token'';
                used = (case map_of loaded token of
                          Some previous \<Rightarrow> filter (\<lambda>u. u \<noteq> py_lower (management_id env previous)) used
                        | None \<Rightarrow> used);
                id = unique_management_id env token (field a ''management_id'') used;
                b = (if PStr id \<noteq> field a ''management_id'' then put ''management_id'' (PStr id) a else a);
                c = (if recover \<and> field b ''last_remote_check_result'' = PStr ''pending'' \<and>
                        field b ''pending_auth_scope'' \<noteq> PStr ''image''
                     then recover_interrupted_check env now b else b)
            in (dict_set (access_token_of env c) c loaded, id # used, changed \<or> b \<noteq> a \<or> c \<noteq> b \<or> c \<noteq> item))"

definition normalize_loaded_accounts :: "account_env \<Rightarrow> time \<Rightarrow> bool \<Rightarrow> account list \<Rightarrow> accounts \<times> bool" where
  "normalize_loaded_accounts env now recover items =
     (case fold (load_item env now recover) items ([], [], False) of (loaded, used, changed) \<Rightarrow> (loaded, changed))"

definition account_key :: "account_env \<Rightarrow> account \<Rightarrow> string" where
  "account_key env a = field_text env a ''access_token''"

definition read_accounts_snapshot ::
  "account_env \<Rightarrow> time \<Rightarrow> bool \<Rightarrow> account storage \<Rightarrow> accounts \<times> nat \<times> bool" where
  "read_accounts_snapshot env now recover s =
     (case load_snapshot s of (items, revision) \<Rightarrow>
        case normalize_loaded_accounts env now recover items of (loaded, changed) \<Rightarrow> (loaded, revision, changed))"

definition storage_mutation_max_attempts :: nat where "storage_mutation_max_attempts = 4"

text \<open>
  The accesses of one call to the storage are numbered; \<open>others i\<close> is what the other
  processes do to it before access \<open>i\<close>.
\<close>

fun load_accounts ::
  "account_env \<Rightarrow> time \<Rightarrow> (nat \<Rightarrow> account storage \<Rightarrow> account storage) \<Rightarrow> nat \<Rightarrow> nat \<Rightarrow> account storage \<Rightarrow>
   (storage_error + accounts \<times> nat) \<times> account storage" where
  "load_accounts env now others i 0 s = (Inl (RevisionConflict 0 0), s)"
| "load_accounts env now others i (Suc left) s =
     (let s = others i s
      in case read_accounts_snapshot env now True s of (loaded, revision, changed) \<Rightarrow>
         if \<not> changed then (Inr (loaded, revision), s)
         else let s = others (i + 1) s
              in case replace_items (account_key env) (map snd loaded) (Some revision) s of
                   Inr (result, t) \<Rightarrow> (Inr (loaded, mr_revision result), t)
                 | Inl (RevisionConflict e a) \<Rightarrow>
                     if left = 0 then (Inl (RevisionConflict e a), s)
                     else load_accounts env now others (i + 2) left s
                 | Inl InvalidItems \<Rightarrow> (Inl InvalidItems, s))"

definition refresh_accounts_snapshot ::
  "account_env \<Rightarrow> time \<Rightarrow> time \<Rightarrow> account storage \<Rightarrow> pool \<Rightarrow> bool \<times> pool" where
  "refresh_accounts_snapshot env now ttl s p =
     (if now - pl_checked_at p < ttl then (False, p)
      else case read_accounts_snapshot env now False s of (loaded, revision, changed) \<Rightarrow>
             let p = p\<lparr>pl_checked_at := now\<rparr>
             in if revision = pl_revision p then (False, p)
                else (True, apply_account_view env now loaded loaded revision False p))"


section \<open>Merging after a conflict\<close>

definition additive_account_counters :: "string list" where
  "additive_account_counters = [''success'', ''fail'']"

definition merge_additive_account_value ::
  "account_env \<Rightarrow> string \<Rightarrow> account \<Rightarrow> account \<Rightarrow> account \<Rightarrow> int option" where
  "merge_additive_account_value env f baseline local remote =
     (case (fmlookup baseline f, fmlookup local f, fmlookup remote f) of
        (Some b, Some l, Some r) \<Rightarrow>
          (case (integer_field env b, integer_field env l, integer_field env r) of
             (Some b, Some l, Some r) \<Rightarrow> Some (max 0 (r + (l - b)))
           | _ \<Rightarrow> None)
      | _ \<Rightarrow> None)"

definition is_local_quota_consumption :: "account_env \<Rightarrow> account \<Rightarrow> account \<Rightarrow> bool" where
  "is_local_quota_consumption env baseline local =
     (case (integer_field env (field baseline ''quota''), integer_field env (field local ''quota'')) of
        (Some b, Some l) \<Rightarrow> l < b \<and> field local ''last_used_at'' \<noteq> field baseline ''last_used_at''
      | _ \<Rightarrow> False)"

text \<open>The value a changed field of the local account gets.\<close>

definition merged_value :: "account_env \<Rightarrow> account \<Rightarrow> account \<Rightarrow> account \<Rightarrow> string \<Rightarrow> pyval \<Rightarrow> pyval" where
  "merged_value env baseline local remote f v =
     (if f \<in> set additive_account_counters \<or> f = ''quota'' \<and> is_local_quota_consumption env baseline local
      then case merge_additive_account_value env f baseline local remote of Some n \<Rightarrow> PInt n | None \<Rightarrow> v
      else v)"

text \<open>
  The loop over the fields touches each field once: unchanged fields keep the remote value,
  changed fields get the merged value, and fields dropped locally are dropped.
\<close>

definition merge_account_fields :: "account_env \<Rightarrow> account \<Rightarrow> account \<Rightarrow> account \<Rightarrow> account" where
  "merge_account_fields env baseline local remote =
     (let changed = (\<lambda>f. fmlookup baseline f \<noteq> fmlookup local f)
      in fmfilter (\<lambda>f. \<not> changed f) remote ++\<^sub>f
         fmmap_keys (merged_value env baseline local remote) (fmfilter changed local))"

definition rotated_account_token ::
  "account_env \<Rightarrow> accounts \<Rightarrow> accounts \<Rightarrow> string \<Rightarrow> account \<Rightarrow> string option" where
  "rotated_account_token env accounts baseline old_token old_account =
     (let id = management_id env old_account
      in if id = '''' then None
         else map_option fst (find (\<lambda>(token, a). token \<noteq> old_token \<and> token \<notin> set (dict_keys baseline) \<and>
                management_id env a = id) accounts))"

text \<open>First loop: accounts of the baseline that the local view dropped or rotated.\<close>

definition merge_dropped_account ::
  "account_env \<Rightarrow> accounts \<Rightarrow> accounts \<Rightarrow> accounts \<Rightarrow> string \<times> account \<Rightarrow> accounts \<times> string list \<Rightarrow>
   accounts \<times> string list" where
  "merge_dropped_account env baseline local remote entry acc =
     (case (entry, acc) of ((token, base), (merged, handled)) \<Rightarrow>
        if token \<in> set (dict_keys local) then (merged, handled)
        else let local_rotation = rotated_account_token env local baseline token base;
                 remote_rotation = rotated_account_token env remote baseline token base
             in case local_rotation of
                  None \<Rightarrow>
                    (case remote_rotation of
                       None \<Rightarrow> (dict_drop token merged, handled)
                     | Some rotated \<Rightarrow> (dict_drop rotated (dict_drop token merged), handled))
                | Some rotated \<Rightarrow>
                    (case (map_of remote token, map_of local rotated) of
                       (Some theirs, Some ours) \<Rightarrow>
                         (dict_set rotated (merge_account_fields env base ours theirs) (dict_drop token merged),
                          rotated # handled)
                     | _ \<Rightarrow> (merged, rotated # handled)))"

text \<open>Second loop: accounts the local view added or changed.\<close>

definition merge_local_account ::
  "account_env \<Rightarrow> accounts \<Rightarrow> accounts \<Rightarrow> string list \<Rightarrow> string \<times> account \<Rightarrow> accounts \<Rightarrow> accounts" where
  "merge_local_account env baseline remote handled entry merged =
     (case entry of (token, ours) \<Rightarrow>
        if token \<in> set handled then merged
        else case map_of baseline token of
               None \<Rightarrow>
                 dict_set token (case map_of remote token of Some theirs \<Rightarrow> theirs ++\<^sub>f ours | None \<Rightarrow> ours) merged
             | Some base \<Rightarrow>
                 if ours = base then merged
                 else case map_of remote token of
                        Some theirs \<Rightarrow> dict_set token (merge_account_fields env base ours theirs) merged
                      | None \<Rightarrow>
                          (case rotated_account_token env remote baseline token base of
                             Some rotated \<Rightarrow>
                               (case map_of remote rotated of
                                  Some theirs \<Rightarrow>
                                    dict_drop token (dict_set rotated (merge_account_fields env base ours theirs) merged)
                                | None \<Rightarrow> merged)
                           | None \<Rightarrow> dict_drop token merged))"

definition merge_accounts_after_conflict ::
  "account_env \<Rightarrow> accounts \<Rightarrow> accounts \<Rightarrow> accounts \<Rightarrow> accounts" where
  "merge_accounts_after_conflict env baseline local remote =
     (case fold (merge_dropped_account env baseline local remote) baseline (remote, []) of
        (merged, handled) \<Rightarrow> fold (merge_local_account env baseline remote handled) local merged)"

section \<open>Saving\<close>

type_synonym credential_generation = "string \<times> string \<times> string"

definition credential_generation :: "account_env \<Rightarrow> string \<Rightarrow> account \<Rightarrow> credential_generation" where
  "credential_generation env token a =
     (py_strip (if truthy (field a ''access_token'') then py_str env (field a ''access_token'') else token),
      field_text env a ''refresh_token'', field_text env a ''last_token_refresh_at'')"

datatype save_result = Saved | StaleCredentials | SaveFailed storage_error

definition restore_accounts_after_save_error ::
  "account_env \<Rightarrow> time \<Rightarrow> account storage \<Rightarrow> pool \<Rightarrow> pool" where
  "restore_accounts_after_save_error env now s p =
     (case read_accounts_snapshot env now False s of (loaded, revision, changed) \<Rightarrow>
        apply_account_view env now loaded loaded revision True p)"

text \<open>The local view after a refused batch: merged into what the storage holds by now.\<close>

definition adopt_remote ::
  "account_env \<Rightarrow> time \<Rightarrow> credential_generation option \<Rightarrow> account storage \<Rightarrow> pool \<Rightarrow> bool \<times> pool" where
  "adopt_remote env now generation s p =
     (case read_accounts_snapshot env now False s of (remote, revision, changed) \<Rightarrow>
        if (case generation of
              None \<Rightarrow> False
            | Some g \<Rightarrow> (case map_of remote (fst g) of
                           None \<Rightarrow> True
                         | Some a \<Rightarrow> credential_generation env (fst g) a \<noteq> g))
        then (False, apply_account_view env now remote remote revision False p)
        else (True, apply_account_view env now
                (merge_accounts_after_conflict env (pl_persisted p) (pl_accounts p) remote)
                remote revision False p))"

fun save_attempts ::
  "account_env \<Rightarrow> time \<Rightarrow> (nat \<Rightarrow> account storage \<Rightarrow> account storage) \<Rightarrow> credential_generation option \<Rightarrow>
   nat \<Rightarrow> nat \<Rightarrow> pool \<Rightarrow> account storage \<Rightarrow> save_result \<times> pool \<times> account storage" where
  "save_attempts env now others generation i 0 p s = (SaveFailed (RevisionConflict 0 0), p, s)"
| "save_attempts env now others generation i (Suc left) p s =
     (let m = mutation_between (pl_persisted p) (pl_accounts p) (pl_revision p)
      in if mu_upserts m = [] \<and> mu_delete_keys m = [] then (Saved, prune_token_aliases p, s)
         else let s = others i s
              in case mutate_items (account_key env) m s of
                   Inr (result, t) \<Rightarrow>
                     (Saved, prune_token_aliases (p\<lparr>pl_persisted := pl_accounts p,
                        pl_revision := mr_revision result, pl_checked_at := now\<rparr>), t)
                 | Inl (RevisionConflict e a) \<Rightarrow>
                     let s = others (i + 1) s
                     in if left = 0
                        then (SaveFailed (RevisionConflict e a), restore_accounts_after_save_error env now s p, s)
                        else (case adopt_remote env now generation s p of
                                (False, p) \<Rightarrow> (StaleCredentials, p, s)
                              | (True, p) \<Rightarrow> save_attempts env now others generation (i + 2) left p s)
                 | Inl InvalidItems \<Rightarrow>
                     let s = others (i + 1) s
                     in (SaveFailed InvalidItems, restore_accounts_after_save_error env now s p, s))"

definition save_accounts ::
  "account_env \<Rightarrow> time \<Rightarrow> (nat \<Rightarrow> account storage \<Rightarrow> account storage) \<Rightarrow> credential_generation option \<Rightarrow>
   pool \<Rightarrow> account storage \<Rightarrow> save_result \<times> pool \<times> account storage" where
  "save_accounts env now others generation =
     save_attempts env now others generation 0 storage_mutation_max_attempts"

end
