(* ===== verification/Account_Normal.thy ===== *)
theory Account_Normal
  imports Account_Model
begin

text \<open>
  The normal form of accounts: what \<open>_normalize_account\<close> does to each field, and that an
  account in normal form is left alone.
\<close>

section \<open>Lookups\<close>

lemma lookup_put: "fmlookup (put f v a) g = (if g = f then Some v else fmlookup a g)"
  by (simp add: put_def)

lemma lookup_pop: "fmlookup (pop f a) g = (if g = f then None else fmlookup a g)"
  by (simp add: pop_def)

lemma lookup_or_none: "fmlookup (or_none f a) g = (if g = f then Some (por (field a f) PNone) else fmlookup a g)"
  by (simp add: or_none_def lookup_put)

lemma lookup_if: "fmlookup (if c then a else b) f = (if c then fmlookup a f else fmlookup b f)"
  by simp

lemma lookup_case_option:
  "fmlookup (case x of None \<Rightarrow> a | Some y \<Rightarrow> b y) f = (case x of None \<Rightarrow> fmlookup a f | Some y \<Rightarrow> fmlookup (b y) f)"
  by (simp split: option.split)

lemmas lookups = lookup_put lookup_pop lookup_or_none lookup_if lookup_case_option

lemma field_put: "field (put f v a) g = (if g = f then v else field a g)"
  by (simp add: field_def lookup_put)

lemma field_pop: "field (pop f a) g = (if g = f then PNone else field a g)"
  by (simp add: field_def lookup_pop)

lemma field_or_none: "field (or_none f a) g = (if g = f then por (field a f) PNone else field a g)"
  by (simp add: or_none_def field_put)

lemma por_PNone_idem: "por (por v PNone) PNone = por v PNone"
  by (simp add: por_def)

lemma lookup_fold_or_none:
  "fmlookup (fold or_none fs a) f = (if f \<in> set fs then Some (por (field a f) PNone) else fmlookup a f)"
proof (induction fs arbitrary: a)
  case (Cons g fs)
  show ?case by (simp add: Cons lookup_or_none field_or_none por_PNone_idem)
qed simp

lemma lookup_sanitize_field:
  "fmlookup (sanitize_field env g a) f =
     (if f = g \<and> truthy (field a f) then Some (sanitize_diagnostic_text env (field a f)) else fmlookup a f)"
  by (auto simp: sanitize_field_def lookup_put)

lemma lookup_fold_sanitize:
  "distinct fs \<Longrightarrow> fmlookup (fold (sanitize_field env) fs a) f =
     (if f \<in> set fs \<and> truthy (field a f) then Some (sanitize_diagnostic_text env (field a f)) else fmlookup a f)"
proof (induction fs arbitrary: a)
  case (Cons g fs)
  then show ?case by (auto simp: lookup_sanitize_field field_def)
qed simp

lemma lookup_fold_pop: "fmlookup (fold pop fs a) f = (if f \<in> set fs then None else fmlookup a f)"
  by (induction fs arbitrary: a) (auto simp: lookup_pop)

text \<open>The stages of the normalisation touch different fields.\<close>

lemma diagnostics_keep:
  "f \<notin> {''last_token_refresh_at'', ''last_token_refresh_error'', ''last_token_refresh_error_at'',
     ''refresh_token_invalid_at'', ''last_remote_check_error'', ''last_refresh_error'', ''capability_cooldowns'',
     ''capability_failure_counts'', ''capability_failure_codes'', ''capability_failed_at'', ''created_at''} \<Longrightarrow>
   fmlookup (normalize_diagnostics env a) f = fmlookup a f"
proof -
  assume "f \<notin> {''last_token_refresh_at'', ''last_token_refresh_error'', ''last_token_refresh_error_at'',
     ''refresh_token_invalid_at'', ''last_remote_check_error'', ''last_refresh_error'', ''capability_cooldowns'',
     ''capability_failure_counts'', ''capability_failure_codes'', ''capability_failed_at'', ''created_at''}"
  then have "f \<notin> set refresh_text_fields" "f \<notin> set error_text_fields" "f \<notin> set capability_fields" "f \<noteq> ''created_at''"
    by (simp_all add: refresh_text_fields_def error_text_fields_def capability_fields_def)
  moreover have "distinct error_text_fields" by (simp add: error_text_fields_def)
  ultimately show "fmlookup (normalize_diagnostics env a) f = fmlookup a f"
    by (simp add: normalize_diagnostics_def Let_def lookup_put lookup_fold_pop lookup_fold_sanitize lookup_fold_or_none)
qed

lemma remote_check_keep:
  "f \<notin> {''last_invalid_at'', ''last_refresh_error'', ''last_refresh_error_at'', ''last_remote_checked_at'',
     ''last_remote_check_attempt_at'', ''last_remote_check_error'', ''last_remote_check_error_at'',
     ''last_remote_check_event'', ''last_remote_check_result'', ''pending_auth_remove_invalid'',
     ''pending_auth_scope'', ''pending_auth_verification_id''} \<Longrightarrow>
   fmlookup (normalize_remote_check env a) f = fmlookup a f"
proof -
  assume f: "f \<notin> {''last_invalid_at'', ''last_refresh_error'', ''last_refresh_error_at'', ''last_remote_checked_at'',
     ''last_remote_check_attempt_at'', ''last_remote_check_error'', ''last_remote_check_error_at'',
     ''last_remote_check_event'', ''last_remote_check_result'', ''pending_auth_remove_invalid'',
     ''pending_auth_scope'', ''pending_auth_verification_id''}"
  then have "f \<notin> set check_text_fields" by (simp add: check_text_fields_def)
  with f show "fmlookup (normalize_remote_check env a) f = fmlookup a f"
    by (simp add: normalize_remote_check_def settle_verification_id_def settle_pending_scope_def
        settle_pending_remove_def settle_check_result_def Let_def lookups lookup_fold_or_none)
qed

lemma counters_keep:
  "f \<notin> {''success'', ''fail'', ''invalid_count'', ''last_used_at''} \<Longrightarrow>
   fmlookup (normalize_counters env a) f = fmlookup a f"
  by (simp add: normalize_counters_def Let_def lookups)

lemma quota_keep:
  "f \<notin> {''quota'', ''image_quota_unknown'', ''limits_progress'', ''default_model_slug'', ''restore_at''} \<Longrightarrow>
   fmlookup (normalize_quota_fields env explicit limits a) f = fmlookup a f"
  by (simp add: normalize_quota_fields_def settle_quota_def settle_quota_unknown_def settle_quota_status_def
      settle_restore_def lookups split: prod.split)

lemma status_keep:
  "f \<notin> {''type'', ''status'', ''auto_disabled'', ''enabled'', ''user_id'', ''email'', ''proxy'', ''source_type''} \<Longrightarrow>
   fmlookup (normalize_status_fields env a) f = fmlookup a f"
  by (simp add: normalize_status_fields_def settle_type_def settle_status_def settle_proxy_def settle_source_type_def
      Let_def lookups)

lemma identity_keep:
  "f \<notin> {''access_token'', ''accessToken'', ''management_id'', ''access_token_fingerprints'',
     ''managed_image_result_idempotency_keys'', ''type'', ''export_type''} \<Longrightarrow>
   fmlookup (normalize_identity env a) f = fmlookup a f"
  by (simp add: normalize_identity_def Let_def lookups split: option.split)


section \<open>Values\<close>

definition noneable :: "pyval \<Rightarrow> bool" where
  "noneable v \<longleftrightarrow> truthy v \<or> v = PNone"

lemma noneable_por [simp]: "noneable (por v PNone)" and por_noneable: "noneable v \<Longrightarrow> por v PNone = v"
  by (auto simp: noneable_def por_def)

lemma truthy_por [simp]: "truthy (por v PNone) = truthy v"
  by (simp add: por_def)

lemma put_id: "fmlookup a f = Some v \<Longrightarrow> put f v a = a"
  by (rule fmap_ext) (simp add: lookup_put)

lemma pop_id: "fmlookup a f = None \<Longrightarrow> pop f a = a"
  by (rule fmap_ext) (simp add: lookup_pop)

lemma field_Some: "fmlookup a f = Some v \<Longrightarrow> field a f = v"
  by (simp add: field_def)

lemma field_None: "fmlookup a f = None \<Longrightarrow> field a f = PNone"
  by (simp add: field_def)

lemma put_field: "field a f = v \<Longrightarrow> v \<noteq> PNone \<Longrightarrow> put f v a = a"
  by (rule put_id) (simp add: field_def split: option.splits)

lemma or_none_id: "fmlookup a f = Some v \<Longrightarrow> noneable v \<Longrightarrow> or_none f a = a"
  by (simp add: or_none_def field_Some por_noneable put_id)

lemma raw_text_str [simp]: "raw_text env (PStr s) = s"
  by (simp add: raw_text_def)

lemma raw_text_none [simp]: "raw_text env PNone = ''''"
  by (simp add: raw_text_def)

lemma text_of_str: "text_of env (PStr s) = py_strip s"
  by (simp add: text_of_def)

lemma text_of_text [simp]: "text_of env (PStr (text_of env v)) = text_of env v"
  by (simp add: text_of_def)

lemma digit_not_space: "n < 10 \<Longrightarrow> \<not> is_py_space (char_of (48 + n :: nat))"
proof -
  have space: "is_py_space c \<Longrightarrow> of_char c < (48 :: nat) \<or> (127 :: nat) < of_char c" for c
    by (auto simp: is_py_space_def Let_def)
  assume "n < 10"
  then have "of_char (char_of (48 + n :: nat) :: char) = 48 + n" by simp
  with space [of "char_of (48 + n)"] \<open>n < 10\<close> show ?thesis by auto
qed

lemma nat_text_chars: "nat_text n \<noteq> '''' \<and> (\<forall>c \<in> set (nat_text n). \<not> is_py_space c)"
proof (induction n rule: nat_text.induct)
  case (1 n)
  then show ?case by (auto simp: nat_text.simps [of n] digit_not_space)
qed

lemma int_text_chars: "int_text i \<noteq> '''' \<and> (\<forall>c \<in> set (int_text i). \<not> is_py_space c)"
proof -
  have "\<not> is_py_space (CHR ''-'')" by code_simp
  then show ?thesis using nat_text_chars [of "nat i"] nat_text_chars [of "nat (- i)"] by (auto simp: int_text_def)
qed

lemma strip_spaceless: "\<forall>c \<in> set s. \<not> is_py_space c \<Longrightarrow> py_strip s = s"
proof -
  assume s: "\<forall>c \<in> set s. \<not> is_py_space c"
  then have "dropWhile is_py_space s = s" by (cases s) auto
  moreover have "dropWhile is_py_space (rev s) = rev s" using s by (cases s rule: rev_cases) auto
  ultimately show ?thesis by (simp add: py_strip_def)
qed

lemma has_value_int [simp]: "has_value env (PInt i)"
  using int_text_chars [of i] strip_spaceless [of "int_text i"] by (simp add: has_value_def)

lemma quota_value_int [simp]: "quota_value env (PInt i) n = max 0 i"
  by (simp add: quota_value_def)

lemma quota_value_nonneg: "0 \<le> quota_value env v n"
  by (auto simp: quota_value_def Let_def split: option.split pyval.split)

lemma has_value_bool [simp]: "has_value env (PBool b)"
proof -
  have "py_strip ''True'' \<noteq> ''''" "py_strip ''False'' \<noteq> ''''" by code_simp+
  then show ?thesis by (simp add: has_value_def)
qed

lemma bool_value_bool [simp]: "bool_value env (PBool b) d = b"
  by (simp add: bool_value_def)

section \<open>Counters\<close>

definition count_field :: "account \<Rightarrow> string \<Rightarrow> bool" where
  "count_field a f \<longleftrightarrow> (\<exists>n\<ge>0. fmlookup a f = Some (PInt n))"

definition counters_normal :: "account \<Rightarrow> bool" where
  "counters_normal a \<longleftrightarrow> count_field a ''success'' \<and> count_field a ''fail'' \<and> count_field a ''invalid_count'' \<and>
     fmlookup a ''last_used_at'' \<noteq> None"

lemma counters_fix: "counters_normal a \<Longrightarrow> normalize_counters env a = a"
  by (auto simp: counters_normal_def count_field_def normalize_counters_def put_id field_Some)

lemma counters_result: "counters_normal (normalize_counters env a)"
  by (auto simp: counters_normal_def count_field_def normalize_counters_def Let_def lookups quota_value_nonneg)


section \<open>The quota\<close>

definition limits_unknown :: "account_env \<Rightarrow> account \<Rightarrow> bool option" where
  "limits_unknown env a = snd (snd (extract_image_quota_from_limits env (limits_of a)))"

definition limits_restore :: "account_env \<Rightarrow> account \<Rightarrow> string option" where
  "limits_restore env a = fst (snd (extract_image_quota_from_limits env (limits_of a)))"

definition quota_normal :: "account_env \<Rightarrow> account \<Rightarrow> bool" where
  "quota_normal env a \<longleftrightarrow>
     fmlookup a ''limits_progress'' = Some (PList (limits_of a)) \<and> count_field a ''quota'' \<and>
     (\<exists>b. fmlookup a ''image_quota_unknown'' = Some (PBool b)) \<and>
     (field a ''status'' = PStr st_normal \<and> (\<not> quota_confirmed (limits_unknown env a) a \<or> field a ''quota'' = PInt 0) \<longrightarrow>
        field a ''image_quota_unknown'' = PBool True) \<and>
     (field a ''status'' = PStr st_limited \<longrightarrow> field a ''quota'' = PInt 0 \<and> field a ''image_quota_unknown'' = PBool False) \<and>
     (\<exists>v. fmlookup a ''default_model_slug'' = Some v \<and> noneable v) \<and>
     (\<exists>v. fmlookup a ''restore_at'' = Some v \<and> noneable v \<and> (truthy v \<or> limits_restore env a = None))"

lemma statuses_distinct: "st_normal \<noteq> st_limited"
  by (simp add: st_normal_def st_limited_def)

lemma quota_fix: "quota_normal env a \<Longrightarrow> normalize_quota_fields env True (limits_of a) a = a"
proof -
  assume n: "quota_normal env a"
  obtain q r u where e: "extract_image_quota_from_limits env (limits_of a) = (q, r, u)"
    by (metis surj_pair)
  have u: "limits_unknown env a = u" and r: "limits_restore env a = r"
    by (simp_all add: limits_unknown_def limits_restore_def e)
  obtain k b where k: "fmlookup a ''quota'' = Some (PInt k)" "0 \<le> k"
    and b: "fmlookup a ''image_quota_unknown'' = Some (PBool b)"
    using n unfolding quota_normal_def count_field_def by blast
  have 1: "settle_quota env True q a = a"
    using k by (simp add: settle_quota_def field_Some put_id split: option.split)
  have 2: "settle_quota_unknown env u a = a"
    using b by (simp add: settle_quota_unknown_def field_Some put_id)
  have 3: "settle_quota_status u a = a"
  proof -
    have "put ''image_quota_unknown'' (PBool True) a = a" if "field a ''image_quota_unknown'' = PBool True"
      by (rule put_field [OF that]) simp
    moreover have "put ''image_quota_unknown'' (PBool False) (put ''quota'' (PInt 0) a) = a"
      if "field a ''quota'' = PInt 0" "field a ''image_quota_unknown'' = PBool False"
      using put_field [OF that(1)] put_field [OF that(2)] by simp
    moreover have "field a ''status'' = PStr st_normal \<and> (\<not> quota_confirmed u a \<or> field a ''quota'' = PInt 0) \<longrightarrow>
        field a ''image_quota_unknown'' = PBool True"
      and "field a ''status'' = PStr st_limited \<longrightarrow> field a ''quota'' = PInt 0 \<and> field a ''image_quota_unknown'' = PBool False"
      using n unfolding quota_normal_def u by blast+
    ultimately show ?thesis unfolding settle_quota_status_def by metis
  qed
  obtain v w where v: "fmlookup a ''default_model_slug'' = Some v" "noneable v"
    and w: "fmlookup a ''restore_at'' = Some w" "noneable w" "truthy w \<or> r = None"
    and l: "fmlookup a ''limits_progress'' = Some (PList (limits_of a))"
    using n unfolding quota_normal_def r by blast
  have 4: "put ''limits_progress'' (PList (limits_of a)) a = a" "or_none ''default_model_slug'' a = a"
    using l v by (simp_all add: put_id or_none_id)
  have 5: "settle_restore r a = a"
    using w by (auto simp: settle_restore_def field_Some noneable_def put_id)
  show ?thesis by (simp add: normalize_quota_fields_def e 1 2 3 4 5)
qed

lemma limits_restore_nonempty: "limits_restore env a \<noteq> Some ''''"
  by (auto simp: limits_restore_def extract_image_quota_from_limits_def none_if_empty_def split: list.splits)

lemma settle_quota_status_settles:
  assumes "d = settle_quota_status u c"
  shows "(field d ''status'' = PStr st_normal \<and> (\<not> quota_confirmed u d \<or> field d ''quota'' = PInt 0) \<longrightarrow>
      field d ''image_quota_unknown'' = PBool True) \<and>
    (field d ''status'' = PStr st_limited \<longrightarrow> field d ''quota'' = PInt 0 \<and> field d ''image_quota_unknown'' = PBool False)"
proof -
  consider (unknown) "d = put ''image_quota_unknown'' (PBool True) c" "field c ''status'' = PStr st_normal"
    | (limited) "d = put ''image_quota_unknown'' (PBool False) (put ''quota'' (PInt 0) c)" "field c ''status'' = PStr st_limited"
    | (kept) "d = c" "field c ''status'' \<noteq> PStr st_limited"
      "field c ''status'' = PStr st_normal \<longrightarrow> quota_confirmed u c \<and> field c ''quota'' \<noteq> PInt 0"
    using assms unfolding settle_quota_status_def by metis
  then show ?thesis
  proof cases
    case unknown
    with statuses_distinct show ?thesis by (simp add: field_put)
  next
    case limited
    with statuses_distinct [symmetric] show ?thesis by (simp add: field_put)
  next
    case kept
    then show ?thesis by blast
  qed
qed

lemma quota_result: "quota_normal env (normalize_quota_fields env explicit (limits_of a) a)"
proof -
  obtain q r u where e: "extract_image_quota_from_limits env (limits_of a) = (q, r, u)"
    by (metis surj_pair)
  have r: "r \<noteq> Some ''''" using limits_restore_nonempty [of env a] by (simp add: limits_restore_def e)
  let ?b = "normalize_quota_fields env explicit (limits_of a) a"
  have lp: "fmlookup ?b ''limits_progress'' = Some (PList (limits_of a))"
    by (simp add: normalize_quota_fields_def e settle_restore_def lookups)
  have "limits_of ?b = limits_of a"
    by (simp add: limits_of_def [of ?b] field_Some [OF lp])
  note lim = this lp
  have u: "limits_unknown env ?b = u" "limits_restore env ?b = r"
    by (simp_all add: limits_unknown_def limits_restore_def lim e)
  have same: "field ?b f = field (settle_quota_status u (settle_quota_unknown env u (settle_quota env explicit q a))) f"
    if "f \<in> {''status'', ''quota'', ''image_quota_unknown'', ''last_remote_checked_at''}" for f
    using that by (auto simp: normalize_quota_fields_def e settle_restore_def field_put or_none_def)
  have "count_field ?b ''quota''"
    by (auto simp: normalize_quota_fields_def e settle_restore_def lookups settle_quota_status_def settle_quota_unknown_def
        settle_quota_def count_field_def quota_value_nonneg)
  moreover have "\<exists>x. fmlookup ?b ''image_quota_unknown'' = Some (PBool x)"
    by (auto simp: normalize_quota_fields_def e settle_restore_def lookups settle_quota_status_def settle_quota_unknown_def)
  moreover have "field ?b ''status'' = PStr st_normal \<and> (\<not> quota_confirmed u ?b \<or> field ?b ''quota'' = PInt 0) \<longrightarrow>
      field ?b ''image_quota_unknown'' = PBool True"
    and "field ?b ''status'' = PStr st_limited \<longrightarrow> field ?b ''quota'' = PInt 0 \<and> field ?b ''image_quota_unknown'' = PBool False"
    using settle_quota_status_settles [of _ u "settle_quota_unknown env u (settle_quota env explicit q a)"] same
    by (simp_all add: quota_confirmed_def)
  moreover have "\<exists>v. fmlookup ?b ''default_model_slug'' = Some v \<and> noneable v"
    by (simp add: normalize_quota_fields_def e settle_restore_def lookups)
  moreover have "\<exists>v. fmlookup ?b ''restore_at'' = Some v \<and> noneable v \<and> (truthy v \<or> r = None)"
    using r by (auto simp: normalize_quota_fields_def e settle_restore_def lookups noneable_def por_def split: option.split)
  ultimately show ?thesis using lim by (simp add: quota_normal_def u)
qed

section \<open>The status\<close>

definition status_normal :: "account_env \<Rightarrow> account \<Rightarrow> bool" where
  "status_normal env a \<longleftrightarrow>
     (\<exists>t. fmlookup a ''type'' = Some (opt_text t) \<and> normalize_account_type env (opt_text t) = t) \<and>
     (\<exists>s \<in> {st_normal, st_limited, st_abnormal, st_disabled}. fmlookup a ''status'' = Some (PStr s)) \<and>
     fmlookup a ''enabled'' = None \<and> fmlookup a ''auto_disabled'' = None \<and>
     (\<exists>v. fmlookup a ''email'' = Some v \<and> noneable v) \<and> (\<exists>v. fmlookup a ''user_id'' = Some v \<and> noneable v) \<and>
     (\<exists>p. fmlookup a ''proxy'' = Some (PStr p) \<and> py_strip p = p) \<and>
     (\<exists>s \<in> {''codex'', ''web''}. fmlookup a ''source_type'' = Some (PStr s))"

lemma type_words:
  "py_lower ''free'' = ''free''" "py_lower ''Plus'' = ''plus''" "py_lower ''Pro'' = ''pro''"
  "py_lower ''ProLite'' = ''prolite''" "py_lower ''Team'' = ''team''" "py_lower ''Enterprise'' = ''enterprise''"
  by code_simp+

lemma account_type_alias_range:
  "account_type_alias s = Some t \<Longrightarrow> t \<in> {''free'', ''Plus'', ''Pro'', ''ProLite'', ''Team'', ''Enterprise''}"
  unfolding account_type_alias_def by (drule map_of_SomeD) auto

lemma account_type_stable: "normalize_account_type env (opt_text (normalize_account_type env v)) = normalize_account_type env v"
proof -
  have "account_type_alias s = Some t \<Longrightarrow> normalize_account_type env (PStr t) = Some t" for s t
  proof -
    assume "account_type_alias s = Some t"
    then have t: "t \<in> {''free'', ''Plus'', ''Pro'', ''ProLite'', ''Team'', ''Enterprise''}"
      by (rule account_type_alias_range)
    have "account_type_alias (py_lower t) = Some t \<and> py_strip t = t \<and> list_all (\<lambda>c. c \<notin> set ''_- '') (py_lower t)"
      using t by (elim insertE emptyE) (simp_all add: account_type_alias_def type_words py_strip_def is_py_space_def)
    moreover have "filter (\<lambda>c. c \<noteq> CHR ''_'') (map (\<lambda>c. if c = CHR ''-'' \<or> c = CHR '' '' then CHR ''_'' else c) cs) = cs"
      if "list_all (\<lambda>c. c \<notin> set ''_- '') cs" for cs
      using that by (induction cs) auto
    moreover have "t \<noteq> ''''" using t by auto
    ultimately show "normalize_account_type env (PStr t) = Some t"
      by (simp add: normalize_account_type_def text_of_str Let_def)
  qed
  note alias_stable = this
  show ?thesis
  proof (cases "normalize_account_type env v")
    case None
    have "py_strip [] = []" by (simp add: py_strip_def)
    with None show ?thesis by (simp add: opt_text_def normalize_account_type_def [of env PNone] text_of_def)
  next
    case (Some t)
    then have "\<exists>s. account_type_alias s = Some t"
      by (auto simp: normalize_account_type_def Let_def split: if_splits option.splits)
    with Some alias_stable show ?thesis by (auto simp: opt_text_def)
  qed
qed


lemma status_alias_range: "status_alias s = Some t \<Longrightarrow> t \<in> {st_normal, st_limited, st_abnormal, st_disabled}"
  unfolding status_alias_def by (drule map_of_SomeD) auto

lemma status_alias_self:
  "t \<in> {st_normal, st_limited, st_abnormal, st_disabled} \<Longrightarrow> py_strip t = t \<and> t \<noteq> '''' \<and> status_alias (py_lower t) = Some t"
proof -
  have "list_all (\<lambda>t. py_strip t = t \<and> t \<noteq> '''' \<and> status_alias (py_lower t) = Some t)
      [st_normal, st_limited, st_abnormal, st_disabled]"
    by code_simp
  then show "t \<in> {st_normal, st_limited, st_abnormal, st_disabled} \<Longrightarrow> ?thesis" by auto
qed

lemma normalize_account_status_range:
  "normalize_account_status env v a \<in> {st_normal, st_limited, st_abnormal, st_disabled}"
  by (auto simp: normalize_account_status_def Let_def dest: status_alias_range split: option.split)

lemma normalize_account_status_self:
  assumes "t \<in> {st_normal, st_limited, st_abnormal, st_disabled}"
    and "fmlookup a ''enabled'' = None" "fmlookup a ''auto_disabled'' = None"
  shows "normalize_account_status env (PStr t) a = t"
proof -
  have "\<not> bool_value env PNone False"
    by (simp add: bool_value_def text_of_def py_strip_def py_lower_def)
  then show ?thesis
    using status_alias_self [OF assms(1)] assms(2,3)
    by (simp add: normalize_account_status_def field_None text_of_str)
qed

lemma source_type_self: "s \<in> {''codex'', ''web''} \<Longrightarrow> normalize_source_type env (PStr s) = s"
proof -
  have "py_lower (py_strip ''codex'') = ''codex''" "py_lower (py_strip ''web'') = ''web''" by code_simp+
  then have "normalize_source_type env (PStr ''codex'') = ''codex''" "normalize_source_type env (PStr ''web'') = ''web''"
    by (simp_all add: normalize_source_type_def text_of_str)
  then show "s \<in> {''codex'', ''web''} \<Longrightarrow> ?thesis" by blast
qed

lemmas status_stages = normalize_status_fields_def settle_type_def settle_status_def settle_proxy_def
  settle_source_type_def Let_def

lemma status_fix: "status_normal env a \<Longrightarrow> normalize_status_fields env a = a"
proof -
  assume n: "status_normal env a"
  then obtain t s p src where
    "fmlookup a ''type'' = Some (opt_text t)" "normalize_account_type env (opt_text t) = t"
    "s \<in> {st_normal, st_limited, st_abnormal, st_disabled}" "fmlookup a ''status'' = Some (PStr s)"
    "fmlookup a ''enabled'' = None" "fmlookup a ''auto_disabled'' = None"
    "fmlookup a ''proxy'' = Some (PStr p)" "py_strip p = p"
    "src \<in> {''codex'', ''web''}" "fmlookup a ''source_type'' = Some (PStr src)"
    unfolding status_normal_def by blast
  note facts = this
  have "or_none ''email'' a = a" "or_none ''user_id'' a = a"
    using n by (auto simp: status_normal_def or_none_id)
  moreover have "truthy (PStr src)" using facts(9) by auto
  ultimately show ?thesis
    using facts normalize_account_status_self [OF facts(3,5,6)] source_type_self [OF facts(9)]
    by (simp add: normalize_status_fields_def settle_type_def settle_status_def settle_proxy_def settle_source_type_def
        field_Some put_id pop_id field_text_def text_of_str)
qed

lemma status_result: "status_normal env (normalize_status_fields env a)"
  unfolding status_normal_def
proof (intro conjI)
  let ?b = "normalize_status_fields env a"
  show "\<exists>t. fmlookup ?b ''type'' = Some (opt_text t) \<and> normalize_account_type env (opt_text t) = t"
    by (rule exI [of _ "normalize_account_type env (field a ''type'')"])
       (simp add: status_stages lookups account_type_stable)
  show "\<exists>s \<in> {st_normal, st_limited, st_abnormal, st_disabled}. fmlookup ?b ''status'' = Some (PStr s)"
    by (rule bexI [OF _ normalize_account_status_range]) (simp add: status_stages lookups)
  show "fmlookup ?b ''enabled'' = None" "fmlookup ?b ''auto_disabled'' = None"
    by (simp_all add: status_stages lookups)
  show "\<exists>v. fmlookup ?b ''email'' = Some v \<and> noneable v" "\<exists>v. fmlookup ?b ''user_id'' = Some v \<and> noneable v"
    by (simp_all add: status_stages lookups)
  show "\<exists>p. fmlookup ?b ''proxy'' = Some (PStr p) \<and> py_strip p = p"
    by (simp add: status_stages lookups field_text_def text_of_def)
  show "\<exists>s \<in> {''codex'', ''web''}. fmlookup ?b ''source_type'' = Some (PStr s)"
    by (simp add: status_stages lookups normalize_source_type_def)
qed


section \<open>The remote check and the diagnostics\<close>

definition remote_check_normal :: "account_env \<Rightarrow> account \<Rightarrow> bool" where
  "remote_check_normal env a \<longleftrightarrow>
     (\<forall>f \<in> set check_text_fields. \<exists>v. fmlookup a f = Some v \<and> noneable v) \<and>
     (\<exists>v \<in> {PNone, PStr ''pending'', PStr ''ok'', PStr ''error'', PStr ''invalid''}.
        fmlookup a ''last_remote_check_result'' = Some v) \<and>
     (\<exists>v. fmlookup a ''pending_auth_remove_invalid'' = Some v \<and> (v = PNone \<or> check_pending a \<and> (\<exists>b. v = PBool b))) \<and>
     fmlookup a ''pending_auth_scope'' \<in>
       (if check_pending a then {Some (PStr ''image''), Some (PStr ''account'')} else {Some PNone}) \<and>
     (case fmlookup a ''pending_auth_verification_id'' of
        None \<Rightarrow> True | Some v \<Rightarrow> check_pending a \<and> (\<exists>s. v = PStr s \<and> py_strip s = s \<and> s \<noteq> ''''))"

lemma fold_or_none_id: "\<forall>f \<in> set fs. \<exists>v. fmlookup a f = Some v \<and> noneable v \<Longrightarrow> fold or_none fs a = a"
  by (induction fs) (auto simp: or_none_id)

lemma result_words:
  "py_strip '''' = ''''" "py_strip ''pending'' = ''pending''" "py_strip ''ok'' = ''ok''" "py_strip ''error'' = ''error''"
  "py_strip ''invalid'' = ''invalid''" "py_strip ''image'' = ''image''" "py_strip ''account'' = ''account''"
  "py_lower '''' = ''''" "py_lower ''pending'' = ''pending''" "py_lower ''ok'' = ''ok''" "py_lower ''error'' = ''error''"
  "py_lower ''invalid'' = ''invalid''" "py_lower ''image'' = ''image''" "py_lower ''account'' = ''account''"
  by code_simp+

lemma remote_check_fix: "remote_check_normal env a \<Longrightarrow> normalize_remote_check env a = a"
proof -
  assume n: "remote_check_normal env a"
  have "fold or_none check_text_fields a = a"
    by (rule fold_or_none_id) (use n in \<open>simp add: remote_check_normal_def\<close>)
  moreover have "settle_check_result env a = a"
    using n by (auto simp: remote_check_normal_def settle_check_result_def field_text_def field_Some text_of_def
        result_words put_id)
  moreover have "settle_pending_remove env a = a"
    using n by (auto simp: remote_check_normal_def settle_pending_remove_def field_Some put_id)
  moreover have "settle_pending_scope env a = a"
    using n by (auto simp: remote_check_normal_def settle_pending_scope_def field_text_def field_Some text_of_def
        result_words put_id split: if_splits)
  moreover have "settle_verification_id env a = a"
    using n by (auto simp: remote_check_normal_def settle_verification_id_def field_text_def field_Some field_None
        text_of_def result_words put_id pop_id split: option.splits)
  ultimately show ?thesis by (simp add: normalize_remote_check_def)
qed


lemma remote_check_texts:
  assumes "f \<in> set check_text_fields"
  shows "fmlookup (normalize_remote_check env a) f = Some (por (field a f) PNone)"
proof -
  have "f \<notin> {''pending_auth_verification_id'', ''pending_auth_scope'', ''pending_auth_remove_invalid'',
      ''last_remote_check_result''}"
    using assms by (auto simp: check_text_fields_def)
  then show ?thesis using assms
    by (simp add: normalize_remote_check_def settle_verification_id_def settle_pending_scope_def
        settle_pending_remove_def settle_check_result_def Let_def lookups lookup_fold_or_none)
qed

lemma remote_check_result: "remote_check_normal env (normalize_remote_check env a)"
proof -
  let ?b = "normalize_remote_check env a"
  let ?c = "settle_check_result env (fold or_none check_text_fields a)"
  have texts: "fmlookup ?b f = Some (por (field a f) PNone)" if "f \<in> set check_text_fields" for f
    using that by (rule remote_check_texts)
  have result: "\<exists>v \<in> {PNone, PStr ''pending'', PStr ''ok'', PStr ''error'', PStr ''invalid''}.
      fmlookup ?c ''last_remote_check_result'' = Some v"
    by (auto simp: settle_check_result_def Let_def lookups)
  have same: "fmlookup ?b ''last_remote_check_result'' = fmlookup ?c ''last_remote_check_result''"
    by (simp add: normalize_remote_check_def settle_verification_id_def settle_pending_scope_def
        settle_pending_remove_def Let_def lookups)
  then have pending: "check_pending ?b = check_pending ?c" by (simp add: check_pending_def field_def)
  have keep: "check_pending (put ''pending_auth_remove_invalid'' v x) = check_pending x"
    "check_pending (put ''pending_auth_scope'' v x) = check_pending x" for v x
    by (simp_all add: check_pending_def field_put)
  have remove: "\<exists>v. fmlookup ?b ''pending_auth_remove_invalid'' = Some v \<and>
      (v = PNone \<or> check_pending ?b \<and> (\<exists>b. v = PBool b))"
    unfolding pending by (simp add: normalize_remote_check_def settle_verification_id_def settle_pending_scope_def
        settle_pending_remove_def Let_def lookups)
  have scope: "fmlookup ?b ''pending_auth_scope'' \<in>
      (if check_pending ?b then {Some (PStr ''image''), Some (PStr ''account'')} else {Some PNone})"
    unfolding pending by (simp add: normalize_remote_check_def settle_verification_id_def settle_pending_scope_def
        settle_pending_remove_def keep Let_def lookups)
  have verification: "case fmlookup ?b ''pending_auth_verification_id'' of
      None \<Rightarrow> True | Some v \<Rightarrow> check_pending ?b \<and> (\<exists>s. v = PStr s \<and> py_strip s = s \<and> s \<noteq> '''')"
    unfolding pending by (simp add: normalize_remote_check_def settle_verification_id_def settle_pending_scope_def
        settle_pending_remove_def keep Let_def lookups field_text_def text_of_def)
  show ?thesis
    unfolding remote_check_normal_def same using texts result remove scope verification by (auto simp del: fun_upd_apply)
qed


definition diagnostics_normal :: "account_env \<Rightarrow> account \<Rightarrow> bool" where
  "diagnostics_normal env a \<longleftrightarrow>
     (\<forall>f \<in> set refresh_text_fields. \<exists>v. fmlookup a f = Some v \<and> noneable v) \<and>
     (\<forall>f \<in> set error_text_fields. fmlookup a f = Some PNone \<or>
        (\<exists>s. fmlookup a f = Some (PStr s) \<and> py_strip s = s \<and> s \<noteq> '''')) \<and>
     (\<forall>f \<in> set capability_fields. fmlookup a f = None) \<and>
     (\<exists>v. fmlookup a ''created_at'' = Some v \<and> truthy v)"

lemma sanitize_self: "py_strip s = s \<Longrightarrow> sanitize_diagnostic_text env (PStr s) = PStr s"
  by (simp add: sanitize_diagnostic_text_def text_of_str)

lemma fold_id_on: "(\<And>x. x \<in> set xs \<Longrightarrow> g x a = a) \<Longrightarrow> fold g xs a = a"
  by (induction xs) auto

lemma diagnostics_fix: "diagnostics_normal env a \<Longrightarrow> normalize_diagnostics env a = a"
proof -
  assume n: "diagnostics_normal env a"
  have 1: "fold or_none refresh_text_fields a = a"
    by (rule fold_or_none_id) (use n in \<open>simp add: diagnostics_normal_def\<close>)
  have 2: "fold (sanitize_field env) error_text_fields a = a"
    by (rule fold_id_on) (use n in \<open>auto simp: diagnostics_normal_def sanitize_field_def field_Some sanitize_self put_id\<close>)
  have 3: "fold pop capability_fields a = a"
    by (rule fold_id_on) (use n in \<open>auto simp: diagnostics_normal_def pop_id\<close>)
  have 4: "put ''created_at'' (por (field a ''created_at'') (PStr (env_created_stamp env))) a = a"
    using n by (auto simp: diagnostics_normal_def field_Some por_def put_id)
  show ?thesis by (simp only: normalize_diagnostics_def Let_def 1 2 3 4)
qed

text \<open>An error text that is blank but not empty is trimmed to the empty text by one pass and
  dropped by the next.\<close>

definition no_blank_errors :: "account_env \<Rightarrow> account \<Rightarrow> bool" where
  "no_blank_errors env a \<longleftrightarrow> (\<forall>f \<in> set error_text_fields. truthy (field a f) \<longrightarrow> text_of env (field a f) \<noteq> '''')"

lemma diagnostic_field_lists:
  "distinct error_text_fields" "set error_text_fields \<inter> set capability_fields = {}"
  "set refresh_text_fields \<inter> set capability_fields = {}"
  "''created_at'' \<notin> set error_text_fields \<union> set capability_fields \<union> set refresh_text_fields"
  by code_simp+

lemma lookup_normalize_diagnostics:
  assumes "f \<in> set error_text_fields \<union> set refresh_text_fields"
  shows "fmlookup (normalize_diagnostics env a) f =
    (let w = (if f \<in> set refresh_text_fields then Some (por (field a f) PNone) else fmlookup a f);
         v = (case w of None \<Rightarrow> PNone | Some v \<Rightarrow> v)
     in if f \<in> set error_text_fields \<and> truthy v then Some (sanitize_diagnostic_text env v) else w)"
proof -
  have "f \<noteq> ''created_at''" "f \<notin> set capability_fields" using assms diagnostic_field_lists by auto
  then show ?thesis
    by (simp add: normalize_diagnostics_def Let_def lookup_put lookup_fold_pop lookup_fold_sanitize [OF diagnostic_field_lists(1)]
        lookup_fold_or_none field_def)
qed

lemma sanitized_text:
  assumes "text_of env v \<noteq> ''''"
  shows "\<exists>s. sanitize_diagnostic_text env v = PStr s \<and> py_strip s = s \<and> s \<noteq> ''''"
  using assms by (simp add: sanitize_diagnostic_text_def) (simp add: text_of_def)

lemma diagnostics_error_text:
  assumes "no_blank_errors env a" and f: "f \<in> set error_text_fields"
    and "f \<notin> set refresh_text_fields \<Longrightarrow> \<exists>v. fmlookup a f = Some v \<and> noneable v"
  shows "fmlookup (normalize_diagnostics env a) f = Some PNone \<or>
    (\<exists>s. fmlookup (normalize_diagnostics env a) f = Some (PStr s) \<and> py_strip s = s \<and> s \<noteq> '''')"
proof -
  obtain v where v: "(if f \<in> set refresh_text_fields then Some (por (field a f) PNone) else fmlookup a f) = Some v"
    "noneable v" "truthy v \<longrightarrow> v = field a f"
    using assms(3) by (cases "f \<in> set refresh_text_fields") (auto simp: por_def noneable_def field_Some)
  show ?thesis
  proof (cases "truthy v")
    case True
    with v(3) assms(1) f have "text_of env v \<noteq> ''''" by (simp add: no_blank_errors_def)
    with True f show ?thesis
      by (simp add: lookup_normalize_diagnostics v(1)) (rule disjI2, rule sanitized_text)
  next
    case False
    with v(2) f show ?thesis by (simp add: lookup_normalize_diagnostics v(1) noneable_def)
  qed
qed

lemma diagnostics_result:
  assumes "no_blank_errors env a" and "env_created_stamp env \<noteq> ''''"
    and "\<forall>f \<in> set error_text_fields - set refresh_text_fields. \<exists>v. fmlookup a f = Some v \<and> noneable v"
  shows "diagnostics_normal env (normalize_diagnostics env a)"
proof -
  let ?b = "normalize_diagnostics env a"
  have errors: "fmlookup ?b f = Some PNone \<or> (\<exists>s. fmlookup ?b f = Some (PStr s) \<and> py_strip s = s \<and> s \<noteq> '''')"
    if "f \<in> set error_text_fields" for f
    by (rule diagnostics_error_text [OF assms(1) that]) (use assms(3) that in blast)
  have "\<exists>v. fmlookup ?b f = Some v \<and> noneable v" if f: "f \<in> set refresh_text_fields" for f
  proof (cases "f \<in> set error_text_fields")
    case True
    with errors show ?thesis by (fastforce simp: noneable_def)
  next
    case False
    with f show ?thesis by (simp add: lookup_normalize_diagnostics Let_def)
  qed
  moreover have "fmlookup ?b f = None" if "f \<in> set capability_fields" for f
  proof -
    have "f \<noteq> ''created_at''" using that diagnostic_field_lists(4) by auto
    with that show ?thesis by (simp add: normalize_diagnostics_def Let_def lookup_put lookup_fold_pop)
  qed
  moreover have "\<exists>v. fmlookup ?b ''created_at'' = Some v \<and> truthy v"
    using assms(2) by (simp add: normalize_diagnostics_def Let_def lookup_put por_def)
  ultimately show ?thesis using errors by (simp add: diagnostics_normal_def)
qed


section \<open>The identity\<close>

definition hex_digest :: "string \<Rightarrow> bool" where
  "hex_digest s \<longleftrightarrow> length s = 64 \<and> is_hex s"

text \<open>What the code relies on of SHA-256 and of the clock.\<close>

definition env_ok :: "account_env \<Rightarrow> bool" where
  "env_ok env \<longleftrightarrow> (\<forall>t. hex_digest (env_digest env t)) \<and> env_created_stamp env \<noteq> ''''"

definition identity_normal :: "account_env \<Rightarrow> account \<Rightarrow> bool" where
  "identity_normal env a \<longleftrightarrow>
     fmlookup a ''accessToken'' = None \<and> truthy (field a ''access_token'') \<and>
     (\<exists>m. fmlookup a ''management_id'' = Some (PStr m) \<and> is_management_id m) \<and>
     (\<exists>fs. fmlookup a ''access_token_fingerprints'' = Some (PList fs) \<and>
        normalize_fingerprints env (PList fs) (access_token_of env a) = fs) \<and>
     (case fmlookup a ''managed_image_result_idempotency_keys'' of
        None \<Rightarrow> True | Some v \<Rightarrow> v = PList (map PStr (normalize_result_keys env v))) \<and>
     py_lower (field_text env a ''type'') \<noteq> ''codex''"

lemma plain_chars: "c \<in> set (hex_digits @ ''acct_'') \<Longrightarrow> \<not> is_py_space c \<and> lower_char c = c"
proof -
  have "list_all (\<lambda>c. \<not> is_py_space c \<and> lower_char c = c) (hex_digits @ ''acct_'')" by code_simp
  then show "c \<in> set (hex_digits @ ''acct_'') \<Longrightarrow> ?thesis" unfolding list_all_iff by blast
qed

lemma plain_text:
  assumes "set s \<subseteq> set (hex_digits @ ''acct_'')"
  shows "py_strip s = s \<and> py_lower s = s"
proof
  have "\<not> is_py_space c" "lower_char c = c" if "c \<in> set s" for c
    using plain_chars [OF subsetD [OF assms that]] by blast+
  then show "py_strip s = s" "py_lower s = s"
    by (simp_all add: strip_spaceless py_lower_def map_idI)
qed

lemma is_hex_text: "is_hex s \<Longrightarrow> py_strip s = s \<and> py_lower s = s"
  by (rule plain_text) (simp only: is_hex_def list_all_iff set_append, blast)

lemma management_id_text: "is_management_id s \<Longrightarrow> py_strip s = s \<and> py_lower s = s"
proof (rule plain_text)
  assume "is_management_id s"
  then have "take 5 s = ''acct_''" "set (drop 5 s) \<subseteq> set hex_digits"
    by (simp_all only: is_management_id_def is_hex_def list_all_iff) blast+
  moreover have "set s = set (take 5 s) \<union> set (drop 5 s)" by (metis append_take_drop_id set_append)
  ultimately show "set s \<subseteq> set (hex_digits @ ''acct_'')" by (simp only: set_append) blast
qed

lemma is_hex_take: "is_hex s \<Longrightarrow> is_hex (take n s)"
  unfolding is_hex_def list_all_iff by (blast dest: in_set_takeD)

lemma normalize_management_id_valid: "env_ok env \<Longrightarrow> is_management_id (normalize_management_id env v token)"
  by (auto simp: normalize_management_id_def management_id_for_token_def is_management_id_def env_ok_def hex_digest_def
      is_hex_take Let_def)

lemma normalize_management_id_self: "is_management_id m \<Longrightarrow> normalize_management_id env (PStr m) token = m"
  using management_id_text [of m] by (simp add: normalize_management_id_def text_of_str)

lemma take_last_id: "length xs \<le> n \<Longrightarrow> take_last n xs = xs"
  by (simp add: take_last_def)

lemma length_take_last: "length (take_last n xs) \<le> n"
  by (simp add: take_last_def)

lemma set_take_last: "set (take_last n xs) \<subseteq> set xs"
  by (simp add: take_last_def set_drop_subset)

lemma distinct_take_last: "distinct xs \<Longrightarrow> distinct (take_last n xs)"
  by (simp add: take_last_def)

lemma take_last_snoc: "take_last (Suc n) (xs @ [x]) = take_last n xs @ [x]"
  by (simp add: take_last_def)

text \<open>The list of fingerprints keeps its first entry and the latest ones, the current one last.\<close>

definition fingerprint_list :: "string list \<Rightarrow> string \<Rightarrow> string list" where
  "fingerprint_list fs current =
     (let first = (case fs of [] \<Rightarrow> current | f # _ \<Rightarrow> f)
      in first # take_last 7 (filter (\<lambda>f. f \<noteq> current) (drop 1 fs) @ (if current \<noteq> first then [current] else [])))"

lemma fingerprint_list_distinct: "distinct fs \<Longrightarrow> distinct (fingerprint_list fs current)"
proof (cases fs)
  case (Cons f rest)
  assume "distinct fs"
  with Cons show ?thesis
    using set_take_last [of 7 "filter (\<lambda>g. g \<noteq> current) rest @ (if current \<noteq> f then [current] else [])"]
    by (auto simp: fingerprint_list_def intro!: distinct_take_last)
qed (simp add: fingerprint_list_def take_last_def)

lemma fingerprint_list_idem: "fingerprint_list (fingerprint_list fs current) current = fingerprint_list fs current"
proof -
  obtain first rest where fr: "fingerprint_list fs current =
      first # take_last 7 (filter (\<lambda>f. f \<noteq> current) rest @ (if current \<noteq> first then [current] else []))"
  proof (cases fs)
    case Nil
    then show thesis by (intro that [of current "[]"]) (simp add: fingerprint_list_def)
  next
    case (Cons f rest)
    then show thesis by (intro that [of f rest]) (simp add: fingerprint_list_def)
  qed
  let ?xs = "filter (\<lambda>f. f \<noteq> current) rest"
  show ?thesis
  proof (cases "current = first")
    case True
    have "filter (\<lambda>f. f \<noteq> current) (take_last 7 ?xs) = take_last 7 ?xs"
      using set_take_last [of 7 ?xs] by (auto simp: filter_id_conv)
    with True show ?thesis unfolding fr by (simp add: fingerprint_list_def take_last_id length_take_last)
  next
    case False
    have "take_last 7 (?xs @ [current]) = take_last 6 ?xs @ [current]"
      using take_last_snoc [of 6 ?xs current] by simp
    moreover have "filter (\<lambda>f. f \<noteq> current) (take_last 6 ?xs) = take_last 6 ?xs"
      using set_take_last [of 6 ?xs] by (auto simp: filter_id_conv)
    ultimately show ?thesis
      using False length_take_last [of 6 ?xs] unfolding fr by (simp add: fingerprint_list_def take_last_id)
  qed
qed


definition hex64 :: "string \<Rightarrow> bool" where
  "hex64 s \<longleftrightarrow> length s = 64 \<and> is_hex s"

definition fingerprint_texts :: "account_env \<Rightarrow> pyval \<Rightarrow> string list" where
  "fingerprint_texts env v =
     dedup_first (filter is_hex (filter (\<lambda>s. length s = 64)
       (map (\<lambda>w. py_lower (text_of env w)) (case v of PList vs \<Rightarrow> vs | _ \<Rightarrow> []))))"

lemma normalize_fingerprints_list:
  "normalize_fingerprints env v token = map PStr (fingerprint_list (fingerprint_texts env v) (env_digest env token))"
  by (simp add: normalize_fingerprints_def fingerprint_list_def fingerprint_texts_def fingerprint_limit_def Let_def)

lemma fingerprint_texts_strings:
  assumes "\<forall>s \<in> set ss. hex64 s" "distinct ss"
  shows "fingerprint_texts env (PList (map PStr ss)) = ss"
proof -
  have "map (\<lambda>w. py_lower (text_of env w)) (map PStr ss) = ss"
    using assms(1) is_hex_text by (simp add: comp_def text_of_str map_idI hex64_def)
  moreover have "filter is_hex (filter (\<lambda>s. length s = 64) ss) = ss"
    using assms(1) by (simp add: filter_id_conv hex64_def)
  ultimately show ?thesis using assms(2) by (simp only: fingerprint_texts_def pyval.case dedup_first_id)
qed

lemma fingerprint_list_hex:
  assumes "\<forall>s \<in> set fs. hex64 s" "hex64 current"
  shows "\<forall>s \<in> set (fingerprint_list fs current). hex64 s"
proof -
  have "set (fingerprint_list fs current) \<subseteq> insert current (set fs)"
  proof (cases fs)
    case Nil
    then show ?thesis by (simp add: fingerprint_list_def take_last_def)
  next
    case (Cons f rest)
    have "set (take_last 7 (filter (\<lambda>g. g \<noteq> current) rest @ (if current \<noteq> f then [current] else []))) \<subseteq> insert current (set rest)"
      by (rule order_trans [OF set_take_last]) auto
    with Cons show ?thesis by (auto simp: fingerprint_list_def)
  qed
  with assms show ?thesis by blast
qed

lemma normalize_fingerprints_idem:
  assumes "env_ok env"
  shows "normalize_fingerprints env (PList (normalize_fingerprints env v token)) token = normalize_fingerprints env v token"
proof -
  have hex: "\<forall>s \<in> set (fingerprint_texts env v). hex64 s"
    by (simp add: fingerprint_texts_def hex64_def)
  have "hex64 (env_digest env token)" using assms by (simp add: env_ok_def hex64_def hex_digest_def)
  from fingerprint_texts_strings [OF fingerprint_list_hex [OF hex this] fingerprint_list_distinct]
  show ?thesis by (simp add: normalize_fingerprints_list fingerprint_list_idem fingerprint_texts_def)
qed

text \<open>Keys of results are kept whole as long as they are not longer than the code's limit.\<close>

definition short_result_keys :: "account_env \<Rightarrow> account \<Rightarrow> bool" where
  "short_result_keys env a \<longleftrightarrow>
     (case field a ''managed_image_result_idempotency_keys'' of
        PList vs \<Rightarrow> \<forall>v \<in> set vs. length (text_of env v) \<le> result_key_max_length
      | _ \<Rightarrow> True)"

definition plain_key :: "string \<Rightarrow> bool" where
  "plain_key k \<longleftrightarrow> py_strip k = k \<and> k \<noteq> '''' \<and> length k \<le> result_key_max_length"

lemma normalize_plain_keys:
  assumes "\<forall>k \<in> set ks. plain_key k" "distinct ks" "length ks \<le> result_key_limit"
  shows "normalize_result_keys env (PList (map PStr ks)) = ks"
proof -
  have "map (result_key_text env) (map PStr ks) = ks"
    using assms(1) by (simp add: comp_def result_key_text_def text_of_str plain_key_def map_idI)
  moreover have "filter (\<lambda>k. k \<noteq> '''') ks = ks" using assms(1) by (simp add: filter_id_conv plain_key_def)
  ultimately show ?thesis
    using assms(2,3) by (simp only: normalize_result_keys_def pyval.case dedup_first_id take_last_id)
qed

lemma normalize_result_keys_plain:
  assumes "case v of PList vs \<Rightarrow> \<forall>v \<in> set vs. length (text_of env v) \<le> result_key_max_length | _ \<Rightarrow> True"
  shows "\<forall>k \<in> set (normalize_result_keys env v). plain_key k"
proof (cases v)
  case (PList vs)
  let ?ks = "dedup_first (filter (\<lambda>k. k \<noteq> '''') (map (result_key_text env) vs))"
  have "\<forall>k \<in> set ?ks. plain_key k"
    using assms PList by (auto simp: plain_key_def result_key_text_def) (simp add: text_of_def)
  moreover have "set (normalize_result_keys env v) \<subseteq> set ?ks"
    using set_take_last [of result_key_limit ?ks] by (simp only: normalize_result_keys_def PList pyval.case)
  ultimately show ?thesis by blast
qed (simp_all add: normalize_result_keys_def)

lemma normalize_result_keys_distinct:
  "distinct (normalize_result_keys env v) \<and> length (normalize_result_keys env v) \<le> result_key_limit"
  by (cases v) (simp_all add: normalize_result_keys_def distinct_take_last length_take_last)

lemma normalize_result_keys_idem:
  assumes "case v of PList vs \<Rightarrow> \<forall>v \<in> set vs. length (text_of env v) \<le> result_key_max_length | _ \<Rightarrow> True"
  shows "normalize_result_keys env (PList (map PStr (normalize_result_keys env v))) = normalize_result_keys env v"
  using normalize_plain_keys [OF normalize_result_keys_plain [OF assms]] normalize_result_keys_distinct by blast

lemma identity_fix:
  assumes "identity_normal env a"
  shows "normalize_identity env a = a"
proof -
  obtain t where t: "fmlookup a ''access_token'' = Some t" "truthy t" "access_token_of env a = raw_text env t"
    using assms by (cases "fmlookup a ''access_token''") (auto simp: identity_normal_def field_def access_token_of_def)
  obtain m where m: "fmlookup a ''management_id'' = Some (PStr m)" "is_management_id m"
    using assms by (auto simp: identity_normal_def)
  obtain fs where fs: "fmlookup a ''access_token_fingerprints'' = Some (PList fs)"
    "normalize_fingerprints env (PList fs) (raw_text env t) = fs"
    using assms t(3) by (auto simp: identity_normal_def)
  have gone: "pop ''accessToken'' a = a" using assms by (simp add: identity_normal_def pop_id)
  have keys: "(case fmlookup a ''managed_image_result_idempotency_keys'' of None \<Rightarrow> a
      | Some v \<Rightarrow> put ''managed_image_result_idempotency_keys'' (PList (map PStr (normalize_result_keys env v))) a) = a"
    using assms by (auto simp: identity_normal_def put_id split: option.splits)
  have type: "py_lower (field_text env a ''type'') \<noteq> ''codex''" using assms by (simp add: identity_normal_def)
  show ?thesis
    using t(1,2) m fs keys type
    by (simp add: normalize_identity_def gone field_Some por_def put_id normalize_management_id_self)
qed


lemma identity_result_keys:
  "fmlookup (normalize_identity env item) ''managed_image_result_idempotency_keys'' =
     map_option (\<lambda>v. PList (map PStr (normalize_result_keys env v))) (fmlookup item ''managed_image_result_idempotency_keys'')"
  by (simp add: normalize_identity_def Let_def lookups split: option.split)

lemma identity_result:
  assumes "env_ok env" "short_result_keys env item"
    and token: "truthy (por (field item ''access_token'') (field item ''accessToken''))"
  shows "identity_normal env (normalize_identity env item)"
proof -
  let ?b = "normalize_identity env item"
  let ?t = "por (field item ''access_token'') (field item ''accessToken'')"
  have t: "fmlookup ?b ''access_token'' = Some ?t" "fmlookup ?b ''accessToken'' = None"
    by (simp_all add: normalize_identity_def Let_def lookups split: option.split)
  then have at: "field ?b ''access_token'' = ?t" "access_token_of env ?b = raw_text env ?t"
    by (simp_all add: field_Some access_token_of_def)
  have m: "fmlookup ?b ''management_id'' =
      Some (PStr (normalize_management_id env (field item ''management_id'') (raw_text env ?t)))"
    by (simp add: normalize_identity_def Let_def lookups field_put field_pop split: option.split)
  have f: "fmlookup ?b ''access_token_fingerprints'' =
      Some (PList (normalize_fingerprints env (field item ''access_token_fingerprints'') (raw_text env ?t)))"
    by (simp add: normalize_identity_def Let_def lookups field_put field_pop split: option.split)
  note k = identity_result_keys [of env item]
  have ty: "py_lower (field_text env ?b ''type'') \<noteq> ''codex''"
  proof (cases "py_lower (field_text env item ''type'') = ''codex''")
    case True
    then have "field ?b ''type'' = PNone"
      by (auto simp: normalize_identity_def Let_def lookups field_def field_text_def split: option.split)
    then show ?thesis by (simp add: field_text_def text_of_def result_words)
  next
    case False
    then have "field ?b ''type'' = field item ''type''"
      by (auto simp: normalize_identity_def Let_def lookups field_def field_text_def split: option.split)
    with False show ?thesis by (simp add: field_text_def)
  qed
  show ?thesis
    unfolding identity_normal_def at t
  proof (intro conjI)
    show "\<exists>m. fmlookup ?b ''management_id'' = Some (PStr m) \<and> is_management_id m"
      using m normalize_management_id_valid [OF assms(1)] by blast
    show "\<exists>fs. fmlookup ?b ''access_token_fingerprints'' = Some (PList fs) \<and>
        normalize_fingerprints env (PList fs) (raw_text env ?t) = fs"
      using f normalize_fingerprints_idem [OF assms(1)] by blast
    show "case fmlookup ?b ''managed_image_result_idempotency_keys'' of
        None \<Rightarrow> True | Some v \<Rightarrow> v = PList (map PStr (normalize_result_keys env v))"
      using assms(2) normalize_result_keys_idem [where env = env and v = "field item ''managed_image_result_idempotency_keys''"] k
      by (cases "fmlookup item ''managed_image_result_idempotency_keys''")
         (simp_all add: short_result_keys_def field_def)
  qed (use token ty in simp_all)
qed

lemma normalized_result_keys:
  assumes "normalize_account env item = Some a"
  shows "fmlookup a ''managed_image_result_idempotency_keys'' =
     map_option (\<lambda>v. PList (map PStr (normalize_result_keys env v))) (fmlookup item ''managed_image_result_idempotency_keys'')"
  using assms identity_result_keys [of env item]
  by (auto simp: normalize_account_def Let_def diagnostics_keep remote_check_keep counters_keep quota_keep status_keep
      split: if_splits)

lemma normalized_count:
  assumes "normalize_account env item = Some a" and "f \<in> {''success'', ''fail''}"
  shows "fmlookup a f = Some (PInt (quota_value env (field item f) 0))"
  using assms
  by (auto simp: normalize_account_def normalize_counters_def Let_def diagnostics_keep remote_check_keep lookups
      field_def quota_keep status_keep identity_keep split: if_splits)

section \<open>The normal form\<close>

definition normal_account :: "account_env \<Rightarrow> account \<Rightarrow> bool" where
  "normal_account env a \<longleftrightarrow> identity_normal env a \<and> status_normal env a \<and> quota_normal env a \<and>
     counters_normal a \<and> remote_check_normal env a \<and> diagnostics_normal env a"

lemma normal_account_fix: "normal_account env a \<Longrightarrow> normalize_account env a = Some a"
proof -
  assume n: "normal_account env a"
  then have "has_value env (field a ''quota'')"
    by (auto simp: normal_account_def quota_normal_def count_field_def field_Some)
  moreover have "truthy (por (field a ''access_token'') (field a ''accessToken''))"
    using n by (simp add: normal_account_def identity_normal_def por_def)
  ultimately show ?thesis
    using n by (simp add: normal_account_def normalize_account_def identity_fix status_fix quota_fix counters_fix
        remote_check_fix diagnostics_fix)
qed

lemma identity_normal_cong:
  assumes "identity_normal env a"
    and "\<And>f. f \<in> {''access_token'', ''accessToken'', ''management_id'', ''access_token_fingerprints'',
      ''managed_image_result_idempotency_keys''} \<Longrightarrow> fmlookup b f = fmlookup a f"
    and "py_lower (field_text env b ''type'') \<noteq> ''codex''"
  shows "identity_normal env b"
  using assms by (simp add: identity_normal_def access_token_of_def field_def)

lemma status_normal_cong:
  assumes "status_normal env a"
    and "\<And>f. f \<in> {''type'', ''status'', ''enabled'', ''auto_disabled'', ''email'', ''user_id'', ''proxy'',
      ''source_type''} \<Longrightarrow> fmlookup b f = fmlookup a f"
  shows "status_normal env b"
  using assms by (simp add: status_normal_def)

lemma quota_normal_cong:
  assumes "quota_normal env a"
    and "\<And>f. f \<in> {''quota'', ''image_quota_unknown'', ''limits_progress'', ''default_model_slug'', ''restore_at'',
      ''status''} \<Longrightarrow> fmlookup b f = fmlookup a f"
    and "truthy (field b ''last_remote_checked_at'') = truthy (field a ''last_remote_checked_at'')"
  shows "quota_normal env b"
  using assms by (simp add: quota_normal_def count_field_def limits_of_def limits_unknown_def limits_restore_def
      quota_confirmed_def field_def)

lemma counters_normal_cong:
  "counters_normal a \<Longrightarrow> (\<And>f. f \<in> {''success'', ''fail'', ''invalid_count'', ''last_used_at''} \<Longrightarrow>
     fmlookup b f = fmlookup a f) \<Longrightarrow> counters_normal b"
  by (simp add: counters_normal_def count_field_def)

lemma account_type_not_codex: "status_normal env a \<Longrightarrow> py_lower (field_text env a ''type'') \<noteq> ''codex''"
proof -
  assume "status_normal env a"
  then obtain t where t: "fmlookup a ''type'' = Some (opt_text t)" "normalize_account_type env (opt_text t) = t"
    by (auto simp: status_normal_def)
  show ?thesis
  proof (cases t)
    case None
    with t show ?thesis by (simp add: field_text_def field_Some opt_text_def text_of_def result_words)
  next
    case (Some s)
    then obtain x where "account_type_alias x = Some s"
      using t(2) by (auto simp: normalize_account_type_def Let_def split: if_splits option.splits)
    then have "s \<in> {''free'', ''Plus'', ''Pro'', ''ProLite'', ''Team'', ''Enterprise''}"
      by (rule account_type_alias_range)
    then have "py_lower (py_strip s) \<noteq> ''codex''"
      by (elim insertE emptyE) (simp_all add: type_words py_strip_def is_py_space_def)
    with t(1) Some show ?thesis by (simp add: field_text_def field_Some opt_text_def text_of_str)
  qed
qed


lemma remote_check_normal_cong:
  assumes "remote_check_normal env a"
    and "\<And>f. f \<in> set check_text_fields \<union> {''last_remote_check_result'', ''pending_auth_remove_invalid'',
      ''pending_auth_scope'', ''pending_auth_verification_id''} \<Longrightarrow> f \<notin> set error_text_fields \<Longrightarrow> fmlookup b f = fmlookup a f"
    and "\<And>f. f \<in> set check_text_fields \<inter> set error_text_fields \<Longrightarrow> \<exists>v. fmlookup b f = Some v \<and> noneable v"
  shows "remote_check_normal env b"
proof -
  have others: "f \<notin> set error_text_fields" if "f \<in> {''last_remote_check_result'', ''pending_auth_remove_invalid'',
      ''pending_auth_scope'', ''pending_auth_verification_id''}" for f
    using that by (auto simp: error_text_fields_def)
  have same: "fmlookup b f = fmlookup a f" if "f \<in> {''last_remote_check_result'', ''pending_auth_remove_invalid'',
      ''pending_auth_scope'', ''pending_auth_verification_id''}" for f
    by (rule assms(2)) (use that others [OF that] in blast)+
  then have "check_pending b = check_pending a" by (simp add: check_pending_def field_def)
  moreover have "\<exists>v. fmlookup b f = Some v \<and> noneable v" if "f \<in> set check_text_fields" for f
    using assms(1) assms(2) [of f] assms(3) [of f] that
    by (cases "f \<in> set error_text_fields") (auto simp: remote_check_normal_def)
  ultimately show ?thesis
    using assms(1) same by (simp add: remote_check_normal_def split: option.splits)
qed

lemma noneable_error_text:
  "x = Some PNone \<or> (\<exists>s. x = Some (PStr s) \<and> py_strip s = s \<and> s \<noteq> '''') \<Longrightarrow> \<exists>v. x = Some v \<and> noneable v"
  by (auto simp: noneable_def)

lemma normalized_account_normal:
  assumes "env_ok env" "short_result_keys env item" "no_blank_errors env item"
    and "normalize_account env item = Some a"
  shows "normal_account env a \<and> normalize_account env a = Some a"
proof -
  let ?i = "normalize_identity env item"
  let ?s = "normalize_status_fields env ?i"
  let ?q = "normalize_quota_fields env (has_value env (field ?i ''quota'')) (limits_of ?i) ?s"
  let ?c = "normalize_counters env ?q"
  let ?r = "normalize_remote_check env ?c"
  have token: "truthy (por (field item ''access_token'') (field item ''accessToken''))"
    and a: "a = normalize_diagnostics env ?r"
    using assms(4) by (auto simp: normalize_account_def Let_def split: if_splits)
  have limits: "limits_of ?s = limits_of ?i"
    using status_keep [of "''limits_progress''" env ?i] by (simp add: limits_of_def field_def)
  have counters: "counters_normal a" unfolding a
    by (rule counters_normal_cong [OF counters_result [of env ?q]])
       (elim insertE emptyE; simp add: diagnostics_keep remote_check_keep)
  have quota: "quota_normal env a" unfolding a
  proof (rule quota_normal_cong [OF quota_result [where env = env and a = ?s and explicit = "has_value env (field ?i ''quota'')",
        unfolded limits]])
    show "fmlookup (normalize_diagnostics env ?r) f = fmlookup ?q f"
      if "f \<in> {''quota'', ''image_quota_unknown'', ''limits_progress'', ''default_model_slug'', ''restore_at'', ''status''}" for f
      using that by (elim insertE emptyE; simp add: diagnostics_keep remote_check_keep counters_keep)
    have "field (normalize_diagnostics env ?r) ''last_remote_checked_at'' = field ?r ''last_remote_checked_at''"
      by (simp add: field_def diagnostics_keep)
    moreover have "field ?r ''last_remote_checked_at'' = por (field ?c ''last_remote_checked_at'') PNone"
      by (rule field_Some [OF remote_check_texts]) (simp add: check_text_fields_def)
    moreover have "field ?c ''last_remote_checked_at'' = field ?q ''last_remote_checked_at''"
      by (simp add: field_def counters_keep)
    ultimately show "truthy (field (normalize_diagnostics env ?r) ''last_remote_checked_at'') =
        truthy (field ?q ''last_remote_checked_at'')" by simp
  qed
  have status: "status_normal env a" unfolding a
    by (rule status_normal_cong [OF status_result [of env ?i]])
       (elim insertE emptyE; simp add: diagnostics_keep remote_check_keep counters_keep quota_keep)
  have identity: "identity_normal env a"
  proof (rule identity_normal_cong [OF identity_result [OF assms(1,2) token]])
    show "fmlookup a f = fmlookup ?i f"
      if "f \<in> {''access_token'', ''accessToken'', ''management_id'', ''access_token_fingerprints'',
        ''managed_image_result_idempotency_keys''}" for f
      unfolding a using that
      by (elim insertE emptyE; simp add: diagnostics_keep remote_check_keep counters_keep quota_keep status_keep)
  qed (rule account_type_not_codex [OF status])
  have blank: "no_blank_errors env ?r"
    unfolding no_blank_errors_def
  proof
    fix f assume f: "f \<in> set error_text_fields"
    have c: "field ?c f = field item f"
      using f by (auto simp: error_text_fields_def field_def counters_keep quota_keep status_keep identity_keep)
    have "field ?r f = por (field ?c f) PNone \<or> field ?r f = field ?c f"
    proof (cases "f \<in> set check_text_fields")
      case True
      then have "fmlookup ?r f = Some (por (field ?c f) PNone)" by (rule remote_check_texts)
      then show ?thesis by (simp add: field_Some)
    next
      case False
      with f have "f = ''last_token_refresh_error''" by (auto simp: error_text_fields_def check_text_fields_def)
      then show ?thesis by (simp add: field_def remote_check_keep)
    qed
    with assms(3) f c show "truthy (field ?r f) \<longrightarrow> text_of env (field ?r f) \<noteq> ''''"
      by (auto simp: no_blank_errors_def por_def split: if_splits)
  qed
  have errors: "fmlookup a f = Some PNone \<or> (\<exists>s. fmlookup a f = Some (PStr s) \<and> py_strip s = s \<and> s \<noteq> '''')"
    if "f \<in> set error_text_fields" for f
    unfolding a
  proof (rule diagnostics_error_text [OF blank that])
    assume "f \<notin> set refresh_text_fields"
    with that have "f \<in> set check_text_fields" by (auto simp: error_text_fields_def refresh_text_fields_def check_text_fields_def)
    then show "\<exists>v. fmlookup ?r f = Some v \<and> noneable v"
      using remote_check_result [of env ?c] by (simp add: remote_check_normal_def)
  qed
  have diagnostics: "diagnostics_normal env a" unfolding a
  proof (rule diagnostics_result [OF blank])
    show "env_created_stamp env \<noteq> ''''" using assms(1) by (simp add: env_ok_def)
    have "set error_text_fields - set refresh_text_fields \<subseteq> set check_text_fields"
      by (auto simp: error_text_fields_def refresh_text_fields_def check_text_fields_def)
    then show "\<forall>f \<in> set error_text_fields - set refresh_text_fields. \<exists>v. fmlookup ?r f = Some v \<and> noneable v"
      using remote_check_result [of env ?c] unfolding remote_check_normal_def by blast
  qed
  have remote: "remote_check_normal env a"
  proof (rule remote_check_normal_cong [OF remote_check_result [of env ?c]])
    show "\<exists>v. fmlookup a f = Some v \<and> noneable v" if "f \<in> set check_text_fields \<inter> set error_text_fields" for f
      by (rule noneable_error_text [OF errors]) (use that in blast)
    show "fmlookup a f = fmlookup ?r f" if "f \<in> set check_text_fields \<union> {''last_remote_check_result'',
        ''pending_auth_remove_invalid'', ''pending_auth_scope'', ''pending_auth_verification_id''}"
      "f \<notin> set error_text_fields" for f
      unfolding a by (rule diagnostics_keep)
        (use that in \<open>auto simp: check_text_fields_def error_text_fields_def\<close>)
  qed
  have "normal_account env a"
    using identity status quota counters remote diagnostics by (simp add: normal_account_def)
  with normal_account_fix show ?thesis by blast
qed

text \<open>
  Property C25. Loading settles: what \<open>_normalize_account\<close> makes of an account is in normal
  form, with every count non-negative, a known status, a valid management id, at most eight
  fingerprints and no leftover of a finished check, and normalising it again changes nothing,
  so a snapshot that has been written back once is not rewritten at the next start. The keys of
  recorded results must not be longer than their limit and error texts not blank: those are cut
  and trimmed in two passes.
\<close>

theorem normalize_account_settles:
  assumes "env_ok env" "short_result_keys env item" "no_blank_errors env item"
    and "normalize_account env item = Some a"
  shows "normal_account env a \<and> normalize_account env a = Some a"
  by (rule normalized_account_normal [OF assms])

text \<open>An environment to try the definitions in.\<close>

definition sample_env :: account_env where
  "sample_env =
     \<lparr>env_repr = (\<lambda>v. ''[]''), env_int = (\<lambda>s. None), env_float_int = (\<lambda>s. None),
      env_digest = (\<lambda>s. replicate 64 (CHR ''a'')), env_uuid5 = length, env_parse_uuid = (\<lambda>s. None),
      env_claim = (\<lambda>t c. PNone), env_parse_time = (\<lambda>s. None),
      env_stamp = (\<lambda>t. ''t'' @ int_text t), env_created_stamp = ''c'', env_fresh_id = ''v''\<rparr>"

lemma sample_env_ok: "env_ok sample_env"
proof -
  have "is_hex (replicate 64 (CHR ''a''))" by code_simp
  then show ?thesis by (simp add: env_ok_def hex_digest_def sample_env_def)
qed

definition sample_item :: account where
  "sample_item = fmap_of_list
     [(''accessToken'', PStr ''tok''), (''status'', PStr ''cooling''), (''quota'', PInt 7), (''type'', PStr '' pro-lite ''),
      (''email'', PStr ''''), (''last_remote_check_result'', PStr ''pending'')]"

theorem normalize_account_settles_witness:
  "\<exists>a. normalize_account sample_env sample_item = Some a \<and> normalize_account sample_env a = Some a"
proof -
  note env = sample_env_ok
  have keys: "short_result_keys sample_env sample_item" and errors: "no_blank_errors sample_env sample_item"
    by code_simp+
  obtain a where a: "normalize_account sample_env sample_item = Some a"
  proof -
    have "truthy (por (field sample_item ''access_token'') (field sample_item ''accessToken''))" by code_simp
    then show thesis using that by (simp add: normalize_account_def Let_def)
  qed
  from normalize_account_settles [OF env keys errors a] a show ?thesis by blast
qed

end
