(* ===== verification/Account_Merge_Correct.thy ===== *)
theory Account_Merge_Correct
  imports Account_Store Account_Normal
begin

text \<open>
  The merge after a conflict: what becomes of each field of an account and of each account of
  the pool, and what the merge loses.
\<close>

section \<open>Fields\<close>

definition field_changed :: "account \<Rightarrow> account \<Rightarrow> string \<Rightarrow> bool" where
  "field_changed a b f \<longleftrightarrow> fmlookup a f \<noteq> fmlookup b f"

lemma lookup_merge_account_fields:
  "fmlookup (merge_account_fields env b l r) f =
     (if field_changed b l f then map_option (merged_value env b l r f) (fmlookup l f) else fmlookup r f)"
  by (cases "fmlookup l f") (auto simp: merge_account_fields_def field_changed_def Let_def fmdom_notI fmdomI)

lemma merged_value_plain:
  "f \<notin> set additive_account_counters \<Longrightarrow> f \<noteq> ''quota'' \<or> \<not> is_local_quota_consumption env b l \<Longrightarrow>
     merged_value env b l r f v = v"
  by (auto simp: merged_value_def)

lemma merged_value_counter:
  assumes "f \<in> set additive_account_counters \<or> f = ''quota'' \<and> is_local_quota_consumption env b l"
    and "fmlookup b f = Some (PInt x)" "fmlookup l f = Some (PInt y)" "fmlookup r f = Some (PInt z)"
  shows "merged_value env b l r f v = PInt (max 0 (z + (y - x)))"
  using assms by (simp add: merged_value_def merge_additive_account_value_def integer_field_def)


text \<open>A field that only one side changed has that side's value, whichever side it is.\<close>

lemma merge_one_sided_local:
  assumes "\<not> field_changed b r f" and "f \<in> set additive_account_counters \<or> f = ''quota'' \<Longrightarrow> \<exists>y\<ge>0. fmlookup l f = Some (PInt y)"
    and "f \<in> set additive_account_counters \<or> f = ''quota'' \<Longrightarrow> \<exists>x. fmlookup b f = Some (PInt x)"
  shows "fmlookup (merge_account_fields env b l r) f = fmlookup l f"
proof (cases "f \<in> set additive_account_counters \<or> f = ''quota'' \<and> is_local_quota_consumption env b l")
  case True
  with assms(2,3) obtain x y where xy: "fmlookup b f = Some (PInt x)" "fmlookup l f = Some (PInt y)" "0 \<le> y"
    by auto
  with assms(1) have "fmlookup r f = Some (PInt x)" by (simp add: field_changed_def)
  from merged_value_counter [OF True xy(1,2) this] xy assms(1) show ?thesis
    by (auto simp: lookup_merge_account_fields field_changed_def)
next
  case False
  then have "merged_value env b l r f = id" by (auto simp: merged_value_plain fun_eq_iff)
  with assms(1) show ?thesis by (simp add: lookup_merge_account_fields field_changed_def option.map_id)
qed

lemma merge_one_sided_remote: "\<not> field_changed b l f \<Longrightarrow> fmlookup (merge_account_fields env b l r) f = fmlookup r f"
  by (simp add: lookup_merge_account_fields)

lemma merged_counter:
  assumes "f \<in> set additive_account_counters \<or> f = ''quota'' \<and> is_local_quota_consumption env b l"
    and "fmlookup b f = Some (PInt x)" "fmlookup l f = Some (PInt y)" "fmlookup r f = Some (PInt z)" and "0 \<le> z"
  shows "fmlookup (merge_account_fields env b l r) f = Some (PInt (max 0 (y + z - x)))"
proof (cases "x = y")
  case True
  with assms show ?thesis by (simp add: lookup_merge_account_fields field_changed_def)
next
  case False
  then have "field_changed b l f" using assms(2,3) by (simp add: field_changed_def)
  moreover have "z + (y - x) = y + z - x" by simp
  ultimately show ?thesis
    by (simp only: lookup_merge_account_fields if_True assms(3) option.map
        merged_value_counter [OF assms(1,2,3,4)])
qed

text \<open>
  Property C22. Concurrent results add up: when two processes start from the same account,
  with \<open>x\<close> as the value of \<open>success\<close> or \<open>fail\<close>, and reach \<open>y\<close> and \<open>z\<close>, the merge counts both
  changes, \<open>y + z - x\<close>, and so does the merge the other process would make; the same holds of
  \<open>quota\<close> when both have consumed quota, and the count never falls below zero.
\<close>

theorem concurrent_counts_add_up:
  assumes "f \<in> set additive_account_counters \<or>
      f = ''quota'' \<and> is_local_quota_consumption env b l \<and> is_local_quota_consumption env b r"
    and "fmlookup b f = Some (PInt x)" "fmlookup l f = Some (PInt y)" "fmlookup r f = Some (PInt z)"
    and "0 \<le> y" "0 \<le> z"
  shows "fmlookup (merge_account_fields env b l r) f = Some (PInt (max 0 (y + z - x))) \<and>
    fmlookup (merge_account_fields env b r l) f = Some (PInt (max 0 (y + z - x)))"
proof
  show "fmlookup (merge_account_fields env b l r) f = Some (PInt (max 0 (y + z - x)))"
    by (rule merged_counter) (use assms in auto)
  have "fmlookup (merge_account_fields env b r l) f = Some (PInt (max 0 (z + y - x)))"
    by (rule merged_counter) (use assms in auto)
  then show "fmlookup (merge_account_fields env b r l) f = Some (PInt (max 0 (y + z - x)))"
    by (simp add: add.commute)
qed

definition sample_account :: "int \<Rightarrow> int \<Rightarrow> string \<Rightarrow> account" where
  "sample_account success quota used =
     fmap_of_list [(''access_token'', PStr ''tok''), (''success'', PInt success), (''quota'', PInt quota),
       (''last_used_at'', PStr used)]"

theorem concurrent_counts_add_up_witness:
  "fmlookup (merge_account_fields sample_env (sample_account 3 9 ''t0'') (sample_account 4 8 ''t1'')
      (sample_account 5 7 ''t2'')) ''quota'' = Some (PInt 6)"
proof -
  have "is_local_quota_consumption sample_env (sample_account 3 9 ''t0'') (sample_account 4 8 ''t1'')"
    "is_local_quota_consumption sample_env (sample_account 3 9 ''t0'') (sample_account 5 7 ''t2'')"
    "fmlookup (sample_account 3 9 ''t0'') ''quota'' = Some (PInt 9)"
    "fmlookup (sample_account 4 8 ''t1'') ''quota'' = Some (PInt 8)"
    "fmlookup (sample_account 5 7 ''t2'') ''quota'' = Some (PInt 7)" by code_simp+
  from concurrent_counts_add_up [OF _ this(3-5)] this(1,2) show ?thesis by simp
qed


section \<open>Accounts\<close>

text \<open>What the merge means for one account, as a function of its three versions.\<close>

definition merged_entry :: "account_env \<Rightarrow> account option \<Rightarrow> account option \<Rightarrow> account option \<Rightarrow> account option" where
  "merged_entry env baseline local remote =
     (case local of
        None \<Rightarrow> (case baseline of None \<Rightarrow> remote | Some b \<Rightarrow> None)
      | Some l \<Rightarrow>
          (case baseline of
             None \<Rightarrow> Some (case remote of None \<Rightarrow> l | Some r \<Rightarrow> r ++\<^sub>f l)
           | Some b \<Rightarrow> if l = b then remote else map_option (merge_account_fields env b l) remote))"

definition no_rotation :: "account_env \<Rightarrow> accounts \<Rightarrow> accounts \<Rightarrow> bool" where
  "no_rotation env accounts baseline \<longleftrightarrow>
     list_all (\<lambda>(t, a). rotated_account_token env accounts baseline t a = None) baseline"

lemma map_of_dict_drop: "map_of (dict_drop k d) = (map_of d)(k := None)"
  by (rule ext) (induction d, auto simp: dict_drop_def)

lemma mem_keys: "t \<in> fst ` set d \<longleftrightarrow> map_of d t \<noteq> None"
  by (simp add: map_of_eq_None_iff)

lemma fold_dropped_accounts:
  assumes "list_all (\<lambda>(t, a). rotated_account_token env local baseline t a = None \<and>
      rotated_account_token env remote baseline t a = None) bs"
  shows "\<exists>merged. fold (merge_dropped_account env baseline local remote) bs (acc, handled) = (merged, handled) \<and>
    map_of merged = (\<lambda>t. if t \<in> set (dict_keys bs) \<and> map_of local t = None then None else map_of acc t)"
  using assms
proof (induction bs arbitrary: acc)
  case (Cons b bs)
  obtain t a where b: "b = (t, a)" by (cases b)
  with Cons.prems have "rotated_account_token env local baseline t a = None"
    "rotated_account_token env remote baseline t a = None" by simp_all
  then have step: "merge_dropped_account env baseline local remote b (acc, handled) =
      (if map_of local t = None then dict_drop t acc else acc, handled)"
    by (simp add: merge_dropped_account_def b mem_keys)
  from Cons.prems have "list_all (\<lambda>(t, a). rotated_account_token env local baseline t a = None \<and>
      rotated_account_token env remote baseline t a = None) bs" by simp
  from Cons.IH [OF this, of "if map_of local t = None then dict_drop t acc else acc"] obtain merged where
    "fold (merge_dropped_account env baseline local remote) bs (if map_of local t = None then dict_drop t acc else acc, handled)
      = (merged, handled)"
    and m: "map_of merged = (\<lambda>u. if u \<in> set (dict_keys bs) \<and> map_of local u = None then None
      else map_of (if map_of local t = None then dict_drop t acc else acc) u)" by blast
  moreover have "map_of merged = (\<lambda>u. if u \<in> set (dict_keys (b # bs)) \<and> map_of local u = None then None else map_of acc u)"
    unfolding m by (rule ext) (auto simp: b map_of_dict_drop)
  ultimately show ?case by (simp only: fold_Cons o_apply step) blast
qed simp

lemma merge_local_account_entry:
  assumes "no_rotation env remote baseline" and "map_of merged t = map_of remote t"
  shows "map_of (merge_local_account env baseline remote [] (t, ours) merged) =
    (map_of merged)(t := merged_entry env (map_of baseline t) (Some ours) (map_of remote t))"
proof (cases "map_of baseline t")
  case None
  then show ?thesis
    by (simp add: merge_local_account_def merged_entry_def map_of_dict_set fun_upd_def split: option.split)
next
  case (Some base)
  have "rotated_account_token env remote baseline t base = None"
    using assms(1) map_of_SomeD [OF Some] by (auto simp: no_rotation_def list_all_iff)
  with Some assms(2) show ?thesis
    by (auto simp: merge_local_account_def merged_entry_def map_of_dict_set map_of_dict_drop fun_eq_iff split: option.split)
qed

lemma fold_local_accounts:
  assumes "no_rotation env remote baseline" and "distinct (dict_keys ls)"
    and "\<forall>t \<in> set (dict_keys ls). map_of merged t = map_of remote t"
  shows "map_of (fold (merge_local_account env baseline remote []) ls merged) =
    (\<lambda>t. if t \<in> set (dict_keys ls) then merged_entry env (map_of baseline t) (map_of ls t) (map_of remote t)
         else map_of merged t)"
  using assms(2,3)
proof (induction ls arbitrary: merged)
  case (Cons l ls)
  obtain t a where l: "l = (t, a)" by (cases l)
  let ?m = "merge_local_account env baseline remote [] l merged"
  have m: "map_of ?m = (map_of merged)(t := merged_entry env (map_of baseline t) (Some a) (map_of remote t))"
    unfolding l by (rule merge_local_account_entry [OF assms(1)]) (use Cons.prems l in simp)
  have distinct: "distinct (dict_keys ls)" and fresh: "t \<notin> set (dict_keys ls)" using Cons.prems(1) l by simp_all
  have "\<forall>u \<in> set (dict_keys ls). map_of ?m u = map_of remote u"
    using Cons.prems(2) fresh l m by auto
  with distinct have "map_of (fold (merge_local_account env baseline remote []) ls ?m) =
      (\<lambda>u. if u \<in> set (dict_keys ls) then merged_entry env (map_of baseline u) (map_of ls u) (map_of remote u)
           else map_of ?m u)"
    by (intro Cons.IH)
  then have "map_of (fold (merge_local_account env baseline remote []) (l # ls) merged) =
      (\<lambda>u. if u \<in> set (dict_keys ls) then merged_entry env (map_of baseline u) (map_of ls u) (map_of remote u)
           else map_of ?m u)"
    by (simp only: fold_Cons o_apply)
  with fresh show ?case unfolding m by (auto simp: l fun_eq_iff)
qed simp




end
