(* ===== verification/Account_Pool.thy ===== *)
theory Account_Pool
  imports Account_Store Account_Dispatch
begin

text \<open>
  Working with the pool (\<open>services/account_service.py\<close>): the slots of image requests, the
  choice of an account for a request, the accounting of results, the state of accounts whose
  credentials are refused and the rotation of refreshed tokens. A worker of the image queue
  takes its account from \<open>list_image_account_candidates\<close> and reports the result with
  \<open>record_managed_image_result\<close>; a direct request borrows a slot.
\<close>

record account_config =
  cf_concurrency :: int
  cf_auto_remove_invalid :: bool
  cf_refresh_workers :: nat

definition max_concurrency :: "account_config \<Rightarrow> nat" where
  "max_concurrency cfg = nat (max 1 (if cf_concurrency cfg = 0 then 1 else cf_concurrency cfg))"

section \<open>Slots\<close>

definition record_image_slot_start :: "time \<Rightarrow> string \<Rightarrow> pool \<Rightarrow> pool" where
  "record_image_slot_start now token p =
     p\<lparr>pl_started := dict_set token (starts_of p token @ [now]) (pl_started p)\<rparr>"

definition pop_image_slot_start :: "string \<Rightarrow> pool \<Rightarrow> pool" where
  "pop_image_slot_start token p =
     (case map_of (pl_started p) token of
        None \<Rightarrow> p
      | Some starts \<Rightarrow>
          if drop 1 starts \<noteq> [] then p\<lparr>pl_started := dict_set token (drop 1 starts) (pl_started p)\<rparr>
          else p\<lparr>pl_started := dict_drop token (pl_started p)\<rparr>)"

definition take_image_slot :: "time \<Rightarrow> string \<Rightarrow> pool \<Rightarrow> pool" where
  "take_image_slot now token p =
     (let p = record_image_slot_start now token p
      in p\<lparr>pl_inflight := dict_set token (inflight_of p token + 1) (pl_inflight p)\<rparr>)"

definition release_slot_locked :: "string \<Rightarrow> pool \<Rightarrow> pool" where
  "release_slot_locked token p =
     (let current = inflight_of p token
      in if current \<le> 1
         then p\<lparr>pl_inflight := dict_drop token (pl_inflight p), pl_started := dict_drop token (pl_started p)\<rparr>
         else pop_image_slot_start token
                (p\<lparr>pl_inflight := dict_set token (current - 1) (pl_inflight p)\<rparr>))"

definition release_image_slot :: "string \<Rightarrow> pool \<Rightarrow> pool" where
  "release_image_slot token p =
     (if token = '''' then p else release_slot_locked (resolve_access_token p token) p)"

section \<open>Candidates\<close>

definition list_ready_candidate_tokens ::
  "account_env \<Rightarrow> time \<Rightarrow> account_filter \<Rightarrow> string list \<Rightarrow> pool \<Rightarrow> string list" where
  "list_ready_candidate_tokens env now f excluded p =
     filter (\<lambda>t. t \<noteq> '''' \<and> t \<notin> set excluded)
       (map (access_token_of env)
          (filter (\<lambda>a. is_image_account_available env now a \<and> matches_filter env a f)
             (map snd (pl_accounts p))))"

definition list_available_candidate_tokens ::
  "account_env \<Rightarrow> account_config \<Rightarrow> time \<Rightarrow> account_filter \<Rightarrow> string list \<Rightarrow> pool \<Rightarrow> string list" where
  "list_available_candidate_tokens env cfg now f excluded p =
     filter (\<lambda>t. inflight_of p t < max_concurrency cfg) (list_ready_candidate_tokens env now f excluded p)"

definition generating_time :: "time \<Rightarrow> string \<Rightarrow> pool \<Rightarrow> time" where
  "generating_time now token p =
     (if inflight_of p token = 0 then 0
      else case starts_of p token of [] \<Rightarrow> 0 | t # _ \<Rightarrow> max 0 (now - t))"

definition dispatch_stats_for_token :: "time \<Rightarrow> string \<Rightarrow> pool \<Rightarrow> dispatch_stats" where
  "dispatch_stats_for_token now token p =
     (let a = (case map_of (pl_accounts p) token of None \<Rightarrow> fmempty | Some a \<Rightarrow> a)
      in \<lparr>ds_inflight = inflight_of p token, ds_generating_time = generating_time now token p,
          ds_success = nat (count_of (field a ''success'')), ds_fail = nat (count_of (field a ''fail''))\<rparr>)"

definition pick_ranked_image_token :: "account_config \<Rightarrow> time \<Rightarrow> string list \<Rightarrow> pool \<Rightarrow> string \<times> pool" where
  "pick_ranked_image_token cfg now tokens p =
     (hd (rank_image_account_tokens tokens (map (\<lambda>t. (t, dispatch_stats_for_token now t p)) tokens)
            (int (max_concurrency cfg)) (pl_index p)),
      p\<lparr>pl_index := pl_index p + 1\<rparr>)"

text \<open>Why a request got no account; \<open>Preflight\<close> carries a category of \<open>DEFAULTS\<close>.\<close>

datatype selection_error = DeadlineExceeded | QuotaExhausted | NoneAvailable | Preflight string

definition selection_kind :: "string \<Rightarrow> selection_error" where
  "selection_kind kind =
     (if kind = ''quota_exhausted'' then QuotaExhausted
      else if kind = ''deadline_exceeded'' then DeadlineExceeded
      else if kind \<in> {''auth_invalid'', ''upstream_unavailable'', ''upstream_connection_failed'',
                      ''upstream_connection_timeout'', ''upstream_challenge_required''} then Preflight kind
      else NoneAvailable)"

definition selection_defaults :: "string list" where
  "selection_defaults =
     [''quota_exhausted'', ''unavailable'', ''deadline_exceeded'', ''auth_invalid'', ''upstream_unavailable'',
      ''upstream_connection_failed'', ''upstream_connection_timeout'', ''upstream_challenge_required'']"

definition no_ready_candidate_error ::
  "account_env \<Rightarrow> account_filter \<Rightarrow> string list \<Rightarrow> pool \<Rightarrow> selection_error" where
  "no_ready_candidate_error env f excluded p =
     (let matched = filter (\<lambda>a. truthy (field a ''access_token'') \<and> access_token_of env a \<notin> set excluded \<and>
                       matches_filter env a f) (map snd (pl_accounts p));
          limited = filter (\<lambda>a. raw_text env (field a ''status'') = st_limited) matched
      in if 0 < length matched \<and> length limited = length matched then QuotaExhausted else NoneAvailable)"

datatype acquire_outcome = Acquired string | Refused selection_error | Waiting

definition past_deadline :: "time option \<Rightarrow> time \<Rightarrow> bool" where
  "past_deadline deadline now \<longleftrightarrow> (case deadline of Some d \<Rightarrow> d \<le> now | None \<Rightarrow> False)"

text \<open>One pass of the loop of \<open>_acquire_next_candidate_token\<close>, under the lock of the pool.\<close>

definition acquire_pass ::
  "account_env \<Rightarrow> account_config \<Rightarrow> time \<Rightarrow> account_filter \<Rightarrow> string list \<Rightarrow> time option \<Rightarrow> pool \<Rightarrow>
   acquire_outcome \<times> pool" where
  "acquire_pass env cfg now f excluded deadline p =
     (if past_deadline deadline now then (Refused DeadlineExceeded, p)
      else let resolved = map (resolve_access_token p) (filter (\<lambda>t. t \<noteq> '''') excluded)
           in if list_ready_candidate_tokens env now f resolved p = []
              then (Refused (no_ready_candidate_error env f resolved p), p)
              else case list_available_candidate_tokens env cfg now f resolved p of
                     [] \<Rightarrow> (Waiting, p)
                   | tokens \<Rightarrow>
                       (case pick_ranked_image_token cfg now tokens p of
                          (token, p) \<Rightarrow> (Acquired token, take_image_slot now token p)))"

text \<open>
  While a request waits for a slot other threads work on the pool: \<open>wakes\<close> lists the times at
  which the wait ends and what has happened to the pool by then (the refresh of the snapshot
  included); the request is still waiting when the list is used up.
\<close>

fun acquire_next_candidate ::
  "account_env \<Rightarrow> account_config \<Rightarrow> account_filter \<Rightarrow> string list \<Rightarrow> time option \<Rightarrow>
   time \<Rightarrow> (time \<times> (pool \<Rightarrow> pool)) list \<Rightarrow> pool \<Rightarrow> acquire_outcome \<times> pool" where
  "acquire_next_candidate env cfg f excluded deadline now [] p =
     acquire_pass env cfg now f excluded deadline p"
| "acquire_next_candidate env cfg f excluded deadline now ((later, world) # wakes) p =
     (case acquire_pass env cfg now f excluded deadline p of
        (Waiting, p) \<Rightarrow> acquire_next_candidate env cfg f excluded deadline later wakes (world p)
      | result \<Rightarrow> result)"


section \<open>An account for a request\<close>

text \<open>The answer of \<open>fetch_remote_info\<close>: a failure with its category, or the account as checked.\<close>

datatype remote_answer = CheckFailed string | Checked account

record selection_progress =
  sp_attempted :: "string list"
  sp_kinds :: "string list"
  sp_saw_quota_exhausted :: bool
  sp_saw_unavailable :: bool

definition selection_verdict :: "selection_progress \<Rightarrow> selection_error" where
  "selection_verdict sp =
     (if sp_saw_quota_exhausted sp \<and> \<not> sp_saw_unavailable sp then QuotaExhausted
      else case dedup_first (sp_kinds sp) of [kind] \<Rightarrow> selection_kind kind | _ \<Rightarrow> NoneAvailable)"

definition selection_max_attempts :: nat where "selection_max_attempts = 20"

text \<open>
  \<open>clock i\<close> is the time of step \<open>i\<close> (three per attempt), \<open>wakes n\<close> the waiting of attempt
  \<open>n\<close> and \<open>fetch n\<close> what the remote check of that attempt answers and does to the pool.
\<close>

fun select_attempts ::
  "account_env \<Rightarrow> account_config \<Rightarrow> account_filter \<Rightarrow> time option \<Rightarrow> string list \<Rightarrow> (nat \<Rightarrow> time) \<Rightarrow>
   (nat \<Rightarrow> (time \<times> (pool \<Rightarrow> pool)) list) \<Rightarrow> (nat \<Rightarrow> string \<Rightarrow> pool \<Rightarrow> remote_answer \<times> pool) \<Rightarrow>
   nat \<Rightarrow> nat \<Rightarrow> selection_progress \<Rightarrow> pool \<Rightarrow> acquire_outcome \<times> pool" where
  "select_attempts env cfg f deadline external clock wakes fetch n 0 sp p = (Refused (selection_verdict sp), p)"
| "select_attempts env cfg f deadline external clock wakes fetch n (Suc left) sp p =
     (case acquire_next_candidate env cfg f (external @ sp_attempted sp) deadline (clock (3 * n)) (wakes n) p of
        (Waiting, p) \<Rightarrow> (Waiting, p)
      | (Refused e, p) \<Rightarrow>
          if e \<noteq> DeadlineExceeded \<and> sp_attempted sp \<noteq> [] then (Refused (selection_verdict sp), p)
          else (Refused e, p)
      | (Acquired token, p) \<Rightarrow>
          let sp = sp\<lparr>sp_attempted := token # sp_attempted sp\<rparr>
          in if past_deadline deadline (clock (3 * n + 1))
             then (Refused DeadlineExceeded, release_image_slot token p)
             else (case fetch n token p of
                     (CheckFailed code, p) \<Rightarrow>
                       let sp = sp\<lparr>sp_saw_unavailable := True,
                                   sp_kinds := (if code \<in> set selection_defaults then code # sp_kinds sp
                                                else sp_kinds sp)\<rparr>;
                           p = release_image_slot token p
                       in if past_deadline deadline (clock (3 * n + 2)) then (Refused DeadlineExceeded, p)
                          else select_attempts env cfg f deadline external clock wakes fetch (Suc n) left sp p
                   | (Checked a, p) \<Rightarrow>
                       if past_deadline deadline (clock (3 * n + 2))
                       then (Refused DeadlineExceeded, release_image_slot token p)
                       else let current = access_token_of env a;
                                sp = (if current \<noteq> '''' \<and> current \<noteq> token
                                      then sp\<lparr>sp_attempted := current # sp_attempted sp\<rparr> else sp)
                            in if is_image_account_available env (clock (3 * n + 2)) a \<and> matches_filter env a f
                               then (Acquired (if current = '''' then token else current), p)
                               else let sp = (if raw_text env (field a ''status'') = st_limited
                                              then sp\<lparr>sp_saw_quota_exhausted := True\<rparr>
                                              else sp\<lparr>sp_saw_unavailable := True\<rparr>);
                                        p = release_image_slot token p
                                    in select_attempts env cfg f deadline external clock wakes fetch (Suc n) left sp p))"

definition get_available_access_token ::
  "account_env \<Rightarrow> account_config \<Rightarrow> account_filter \<Rightarrow> time option \<Rightarrow> string list \<Rightarrow> (nat \<Rightarrow> time) \<Rightarrow>
   (nat \<Rightarrow> (time \<times> (pool \<Rightarrow> pool)) list) \<Rightarrow> (nat \<Rightarrow> string \<Rightarrow> pool \<Rightarrow> remote_answer \<times> pool) \<Rightarrow>
   pool \<Rightarrow> acquire_outcome \<times> pool" where
  "get_available_access_token env cfg f deadline external clock wakes fetch p =
     (if past_deadline deadline (clock 0) then (Refused DeadlineExceeded, p)
      else select_attempts env cfg f deadline external clock wakes fetch 0 selection_max_attempts
             \<lparr>sp_attempted = [], sp_kinds = [], sp_saw_quota_exhausted = False, sp_saw_unavailable = False\<rparr> p)"

text \<open>\<open>get_text_access_token\<close>: round robin over the selectable accounts; \<open>ensure\<close> answers the
  token to use, or nothing when the credentials turn out to be gone.\<close>

definition text_candidates :: "account_env \<Rightarrow> time \<Rightarrow> string list \<Rightarrow> pool \<Rightarrow> string list" where
  "text_candidates env now attempted p =
     filter (\<lambda>t. t \<noteq> '''' \<and> t \<notin> set attempted)
       (map (access_token_of env)
          (filter (is_account_selectable env now True True) (map snd (pl_accounts p))))"

lemma text_candidates_excluded:
  "text_candidates env now (token # attempted) (p\<lparr>pl_index := i\<rparr>) =
     filter (\<lambda>t. t \<noteq> token) (text_candidates env now attempted p)"
  by (auto simp: text_candidates_def intro!: filter_cong)

function get_text_access_token ::
  "account_env \<Rightarrow> time \<Rightarrow> (string \<Rightarrow> string option) \<Rightarrow> string list \<Rightarrow> pool \<Rightarrow> string \<times> pool" where
  "get_text_access_token env now ensure attempted p =
     (let candidates = text_candidates env now attempted p
      in if candidates = [] then ('''', p)
         else let token = candidates ! (pl_index p mod length candidates);
                  p = p\<lparr>pl_index := pl_index p + 1\<rparr>
              in case ensure token of
                   Some t \<Rightarrow> (t, p)
                 | None \<Rightarrow> get_text_access_token env now ensure (token # attempted) p)"
  by pat_completeness auto

termination
proof (relation "measure (\<lambda>(env, now, ensure, attempted, p). length (text_candidates env now attempted p))",
    goal_cases)
  case (2 env now ensure attempted p candidates token q)
  then have "token \<in> set (text_candidates env now attempted p)" by simp
  then have "length (filter (\<lambda>t. t \<noteq> token) (text_candidates env now attempted p)) <
      length (text_candidates env now attempted p)"
    by (rule length_filter_less) simp
  with 2 show ?case by (simp add: text_candidates_excluded)
qed simp

declare get_text_access_token.simps [simp del]

section \<open>Accounts of the image queue\<close>

definition list_image_account_candidates :: "account_env \<Rightarrow> time \<Rightarrow> pool \<Rightarrow> account_candidate list" where
  "list_image_account_candidates env now p =
     List.map_filter
       (\<lambda>a. if \<not> is_image_account_available env now a then None
            else case image_account_id env (management_id env a) of
                   None \<Rightarrow> None
                 | Some queue_id \<Rightarrow>
                     if field_text env a ''access_token'' = '''' then None
                     else Some \<lparr>ac_account_id = queue_id, ac_access_token = field_text env a ''access_token'',
                       ac_plan_type = raw_text env (field a ''type''),
                       ac_source_type = raw_text env (field a ''source_type''),
                       ac_success = nat (count_of (field a ''success'')),
                       ac_fail = nat (count_of (field a ''fail''))\<rparr>)
       (map snd (pl_accounts p))"


definition resolve_image_account :: "account_env \<Rightarrow> string \<Rightarrow> pool \<Rightarrow> (string \<times> account) option" where
  "resolve_image_account env account_id p =
     (let raw = py_lower (py_strip account_id);
          requested = image_account_id env raw
      in if raw = '''' then None
         else find (\<lambda>(token, a).
                let mid = py_lower (management_id env a)
                in mid \<noteq> '''' \<and> (raw = mid \<or> requested \<noteq> None \<and> requested = image_account_id env mid))
              (pl_accounts p))"

text \<open>\<open>prepare_image_account\<close> up to the refresh of the token.\<close>

definition prepare_image_account ::
  "account_env \<Rightarrow> time \<Rightarrow> string \<Rightarrow> pool \<Rightarrow> selection_error + string" where
  "prepare_image_account env now account_id p =
     (case resolve_image_account env account_id p of
        None \<Rightarrow> Inl NoneAvailable
      | Some (token, a) \<Rightarrow> if is_image_account_available env now a then Inr token else Inl NoneAvailable)"

definition account_of_token :: "string \<Rightarrow> pool \<Rightarrow> account option" where
  "account_of_token token p = map_of (pl_accounts p) (resolve_access_token p token)"

definition account_by_token_identity :: "account_env \<Rightarrow> string \<Rightarrow> pool \<Rightarrow> account option" where
  "account_by_token_identity env access_token p =
     (let token = py_strip access_token
      in if token = '''' then None
         else case account_of_token token p of
                Some a \<Rightarrow> Some a
              | None \<Rightarrow>
                  find (\<lambda>a. case field a ''access_token_fingerprints'' of
                          PList fs \<Rightarrow> PStr (env_digest env token) \<in> set fs | _ \<Rightarrow> False)
                    (map snd (pl_accounts p)))"

section \<open>Results\<close>

definition puts :: "(string \<times> pyval) list \<Rightarrow> account \<Rightarrow> account" where
  "puts = fold (\<lambda>(f, v). put f v)"

definition mark_remote_check_pending ::
  "account_env \<Rightarrow> account_config \<Rightarrow> string \<Rightarrow> string \<Rightarrow> bool option \<Rightarrow> string \<Rightarrow> account \<Rightarrow> account" where
  "mark_remote_check_pending env cfg event stamp remove scope a =
     (let existing_scope = (if field a ''last_remote_check_result'' = PStr ''pending''
                            then py_lower (field_text env a ''pending_auth_scope'') else '''');
          requested = (case remove of None \<Rightarrow> cf_auto_remove_invalid cfg | Some r \<Rightarrow> r);
          existing = truthy (field a ''pending_auth_remove_invalid'')
      in puts [(''last_remote_check_result'', PStr ''pending''), (''last_remote_check_event'', PStr event),
               (''last_remote_check_attempt_at'', PStr stamp), (''last_remote_check_error'', PNone),
               (''last_remote_check_error_at'', PNone), (''pending_auth_verification_id'', PStr (env_fresh_id env)),
               (''pending_auth_scope'',
                  PStr (if existing_scope = ''account'' \<or> scope \<noteq> ''image'' then ''account'' else ''image'')),
               (''pending_auth_remove_invalid'', PBool (existing \<or> requested))] a)"

record image_result =
  ir_success :: bool
  ir_verify_account :: bool
  ir_quota_consumed :: "bool option"
  ir_key :: string

definition result_keys_field :: string where
  "result_keys_field = ''managed_image_result_idempotency_keys''"

definition consume_quota :: "string \<Rightarrow> account \<Rightarrow> account" where
  "consume_quota stamp a =
     (let current = max 0 (count_of (field a ''quota''));
          a = (if truthy (field a ''image_quota_unknown'') then a
               else let b = put ''quota'' (PInt (max 0 (current - 1))) a
                    in if current \<le> 1
                       then puts [(''image_quota_unknown'', PBool True),
                                  (''last_quota_estimated_empty_at'', PStr stamp)] b
                       else b)
      in if field a ''status'' = PStr st_limited
         then puts [(''status'', PStr st_normal), (''image_quota_unknown'', PBool True), (''restore_at'', PNone)] a
         else a)"

text \<open>The account after a result: \<open>keys\<close> are the results recorded so far, \<open>key\<close> the new one.\<close>

definition account_after_result ::
  "account_env \<Rightarrow> account_config \<Rightarrow> time \<Rightarrow> image_result \<Rightarrow> string list \<Rightarrow> string \<Rightarrow> account \<Rightarrow> account" where
  "account_after_result env cfg now r keys key a =
     (let stamp = env_stamp env now;
          a = put ''last_used_at'' (PStr stamp) a;
          a = (if key = '''' then a
               else put result_keys_field (PList (map PStr (take_last result_key_limit (keys @ [key])))) a);
          a = (if ir_success r then put ''success'' (PInt (count_of (field a ''success'') + 1)) a else a);
          a = (if (case ir_quota_consumed r of None \<Rightarrow> ir_success r | Some c \<Rightarrow> c) then consume_quota stamp a else a)
      in if ir_success r then a
         else let b = put ''fail'' (PInt (count_of (field a ''fail'') + 1)) a
              in if ir_verify_account r
                 then mark_remote_check_pending env cfg ''image_failure'' stamp None ''image'' b
                 else b)"

text \<open>
  The queue of account checks after failures. \<open>pl_refresh_active\<close> holds the running checks
  with their scope, \<open>pl_refresh_pending\<close> the waiting ones.
\<close>

definition refresh_dedup_time :: time where "refresh_dedup_time = secs 30"

fun start_pending_refreshes :: "account_config \<Rightarrow> time \<Rightarrow> nat \<Rightarrow> pool \<Rightarrow> pool" where
  "start_pending_refreshes cfg now 0 p = p"
| "start_pending_refreshes cfg now (Suc n) p =
     (case pl_refresh_pending p of
        [] \<Rightarrow> p
      | token # rest \<Rightarrow>
          if min (length (pl_refresh_active p) + length (pl_refresh_pending p)) (cf_refresh_workers cfg)
               \<le> length (pl_refresh_active p) then p
          else let scope = (case map_of (pl_refresh_scopes p) token of None \<Rightarrow> ''account'' | Some s \<Rightarrow> s)
               in start_pending_refreshes cfg now n
                    (p\<lparr>pl_refresh_pending := rest,
                       pl_refresh_scopes := dict_drop token (pl_refresh_scopes p),
                       pl_refresh_active := dict_set token scope (pl_refresh_active p),
                       pl_refresh_started := dict_set token now (pl_refresh_started p)\<rparr>))"

definition schedule_account_refresh ::
  "account_config \<Rightarrow> time \<Rightarrow> bool \<Rightarrow> string \<Rightarrow> pool \<Rightarrow> bool \<times> pool" where
  "schedule_account_refresh cfg now force access_token p =
     (if access_token = '''' then (False, p)
      else
        let token = resolve_access_token p access_token;
            account = (case map_of (pl_accounts p) token of None \<Rightarrow> fmempty | Some a \<Rightarrow> a);
            scope = (if field account ''pending_auth_scope'' = PStr ''image'' then ''image'' else ''account'');
            p = p\<lparr>pl_refresh_started := filter (\<lambda>(t, started). t \<in> set (dict_keys (pl_refresh_active p)) \<or>
                     now - refresh_dedup_time \<le> started) (pl_refresh_started p)\<rparr>;
            same = (\<lambda>t. resolve_access_token p t = token);
            last = Max (set (0 # map snd (filter (\<lambda>(t, started). same t) (pl_refresh_started p))))
        in case find same (dict_keys (pl_refresh_active p)) of
             Some active \<Rightarrow>
               (True, if force then p\<lparr>pl_refresh_rerun := dedup_first (active # pl_refresh_rerun p)\<rparr> else p)
           | None \<Rightarrow>
               (case find same (pl_refresh_pending p) of
                  Some waiting \<Rightarrow>
                    let existing = (case map_of (pl_refresh_scopes p) waiting of None \<Rightarrow> ''account'' | Some s \<Rightarrow> s)
                    in (True, p\<lparr>pl_refresh_scopes := dict_set waiting
                          (if existing = ''account'' \<or> scope = ''account'' then ''account'' else ''image'')
                          (pl_refresh_scopes p)\<rparr>)
                | None \<Rightarrow>
                    if \<not> force \<and> now - last < refresh_dedup_time then (False, p)
                    else let p = p\<lparr>pl_refresh_pending := pl_refresh_pending p @ [token],
                                   pl_refresh_scopes := dict_set token scope (pl_refresh_scopes p)\<rparr>
                         in (True, start_pending_refreshes cfg now (length (pl_refresh_pending p)) p)))"


text \<open>Every change of an account ends the same way: it is saved and read back under its token.\<close>

definition save_and_read ::
  "account_env \<Rightarrow> time \<Rightarrow> (nat \<Rightarrow> account storage \<Rightarrow> account storage) \<Rightarrow> credential_generation option \<Rightarrow>
   string \<Rightarrow> pool \<Rightarrow> account storage \<Rightarrow>
   (storage_error + (string \<times> account) option) \<times> pool \<times> account storage" where
  "save_and_read env now others generation token p s =
     (case save_accounts env now others generation p s of
        (SaveFailed e, p, s) \<Rightarrow> (Inl e, p, s)
      | (StaleCredentials, p, s) \<Rightarrow> (Inr None, p, s)
      | (Saved, p, s) \<Rightarrow>
          let token = resolve_access_token p token
          in (Inr (map_option (Pair token) (map_of (pl_accounts p) token)), p, s))"

definition set_account :: "string \<Rightarrow> account \<Rightarrow> pool \<Rightarrow> pool" where
  "set_account token a p = p\<lparr>pl_accounts := dict_set token a (pl_accounts p)\<rparr>"

text \<open>What a caller may expect of the credentials, the state of the remote check included.\<close>

type_synonym remote_check_marker = "string list \<times> pyval"

definition remote_check_marker :: "account_env \<Rightarrow> account \<Rightarrow> remote_check_marker" where
  "remote_check_marker env a =
     (map (\<lambda>f. raw_text env (field a f))
        [''last_token_refresh_at'', ''last_remote_check_result'', ''last_remote_check_attempt_at'',
         ''last_remote_check_event'', ''pending_auth_scope'', ''pending_auth_verification_id''],
      field a ''pending_auth_remove_invalid'')"

record expectation =
  ex_access_token :: "string option"
  ex_refresh_token :: "string option"
  ex_marker :: "remote_check_marker option"

definition expectation_met :: "account_env \<Rightarrow> expectation \<Rightarrow> string \<Rightarrow> account \<Rightarrow> bool" where
  "expectation_met env ex token current \<longleftrightarrow>
     (case ex_access_token ex of None \<Rightarrow> True | Some t \<Rightarrow> token = py_strip t) \<and>
     (case ex_refresh_token ex of None \<Rightarrow> True | Some r \<Rightarrow> field_text env current ''refresh_token'' = py_strip r) \<and>
     (case ex_marker ex of None \<Rightarrow> True | Some m \<Rightarrow> remote_check_marker env current = m)"

definition expected_generation :: "account_env \<Rightarrow> expectation \<Rightarrow> account \<Rightarrow> credential_generation option" where
  "expected_generation env ex current =
     (case (ex_access_token ex, ex_refresh_token ex) of
        (Some t, Some r) \<Rightarrow>
          Some (py_strip t, py_strip r,
            (case ex_marker ex of
               Some m \<Rightarrow> hd (fst m)
             | None \<Rightarrow> field_text env current ''last_token_refresh_at''))
      | _ \<Rightarrow> None)"

definition record_remote_check_error ::
  "account_env \<Rightarrow> time \<Rightarrow> (nat \<Rightarrow> account storage \<Rightarrow> account storage) \<Rightarrow> expectation \<Rightarrow>
   string \<Rightarrow> string \<Rightarrow> string \<Rightarrow> pool \<Rightarrow> account storage \<Rightarrow>
   (storage_error + bool) \<times> pool \<times> account storage" where
  "record_remote_check_error env now others ex access_token event error p s =
     (let token = resolve_access_token p access_token
      in case map_of (pl_accounts p) token of
           None \<Rightarrow> (Inr False, p, s)
         | Some current \<Rightarrow>
             if \<not> expectation_met env ex token current then (Inr False, p, s)
             else
               let stamp = PStr (env_stamp env now);
                   result = (if raw_text env (field current ''last_remote_check_result'') = ''invalid''
                             then ''invalid'' else ''error'');
                   next_item = puts [(''last_remote_check_attempt_at'', stamp),
                     (''last_remote_check_error'', PStr (if error = '''' then ''remote check failed'' else error)),
                     (''last_remote_check_error_at'', stamp), (''last_remote_check_event'', PStr event),
                     (''last_remote_check_result'', PStr result), (''pending_auth_remove_invalid'', PNone),
                     (''pending_auth_scope'', PNone)] current
               in case normalize_account env next_item of
                    None \<Rightarrow> (Inr False, p, s)
                  | Some a \<Rightarrow>
                      (case save_and_read env now others (expected_generation env ex current) token
                              (set_account token a p) s of
                         (Inl e, p, s) \<Rightarrow> (Inl e, p, s)
                       | (Inr None, p, s) \<Rightarrow> (Inr False, p, s)
                       | (Inr (Some (t, b)), p, s) \<Rightarrow>
                           (Inr (field b ''last_remote_check_error_at'' = stamp), p, s)))"

definition record_image_result ::
  "account_env \<Rightarrow> account_config \<Rightarrow> time \<Rightarrow> (nat \<Rightarrow> account storage \<Rightarrow> account storage) \<Rightarrow>
   credential_generation option \<Rightarrow> bool \<Rightarrow> image_result \<Rightarrow> string \<Rightarrow> pool \<Rightarrow> account storage \<Rightarrow>
   (storage_error + account option) \<times> pool \<times> account storage" where
  "record_image_result env cfg now others generation release r access_token p s =
     (if access_token = '''' then (Inr None, p, s)
      else
        let key = take result_key_max_length (py_strip (ir_key r));
            token = resolve_access_token p access_token;
            p = (if release then release_slot_locked token p else p)
        in case map_of (pl_accounts p) token of
             None \<Rightarrow> (Inr None, p, s)
           | Some current \<Rightarrow>
               let recorded = normalize_result_keys env (field current result_keys_field)
               in if key \<noteq> '''' \<and> key \<in> set recorded then (Inr (Some current), p, s)
                  else if (case generation of None \<Rightarrow> False | Some g \<Rightarrow> credential_generation env token current \<noteq> g)
                  then (Inr None, p, s)
                  else case normalize_account env (account_after_result env cfg now r recorded key current) of
                         None \<Rightarrow> (Inr None, p, s)
                       | Some a \<Rightarrow>
                           (case save_and_read env now others generation token (set_account token a p) s of
                              (Inr (Some (t, b)), p, s) \<Rightarrow>
                                if \<not> ir_success r \<and> ir_verify_account r
                                then (case schedule_account_refresh cfg now True t p of
                                        (True, p) \<Rightarrow> (Inr (Some b), p, s)
                                      | (False, p) \<Rightarrow>
                                          (case record_remote_check_error env now others
                                                  \<lparr>ex_access_token = None, ex_refresh_token = None, ex_marker = None\<rparr>
                                                  t ''image_failure'' ''Account verification could not be scheduled.'' p s of
                                             (Inl e, p, s) \<Rightarrow> (Inl e, p, s)
                                           | (Inr _, p, s) \<Rightarrow> (Inr (Some b), p, s)))
                                else (Inr (Some b), p, s)
                            | (Inr None, p, s) \<Rightarrow> (Inr None, p, s)
                            | (Inl e, p, s) \<Rightarrow> (Inl e, p, s)))"

text \<open>The result of a direct request releases its slot; the key of a request is empty.\<close>

definition mark_image_result ::
  "account_env \<Rightarrow> account_config \<Rightarrow> time \<Rightarrow> (nat \<Rightarrow> account storage \<Rightarrow> account storage) \<Rightarrow>
   credential_generation option \<Rightarrow> image_result \<Rightarrow> string \<Rightarrow> pool \<Rightarrow> account storage \<Rightarrow>
   (storage_error + account option) \<times> pool \<times> account storage" where
  "mark_image_result env cfg now others generation r =
     record_image_result env cfg now others generation True (r\<lparr>ir_key := ''''\<rparr>)"

text \<open>The result of a queue job: the view is refreshed first, and no slot is touched.\<close>

definition record_managed_image_result ::
  "account_env \<Rightarrow> account_config \<Rightarrow> time \<Rightarrow> time \<Rightarrow> (nat \<Rightarrow> account storage \<Rightarrow> account storage) \<Rightarrow>
   image_result \<Rightarrow> string \<Rightarrow> pool \<Rightarrow> account storage \<Rightarrow>
   (storage_error + account option) \<times> pool \<times> account storage" where
  "record_managed_image_result env cfg now ttl others r account_id p s =
     (let p = snd (refresh_accounts_snapshot env now ttl s p)
      in case resolve_image_account env account_id p of
           None \<Rightarrow> (Inr None, p, s)
         | Some (token, a) \<Rightarrow> record_image_result env cfg now others None False r token p s)"

definition mark_text_used ::
  "account_env \<Rightarrow> time \<Rightarrow> (nat \<Rightarrow> account storage \<Rightarrow> account storage) \<Rightarrow> string \<Rightarrow> pool \<Rightarrow> account storage \<Rightarrow>
   storage_error option \<times> pool \<times> account storage" where
  "mark_text_used env now others access_token p s =
     (let token = resolve_access_token p access_token
      in case (if access_token = '''' then None else map_of (pl_accounts p) token) of
           None \<Rightarrow> (None, p, s)
         | Some current \<Rightarrow>
             (case normalize_account env (put ''last_used_at'' (PStr (env_created_stamp env)) current) of
                None \<Rightarrow> (None, p, s)
              | Some a \<Rightarrow>
                  (case save_accounts env now others None (set_account token a p) s of
                     (SaveFailed e, p, s) \<Rightarrow> (Some e, p, s)
                   | (_, p, s) \<Rightarrow> (None, p, s))))"

end
