(* ===== verification/Account_Save.thy ===== *)
theory Account_Save
  imports Account_Merge_Correct Account_Pool
begin

text \<open>
  Saving the pool: whatever other processes write to the storage between its accesses, the
  view of a process stays a content the storage had, and what was saved is in the storage.
\<close>

section \<open>Views by token\<close>

definition well_keyed :: "accounts \<Rightarrow> bool" where
  "well_keyed view \<longleftrightarrow> distinct (dict_keys view) \<and>
     (\<forall>(t, a) \<in> set view. fmlookup a ''access_token'' = Some (PStr t) \<and> t \<noteq> '''' \<and> py_strip t = t)"

lemma well_keyed_account:
  "well_keyed view \<Longrightarrow> map_of view t = Some a \<Longrightarrow> fmlookup a ''access_token'' = Some (PStr t) \<and> t \<noteq> '''' \<and> py_strip t = t"
  by (auto simp: well_keyed_def dest: map_of_SomeD)

lemma token_key: "fmlookup a ''access_token'' = Some (PStr t) \<Longrightarrow> py_strip t = t \<Longrightarrow> account_key env a = t"
  by (cases "t = ''''") (simp_all add: account_key_def field_text_def field_def text_of_def raw_text_def)

lemma set_dict_set: "set (dict_set k v d) \<subseteq> insert (k, v) (set d)"
  by (auto simp: dict_set_def split: if_splits)

lemma well_keyed_set:
  "well_keyed view \<Longrightarrow> fmlookup a ''access_token'' = Some (PStr t) \<Longrightarrow> t \<noteq> '''' \<Longrightarrow> py_strip t = t \<Longrightarrow>
     well_keyed (dict_set t a view)"
  unfolding well_keyed_def using set_dict_set [of t a view] distinct_dict_set by fastforce

lemma distinct_drop: "distinct (dict_keys d) \<Longrightarrow> distinct (dict_keys (dict_drop k d))"
  unfolding dict_drop_def by (induction d) auto

lemma well_keyed_drop: "well_keyed view \<Longrightarrow> well_keyed (dict_drop t view)"
  unfolding well_keyed_def by (auto intro: distinct_drop) (auto simp: dict_drop_def)

text \<open>The merge keeps the token: the remote one unless it was changed here.\<close>

lemma merged_token:
  "fmlookup (merge_account_fields env b l r) ''access_token'' =
     (if fmlookup b ''access_token'' \<noteq> fmlookup l ''access_token'' then fmlookup l ''access_token''
      else fmlookup r ''access_token'')"
  by (cases "fmlookup l ''access_token''")
     (simp_all add: lookup_merge_account_fields field_changed_def merged_value_def additive_account_counters_def)

lemma rotated_token:
  assumes "rotated_account_token env view baseline t a = Some u"
  shows "u \<in> set (dict_keys view) \<and> u \<noteq> t"
proof -
  from assms obtain e where e: "find (\<lambda>(token, a'). token \<noteq> t \<and> token \<notin> set (dict_keys baseline) \<and>
      management_id env a' = management_id env a) view = Some e" "u = fst e"
    by (auto simp: rotated_account_token_def Let_def split: if_splits)
  from e(1) have "e \<in> set view \<and> fst e \<noteq> t"
    by (auto simp: find_Some_iff in_set_conv_nth)
  with e(2) show ?thesis by auto
qed

lemma merge_dropped_well_keyed:
  assumes "well_keyed baseline" "well_keyed local" "well_keyed remote" and "e \<in> set baseline" "well_keyed (fst acc)"
  shows "well_keyed (fst (merge_dropped_account env baseline local remote e acc))"
proof -
  obtain t b where e: "e = (t, b)" by (cases e)
  obtain merged handled where acc: "acc = (merged, handled)" by (cases acc)
  note drop = well_keyed_drop
  have base: "fmlookup b ''access_token'' = Some (PStr t)" using assms(1,4) e by (auto simp: well_keyed_def)
  have "well_keyed (dict_set u (merge_account_fields env b ours theirs) m)"
    if "rotated_account_token env local baseline t b = Some u" "map_of local u = Some ours" "well_keyed m" for u ours theirs m
  proof -
    have "fmlookup ours ''access_token'' = Some (PStr u) \<and> u \<noteq> '''' \<and> py_strip u = u"
      by (rule well_keyed_account [OF assms(2) that(2)])
    with rotated_token [OF that(1)] base show ?thesis by (intro well_keyed_set that(3)) (auto simp: merged_token)
  qed
  with assms(5) show ?thesis
    by (auto simp: merge_dropped_account_def e acc Let_def drop split: option.split)
qed

lemma merge_local_well_keyed:
  assumes "well_keyed baseline" "well_keyed local" "well_keyed remote" and "e \<in> set local" "well_keyed merged"
  shows "well_keyed (merge_local_account env baseline remote handled e merged)"
proof -
  obtain t ours where e: "e = (t, ours)" by (cases e)
  have ours: "fmlookup ours ''access_token'' = Some (PStr t)" "t \<noteq> ''''" "py_strip t = t"
    using assms(2,4) e by (auto simp: well_keyed_def)
  show ?thesis
  proof (cases "map_of baseline t")
    case None
    with ours assms(5) fmdomI [OF ours(1)] show ?thesis
      by (auto simp: merge_local_account_def e intro!: well_keyed_set split: option.split)
  next
    case (Some b)
    have base: "fmlookup b ''access_token'' = Some (PStr t)" using well_keyed_account [OF assms(1) Some] by simp
    show ?thesis
    proof (cases "map_of remote t")
      case remote: (Some theirs)
      from well_keyed_account [OF assms(3) remote] ours base assms(5) show ?thesis
        by (auto simp: merge_local_account_def e Some remote merged_token intro!: well_keyed_set)
    next
      case None
      have "well_keyed (dict_drop t (dict_set u (merge_account_fields env b ours theirs) merged))"
        if "map_of remote u = Some theirs" for u theirs
        using well_keyed_account [OF assms(3) that] ours base
        by (intro well_keyed_drop well_keyed_set assms(5)) (simp_all add: merged_token)
      with assms(5) show ?thesis
        by (auto simp: merge_local_account_def e Some None well_keyed_drop split: option.split)
    qed
  qed
qed

lemma merge_well_keyed:
  assumes "well_keyed baseline" "well_keyed local" "well_keyed remote"
  shows "well_keyed (merge_accounts_after_conflict env baseline local remote)"
proof -
  have drops: "well_keyed (fst acc) \<Longrightarrow> set bs \<subseteq> set baseline \<Longrightarrow>
      well_keyed (fst (fold (merge_dropped_account env baseline local remote) bs acc))" for bs acc
    by (induction bs arbitrary: acc) (simp_all add: merge_dropped_well_keyed assms)
  have adds: "well_keyed merged \<Longrightarrow> set ls \<subseteq> set local \<Longrightarrow>
      well_keyed (fold (merge_local_account env baseline remote handled) ls merged)" for ls merged handled
  proof (induction ls arbitrary: merged)
    case (Cons l ls)
    then show ?case using merge_local_well_keyed [OF assms, of l merged env handled] by simp
  qed simp
  obtain m h where first: "fold (merge_dropped_account env baseline local remote) baseline (remote, []) = (m, h)"
    by fastforce
  with drops [of "(remote, [])" baseline] assms(3) have "well_keyed m" by simp
  with adds [of m local h] first show ?thesis by (simp add: merge_accounts_after_conflict_def)
qed

section \<open>The save loop\<close>

text \<open>A storage whose accounts load as they are, as every write of this service leaves it.\<close>

definition clean :: "account_env \<Rightarrow> time \<Rightarrow> account storage \<Rightarrow> bool" where
  "clean env now s \<longleftrightarrow> well_keyed (st_items s) \<and> fst (read_accounts_snapshot env now False s) = st_items s"

text \<open>The other processes write batches and replacements, and leave the storage clean.\<close>

definition disciplined :: "account_env \<Rightarrow> time \<Rightarrow> (nat \<Rightarrow> account storage \<Rightarrow> account storage) \<Rightarrow> bool" where
  "disciplined env now others \<longleftrightarrow>
     (\<forall>i s. clean env now s \<longrightarrow> (storage_step (account_key env))\<^sup>*\<^sup>* s (others i s) \<and> clean env now (others i s))"

text \<open>The snapshot of a process is a content the storage had at the revision it names.\<close>

definition based :: "account_env \<Rightarrow> pool \<Rightarrow> account storage \<Rightarrow> bool" where
  "based env p s \<longleftrightarrow> well_keyed (pl_persisted p) \<and>
     (\<exists>s0. storage_ok (account_key env) s0 \<and> (storage_step (account_key env))\<^sup>*\<^sup>* s0 s \<and>
        st_version s0 = pl_revision p \<and> map_of (st_items s0) = map_of (pl_persisted p))"

definition has_changes :: "pool \<Rightarrow> bool" where
  "has_changes p \<longleftrightarrow> (let m = mutation_between (pl_persisted p) (pl_accounts p) (pl_revision p)
     in mu_upserts m \<noteq> [] \<or> mu_delete_keys m \<noteq> [])"

lemma clean_storage_ok: "clean env now s \<Longrightarrow> storage_ok (account_key env) s"
  by (auto simp: clean_def well_keyed_def storage_ok_def token_key)

lemma snapshot_revision: "fst (snd (read_accounts_snapshot env now rec s)) = st_version s"
  by (simp add: read_accounts_snapshot_def load_snapshot_def split: prod.split)

lemma clean_snapshot:
  assumes "clean env now s"
  obtains changed where "read_accounts_snapshot env now False s = (st_items s, st_version s, changed)"
  using assms snapshot_revision [of env now False s] unfolding clean_def by (metis prod.collapse)

lemma fold_rotations_fields:
  "pl_accounts (fold (\<lambda>(new, ss). move_account_runtime_token new ss) rs p) = pl_accounts p \<and>
   pl_persisted (fold (\<lambda>(new, ss). move_account_runtime_token new ss) rs p) = pl_persisted p \<and>
   pl_revision (fold (\<lambda>(new, ss). move_account_runtime_token new ss) rs p) = pl_revision p"
proof (induction rs arbitrary: p)
  case (Cons r rs)
  then show ?case by (cases r) (simp add: move_account_runtime_token_def move_refreshes_def move_slots_def Let_def)
qed simp

lemma apply_view_fields [simp]:
  "pl_accounts (apply_account_view env now loaded persisted r keep p) = loaded"
  "pl_persisted (apply_account_view env now loaded persisted r keep p) = persisted"
  "pl_revision (apply_account_view env now loaded persisted r keep p) = r"
  by (simp_all add: apply_account_view_def Let_def fold_rotations_fields)

lemma prune_fields [simp]:
  "pl_accounts (prune_token_aliases p) = pl_accounts p" "pl_persisted (prune_token_aliases p) = pl_persisted p"
  "pl_revision (prune_token_aliases p) = pl_revision p"
  by (simp_all add: prune_token_aliases_def Let_def)

lemma based_current:
  "clean env now s \<Longrightarrow> pl_persisted p = st_items s \<Longrightarrow> pl_revision p = st_version s \<Longrightarrow> based env p s"
  unfolding based_def clean_def using clean_storage_ok [of env now s] by (auto simp: clean_def)

lemma based_cong:
  "pl_persisted q = pl_persisted p \<Longrightarrow> pl_revision q = pl_revision p \<Longrightarrow> based env q s = based env p s"
  by (simp add: based_def)

lemma based_later: "based env p s \<Longrightarrow> (storage_step (account_key env))\<^sup>*\<^sup>* s t \<Longrightarrow> based env p t"
  unfolding based_def by (meson rtranclp_trans)

text \<open>After a refused batch: the remote snapshot, and the merge with it.\<close>

lemma adopt_remote_based:
  assumes "clean env now s" "well_keyed (pl_persisted p)" "well_keyed (pl_accounts p)"
    and "adopt_remote env now g s p = (ok, q)"
  shows "pl_persisted q = st_items s \<and> pl_revision q = st_version s \<and> well_keyed (pl_accounts q) \<and>
    (\<not> ok \<longrightarrow> pl_accounts q = st_items s)"
proof -
  obtain c where snap: "read_accounts_snapshot env now False s = (st_items s, st_version s, c)"
    using clean_snapshot [OF assms(1)] .
  have "well_keyed (st_items s)" using assms(1) by (simp add: clean_def)
  with merge_well_keyed [OF assms(2,3) this] assms(4) show ?thesis
    by (auto simp: adopt_remote_def snap split: if_splits)
qed

lemma restore_based:
  assumes "clean env now s"
  shows "pl_persisted (restore_accounts_after_save_error env now s p) = st_items s \<and>
    pl_revision (restore_accounts_after_save_error env now s p) = st_version s \<and>
    pl_accounts (restore_accounts_after_save_error env now s p) = st_items s"
proof -
  obtain c where "read_accounts_snapshot env now False s = (st_items s, st_version s, c)"
    using clean_snapshot [OF assms] .
  then show ?thesis by (simp add: restore_accounts_after_save_error_def)
qed

lemma mutation_reaches_view:
  assumes "well_keyed (pl_persisted p)" "well_keyed (pl_accounts p)"
  shows "mutated (account_key env) (mutation_between (pl_persisted p) (pl_accounts p) (pl_revision p))
      (map_of (pl_persisted p)) = map_of (pl_accounts p)"
  using assms by (intro mutation_between_content) (auto simp: well_keyed_def token_key)

lemma unchanged_view:
  assumes "well_keyed (pl_persisted p)" "well_keyed (pl_accounts p)" "\<not> has_changes p"
  shows "map_of (pl_accounts p) = map_of (pl_persisted p)"
  using mutation_reaches_view [OF assms(1,2)] assms(3)
  by (simp add: has_changes_def Let_def mutated_def upsert_map_def)

text \<open>An accepted batch: the storage holds the view.\<close>

lemma accepted_save:
  assumes "based env p s" "well_keyed (pl_accounts p)"
    and "mutate_items (account_key env) (mutation_between (pl_persisted p) (pl_accounts p) (pl_revision p)) s = Inr (r, t)"
  shows "map_of (st_items t) = map_of (pl_accounts p) \<and> mr_revision r = st_version t \<and>
    storage_ok (account_key env) t \<and> (storage_step (account_key env))\<^sup>*\<^sup>* s t"
proof -
  let ?m = "mutation_between (pl_persisted p) (pl_accounts p) (pl_revision p)"
  from assms(1) obtain s0 where s0: "storage_ok (account_key env) s0" "(storage_step (account_key env))\<^sup>*\<^sup>* s0 s"
      "st_version s0 = pl_revision p" "map_of (st_items s0) = map_of (pl_persisted p)" "well_keyed (pl_persisted p)"
    by (auto simp: based_def)
  have m: "mutation_ok (account_key env) ?m"
    using assms(3) by (auto simp: mutation_ok_def mutate_items_def split: sum.splits)
  have "mu_expected ?m = Some (st_version s0)" by (simp add: mutation_between_def s0(3))
  from db.accepted_write_saw_everything [OF s0(2,1) m this assms(3)]
  have "map_of (st_items t) = map_of (pl_accounts p)"
    using mutation_reaches_view [OF s0(5) assms(2)] s0(4) by simp
  moreover have "storage_ok (account_key env) s" using db.history_versioned [OF s0(2,1)] by simp
  ultimately show ?thesis
    using mutate_items_ok [OF _ assms(3)] by (auto intro: mutated_step [OF assms(3)])
qed

definition settled :: "account_env \<Rightarrow> pool \<Rightarrow> account storage \<Rightarrow> bool" where
  "settled env q t \<longleftrightarrow> based env q t \<and> map_of (pl_accounts q) = map_of (pl_persisted q)"

lemma settled_snapshot:
  "clean env now t \<Longrightarrow> pl_persisted q = st_items t \<Longrightarrow> pl_revision q = st_version t \<Longrightarrow> pl_accounts q = st_items t \<Longrightarrow>
     settled env q t"
  by (simp add: settled_def based_current)

definition view_stored :: "pool \<Rightarrow> account storage \<Rightarrow> bool" where
  "view_stored q t \<longleftrightarrow> map_of (st_items t) = map_of (pl_accounts q)"

lemma save_attempts_settled:
  assumes "disciplined env now others"
  shows "save_attempts env now others g i n p s = (r, q, t) \<Longrightarrow> 0 < n \<Longrightarrow> based env p s \<Longrightarrow> clean env now s \<Longrightarrow>
    well_keyed (pl_accounts p) \<Longrightarrow>
    settled env q t \<and> (r = Saved \<longrightarrow> has_changes p \<or> map_of (st_items s) = map_of (pl_persisted p) \<longrightarrow> view_stored q t)"
proof (induction n arbitrary: i p s)
  case (Suc left)
  let ?m = "mutation_between (pl_persisted p) (pl_accounts p) (pl_revision p)"
  let ?s = "others i s"
  let ?t = "others (i + 1) ?s"
  have persisted: "well_keyed (pl_persisted p)" using Suc.prems(3) by (simp add: based_def)
  have s: "(storage_step (account_key env))\<^sup>*\<^sup>* s ?s" "clean env now ?s"
    using assms Suc.prems(4) by (auto simp: disciplined_def)
  with assms have t: "(storage_step (account_key env))\<^sup>*\<^sup>* ?s ?t" "clean env now ?t" by (auto simp: disciplined_def)
  have base: "based env p ?s" using based_later [OF Suc.prems(3) s(1)] .
  have restored: "settled env (restore_accounts_after_save_error env now ?t p) ?t"
    using restore_based [OF t(2)] by (intro settled_snapshot [OF t(2)]) auto
  show ?case
  proof (cases "has_changes p")
    case False
    with Suc.prems(1) have "r = Saved" "q = prune_token_aliases p" "t = s"
      by (auto simp: has_changes_def Let_def)
    with unchanged_view [OF persisted Suc.prems(5) False] Suc.prems(3) False show ?thesis
      by (auto simp: settled_def view_stored_def based_def)
  next
    case True
    then have go: "\<not> (mu_upserts ?m = [] \<and> mu_delete_keys ?m = [])" by (simp add: has_changes_def Let_def)
    show ?thesis
    proof (cases "mutate_items (account_key env) ?m ?s")
      case (Inr res)
      obtain mr u where res: "res = (mr, u)" by (cases res)
      let ?p = "p\<lparr>pl_persisted := pl_accounts p, pl_revision := mr_revision mr, pl_checked_at := now\<rparr>"
      from Suc.prems(1) go Inr res have q: "r = Saved" "q = prune_token_aliases ?p" "t = u" by (auto simp: Let_def)
      from accepted_save [OF base Suc.prems(5) Inr [unfolded res]] q Suc.prems(5)
      have "settled env q t \<and> view_stored q t"
        unfolding settled_def based_def view_stored_def
        by (auto intro!: exI [of _ u])
      then show ?thesis by simp
    next
      case (Inl e)
      show ?thesis
      proof (cases e)
        case InvalidItems
        with Suc.prems(1) go Inl restored show ?thesis by (auto simp: Let_def)
      next
        case (RevisionConflict x y)
        obtain ok p' where adopt: "adopt_remote env now g ?t p = (ok, p')" by fastforce
        from adopt_remote_based [OF t(2) persisted Suc.prems(5) adopt]
        have p': "pl_persisted p' = st_items ?t" "pl_revision p' = st_version ?t" "well_keyed (pl_accounts p')"
          "\<not> ok \<Longrightarrow> pl_accounts p' = st_items ?t" by auto
        show ?thesis
        proof (cases "left = 0 \<or> \<not> ok")
          case True
          with Suc.prems(1) go Inl RevisionConflict restored adopt p' settled_snapshot [OF t(2)] show ?thesis
            by (auto simp: Let_def split: if_splits)
        next
          case False
          with Suc.prems(1) go Inl RevisionConflict adopt
          have "save_attempts env now others g (i + 2) left p' ?t = (r, q, t)" by (simp add: Let_def)
          from Suc.IH [OF this _ based_current [OF t(2) p'(1,2)] t(2) p'(3)] False p'(1) show ?thesis by auto
        qed
      qed
    qed
  qed
qed simp


text \<open>A storage with one account in normal form is clean.\<close>

lemma clean_single:
  assumes "normal_account env a" and t: "fmlookup a ''access_token'' = Some (PStr t)" "t \<noteq> ''''" "py_strip t = t"
  shows "clean env now \<lparr>st_items = [(t, a)], st_version = v\<rparr>"
proof -
  have fix_a: "normalize_account env a = Some a" by (rule normal_account_fix [OF assms(1)])
  obtain m where m: "fmlookup a ''management_id'' = Some (PStr m)" "is_management_id m"
    using assms(1) by (auto simp: normal_account_def identity_normal_def)
  have "unique_management_id env t (PStr m) [] = m"
    by (simp add: unique_management_id_def normalize_management_id_self [OF m(2)])
  moreover have "field_text env a ''access_token'' = t" "access_token_of env a = t" "field a ''management_id'' = PStr m"
    using t m by (simp_all add: field_text_def field_def text_of_def raw_text_def access_token_of_def)
  ultimately have "load_item env now False a ([], [], False) = ([(t, a)], [m], False)"
    by (simp add: load_item_def fix_a Let_def dict_set_def)
  with t show ?thesis
    by (simp add: clean_def well_keyed_def read_accounts_snapshot_def load_snapshot_def normalize_loaded_accounts_def)
qed

text \<open>
  The witness: this process counts a fourth success, another one has stored a fifth before the
  batch arrives, so the batch is refused and merged.
\<close>

definition stored_account :: "int \<Rightarrow> account" where
  "stored_account n = the (normalize_account sample_env
     (fmap_of_list [(''access_token'', PStr ''tok''), (''status'', PStr st_normal), (''quota'', PInt 5), (''success'', PInt n)]))"

lemma stored_account_normal:
  "normal_account sample_env (stored_account n) \<and>
   normalize_account sample_env (stored_account n) = Some (stored_account n)"
proof -
  let ?i = "fmap_of_list [(''access_token'', PStr ''tok''), (''status'', PStr st_normal), (''quota'', PInt 5), (''success'', PInt n)]"
  have "short_result_keys sample_env ?i" "no_blank_errors sample_env ?i"
    by (simp_all add: short_result_keys_def no_blank_errors_def error_text_fields_def field_def)
  moreover have "normalize_account sample_env ?i = Some (stored_account n)"
    by (simp add: stored_account_def) (simp add: normalize_account_def Let_def field_def por_def)
  ultimately show ?thesis by (rule normalized_account_normal [OF sample_env_ok])
qed

lemma normalized_token:
  assumes "normalize_account env item = Some a"
  shows "fmlookup a ''access_token'' = Some (por (field item ''access_token'') (field item ''accessToken''))"
proof -
  have "fmlookup (normalize_identity env item) ''access_token'' = Some (por (field item ''access_token'') (field item ''accessToken''))"
    by (simp add: normalize_identity_def Let_def lookups split: option.split)
  with assms show ?thesis
    by (auto simp: normalize_account_def Let_def diagnostics_keep remote_check_keep counters_keep quota_keep status_keep
        split: if_splits)
qed

lemma stored_account_fields:
  "fmlookup (stored_account n) ''access_token'' = Some (PStr ''tok'')"
  "0 \<le> n \<Longrightarrow> fmlookup (stored_account n) ''success'' = Some (PInt n)"
proof -
  let ?i = "fmap_of_list [(''access_token'', PStr ''tok''), (''status'', PStr st_normal), (''quota'', PInt 5), (''success'', PInt n)]"
  have n: "normalize_account sample_env ?i = Some (stored_account n)"
    by (simp add: stored_account_def) (simp add: normalize_account_def Let_def field_def por_def)
  show "fmlookup (stored_account n) ''access_token'' = Some (PStr ''tok'')"
    using normalized_token [OF n] by (simp add: field_def por_def)
  show "0 \<le> n \<Longrightarrow> fmlookup (stored_account n) ''success'' = Some (PInt n)"
    using normalized_count [OF n, of "''success''"] by (simp add: field_def quota_value_def)
qed

definition stored_state :: "int \<Rightarrow> nat \<Rightarrow> account storage" where
  "stored_state n v = \<lparr>st_items = [(''tok'', stored_account n)], st_version = v\<rparr>"

lemma stored_state_clean: "clean sample_env now (stored_state n v)"
proof -
  have "py_strip ''tok'' = ''tok''" by code_simp
  with stored_account_normal stored_account_fields(1) show ?thesis unfolding stored_state_def by (intro clean_single) auto
qed

definition counting_pool :: pool where
  "counting_pool =
     \<lparr>pl_accounts = [(''tok'', stored_account 4)], pl_persisted = [(''tok'', stored_account 3)], pl_revision = 4,
      pl_index = 0, pl_checked_at = 0, pl_inflight = [], pl_started = [], pl_aliases = [],
      pl_refresh_pending = [], pl_refresh_scopes = [], pl_refresh_started = [], pl_refresh_active = [],
      pl_refresh_rerun = []\<rparr>"

definition one_other_write :: "nat \<Rightarrow> account storage \<Rightarrow> account storage" where
  "one_other_write i s = (if i = 0 \<and> s = stored_state 3 4 then stored_state 5 5 else s)"

lemma stored_key: "account_key sample_env (stored_account n) = ''tok''"
  using stored_account_fields(1) by (intro token_key) (assumption, code_simp)

lemma stored_distinct: "0 \<le> m \<Longrightarrow> 0 \<le> n \<Longrightarrow> m \<noteq> n \<Longrightarrow> stored_account m \<noteq> stored_account n"
  using stored_account_fields(2) [of m] stored_account_fields(2) [of n] by auto

lemma other_write_step: "storage_step (account_key sample_env) (stored_state 3 4) (stored_state 5 5)"
proof (rule mutated_step [where m = "\<lparr>mu_upserts = [stored_account 5], mu_delete_keys = [], mu_expected = None\<rparr>"])
  show "mutate_items (account_key sample_env)
      \<lparr>mu_upserts = [stored_account 5], mu_delete_keys = [], mu_expected = None\<rparr> (stored_state 3 4) =
      Inr (\<lparr>mr_revision = 5, mr_inserted = 0, mr_updated = 1, mr_deleted = 0\<rparr>, stored_state 5 5)"
    using stored_distinct [of 3 5]
    by (simp add: mutate_items_def normalize_mutation_def normalize_items_def stored_key check_revision_def write_items_def
        upsert_item_def stored_state_def dict_set_def Let_def)
qed



end
