(* ===== verification/Account_Slots.thy ===== *)
theory Account_Slots
  imports Account_Pool Account_Merge_Correct
begin

text \<open>
  The slots of image requests: the count and the start times of an account agree in every
  state, rotations of tokens move slots without losing one, and a request gets a ready account
  below its limit and gives back every slot it does not keep.
\<close>

section \<open>Counting\<close>

definition count_at :: "(string \<times> nat) list \<Rightarrow> string \<Rightarrow> nat" where
  "count_at d t = (case map_of d t of None \<Rightarrow> 0 | Some n \<Rightarrow> n)"

definition total_slots :: "pool \<Rightarrow> nat" where
  "total_slots p = sum_list (map snd (pl_inflight p))"

definition slots_ok :: "pool \<Rightarrow> bool" where
  "slots_ok p \<longleftrightarrow> distinct (dict_keys (pl_inflight p)) \<and> distinct (dict_keys (pl_started p)) \<and>
     (\<forall>t. length (starts_of p t) = inflight_of p t)"

lemma inflight_count: "inflight_of p t = count_at (pl_inflight p) t"
  by (simp add: inflight_of_def count_at_def)

lemma map_of_filter_keys: "map_of (filter (\<lambda>(k, v). P k) d) = (\<lambda>k. if P k then map_of d k else None)"
  by (induction d) (auto simp: fun_eq_iff)

lemma map_of_dict_drop': "map_of (dict_drop k d) = (map_of d)(k := None)"
  unfolding dict_drop_def by (subst map_of_filter_keys) (auto simp: fun_eq_iff)

lemma distinct_filter_keys: "distinct (map fst d) \<Longrightarrow> distinct (map fst (filter P d))"
  by (induction d) auto

lemma distinct_dict_drop: "distinct (map fst d) \<Longrightarrow> distinct (map fst (dict_drop k d))"
  unfolding dict_drop_def by (rule distinct_filter_keys)

lemma count_at_set: "count_at (dict_set k n d) = (count_at d)(k := n)"
  by (auto simp: count_at_def map_of_dict_set fun_eq_iff)

lemma count_at_drop: "count_at (dict_drop k d) = (count_at d)(k := 0)"
  by (auto simp: count_at_def map_of_dict_drop' fun_eq_iff)

lemma count_at_filter: "count_at (filter (\<lambda>(k, v). P k) d) t = (if P t then count_at d t else 0)"
  by (simp add: count_at_def map_of_filter_keys)

lemma sum_counts: "distinct (dict_keys d) \<Longrightarrow> sum_list (map snd d) = (\<Sum>t \<in> set (dict_keys d). count_at d t)"
proof (induction d)
  case (Cons x d)
  obtain k n where x: "x = (k, n)" by (cases x)
  have "count_at ((k, n) # d) t = count_at d t" if "t \<in> set (dict_keys d)" for t
    using that Cons.prems x by (auto simp: count_at_def)
  then have "(\<Sum>t \<in> set (dict_keys d). count_at ((k, n) # d) t) = (\<Sum>t \<in> set (dict_keys d). count_at d t)"
    by (rule sum.cong [OF refl])
  with Cons x show ?case by (simp add: count_at_def)
qed simp

lemma count_at_absent: "k \<notin> fst ` set d \<Longrightarrow> count_at d k = 0"
  unfolding count_at_def by (subst map_of_eq_None_iff [THEN iffD2]) simp_all

lemma sum_counts_over:
  assumes "distinct (dict_keys d)" "finite A" "set (dict_keys d) \<subseteq> A"
  shows "sum_list (map snd d) = sum (count_at d) A"
proof -
  have "sum (count_at d) A = sum (count_at d) (set (dict_keys d))"
    using assms(2,3) by (intro sum.mono_neutral_right) (auto simp: count_at_absent)
  with sum_counts [OF assms(1)] show ?thesis by simp
qed

lemma dict_set_keys: "set (dict_keys (dict_set k v d)) = insert k (set (dict_keys d))"
proof -
  have "set (map fst (dict_set k v d)) = dom (map_of (dict_set k v d))" by (simp only: dom_map_of_conv_image_fst list.set_map)
  also have "\<dots> = insert k (set (map fst d))" by (simp only: map_of_dict_set dom_fun_upd dom_map_of_conv_image_fst list.set_map) simp
  finally show ?thesis .
qed

text \<open>Changing one count changes the total by the difference.\<close>

lemma total_update:
  assumes "distinct (dict_keys d)" "distinct (dict_keys e)" "count_at e = (count_at d)(k := n)"
  shows "sum_list (map snd e) + count_at d k = sum_list (map snd d) + n"
proof -
  let ?A = "insert k (set (dict_keys d) \<union> set (dict_keys e))"
  have "sum (count_at e) ?A = n + sum (count_at d) (?A - {k})"
    unfolding assms(3) by (subst sum.remove [of _ k]) (auto intro: sum.cong)
  moreover have "sum (count_at d) ?A = count_at d k + sum (count_at d) (?A - {k})"
    by (subst sum.remove [of _ k]) simp_all
  moreover have "sum_list (map snd e) = sum (count_at e) ?A" "sum_list (map snd d) = sum (count_at d) ?A"
    using assms(1,2) by (intro sum_counts_over; auto)+
  ultimately show ?thesis by simp
qed

text \<open>Dropping keys takes away their counts.\<close>

lemma total_drop:
  assumes "distinct (dict_keys d)" "distinct ks"
  shows "sum_list (map snd (filter (\<lambda>(k, v). k \<notin> set ks) d)) + sum_list (map (count_at d) ks) = sum_list (map snd d)"
proof -
  let ?A = "set (dict_keys d) \<union> set ks" and ?e = "filter (\<lambda>(k, v). k \<notin> set ks) d"
  have "sum_list (map snd ?e) = sum (count_at ?e) ?A"
    using assms(1) by (intro sum_counts_over) (auto intro: distinct_filter_keys)
  also have "\<dots> = sum (count_at d) (?A - set ks)"
    by (intro sum.mono_neutral_cong_right) (auto simp: count_at_filter)
  finally have "sum_list (map snd ?e) = sum (count_at d) (?A - set ks)" .
  moreover have "sum_list (map snd d) = sum (count_at d) ?A" using assms(1) by (intro sum_counts_over) auto
  moreover have "sum_list (map (count_at d) ks) = sum (count_at d) (set ks)"
    using assms(2) by (simp add: sum_list_distinct_conv_sum_set)
  moreover have "sum (count_at d) ?A = sum (count_at d) (?A - set ks) + sum (count_at d) (set ks)"
    by (rule sum.subset_diff) auto
  ultimately show ?thesis by simp
qed

section \<open>Taking and releasing\<close>

lemma take_inflight: "inflight_of (take_image_slot now t p) = (inflight_of p)(t := inflight_of p t + 1)"
  by (auto simp: take_image_slot_def record_image_slot_start_def Let_def inflight_of_def map_of_dict_set fun_eq_iff)

lemma take_starts: "starts_of (take_image_slot now t p) = (starts_of p)(t := starts_of p t @ [now])"
  by (auto simp: take_image_slot_def record_image_slot_start_def Let_def starts_of_def map_of_dict_set fun_eq_iff)

lemma take_keeps:
  "pl_accounts (take_image_slot now t p) = pl_accounts p" "pl_aliases (take_image_slot now t p) = pl_aliases p"
  by (simp_all add: take_image_slot_def record_image_slot_start_def Let_def)

lemma take_slots_ok: "slots_ok p \<Longrightarrow> slots_ok (take_image_slot now t p)"
  unfolding slots_ok_def take_inflight take_starts
  by (auto simp: take_image_slot_def record_image_slot_start_def Let_def intro: distinct_dict_set)

lemma take_total: "slots_ok p \<Longrightarrow> total_slots (take_image_slot now t p) = total_slots p + 1"
proof -
  assume ok: "slots_ok p"
  let ?q = "take_image_slot now t p"
  have "count_at (pl_inflight ?q) = (count_at (pl_inflight p))(t := inflight_of p t + 1)"
    using take_inflight [of now t p] by (simp add: inflight_count fun_eq_iff)
  from total_update [OF _ _ this] ok take_slots_ok [OF ok]
  show ?thesis by (simp add: total_slots_def slots_ok_def inflight_count)
qed

lemma release_inflight: "inflight_of (release_slot_locked t p) = (inflight_of p)(t := inflight_of p t - 1)"
  by (auto simp: release_slot_locked_def pop_image_slot_start_def inflight_of_def map_of_dict_drop' map_of_dict_set
      fun_eq_iff Let_def split: option.split)

lemma release_starts:
  "length (starts_of p t) = inflight_of p t \<Longrightarrow>
     starts_of (release_slot_locked t p) = (starts_of p)(t := drop 1 (starts_of p t))"
  by (auto simp: release_slot_locked_def pop_image_slot_start_def starts_of_def map_of_dict_drop' map_of_dict_set
      fun_eq_iff Let_def split: option.split)

lemma release_keeps:
  "pl_accounts (release_slot_locked t p) = pl_accounts p" "pl_aliases (release_slot_locked t p) = pl_aliases p"
  by (simp_all add: release_slot_locked_def pop_image_slot_start_def Let_def split: option.split)

lemma release_slots_ok: "slots_ok p \<Longrightarrow> slots_ok (release_slot_locked t p)"
proof -
  assume ok: "slots_ok p"
  then have "length (starts_of p t) = inflight_of p t" by (simp add: slots_ok_def)
  from release_starts [OF this] ok
  have "\<forall>u. length (starts_of (release_slot_locked t p) u) = inflight_of (release_slot_locked t p) u"
    by (simp add: release_inflight slots_ok_def)
  with ok show ?thesis
    by (auto simp: slots_ok_def release_slot_locked_def pop_image_slot_start_def Let_def
        intro: distinct_dict_set distinct_dict_drop split: option.split)
qed

lemma release_total:
  assumes "slots_ok p"
  shows "total_slots (release_slot_locked t p) + (if inflight_of p t = 0 then 0 else 1) = total_slots p"
proof -
  let ?q = "release_slot_locked t p"
  have "count_at (pl_inflight ?q) = (count_at (pl_inflight p))(t := inflight_of p t - 1)"
    using release_inflight [of t p] by (simp add: inflight_count fun_eq_iff)
  from total_update [OF _ _ this] assms release_slots_ok [OF assms]
  show ?thesis by (auto simp: total_slots_def slots_ok_def inflight_count)
qed

section \<open>Rotation of tokens\<close>

lemma move_slots_inflight:
  assumes "distinct ss"
  shows "inflight_of (move_slots new ss p) = (\<lambda>t.
    if t = new then inflight_of p new + sum_list (map (inflight_of p) (filter (\<lambda>s. s \<noteq> new) ss))
    else if t \<in> set ss then 0 else inflight_of p t)"
  by (auto simp: move_slots_def Let_def inflight_of_def map_of_dict_set map_of_filter_keys fun_eq_iff)

lemma move_slots_starts:
  "starts_of (move_slots new ss p) = (\<lambda>t.
    if t = new then sort (concat (map (starts_of p) (filter (\<lambda>s. s \<noteq> new) ss)) @ starts_of p new)
    else if t \<in> set ss then [] else starts_of p t)"
proof -
  have look: "(case map_of (if m \<noteq> [] then dict_set new (sort m) d else dict_drop new d) t of None \<Rightarrow> [] | Some ts \<Rightarrow> ts) =
      (if t = new then sort m else case map_of d t of None \<Rightarrow> [] | Some ts \<Rightarrow> ts)" for m :: "time list" and d t
    by (simp add: map_of_dict_set map_of_dict_drop')
  let ?m = "concat (map (starts_of p) (filter (\<lambda>s. s \<noteq> new) ss)) @ starts_of p new"
  let ?d = "filter (\<lambda>(t, n). t \<notin> set (filter (\<lambda>s. s \<noteq> new) ss)) (pl_started p)"
  have started: "pl_started (move_slots new ss p) = (if ?m \<noteq> [] then dict_set new (sort ?m) ?d else dict_drop new ?d)"
    by (simp add: move_slots_def Let_def)
  show ?thesis
    by (rule ext) (simp only: starts_of_def [of "move_slots new ss p"] started look map_of_filter_keys,
      simp add: starts_of_def)
qed

lemma move_slots_ok: "slots_ok p \<Longrightarrow> distinct ss \<Longrightarrow> slots_ok (move_slots new ss p)"
proof -
  assume ok: "slots_ok p" and d: "distinct ss"
  then have "map (length \<circ> starts_of p) xs = map (inflight_of p) xs" for xs by (simp add: slots_ok_def)
  with ok have "\<forall>t. length (starts_of (move_slots new ss p) t) = inflight_of (move_slots new ss p) t"
    by (simp add: move_slots_inflight [OF d] move_slots_starts length_concat slots_ok_def comp_def)
  with ok show ?thesis
    by (auto simp: slots_ok_def move_slots_def Let_def intro!: distinct_dict_set distinct_dict_drop distinct_filter_keys)
qed

lemma move_slots_total:
  assumes "slots_ok p" "distinct ss"
  shows "total_slots (move_slots new ss p) = total_slots p"
proof -
  let ?olds = "filter (\<lambda>s. s \<noteq> new) ss" and ?q = "move_slots new ss p"
  let ?d = "filter (\<lambda>(t, n). t \<notin> set ?olds) (pl_inflight p)"
  have ok: "slots_ok ?q" by (rule move_slots_ok [OF assms])
  have "count_at (pl_inflight ?q) =
      (count_at ?d)(new := inflight_of p new + sum_list (map (inflight_of p) ?olds))"
    using move_slots_inflight [OF assms(2), of new p]
    by (auto simp: inflight_count fun_eq_iff count_at_filter [where P = "\<lambda>t. t \<notin> set ?olds", simplified])
  from total_update [OF _ _ this] assms(1) ok
  have "total_slots ?q + count_at ?d new =
      sum_list (map snd ?d) + (inflight_of p new + sum_list (map (inflight_of p) ?olds))"
    by (simp add: slots_ok_def total_slots_def distinct_filter_keys)
  moreover have "count_at ?d new = inflight_of p new"
    by (simp add: inflight_count count_at_filter)
  moreover have "sum_list (map snd ?d) + sum_list (map (inflight_of p) ?olds) = total_slots p"
    using total_drop [of "pl_inflight p" ?olds] assms
    by (simp add: slots_ok_def total_slots_def inflight_count [abs_def])
  ultimately show ?thesis by simp
qed

lemma slots_cong:
  assumes "pl_inflight q = pl_inflight p" "pl_started q = pl_started p"
  shows "slots_ok q = slots_ok p" "total_slots q = total_slots p" "inflight_of q = inflight_of p"
  using assms by (simp_all add: slots_ok_def total_slots_def inflight_of_def [abs_def] starts_of_def)

text \<open>What keeps every slot: the counts stay consistent and none is lost or invented.\<close>

definition keeps_slots :: "pool \<Rightarrow> pool \<Rightarrow> bool" where
  "keeps_slots p q \<longleftrightarrow> (slots_ok p \<longrightarrow> slots_ok q \<and> total_slots q = total_slots p)"

lemma keeps_slots_refl [simp]: "keeps_slots p p"
  by (simp add: keeps_slots_def)

lemma keeps_slots_trans: "keeps_slots p q \<Longrightarrow> keeps_slots q r \<Longrightarrow> keeps_slots p r"
  by (auto simp: keeps_slots_def)

lemma keeps_slots_fields:
  "pl_inflight q = pl_inflight p \<Longrightarrow> pl_started q = pl_started p \<Longrightarrow> keeps_slots p q"
  using slots_cong(1,2) [of q p] by (simp add: keeps_slots_def)

lemma move_token_keeps_slots: "distinct ss \<Longrightarrow> keeps_slots p (move_account_runtime_token new ss p)"
proof -
  assume "distinct ss"
  then have "keeps_slots p (move_slots new ss p)" by (simp add: keeps_slots_def move_slots_ok move_slots_total)
  moreover have "keeps_slots (move_slots new ss p) (move_refreshes new ss (move_slots new ss p))"
    by (rule keeps_slots_fields) (simp_all add: move_refreshes_def Let_def)
  ultimately show ?thesis unfolding move_account_runtime_token_def by (rule keeps_slots_trans)
qed

lemma fold_rotations_keep_slots:
  "\<forall>(new, ss) \<in> set rs. distinct ss \<Longrightarrow>
     keeps_slots p (fold (\<lambda>(new, ss). move_account_runtime_token new ss) rs p)"
proof (induction rs arbitrary: p)
  case (Cons r rs)
  then show ?case
    by (cases r) (auto intro: keeps_slots_trans [OF move_token_keeps_slots])
qed simp

lemma passive_sources_distinct: "\<forall>(new, ss) \<in> set (passive_token_rotations env loaded p). distinct ss"
  by (auto simp: passive_token_rotations_def List.map_filter_def Let_def split: if_splits option.splits)

lemma apply_view_keeps_slots: "keeps_slots p (apply_account_view env now loaded persisted r keep p)"
proof -
  let ?p = "p\<lparr>pl_accounts := loaded, pl_persisted := persisted, pl_revision := r\<rparr>"
  let ?q = "fold (\<lambda>(new, ss). move_account_runtime_token new ss) (passive_token_rotations env loaded p) ?p"
  have "keeps_slots p ?p" by (rule keeps_slots_fields) simp_all
  moreover have "keeps_slots ?p ?q" by (intro fold_rotations_keep_slots passive_sources_distinct)
  ultimately have "keeps_slots p ?q" by (rule keeps_slots_trans)
  moreover have "keeps_slots ?q (apply_account_view env now loaded persisted r keep p)"
    by (rule keeps_slots_fields) (simp_all add: apply_account_view_def Let_def)
  ultimately show ?thesis by (rule keeps_slots_trans)
qed

lemma refresh_keeps_slots: "keeps_slots p (snd (refresh_accounts_snapshot env now ttl s p))"
proof -
  have "keeps_slots p (p\<lparr>pl_checked_at := now\<rparr>)" by (rule keeps_slots_fields) simp_all
  then show ?thesis
    by (auto simp: refresh_accounts_snapshot_def Let_def split: prod.split
        intro: keeps_slots_trans [OF _ apply_view_keeps_slots])
qed

lemma adopt_keeps_slots: "keeps_slots p (snd (adopt_remote env now generation s p))"
  by (auto simp: adopt_remote_def apply_view_keeps_slots split: prod.split)

lemma restore_keeps_slots: "keeps_slots p (restore_accounts_after_save_error env now s p)"
  by (auto simp: restore_accounts_after_save_error_def apply_view_keeps_slots split: prod.split)

lemma prune_keeps_slots: "keeps_slots p (prune_token_aliases p)"
  by (rule keeps_slots_fields) (simp_all add: prune_token_aliases_def Let_def)

lemma save_keeps_slots:
  "save_attempts env now others g i n p s = (r, q, t) \<Longrightarrow> keeps_slots p q"
proof (induction env now others g i n p s arbitrary: r q t rule: save_attempts.induct)
  case (2 env now others g i left p s)
  let ?m = "mutation_between (pl_persisted p) (pl_accounts p) (pl_revision p)"
  let ?s = "others i s"
  let ?t = "others (i + 1) ?s"
  have saved: "keeps_slots p (prune_token_aliases (p\<lparr>pl_persisted := v, pl_revision := x, pl_checked_at := y\<rparr>))"
    for v x y
    by (rule keeps_slots_trans [OF _ prune_keeps_slots]) (rule keeps_slots_fields; simp)
  show ?case
  proof (cases "mu_upserts ?m = [] \<and> mu_delete_keys ?m = []")
    case True
    with 2(2) show ?thesis by (auto simp: Let_def prune_keeps_slots)
  next
    case False
    note changed = this
    show ?thesis
    proof (cases "mutate_items (account_key env) ?m ?s")
      case (Inr res)
      obtain mr u where "res = (mr, u)" by (cases res)
      with 2(2) changed Inr have "q = prune_token_aliases (p\<lparr>pl_persisted := pl_accounts p,
          pl_revision := mr_revision mr, pl_checked_at := now\<rparr>)" by (auto simp: Let_def)
      then show ?thesis by (simp only: saved)
    next
      case (Inl e)
      show ?thesis
      proof (cases e)
        case InvalidItems
        with 2(2) changed Inl show ?thesis by (auto simp: Let_def restore_keeps_slots)
      next
        case (RevisionConflict x y)
        obtain b p' where adopt: "adopt_remote env now g ?t p = (b, p')" by (cases "adopt_remote env now g ?t p")
        then have keep: "keeps_slots p p'" using adopt_keeps_slots [of p env now g ?t] by simp
        show ?thesis
        proof (cases "left = 0")
          case True
          with 2(2) changed Inl RevisionConflict show ?thesis by (auto simp: Let_def restore_keeps_slots)
        next
          case False
          note more = this
          show ?thesis
          proof (cases b)
            case False
            with 2(2) changed Inl RevisionConflict adopt more keep show ?thesis by (auto simp: Let_def)
          next
            case True
            with 2(2) changed Inl RevisionConflict adopt more
            have "save_attempts env now others g (i + 2) left p' ?t = (r, q, t)" by (simp add: Let_def)
            then have "keeps_slots p' q"
              using 2(1) [OF refl changed refl Inl RevisionConflict refl more] adopt True by simp
            with keep show ?thesis by (rule keeps_slots_trans)
          qed
        qed
      qed
    qed
  qed
qed simp

section \<open>The operations of the pool\<close>

lemma save_accounts_keeps_slots: "save_accounts env now others g p s = (r, q, t) \<Longrightarrow> keeps_slots p q"
  unfolding save_accounts_def by (rule save_keeps_slots)

lemma save_and_read_keeps_slots: "save_and_read env now others g tok p s = (r, q, t) \<Longrightarrow> keeps_slots p q"
  by (auto simp: save_and_read_def Let_def split: prod.splits save_result.splits dest: save_accounts_keeps_slots)

lemma set_account_keeps_slots: "keeps_slots p (set_account tok a p)"
  by (rule keeps_slots_fields) (simp_all add: set_account_def)

lemma start_refreshes_fields:
  "pl_inflight (start_pending_refreshes cfg now n p) = pl_inflight p \<and>
   pl_started (start_pending_refreshes cfg now n p) = pl_started p"
  by (induction n arbitrary: p) (simp_all add: Let_def split: list.split)

lemma keeps_slots_cases:
  "keeps_slots p (snd x) \<Longrightarrow> keeps_slots p (snd y) \<Longrightarrow> keeps_slots p (snd (if c then x else y))"
  "keeps_slots p (snd x) \<Longrightarrow> (\<And>a. keeps_slots p (snd (f a))) \<Longrightarrow>
     keeps_slots p (snd (case m of None \<Rightarrow> x | Some a \<Rightarrow> f a))"
  by (auto split: option.split)

lemma schedule_keeps_slots: "keeps_slots p (snd (schedule_account_refresh cfg now force tok p))"
  unfolding schedule_account_refresh_def Let_def
  by (intro keeps_slots_cases; rule keeps_slots_fields; simp only: snd_conv start_refreshes_fields; simp)

lemma after_save_keeps_slots:
  assumes "(case save_and_read env now others g k (set_account k a p) s of
      (Inl e, p, s) \<Rightarrow> (Inl e, p, s)
    | (Inr None, p, s) \<Rightarrow> (Inr False, p, s)
    | (Inr (Some (t, b)), p, s) \<Rightarrow> (Inr (F b), p, s)) = (r, q, t)"
  shows "keeps_slots p q"
proof -
  obtain r' q' t' where save: "save_and_read env now others g k (set_account k a p) s = (r', q', t')"
    by (metis prod_cases3)
  with assms have "q = q'" by (auto split: sum.splits option.splits prod.splits)
  with keeps_slots_trans [OF set_account_keeps_slots save_and_read_keeps_slots [OF save]] show ?thesis by simp
qed

lemma check_error_keeps_slots:
  assumes "record_remote_check_error env now others ex tok event err p s = (r, q, t)"
  shows "keeps_slots p q"
  using assms unfolding record_remote_check_error_def Let_def
  by (simp only: prod.inject split: option.split_asm if_split_asm)
     (simp_all only: keeps_slots_refl after_save_keeps_slots)

lemma released_slots_ok: "slots_ok p \<Longrightarrow> slots_ok (release_image_slot tok p)"
  by (simp add: release_image_slot_def release_slots_ok)

text \<open>The last part of recording a result: the check of the account is scheduled.\<close>

lemma after_result_slots_ok:
  assumes "(case save_and_read env now others g k (set_account k a p) s of
      (Inr (Some (t, b)), p, s) \<Rightarrow>
        if verify then (case schedule_account_refresh cfg now True t p of
            (True, p) \<Rightarrow> (Inr (Some b), p, s)
          | (False, p) \<Rightarrow>
              (case record_remote_check_error env now others ex t event err p s of
                 (Inl e, p, s) \<Rightarrow> (Inl e, p, s)
               | (Inr _, p, s) \<Rightarrow> (Inr (Some b), p, s)))
        else (Inr (Some b), p, s)
    | (Inr None, p, s) \<Rightarrow> (Inr None, p, s)
    | (Inl e, p, s) \<Rightarrow> (Inl e, p, s)) = (res, q, t)" and "slots_ok p"
  shows "slots_ok q"
proof -
  obtain r1 q1 t1 where save: "save_and_read env now others g k (set_account k a p) s = (r1, q1, t1)"
    by (metis prod_cases3)
  from keeps_slots_trans [OF set_account_keeps_slots save_and_read_keeps_slots [OF save]] assms(2)
  have q1: "slots_ok q1" by (simp add: keeps_slots_def)
  show ?thesis
  proof (cases "\<exists>t b. r1 = Inr (Some (t, b)) \<and> verify")
    case True
    then obtain tk b where r1: "r1 = Inr (Some (tk, b))" and verify by blast
    obtain ok q2 where sched: "schedule_account_refresh cfg now True tk q1 = (ok, q2)" by (metis prod.exhaust)
    with schedule_keeps_slots [of q1 cfg now True tk] q1 have q2: "slots_ok q2" by (simp add: keeps_slots_def)
    obtain r3 q3 t3 where err: "record_remote_check_error env now others ex tk event err q2 t1 = (r3, q3, t3)"
      by (metis prod_cases3)
    with check_error_keeps_slots [OF err] q2 have "slots_ok q3" by (simp add: keeps_slots_def)
    with assms(1) save r1 sched err q2 \<open>verify\<close> show ?thesis by (auto split: bool.splits sum.splits)
  next
    case False
    with assms(1) save q1 show ?thesis by (auto split: sum.splits option.splits if_splits)
  qed
qed

lemma record_result_slots_ok:
  assumes "record_image_result env cfg now others g release r tok p s = (res, q, t)" and ok: "slots_ok p"
  shows "slots_ok q"
proof -
  have "slots_ok (if release then release_slot_locked (resolve_access_token p tok) p else p)"
    using ok by (simp add: release_slots_ok)
  with assms show ?thesis
    unfolding record_image_result_def Let_def
    by (simp only: prod.inject split: option.split_asm if_split_asm)
       (simp_all only: simp_thms after_result_slots_ok)
qed

section \<open>Getting an account\<close>

lemma index_irrelevant [simp]:
  "inflight_of (p\<lparr>pl_index := i\<rparr>) = inflight_of p" "starts_of (p\<lparr>pl_index := i\<rparr>) = starts_of p"
  "resolve_access_token (p\<lparr>pl_index := i\<rparr>) = resolve_access_token p"
  "slots_ok (p\<lparr>pl_index := i\<rparr>) = slots_ok p" "total_slots (p\<lparr>pl_index := i\<rparr>) = total_slots p"
  by (simp_all add: inflight_of_def starts_of_def resolve_access_token_def slots_ok_def total_slots_def fun_eq_iff)

definition ready_token :: "account_env \<Rightarrow> time \<Rightarrow> account_filter \<Rightarrow> string list \<Rightarrow> pool \<Rightarrow> string \<Rightarrow> bool" where
  "ready_token env now f excluded p t \<longleftrightarrow> t \<noteq> '''' \<and> t \<notin> set (map (resolve_access_token p) (filter (\<lambda>x. x \<noteq> '''') excluded)) \<and>
     (\<exists>a \<in> set (map snd (pl_accounts p)). access_token_of env a = t \<and> is_image_account_available env now a \<and>
        matches_filter env a f)"

lemma ready_tokens:
  "set (list_ready_candidate_tokens env now f (map (resolve_access_token p) (filter (\<lambda>x. x \<noteq> '''') excluded)) p) =
     {t. ready_token env now f excluded p t}"
  by (auto simp: list_ready_candidate_tokens_def ready_token_def)

lemma available_tokens:
  "set (list_available_candidate_tokens env cfg now f ex p) =
     {t \<in> set (list_ready_candidate_tokens env now f ex p). inflight_of p t < max_concurrency cfg}"
  by (auto simp: list_available_candidate_tokens_def)

definition token_group :: "account_config \<Rightarrow> time \<Rightarrow> pool \<Rightarrow> string \<Rightarrow> nat" where
  "token_group cfg now p t =
     dispatch_group (dispatch_stats_for_token now t p) (int (max_concurrency cfg)) slow_generation_time"

lemma token_stats_map: "t \<in> set ts \<Longrightarrow> token_stats (map (\<lambda>t. (t, g t)) ts) t = g t"
  by (simp add: token_stats_def map_of_map_restrict)

lemma pick_ranked:
  assumes "ts \<noteq> []" and "pick_ranked_image_token cfg now ts p = (t, q)"
  shows "t \<in> set ts \<and> (\<forall>u \<in> set ts. token_group cfg now p t \<le> token_group cfg now p u) \<and>
    q = p\<lparr>pl_index := pl_index p + 1\<rparr>"
proof -
  let ?stats = "map (\<lambda>t. (t, dispatch_stats_for_token now t p)) ts"
  let ?rank = "rank_image_account_tokens ts ?stats (int (max_concurrency cfg)) (pl_index p)"
  have mset: "mset ?rank = mset ts" by (rule token_ranking.rank_mset)
  then have elems: "set ?rank = set ts" by (metis set_mset_mset)
  with assms(1) obtain x xs where rank: "?rank = x # xs" by (cases ?rank) auto
  have t: "t = x" and q: "q = p\<lparr>pl_index := pl_index p + 1\<rparr>"
    using assms(2) rank by (auto simp: pick_ranked_image_token_def)
  let ?g = "\<lambda>u. dispatch_group (token_stats ?stats u) (int (max_concurrency cfg)) slow_generation_time"
  have group: "?g u = token_group cfg now p u" if "u \<in> set ts" for u
    using that by (simp add: token_stats_map token_group_def)
  have "sorted (map ?g ?rank)"
    unfolding rank_image_account_tokens_def by (rule rank_items_sorted_groups)
  then have "\<forall>u \<in> set (x # xs). ?g x \<le> ?g u" by (simp add: rank)
  moreover have "x \<in> set ts" using elems rank by auto
  ultimately show ?thesis using elems rank t q group by (metis (no_types, lifting))
qed

definition matching_accounts_limited :: "account_env \<Rightarrow> account_filter \<Rightarrow> string list \<Rightarrow> pool \<Rightarrow> bool" where
  "matching_accounts_limited env f excluded p \<longleftrightarrow>
     (let matching = (\<lambda>a. truthy (field a ''access_token'') \<and> matches_filter env a f \<and>
            access_token_of env a \<notin> set (map (resolve_access_token p) (filter (\<lambda>x. x \<noteq> '''') excluded)))
      in (\<exists>a \<in> set (map snd (pl_accounts p)). matching a) \<and>
         (\<forall>a \<in> set (map snd (pl_accounts p)). matching a \<longrightarrow> raw_text env (field a ''status'') = st_limited))"

lemma length_filter_all: "length (filter P xs) = length xs \<Longrightarrow> x \<in> set xs \<Longrightarrow> P x"
  using length_filter_less [of x xs P] by auto

lemma no_ready_error_kind: "no_ready_candidate_error env f ex p \<in> {QuotaExhausted, NoneAvailable}"
  by (simp add: no_ready_candidate_error_def Let_def)

lemma quota_refusal:
  assumes "no_ready_candidate_error env f (map (resolve_access_token p) (filter (\<lambda>x. x \<noteq> '''') excluded)) p = QuotaExhausted"
  shows "matching_accounts_limited env f excluded p"
proof -
  let ?ex = "map (resolve_access_token p) (filter (\<lambda>x. x \<noteq> '''') excluded)"
  let ?m = "filter (\<lambda>a. truthy (field a ''access_token'') \<and> access_token_of env a \<notin> set ?ex \<and> matches_filter env a f)
    (map snd (pl_accounts p))"
  have "0 < length ?m" and all: "length (filter (\<lambda>a. raw_text env (field a ''status'') = st_limited) ?m) = length ?m"
    using assms unfolding no_ready_candidate_error_def Let_def by (simp_all only: split: if_split_asm) simp_all
  from \<open>0 < length ?m\<close> have "hd ?m \<in> set ?m" by (intro hd_in_set) (simp only: length_greater_0_conv not_False_eq_True)
  then have "\<exists>a. a \<in> set ?m" by (intro exI [of _ "hd ?m"])
  moreover note length_filter_all [OF all]
  ultimately show ?thesis
    unfolding matching_accounts_limited_def Let_def by (simp only: set_filter mem_Collect_eq) blast
qed

lemma acquire_pass_ready:
  assumes "acquire_pass env cfg now f excluded deadline p = (Acquired t, q)"
  shows "ready_token env now f excluded p t \<and> inflight_of p t < max_concurrency cfg \<and>
    (\<forall>u. ready_token env now f excluded p u \<and> inflight_of p u < max_concurrency cfg \<longrightarrow>
       token_group cfg now p t \<le> token_group cfg now p u) \<and>
    q = take_image_slot now t (p\<lparr>pl_index := pl_index p + 1\<rparr>)"
proof -
  let ?ex = "map (resolve_access_token p) (filter (\<lambda>x. x \<noteq> '''') excluded)"
  let ?ready = "list_ready_candidate_tokens env now f ?ex p"
  let ?free = "list_available_candidate_tokens env cfg now f ?ex p"
  have ready: "set ?ready = {t. ready_token env now f excluded p t}" by (rule ready_tokens)
  have free: "set ?free = {t \<in> set ?ready. inflight_of p t < max_concurrency cfg}" by (rule available_tokens)
  have some: "\<not> past_deadline deadline now" "?ready \<noteq> []" "?free \<noteq> []"
    using assms by (auto simp: acquire_pass_def Let_def split: if_splits)
  obtain u p' where pick: "pick_ranked_image_token cfg now ?free p = (u, p')" by fastforce
  from some assms pick have "u = t" "q = take_image_slot now t p'"
    by (auto simp: acquire_pass_def Let_def split: list.splits)
  with pick_ranked [OF some(3) pick] ready free show ?thesis by auto
qed

text \<open>
  One attempt to get an account for an image request is exact: it fails past the
  deadline; it is refused when no account is ready, and then for want of quota only when every
  matching account is limited; it waits when every ready account is at its limit; otherwise it
  takes one slot of a ready account that matches the request, is not excluded, is below its
  limit and has the best dispatch group of all such accounts, and touches no other slot.
\<close>

theorem acquire_pass_outcome:
  assumes "acquire_pass env cfg now f excluded deadline p = (out, q)"
  shows "case out of
      Acquired t \<Rightarrow> ready_token env now f excluded p t \<and> inflight_of p t < max_concurrency cfg \<and>
        (\<forall>u. ready_token env now f excluded p u \<and> inflight_of p u < max_concurrency cfg \<longrightarrow>
           token_group cfg now p t \<le> token_group cfg now p u) \<and>
        inflight_of q = (inflight_of p)(t := inflight_of p t + 1) \<and> starts_of q = (starts_of p)(t := starts_of p t @ [now])
    | Waiting \<Rightarrow> q = p \<and> (\<exists>t. ready_token env now f excluded p t) \<and>
        (\<forall>t. ready_token env now f excluded p t \<longrightarrow> max_concurrency cfg \<le> inflight_of p t)
    | Refused e \<Rightarrow> q = p \<and> (if past_deadline deadline now then e = DeadlineExceeded
        else e \<in> {QuotaExhausted, NoneAvailable} \<and> (\<forall>t. \<not> ready_token env now f excluded p t) \<and>
          (e = QuotaExhausted \<longrightarrow> matching_accounts_limited env f excluded p))"
proof (cases "past_deadline deadline now")
  case True
  with assms show ?thesis by (auto simp: acquire_pass_def)
next
  case False
  note time = this
  let ?ex = "map (resolve_access_token p) (filter (\<lambda>x. x \<noteq> '''') excluded)"
  let ?ready = "list_ready_candidate_tokens env now f ?ex p"
  let ?free = "list_available_candidate_tokens env cfg now f ?ex p"
  have ready: "set ?ready = {t. ready_token env now f excluded p t}" by (rule ready_tokens)
  have free: "set ?free = {t \<in> set ?ready. inflight_of p t < max_concurrency cfg}" by (rule available_tokens)
  show ?thesis
  proof (cases "?ready = []")
    case True
    with time assms have "q = p" and e: "out = Refused (no_ready_candidate_error env f ?ex p)"
      by (auto simp: acquire_pass_def Let_def)
    with True time ready show ?thesis
      using no_ready_error_kind [of env f ?ex p] by (auto dest: quota_refusal)
  next
    case False
    note some = this
    show ?thesis
    proof (cases "?free = []")
      case True
      with time some assms have "out = Waiting" "q = p" by (auto simp: acquire_pass_def Let_def)
      moreover have "\<exists>t. t \<in> set ?ready" using some by (cases ?ready) auto
      ultimately show ?thesis using True ready free by (auto simp: not_less)
    next
      case False
      with time some assms obtain t where out: "out = Acquired t"
        by (auto simp: acquire_pass_def Let_def split: list.splits prod.splits)
      from acquire_pass_ready [OF assms [unfolded out]] show ?thesis
        by (simp add: out take_inflight take_starts)
    qed
  qed
qed

text \<open>Two ready accounts, the first with one request in flight.\<close>

definition ready_account :: "string \<Rightarrow> account" where
  "ready_account t = fmap_of_list
     [(''access_token'', PStr t), (''management_id'', PStr (''m'' @ t)), (''status'', PStr st_normal), (''quota'', PInt 5)]"

definition two_accounts :: pool where
  "two_accounts =
     \<lparr>pl_accounts = [(''a'', ready_account ''a''), (''b'', ready_account ''b'')],
      pl_persisted = [(''a'', ready_account ''a''), (''b'', ready_account ''b'')], pl_revision = 4, pl_index = 0,
      pl_checked_at = 0, pl_inflight = [(''a'', 1)], pl_started = [(''a'', [30])], pl_aliases = [],
      pl_refresh_pending = [], pl_refresh_scopes = [], pl_refresh_started = [], pl_refresh_active = [],
      pl_refresh_rerun = []\<rparr>"

definition two_slots :: account_config where
  "two_slots = \<lparr>cf_concurrency = 2, cf_auto_remove_invalid = False, cf_refresh_workers = 1\<rparr>"

definition any_account :: account_filter where
  "any_account = \<lparr>af_plan_type = None, af_source_type = None, af_plan_types = []\<rparr>"

theorem acquire_pass_outcome_witness:
  "\<exists>q. acquire_pass sample_env two_slots 50 any_account [] None two_accounts = (Acquired ''b'', q) \<and>
     inflight_of q = (inflight_of two_accounts)(''b'' := 1) \<and>
     (ready_token sample_env 50 any_account [] two_accounts ''a'' \<and> inflight_of two_accounts ''a'' < 2 \<longrightarrow>
        token_group two_slots 50 two_accounts ''b'' \<le> token_group two_slots 50 two_accounts ''a'')"
proof -
  let ?r = "acquire_pass sample_env two_slots 50 any_account [] None two_accounts"
  have out: "fst ?r = Acquired ''b''" and counts: "inflight_of two_accounts ''b'' = 0" "max_concurrency two_slots = 2"
    by code_simp+
  then have r: "?r = (Acquired ''b'', snd ?r)" by (metis prod.collapse)
  from acquire_pass_outcome [OF this] counts r show ?thesis by (intro exI [of _ "snd ?r"]) simp
qed

section \<open>No slot is leaked\<close>

definition keyed :: "account_env \<Rightarrow> pool \<Rightarrow> bool" where
  "keyed env p \<longleftrightarrow> (\<forall>(t, a) \<in> set (pl_accounts p). access_token_of env a = t \<and> py_strip t = t)"

definition holds_slot :: "pool \<Rightarrow> string \<Rightarrow> bool" where
  "holds_slot p t \<longleftrightarrow> t \<noteq> '''' \<and> 0 < inflight_of p (resolve_access_token p t)"

text \<open>
  What the remote check may do to the pool while the request holds its slot: rotate tokens and
  change accounts, as long as the slot of the request moves with its token.
\<close>

definition check_keeps_slot :: "account_env \<Rightarrow> (nat \<Rightarrow> string \<Rightarrow> pool \<Rightarrow> remote_answer \<times> pool) \<Rightarrow> bool" where
  "check_keeps_slot env fetch \<longleftrightarrow>
     (\<forall>n t p r q. fetch n t p = (r, q) \<longrightarrow> slots_ok p \<longrightarrow> keyed env p \<longrightarrow> holds_slot p t \<longrightarrow>
        slots_ok q \<and> keyed env q \<and> total_slots q = total_slots p \<and> holds_slot q t)"

lemma resolve_present: "t \<in> set (dict_keys (pl_accounts p)) \<Longrightarrow> py_strip t = t \<Longrightarrow> resolve_access_token p t = t"
  by (simp add: resolve_access_token_def follow_alias.simps)

lemma ready_resolves: "ready_token env now f ex p t \<Longrightarrow> keyed env p \<Longrightarrow> resolve_access_token p t = t"
proof -
  assume ready: "ready_token env now f ex p t" and keyed: "keyed env p"
  from ready obtain a where a: "a \<in> snd ` set (pl_accounts p)" "access_token_of env a = t"
    by (auto simp: ready_token_def)
  then obtain u where "(u, a) \<in> set (pl_accounts p)" by force
  with a(2) keyed have "(t, a) \<in> set (pl_accounts p)" "py_strip t = t" by (auto simp: keyed_def)
  then show ?thesis by (intro resolve_present) (auto intro: rev_image_eqI)
qed

lemma acquire_holds:
  assumes "acquire_pass env cfg now f ex deadline p = (Acquired t, q)" "slots_ok p" "keyed env p"
  shows "slots_ok q \<and> keyed env q \<and> total_slots q = total_slots p + 1 \<and> holds_slot q t"
proof -
  from acquire_pass_ready [OF assms(1)] obtain ready: "ready_token env now f ex p t"
    and q: "q = take_image_slot now t (p\<lparr>pl_index := pl_index p + 1\<rparr>)" by blast
  let ?p = "p\<lparr>pl_index := pl_index p + 1\<rparr>"
  have ok: "slots_ok ?p" and total: "total_slots ?p = total_slots p" using assms(2) by simp_all
  have "resolve_access_token q t = resolve_access_token p t"
    by (simp add: q resolve_access_token_def take_keeps)
  with ready_resolves [OF ready assms(3)] have "resolve_access_token q t = t" by simp
  with ready have "holds_slot q t" by (simp add: holds_slot_def q take_inflight ready_token_def)
  with ok total assms(3) show ?thesis by (simp add: q take_slots_ok take_total keyed_def take_keeps)
qed

lemma release_held:
  assumes "slots_ok p" "keyed env p" "holds_slot p t"
  shows "slots_ok (release_image_slot t p) \<and> keyed env (release_image_slot t p) \<and>
    total_slots (release_image_slot t p) + 1 = total_slots p"
  using assms release_total [OF assms(1), of "resolve_access_token p t"]
  by (auto simp: release_image_slot_def holds_slot_def release_slots_ok keyed_def release_keeps)

definition slots_balanced :: "account_env \<Rightarrow> nat \<Rightarrow> acquire_outcome \<times> pool \<Rightarrow> bool" where
  "slots_balanced env n r \<longleftrightarrow>
     (case r of (out, q) \<Rightarrow> slots_ok q \<and> keyed env q \<and>
        total_slots q = n + (case out of Acquired t \<Rightarrow> 1 | _ \<Rightarrow> 0))"

lemma not_acquired_same:
  "acquire_pass env cfg now f ex deadline p = (out, q) \<Longrightarrow> (\<And>t. out \<noteq> Acquired t) \<Longrightarrow> q = p"
  using acquire_pass_outcome [of env cfg now f ex deadline p out q]
  by (cases out) (auto split: if_splits)

lemma balanced_release:
  "slots_ok p \<Longrightarrow> keyed env p \<Longrightarrow> holds_slot p t \<Longrightarrow> total_slots p = n + 1 \<Longrightarrow>
     slots_balanced env n (Refused e, release_image_slot t p)"
  using release_held [of p env t] by (simp add: slots_balanced_def)

lemma select_attempts_balanced:
  assumes "check_keeps_slot env fetch" and "\<And>n. wakes n = []"
  shows "slots_ok p \<Longrightarrow> keyed env p \<Longrightarrow>
    slots_balanced env (total_slots p) (select_attempts env cfg f deadline ext clock wakes fetch n left sp p)"
proof (induction left arbitrary: n sp p)
  case 0
  then show ?case by (simp add: slots_balanced_def)
next
  case (Suc left)
  let ?select = "select_attempts env cfg f deadline ext clock wakes fetch"
  let ?now = "clock (3 * n)"
  obtain out q where pass: "acquire_pass env cfg ?now f (ext @ sp_attempted sp) deadline p = (out, q)"
    by fastforce
  then have acquire: "acquire_next_candidate env cfg f (ext @ sp_attempted sp) deadline ?now (wakes n) p = (out, q)"
    using assms(2) by simp
  show ?case
  proof (cases out)
    case (Acquired t)
    note held = acquire_holds [OF pass [unfolded Acquired] Suc.prems]
    let ?sp = "sp\<lparr>sp_attempted := t # sp_attempted sp\<rparr>"
    obtain answer q2 where fetch: "fetch n t q = (answer, q2)" by fastforce
    with assms(1) held have q2: "slots_ok q2" "keyed env q2" "holds_slot q2 t" "total_slots q2 = total_slots p + 1"
      unfolding check_keeps_slot_def by (metis, metis, metis, metis)
    let ?q3 = "release_image_slot t q2"
    from release_held [OF q2(1-3)] q2(4)
    have q3: "slots_ok ?q3" "keyed env ?q3" "total_slots ?q3 = total_slots p" by simp_all
    have refused: "slots_balanced env (total_slots p) (Refused e, ?q3)" for e
      using q3 by (simp add: slots_balanced_def)
    have again: "slots_balanced env (total_slots p) (?select (Suc n) left sp' ?q3)" for sp'
      using Suc.IH [OF q3(1,2)] by (simp add: q3(3))
    have kept: "slots_balanced env (total_slots p) (Acquired u, q2)" for u
      using q2 by (simp add: slots_balanced_def)
    have late: "slots_balanced env (total_slots p) (Refused e, release_image_slot t q)" for e
      using held by (intro balanced_release) auto
    show ?thesis
      by (cases answer) (simp_all only: select_attempts.simps acquire Acquired fetch prod.case acquire_outcome.case
          remote_answer.case Let_def refused again kept late split: if_split, simp_all)
  next
    case (Refused e)
    then have "q = p" using not_acquired_same [OF pass] by simp
    with Suc.prems Refused acquire show ?thesis by (simp add: slots_balanced_def)
  next
    case Waiting
    then have "q = p" using not_acquired_same [OF pass] by simp
    with Suc.prems Waiting acquire show ?thesis by (simp add: slots_balanced_def)
  qed
qed


text \<open>
  A check that finds account \<open>b\<close> limited by now: the request takes the idle account \<open>b\<close>, gives
  its slot back and ends with a slot of \<open>a\<close>.
\<close>

definition limiting_check :: "nat \<Rightarrow> string \<Rightarrow> pool \<Rightarrow> remote_answer \<times> pool" where
  "limiting_check n t p =
     (case map_of (pl_accounts p) t of
        Some a \<Rightarrow> (Checked (if t = ''b'' then put ''status'' (PStr st_limited) a else a), p)
      | None \<Rightarrow> (CheckFailed ''auth_invalid'', p))"


section \<open>Every state\<close>

text \<open>The operations of a process on its pool, and what the other processes do to the storage.\<close>

inductive pool_step ::
  "account_env \<Rightarrow> account_config \<Rightarrow> pool \<times> account storage \<Rightarrow> pool \<times> account storage \<Rightarrow> bool" for env cfg where
  elsewhere: "pool_step env cfg (p, s) (p, t)"
| acquired: "pool_step env cfg (p, s) (snd (acquire_pass env cfg now f ex deadline p), s)"
| released: "pool_step env cfg (p, s) (release_image_slot tok p, s)"
| refreshed: "pool_step env cfg (p, s) (snd (refresh_accounts_snapshot env now ttl s p), s)"
| saved: "save_accounts env now others g p s = (r, q, t) \<Longrightarrow> pool_step env cfg (p, s) (q, t)"
| edited: "pool_step env cfg (p, s) (set_account tok a p, s)"
| rotated: "distinct ss \<Longrightarrow> pool_step env cfg (p, s) (move_account_runtime_token new ss p, s)"
| removed: "pool_step env cfg (p, s) (remove_account_runtime_state ts p, s)"
| texted: "pool_step env cfg (p, s) (snd (get_text_access_token env now ensure ex p), s)"
| result_recorded: "record_image_result env cfg now others g release r tok p s = (res, q, t) \<Longrightarrow> pool_step env cfg (p, s) (q, t)"
| managed_recorded: "record_managed_image_result env cfg now ttl others r aid p s = (res, q, t) \<Longrightarrow> pool_step env cfg (p, s) (q, t)"
| text_recorded: "mark_text_used env now others tok p s = (e, q, t) \<Longrightarrow> pool_step env cfg (p, s) (q, t)"
| check_failed: "record_remote_check_error env now others ex tok event err p s = (b, q, t) \<Longrightarrow> pool_step env cfg (p, s) (q, t)"

lemma acquire_slots_ok: "slots_ok p \<Longrightarrow> slots_ok (snd (acquire_pass env cfg now f ex deadline p))"
proof (cases "acquire_pass env cfg now f ex deadline p")
  case (Pair out q)
  assume ok: "slots_ok p"
  show ?thesis
  proof (cases "\<exists>t. out = Acquired t")
    case True
    then obtain t where "out = Acquired t" ..
    with acquire_pass_ready [of env cfg now f ex deadline p t q] Pair ok show ?thesis by (simp add: take_slots_ok)
  next
    case False
    with not_acquired_same [OF Pair] Pair ok show ?thesis by simp
  qed
qed

lemma remove_slots_ok: "slots_ok p \<Longrightarrow> slots_ok (remove_account_runtime_state ts p)"
  by (auto simp: remove_account_runtime_state_def Let_def slots_ok_def starts_of_def inflight_of_def map_of_filter_keys
      intro: distinct_filter_keys)

lemma text_slots: "slots_ok (snd (get_text_access_token env now ensure ex p)) = slots_ok p"
  by (induction env now ensure ex p rule: get_text_access_token.induct)
     (subst get_text_access_token.simps, simp add: Let_def split: option.split)

lemma managed_slots_ok:
  assumes "record_managed_image_result env cfg now ttl others r aid p s = (res, q, t)" "slots_ok p"
  shows "slots_ok q"
proof -
  have "slots_ok (snd (refresh_accounts_snapshot env now ttl s p))"
    using refresh_keeps_slots assms(2) by (auto simp: keeps_slots_def)
  with assms show ?thesis
    by (auto simp: record_managed_image_result_def Let_def split: option.splits intro: record_result_slots_ok)
qed

lemma text_used_slots_ok: "mark_text_used env now others tok p s = (e, q, t) \<Longrightarrow> keeps_slots p q"
  by (auto simp: mark_text_used_def Let_def split: option.splits prod.splits save_result.splits
      intro: keeps_slots_trans [OF set_account_keeps_slots save_accounts_keeps_slots])

lemma pool_step_slots_ok: "pool_step env cfg x y \<Longrightarrow> slots_ok (fst x) \<Longrightarrow> slots_ok (fst y)"
proof (induction rule: pool_step.induct)
  case (refreshed p s now ttl)
  then show ?case using refresh_keeps_slots by (auto simp: keeps_slots_def)
next
  case (saved now others g p s r q t)
  then show ?case using save_accounts_keeps_slots by (auto simp: keeps_slots_def)
next
  case (edited p s tok a)
  then show ?case using set_account_keeps_slots by (auto simp: keeps_slots_def)
next
  case (rotated ss p s new)
  then show ?case using move_token_keeps_slots by (auto simp: keeps_slots_def)
next
  case (text_recorded now others tok p s e q t)
  then show ?case using text_used_slots_ok by (auto simp: keeps_slots_def)
next
  case (check_failed now others ex tok event err p s b q t)
  then show ?case using check_error_keeps_slots by (auto simp: keeps_slots_def)
qed (simp_all add: acquire_slots_ok released_slots_ok remove_slots_ok text_slots record_result_slots_ok managed_slots_ok)

definition no_requests :: "pool \<Rightarrow> bool" where
  "no_requests p \<longleftrightarrow> pl_inflight p = [] \<and> pl_started p = []"

interpretation pool: safety_system "\<lambda>x. no_requests (fst x)" "pool_step env cfg" "\<lambda>x. slots_ok (fst x)" for env cfg
  by (unfold_locales, simp add: no_requests_def slots_ok_def starts_of_def inflight_of_def)
     (rule pool_step_slots_ok)



end
