(* ===== verification/Account_Results.thy ===== *)
theory Account_Results
  imports Account_Save Account_Slots
begin

text \<open>
  Accounting of results: within a process a result is recorded once per key, across processes
  the counts add up but a recorded key can be lost; round robin over the text accounts; the
  accounts the image queue sees and resolves.
\<close>

section \<open>Token aliases\<close>

definition is_present :: "pool \<Rightarrow> string \<Rightarrow> bool" where
  "is_present p t \<longleftrightarrow> t \<in> set (dict_keys (pl_accounts p))"

lemma follow_stops_empty:
  "follow_alias (\<lambda>t. t = '''' \<or> present t) aliases seen s = u \<Longrightarrow> u \<noteq> '''' \<Longrightarrow>
     follow_alias present aliases seen s = u"
proof (induction "\<lambda>t. t = '''' \<or> present t" aliases seen s rule: follow_alias.induct)
  case (1 aliases seen token)
  show ?case
  proof (cases "token = '''' \<or> present token \<or> token \<in> set seen \<or> map_of aliases token = None")
    case True
    with 1(2,3) show ?thesis
      by (subst (asm) follow_alias.simps, subst follow_alias.simps) (auto split: if_splits)
  next
    case False
    then obtain target where t: "map_of aliases token = Some target" by auto
    with 1(2) False have "follow_alias (\<lambda>t. t = '''' \<or> present t) aliases (token # seen) target = u"
      by (subst (asm) follow_alias.simps) simp
    with 1(1) [OF _ t] False 1(3) have "follow_alias present aliases (token # seen) target = u" by simp
    with False t show ?thesis by (subst follow_alias.simps) simp
  qed
qed

lemma pruned_alias:
  "map_of (pl_aliases (prune_token_aliases p)) s =
     (let u = follow_alias (is_present p) (pl_aliases p) [] s
      in if s \<in> set (dict_keys (pl_aliases p)) \<and> is_present p u \<and> u \<noteq> s then Some u else None)"
proof -
  let ?f = "follow_alias (is_present p) (pl_aliases p) []"

  have "map_of (map (\<lambda>s. (s, g s)) xs) s = (if s \<in> set xs then Some (g s) else None)" for g :: "string \<Rightarrow> string" and xs
    by (induction xs) auto
  then show ?thesis
    by (simp add: prune_token_aliases_def Let_def is_present_def [abs_def])
qed

text \<open>Pruning keeps the meaning of every alias that leads to an account.\<close>

lemma prune_keeps_resolution:
  assumes "is_present p (resolve_access_token p t)" and "resolve_access_token p t \<noteq> ''''"
  shows "resolve_access_token (prune_token_aliases p) t = resolve_access_token p t"
proof -
  let ?stop = "\<lambda>x. x = '''' \<or> is_present p x"
  let ?s = "py_strip t" and ?u = "resolve_access_token p t"
  have u: "follow_alias ?stop (pl_aliases p) [] ?s = ?u" by (simp add: resolve_access_token_def is_present_def)
  from follow_stops_empty [OF this assms(2)]
  have f: "follow_alias (is_present p) (pl_aliases p) [] ?s = ?u" .
  have pruned: "resolve_access_token (prune_token_aliases p) t =
      follow_alias ?stop (pl_aliases (prune_token_aliases p)) [] ?s"
    by (simp add: resolve_access_token_def is_present_def)
  show ?thesis
  proof (cases "?stop ?s")
    case True
    with u pruned show ?thesis by (simp add: follow_alias.simps [of ?stop])
  next
    case False
    with u assms(1) obtain v where v: "map_of (pl_aliases p) ?s = Some v"
      by (subst (asm) follow_alias.simps) (auto split: option.splits)
    have "?u \<noteq> ?s" using False assms(1) by metis
    moreover have "?s \<in> set (dict_keys (pl_aliases p))" using map_of_SomeD [OF v] by force
    ultimately have "map_of (pl_aliases (prune_token_aliases p)) ?s = Some ?u"
      using assms(1) by (simp add: pruned_alias f)
    with False assms(1) pruned show ?thesis
      by (simp add: follow_alias.simps [of ?stop _ "[]"] follow_alias.simps [of ?stop _ "[_]"])
  qed
qed

section \<open>A process on its own\<close>

lemma normalize_error: "normalize_mutation key m = Inl e \<Longrightarrow> e = InvalidItems"
  by (auto simp: normalize_mutation_def normalize_items_def Let_def split: sum.splits if_splits)

lemma conflict_outdated:
  "mutate_items key m s = Inl (RevisionConflict e a) \<Longrightarrow> mu_expected m = Some r \<Longrightarrow> r \<noteq> st_version s"
  using normalize_error [of key m]
  by (auto simp: mutate_items_def check_revision_def split: sum.splits option.splits if_splits)

text \<open>Without other writers a save is done at the first attempt or never.\<close>

lemma save_alone:
  assumes "save_accounts env now (\<lambda>i s. s) g p s = (Saved, q, t)" and "st_version s = pl_revision p"
  shows "pl_accounts q = pl_accounts p \<and> pl_aliases q = pl_aliases (prune_token_aliases p)"
proof -
  let ?m = "mutation_between (pl_persisted p) (pl_accounts p) (pl_revision p)"
  obtain n where "storage_mutation_max_attempts = Suc n" by (simp add: storage_mutation_max_attempts_def)
  with assms(1) have run: "save_attempts env now (\<lambda>i s. s) g 0 (Suc n) p s = (Saved, q, t)"
    by (simp only: save_accounts_def)
  show ?thesis
  proof (cases "mu_upserts ?m = [] \<and> mu_delete_keys ?m = []")
    case True
    with run show ?thesis by (auto simp: Let_def)
  next
    case False
    show ?thesis
    proof (cases "mutate_items (account_key env) ?m s")
      case (Inl e)
      have "mu_expected ?m = Some (st_version s)" by (simp add: mutation_between_def assms(2))
      with Inl conflict_outdated have "e = InvalidItems" by (cases e) blast+
      with run False Inl show ?thesis by (simp add: Let_def)
    next
      case (Inr res)
      with run False have "q = prune_token_aliases (p\<lparr>pl_persisted := pl_accounts p, pl_revision := mr_revision (fst res),
          pl_checked_at := now\<rparr>)" by (cases res) (simp add: Let_def)
      then show ?thesis by (simp add: prune_token_aliases_def Let_def)
    qed
  qed
qed

lemma set_account_resolves:
  assumes "is_present p token"
  shows "resolve_access_token (set_account token a p) = resolve_access_token p"
proof -
  have "set (dict_keys (dict_set token a (pl_accounts p))) = set (dict_keys (pl_accounts p))"
    unfolding dict_set_keys using assms by (simp add: is_present_def insert_absorb)
  then show ?thesis by (simp add: resolve_access_token_def set_account_def fun_eq_iff)
qed

lemma save_and_read_alone:
  assumes "save_and_read env now (\<lambda>i s. s) g token (set_account token a p) s = (Inr (Some (u, b)), q, t)"
    and "st_version s = pl_revision p" and "is_present p token" "py_strip token = token"
  shows "u = token \<and> b = a \<and> map_of (pl_accounts q) token = Some a \<and>
    (\<forall>x. resolve_access_token p x = token \<and> token \<noteq> '''' \<longrightarrow> resolve_access_token q x = token)"
proof -
  let ?p = "set_account token a p"
  obtain save: "save_accounts env now (\<lambda>i s. s) g ?p s = (Saved, q, t)" and u: "resolve_access_token q token = u"
      "map_of (pl_accounts q) u = Some b"
    using assms(1) by (auto simp: save_and_read_def Let_def split: prod.splits save_result.splits option.splits)
  have q: "pl_accounts q = pl_accounts ?p" "pl_aliases q = pl_aliases (prune_token_aliases ?p)"
    using save_alone [OF save] assms(2) by (simp_all add: set_account_def)
  have resolve: "resolve_access_token q x = resolve_access_token (prune_token_aliases ?p) x" for x
    by (simp add: resolve_access_token_def q)
  have present: "is_present ?p token"
    using dict_set_keys [of token a "pl_accounts p"] by (simp only: is_present_def set_account_def pool.simps) simp
  have "resolve_access_token p token = token"
    using assms(3,4) by (simp add: resolve_access_token_def is_present_def follow_alias.simps)
  moreover have later: "resolve_access_token q x = token" if "resolve_access_token p x = token" "token \<noteq> ''''" for x
    using prune_keeps_resolution [of ?p x] that present by (simp add: resolve set_account_resolves [OF assms(3)])
  moreover have "resolve_access_token q token = token"
    by (rule resolve_present [OF _ assms(4)]) (use present q(1) in \<open>simp only: is_present_def\<close>)
  moreover have "map_of (pl_accounts q) token = Some a" by (simp add: q(1) set_account_def map_of_dict_set)
  ultimately show ?thesis using u by auto
qed

section \<open>Results are recorded once\<close>

lemma length_dedup_first: "length (dedup_first xs) \<le> length xs"
  unfolding dedup_first_def by (metis length_remdups_leq length_rev)

lemma stripped_plain_key:
  assumes "py_strip k \<noteq> ''''" "length (py_strip k) \<le> result_key_max_length"
  shows "plain_key (take result_key_max_length (py_strip k))" "take result_key_max_length (py_strip k) = py_strip k"
  using assms by (simp_all add: plain_key_def)

lemma plain_key_kept:
  assumes "plain_key key" "key \<in> set ks" "length ks \<le> result_key_limit"
  shows "key \<in> set (normalize_result_keys env (PList (map PStr ks)))"
proof -
  let ?d = "dedup_first (filter (\<lambda>k. k \<noteq> '''') (map (result_key_text env) (map PStr ks)))"
  have same: "result_key_text env (PStr key) = key" using assms(1) by (simp add: plain_key_def result_key_text_def text_of_str)
  have "length ?d \<le> length (filter (\<lambda>k. k \<noteq> '''') (map (result_key_text env) (map PStr ks)))"
    by (rule length_dedup_first)
  also have "\<dots> \<le> length ks" by (metis length_filter_le length_map)
  finally have "length ?d \<le> result_key_limit" using assms(3) by simp
  moreover have "key \<in> set ?d" using same assms(1,2) by (force simp: plain_key_def)
  ultimately show ?thesis by (simp add: normalize_result_keys_def take_last_id)
qed

definition recorded_key :: "account_env \<Rightarrow> string \<Rightarrow> account \<Rightarrow> bool" where
  "recorded_key env key a \<longleftrightarrow> key \<in> set (normalize_result_keys env (field a result_keys_field))"

lemma recorded_result_is_kept:
  assumes "map_of (pl_accounts p) (resolve_access_token p tok) = Some a" "tok \<noteq> ''''"
    and "take result_key_max_length (py_strip (ir_key r)) \<noteq> ''''"
    and "recorded_key env (take result_key_max_length (py_strip (ir_key r))) a"
  shows "record_image_result env cfg now others g False r tok p s = (Inr (Some a), p, s)"
  using assms by (simp add: record_image_result_def Let_def recorded_key_def)

lemma result_account_key:
  assumes "normalize_account env (account_after_result env cfg now r recorded key current) = Some a"
    and "plain_key key"
  shows "recorded_key env key a"
proof -
  let ?v = "PList (map PStr (take_last result_key_limit (recorded @ [key])))"
  have field: "fmlookup (account_after_result env cfg now r recorded key current) result_keys_field = Some ?v"
    using assms(2) by (simp add: account_after_result_def Let_def plain_key_def result_keys_field_def consume_quota_def
        mark_remote_check_pending_def puts_def lookups)
  then have "fmlookup a result_keys_field = Some (PList (map PStr (normalize_result_keys env ?v)))"
    using normalized_result_keys [OF assms(1)] by (simp add: result_keys_field_def)
  moreover have "key \<in> set (take_last result_key_limit (recorded @ [key]))"
    by (simp add: take_last_def result_key_limit_def)
  then have "key \<in> set (normalize_result_keys env ?v)"
    by (rule plain_key_kept [OF assms(2) _ length_take_last])
  then have "key \<in> set (normalize_result_keys env (PList (map PStr (normalize_result_keys env ?v))))"
    by (rule plain_key_kept [OF assms(2)]) (simp add: normalize_result_keys_distinct)
  ultimately show ?thesis by (simp add: recorded_key_def field_def)
qed

lemma release_revision: "pl_revision (release_slot_locked t p) = pl_revision p"
  by (simp add: release_slot_locked_def pop_image_slot_start_def Let_def split: option.split)

text \<open>What the first record of a result leaves: the account with the key, found under the same name.\<close>

lemma first_record:
  assumes "record_image_result env cfg now (\<lambda>i s. s) g release r tok p s = (Inr (Some b), q, t)"
    and "st_version s = pl_revision p" "well_keyed (pl_accounts p)" "ir_success r"
    and key: "py_strip (ir_key r) \<noteq> ''''" "length (py_strip (ir_key r)) \<le> result_key_max_length"
  shows "tok \<noteq> '''' \<and> map_of (pl_accounts q) (resolve_access_token q tok) = Some b \<and> recorded_key env (py_strip (ir_key r)) b"
proof -
  let ?token = "resolve_access_token p tok" and ?key = "py_strip (ir_key r)"
  let ?p = "if release then release_slot_locked ?token p else p"
  have tok: "tok \<noteq> ''''" using assms(1) by (auto simp: record_image_result_def)
  have p: "pl_accounts ?p = pl_accounts p" "pl_aliases ?p = pl_aliases p" "pl_revision ?p = pl_revision p"
    by (simp_all add: release_keeps release_revision)
  have resolve: "resolve_access_token ?p = resolve_access_token p"
    by (simp add: resolve_access_token_def p fun_eq_iff)
  note run = assms(1) [unfolded record_image_result_def Let_def if_not_P [OF tok] stripped_plain_key(2) [OF key]]
  from run obtain current where current: "map_of (pl_accounts ?p) ?token = Some current"
    by (cases "map_of (pl_accounts ?p) ?token") auto
  have token: "?token \<noteq> ''''" "py_strip ?token = ?token" "is_present ?p ?token"
    using well_keyed_account [OF assms(3)] current p(1) by (auto simp: is_present_def mem_keys)
  show ?thesis
  proof (cases "recorded_key env ?key current")
    case True
    with run current key(1) have "b = current" "q = ?p" by (auto simp: recorded_key_def)
    with tok True current resolve show ?thesis by simp
  next
    case False
    let ?recorded = "normalize_result_keys env (field current result_keys_field)"
    from run current False obtain a u where
      a: "normalize_account env (account_after_result env cfg now r ?recorded ?key current) = Some a"
      and save: "save_and_read env now (\<lambda>i s. s) g ?token (set_account ?token a ?p) s = (Inr (Some (u, b)), q, t)"
      using assms(4)
      by (auto simp: recorded_key_def split: option.splits if_splits prod.splits sum.splits)
    from save_and_read_alone [OF save _ token(3,2)] assms(2) p(3)
    have "b = a" "map_of (pl_accounts q) ?token = Some a" "resolve_access_token q tok = ?token"
      using resolve token(1) by auto
    with tok result_account_key [OF a stripped_plain_key(1) [OF key, unfolded stripped_plain_key(2) [OF key]]]
    show ?thesis by simp
  qed
qed


lemma view_mutation_ok:
  assumes "well_keyed desired" "well_keyed baseline"
  shows "mutation_ok (account_key env) (mutation_between baseline desired r)"
proof -
  let ?ups = "map snd (filter (\<lambda>(k, v). map_of baseline k \<noteq> Some v) desired)"
  let ?del = "filter (\<lambda>k. map_of desired k = None) (dict_keys baseline)"
  have key: "account_key env v = k" if "(k, v) \<in> set desired" for k v
    using assms(1) that by (auto simp: well_keyed_def token_key)
  have keys: "map (account_key env) ?ups = map fst (filter (\<lambda>(k, v). map_of baseline k \<noteq> Some v) desired)"
    using key by auto
  have "distinct (map (account_key env) ?ups)"
    unfolding keys using assms(1) by (simp add: well_keyed_def distinct_filter_keys)
  moreover have "\<forall>v \<in> set ?ups. account_key env v \<noteq> ''''"
    using key assms(1) by (auto simp: well_keyed_def)
  moreover have strip: "py_strip k = k \<and> k \<noteq> ''''" if "k \<in> set ?del" for k
    using assms(2) that by (auto simp: well_keyed_def)
  then have del: "py_strip ` set ?del = set ?del" by (intro image_cong [THEN trans, OF refl _ image_ident]) simp
  moreover have "'''' \<notin> set ?del" using strip by blast
  moreover have "account_key env ` set ?ups \<inter> set ?del = {}"
  proof -
    have "account_key env v \<in> fst ` set desired" if "v \<in> set ?ups" for v
      using that key by force
    moreover have "k \<notin> fst ` set desired" if "k \<in> set ?del" for k
      using that by (simp add: map_of_eq_None_iff)
    ultimately show ?thesis by blast
  qed
  ultimately have "normalize_mutation (account_key env) (mutation_between baseline desired r) =
      Inr (?ups, dedup_first (map py_strip ?del))"
    unfolding normalize_mutation_def normalize_items_def mutation_between_def mutation.select_convs Let_def
    by (simp only: set_dedup_first list.set_map sum.case if_False simp_thms bex_simps) auto
  then show ?thesis unfolding mutation_ok_def by blast
qed

text \<open>Without other writers a save succeeds at the first attempt.\<close>

lemma save_alone_succeeds:
  assumes "clean env now s" "pl_persisted p = st_items s" "pl_revision p = st_version s" "well_keyed (pl_accounts p)"
  shows "\<exists>q t. save_accounts env now (\<lambda>i s. s) g p s = (Saved, q, t)"
proof -
  let ?m = "mutation_between (pl_persisted p) (pl_accounts p) (pl_revision p)"
  have persisted: "well_keyed (pl_persisted p)" using assms(1,2) by (simp add: clean_def)
  have "mutation_ok (account_key env) ?m" by (rule view_mutation_ok [OF assms(4) persisted])
  moreover have "mu_expected ?m = Some (st_version s)" by (simp add: mutation_between_def assms(3))
  ultimately obtain res t where m: "mutate_items (account_key env) ?m s = Inr (res, t)"
    using db.accepted [OF clean_storage_ok [OF assms(1)]] by blast
  obtain n where "storage_mutation_max_attempts = Suc n" by (simp add: storage_mutation_max_attempts_def)
  then have "save_accounts env now (\<lambda>i s. s) g p s = save_attempts env now (\<lambda>i s. s) g 0 (Suc n) p s"
    by (simp only: save_accounts_def)
  with m show ?thesis by (cases "mu_upserts ?m = [] \<and> mu_delete_keys ?m = []") (auto simp: Let_def)
qed

lemma save_and_read_alone_succeeds:
  assumes "clean env now s" "pl_persisted p = st_items s" "pl_revision p = st_version s"
    and "well_keyed (pl_accounts p)" "is_present p token" "fmlookup a ''access_token'' = Some (PStr token)"
  shows "\<exists>q t. save_and_read env now (\<lambda>i s. s) g token (set_account token a p) s = (Inr (Some (token, a)), q, t)"
proof -
  let ?p = "set_account token a p"
  from assms(4,5) have token: "py_strip token = token" "token \<noteq> ''''"
    by (auto simp: is_present_def well_keyed_def)
  have keyed: "well_keyed (pl_accounts ?p)"
    using well_keyed_set [OF assms(4,6) token(2,1)] by (simp add: set_account_def)
  obtain q t where save: "save_accounts env now (\<lambda>i s. s) g ?p s = (Saved, q, t)"
    using save_alone_succeeds [OF assms(1) _ _ keyed, of g] assms(2,3) by (auto simp: set_account_def)
  have q: "pl_accounts q = dict_set token a (pl_accounts p)"
    using save_alone [OF save] assms(3) by (simp add: set_account_def)
  have "resolve_access_token q token = token"
    using dict_set_keys [of token a "pl_accounts p"]
    by (intro resolve_present token(1)) (simp only: q insertI1)
  with save q show ?thesis by (simp add: save_and_read_def map_of_dict_set)
qed

lemma stored_account_no_keys: "field (stored_account n) ''managed_image_result_idempotency_keys'' = PNone"
proof -
  let ?i = "fmap_of_list [(''access_token'', PStr ''tok''), (''status'', PStr st_normal), (''quota'', PInt 5), (''success'', PInt n)]"
  have "normalize_account sample_env ?i = Some (stored_account n)"
    by (simp add: stored_account_def) (simp add: normalize_account_def Let_def field_def por_def)
  from normalized_result_keys [OF this] show ?thesis by (simp add: field_def)
qed

lemma normalize_account_total:
  assumes "fmlookup x ''access_token'' = Some (PStr t)" "t \<noteq> ''''"
  shows "\<exists>a. normalize_account env x = Some a \<and> fmlookup a ''access_token'' = Some (PStr t)"
proof -
  have token: "field x ''access_token'' = PStr t" "truthy (PStr t)" using assms by (simp_all add: field_def)
  then obtain a where a: "normalize_account env x = Some a" by (simp add: normalize_account_def Let_def por_def)
  from normalized_token [OF a] token a show ?thesis by (simp add: por_def)
qed

lemma new_result_is_saved:
  assumes "tok \<noteq> ''''" "take result_key_max_length (py_strip (ir_key r)) = key" "key \<noteq> ''''" "ir_success r"
    and "map_of (pl_accounts p) (resolve_access_token p tok) = Some current" "\<not> recorded_key env key current"
    and "normalize_account env (account_after_result env cfg now r
      (normalize_result_keys env (field current result_keys_field)) key current) = Some a"
    and "save_and_read env now others None (resolve_access_token p tok) (set_account (resolve_access_token p tok) a p) s =
      (Inr (Some (u, b)), q, t)"
  shows "record_image_result env cfg now others None False r tok p s = (Inr (Some b), q, t)"
  using assms by (simp add: record_image_result_def Let_def recorded_key_def)

definition resting_pool :: pool where
  "resting_pool = counting_pool\<lparr>pl_accounts := [(''tok'', stored_account 3)]\<rparr>"

definition good_result :: image_result where
  "good_result = \<lparr>ir_success = True, ir_verify_account = False, ir_quota_consumed = None, ir_key = ''job-1''\<rparr>"

lemma good_result_recorded:
  "\<exists>b q t. record_image_result sample_env two_slots 100 (\<lambda>i s. s) None False good_result ''tok'' resting_pool (stored_state 3 4) =
     (Inr (Some b), q, t)"
proof -
  let ?a = "account_after_result sample_env two_slots 100 good_result
    (normalize_result_keys sample_env (field (stored_account 3) result_keys_field)) ''job-1'' (stored_account 3)"
  have strip: "py_strip ''tok'' = ''tok''" "py_strip ''job-1'' = ''job-1''" by code_simp+
  have present: "is_present resting_pool ''tok''" by (simp add: is_present_def resting_pool_def)
  have resolve: "resolve_access_token resting_pool ''tok'' = ''tok''"
    by (intro resolve_present strip) (simp add: resting_pool_def)
  have fresh: "''job-1'' \<notin> set (normalize_result_keys sample_env (field (stored_account 3) result_keys_field))"
    by (simp add: result_keys_field_def stored_account_no_keys normalize_result_keys_def)
  have token: "fmlookup ?a ''access_token'' = Some (PStr ''tok'')"
    by (simp add: account_after_result_def Let_def good_result_def consume_quota_def puts_def lookups result_keys_field_def
        stored_account_fields)
  then obtain a where a: "normalize_account sample_env ?a = Some a" "fmlookup a ''access_token'' = Some (PStr ''tok'')"
    using normalize_account_total by blast
  have "well_keyed (pl_accounts resting_pool)" "pl_persisted resting_pool = st_items (stored_state 3 4)"
    "pl_revision resting_pool = st_version (stored_state 3 4)"
    using stored_state_clean [of 0 3 4] by (simp_all add: clean_def stored_state_def resting_pool_def counting_pool_def)
  from save_and_read_alone_succeeds [OF stored_state_clean this(2,3,1) present a(2)] obtain q t where
    "save_and_read sample_env 100 (\<lambda>i s. s) None ''tok'' (set_account ''tok'' a resting_pool) (stored_state 3 4) =
      (Inr (Some (''tok'', a)), q, t)" by blast
  then have save: "save_and_read sample_env 100 (\<lambda>i s. s) None (resolve_access_token resting_pool ''tok'')
      (set_account (resolve_access_token resting_pool ''tok'') a resting_pool) (stored_state 3 4) =
      (Inr (Some (''tok'', a)), q, t)" by (simp only: resolve)
  have "take result_key_max_length (py_strip (ir_key good_result)) = ''job-1''"
    by (simp add: good_result_def strip(2) result_key_max_length_def)
  moreover have "map_of (pl_accounts resting_pool) (resolve_access_token resting_pool ''tok'') = Some (stored_account 3)"
    by (simp only: resolve) (simp add: resting_pool_def)
  ultimately have "record_image_result sample_env two_slots 100 (\<lambda>i s. s) None False good_result ''tok'' resting_pool
      (stored_state 3 4) = (Inr (Some a), q, t)"
    using new_result_is_saved [OF _ _ _ _ _ _ a(1) save] fresh by (simp add: recorded_key_def good_result_def)
  then show ?thesis by blast
qed


section \<open>Results of two processes\<close>

lemma result_account_fields:
  assumes "normalize_account env (account_after_result env cfg now r recorded key current) = Some a"
    and "plain_key key" "key \<notin> set recorded" "\<forall>k \<in> set recorded. plain_key k" "distinct recorded"
    and "ir_success r" "fmlookup current ''success'' = Some (PInt x)" "0 \<le> x"
  shows "fmlookup a result_keys_field = Some (PList (map PStr (take_last result_key_limit (recorded @ [key]))))"
    and "fmlookup a ''success'' = Some (PInt (x + 1))"
proof -
  let ?L = "take_last result_key_limit (recorded @ [key])"
  let ?b = "account_after_result env cfg now r recorded key current"
  have look: "fmlookup ?b result_keys_field = Some (PList (map PStr ?L))" "fmlookup ?b ''success'' = Some (PInt (x + 1))"
    using assms(2,6-8) by (simp_all add: account_after_result_def Let_def plain_key_def result_keys_field_def consume_quota_def
        puts_def lookups field_def field_put count_of_def)
  have "set ?L \<subseteq> insert key (set recorded)" using set_take_last [of result_key_limit "recorded @ [key]"] by auto
  with assms(2,4) have "\<forall>k \<in> set ?L. plain_key k" by auto
  moreover have "distinct ?L" using assms(3,5) by (intro distinct_take_last) simp
  ultimately have "normalize_result_keys env (PList (map PStr ?L)) = ?L"
    by (rule normalize_plain_keys) (rule length_take_last)
  with normalized_result_keys [OF assms(1)] look(1)
  show "fmlookup a result_keys_field = Some (PList (map PStr ?L))" by (simp add: result_keys_field_def)
  show "fmlookup a ''success'' = Some (PInt (x + 1))"
    using normalized_count [OF assms(1), of "''success''"] look(2) assms(8)
    by (simp add: field_def quota_value_def)
qed

text \<open>
  Property C27. What the merge loses: when two processes record the successful results of two
  jobs on the same account at the same time, the merged account counts both results but keeps
  only the key recorded here; the key of the other result is gone, so a repeated report of that
  job is counted a second time.
\<close>

theorem concurrent_results_lose_key:
  assumes "recorded = normalize_result_keys env (field b result_keys_field)"
    and "normalize_account env (account_after_result env cfg n1 r1 recorded k1 b) = Some l"
    and "normalize_account env (account_after_result env cfg n2 r2 recorded k2 b) = Some r"
    and "ir_success r1" "ir_success r2" and "fmlookup b ''success'' = Some (PInt x)" "0 \<le> x"
    and "plain_key k1" "plain_key k2" "k1 \<noteq> k2" "k1 \<notin> set recorded" "k2 \<notin> set recorded" "\<forall>k \<in> set recorded. plain_key k"
  shows "fmlookup (merge_account_fields env b l r) ''success'' = Some (PInt (x + 2)) \<and>
    recorded_key env k1 (merge_account_fields env b l r) \<and> \<not> recorded_key env k2 (merge_account_fields env b l r)"
proof -
  let ?m = "merge_account_fields env b l r" and ?L = "take_last result_key_limit (recorded @ [k1])"
  have distinct: "distinct recorded" unfolding assms(1) by (simp add: normalize_result_keys_distinct)
  note l = result_account_fields [OF assms(2,8,11,13) distinct assms(4,6,7)]
  note r = result_account_fields [OF assms(3,9,12,13) distinct assms(5,6,7)]
  have "recorded_key env k1 l" by (rule result_account_key [OF assms(2,8)])
  moreover have "\<not> recorded_key env k1 b" using assms(1,11) by (simp add: recorded_key_def)
  ultimately have "field_changed b l result_keys_field"
    unfolding recorded_key_def field_changed_def field_def by metis
  moreover have "result_keys_field \<notin> set additive_account_counters" "result_keys_field \<noteq> ''quota''"
    by (simp_all add: result_keys_field_def additive_account_counters_def)
  ultimately have keys: "fmlookup ?m result_keys_field = Some (PList (map PStr ?L))"
    by (simp add: lookup_merge_account_fields merged_value_plain l(1))
  have L: "normalize_result_keys env (PList (map PStr ?L)) = ?L"
  proof (rule normalize_plain_keys)
    show "\<forall>k \<in> set ?L. plain_key k"
      using set_take_last [of result_key_limit "recorded @ [k1]"] assms(8,13) by auto
    show "distinct ?L" using distinct assms(11) by (intro distinct_take_last) simp
  qed (rule length_take_last)
  have "k1 \<in> set ?L" by (simp add: take_last_def result_key_limit_def)
  moreover have "k2 \<notin> set ?L"
    using set_take_last [of result_key_limit "recorded @ [k1]"] assms(10,12) by auto
  moreover have "fmlookup ?m ''success'' = Some (PInt (max 0 (x + 1 + (x + 1) - x)))"
    using assms(7) by (intro merged_counter [OF _ assms(6) l(2) r(2)]) (simp_all add: additive_account_counters_def)
  ultimately show ?thesis using keys L assms(7) by (simp add: recorded_key_def field_def)
qed

theorem concurrent_results_lose_key_witness:
  "\<exists>l r. fmlookup (merge_account_fields sample_env (stored_account 3) l r) ''success'' = Some (PInt 5) \<and>
     recorded_key sample_env ''job-1'' (merge_account_fields sample_env (stored_account 3) l r) \<and>
     \<not> recorded_key sample_env ''job-2'' (merge_account_fields sample_env (stored_account 3) l r)"
proof -
  let ?b = "stored_account 3"
  let ?after = "\<lambda>key. account_after_result sample_env two_slots 100 good_result [] key ?b"
  have none: "[] = normalize_result_keys sample_env (field ?b result_keys_field)"
    by (simp add: result_keys_field_def stored_account_no_keys normalize_result_keys_def)
  have token: "fmlookup (?after key) ''access_token'' = Some (PStr ''tok'')" for key
    by (simp add: account_after_result_def Let_def good_result_def consume_quota_def puts_def lookups result_keys_field_def
        stored_account_fields)
  obtain l r where lr: "normalize_account sample_env (?after ''job-1'') = Some l" "normalize_account sample_env (?after ''job-2'') = Some r"
    using normalize_account_total [OF token] by blast
  have plain: "plain_key ''job-1''" "plain_key ''job-2''"
    unfolding plain_key_def result_key_max_length_def by code_simp+
  have good: "ir_success good_result" "fmlookup ?b ''success'' = Some (PInt 3)"
    by (simp_all add: good_result_def stored_account_fields)
  from concurrent_results_lose_key [OF none lr good(1,1,2) _ plain] show ?thesis by auto
qed

section \<open>Round robin over the text accounts\<close>

lemma text_token_outcome:
  "get_text_access_token env now ensure attempted p = (tok, q) \<Longrightarrow>
    (if \<forall>t \<in> set (text_candidates env now attempted p). ensure t = None then tok = ''''
     else \<exists>t \<in> set (text_candidates env now attempted p). ensure t = Some tok) \<and>
    pl_index q \<le> pl_index p + length (text_candidates env now attempted p)"
proof (induction env now ensure attempted p arbitrary: tok q rule: get_text_access_token.induct)
  case (1 env now ensure attempted p)
  let ?cs = "text_candidates env now attempted p"
  let ?t = "?cs ! (pl_index p mod length ?cs)" and ?p = "p\<lparr>pl_index := pl_index p + 1\<rparr>"
  show ?case
  proof (cases "?cs = []")
    case True
    with 1(2) show ?thesis by (subst (asm) get_text_access_token.simps) simp
  next
    case False
    then have t: "?t \<in> set ?cs" by simp
    show ?thesis
    proof (cases "ensure ?t")
      case (Some u)
      with 1(2) False have "tok = u" "q = ?p" by (subst (asm) get_text_access_token.simps; simp add: Let_def)+
      moreover have "Suc 0 \<le> length ?cs" using False by (simp add: Suc_le_eq)
      moreover have "\<not> (\<forall>t \<in> set ?cs. ensure t = None)" using t Some by (metis option.distinct(1))
      moreover have "\<exists>t \<in> set ?cs. ensure t = Some u" by (intro bexI [of _ ?t] Some t)
      ultimately show ?thesis by (simp only: if_False simp_thms) simp
    next
      case None
      with 1(2) False have "get_text_access_token env now ensure (?t # attempted) ?p = (tok, q)"
        by (subst (asm) get_text_access_token.simps) (simp add: Let_def)
      note rest = 1(1) [OF refl False refl refl None this]
      have cs: "text_candidates env now (?t # attempted) ?p = filter (\<lambda>u. u \<noteq> ?t) ?cs"
        by (rule text_candidates_excluded)
      have "length (filter (\<lambda>u. u \<noteq> ?t) ?cs) < length ?cs" using t by (intro length_filter_less) auto
      with rest None show ?thesis unfolding cs by (auto split: if_splits)
    qed
  qed
qed

text \<open>
  The choice of an account for text is a complete round robin: a request that
  finds usable credentials anywhere gets some, a request gets no token only after every
  candidate account has been tried and has none, and at most one step of the shared index is
  taken per candidate, so it always ends.
\<close>

theorem text_token_found_if_any:
  assumes "get_text_access_token env now ensure [] p = (tok, q)" and "\<forall>t. ensure t \<noteq> Some ''''"
  shows "(tok = '''' \<longleftrightarrow> (\<forall>t \<in> set (text_candidates env now [] p). ensure t = None)) \<and>
    (tok \<noteq> '''' \<longrightarrow> (\<exists>t \<in> set (text_candidates env now [] p). ensure t = Some tok)) \<and>
    pl_index q \<le> pl_index p + length (text_candidates env now [] p)"
  using text_token_outcome [OF assms(1)] assms(2) by (auto split: if_splits)

theorem text_token_found_if_any_witness:
  "\<exists>q. get_text_access_token sample_env 50 (\<lambda>t. if t = ''b'' then Some ''b2'' else None) [] two_accounts = (''b2'', q) \<and>
     (\<exists>t \<in> set (text_candidates sample_env 50 [] two_accounts). t = ''b'') \<and> pl_index q \<le> 2"
proof -
  let ?e = "\<lambda>t. if t = ''b'' then Some ''b2'' else None"
  let ?r = "get_text_access_token sample_env 50 ?e [] two_accounts"
  have out: "fst ?r = ''b2''" "length (text_candidates sample_env 50 [] two_accounts) = 2" "pl_index two_accounts = 0"
    by code_simp+
  then have r: "?r = (''b2'', snd ?r)" by (metis prod.collapse)
  have "\<forall>t. ?e t \<noteq> Some ''''" by simp
  from text_token_found_if_any [OF r this] out r show ?thesis
    by (intro exI [of _ "snd ?r"]) (auto split: if_splits)
qed

end
