(* ===== verification/Task_Runner.thy ===== *)
theory Task_Runner
  imports Py_Prelude
begin

text \<open>
  The bounded task runner (\<open>services/bounded_task_runner.py\<close>): admission by reservation, a
  queue per generation, and worker threads. Every block under the lock of the runner, every
  queue access and every callback is one atomic step; a task stands for its callback, its
  arguments and its \<open>on_cancel\<close> handler.
\<close>

section \<open>State\<close>

type_synonym task = nat

datatype reservation_state = Reserved | Committed | RolledBack | CanceledReservation

datatype run_mode = RunRunning | RunDraining | RunCancelled

record run_state =
  rs_queue :: "task list"
  rs_mode :: run_mode
  rs_started :: bool

text \<open>
  Where a worker thread is: waiting for a worker slot, about to read the queue, after a read
  that timed out, with a task it has read, in a callback, or gone.
\<close>

datatype worker_phase = WaitSlot | Polling | SawEmpty | Took task | InCallback task | Exited

record worker_thread =
  wt_run :: nat
  wt_phase :: worker_phase

record ticket =
  tk_run :: nat
  tk_state :: reservation_state

text \<open>What the callers see: a task admitted to the queue, its callback called, its cancel handler called.\<close>

datatype runner_event = Admitted task | Called task | CancelCalled task

text \<open>
  Run \<open>k\<close> of \<open>rn_runs\<close> is generation \<open>k + 1\<close>, the last one is the current one; reservations
  are indices into \<open>rn_tickets\<close>.
\<close>

record runner =
  rn_max_workers :: nat
  rn_queue_size :: nat
  rn_runs :: "run_state list"
  rn_tickets :: "ticket list"
  rn_reservations :: "nat list"
  rn_workers :: "worker_thread list"
  rn_accepted :: int
  rn_active :: int
  rn_closed :: bool
  rn_events :: "runner_event list"

definition runner_capacity :: "runner \<Rightarrow> nat" where
  "runner_capacity r = rn_max_workers r + rn_queue_size r"

definition fresh_run :: run_state where
  "fresh_run = \<lparr>rs_queue = [], rs_mode = RunRunning, rs_started = False\<rparr>"

definition new_runner :: "int \<Rightarrow> int \<Rightarrow> runner" where
  "new_runner max_workers queue_size =
     \<lparr>rn_max_workers = nat (max 1 max_workers), rn_queue_size = nat (max 1 queue_size), rn_runs = [fresh_run],
      rn_tickets = [], rn_reservations = [], rn_workers = [], rn_accepted = 0, rn_active = 0,
      rn_closed = False, rn_events = []\<rparr>"

definition current_run :: "runner \<Rightarrow> nat" where
  "current_run r = length (rn_runs r) - 1"

definition run_of :: "runner \<Rightarrow> nat \<Rightarrow> run_state" where
  "run_of r k = (if k < length (rn_runs r) then rn_runs r ! k else fresh_run)"

definition current_mode :: "runner \<Rightarrow> run_mode" where
  "current_mode r = rs_mode (run_of r (current_run r))"

definition set_run :: "nat \<Rightarrow> run_state \<Rightarrow> runner \<Rightarrow> runner" where
  "set_run k s r = r\<lparr>rn_runs := (rn_runs r)[k := s]\<rparr>"

section \<open>Starting and closing\<close>

text \<open>\<open>_start_locked\<close>: the threads of a run are started once.\<close>

definition start_locked :: "nat \<Rightarrow> runner \<Rightarrow> runner" where
  "start_locked k r =
     (if rs_started (run_of r k) then r
      else set_run k ((run_of r k)\<lparr>rs_started := True\<rparr>)
             (r\<lparr>rn_workers := rn_workers r @ replicate (rn_max_workers r) \<lparr>wt_run = k, wt_phase = WaitSlot\<rparr>\<rparr>))"

definition open_new_run :: "runner \<Rightarrow> runner" where
  "open_new_run r = r\<lparr>rn_runs := rn_runs r @ [fresh_run], rn_closed := False\<rparr>"

definition start :: "runner \<Rightarrow> runner" where
  "start r =
     (let r = (if rn_closed r \<or> current_mode r \<noteq> RunRunning then open_new_run r else r)
      in start_locked (current_run r) r)"

definition set_ticket :: "nat \<Rightarrow> reservation_state \<Rightarrow> runner \<Rightarrow> runner" where
  "set_ticket i st r = r\<lparr>rn_tickets := (rn_tickets r)[i := (rn_tickets r ! i)\<lparr>tk_state := st\<rparr>]\<rparr>"

definition cancel_reservation_locked :: "nat \<Rightarrow> runner \<Rightarrow> runner" where
  "cancel_reservation_locked i r =
     (let r = r\<lparr>rn_reservations := filter (\<lambda>j. j \<noteq> i) (rn_reservations r)\<rparr>
      in if tk_state (rn_tickets r ! i) = Reserved
         then set_ticket i CanceledReservation (r\<lparr>rn_accepted := rn_accepted r - 1\<rparr>)
         else r)"

definition closing_mode :: "bool \<Rightarrow> run_mode \<Rightarrow> run_mode" where
  "closing_mode wait m = (if \<not> wait then RunCancelled else if m = RunRunning then RunDraining else m)"

definition notify_cancelled :: "task list \<Rightarrow> runner \<Rightarrow> runner" where
  "notify_cancelled ts r = r\<lparr>rn_events := rn_events r @ map CancelCalled ts\<rparr>"

text \<open>\<open>_close_locked\<close>: the tasks it takes from the queue are returned.\<close>

definition close_locked :: "bool \<Rightarrow> runner \<Rightarrow> task list \<times> runner" where
  "close_locked wait r =
     (let k = current_run r;
          mode = closing_mode wait (rs_mode (run_of r k));
          r = set_run k ((run_of r k)\<lparr>rs_mode := mode\<rparr>) (r\<lparr>rn_closed := True\<rparr>);
          mine = filter (\<lambda>i. tk_run (rn_tickets r ! i) = k) (rn_reservations r);
          r = fold cancel_reservation_locked mine r
      in if mode = RunCancelled
         then (rs_queue (run_of r k),
               set_run k ((run_of r k)\<lparr>rs_queue := []\<rparr>)
                 (r\<lparr>rn_accepted := rn_accepted r - int (length (rs_queue (run_of r k)))\<rparr>))
         else ([], r))"

text \<open>
  \<open>restart\<close>, and \<open>shutdown\<close> with or without waiting (the wait itself changes nothing);
  \<open>shutdown_cancel_pending_and_wait\<close> closes like \<open>shutdown\<close> without waiting. The cancel
  handlers run after the lock is released, in the same step here.
\<close>

definition restart :: "runner \<Rightarrow> runner" where
  "restart r =
     (case close_locked False r of
        (cancelled, r) \<Rightarrow>
          let r = open_new_run r
          in notify_cancelled cancelled (start_locked (current_run r) r))"

definition shutdown :: "bool \<Rightarrow> runner \<Rightarrow> runner" where
  "shutdown wait r = (case close_locked wait r of (cancelled, r) \<Rightarrow> notify_cancelled cancelled r)"

section \<open>Admission\<close>

definition runner_reserve :: "runner \<Rightarrow> nat option \<times> runner" where
  "runner_reserve r =
     (if rn_closed r \<or> current_mode r \<noteq> RunRunning then (None, r)
      else if int (runner_capacity r) \<le> rn_accepted r then (None, r)
      else let r = start_locked (current_run r) r;
               i = length (rn_tickets r)
           in (Some i, r\<lparr>rn_tickets := rn_tickets r @ [\<lparr>tk_run = current_run r, tk_state = Reserved\<rparr>],
                 rn_reservations := rn_reservations r @ [i], rn_accepted := rn_accepted r + 1\<rparr>))"

definition owns_pending :: "runner \<Rightarrow> nat \<Rightarrow> bool" where
  "owns_pending r i \<longleftrightarrow> i < length (rn_tickets r) \<and> tk_state (rn_tickets r ! i) = Reserved \<and> i \<in> set (rn_reservations r)"

definition commit_reserved :: "nat \<Rightarrow> task \<Rightarrow> runner \<Rightarrow> bool \<times> runner" where
  "commit_reserved i t r =
     (if \<not> owns_pending r i then (False, r)
      else
        let k = tk_run (rn_tickets r ! i)
        in if rn_closed r \<or> k \<noteq> current_run r \<or> rs_mode (run_of r k) \<noteq> RunRunning
              \<or> runner_capacity r \<le> length (rs_queue (run_of r k))
           then (False, cancel_reservation_locked i r)
           else (True, set_ticket i Committed
                  (set_run k ((run_of r k)\<lparr>rs_queue := rs_queue (run_of r k) @ [t]\<rparr>)
                    (r\<lparr>rn_reservations := filter (\<lambda>j. j \<noteq> i) (rn_reservations r),
                       rn_events := rn_events r @ [Admitted t]\<rparr>))))"

definition rollback :: "nat \<Rightarrow> runner \<Rightarrow> bool \<times> runner" where
  "rollback i r =
     (if \<not> owns_pending r i then (False, r)
      else (True, set_ticket i RolledBack
              (r\<lparr>rn_reservations := filter (\<lambda>j. j \<noteq> i) (rn_reservations r), rn_accepted := rn_accepted r - 1\<rparr>)))"

definition submit :: "task \<Rightarrow> runner \<Rightarrow> bool \<times> runner" where
  "submit t r =
     (case runner_reserve r of
        (None, r) \<Rightarrow> (False, r)
      | (Some i, r) \<Rightarrow>
          (case commit_reserved i t r of
             (committed, r) \<Rightarrow> (committed, if committed then r else snd (rollback i r))))"

text \<open>The future of \<open>submit_future\<close>: without capacity or admission it fails at once. The
  callback it submits, which completes the future, is a task like any other.\<close>

datatype future_state = FuturePending | CapacityError | NotAdmitted

definition submit_future :: "task \<Rightarrow> runner \<Rightarrow> future_state \<times> runner" where
  "submit_future t r =
     (case runner_reserve r of
        (None, r) \<Rightarrow> (CapacityError, r)
      | (Some i, r) \<Rightarrow>
          (case commit_reserved i t r of
             (committed, r) \<Rightarrow> (if committed then FuturePending else NotAdmitted, r)))"

record runner_status =
  st_queued :: nat
  st_reserved :: nat
  st_accepted :: int
  st_active :: int
  st_closed :: bool

definition status :: "runner \<Rightarrow> runner_status" where
  "status r =
     \<lparr>st_queued = length (rs_queue (run_of r (current_run r))), st_reserved = length (rn_reservations r),
      st_accepted = rn_accepted r, st_active = rn_active r, st_closed = rn_closed r\<rparr>"

section \<open>Worker threads\<close>

definition holds_worker_slot :: "worker_thread \<Rightarrow> bool" where
  "holds_worker_slot w \<longleftrightarrow> wt_phase w \<noteq> WaitSlot \<and> wt_phase w \<noteq> Exited"

definition set_phase :: "nat \<Rightarrow> worker_phase \<Rightarrow> runner \<Rightarrow> runner" where
  "set_phase n ph r = r\<lparr>rn_workers := (rn_workers r)[n := (rn_workers r ! n)\<lparr>wt_phase := ph\<rparr>]\<rparr>"

text \<open>One step of worker \<open>n\<close>, from one access to the shared state to the next.\<close>

definition worker_step :: "nat \<Rightarrow> runner \<Rightarrow> runner" where
  "worker_step n r =
     (if length (rn_workers r) \<le> n then r
      else
        let w = rn_workers r ! n; k = wt_run w; run = run_of r k
        in case wt_phase w of
             WaitSlot \<Rightarrow>
               if length (filter holds_worker_slot (rn_workers r)) < rn_max_workers r then set_phase n Polling r else r
           | Polling \<Rightarrow>
               (case rs_queue run of
                  [] \<Rightarrow> set_phase n SawEmpty r
                | t # ts \<Rightarrow> set_phase n (Took t) (set_run k (run\<lparr>rs_queue := ts\<rparr>) r))
           | SawEmpty \<Rightarrow> set_phase n (if rs_mode run \<noteq> RunRunning then Exited else Polling) r
           | Took t \<Rightarrow>
               if rs_mode run \<noteq> RunCancelled
               then set_phase n (InCallback t)
                      (r\<lparr>rn_active := rn_active r + 1, rn_events := rn_events r @ [Called t]\<rparr>)
               else set_phase n Exited (notify_cancelled [t] (r\<lparr>rn_accepted := rn_accepted r - 1\<rparr>))
           | InCallback t \<Rightarrow>
               set_phase n Polling (r\<lparr>rn_active := rn_active r - 1, rn_accepted := rn_accepted r - 1\<rparr>)
           | Exited \<Rightarrow> r)"

text \<open>Any interleaving of the calls of any threads with the steps of the workers.\<close>

inductive runner_step :: "runner \<Rightarrow> runner \<Rightarrow> bool" where
  runner_started: "runner_step r (start r)"
| runner_restarted: "runner_step r (restart r)"
| runner_shut_down: "runner_step r (shutdown wait r)"
| runner_reserved: "runner_step r (snd (runner_reserve r))"
| runner_committed: "runner_step r (snd (commit_reserved i t r))"
| runner_rolled_back: "runner_step r (snd (rollback i r))"
| runner_submitted: "runner_step r (snd (submit t r))"
| runner_future_submitted: "runner_step r (snd (submit_future t r))"
| runner_worked: "runner_step r (worker_step n r)"

end
