(* ===== verification/Task_Runner_Correct.thy ===== *)
theory Task_Runner_Correct
  imports Task_Runner "HOL-Library.Multiset"
begin

text \<open>
  The bounded task runner: its counters agree with its queues and threads in every
  interleaving, its capacity and its concurrency are never exceeded, a reservation is used
  once, and every admitted task is called once or cancelled once or still waiting. The last
  section shows how a task can wait for ever.
\<close>

section \<open>Where the tasks are\<close>

lemma sum_list_map_update:
  fixes f :: "'a \<Rightarrow> 'b :: comm_monoid_add"
  shows "n < length xs \<Longrightarrow> sum_list (map f (xs[n := y])) + f (xs ! n) = sum_list (map f xs) + f y"
proof (induction xs arbitrary: n)
  case (Cons x xs)
  then show ?case
  proof (cases n)
    case (Suc m)
    with Cons have "sum_list (map f (xs[m := y])) + f (xs ! m) = sum_list (map f xs) + f y" by simp
    with Suc show ?thesis by (simp add: add.assoc)
  qed (simp add: ac_simps)
qed simp

definition queued :: "runner \<Rightarrow> task multiset" where
  "queued r = sum_list (map (\<lambda>s. mset (rs_queue s)) (rn_runs r))"

definition took_of :: "worker_thread \<Rightarrow> task multiset" where
  "took_of w = (case wt_phase w of Took t \<Rightarrow> {#t#} | _ \<Rightarrow> {#})"

definition in_callback :: "worker_thread \<Rightarrow> nat" where
  "in_callback w = (case wt_phase w of InCallback t \<Rightarrow> 1 | _ \<Rightarrow> 0)"

definition took :: "runner \<Rightarrow> task multiset" where
  "took r = sum_list (map took_of (rn_workers r))"

definition calling :: "runner \<Rightarrow> nat" where
  "calling r = sum_list (map in_callback (rn_workers r))"

definition holding :: "runner \<Rightarrow> nat" where
  "holding r = sum_list (map (\<lambda>w. of_bool (holds_worker_slot w)) (rn_workers r))"

definition admitted :: "runner \<Rightarrow> task multiset" where
  "admitted r = mset (List.map_filter (\<lambda>e. case e of Admitted t \<Rightarrow> Some t | _ \<Rightarrow> None) (rn_events r))"

definition called :: "runner \<Rightarrow> task multiset" where
  "called r = mset (List.map_filter (\<lambda>e. case e of Called t \<Rightarrow> Some t | _ \<Rightarrow> None) (rn_events r))"

definition cancel_called :: "runner \<Rightarrow> task multiset" where
  "cancel_called r = mset (List.map_filter (\<lambda>e. case e of CancelCalled t \<Rightarrow> Some t | _ \<Rightarrow> None) (rn_events r))"

lemma holding_filter: "length (filter holds_worker_slot (rn_workers r)) = holding r"
proof -
  have "length (filter P ws) = sum_list (map (\<lambda>w. of_bool (P w)) ws)" for P and ws :: "worker_thread list"
    by (induction ws) simp_all
  then show ?thesis by (simp add: holding_def)
qed

section \<open>The invariant\<close>

text \<open>The counters.\<close>

definition counters_ok :: "runner \<Rightarrow> bool" where
  "counters_ok r \<longleftrightarrow>
     rn_accepted r = int (length (rn_reservations r) + size (queued r) + size (took r) + calling r) \<and>
     rn_active r = int (calling r) \<and> rn_accepted r \<le> int (runner_capacity r) \<and> holding r \<le> rn_max_workers r"

text \<open>The tasks.\<close>

definition tasks_ok :: "runner \<Rightarrow> bool" where
  "tasks_ok r \<longleftrightarrow> admitted r = called r + cancel_called r + queued r + took r"

text \<open>The reservations: exactly the pending tickets, all of the current run.\<close>

definition reservations_ok :: "runner \<Rightarrow> bool" where
  "reservations_ok r \<longleftrightarrow> distinct (rn_reservations r) \<and>
     (\<forall>i \<in> set (rn_reservations r). i < length (rn_tickets r) \<and> tk_state (rn_tickets r ! i) = Reserved \<and>
        tk_run (rn_tickets r ! i) = current_run r) \<and>
     (\<forall>i < length (rn_tickets r). tk_state (rn_tickets r ! i) = Reserved \<longrightarrow> i \<in> set (rn_reservations r))"

text \<open>The runs: only the current one can be open, and a cancelled run has an empty queue.\<close>

definition runs_ok :: "runner \<Rightarrow> bool" where
  "runs_ok r \<longleftrightarrow> rn_runs r \<noteq> [] \<and> (rn_closed r \<longleftrightarrow> current_mode r \<noteq> RunRunning) \<and>
     (\<forall>k < length (rn_runs r) - 1. rs_mode (rn_runs r ! k) \<noteq> RunRunning) \<and>
     (\<forall>s \<in> set (rn_runs r). rs_mode s = RunCancelled \<longrightarrow> rs_queue s = []) \<and>
     (\<forall>w \<in> set (rn_workers r). wt_run w < length (rn_runs r))"

definition runner_core :: "runner \<Rightarrow> bool" where
  "runner_core r \<longleftrightarrow> counters_ok r \<and> tasks_ok r \<and> reservations_ok r \<and> runs_ok r"

text \<open>A closed runner has no pending reservation; this fails only inside \<open>close_locked\<close>.\<close>

definition runner_ok :: "runner \<Rightarrow> bool" where
  "runner_ok r \<longleftrightarrow> runner_core r \<and> (rn_reservations r \<noteq> [] \<longrightarrow> \<not> rn_closed r)"

lemmas runner_core_defs = runner_core_def counters_ok_def tasks_ok_def reservations_ok_def runs_ok_def

lemmas places = queued_def took_def calling_def holding_def admitted_def called_def cancel_called_def

lemma new_runner_core: "runner_core (new_runner mw qs)"
  by (simp add: runner_ok_def runner_core_defs places new_runner_def fresh_run_def current_mode_def run_of_def current_run_def
      List.map_filter_def)

section \<open>Runs\<close>

lemma run_of_current: "runs_ok r \<Longrightarrow> run_of r (current_run r) = last (rn_runs r) \<and> current_run r < length (rn_runs r)"
  by (simp add: runs_ok_def run_of_def current_run_def last_conv_nth)

lemma queued_set_run:
  "k < length (rn_runs r) \<Longrightarrow> queued (set_run k s r) + mset (rs_queue (rn_runs r ! k)) = queued r + mset (rs_queue s)"
  using sum_list_map_update [of k "rn_runs r" "\<lambda>s. mset (rs_queue s)" s] by (simp add: queued_def set_run_def)

lemma queued_same: "k < length (rn_runs r) \<Longrightarrow> rs_queue s = rs_queue (rn_runs r ! k) \<Longrightarrow> queued (set_run k s r) = queued r"
  using queued_set_run [of k r s] by simp

text \<open>What a step that touches neither the queues nor the threads leaves alone.\<close>

definition same_places :: "runner \<Rightarrow> runner \<Rightarrow> bool" where
  "same_places r q \<longleftrightarrow> queued q = queued r \<and> took q = took r \<and> calling q = calling r \<and> holding q = holding r \<and>
     admitted q = admitted r \<and> called q = called r \<and> cancel_called q = cancel_called r \<and>
     runner_capacity q = runner_capacity r \<and> rn_max_workers q = rn_max_workers r \<and> rn_active q = rn_active r"

lemma same_places_ok:
  assumes "runner_core r" "same_places r q"
    and "rn_accepted q - int (length (rn_reservations q)) = rn_accepted r - int (length (rn_reservations r))"
    and "rn_accepted q \<le> int (runner_capacity r)" "reservations_ok q" "runs_ok q"
  shows "runner_core q"
  using assms by (simp add: runner_core_def counters_ok_def tasks_ok_def same_places_def)

lemma start_locked_ok:
  assumes "runner_core r" "k < length (rn_runs r)"
  shows "runner_core (start_locked k r)"
proof (cases "rs_started (run_of r k)")
  case True
  then show ?thesis using assms by (simp add: start_locked_def)
next
  case False
  let ?ws = "replicate (rn_max_workers r) \<lparr>wt_run = k, wt_phase = WaitSlot\<rparr>"
  define s where "s = (run_of r k)\<lparr>rs_started := True\<rparr>"
  define q where "q = set_run k s (r\<lparr>rn_workers := rn_workers r @ ?ws\<rparr>)"
  have "sum_list (replicate n {#}) = {#}" for n by (induction n) simp_all
  then have idle: "sum_list (map took_of ?ws) = {#}" "sum_list (map in_callback ?ws) = 0"
    "sum_list (map (\<lambda>w. of_bool (holds_worker_slot w)) ?ws) = (0 :: nat)"
    by (simp_all add: took_of_def in_callback_def holds_worker_slot_def)
  have s: "rs_queue s = rs_queue (rn_runs r ! k)" "rs_mode s = rs_mode (rn_runs r ! k)"
    using assms(2) by (simp_all add: s_def run_of_def)
  have "queued q = queued (r\<lparr>rn_workers := rn_workers r @ ?ws\<rparr>)"
    unfolding q_def using assms(2) s by (intro queued_same) simp_all
  then have same: "same_places r q"
    using idle by (simp add: same_places_def places q_def set_run_def runner_capacity_def)
  have fields: "rn_runs q = (rn_runs r)[k := s]" "rn_reservations q = rn_reservations r" "rn_tickets q = rn_tickets r"
    "rn_accepted q = rn_accepted r" "rn_closed q = rn_closed r" "rn_workers q = rn_workers r @ ?ws"
    by (simp_all add: q_def set_run_def)
  have current: "current_run q = current_run r" by (simp add: current_run_def fields)
  have modes: "rs_mode (rn_runs q ! j) = rs_mode (rn_runs r ! j)" for j
    using assms(2) s(2) by (cases "j = k") (simp_all add: fields)
  have mode: "current_mode q = current_mode r"
    using modes by (simp add: current_mode_def run_of_def current) (simp add: fields)
  have runs: "runs_ok r" using assms(1) by (simp add: runner_core_def)
  have "rs_mode x = RunCancelled \<longrightarrow> rs_queue x = []" if "x \<in> set (rn_runs q)" for x
  proof -
    from that have "x = s \<or> x \<in> set (rn_runs r)" using set_update_subset_insert [of "rn_runs r" k s] by (auto simp: fields)
    with runs assms(2) s show ?thesis by (auto simp: runs_ok_def)
  qed
  with runs mode modes assms(2) have "runs_ok q" by (auto simp: runs_ok_def fields)
  moreover have "reservations_ok q" using assms(1) current by (simp add: runner_core_def reservations_ok_def fields)
  moreover have "rn_accepted q \<le> int (runner_capacity r)" using assms(1) by (simp add: runner_core_def counters_ok_def fields)
  ultimately have "runner_core q" using assms(1) same by (intro same_places_ok [of r q]) (simp_all add: fields)
  then show ?thesis using False by (simp add: start_locked_def q_def s_def)
qed

lemma start_locked_fields:
  "rn_reservations (start_locked k r) = rn_reservations r" "rn_tickets (start_locked k r) = rn_tickets r"
  "rn_accepted (start_locked k r) = rn_accepted r" "rn_closed (start_locked k r) = rn_closed r"
  "current_run (start_locked k r) = current_run r" "runner_capacity (start_locked k r) = runner_capacity r"
  by (simp_all add: start_locked_def set_run_def current_run_def runner_capacity_def)

text \<open>A new run is opened on a closed runner.\<close>

lemma open_new_run_ok:
  assumes "runner_core r" "rn_closed r" "rn_reservations r = []"
  shows "runner_core (open_new_run r)" "current_run (open_new_run r) < length (rn_runs (open_new_run r))"
proof -
  define q where "q = open_new_run r"
  note none = assms(3)
  have closed: "current_mode r \<noteq> RunRunning" "rn_runs r \<noteq> []" using assms by (auto simp: runner_core_def runs_ok_def)
  have fields: "rn_runs q = rn_runs r @ [fresh_run]" "rn_reservations q = rn_reservations r" "rn_tickets q = rn_tickets r"
    "rn_accepted q = rn_accepted r" "\<not> rn_closed q" "rn_workers q = rn_workers r"
    by (simp_all add: q_def open_new_run_def)
  have same: "same_places r q"
    by (simp add: same_places_def places q_def open_new_run_def fresh_run_def runner_capacity_def)
  have "rs_mode (rn_runs q ! k) \<noteq> RunRunning" if "k < length (rn_runs r)" for k
  proof (cases "k < length (rn_runs r) - 1")
    case True
    with assms(1) that show ?thesis by (simp add: runner_core_def runs_ok_def fields nth_append)
  next
    case False
    with that have "k = current_run r" by (simp add: current_run_def)
    with closed that show ?thesis by (simp add: current_mode_def run_of_def fields nth_append current_run_def)
  qed
  moreover have "current_mode q = RunRunning"
    by (simp add: current_mode_def run_of_def current_run_def fields) (simp add: fresh_run_def)
  moreover have "\<forall>s \<in> set (rn_runs q). rs_mode s = RunCancelled \<longrightarrow> rs_queue s = []"
    using assms(1) by (auto simp: runner_core_def runs_ok_def fields fresh_run_def)
  moreover have "\<forall>w \<in> set (rn_workers q). wt_run w < length (rn_runs q)"
    using assms(1) by (auto simp: runner_core_def runs_ok_def fields less_Suc_eq)
  ultimately have "runs_ok q" by (simp add: runs_ok_def fields)
  moreover have "reservations_ok q" using assms(1) none by (simp add: runner_core_def reservations_ok_def fields)
  moreover have "rn_accepted q \<le> int (runner_capacity r)" using assms(1) by (simp add: runner_core_def counters_ok_def fields)
  ultimately have "runner_core q" using assms(1) same by (intro same_places_ok [of r q]) (simp_all add: fields)
  then show "runner_core (open_new_run r)" by (simp add: q_def)
  show "current_run (open_new_run r) < length (rn_runs (open_new_run r))" by (simp add: current_run_def open_new_run_def)
qed

lemma open_new_run_fields: "rn_reservations (open_new_run r) = rn_reservations r" "\<not> rn_closed (open_new_run r)"
  by (simp_all add: open_new_run_def)

lemma start_ok: "runner_ok r \<Longrightarrow> runner_ok (start r)"
proof -
  assume "runner_ok r"
  then have ok: "runner_core r" and closed: "rn_closed r \<Longrightarrow> rn_reservations r = []" by (auto simp: runner_ok_def)
  show ?thesis
  proof (cases "rn_closed r")
    case True
    from start_locked_ok [OF open_new_run_ok [OF ok True closed [OF True]]] show ?thesis
      by (simp add: start_def True Let_def runner_ok_def start_locked_fields open_new_run_fields)
  next
    case False
    with ok have "current_mode r = RunRunning" "current_run r < length (rn_runs r)"
      by (auto simp: runner_core_def runs_ok_def current_run_def)
    with False start_locked_ok [OF ok] show ?thesis by (simp add: start_def runner_ok_def start_locked_fields)
  qed
qed

section \<open>Closing\<close>

text \<open>Dropping one pending reservation.\<close>

lemma distinct_filter_one: "distinct xs \<Longrightarrow> x \<in> set xs \<Longrightarrow> length (filter (\<lambda>y. y = x) xs) = 1"
  by (induction xs) (auto simp: filter_empty_conv)

lemma drop_ticket_ok:
  assumes "runner_core r" "i \<in> set (rn_reservations r)" "st \<noteq> Reserved"
  shows "runner_core (set_ticket i st (r\<lparr>rn_reservations := filter (\<lambda>j. j \<noteq> i) (rn_reservations r),
    rn_accepted := rn_accepted r - 1\<rparr>))"
proof -
  define q where "q = set_ticket i st (r\<lparr>rn_reservations := filter (\<lambda>j. j \<noteq> i) (rn_reservations r),
    rn_accepted := rn_accepted r - 1\<rparr>)"
  from assms(1,2) have i: "i < length (rn_tickets r)" "distinct (rn_reservations r)" by (auto simp: runner_core_defs)
  have fields: "rn_runs q = rn_runs r" "rn_reservations q = filter (\<lambda>j. j \<noteq> i) (rn_reservations r)"
    "rn_accepted q = rn_accepted r - 1" "rn_closed q = rn_closed r" "rn_workers q = rn_workers r"
    "length (rn_tickets q) = length (rn_tickets r)"
    by (simp_all add: q_def set_ticket_def)
  have tickets: "tk_state (rn_tickets q ! j) = (if j = i then st else tk_state (rn_tickets r ! j))"
    "tk_run (rn_tickets q ! j) = tk_run (rn_tickets r ! j)" for j
    using i(1) by (simp_all add: q_def set_ticket_def nth_list_update)
  have len: "length (rn_reservations q) + 1 = length (rn_reservations r)"
    using sum_length_filter_compl [of "\<lambda>j. j \<noteq> i" "rn_reservations r"] i(2) assms(2)
    by (simp add: fields distinct_filter_one)
  have same: "same_places r q"
    by (simp add: same_places_def places q_def set_ticket_def runner_capacity_def)
  have current: "current_run q = current_run r" "current_mode q = current_mode r"
    by (simp_all add: current_run_def current_mode_def run_of_def fields)
  have "runs_ok q" using assms(1) current by (simp add: runner_core_def runs_ok_def fields)
  moreover have res: "reservations_ok r" using assms(1) by (simp add: runner_core_def)
  have "\<forall>j \<in> set (rn_reservations q). j < length (rn_tickets q) \<and> tk_state (rn_tickets q ! j) = Reserved \<and>
      tk_run (rn_tickets q ! j) = current_run q"
    using res by (simp add: reservations_ok_def tickets current fields)
  moreover have "\<forall>j < length (rn_tickets q). tk_state (rn_tickets q ! j) = Reserved \<longrightarrow> j \<in> set (rn_reservations q)"
    using res assms(3) by (simp add: reservations_ok_def tickets fields)
  moreover have "distinct (rn_reservations q)" using i(2) by (simp add: fields)
  ultimately have "runs_ok q" "reservations_ok q" by (simp_all add: reservations_ok_def)
  moreover have "rn_accepted q \<le> int (runner_capacity r)" using assms(1) by (simp add: runner_core_def counters_ok_def fields)
  ultimately have "runner_core q" using assms(1) same len by (intro same_places_ok [of r q]) (simp_all add: fields(3))
  then show ?thesis by (simp add: q_def)
qed

lemma cancel_pending: 
  "tk_state (rn_tickets r ! i) = Reserved \<Longrightarrow> cancel_reservation_locked i r =
     set_ticket i CanceledReservation (r\<lparr>rn_reservations := filter (\<lambda>j. j \<noteq> i) (rn_reservations r),
       rn_accepted := rn_accepted r - 1\<rparr>)"
  by (simp add: cancel_reservation_locked_def)

lemma cancel_fields:
  "rn_runs (cancel_reservation_locked i r) = rn_runs r"
  "rn_reservations (cancel_reservation_locked i r) = filter (\<lambda>j. j \<noteq> i) (rn_reservations r)"
  "rn_closed (cancel_reservation_locked i r) = rn_closed r"
  by (simp_all add: cancel_reservation_locked_def set_ticket_def Let_def)

lemma fold_cancel_ok:
  "runner_core r \<Longrightarrow> distinct is \<Longrightarrow> set is \<subseteq> set (rn_reservations r) \<Longrightarrow>
     runner_core (fold cancel_reservation_locked is r) \<and>
     rn_reservations (fold cancel_reservation_locked is r) = filter (\<lambda>j. j \<notin> set is) (rn_reservations r) \<and>
     rn_runs (fold cancel_reservation_locked is r) = rn_runs r"
proof (induction "is" arbitrary: r)
  case (Cons i "is")
  have "tk_state (rn_tickets r ! i) = Reserved" using Cons.prems by (simp add: runner_core_def reservations_ok_def)
  then have "runner_core (cancel_reservation_locked i r)"
    using drop_ticket_ok [OF Cons.prems(1), of i CanceledReservation] Cons.prems(3) by (simp add: cancel_pending)
  moreover have "set is \<subseteq> set (rn_reservations (cancel_reservation_locked i r))"
    using Cons.prems(2,3) by (auto simp: cancel_fields)
  ultimately show ?case
    using Cons.IH [of "cancel_reservation_locked i r"] Cons.prems(2) by (auto simp: cancel_fields intro!: filter_cong)
qed simp

lemma cancel_commutes:
  "cancel_reservation_locked i (set_run k s (r\<lparr>rn_closed := b\<rparr>)) = set_run k s ((cancel_reservation_locked i r)\<lparr>rn_closed := b\<rparr>)"
  by (simp add: cancel_reservation_locked_def set_run_def set_ticket_def Let_def)

lemma fold_cancel_commutes:
  "fold cancel_reservation_locked is (set_run k s (r\<lparr>rn_closed := b\<rparr>)) =
     set_run k s ((fold cancel_reservation_locked is r)\<lparr>rn_closed := b\<rparr>)"
  by (induction "is" arbitrary: r) (simp_all add: cancel_commutes)

text \<open>Closing a run without reservations, the cancel handlers included.\<close>

definition close_run :: "run_mode \<Rightarrow> runner \<Rightarrow> runner" where
  "close_run m r =
     (let k = current_run r; run = run_of r k; gone = (if m = RunCancelled then rs_queue run else [])
      in notify_cancelled gone
           (set_run k (run\<lparr>rs_mode := m, rs_queue := (if m = RunCancelled then [] else rs_queue run)\<rparr>)
             (r\<lparr>rn_closed := True, rn_accepted := rn_accepted r - int (length gone)\<rparr>)))"

lemma events_append:
  "admitted (r\<lparr>rn_events := es @ fs\<rparr>) = admitted (r\<lparr>rn_events := es\<rparr>) + admitted (r\<lparr>rn_events := fs\<rparr>)"
  "called (r\<lparr>rn_events := es @ fs\<rparr>) = called (r\<lparr>rn_events := es\<rparr>) + called (r\<lparr>rn_events := fs\<rparr>)"
  "cancel_called (r\<lparr>rn_events := es @ fs\<rparr>) = cancel_called (r\<lparr>rn_events := es\<rparr>) + cancel_called (r\<lparr>rn_events := fs\<rparr>)"
  by (simp_all add: places List.map_filter_def)

lemma notify_places:
  "admitted (notify_cancelled ts r) = admitted r" "called (notify_cancelled ts r) = called r"
  "cancel_called (notify_cancelled ts r) = cancel_called r + mset ts"
  "queued (notify_cancelled ts r) = queued r" "took (notify_cancelled ts r) = took r"
  "calling (notify_cancelled ts r) = calling r" "holding (notify_cancelled ts r) = holding r"
  by (simp_all add: notify_cancelled_def places List.map_filter_def comp_def)

lemma close_run_ok:
  assumes "runner_core r" "rn_reservations r = []" "m \<noteq> RunRunning"
  shows "runner_ok (close_run m r)"
proof -
  let ?k = "current_run r"
  let ?run = "run_of r ?k"
  define gone where "gone = (if m = RunCancelled then rs_queue ?run else [])"
  define s where "s = ?run\<lparr>rs_mode := m, rs_queue := (if m = RunCancelled then [] else rs_queue ?run)\<rparr>"
  define q where "q = set_run ?k s (r\<lparr>rn_closed := True, rn_accepted := rn_accepted r - int (length gone)\<rparr>)"
  define p where "p = notify_cancelled gone q"
  have runs: "runs_ok r" using assms(1) by (simp add: runner_core_def)
  then have k: "?k < length (rn_runs r)" "rn_runs r \<noteq> []" by (auto simp: runs_ok_def current_run_def)
  have run: "?run = rn_runs r ! ?k" using k by (simp add: run_of_def)
  have "queued q + mset (rs_queue (rn_runs r ! ?k)) = queued r + mset (rs_queue s)"
    unfolding q_def using queued_set_run [of ?k "r\<lparr>rn_closed := True, rn_accepted := rn_accepted r - int (length gone)\<rparr>" s] k
    by (simp add: queued_def)
  then have queue: "queued q + mset gone = queued r"
    by (simp add: s_def gone_def run [symmetric] split: if_splits)
  have fields: "rn_runs p = (rn_runs r)[?k := s]" "rn_reservations p = []" "rn_tickets p = rn_tickets r"
    "rn_accepted p = rn_accepted r - int (length gone)" "rn_closed p" "rn_workers p = rn_workers r"
    "rn_active p = rn_active r" "runner_capacity p = runner_capacity r" "rn_max_workers p = rn_max_workers r"
    by (simp_all add: p_def q_def set_run_def notify_cancelled_def assms(2) runner_capacity_def)
  have q: "took q = took r" "calling q = calling r" "holding q = holding r" "admitted q = admitted r" "called q = called r"
    "cancel_called q = cancel_called r" by (simp_all add: q_def set_run_def places)
  have size: "size (queued q) + length gone = size (queued r)" using queue by (metis size_mset size_union)
  have core: "counters_ok r" "tasks_ok r" "reservations_ok r" using assms(1) by (auto simp: runner_core_def)
  have places: "queued p = queued q" "took p = took r" "calling p = calling r" "holding p = holding r"
    "admitted p = admitted r" "called p = called r" "cancel_called p = cancel_called r + mset gone"
    by (simp_all add: p_def notify_places q)
  have "counters_ok p" using core(1) size assms(2) by (simp add: counters_ok_def fields places)
  moreover have "tasks_ok p" using core(2) queue by (simp add: tasks_ok_def places) (metis add.commute add.left_commute)
  moreover have current: "current_run p = ?k" by (simp add: current_run_def fields)
  moreover have "reservations_ok p" using core(3) by (simp add: reservations_ok_def fields assms(2))
  moreover have "runs_ok p"
  proof -
    have "current_mode p = m" using k by (simp add: current_mode_def current run_of_def) (simp add: fields s_def)
    moreover have "rs_mode (rn_runs p ! j) \<noteq> RunRunning" if "j < length (rn_runs p) - 1" for j
      using runs that by (simp add: runs_ok_def fields current_run_def)
    moreover have "rs_mode x = RunCancelled \<longrightarrow> rs_queue x = []" if "x \<in> set (rn_runs p)" for x
    proof -
      from that have "x = s \<or> x \<in> set (rn_runs r)" using set_update_subset_insert [of "rn_runs r" ?k s] by (auto simp: fields)
      with runs show ?thesis by (auto simp: runs_ok_def s_def)
    qed
    ultimately show ?thesis using runs assms(3) by (simp add: runs_ok_def fields)
  qed
  ultimately have "runner_ok p" by (simp add: runner_ok_def runner_core_def fields)
  then show ?thesis by (simp add: close_run_def Let_def p_def q_def s_def gone_def)
qed

lemma close_locked_run:
  assumes "runner_ok r" "m = closing_mode wait (current_mode r)"
  defines "r0 \<equiv> fold cancel_reservation_locked (rn_reservations r) r"
  shows "\<exists>gone q. close_locked wait r = (gone, q) \<and> notify_cancelled gone q = close_run m r0"
    and "runner_core r0" "rn_reservations r0 = []" "rn_runs r0 = rn_runs r"
proof -
  let ?k = "current_run r"
  let ?s = "(run_of r ?k)\<lparr>rs_mode := m\<rparr>"
  have core: "runner_core r" and res: "reservations_ok r" "distinct (rn_reservations r)"
    using assms(1) by (auto simp: runner_ok_def runner_core_def reservations_ok_def)
  from fold_cancel_ok [OF core res(2) subset_refl]
  show r0: "runner_core r0" "rn_reservations r0 = []" "rn_runs r0 = rn_runs r" by (simp_all add: r0_def)
  have k: "?k < length (rn_runs r)" using core by (auto simp: runner_core_def runs_ok_def current_run_def)
  have mine: "filter (\<lambda>i. tk_run (rn_tickets (set_run ?k ?s (r\<lparr>rn_closed := True\<rparr>)) ! i) = ?k)
      (rn_reservations (set_run ?k ?s (r\<lparr>rn_closed := True\<rparr>))) = rn_reservations r"
    using res(1) by (simp add: set_run_def reservations_ok_def)
  have current: "current_run r0 = ?k" "run_of r0 ?k = run_of r ?k" using r0(3) by (simp_all add: current_run_def run_of_def)
  have m: "closing_mode wait (rs_mode (run_of r ?k)) = m" by (simp add: assms(2) current_mode_def)
  have new: "run_of (set_run ?k ?s (r0\<lparr>rn_closed := True\<rparr>)) ?k = ?s" using k r0(3) by (simp add: run_of_def set_run_def)
  show "\<exists>gone q. close_locked wait r = (gone, q) \<and> notify_cancelled gone q = close_run m r0"
    unfolding close_locked_def Let_def m mine fold_cancel_commutes
    unfolding r0_def [symmetric] new close_run_def Let_def current
    by (auto simp: set_run_def notify_cancelled_def r0(3))
qed

lemma closing_mode_closed: "closing_mode wait m \<noteq> RunRunning"
  by (simp add: closing_mode_def)

lemma shutdown_ok: "runner_ok r \<Longrightarrow> runner_ok (shutdown wait r)"
proof -
  assume ok: "runner_ok r"
  note first = close_locked_run(1) [OF ok refl, of wait] and c = close_locked_run(2-4) [OF ok refl]
  from first obtain gone q where "close_locked wait r = (gone, q)"
    "notify_cancelled gone q = close_run (closing_mode wait (current_mode r)) (fold cancel_reservation_locked (rn_reservations r) r)"
    by blast
  with close_run_ok [OF c(1,2) closing_mode_closed] show ?thesis by (simp add: shutdown_def)
qed

lemma restart_ok: "runner_ok r \<Longrightarrow> runner_ok (restart r)"
proof -
  assume ok: "runner_ok r"
  note first = close_locked_run(1) [OF ok refl, of False] and c = close_locked_run(2-4) [OF ok refl]
  let ?p = "close_run (closing_mode False (current_mode r)) (fold cancel_reservation_locked (rn_reservations r) r)"
  from first obtain gone q where close: "close_locked False r = (gone, q)" "notify_cancelled gone q = ?p" by blast
  have p: "runner_core ?p" "rn_closed ?p" "rn_reservations ?p = []"
    using close_run_ok [OF c(1,2) closing_mode_closed] c(2)
    by (simp_all add: runner_ok_def close_run_def Let_def set_run_def notify_cancelled_def)
  have "restart r = start_locked (current_run (open_new_run ?p)) (open_new_run ?p)"
    unfolding restart_def close(1) prod.case Let_def close(2) [symmetric]
    by (simp add: start_locked_def open_new_run_def notify_cancelled_def set_run_def run_of_def current_run_def)
  with start_locked_ok [OF open_new_run_ok [OF p]] p(3) show ?thesis
    by (simp add: runner_ok_def start_locked_fields open_new_run_fields)
qed

section \<open>Admission\<close>

lemma runner_reserve_ok:
  assumes "runner_ok r"
  shows "runner_ok (snd (runner_reserve r))"
proof (cases "rn_closed r \<or> current_mode r \<noteq> RunRunning \<or> int (runner_capacity r) \<le> rn_accepted r")
  case True
  then show ?thesis using assms by (auto simp: runner_reserve_def)
next
  case False
  define p where "p = start_locked (current_run r) r"
  define q where "q = p\<lparr>rn_tickets := rn_tickets p @ [\<lparr>tk_run = current_run p, tk_state = Reserved\<rparr>],
    rn_reservations := rn_reservations p @ [length (rn_tickets p)], rn_accepted := rn_accepted p + 1\<rparr>"
  have k: "current_run r < length (rn_runs r)" using assms by (auto simp: runner_ok_def runner_core_def runs_ok_def current_run_def)
  have p: "runner_core p" using start_locked_ok [OF _ k] assms by (simp add: p_def runner_ok_def)
  have same: "same_places p q" by (simp add: same_places_def places q_def runner_capacity_def)
  have fields: "rn_runs q = rn_runs p" "rn_closed q = rn_closed p" "rn_workers q = rn_workers p"
    "rn_tickets q = rn_tickets p @ [\<lparr>tk_run = current_run p, tk_state = Reserved\<rparr>]"
    "rn_reservations q = rn_reservations p @ [length (rn_tickets p)]" "rn_accepted q = rn_accepted p + 1"
    by (simp_all add: q_def)
  have current: "current_run q = current_run p" "current_mode q = current_mode p"
    by (simp_all add: current_run_def current_mode_def run_of_def fields)
  have "runs_ok q" using p current by (simp add: runner_core_def runs_ok_def fields)
  moreover have "reservations_ok q"
    using p current unfolding runner_core_def reservations_ok_def fields
    by (auto simp: nth_append less_Suc_eq)
  moreover have "rn_accepted q \<le> int (runner_capacity p)" using False by (simp add: fields) (simp add: p_def start_locked_fields)
  ultimately have "runner_core q" using p same by (intro same_places_ok [of p q]) (simp_all add: fields)
  with False assms show ?thesis
    by (simp add: runner_reserve_def Let_def p_def q_def runner_ok_def start_locked_fields)
qed

lemma dropped_ok:
  assumes "runner_ok r" "owns_pending r i" "st \<noteq> Reserved"
  shows "runner_ok (set_ticket i st (r\<lparr>rn_reservations := filter (\<lambda>j. j \<noteq> i) (rn_reservations r),
    rn_accepted := rn_accepted r - 1\<rparr>))"
  using drop_ticket_ok [of r i st] assms by (auto simp: runner_ok_def owns_pending_def set_ticket_def)

lemma rollback_ok: "runner_ok r \<Longrightarrow> runner_ok (snd (rollback i r))"
  using dropped_ok [of r i RolledBack] by (simp add: rollback_def)

text \<open>The queue of a run has room for every reservation.\<close>

lemma queue_has_room:
  assumes "runner_ok r" "owns_pending r i"
  shows "length (rs_queue (run_of r (current_run r))) < runner_capacity r"
proof -
  have k: "current_run r < length (rn_runs r)"
    using assms(1) by (auto simp: runner_ok_def runner_core_def runs_ok_def current_run_def)
  have "queued (set_run (current_run r) fresh_run r) + mset (rs_queue (rn_runs r ! current_run r)) = queued r"
    using queued_set_run [OF k, of fresh_run] by (simp add: fresh_run_def)
  then have "length (rs_queue (rn_runs r ! current_run r)) \<le> size (queued r)"
    by (metis le_add2 size_mset size_union)
  moreover have "0 < length (rn_reservations r)" using assms(2) by (auto simp: owns_pending_def)
  moreover have "rn_accepted r = int (length (rn_reservations r) + size (queued r) + size (took r) + calling r)"
    "rn_accepted r \<le> int (runner_capacity r)" using assms(1) by (auto simp only: runner_ok_def runner_core_def counters_ok_def)
  ultimately have "length (rs_queue (rn_runs r ! current_run r)) < runner_capacity r" by linarith
  with k show ?thesis by (simp add: run_of_def)
qed

lemma pending_reservation_open:
  assumes "runner_ok r" "owns_pending r i"
  shows "\<not> rn_closed r \<and> tk_run (rn_tickets r ! i) = current_run r \<and> rs_mode (run_of r (current_run r)) = RunRunning"
  using assms by (auto simp: runner_ok_def runner_core_def reservations_ok_def runs_ok_def owns_pending_def current_mode_def)

lemma commit_pending:
  assumes "runner_ok r" "owns_pending r i"
  shows "commit_reserved i t r = (True, set_ticket i Committed
    (set_run (current_run r) ((run_of r (current_run r))\<lparr>rs_queue := rs_queue (run_of r (current_run r)) @ [t]\<rparr>)
      (r\<lparr>rn_reservations := filter (\<lambda>j. j \<noteq> i) (rn_reservations r), rn_events := rn_events r @ [Admitted t]\<rparr>)))"
  using assms(2) pending_reservation_open [OF assms] queue_has_room [OF assms]
  by (simp add: commit_reserved_def Let_def)

lemma set_run_modes:
  assumes "k < length (rn_runs r)" "rs_mode s = rs_mode (rn_runs r ! k)" "rn_runs q = (rn_runs r)[k := s]"
  shows "current_run q = current_run r" "current_mode q = current_mode r"
    "rs_mode (rn_runs q ! j) = rs_mode (rn_runs r ! j)"
proof -
  show current: "current_run q = current_run r" by (simp add: current_run_def assms(3))
  show modes: "rs_mode (rn_runs q ! j) = rs_mode (rn_runs r ! j)" for j
    using assms(1,2) by (cases "j = k") (simp_all add: assms(3))
  show "current_mode q = current_mode r"
    using modes by (simp add: current_mode_def run_of_def current) (simp add: assms(3))
qed

lemma set_run_runs_ok:
  assumes "runs_ok r" "k < length (rn_runs r)" "rs_mode s = rs_mode (rn_runs r ! k)" "rn_runs q = (rn_runs r)[k := s]"
    and "rs_mode s = RunCancelled \<Longrightarrow> rs_queue s = []" "rn_closed q = rn_closed r"
    and "\<forall>w \<in> set (rn_workers q). wt_run w < length (rn_runs r)"
  shows "runs_ok q"
proof -
  have "rs_mode x = RunCancelled \<longrightarrow> rs_queue x = []" if "x \<in> set (rn_runs q)" for x
  proof -
    from that have "x = s \<or> x \<in> set (rn_runs r)" using set_update_subset_insert [of "rn_runs r" k s] by (auto simp: assms(4))
    with assms(1,5) show ?thesis by (auto simp: runs_ok_def)
  qed
  with assms(1,2,6,7) set_run_modes [OF assms(2-4)] show ?thesis by (simp add: runs_ok_def) (simp add: assms(4))
qed

lemma commit_ok: "runner_ok r \<Longrightarrow> runner_ok (snd (commit_reserved i t r))"
proof -
  assume ok: "runner_ok r"
  show ?thesis
  proof (cases "owns_pending r i")
    case False
    with ok show ?thesis by (simp add: commit_reserved_def)
  next
    case True
    let ?k = "current_run r"
    define s where "s = (run_of r ?k)\<lparr>rs_queue := rs_queue (run_of r ?k) @ [t]\<rparr>"
    define q where "q = set_ticket i Committed (set_run ?k s
      (r\<lparr>rn_reservations := filter (\<lambda>j. j \<noteq> i) (rn_reservations r), rn_events := rn_events r @ [Admitted t]\<rparr>))"
    have core: "counters_ok r" "tasks_ok r" "reservations_ok r" "runs_ok r"
      using ok by (auto simp: runner_ok_def runner_core_def)
    note pend = pending_reservation_open [OF ok True]
    have k: "?k < length (rn_runs r)" using core(4) by (auto simp: runs_ok_def current_run_def)
    then have run: "run_of r ?k = rn_runs r ! ?k" by (simp add: run_of_def)
    have i: "i < length (rn_tickets r)" "i \<in> set (rn_reservations r)" "distinct (rn_reservations r)"
      using True core(3) by (auto simp: owns_pending_def reservations_ok_def)
    have fields: "rn_runs q = (rn_runs r)[?k := s]" "rn_reservations q = filter (\<lambda>j. j \<noteq> i) (rn_reservations r)"
      "rn_accepted q = rn_accepted r" "rn_closed q = rn_closed r" "rn_workers q = rn_workers r"
      "length (rn_tickets q) = length (rn_tickets r)" "rn_active q = rn_active r" "runner_capacity q = runner_capacity r"
      "rn_max_workers q = rn_max_workers r"
      by (simp_all add: q_def set_ticket_def set_run_def runner_capacity_def)
    have tickets: "tk_state (rn_tickets q ! j) = (if j = i then Committed else tk_state (rn_tickets r ! j))"
      "tk_run (rn_tickets q ! j) = tk_run (rn_tickets r ! j)" for j
      using i(1) by (simp_all add: q_def set_ticket_def set_run_def nth_list_update)
    have len: "length (rn_reservations q) + 1 = length (rn_reservations r)"
      using sum_length_filter_compl [of "\<lambda>j. j \<noteq> i" "rn_reservations r"] i(2,3)
      by (simp add: fields distinct_filter_one)
    have "queued (set_run ?k s r) + mset (rs_queue (rn_runs r ! ?k)) = queued r + mset (rs_queue s)"
      by (rule queued_set_run [OF k])
    then have "queued (set_run ?k s r) = queued r + {#t#}" by (simp add: s_def run)
    then have places: "queued q = add_mset t (queued r)" "took q = took r" "calling q = calling r" "holding q = holding r"
      "admitted q = add_mset t (admitted r)" "called q = called r" "cancel_called q = cancel_called r"
      by (simp_all add: q_def places set_ticket_def set_run_def List.map_filter_def)
    have s: "rs_mode s = rs_mode (rn_runs r ! ?k)" "rs_mode s = RunCancelled \<Longrightarrow> rs_queue s = []"
      using pend by (simp_all add: s_def run)
    note modes = set_run_modes [OF k s(1) fields(1)]
    have "runs_ok q" by (rule set_run_runs_ok [OF core(4) k s(1) fields(1)]) (use s(2) core(4) in \<open>simp_all add: fields runs_ok_def\<close>)
    moreover have "reservations_ok q"
    proof -
      have "j < length (rn_tickets q) \<and> tk_state (rn_tickets q ! j) = Reserved \<and> tk_run (rn_tickets q ! j) = current_run q"
        if "j \<in> set (rn_reservations q)" for j
      proof -
        from that have "j \<in> set (rn_reservations r)" "j \<noteq> i" by (simp_all add: fields(2))
        with core(3) show ?thesis unfolding reservations_ok_def fields(6) tickets modes(1) by auto
      qed
      moreover have "j \<in> set (rn_reservations q)" if "j < length (rn_tickets q)" "tk_state (rn_tickets q ! j) = Reserved" for j
      proof -
        from that have "j < length (rn_tickets r)" "j \<noteq> i" "tk_state (rn_tickets r ! j) = Reserved"
          by (auto simp: fields(6) tickets split: if_splits)
        with core(3) show ?thesis unfolding reservations_ok_def fields(2) by auto
      qed
      moreover have "distinct (rn_reservations q)" using i(3) by (simp add: fields(2))
      ultimately show ?thesis unfolding reservations_ok_def by blast
    qed
    moreover have "counters_ok q" using core(1) len by (simp add: counters_ok_def places fields(3,7-9))
    moreover have "tasks_ok q" using core(2) by (simp add: tasks_ok_def places)
    ultimately have "runner_ok q" using ok by (auto simp: runner_ok_def runner_core_def fields)
    then show ?thesis by (simp add: commit_pending [OF ok True] q_def s_def)
  qed
qed

lemma submit_ok:
  assumes "runner_ok r"
  shows "runner_ok (snd (submit t r))" "runner_ok (snd (submit_future t r))"
proof -
  obtain res q where r: "runner_reserve r = (res, q)" by fastforce
  then have q: "runner_ok q" using runner_reserve_ok [OF assms] by simp
  obtain b p where c: "commit_reserved (the res) t q = (b, p)" by fastforce
  then have p: "runner_ok p" using commit_ok [OF q, of "the res" t] by simp
  show "runner_ok (snd (submit t r))" using q p rollback_ok [OF p] r c
    by (cases res) (simp_all add: submit_def)
  show "runner_ok (snd (submit_future t r))" using q p r c
    by (cases res) (simp_all add: submit_future_def)
qed

section \<open>Worker threads\<close>

lemma set_phase_places:
  fixes ph :: worker_phase
  assumes "n < length (rn_workers r)"
  defines "w \<equiv> rn_workers r ! n" and "v \<equiv> (rn_workers r ! n)\<lparr>wt_phase := ph\<rparr>"
  shows "took (set_phase n ph r) + took_of w = took r + took_of v"
    and "calling (set_phase n ph r) + in_callback w = calling r + in_callback v"
    and "holding (set_phase n ph r) + of_bool (holds_worker_slot w) = holding r + of_bool (holds_worker_slot v)"
    and "queued (set_phase n ph r) = queued r" "admitted (set_phase n ph r) = admitted r"
    "called (set_phase n ph r) = called r" "cancel_called (set_phase n ph r) = cancel_called r"
  using sum_list_map_update [OF assms(1), of took_of v] sum_list_map_update [OF assms(1), of in_callback v]
    sum_list_map_update [OF assms(1), of "\<lambda>w. of_bool (holds_worker_slot w)" v]
  by (simp_all add: places set_phase_def w_def v_def)

lemma set_phase_fields:
  "rn_runs (set_phase n ph r) = rn_runs r" "rn_reservations (set_phase n ph r) = rn_reservations r"
  "rn_tickets (set_phase n ph r) = rn_tickets r" "rn_accepted (set_phase n ph r) = rn_accepted r"
  "rn_closed (set_phase n ph r) = rn_closed r" "rn_active (set_phase n ph r) = rn_active r"
  "runner_capacity (set_phase n ph r) = runner_capacity r" "rn_max_workers (set_phase n ph r) = rn_max_workers r"
  "rn_events (set_phase n ph r) = rn_events r"
  by (simp_all add: set_phase_def runner_capacity_def)

lemma set_phase_workers:
  "n < length (rn_workers r) \<Longrightarrow> \<forall>w \<in> set (rn_workers r). wt_run w < m \<Longrightarrow>
     \<forall>w \<in> set (rn_workers (set_phase n ph r)). wt_run w < m"
proof (intro ballI)
  fix w assume n: "n < length (rn_workers r)" and all: "\<forall>w \<in> set (rn_workers r). wt_run w < m"
    and "w \<in> set (rn_workers (set_phase n ph r))"
  then have "w = (rn_workers r ! n)\<lparr>wt_phase := ph\<rparr> \<or> w \<in> set (rn_workers r)"
    using set_update_subset_insert [of "rn_workers r" n] by (auto simp: set_phase_def)
  with n all show "wt_run w < m" by auto
qed

text \<open>A step that only moves a thread and adjusts the counters and the log.\<close>

lemma thread_moved:
  assumes "runner_ok r" "rn_runs q = rn_runs r" "rn_reservations q = rn_reservations r" "rn_tickets q = rn_tickets r"
    and "rn_closed q = rn_closed r" "\<forall>w \<in> set (rn_workers q). wt_run w < length (rn_runs r)"
    and "counters_ok q" "tasks_ok q"
  shows "runner_ok q"
proof -
  have "current_run q = current_run r" "current_mode q = current_mode r"
    by (simp_all add: current_mode_def run_of_def current_run_def assms(2))
  moreover have "runner_core r" "rn_reservations r \<noteq> [] \<longrightarrow> \<not> rn_closed r"
    using assms(1) by (simp_all add: runner_ok_def)
  ultimately show ?thesis
    using assms(2-8) unfolding runner_ok_def runner_core_def runs_ok_def reservations_ok_def by auto
qed

definition events_called :: "runner_event list \<Rightarrow> task multiset" where
  "events_called es = mset (List.map_filter (\<lambda>e. case e of Called t \<Rightarrow> Some t | _ \<Rightarrow> None) es)"

definition events_cancelled :: "runner_event list \<Rightarrow> task multiset" where
  "events_cancelled es = mset (List.map_filter (\<lambda>e. case e of CancelCalled t \<Rightarrow> Some t | _ \<Rightarrow> None) es)"

lemma thread_step_ok:
  fixes ph :: worker_phase
  assumes "runner_ok r" "n < length (rn_workers r)"
  defines "w \<equiv> rn_workers r ! n" and "v \<equiv> (rn_workers r ! n)\<lparr>wt_phase := ph\<rparr>"
  assumes accepted: "size (took_of w) + in_callback w = size (took_of v) + in_callback v + da"
    and active: "a = rn_active r + int (in_callback v) - int (in_callback w)"
    and slots: "holding r + of_bool (holds_worker_slot v) \<le> rn_max_workers r + of_bool (holds_worker_slot w)"
    and tasks: "took_of w = took_of v + events_called es + events_cancelled es" "\<And>t. Admitted t \<notin> set es"
  shows "runner_ok (set_phase n ph (r\<lparr>rn_accepted := rn_accepted r - int da, rn_active := a, rn_events := rn_events r @ es\<rparr>))"
proof -
  define p where "p = r\<lparr>rn_accepted := rn_accepted r - int da, rn_active := a, rn_events := rn_events r @ es\<rparr>"
  define q where "q = set_phase n ph p"
  have np: "n < length (rn_workers p)" "rn_workers p = rn_workers r" using assms(2) by (simp_all add: p_def)
  have none: "List.map_filter (\<lambda>e. case e of Admitted t \<Rightarrow> Some t | _ \<Rightarrow> None) es = []"
    using tasks(2) by (induction es) (auto simp: List.map_filter_def split: runner_event.split)
  have p: "took p = took r" "calling p = calling r" "holding p = holding r" "queued p = queued r" "admitted p = admitted r"
    "called p = called r + events_called es" "cancel_called p = cancel_called r + events_cancelled es"
    using none by (simp_all add: p_def places events_called_def events_cancelled_def List.map_filter_def)
  note q = set_phase_places [OF np(1), of ph, folded q_def, unfolded np(2) p, folded w_def v_def]
  have fields: "rn_runs q = rn_runs r" "rn_reservations q = rn_reservations r" "rn_tickets q = rn_tickets r"
    "rn_closed q = rn_closed r" "rn_accepted q = rn_accepted r - int da" "rn_active q = a" "runner_capacity q = runner_capacity r"
    "rn_max_workers q = rn_max_workers r"
    by (simp_all add: q_def set_phase_fields p_def) (simp add: runner_capacity_def)
  have ok: "counters_ok r" "tasks_ok r" "\<forall>w \<in> set (rn_workers r). wt_run w < length (rn_runs r)"
    using assms(1) by (auto simp: runner_ok_def runner_core_def runs_ok_def)
  have "\<forall>w \<in> set (rn_workers q). wt_run w < length (rn_runs r)"
    unfolding q_def by (rule set_phase_workers [OF np(1)]) (simp add: np(2) ok(3))
  moreover have "counters_ok q"
  proof -
    have "size (took q) + size (took_of w) = size (took r) + size (took_of v)" using q(1) by (metis size_union)
    with ok(1) accepted active slots q(2-4) show ?thesis by (auto simp: counters_ok_def fields)
  qed
  moreover have "tasks_ok q"
  proof -
    from q(1) tasks(1) have "took q + events_called es + events_cancelled es + took_of v = took r + took_of v"
      by (simp add: ac_simps)
    then have "took q + events_called es + events_cancelled es = took r" by simp
    with ok(2) q(4-7) show ?thesis by (simp add: tasks_ok_def) (simp add: ac_simps)
  qed
  ultimately have "runner_ok q" by (intro thread_moved [OF assms(1) fields(1-4)])
  then show ?thesis by (simp add: q_def p_def)
qed

text \<open>A worker takes the oldest task of its run.\<close>

lemma take_task_ok:
  assumes "runner_ok r" "n < length (rn_workers r)" "wt_phase (rn_workers r ! n) = Polling"
  defines "k \<equiv> wt_run (rn_workers r ! n)"
  assumes "rs_queue (run_of r k) = t # ts"
  shows "runner_ok (set_phase n (Took t) (set_run k ((run_of r k)\<lparr>rs_queue := ts\<rparr>) r))"
proof -
  have core: "counters_ok r" "tasks_ok r" "runs_ok r" using assms(1) by (auto simp: runner_ok_def runner_core_def)
  have workers: "\<forall>w \<in> set (rn_workers r). wt_run w < length (rn_runs r)" using core(3) by (simp add: runs_ok_def)
  have k: "k < length (rn_runs r)" using workers assms(2) by (simp add: k_def)
  then have run: "run_of r k = rn_runs r ! k" by (simp add: run_of_def)
  define s where "s = (run_of r k)\<lparr>rs_queue := ts\<rparr>"
  define p where "p = set_run k s r"
  define q where "q = set_phase n (Took t) p"
  have np: "n < length (rn_workers p)" "rn_workers p = rn_workers r" using assms(2) by (simp_all add: p_def set_run_def)
  have "queued p + mset (t # ts) = queued r + mset ts"
    using queued_set_run [OF k, of s] assms(5) by (simp add: p_def s_def run)
  then have queue: "add_mset t (queued p) = queued r" by simp
  then have size: "size (queued r) = Suc (size (queued p))" by (metis size_add_mset)
  have p: "took p = took r" "calling p = calling r" "holding p = holding r" "admitted p = admitted r" "called p = called r"
    "cancel_called p = cancel_called r" by (simp_all add: p_def set_run_def places)
  have q: "took q = add_mset t (took r)" "calling q = calling r" "holding q = holding r" "queued q = queued p"
    "admitted q = admitted r" "called q = called r" "cancel_called q = cancel_called r"
    using set_phase_places [OF np(1), of "Took t"] np(2) assms(3)
    by (simp_all add: q_def p took_of_def in_callback_def holds_worker_slot_def)
  have fields: "rn_runs q = (rn_runs r)[k := s]" "rn_reservations q = rn_reservations r" "rn_tickets q = rn_tickets r"
    "rn_closed q = rn_closed r" "rn_accepted q = rn_accepted r" "rn_active q = rn_active r" "runner_capacity q = runner_capacity r"
    "rn_max_workers q = rn_max_workers r"
    by (simp_all add: q_def set_phase_fields p_def set_run_def) (simp add: runner_capacity_def)
  have s: "rs_mode s = rs_mode (rn_runs r ! k)" "rs_mode s = RunCancelled \<Longrightarrow> rs_queue s = []"
    using core(3) k assms(5) by (auto simp: s_def run runs_ok_def)
  have "\<forall>w \<in> set (rn_workers q). wt_run w < length (rn_runs r)"
    unfolding q_def by (rule set_phase_workers [OF np(1)]) (simp add: np(2) workers)
  then have "runs_ok q" using s(2) by (intro set_run_runs_ok [OF core(3) k s(1) fields(1) _ fields(4)])
  moreover have "counters_ok q" using core(1) size by (simp add: counters_ok_def q fields)
  moreover have "tasks_ok q" using core(2) by (simp add: tasks_ok_def q queue [symmetric])
  moreover have "reservations_ok q"
    using assms(1) set_run_modes(1) [OF k s(1) fields(1)]
    by (simp add: runner_ok_def runner_core_def reservations_ok_def fields)
  ultimately have "runner_ok q" using assms(1) by (simp add: runner_ok_def runner_core_def fields)
  then show ?thesis by (simp add: q_def p_def s_def)
qed

lemma worker_step_ok:
  assumes "runner_ok r"
  shows "runner_ok (worker_step n r)"
proof (cases "n < length (rn_workers r)")
  case False
  with assms show ?thesis by (simp add: worker_step_def)
next
  case n: True
  have slots: "holding r \<le> rn_max_workers r" using assms by (simp add: runner_ok_def runner_core_def counters_ok_def)
  note step = thread_step_ok [OF assms n]
  have same: "r\<lparr>rn_accepted := rn_accepted r - int 0, rn_active := rn_active r, rn_events := rn_events r @ []\<rparr> = r" by simp
  note move = step [where da = 0 and a = "rn_active r" and es = "[]", unfolded same]
  note simps = worker_step_def Let_def holding_filter took_of_def in_callback_def holds_worker_slot_def
    events_called_def events_cancelled_def List.map_filter_def notify_cancelled_def
  show ?thesis
  proof (cases "wt_phase (rn_workers r ! n)")
    case WaitSlot
    with move [of Polling] n assms show ?thesis by (simp add: simps)
  next
    case Polling
    with move [of SawEmpty] take_task_ok [OF assms n Polling] n slots show ?thesis
      by (simp add: simps split: list.split)
  next
    case SawEmpty
    with move [of Exited] move [of Polling] n slots show ?thesis by (simp add: simps)
  next
    case (Took t)
    with step [where ph = "InCallback t" and da = 0 and a = "rn_active r + 1" and es = "[Called t]"]
      step [where ph = Exited and da = 1 and a = "rn_active r" and es = "[CancelCalled t]"] n slots
    show ?thesis by (simp add: simps)
  next
    case (InCallback t)
    have order: "r\<lparr>rn_active := a, rn_accepted := b\<rparr> = r\<lparr>rn_accepted := b, rn_active := a\<rparr>" for a b by simp
    from InCallback step [where ph = Polling and da = 1 and a = "rn_active r - 1" and es = "[]"] n slots
    show ?thesis by (simp add: simps order)
  next
    case Exited
    with n assms show ?thesis by (simp add: worker_step_def)
  qed
qed


section \<open>Every interleaving\<close>

lemma runner_step_ok: "runner_ok r \<Longrightarrow> runner_step r q \<Longrightarrow> runner_ok q"
  by (erule runner_step.cases)
    (simp_all add: start_ok restart_ok shutdown_ok runner_reserve_ok commit_ok rollback_ok submit_ok worker_step_ok)

lemma new_runner_ok: "runner_ok (new_runner mw qs)"
  using new_runner_core by (simp add: runner_ok_def) (simp add: new_runner_def)

interpretation runner: safety_system "\<lambda>r. r = new_runner mw qs" runner_step runner_ok for mw qs
  by unfold_locales (auto simp: new_runner_ok intro: runner_step_ok)

lemma calling_holding: "calling r \<le> holding r"
proof -
  have "sum_list (map in_callback ws) \<le> sum_list (map (\<lambda>w. of_bool (holds_worker_slot w)) ws)" for ws
    by (rule sum_list_mono) (simp add: in_callback_def holds_worker_slot_def split: worker_phase.split)
  then show ?thesis by (simp add: calling_def holding_def)
qed

text \<open>The sizes never change.\<close>

definition same_size :: "runner \<Rightarrow> runner \<Rightarrow> bool" where
  "same_size r q \<longleftrightarrow> rn_max_workers q = rn_max_workers r \<and> rn_queue_size q = rn_queue_size r"

lemma same_size_refl [simp]: "same_size r r"
  by (simp add: same_size_def)

lemma same_size_trans: "same_size r q \<Longrightarrow> same_size q p \<Longrightarrow> same_size r p"
  by (simp add: same_size_def)

lemma same_size_start_locked: "same_size r (start_locked k r)"
  by (simp add: same_size_def start_locked_def set_run_def)

lemma same_size_start: "same_size r (start r)"
  by (simp add: same_size_def start_def start_locked_def set_run_def open_new_run_def Let_def)

lemma same_size_cancel: "same_size r (cancel_reservation_locked i r)"
  by (simp add: same_size_def cancel_reservation_locked_def set_ticket_def Let_def)

lemma same_size_fold: "same_size r (fold cancel_reservation_locked js r)"
proof (induction js arbitrary: r)
  case (Cons j js)
  show ?case using same_size_trans [OF same_size_cancel Cons.IH] by simp
qed simp

lemma same_size_close: "same_size r (snd (close_locked wait r))"
proof -
  have "rn_max_workers (fold cancel_reservation_locked js q) = rn_max_workers q"
    "rn_queue_size (fold cancel_reservation_locked js q) = rn_queue_size q" for js q
    using same_size_fold [of q js] by (simp_all add: same_size_def)
  then show ?thesis by (simp add: close_locked_def Let_def same_size_def set_run_def)
qed

lemma same_size_shutdown: "same_size r (shutdown wait r)"
  using same_size_close [of r wait] by (simp add: shutdown_def split_beta notify_cancelled_def same_size_def)

lemma same_size_restart: "same_size r (restart r)"
proof -
  have "same_size r (open_new_run (snd (close_locked False r)))"
    using same_size_close [of r False] by (simp add: same_size_def open_new_run_def)
  from same_size_trans [OF this same_size_start_locked] show ?thesis
    by (simp add: restart_def split_beta Let_def notify_cancelled_def same_size_def)
qed

lemma same_size_reserve: "same_size r (snd (runner_reserve r))"
  using same_size_start_locked [of r "current_run r"] by (simp add: runner_reserve_def Let_def same_size_def)

lemma same_size_commit: "same_size r (snd (commit_reserved i t r))"
  using same_size_cancel [of r i] by (simp add: commit_reserved_def Let_def same_size_def set_ticket_def set_run_def)

lemma same_size_rollback: "same_size r (snd (rollback i r))"
  by (simp add: rollback_def same_size_def set_ticket_def)

lemma same_size_submit: "same_size r (snd (submit t r))" "same_size r (snd (submit_future t r))"
proof -
  obtain res q where r: "runner_reserve r = (res, q)" by fastforce
  obtain b p where c: "commit_reserved (the res) t q = (b, p)" by fastforce
  have "same_size r q" "same_size q p" "same_size p (snd (rollback (the res) p))"
    using same_size_reserve [of r] same_size_commit [of q "the res" t] same_size_rollback r c by simp_all
  then have "same_size r q" "same_size r p" "same_size r (snd (rollback (the res) p))" by (simp_all add: same_size_def)
  with r c show "same_size r (snd (submit t r))" "same_size r (snd (submit_future t r))"
    by (cases res; simp add: submit_def submit_future_def)+
qed

lemma same_size_work: "same_size r (worker_step n r)"
  by (simp add: worker_step_def Let_def same_size_def set_phase_def set_run_def notify_cancelled_def
      split: worker_phase.split list.split)

lemma runner_steps_size: "runner_step\<^sup>*\<^sup>* r q \<Longrightarrow> same_size r q"
proof (induction rule: rtranclp_induct)
  case (step q p)
  from step.hyps(2) have "same_size q p"
    by (cases) (simp_all add: same_size_start same_size_restart same_size_shutdown same_size_reserve same_size_commit
        same_size_rollback same_size_submit same_size_work)
  with step.IH show ?case by (rule same_size_trans)
qed simp

text \<open>Traces, read backwards from their last step.\<close>

lemma runner_trace:
  "runner_step\<^sup>*\<^sup>* r r"
  "runner_step\<^sup>*\<^sup>* r q \<Longrightarrow> runner_step\<^sup>*\<^sup>* r (start q)"
  "runner_step\<^sup>*\<^sup>* r q \<Longrightarrow> runner_step\<^sup>*\<^sup>* r (shutdown wait q)"
  "runner_step\<^sup>*\<^sup>* r q \<Longrightarrow> runner_step\<^sup>*\<^sup>* r (snd (runner_reserve q))"
  "runner_step\<^sup>*\<^sup>* r q \<Longrightarrow> runner_step\<^sup>*\<^sup>* r (snd (submit t q))"
  "runner_step\<^sup>*\<^sup>* r q \<Longrightarrow> runner_step\<^sup>*\<^sup>* r (worker_step n q)"
  by (auto intro: rtranclp.rtrancl_into_rtrancl runner_step.intros)

lemmas runner_reached = runner.reachable_invariant [OF refl]


section \<open>What the callers can rely on\<close>

text \<open>
  Property C28. In every interleaving of the calls with the worker threads, the runner counts
  as accepted exactly the pending reservations, the queued tasks, the tasks a worker has just
  read and the running callbacks; \<open>status\<close> reports that number and the number of running
  callbacks; and never are more than \<open>max_workers + queue_size\<close> tasks accepted, nor more
  than \<open>max_workers\<close> callbacks running at once, whatever runs are drained or restarted.
\<close>

theorem runner_accounting:
  assumes "runner_step\<^sup>*\<^sup>* (new_runner max_workers queue_size) r"
  shows "st_accepted (status r) = int (st_reserved (status r) + size (queued r) + size (took r) + calling r) \<and>
    st_active (status r) = int (calling r) \<and>
    st_accepted (status r) \<le> max 1 max_workers + max 1 queue_size \<and>
    st_active (status r) \<le> max 1 max_workers"
proof -
  have ok: "counters_ok r" using runner_reached [OF assms] by (simp add: runner_ok_def runner_core_def)
  have "same_size (new_runner max_workers queue_size) r" by (rule runner_steps_size [OF assms])
  then have "rn_max_workers r = nat (max 1 max_workers)" "runner_capacity r = nat (max 1 max_workers) + nat (max 1 queue_size)"
    by (simp_all add: same_size_def new_runner_def runner_capacity_def)
  then have "int (rn_max_workers r) = max 1 max_workers" "int (runner_capacity r) = max 1 max_workers + max 1 queue_size"
    by (auto simp: max_def)
  with ok calling_holding [of r] show ?thesis by (simp add: counters_ok_def status_def del: max.bounded_iff le_max_iff_disj)
qed

text \<open>A run of one worker with a queue of one: two tasks are accepted, the third is refused.\<close>

definition busy_runner :: runner where
  "busy_runner = snd (submit 13 (snd (submit 12 (snd (submit 11 (new_runner 1 1))))))"

lemma busy_runner_steps: "runner_step\<^sup>*\<^sup>* (new_runner 1 1) busy_runner"
  unfolding busy_runner_def by (intro runner_trace)

lemma runner_accounting_witness: "st_accepted (status busy_runner) \<le> 2 \<and> st_accepted (status busy_runner) = 2"
proof -
  have "st_accepted (status busy_runner) \<le> 2" using runner_accounting [OF busy_runner_steps] by simp
  moreover have "st_accepted (status busy_runner) = 2" by code_simp
  ultimately show ?thesis by simp
qed


text \<open>The first task is running when the runner is shut down without waiting: the second is cancelled.\<close>

definition stopped_runner :: runner where
  "stopped_runner = shutdown False (worker_step 0 (worker_step 0 (worker_step 0 busy_runner)))"

lemma stopped_runner_steps: "runner_step\<^sup>*\<^sup>* (new_runner 1 1) stopped_runner"
  unfolding stopped_runner_def
  by (intro runner_trace(3,6) busy_runner_steps)

lemma stopped_runner_events: "rn_events stopped_runner = [Admitted 11, Admitted 12, Called 11, CancelCalled 12]"
  by code_simp


text \<open>
  Property C30. A pending reservation is a promise: whenever it is committed, whatever other
  threads have admitted, run or drained in between, the task is appended to the current queue
  (the queue is never found full and the runner never found closed), the accepted count does
  not change, and the reservation is used up: a second commit and a rollback are refused
  without effect.
\<close>

theorem pending_reservation_commits:
  assumes "runner_step\<^sup>*\<^sup>* (new_runner max_workers queue_size) r" "owns_pending r i"
  shows "case commit_reserved i t r of
    (committed, q) \<Rightarrow> committed \<and> rs_queue (run_of q (current_run q)) = rs_queue (run_of r (current_run r)) @ [t] \<and>
      rn_accepted q = rn_accepted r \<and> commit_reserved i u q = (False, q) \<and> rollback i q = (False, q)"
proof -
  have ok: "runner_ok r" by (rule runner_reached [OF assms(1)])
  then have "runs_ok r" by (simp add: runner_ok_def runner_core_def)
  then have cur: "current_run r < length (rn_runs r)" by (simp add: run_of_current)
  define q where "q = snd (commit_reserved i t r)"
  have q: "commit_reserved i t r = (True, q)" by (simp add: q_def commit_pending [OF ok assms(2)])
  have gone: "\<not> owns_pending q i"
    by (simp add: q_def commit_pending [OF ok assms(2)] owns_pending_def set_ticket_def set_run_def)
  have "rs_queue (run_of q (current_run q)) = rs_queue (run_of r (current_run r)) @ [t]" "rn_accepted q = rn_accepted r"
    using cur by (simp_all add: q_def commit_pending [OF ok assms(2)] run_of_def current_run_def set_ticket_def set_run_def)
  with gone q show ?thesis by (simp add: commit_reserved_def rollback_def)
qed

lemma pending_reservation_commits_witness:
  "case commit_reserved 2 14 (snd (runner_reserve (worker_step 0 (worker_step 0 (worker_step 0 (snd (submit 12 (snd (submit 11 (new_runner 1 2))))))))))
   of (committed, q) \<Rightarrow> committed"
proof -
  let ?r = "snd (runner_reserve (worker_step 0 (worker_step 0 (worker_step 0 (snd (submit 12 (snd (submit 11 (new_runner 1 2)))))))))"
  have "runner_step\<^sup>*\<^sup>* (new_runner 1 2) ?r"
    by (intro runner_trace)
  moreover have "owns_pending ?r 2" by code_simp
  ultimately show ?thesis using pending_reservation_commits [of 1 2 ?r 2 14 15] by (simp add: split_beta)
qed

section \<open>A task that waits for ever\<close>

text \<open>
  A worker whose read timed out looks at the mode of its run later, under the lock. When a
  task is committed and the runner is told to drain in between, the worker leaves although
  its queue is not empty.
\<close>

definition stranded_runner :: "task \<Rightarrow> runner" where
  "stranded_runner t =
     worker_step 0 (shutdown True (snd (submit t (worker_step 0 (worker_step 0 (start (new_runner 1 1)))))))"

lemma stranded_runner_steps: "runner_step\<^sup>*\<^sup>* (new_runner 1 1) (stranded_runner t)"
  unfolding stranded_runner_def
  by (intro runner_trace)

lemma stranded_runner_state:
  "stranded_runner t =
     \<lparr>rn_max_workers = 1, rn_queue_size = 1, rn_runs = [\<lparr>rs_queue = [t], rs_mode = RunDraining, rs_started = True\<rparr>],
      rn_tickets = [\<lparr>tk_run = 0, tk_state = Committed\<rparr>], rn_reservations = [],
      rn_workers = [\<lparr>wt_run = 0, wt_phase = Exited\<rparr>], rn_accepted = 1, rn_active = 0, rn_closed = True,
      rn_events = [Admitted t]\<rparr>"
  by (simp add: stranded_runner_def new_runner_def start_def start_locked_def current_mode_def run_of_def current_run_def
      fresh_run_def set_run_def worker_step_def holds_worker_slot_def set_phase_def submit_def runner_reserve_def runner_capacity_def
      commit_reserved_def owns_pending_def set_ticket_def shutdown_def close_locked_def closing_mode_def notify_cancelled_def Let_def)

text \<open>
  Property C31. \<open>shutdown(wait=True)\<close> can wait for ever: there is an interleaving of one
  worker with a caller that submits a task and then drains the runner after which the task
  is still queued, the only worker thread has left, no step of a worker changes anything, and
  \<open>queue.join\<close> therefore never returns; starting the runner again does not bring the task
  back, which keeps its share of the capacity.
\<close>

theorem draining_can_strand_task:
  "\<exists>r. runner_step\<^sup>*\<^sup>* (new_runner 1 1) r \<and> rs_mode (run_of r 0) = RunDraining \<and> rs_queue (run_of r 0) = [t] \<and>
     (\<forall>n. worker_step n r = r) \<and> rs_queue (run_of (start r) 0) = [t] \<and> current_run (start r) = 1 \<and>
     st_accepted (status (start r)) = 1"
proof (intro exI conjI)
  show "runner_step\<^sup>*\<^sup>* (new_runner 1 1) (stranded_runner t)" by (rule stranded_runner_steps)
  have "worker_step n (stranded_runner t) = stranded_runner t" for n
    by (cases n) (simp_all add: stranded_runner_state worker_step_def Let_def)
  then show "\<forall>n. worker_step n (stranded_runner t) = stranded_runner t" by blast
qed (simp_all add: stranded_runner_state run_of_def current_run_def start_def start_locked_def open_new_run_def status_def
    fresh_run_def set_run_def Let_def)

end
