(* ===== verification/Auth_Service.thy ===== *)
theory Auth_Service
  imports Keyed_Storage Account_Model
begin

text \<open>
  The keys of the callers (\<open>services/auth_service.py\<close>): a view of the stored keys with the
  revision it was read at, refreshed from time to time, and changed by compare and swap in
  at most four attempts. Text is the list of its UTF-8 bytes.
\<close>

section \<open>Keys\<close>

datatype auth_role = AdminRole | UserRole

text \<open>A normal item; the dictionary the storage keeps is \<open>auth_dict\<close> of it.\<close>

record auth_item =
  ai_id :: string
  ai_name :: string
  ai_role :: auth_role
  ai_hash :: string
  ai_enabled :: bool
  ai_created :: string
  ai_last_used :: "string option"

definition role_text :: "auth_role \<Rightarrow> string" where
  "role_text r = (case r of AdminRole \<Rightarrow> ''admin'' | UserRole \<Rightarrow> ''user'')"

definition auth_dict :: "auth_item \<Rightarrow> account" where
  "auth_dict x = fmap_of_list
     [(''id'', PStr (ai_id x)), (''name'', PStr (ai_name x)), (''role'', PStr (role_text (ai_role x))),
      (''key_hash'', PStr (ai_hash x)), (''enabled'', PBool (ai_enabled x)), (''created_at'', PStr (ai_created x)),
      (''last_used_at'', case ai_last_used x of None \<Rightarrow> PNone | Some t \<Rightarrow> PStr t)]"

definition default_name :: "auth_role \<Rightarrow> string" where
  "default_name r =
     (case r of
        AdminRole \<Rightarrow> [CHR 0xE7, CHR 0xAE, CHR 0xA1, CHR 0xE7, CHR 0x90, CHR 0x86, CHR 0xE5, CHR 0x91, CHR 0x98, CHR 0xE5, CHR 0xAF, CHR 0x86, CHR 0xE9, CHR 0x92, CHR 0xA5]
      | UserRole \<Rightarrow> [CHR 0xE6, CHR 0x99, CHR 0xAE, CHR 0xE9, CHR 0x80, CHR 0x9A, CHR 0xE7, CHR 0x94, CHR 0xA8, CHR 0xE6, CHR 0x88, CHR 0xB7])"

text \<open>
  \<open>_normalize_item\<close> on a dictionary, the only values the storage returns. \<open>now\<close> is the
  reading of the clock.
\<close>

definition normalize_auth_item :: "account_env \<Rightarrow> time \<Rightarrow> account \<Rightarrow> auth_item option" where
  "normalize_auth_item env now raw =
     (let role = py_lower (field_text env raw ''role'');
          key_hash = field_text env raw ''key_hash'';
          item_id = field_text env raw ''id'';
          r = (if role = ''admin'' then AdminRole else UserRole);
          name = field_text env raw ''name'';
          created = field_text env raw ''created_at''
      in if role \<noteq> ''admin'' \<and> role \<noteq> ''user'' then None
         else if key_hash = '''' then None
         else if item_id = '''' then None
         else Some
           \<lparr>ai_id = item_id,
            ai_name = (if name = '''' then default_name r else name),
            ai_role = r,
            ai_hash = key_hash,
            ai_enabled = (case fmlookup raw ''enabled'' of None \<Rightarrow> True | Some v \<Rightarrow> truthy v),
            ai_created = (if created = '''' then env_stamp env now else created),
            ai_last_used = none_if_empty (field_text env raw ''last_used_at'')\<rparr>)"

definition auth_key_of :: "account_env \<Rightarrow> account \<Rightarrow> string" where
  "auth_key_of env raw = field_text env raw ''id''"

definition load_auth_snapshot :: "account_env \<Rightarrow> time \<Rightarrow> account storage \<Rightarrow> auth_item list \<times> nat" where
  "load_auth_snapshot env now s =
     (case load_snapshot s of (items, revision) \<Rightarrow> (List.map_filter (normalize_auth_item env now) items, revision))"

section \<open>The service\<close>

text \<open>
  \<open>as_checked\<close> and \<open>as_refreshed\<close> are the monotonic times of the last attempt and of the last
  success of a refresh, 0 before the first one.
\<close>

record auth_service =
  as_items :: "auth_item list"
  as_revision :: "nat option"
  as_flushed :: "(string \<times> time) list"
  as_checked :: time
  as_refreshed :: time

definition new_auth_service :: auth_service where
  "new_auth_service = \<lparr>as_items = [], as_revision = None, as_flushed = [], as_checked = 0, as_refreshed = 0\<rparr>"

text \<open>
  The surroundings of one call: the two clocks, the configured administrator key, what the
  other processes do to the storage before its access \<open>i\<close>, whether access \<open>i\<close> fails, and the
  random keys and identifiers drawn in attempt \<open>i\<close>.
\<close>

record auth_world =
  aw_now :: time
  aw_mono :: time
  aw_admin_key :: string
  aw_others :: "nat \<Rightarrow> account storage \<Rightarrow> account storage"
  aw_down :: "nat \<Rightarrow> bool"
  aw_tokens :: "nat \<Rightarrow> string list"
  aw_ids :: "nat \<Rightarrow> string list"

datatype auth_error =
    EmptyKey
  | AdminKeyClash
  | KeyExists
  | NameExists
  | StorageRefused storage_error
  | StorageDown
  | RetryExhausted
  | StillDrawing

definition refresh_interval :: time where "refresh_interval = secs 5"

definition max_stale :: time where "max_stale = secs 30"

definition cas_attempts :: nat where "cas_attempts = 4"

text \<open>\<open>_reload_locked\<close>: whether the snapshot could be read; its callers raise or go on without.\<close>

definition reload ::
  "account_env \<Rightarrow> auth_world \<Rightarrow> nat \<Rightarrow> auth_service \<Rightarrow> account storage \<Rightarrow> bool \<times> auth_service \<times> account storage" where
  "reload env w i a s =
     (let s = aw_others w i s
      in if aw_down w i then (False, a, s)
         else case load_auth_snapshot env (aw_now w) s of (items, revision) \<Rightarrow>
           (True, a\<lparr>as_items := items, as_revision := Some revision, as_checked := aw_mono w, as_refreshed := aw_mono w\<rparr>, s))"

definition init_auth_service ::
  "account_env \<Rightarrow> auth_world \<Rightarrow> account storage \<Rightarrow> auth_service \<times> account storage" where
  "init_auth_service env w s = snd (reload env w 0 new_auth_service s)"

definition snapshot_is_usable :: "time \<Rightarrow> auth_service \<Rightarrow> bool" where
  "snapshot_is_usable tick a \<longleftrightarrow> 0 < as_refreshed a \<and> tick - as_refreshed a \<le> max_stale"

text \<open>
  \<open>_refresh_snapshot_if_due\<close>: \<open>busy\<close> when another thread is refreshing; \<open>meanwhile\<close> is what
  the other threads of the process do to the view while the snapshot is read. The second
  look at the clock under the lock comes to the same result as the first.
\<close>

definition refresh_snapshot_if_due ::
  "account_env \<Rightarrow> auth_world \<Rightarrow> bool \<Rightarrow> (auth_service \<Rightarrow> auth_service) \<Rightarrow> auth_service \<Rightarrow> account storage \<Rightarrow>
   bool \<times> auth_service \<times> account storage" where
  "refresh_snapshot_if_due env w busy meanwhile a s =
     (let tick = aw_mono w
      in if tick - as_checked a < refresh_interval then (snapshot_is_usable tick a, a, s)
         else if busy then (snapshot_is_usable tick a, a, s)
         else
           let a = a\<lparr>as_checked := tick\<rparr>;
               expected = as_revision a;
               s = aw_others w 0 s;
               a = meanwhile a
           in if aw_down w 0 then (snapshot_is_usable tick a, a, s)
              else case load_auth_snapshot env (aw_now w) s of (items, revision) \<Rightarrow>
                if as_revision a \<noteq> expected then (snapshot_is_usable tick a, a, s)
                else (True, a\<lparr>as_items := items, as_revision := Some revision, as_refreshed := tick,
                        as_flushed := filter (\<lambda>(k, t). k \<in> ai_id ` set items) (as_flushed a)\<rparr>, s))"

definition set_cached_item :: "auth_item \<Rightarrow> nat \<Rightarrow> auth_service \<Rightarrow> auth_service" where
  "set_cached_item x revision a =
     a\<lparr>as_items := filter (\<lambda>y. ai_id y \<noteq> ai_id x) (as_items a) @ [x], as_revision := Some revision\<rparr>"

definition delete_cached_item :: "string \<Rightarrow> nat \<Rightarrow> auth_service \<Rightarrow> auth_service" where
  "delete_cached_item k revision a =
     a\<lparr>as_items := filter (\<lambda>y. ai_id y \<noteq> k) (as_items a), as_revision := Some revision\<rparr>"

text \<open>
  The items of the view are in normal form: cleaning their fields again, as these functions
  do, changes nothing.
\<close>

definition find_item :: "string \<Rightarrow> auth_role option \<Rightarrow> auth_item list \<Rightarrow> auth_item option" where
  "find_item k role items =
     (case find (\<lambda>x. ai_id x = k) items of
        None \<Rightarrow> None
      | Some x \<Rightarrow> if role \<noteq> None \<and> role \<noteq> Some (ai_role x) then None else Some x)"

definition find_hash :: "string \<Rightarrow> auth_item list \<Rightarrow> auth_item option" where
  "find_hash h items = find (\<lambda>x. ai_enabled x \<and> ai_hash x = h) items"

record public_key =
  pk_id :: string
  pk_name :: string
  pk_role :: auth_role
  pk_enabled :: bool
  pk_created :: string
  pk_last_used :: "string option"

definition public_item :: "auth_item \<Rightarrow> public_key" where
  "public_item x = \<lparr>pk_id = ai_id x, pk_name = ai_name x, pk_role = ai_role x, pk_enabled = ai_enabled x,
     pk_created = ai_created x, pk_last_used = ai_last_used x\<rparr>"

definition list_keys ::
  "account_env \<Rightarrow> auth_world \<Rightarrow> auth_role option \<Rightarrow> auth_service \<Rightarrow> account storage \<Rightarrow>
   public_key list \<times> auth_service \<times> account storage" where
  "list_keys env w role a s =
     (case reload env w 0 a s of (loaded, a, s) \<Rightarrow>
        (map public_item (filter (\<lambda>x. role = None \<or> role = Some (ai_role x)) (as_items a)), a, s))"

section \<open>Names and keys\<close>

definition has_key_hash :: "string \<Rightarrow> string \<Rightarrow> auth_item list \<Rightarrow> bool" where
  "has_key_hash h exclude items \<longleftrightarrow> (\<exists>x \<in> set items. \<not> (exclude \<noteq> '''' \<and> ai_id x = exclude) \<and> ai_hash x = h)"

definition build_key_hash ::
  "account_env \<Rightarrow> auth_world \<Rightarrow> string \<Rightarrow> string \<Rightarrow> auth_item list \<Rightarrow> auth_error + string" where
  "build_key_hash env w raw_key exclude items =
     (let candidate = py_strip raw_key;
          admin_key = py_strip (aw_admin_key w)
      in if candidate = '''' then Inl EmptyKey
         else if admin_key \<noteq> '''' \<and> candidate = admin_key then Inl AdminKeyClash
         else if has_key_hash (env_digest env candidate) exclude items then Inl KeyExists
         else Inr (env_digest env candidate))"

definition has_name :: "string \<Rightarrow> auth_role \<Rightarrow> string \<Rightarrow> auth_item list \<Rightarrow> bool" where
  "has_name name role exclude items \<longleftrightarrow>
     (let candidate = py_strip name
      in candidate \<noteq> '''' \<and>
         (\<exists>x \<in> set items. \<not> (exclude \<noteq> '''' \<and> ai_id x = exclude) \<and> ai_role x = role \<and> ai_name x = candidate))"

text \<open>
  The loop over the suffixes from 2 on: among one suffix more than there are items, one is
  free.
\<close>

definition numbered_name :: "auth_role \<Rightarrow> nat \<Rightarrow> string" where
  "numbered_name role n = default_name role @ '' '' @ nat_text n"

definition build_default_name :: "auth_role \<Rightarrow> string \<Rightarrow> auth_item list \<Rightarrow> string" where
  "build_default_name role exclude items =
     (if \<not> has_name (default_name role) role exclude items then default_name role
      else case find (\<lambda>n. \<not> has_name (numbered_name role n) role exclude items) [2..<length items + 3] of
             Some n \<Rightarrow> numbered_name role n
           | None \<Rightarrow> numbered_name role (length items + 3))"

definition build_name :: "string \<Rightarrow> auth_role \<Rightarrow> string \<Rightarrow> auth_item list \<Rightarrow> auth_error + string" where
  "build_name name role exclude items =
     (let candidate = py_strip name
      in if candidate = '''' then Inr (build_default_name role exclude items)
         else if has_name candidate role exclude items then Inl NameExists
         else Inr candidate)"

section \<open>Changes\<close>

definition put_mutation :: "auth_item \<Rightarrow> auth_service \<Rightarrow> account mutation" where
  "put_mutation x a = \<lparr>mu_upserts = [auth_dict x], mu_delete_keys = [], mu_expected = as_revision a\<rparr>"

definition delete_mutation :: "string \<Rightarrow> auth_service \<Rightarrow> account mutation" where
  "delete_mutation k a = \<lparr>mu_upserts = [], mu_delete_keys = [k], mu_expected = as_revision a\<rparr>"

text \<open>
  The loops that draw random keys and identifiers until one is acceptable run over the draws
  of the attempt; \<open>StillDrawing\<close> is the outcome when none of those is.
\<close>

definition draw_key :: "account_env \<Rightarrow> auth_world \<Rightarrow> nat \<Rightarrow> auth_item list \<Rightarrow> (string \<times> string) option" where
  "draw_key env w n items =
     (case List.map_filter (\<lambda>token.
             case build_key_hash env w (''sk-'' @ token) '''' items of
               Inl e \<Rightarrow> None
             | Inr h \<Rightarrow> Some (''sk-'' @ token, h)) (aw_tokens w n) of
        [] \<Rightarrow> None
      | p # ps \<Rightarrow> Some p)"

definition draw_id :: "auth_world \<Rightarrow> nat \<Rightarrow> auth_item list \<Rightarrow> string option" where
  "draw_id w n items = find (\<lambda>k. k \<notin> ai_id ` set items) (aw_ids w n)"

text \<open>
  Each attempt makes two accesses to the storage, \<open>i\<close> and \<open>i + 1\<close>. A conflict in the last
  attempt is raised.
\<close>

fun create_attempts ::
  "account_env \<Rightarrow> auth_world \<Rightarrow> auth_role \<Rightarrow> string \<Rightarrow> nat \<Rightarrow> nat \<Rightarrow> auth_service \<Rightarrow> account storage \<Rightarrow>
   (auth_error + public_key \<times> string) \<times> auth_service \<times> account storage" where
  "create_attempts env w role name i 0 a s = (Inl RetryExhausted, a, s)"
| "create_attempts env w role name i (Suc left) a s =
     (case reload env w i a s of
        (False, a, s) \<Rightarrow> (Inl StorageDown, a, s)
      | (True, a, s) \<Rightarrow>
          (case build_name name role '''' (as_items a) of
             Inl e \<Rightarrow> (Inl e, a, s)
           | Inr name' \<Rightarrow>
               (case (draw_key env w i (as_items a), draw_id w i (as_items a)) of
                  (Some (raw_key, h), Some k) \<Rightarrow>
                    let x = \<lparr>ai_id = k, ai_name = name', ai_role = role, ai_hash = h, ai_enabled = True,
                             ai_created = env_stamp env (aw_now w), ai_last_used = None\<rparr>;
                        s = aw_others w (i + 1) s
                    in if aw_down w (i + 1) then (Inl StorageDown, a, s)
                       else (case mutate_items (auth_key_of env) (put_mutation x a) s of
                               Inr (result, t) \<Rightarrow>
                                 (Inr (public_item x, raw_key), set_cached_item x (mr_revision result) a, t)
                             | Inl (RevisionConflict e r) \<Rightarrow>
                                 if left = 0 then (Inl (StorageRefused (RevisionConflict e r)), a, s)
                                 else create_attempts env w role name (i + 2) left a s
                             | Inl InvalidItems \<Rightarrow> (Inl (StorageRefused InvalidItems), a, s))
                | _ \<Rightarrow> (Inl StillDrawing, a, s))))"

definition create_key ::
  "account_env \<Rightarrow> auth_world \<Rightarrow> auth_role \<Rightarrow> string \<Rightarrow> auth_service \<Rightarrow> account storage \<Rightarrow>
   (auth_error + public_key \<times> string) \<times> auth_service \<times> account storage" where
  "create_key env w role name = create_attempts env w role name 0 cas_attempts"

text \<open>The new item of \<open>update_key\<close>: the changes are a dictionary of JSON values.\<close>

definition updated_item ::
  "account_env \<Rightarrow> auth_world \<Rightarrow> account \<Rightarrow> auth_item list \<Rightarrow> auth_item \<Rightarrow> auth_error + auth_item" where
  "updated_item env w updates items x =
     (case (if field updates ''name'' = PNone then Inr x
            else (case build_name (raw_text env (field updates ''name'')) (ai_role x) (ai_id x) items of
                    Inl e \<Rightarrow> Inl e
                  | Inr n \<Rightarrow> Inr (x\<lparr>ai_name := n\<rparr>))) of
        Inl e \<Rightarrow> Inl e
      | Inr y \<Rightarrow>
          let y = (if field updates ''enabled'' = PNone then y else y\<lparr>ai_enabled := truthy (field updates ''enabled'')\<rparr>)
          in if field updates ''key'' = PNone then Inr y
             else (case build_key_hash env w (raw_text env (field updates ''key'')) (ai_id x) items of
                     Inl e \<Rightarrow> Inl e
                   | Inr h \<Rightarrow> Inr (y\<lparr>ai_hash := h\<rparr>)))"

fun update_attempts ::
  "account_env \<Rightarrow> auth_world \<Rightarrow> string \<Rightarrow> account \<Rightarrow> auth_role option \<Rightarrow> nat \<Rightarrow> nat \<Rightarrow> auth_service \<Rightarrow> account storage \<Rightarrow>
   (auth_error + public_key option) \<times> auth_service \<times> account storage" where
  "update_attempts env w k updates role i 0 a s = (Inr None, a, s)"
| "update_attempts env w k updates role i (Suc left) a s =
     (case reload env w i a s of
        (False, a, s) \<Rightarrow> (Inl StorageDown, a, s)
      | (True, a, s) \<Rightarrow>
          (case find_item k role (as_items a) of
             None \<Rightarrow> (Inr None, a, s)
           | Some x \<Rightarrow>
               (case updated_item env w updates (as_items a) x of
                  Inl e \<Rightarrow> (Inl e, a, s)
                | Inr y \<Rightarrow>
                    let s = aw_others w (i + 1) s
                    in if aw_down w (i + 1) then (Inl StorageDown, a, s)
                       else (case mutate_items (auth_key_of env) (put_mutation y a) s of
                               Inr (result, t) \<Rightarrow>
                                 (Inr (Some (public_item y)), set_cached_item y (mr_revision result) a, t)
                             | Inl (RevisionConflict e r) \<Rightarrow>
                                 if left = 0 then (Inl (StorageRefused (RevisionConflict e r)), a, s)
                                 else update_attempts env w k updates role (i + 2) left a s
                             | Inl InvalidItems \<Rightarrow> (Inl (StorageRefused InvalidItems), a, s)))))"

definition update_key ::
  "account_env \<Rightarrow> auth_world \<Rightarrow> string \<Rightarrow> account \<Rightarrow> auth_role option \<Rightarrow> auth_service \<Rightarrow> account storage \<Rightarrow>
   (auth_error + public_key option) \<times> auth_service \<times> account storage" where
  "update_key env w key_id updates role a s =
     (if py_strip key_id = '''' then (Inr None, a, s)
      else update_attempts env w (py_strip key_id) updates role 0 cas_attempts a s)"

fun delete_attempts ::
  "account_env \<Rightarrow> auth_world \<Rightarrow> string \<Rightarrow> auth_role option \<Rightarrow> nat \<Rightarrow> nat \<Rightarrow> auth_service \<Rightarrow> account storage \<Rightarrow>
   (auth_error + bool) \<times> auth_service \<times> account storage" where
  "delete_attempts env w k role i 0 a s = (Inr False, a, s)"
| "delete_attempts env w k role i (Suc left) a s =
     (case reload env w i a s of
        (False, a, s) \<Rightarrow> (Inl StorageDown, a, s)
      | (True, a, s) \<Rightarrow>
          if find_item k role (as_items a) = None then (Inr False, a, s)
          else
            let s = aw_others w (i + 1) s
            in if aw_down w (i + 1) then (Inl StorageDown, a, s)
               else (case mutate_items (auth_key_of env) (delete_mutation k a) s of
                       Inr (result, t) \<Rightarrow>
                         (Inr (0 < mr_deleted result),
                          (delete_cached_item k (mr_revision result) a)
                            \<lparr>as_flushed := filter (\<lambda>(k', t). k' \<noteq> k) (as_flushed a)\<rparr>, t)
                     | Inl (RevisionConflict e r) \<Rightarrow>
                         if left = 0 then (Inl (StorageRefused (RevisionConflict e r)), a, s)
                         else delete_attempts env w k role (i + 2) left a s
                     | Inl InvalidItems \<Rightarrow> (Inl (StorageRefused InvalidItems), a, s)))"

definition delete_key ::
  "account_env \<Rightarrow> auth_world \<Rightarrow> string \<Rightarrow> auth_role option \<Rightarrow> auth_service \<Rightarrow> account storage \<Rightarrow>
   (auth_error + bool) \<times> auth_service \<times> account storage" where
  "delete_key env w key_id role a s =
     (if py_strip key_id = '''' then (Inr False, a, s)
      else delete_attempts env w (py_strip key_id) role 0 cas_attempts a s)"

section \<open>Authentication\<close>

definition recently_flushed :: "time \<Rightarrow> string \<Rightarrow> auth_service \<Rightarrow> bool" where
  "recently_flushed now k a = (case map_of (as_flushed a) k of None \<Rightarrow> False | Some t \<Rightarrow> now - t < secs 60)"

text \<open>The item found is replaced in its place.\<close>

definition cache_use :: "auth_item \<Rightarrow> auth_service \<Rightarrow> auth_service" where
  "cache_use x a = a\<lparr>as_items := upd_rows (\<lambda>y. ai_id y = ai_id x) (\<lambda>_. x) (as_items a)\<rparr>"

fun auth_attempts ::
  "account_env \<Rightarrow> auth_world \<Rightarrow> string \<Rightarrow> nat \<Rightarrow> nat \<Rightarrow> auth_service \<Rightarrow> account storage \<Rightarrow>
   public_key option \<times> auth_service \<times> account storage" where
  "auth_attempts env w h i 0 a s = (None, a, s)"
| "auth_attempts env w h i (Suc left) a s =
     (case find_hash h (as_items a) of
        None \<Rightarrow> (None, a, s)
      | Some x \<Rightarrow>
          let y = x\<lparr>ai_last_used := Some (env_stamp env (aw_now w))\<rparr>
          in if recently_flushed (aw_now w) (ai_id y) a then (Some (public_item y), cache_use y a, s)
             else if as_revision a = None then (Some (public_item y), cache_use y a, s)
             else
               let s = aw_others w i s
               in if aw_down w i then (Some (public_item y), cache_use y a, s)
                  else (case mutate_items (auth_key_of env) (put_mutation y a) s of
                          Inr (result, t) \<Rightarrow>
                            (Some (public_item y),
                             (set_cached_item y (mr_revision result) a)
                               \<lparr>as_flushed := dict_set (ai_id y) (aw_now w) (as_flushed a)\<rparr>, t)
                        | Inl (RevisionConflict e r) \<Rightarrow>
                            (case reload env w (i + 1) a s of
                               (False, a, s) \<Rightarrow> (None, a, s)
                             | (True, a, s) \<Rightarrow>
                                 (case find_hash h (as_items a) of
                                    None \<Rightarrow> (None, a, s)
                                  | Some x \<Rightarrow>
                                      let y = x\<lparr>ai_last_used := Some (env_stamp env (aw_now w))\<rparr>
                                      in if left = 0 then (Some (public_item y), cache_use y a, s)
                                         else auth_attempts env w h (i + 2) left a s))
                        | Inl InvalidItems \<Rightarrow> (Some (public_item y), cache_use y a, s)))"

definition authenticate ::
  "account_env \<Rightarrow> auth_world \<Rightarrow> bool \<Rightarrow> (auth_service \<Rightarrow> auth_service) \<Rightarrow> string \<Rightarrow> auth_service \<Rightarrow> account storage \<Rightarrow>
   public_key option \<times> auth_service \<times> account storage" where
  "authenticate env w busy meanwhile raw_key a s =
     (let candidate = py_strip raw_key
      in if candidate = '''' then (None, a, s)
         else (case refresh_snapshot_if_due env w busy meanwhile a s of
                 (False, a, s) \<Rightarrow> (None, a, s)
               | (True, a, s) \<Rightarrow> auth_attempts env w (env_digest env candidate) 1 cas_attempts a s))"

end
