(* ===== verification/Auth_Correct.thy ===== *)
theory Auth_Correct
  imports Auth_Service Account_Normal
begin

text \<open>
  The keys of the callers: the view of a process is the content of the storage at its
  revision, keys and names stay unique, authentication never undoes a revocation, and it
  accepts only what a recent view holds.
\<close>

section \<open>Normal items\<close>

text \<open>What decides about a caller: the name, the role, the hash, and whether the key is enabled.\<close>

type_synonym essence = "string \<times> auth_role \<times> string \<times> bool"

definition essence :: "auth_item \<Rightarrow> essence" where
  "essence x = (ai_name x, ai_role x, ai_hash x, ai_enabled x)"

definition clean_text :: "string \<Rightarrow> bool" where
  "clean_text t \<longleftrightarrow> t \<noteq> '''' \<and> py_strip t = t"

definition clean_item :: "auth_item \<Rightarrow> bool" where
  "clean_item x \<longleftrightarrow> clean_text (ai_id x) \<and> clean_text (ai_name x) \<and> clean_text (ai_hash x)"

lemma text_of_clean: "clean_text t \<Longrightarrow> text_of env (PStr t) = t"
  by (simp add: clean_text_def text_of_str)

lemma default_name_clean: "clean_text (default_name r)"
proof (cases r)
  case AdminRole
  have "clean_text (default_name AdminRole)" by code_simp
  with AdminRole show ?thesis by simp
next
  case UserRole
  have "clean_text (default_name UserRole)" by code_simp
  with UserRole show ?thesis by simp
qed

lemma field_auth_dict:
  "field (auth_dict x) ''id'' = PStr (ai_id x)" "field (auth_dict x) ''name'' = PStr (ai_name x)"
  "field (auth_dict x) ''role'' = PStr (role_text (ai_role x))" "field (auth_dict x) ''key_hash'' = PStr (ai_hash x)"
  "fmlookup (auth_dict x) ''enabled'' = Some (PBool (ai_enabled x))"
  "field (auth_dict x) ''created_at'' = PStr (ai_created x)"
  "field (auth_dict x) ''last_used_at'' = (case ai_last_used x of None \<Rightarrow> PNone | Some t \<Rightarrow> PStr t)"
  by (simp_all add: auth_dict_def field_def fmlookup_of_list)

lemma auth_key_of_dict: "clean_item x \<Longrightarrow> auth_key_of env (auth_dict x) = ai_id x"
  by (simp add: auth_key_of_def field_text_def field_auth_dict clean_item_def text_of_clean)

lemma role_text_normal:
  "py_lower (text_of env (PStr (role_text r))) = role_text r"
  "role_text r = ''admin'' \<longleftrightarrow> r = AdminRole" "role_text r = ''user'' \<longleftrightarrow> r = UserRole"
proof -
  have "clean_text (role_text AdminRole) \<and> py_lower (role_text AdminRole) = role_text AdminRole"
    "clean_text (role_text UserRole) \<and> py_lower (role_text UserRole) = role_text UserRole" by code_simp+
  then have "clean_text (role_text r)" "py_lower (role_text r) = role_text r" by (cases r; simp)+
  then show "py_lower (text_of env (PStr (role_text r))) = role_text r" by (simp add: text_of_clean)
qed (cases r; simp add: role_text_def)+

lemma auth_dict_role:
  "py_lower (field_text env (auth_dict x) ''role'') = (if ai_role x = AdminRole then ''admin'' else ''user'')"
  unfolding field_text_def field_auth_dict role_text_normal by (cases "ai_role x") (simp_all add: role_text_def)

text \<open>Normal items survive the storage: what decides is read back as it was written.\<close>

lemma normalize_auth_dict:
  assumes "clean_item x"
  obtains y where "normalize_auth_item env now (auth_dict x) = Some y" "ai_id y = ai_id x" "essence y = essence x"
proof -
  note texts = text_of_clean [of "ai_id x" env] text_of_clean [of "ai_name x" env] text_of_clean [of "ai_hash x" env]
  have "\<exists>y. normalize_auth_item env now (auth_dict x) = Some y \<and> ai_id y = ai_id x \<and> essence y = essence x"
    unfolding normalize_auth_item_def auth_dict_role Let_def using assms texts
    by (cases "ai_role x") (auto simp: field_text_def field_auth_dict clean_item_def clean_text_def essence_def)
  with that show ?thesis by blast
qed

lemma normalize_auth_clean:
  assumes "normalize_auth_item env now raw = Some x"
  shows "clean_item x" "ai_id x = auth_key_of env raw"
proof -
  have name: "clean_text (if field_text env raw ''name'' = '''' then default_name r else field_text env raw ''name'')" for r
    using default_name_clean by (simp add: clean_text_def field_text_def text_of_def)
  from assms show "clean_item x"
    using name by (auto simp: normalize_auth_item_def Let_def clean_item_def clean_text_def field_text_def text_of_def
        split: if_splits)
  from assms show "ai_id x = auth_key_of env raw"
    by (auto simp: normalize_auth_item_def Let_def auth_key_of_def split: if_splits)
qed

lemma normalize_auth_time:
  "map_option essence (normalize_auth_item env now raw) = map_option essence (normalize_auth_item env 0 raw)"
  by (simp add: normalize_auth_item_def Let_def essence_def)

section \<open>Views and the storage\<close>

definition view_keys :: "auth_item list \<Rightarrow> string \<rightharpoonup> essence" where
  "view_keys items = map_of (map (\<lambda>x. (ai_id x, essence x)) items)"

definition stored_keys :: "account_env \<Rightarrow> account storage \<Rightarrow> string \<rightharpoonup> essence" where
  "stored_keys env s =
     (\<lambda>k. Option.bind (map_of (st_items s) k) (\<lambda>raw. map_option essence (normalize_auth_item env 0 raw)))"

definition view_ok :: "auth_item list \<Rightarrow> bool" where
  "view_ok items \<longleftrightarrow> distinct (map ai_id items) \<and> (\<forall>x \<in> set items. clean_item x)"

abbreviation auth_storage_ok :: "account_env \<Rightarrow> account storage \<Rightarrow> bool" where
  "auth_storage_ok env \<equiv> storage_ok (auth_key_of env)"

lemma view_keys_Cons [simp]: "view_keys (x # xs) = (view_keys xs)(ai_id x \<mapsto> essence x)"
  by (simp add: view_keys_def)

lemma view_keys_Nil [simp]: "view_keys [] = Map.empty"
  by (simp add: view_keys_def)

lemma view_keys_dom: "view_keys items k = None \<longleftrightarrow> k \<notin> ai_id ` set items"
  by (induction items) auto

lemma view_keys_item: "view_ok items \<Longrightarrow> x \<in> set items \<Longrightarrow> view_keys items (ai_id x) = Some (essence x)"
  unfolding view_ok_def by (induction items) (auto simp: image_iff)

lemma view_keys_lookup:
  assumes "view_ok items" "view_keys items k = Some e"
  obtains x where "x \<in> set items" "ai_id x = k" "essence x = e"
proof -
  from assms(2) have "k \<in> ai_id ` set items" using view_keys_dom [of items k] by auto
  then obtain x where x: "x \<in> set items" "ai_id x = k" by auto
  with view_keys_item [OF assms(1) x(1)] assms(2) show ?thesis using that by simp
qed

lemma loaded_items:
  fixes now :: time
  assumes "distinct (map fst rows)" "\<forall>(k, raw) \<in> set rows. auth_key_of env raw = k"
  defines "items \<equiv> List.map_filter (normalize_auth_item env now) (map snd rows)"
  shows "view_ok items" "ai_id ` set items \<subseteq> fst ` set rows"
    "view_keys items = (\<lambda>k. Option.bind (map_of rows k) (\<lambda>raw. map_option essence (normalize_auth_item env 0 raw)))"
proof -
  define load where "load rows = List.map_filter (normalize_auth_item env now) (map snd rows)" for rows :: "(string \<times> account) list"
  have "view_ok (load rows) \<and> ai_id ` set (load rows) \<subseteq> fst ` set rows \<and>
    view_keys (load rows) = (\<lambda>k. Option.bind (map_of rows k) (\<lambda>raw. map_option essence (normalize_auth_item env 0 raw)))"
    using assms(1,2)
  proof (induction rows)
    case Nil
    then show ?case by (simp add: load_def List.map_filter_def view_ok_def)
  next
    case (Cons row rows)
    obtain k raw where row: "row = (k, raw)" by (cases row)
    have load: "load ((k, raw) # rows) =
        (case normalize_auth_item env now raw of None \<Rightarrow> load rows | Some x \<Rightarrow> x # load rows)"
      by (simp add: load_def List.map_filter_def split: option.split)
    have IH: "view_ok (load rows)" "ai_id ` set (load rows) \<subseteq> fst ` set rows"
      "view_keys (load rows) = (\<lambda>k. Option.bind (map_of rows k) (\<lambda>raw. map_option essence (normalize_auth_item env 0 raw)))"
      using Cons by auto
    have k: "k \<notin> fst ` set rows" "auth_key_of env raw = k" using Cons.prems row by auto
    then have gone: "map_of rows k = None" by (simp add: map_of_eq_None_iff)
    note time = normalize_auth_time [of env now raw]
    show ?case
    proof (cases "normalize_auth_item env now raw")
      case None
      with time have "normalize_auth_item env 0 raw = None" by (cases "normalize_auth_item env 0 raw") simp_all
      with None IH gone show ?thesis by (auto simp: row load fun_eq_iff)
    next
      case (Some x)
      note x = normalize_auth_clean [OF Some]
      from time Some have "map_option essence (normalize_auth_item env 0 raw) = Some (essence x)" by simp
      with Some IH x k show ?thesis by (auto simp: row load view_ok_def fun_eq_iff)
    qed
  qed
  then show "view_ok items" "ai_id ` set items \<subseteq> fst ` set rows"
    "view_keys items = (\<lambda>k. Option.bind (map_of rows k) (\<lambda>raw. map_option essence (normalize_auth_item env 0 raw)))"
    by (simp_all add: items_def load_def)
qed

lemma load_auth_view:
  assumes "auth_storage_ok env s" "load_auth_snapshot env now s = (items, revision)"
  shows "view_ok items" "view_keys items = stored_keys env s" "revision = st_version s"
proof -
  have rows: "distinct (map fst (st_items s))" "\<forall>(k, raw) \<in> set (st_items s). auth_key_of env raw = k"
    using assms(1) by (auto simp: storage_ok_def)
  note l = loaded_items [OF rows, of now]
  from assms(2) l show "view_ok items" "view_keys items = stored_keys env s" "revision = st_version s"
    by (simp_all add: load_auth_snapshot_def load_snapshot_def stored_keys_def)
qed

text \<open>Two snapshots of one content decide alike.\<close>

lemma stored_keys_content: "map_of (st_items t) = map_of (st_items s) \<Longrightarrow> stored_keys env t = stored_keys env s"
  by (simp add: stored_keys_def)


section \<open>A call among other processes\<close>

text \<open>The view of a process is what the storage held at its revision.\<close>

definition view_based :: "account_env \<Rightarrow> account storage \<Rightarrow> auth_service \<Rightarrow> bool" where
  "view_based env s a \<longleftrightarrow>
     (case as_revision a of
        None \<Rightarrow> as_items a = []
      | Some r \<Rightarrow> r \<le> st_version s \<and> (r = st_version s \<longrightarrow> view_keys (as_items a) = stored_keys env s))"

text \<open>
  \<open>Q\<close> is any condition on the stored keys; the other processes write through the storage,
  and none of them breaks \<open>Q\<close>.
\<close>

definition in_order :: "account_env \<Rightarrow> ((string \<rightharpoonup> essence) \<Rightarrow> bool) \<Rightarrow> auth_service \<Rightarrow> account storage \<Rightarrow> bool" where
  "in_order env Q a s \<longleftrightarrow>
     auth_storage_ok env s \<and> Q (stored_keys env s) \<and> view_ok (as_items a) \<and> view_based env s a"

definition peers :: "account_env \<Rightarrow> ((string \<rightharpoonup> essence) \<Rightarrow> bool) \<Rightarrow> auth_world \<Rightarrow> bool" where
  "peers env Q w \<longleftrightarrow>
     (\<forall>i s. auth_storage_ok env s \<longrightarrow>
        (storage_step (auth_key_of env))\<^sup>*\<^sup>* s (aw_others w i s) \<and>
        (Q (stored_keys env s) \<longrightarrow> Q (stored_keys env (aw_others w i s))))"

lemma view_based_steps:
  assumes "auth_storage_ok env s" "view_based env s a" "(storage_step (auth_key_of env))\<^sup>*\<^sup>* s t"
  shows "auth_storage_ok env t" "view_based env t a"
proof -
  note h = db.history_versioned [OF assms(3,1)]
  from h show "auth_storage_ok env t" by simp
  from h have "stored_keys env t = stored_keys env s \<and> st_version t = st_version s \<or> st_version s < st_version t"
    using stored_keys_content [of t s env] by auto
  with assms(2) show "view_based env t a" by (auto simp: view_based_def split: option.splits)
qed

lemma others_in_order:
  assumes "peers env Q w" "in_order env Q a s"
  shows "in_order env Q a (aw_others w i s)"
proof -
  have s: "auth_storage_ok env s" "Q (stored_keys env s)" "view_based env s a" "view_ok (as_items a)"
    using assms(2) by (simp_all add: in_order_def)
  have steps: "(storage_step (auth_key_of env))\<^sup>*\<^sup>* s (aw_others w i s)" "Q (stored_keys env (aw_others w i s))"
    using assms(1) s by (auto simp: peers_def)
  from view_based_steps [OF s(1,3) steps(1)] steps(2) s(4) show ?thesis by (simp add: in_order_def)
qed

text \<open>A view that was loaded just now.\<close>

definition fresh_view :: "account_env \<Rightarrow> auth_service \<Rightarrow> account storage \<Rightarrow> bool" where
  "fresh_view env a s \<longleftrightarrow> as_revision a = Some (st_version s) \<and> view_keys (as_items a) = stored_keys env s"

lemma loaded_in_order:
  assumes "in_order env Q a s" "load_auth_snapshot env now s = (items, revision)"
    and "as_items b = items" "as_revision b = Some revision"
  shows "in_order env Q b s" "fresh_view env b s"
  using load_auth_view [OF _ assms(2)] assms by (auto simp: in_order_def view_based_def fresh_view_def)

lemma reload_in_order:
  assumes "peers env Q w" "in_order env Q a s" "reload env w i a s = (loaded, b, t)"
  shows "in_order env Q b t" "loaded \<Longrightarrow> fresh_view env b t \<and> as_refreshed b = aw_mono w"
proof -
  note o = others_in_order [OF assms(1,2), of i]
  obtain items revision where l: "load_auth_snapshot env (aw_now w) (aw_others w i s) = (items, revision)" by fastforce
  note loaded = loaded_in_order [OF o l]
  show "in_order env Q b t" using assms(3) o l loaded by (auto simp: reload_def Let_def split: if_splits)
  show "loaded \<Longrightarrow> fresh_view env b t \<and> as_refreshed b = aw_mono w"
    using assms(3) l loaded by (auto simp: reload_def Let_def split: if_splits)
qed

lemma refresh_in_order:
  assumes "peers env Q w" "in_order env Q a s"
    and meanwhile: "\<And>a s. in_order env Q a s \<Longrightarrow> in_order env Q (meanwhile a) s"
    and run: "refresh_snapshot_if_due env w busy meanwhile a s = (usable, b, t)"
  shows "in_order env Q b t" "usable \<Longrightarrow> 0 < aw_mono w \<Longrightarrow> snapshot_is_usable (aw_mono w) b"
proof -
  have checked: "in_order env Q (a\<lparr>as_checked := tick\<rparr>) s \<longleftrightarrow> in_order env Q a s" for a s tick
    by (simp add: in_order_def view_based_def split: option.split)
  define p where "p = meanwhile (a\<lparr>as_checked := aw_mono w\<rparr>)"
  have o: "in_order env Q p (aw_others w 0 s)"
    unfolding p_def by (rule meanwhile) (simp add: checked others_in_order [OF assms(1,2)])
  obtain items revision where l: "load_auth_snapshot env (aw_now w) (aw_others w 0 s) = (items, revision)" by fastforce
  note loaded = loaded_in_order(1) [OF o l]
  show "in_order env Q b t"
    using run assms(2) o l loaded
    by (auto simp: refresh_snapshot_if_due_def Let_def p_def [symmetric] split: if_splits)
  show "usable \<Longrightarrow> 0 < aw_mono w \<Longrightarrow> snapshot_is_usable (aw_mono w) b"
    using run l by (auto simp: refresh_snapshot_if_due_def Let_def p_def [symmetric] snapshot_is_usable_def max_stale_def
        secs_def split: if_splits)
qed

section \<open>An accepted change\<close>

lemma put_content:
  assumes "clean_item y" "mutate_items (auth_key_of env) (put_mutation y a) s = Inr (r, t)" "auth_storage_ok env s"
  shows "auth_storage_ok env t" "stored_keys env t = (stored_keys env s)(ai_id y \<mapsto> essence y)"
    "mr_revision r = st_version t"
proof -
  note m = mutate_items_ok [OF assms(3,2)]
  show "auth_storage_ok env t" "mr_revision r = st_version t" by (rule m)+
  obtain z where z: "normalize_auth_item env 0 (auth_dict y) = Some z" "essence z = essence y"
    by (rule normalize_auth_dict [OF assms(1)])
  have content: "map_of (st_items t) = (map_of (st_items s))(ai_id y \<mapsto> auth_dict y)"
    using m(2) by (simp add: mutated_def put_mutation_def upsert_map_def auth_key_of_dict [OF assms(1)] fun_eq_iff)
  show "stored_keys env t = (stored_keys env s)(ai_id y \<mapsto> essence y)"
    unfolding stored_keys_def content using z by (simp add: fun_eq_iff)
qed

lemma accepted_revision:
  assumes "mutate_items key m s = Inr (r, t)" "mu_expected m = Some v"
  shows "v = st_version s"
  using assms by (auto simp: mutate_items_def check_revision_def split: sum.splits option.splits if_splits)

lemma view_keys_filter: "view_keys (filter (\<lambda>x. ai_id x \<noteq> k) items) = (view_keys items)(k := None)"
  by (induction items) (auto simp: fun_eq_iff)

lemma view_keys_append: "view_keys (xs @ [x]) = (\<lambda>k. case view_keys xs k of Some e \<Rightarrow> Some e | None \<Rightarrow> [ai_id x \<mapsto> essence x] k)"
  by (induction xs) (auto simp: fun_eq_iff)

lemma view_ok_drop: "view_ok items \<Longrightarrow> view_ok (filter (\<lambda>x. ai_id x \<noteq> k) items)"
  by (auto simp: view_ok_def intro: distinct_map_filter)

lemma view_set:
  assumes "view_ok items" "clean_item y"
  defines "items' \<equiv> filter (\<lambda>x. ai_id x \<noteq> ai_id y) items @ [y]"
  shows "view_ok items'" "view_keys items' = (view_keys items)(ai_id y \<mapsto> essence y)"
  using view_ok_drop [OF assms(1), of "ai_id y"] assms(2) unfolding items'_def
  by (auto simp: view_ok_def view_keys_append view_keys_filter fun_eq_iff split: option.split)

lemma put_in_order:
  assumes "in_order env Q a s" "clean_item y" "as_revision a = Some v"
    and "mutate_items (auth_key_of env) (put_mutation y a) s = Inr (r, t)"
    and keeps: "view_keys (as_items a) = stored_keys env s \<Longrightarrow> Q ((stored_keys env s)(ai_id y \<mapsto> essence y))"
  shows "in_order env Q (set_cached_item y (mr_revision r) a) t" "fresh_view env (set_cached_item y (mr_revision r) a) t"
proof -
  have v: "v = st_version s" by (rule accepted_revision [OF assms(4)]) (simp add: put_mutation_def assms(3))
  have s: "auth_storage_ok env s" "view_ok (as_items a)" "view_keys (as_items a) = stored_keys env s"
    using assms(1,3) v by (auto simp: in_order_def view_based_def)
  note t = put_content [OF assms(2,4) s(1)] and view = view_set [OF s(2) assms(2)]
  show "fresh_view env (set_cached_item y (mr_revision r) a) t"
    by (simp add: fresh_view_def set_cached_item_def t view s(3))
  with t view keeps [OF s(3)] show "in_order env Q (set_cached_item y (mr_revision r) a) t"
    by (simp add: in_order_def view_based_def fresh_view_def set_cached_item_def)
qed

lemma delete_in_order:
  assumes "in_order env Q a s" "as_revision a = Some v" "py_strip k = k"
    and "mutate_items (auth_key_of env) (delete_mutation k a) s = Inr (r, t)"
    and keeps: "view_keys (as_items a) = stored_keys env s \<Longrightarrow> Q ((stored_keys env s)(k := None))"
  shows "in_order env Q (delete_cached_item k (mr_revision r) a) t" "fresh_view env (delete_cached_item k (mr_revision r) a) t"
proof -
  have v: "v = st_version s" by (rule accepted_revision [OF assms(4)]) (simp add: delete_mutation_def assms(2))
  have s: "auth_storage_ok env s" "view_ok (as_items a)" "view_keys (as_items a) = stored_keys env s"
    using assms(1,2) v by (auto simp: in_order_def view_based_def)
  note m = mutate_items_ok [OF s(1) assms(4)]
  have "map_of (st_items t) = (map_of (st_items s))(k := None)"
    using m(2) by (simp add: mutated_def delete_mutation_def upsert_map_def assms(3) fun_eq_iff)
  then have t: "stored_keys env t = (stored_keys env s)(k := None)" by (simp add: stored_keys_def fun_eq_iff)
  show "fresh_view env (delete_cached_item k (mr_revision r) a) t"
    by (simp add: fresh_view_def delete_cached_item_def t m(3) view_keys_filter s(3))
  with t m(1,3) view_ok_drop [OF s(2)] keeps [OF s(3)] show "in_order env Q (delete_cached_item k (mr_revision r) a) t"
    by (simp add: in_order_def view_based_def fresh_view_def delete_cached_item_def)
qed


section \<open>Authentication\<close>

text \<open>The item found, with the time of this use.\<close>

abbreviation used_now :: "account_env \<Rightarrow> auth_world \<Rightarrow> auth_item \<Rightarrow> auth_item" where
  "used_now env w x \<equiv> x\<lparr>ai_last_used := Some (env_stamp env (aw_now w))\<rparr>"

lemma find_hash_item: "find_hash h items = Some x \<Longrightarrow> x \<in> set items \<and> ai_enabled x \<and> ai_hash x = h"
  by (auto simp: find_hash_def dest: find_SomeD)

lemma used_now_same [simp]:
  "essence (used_now env w x) = essence x" "clean_item (used_now env w x) = clean_item x"
  by (simp_all add: essence_def clean_item_def)

lemma view_keys_use:
  assumes "view_ok items" "x \<in> set items" "ai_id y = ai_id x" "essence y = essence x" "clean_item y"
  defines "items' \<equiv> upd_rows (\<lambda>z. ai_id z = ai_id y) (\<lambda>_. y) items"
  shows "view_ok items'" "view_keys items' = view_keys items" "y \<in> set items'"
proof -
  have "map (\<lambda>z. (ai_id z, essence z)) items' = map (\<lambda>z. (ai_id z, essence z)) items"
  proof -
    have "(ai_id y, essence y) = (ai_id z, essence z)" if "z \<in> set items" "ai_id z = ai_id y" for z
      using that assms(1-4) distinct_map_eq [of ai_id items z x] by (auto simp: view_ok_def)
    then show ?thesis unfolding items'_def by (intro map_upd_rows) simp
  qed
  then have keys: "map ai_id items' = map ai_id items" "view_keys items' = view_keys items"
    by (metis (no_types, lifting) comp_def fst_conv list.map_comp map_eq_conv) (simp add: view_keys_def \<open>map _ items' = _\<close>)
  show "view_keys items' = view_keys items" by (rule keys)
  show "view_ok items'" using assms(1,5) keys(1) by (auto simp: view_ok_def items'_def set_upd_rows)
  show "y \<in> set items'" using assms(2,3) by (auto simp: items'_def set_upd_rows)
qed

lemma use_in_order:
  fixes w :: auth_world
  assumes "in_order env Q a s" "find_hash h (as_items a) = Some x"
  defines "b \<equiv> cache_use (used_now env w x) a"
  shows "in_order env Q b s" "used_now env w x \<in> set (as_items b)" "as_refreshed b = as_refreshed a"
proof -
  have x: "view_ok (as_items a)" "x \<in> set (as_items a)" "clean_item x"
    using assms(1) find_hash_item [OF assms(2)] by (auto simp: in_order_def view_ok_def)
  note u = view_keys_use [OF x(1,2), of "used_now env w x", simplified, OF x(3)]
  have "as_items b = upd_rows (\<lambda>z. ai_id z = ai_id x) (\<lambda>_. used_now env w x) (as_items a)"
    by (simp add: b_def cache_use_def)
  then have items: "view_ok (as_items b)" "view_keys (as_items b) = view_keys (as_items a)" "used_now env w x \<in> set (as_items b)"
    "as_items b = [] \<longleftrightarrow> as_items a = []"
    using u by (simp_all add: upd_rows_def)
  then show "used_now env w x \<in> set (as_items b)" by simp
  show "as_refreshed b = as_refreshed a" by (simp add: b_def cache_use_def)
  have "as_revision b = as_revision a" by (simp add: b_def cache_use_def)
  with items assms(1) show "in_order env Q b s" by (simp add: in_order_def view_based_def split: option.splits)
qed

text \<open>What an answer rests on.\<close>

definition accepted_by :: "auth_world \<Rightarrow> string \<Rightarrow> auth_service \<Rightarrow> public_key option \<Rightarrow> bool" where
  "accepted_by w h a answer \<longleftrightarrow>
     (case answer of
        None \<Rightarrow> True
      | Some p \<Rightarrow> snapshot_is_usable (aw_mono w) a \<and>
          (\<exists>x \<in> set (as_items a). ai_enabled x \<and> ai_hash x = h \<and> p = public_item x))"

lemma use_accepted:
  assumes "in_order env Q a s" "find_hash h (as_items a) = Some x" "snapshot_is_usable (aw_mono w) a"
  shows "accepted_by w h (cache_use (used_now env w x) a) (Some (public_item (used_now env w x)))"
  using use_in_order(2,3) [OF assms(1,2), of w] find_hash_item [OF assms(2)] assms(3)
  by (auto simp: accepted_by_def snapshot_is_usable_def intro!: bexI [of _ "used_now env w x"])

lemma flush_in_order:
  fixes f :: "(string \<times> time) list"
  assumes "in_order env Q a s" "find_hash h (as_items a) = Some x" "as_revision a = Some v"
    and "snapshot_is_usable (aw_mono w) a"
    and "mutate_items (auth_key_of env) (put_mutation (used_now env w x) a) s = Inr (r, t)"
  defines "b \<equiv> (set_cached_item (used_now env w x) (mr_revision r) a)\<lparr>as_flushed := f\<rparr>"
  shows "in_order env Q b t" "accepted_by w h b (Some (public_item (used_now env w x)))"
proof -
  have x: "x \<in> set (as_items a)" "ai_enabled x" "ai_hash x = h" "view_ok (as_items a)" "clean_item x" "Q (stored_keys env s)"
    using assms(1) find_hash_item [OF assms(2)] by (auto simp: in_order_def view_ok_def)
  have "(view_keys (as_items a))(ai_id x \<mapsto> essence x) = view_keys (as_items a)"
    using view_keys_item [OF x(4,1)] by (simp add: fun_upd_idem)
  then have "in_order env Q (set_cached_item (used_now env w x) (mr_revision r) a) t"
    by (intro put_in_order(1) [OF assms(1) _ assms(3,5)]) (use x in simp_all)
  then show "in_order env Q b t" by (simp add: b_def in_order_def view_based_def split: option.splits)
  show "accepted_by w h b (Some (public_item (used_now env w x)))"
    using x assms(4) by (force simp: accepted_by_def b_def set_cached_item_def snapshot_is_usable_def)
qed

lemma auth_attempts_in_order:
  assumes "peers env Q w" "in_order env Q a s" "snapshot_is_usable (aw_mono w) a" "0 < aw_mono w"
    and "auth_attempts env w h i n a s = (answer, b, t)"
  shows "in_order env Q b t \<and> accepted_by w h b answer"
  using assms(2,3,5)
proof (induction n arbitrary: i a s)
  case 0
  then show ?case by (auto simp: accepted_by_def)
next
  case (Suc n)
  show ?case
  proof (cases "find_hash h (as_items a)")
    case None
    with Suc.prems show ?thesis by (auto simp: accepted_by_def)
  next
    case (Some x)
    let ?y = "used_now env w x" and ?s = "aw_others w i s"
    let ?m = "mutate_items (auth_key_of env) (put_mutation ?y a) ?s"
    note o = others_in_order [OF assms(1) Suc.prems(1), of i]
    note use = use_in_order(1) [OF Suc.prems(1) Some, of w] use_accepted [OF Suc.prems(1) Some Suc.prems(2)]
    note use' = use_in_order(1) [OF o Some, of w]
    consider (cached) "recently_flushed (aw_now w) (ai_id x) a \<or> as_revision a = None"
      | (down) v where "\<not> recently_flushed (aw_now w) (ai_id x) a" "as_revision a = Some v" "aw_down w i \<or> ?m = Inl InvalidItems"
      | (flushed) v r u where "\<not> recently_flushed (aw_now w) (ai_id x) a" "as_revision a = Some v" "\<not> aw_down w i" "?m = Inr (r, u)"
      | (conflict) v e f where "\<not> recently_flushed (aw_now w) (ai_id x) a" "as_revision a = Some v" "\<not> aw_down w i"
          "?m = Inl (RevisionConflict e f)"
      by (metis (no_types, lifting) not_None_eq obj_sumE prod.exhaust storage_error.exhaust)
    then show ?thesis
    proof cases
      case cached
      with Some Suc.prems(3) have "b = cache_use ?y a" "t = s" "answer = Some (public_item ?y)"
        by (auto simp: Let_def split: if_splits)
      with use show ?thesis by simp
    next
      case down
      with Some Suc.prems(3) have "b = cache_use ?y a" "t = ?s" "answer = Some (public_item ?y)"
        by (auto simp: Let_def split: if_splits)
      with use(2) use' show ?thesis by simp
    next
      case flushed
      note f = flush_in_order [OF o Some flushed(2) Suc.prems(2) flushed(4)]
      from flushed Some Suc.prems(3) have "b = (set_cached_item ?y (mr_revision r) a)
          \<lparr>as_flushed := dict_set (ai_id x) (aw_now w) (as_flushed a)\<rparr>" "t = u" "answer = Some (public_item ?y)"
        by (auto simp: Let_def)
      with f show ?thesis by blast
    next
      case conflict
      obtain loaded c u where r: "reload env w (i + 1) a ?s = (loaded, c, u)" by (metis surj_pair)
      note c = reload_in_order [OF assms(1) o r]
      show ?thesis
      proof (cases "loaded \<and> find_hash h (as_items c) \<noteq> None")
        case False
        with conflict Some Suc.prems(3) r c(1) show ?thesis by (cases loaded) (auto simp: Let_def accepted_by_def)
      next
        case True
        then obtain x' where x': "find_hash h (as_items c) = Some x'" by auto
        have usable: "snapshot_is_usable (aw_mono w) c"
          using c(2) True assms(4) by (simp add: snapshot_is_usable_def max_stale_def secs_def)
        show ?thesis
        proof (cases "n = 0")
          case True
          with conflict Some Suc.prems(3) r x' \<open>loaded \<and> _\<close> use_in_order(1) [OF c(1) x', of w] use_accepted [OF c(1) x' usable]
          show ?thesis by (auto simp: Let_def)
        next
          case False
          with conflict Some Suc.prems(3) r x' True have "auth_attempts env w h (i + 2) n c u = (answer, b, t)"
            by (auto simp: Let_def)
          from Suc.IH [OF c(1) usable this] show ?thesis .
        qed
      qed
    qed
  qed
qed


lemma authenticate_in_order:
  assumes "peers env Q w" "in_order env Q a s" "0 < aw_mono w"
    and "\<And>a s. in_order env Q a s \<Longrightarrow> in_order env Q (meanwhile a) s"
    and "authenticate env w busy meanwhile raw_key a s = (answer, b, t)"
  shows "in_order env Q b t \<and> accepted_by w (env_digest env (py_strip raw_key)) b answer"
proof (cases "py_strip raw_key = ''''")
  case True
  with assms show ?thesis by (auto simp: authenticate_def accepted_by_def)
next
  case False
  obtain usable c u where r: "refresh_snapshot_if_due env w busy meanwhile a s = (usable, c, u)" by (metis surj_pair)
  have c: "in_order env Q c u" "usable \<Longrightarrow> snapshot_is_usable (aw_mono w) c"
    using refresh_in_order [OF assms(1,2) _ r] assms(3,4) by blast+
  show ?thesis
  proof (cases usable)
    case False
    with c(1) r assms(5) \<open>py_strip raw_key \<noteq> _\<close> show ?thesis by (auto simp: authenticate_def accepted_by_def Let_def)
  next
    case True
    with r assms(5) False have "auth_attempts env w (env_digest env (py_strip raw_key)) 1 cas_attempts c u = (answer, b, t)"
      by (simp add: authenticate_def Let_def)
    from auth_attempts_in_order [OF assms(1) c(1) c(2) [OF True] assms(3) this] show ?thesis .
  qed
qed

section \<open>Keys and names stay unique\<close>

text \<open>No two keys have one hash, and no two keys of a role have one name.\<close>

definition unique_keys :: "(string \<rightharpoonup> essence) \<Rightarrow> bool" where
  "unique_keys m \<longleftrightarrow>
     (\<forall>i j n r h e n' r' h' e'. m i = Some (n, r, h, e) \<longrightarrow> m j = Some (n', r', h', e') \<longrightarrow> i \<noteq> j \<longrightarrow>
        h \<noteq> h' \<and> (r = r' \<longrightarrow> n \<noteq> n'))"

lemma unique_keys_delete: "unique_keys m \<Longrightarrow> unique_keys (m(k := None))"
  by (auto simp: unique_keys_def)

text \<open>A key that differs from all others can be put.\<close>

definition apart :: "auth_item \<Rightarrow> auth_item list \<Rightarrow> bool" where
  "apart y items \<longleftrightarrow>
     (\<forall>z \<in> set items. ai_id z \<noteq> ai_id y \<longrightarrow> ai_hash z \<noteq> ai_hash y \<and> (ai_role z = ai_role y \<longrightarrow> ai_name z \<noteq> ai_name y))"

lemma unique_keys_put:
  assumes "view_ok items" "unique_keys (view_keys items)" "apart y items"
  shows "unique_keys ((view_keys items)(ai_id y \<mapsto> essence y))"
proof -
  let ?m = "(view_keys items)(ai_id y \<mapsto> essence y)"
  have other: "h \<noteq> ai_hash y \<and> (r = ai_role y \<longrightarrow> n \<noteq> ai_name y)"
    if k: "k \<noteq> ai_id y" "view_keys items k = Some (n, r, h, e)" for k n r h e
  proof -
    obtain z where "z \<in> set items" "ai_id z = k" "essence z = (n, r, h, e)" by (rule view_keys_lookup [OF assms(1) k(2)])
    with k(1) assms(3) show ?thesis by (auto simp: apart_def essence_def)
  qed
  show ?thesis unfolding unique_keys_def
  proof (intro allI impI)
    fix i j n r h e n' r' h' e'
    assume i: "?m i = Some (n, r, h, e)" and j: "?m j = Some (n', r', h', e')" and "i \<noteq> j"
    then consider "i = ai_id y" "j \<noteq> ai_id y" | "j = ai_id y" "i \<noteq> ai_id y" | "i \<noteq> ai_id y" "j \<noteq> ai_id y" by blast
    then show "h \<noteq> h' \<and> (r = r' \<longrightarrow> n \<noteq> n')"
    proof cases
      case 1
      with i j other [of j n' r' h' e'] show ?thesis by (auto simp: essence_def)
    next
      case 2
      with i j other [of i n r h e] show ?thesis by (auto simp: essence_def)
    next
      case 3
      with i j \<open>i \<noteq> j\<close> assms(2) show ?thesis unfolding unique_keys_def by (simp, blast)
    qed
  qed
qed

lemma unique_keys_apart: "view_ok items \<Longrightarrow> unique_keys (view_keys items) \<Longrightarrow> x \<in> set items \<Longrightarrow> apart x items"
  unfolding apart_def
proof (intro ballI impI)
  fix z assume ok: "view_ok items" "unique_keys (view_keys items)" "x \<in> set items" and z: "z \<in> set items" "ai_id z \<noteq> ai_id x"
  from view_keys_item [OF ok(1,3)] view_keys_item [OF ok(1) z(1)] z(2) ok(2)
  show "ai_hash z \<noteq> ai_hash x \<and> (ai_role z = ai_role x \<longrightarrow> ai_name z \<noteq> ai_name x)"
    unfolding unique_keys_def essence_def by metis
qed

lemma build_key_hash_fresh:
  assumes "build_key_hash env w raw_key exclude items = Inr h"
  shows "h = env_digest env (py_strip raw_key)" "py_strip raw_key \<noteq> ''''"
    "z \<in> set items \<Longrightarrow> exclude = '''' \<or> ai_id z \<noteq> exclude \<Longrightarrow> ai_hash z \<noteq> h"
  using assms by (auto simp: build_key_hash_def Let_def has_key_hash_def split: if_splits)

text \<open>One of the numbered names is free.\<close>

lemma nat_text_inj: "nat_text m = nat_text n \<Longrightarrow> m = n"
proof (induction m arbitrary: n rule: less_induct)
  case (less m)
  have digit: "a = b" if "char_of (48 + a) = (char_of (48 + b) :: char)" "a < 10" "b < 10" for a b :: nat
  proof -
    have "of_char (char_of (48 + k) :: char) = 48 + k" if "k < 10" for k :: nat using that by simp
    from this [OF that(2)] this [OF that(3)] that(1) show ?thesis by simp
  qed
  have one: "nat_text k = [char_of (48 + k)]" if "k < 10" for k using that by (simp add: nat_text.simps [of k])
  have more: "nat_text k = nat_text (k div 10) @ [char_of (48 + k mod 10)]" if "\<not> k < 10" for k
    using that by (simp add: nat_text.simps [of k])
  note chars = nat_text_chars
  show ?case
  proof (cases "m < 10"; cases "n < 10")
    assume "m < 10" "n < 10"
    with less.prems one [of m] one [of n] digit [of m n] show ?thesis by auto
  next
    assume "m < 10" "\<not> n < 10"
    with less.prems one [of m] more [of n] chars [of "n div 10"] show ?thesis by auto
  next
    assume "\<not> m < 10" "n < 10"
    with less.prems one [of n] more [of m] chars [of "m div 10"] show ?thesis by auto
  next
    assume big: "\<not> m < 10" "\<not> n < 10"
    with less.prems more [of m] more [of n] have "nat_text (m div 10) = nat_text (n div 10)" "char_of (48 + m mod 10) = (char_of (48 + n mod 10) :: char)"
      by simp_all
    with less.IH [of "m div 10" "n div 10"] digit [of "m mod 10" "n mod 10"] big have "m div 10 = n div 10" "m mod 10 = n mod 10"
      by simp_all
    then show ?thesis by (metis div_mult_mod_eq)
  qed
qed


lemma py_strip_ends:
  assumes "s \<noteq> ''''" "\<not> is_py_space (hd s)" "\<not> is_py_space (last s)"
  shows "py_strip s = s"
proof -
  have "dropWhile is_py_space s = s" using assms(1,2) by (cases s) auto
  moreover have "dropWhile is_py_space (rev s) = rev s" using assms(1,3) by (cases s rule: rev_cases) auto
  ultimately show ?thesis by (simp add: py_strip_def)
qed

lemma default_name_hd: "default_name r \<noteq> '''' \<and> \<not> is_py_space (hd (default_name r))"
proof -
  have "default_name AdminRole \<noteq> '''' \<and> \<not> is_py_space (hd (default_name AdminRole))"
    "default_name UserRole \<noteq> '''' \<and> \<not> is_py_space (hd (default_name UserRole))" by code_simp+
  then show ?thesis by (cases r) simp_all
qed

lemma numbered_name_clean: "clean_text (numbered_name r n)"
proof -
  have "hd (numbered_name r n) = hd (default_name r)" "last (numbered_name r n) = last (nat_text n)"
    using default_name_hd [of r] nat_text_chars [of n] by (simp_all add: numbered_name_def)
  moreover have "\<not> is_py_space (last (nat_text n))" using nat_text_chars [of n] by auto
  moreover have "numbered_name r n \<noteq> ''''" by (simp add: numbered_name_def)
  ultimately show ?thesis using default_name_hd [of r] by (simp add: clean_text_def py_strip_ends)
qed

lemma numbered_name_inj: "numbered_name r m = numbered_name r n \<Longrightarrow> m = n"
  by (simp add: numbered_name_def nat_text_inj)

lemma has_name_clean:
  "clean_text name \<Longrightarrow> has_name name role exclude items \<longleftrightarrow>
     (\<exists>x \<in> set items. \<not> (exclude \<noteq> '''' \<and> ai_id x = exclude) \<and> ai_role x = role \<and> ai_name x = name)"
  by (simp add: has_name_def clean_text_def Let_def)

lemma build_default_name_free:
  "clean_text (build_default_name role exclude items) \<and> \<not> has_name (build_default_name role exclude items) role exclude items"
proof -
  let ?taken = "\<lambda>n. has_name (numbered_name role n) role exclude items"
  have "find (\<lambda>n. \<not> ?taken n) [2..<length items + 3] \<noteq> None"
  proof
    assume "find (\<lambda>n. \<not> ?taken n) [2..<length items + 3] = None"
    then have "\<forall>n \<in> {2..<length items + 3}. ?taken n" by (simp add: find_None_iff)
    then have "\<exists>x \<in> set items. ai_name x = numbered_name role n" if "n \<in> {2..<length items + 3}" for n
      using that by (auto simp: has_name_clean [OF numbered_name_clean])
    then have "numbered_name role ` {2..<length items + 3} \<subseteq> ai_name ` set items" by (force simp: image_iff)
    then have "card (numbered_name role ` {2..<length items + 3}) \<le> card (ai_name ` set items)" by (intro card_mono) simp_all
    moreover have "card (numbered_name role ` {2..<length items + 3}) = length items + 1"
      by (subst card_image) (auto intro: inj_onI numbered_name_inj)
    moreover have "card (ai_name ` set items) \<le> length items"
      using card_image_le [of "set items" ai_name] card_length [of items] by simp
    ultimately show False by simp
  qed
  then obtain n where n: "find (\<lambda>n. \<not> ?taken n) [2..<length items + 3] = Some n" by auto
  then have "\<not> ?taken n" by (auto dest: find_SomeD)
  with n numbered_name_clean default_name_clean show ?thesis by (simp add: build_default_name_def)
qed

lemma build_name_fresh:
  assumes "build_name name role exclude items = Inr n"
  shows "clean_text n" "z \<in> set items \<Longrightarrow> exclude = '''' \<or> ai_id z \<noteq> exclude \<Longrightarrow> ai_role z = role \<Longrightarrow> ai_name z \<noteq> n"
proof -
  have "clean_text n \<and> \<not> has_name n role exclude items"
    using assms build_default_name_free [of role exclude items]
    by (auto simp: build_name_def Let_def clean_text_def split: if_splits)
  then show "clean_text n" "z \<in> set items \<Longrightarrow> exclude = '''' \<or> ai_id z \<noteq> exclude \<Longrightarrow> ai_role z = role \<Longrightarrow> ai_name z \<noteq> n"
    by (auto simp: has_name_clean)
qed

text \<open>What the code relies on of SHA-256 and of \<open>uuid4().hex\<close>: clean, non-empty texts.\<close>

definition draws_ok :: "account_env \<Rightarrow> auth_world \<Rightarrow> bool" where
  "draws_ok env w \<longleftrightarrow> (\<forall>t. clean_text (env_digest env t)) \<and> (\<forall>i. \<forall>k \<in> set (aw_ids w i). clean_text k)"

lemma draw_key_fresh:
  assumes "draw_key env w n items = Some (raw_key, h)"
  shows "build_key_hash env w raw_key '''' items = Inr h"
proof -
  define pick where "pick = (\<lambda>token. case build_key_hash env w (''sk-'' @ token) '''' items of
      Inl e \<Rightarrow> None | Inr h \<Rightarrow> Some (''sk-'' @ token, h))"
  have "(raw_key, h) \<in> set (List.map_filter pick (aw_tokens w n))"
    using assms unfolding draw_key_def pick_def [symmetric] by (auto split: list.splits)
  then obtain token where "pick token = Some (raw_key, h)" by (auto simp: List.map_filter_def)
  then show ?thesis by (auto simp: pick_def split: sum.splits)
qed

lemma created_item_ok:
  fixes c :: string
  assumes "draws_ok env w" "view_ok items" "build_name name role '''' items = Inr n" "draw_key env w i items = Some (raw_key, h)"
    and "draw_id w i items = Some k"
  defines "x \<equiv> \<lparr>ai_id = k, ai_name = n, ai_role = role, ai_hash = h, ai_enabled = True, ai_created = c, ai_last_used = None\<rparr>"
  shows "clean_item x" "apart x items"
proof -
  note h = build_key_hash_fresh [OF draw_key_fresh [OF assms(4)]] and n = build_name_fresh [OF assms(3)]
  have "k \<in> set (aw_ids w i)" using assms(5) by (auto simp: draw_id_def dest: find_SomeD)
  with h(1) n(1) assms(1) show "clean_item x" by (simp add: clean_item_def x_def draws_ok_def)
  from h(3) n(2) show "apart x items" by (simp add: apart_def x_def)
qed

lemma updated_item_ok:
  assumes "draws_ok env w" "view_ok items" "unique_keys (view_keys items)" "x \<in> set items"
    and "updated_item env w updates items x = Inr y"
  shows "clean_item y" "apart y items" "ai_id y = ai_id x"
proof -
  have x: "clean_item x" "apart x items" using assms(2,4) unique_keys_apart [OF assms(2-4)] by (auto simp: view_ok_def)
  have id: "ai_id x \<noteq> ''''" using x(1) by (simp add: clean_item_def clean_text_def)
  obtain y1 where y1: "y1 = x \<or> (\<exists>n. y1 = x\<lparr>ai_name := n\<rparr> \<and> build_name (raw_text env (field updates ''name'')) (ai_role x) (ai_id x) items = Inr n)"
    and rest: "y = (if field updates ''enabled'' = PNone then y1 else y1\<lparr>ai_enabled := truthy (field updates ''enabled'')\<rparr>) \<or>
      (\<exists>h. y = (if field updates ''enabled'' = PNone then y1 else y1\<lparr>ai_enabled := truthy (field updates ''enabled'')\<rparr>)\<lparr>ai_hash := h\<rparr> \<and>
        build_key_hash env w (raw_text env (field updates ''key'')) (ai_id x) items = Inr h)"
    using assms(5) by (auto simp: updated_item_def Let_def split: sum.splits if_splits)
  have one: "clean_item y1 \<and> apart y1 items \<and> ai_id y1 = ai_id x" using y1
  proof
    assume "\<exists>n. y1 = x\<lparr>ai_name := n\<rparr> \<and> build_name (raw_text env (field updates ''name'')) (ai_role x) (ai_id x) items = Inr n"
    then obtain n where n: "y1 = x\<lparr>ai_name := n\<rparr>"
      "build_name (raw_text env (field updates ''name'')) (ai_role x) (ai_id x) items = Inr n" by blast
    with build_name_fresh [OF n(2)] x show ?thesis by (auto simp: clean_item_def apart_def)
  qed (use x in simp)
  define y2 where "y2 = (if field updates ''enabled'' = PNone then y1 else y1\<lparr>ai_enabled := truthy (field updates ''enabled'')\<rparr>)"
  have two: "clean_item y2 \<and> apart y2 items \<and> ai_id y2 = ai_id x" using one by (auto simp: y2_def clean_item_def apart_def)
  from rest have "clean_item y \<and> apart y items \<and> ai_id y = ai_id x" unfolding y2_def [symmetric]
  proof
    assume "\<exists>h. y = y2\<lparr>ai_hash := h\<rparr> \<and> build_key_hash env w (raw_text env (field updates ''key'')) (ai_id x) items = Inr h"
    then obtain h where h: "y = y2\<lparr>ai_hash := h\<rparr>" "build_key_hash env w (raw_text env (field updates ''key'')) (ai_id x) items = Inr h"
      by blast
    have "clean_text h" using build_key_hash_fresh(1) [OF h(2)] assms(1) by (simp add: draws_ok_def)
    with build_key_hash_fresh(3) [OF h(2)] two h(1) show ?thesis by (auto simp: clean_item_def apart_def)
  qed (use two in simp)
  then show "clean_item y" "apart y items" "ai_id y = ai_id x" by simp_all
qed


text \<open>The result of a creation: the new key is in the view and in the storage.\<close>

definition created_by :: "account_env \<Rightarrow> auth_world \<Rightarrow> auth_service \<Rightarrow> account storage \<Rightarrow> auth_error + public_key \<times> string \<Rightarrow> bool" where
  "created_by env w a s result \<longleftrightarrow>
     (case result of
        Inl e \<Rightarrow> True
      | Inr (p, raw_key) \<Rightarrow> fresh_view env a s \<and> as_refreshed a = aw_mono w \<and> py_strip raw_key \<noteq> '''' \<and>
          (\<exists>x \<in> set (as_items a). p = public_item x \<and> ai_enabled x \<and> ai_hash x = env_digest env (py_strip raw_key)))"

lemma create_attempts_in_order:
  assumes "peers env unique_keys w" "draws_ok env w" "in_order env unique_keys a s"
    and "create_attempts env w role name i n a s = (result, b, t)"
  shows "in_order env unique_keys b t \<and> created_by env w b t result"
  using assms(3,4)
proof (induction n arbitrary: i a s)
  case 0
  then show ?case by (auto simp: created_by_def)
next
  case (Suc n)
  obtain loaded c u where r: "reload env w i a s = (loaded, c, u)" by (metis surj_pair)
  note c = reload_in_order [OF assms(1) Suc.prems(1) r]
  show ?case
  proof (cases loaded)
    case False
    with r c Suc.prems(2) show ?thesis by (auto simp: created_by_def)
  next
    case True
    have view: "view_ok (as_items c)" "unique_keys (view_keys (as_items c))" "as_revision c = Some (st_version u)"
      using c True by (auto simp: in_order_def fresh_view_def)
    show ?thesis
    proof (cases "\<exists>name' p k. build_name name role '''' (as_items c) = Inr name' \<and> draw_key env w i (as_items c) = Some p \<and>
        draw_id w i (as_items c) = Some k")
      case False
      with True r c Suc.prems(2) show ?thesis by (auto simp: created_by_def split: sum.splits option.splits)
    next
      case drawn: True
      then obtain name' raw_key h k where d: "build_name name role '''' (as_items c) = Inr name'"
        "draw_key env w i (as_items c) = Some (raw_key, h)" "draw_id w i (as_items c) = Some k" by (auto simp: split_paired_all)
      define x where "x = \<lparr>ai_id = k, ai_name = name', ai_role = role, ai_hash = h, ai_enabled = True,
        ai_created = env_stamp env (aw_now w), ai_last_used = None\<rparr>"
      note x = created_item_ok [OF assms(2) view(1) d, where c = "env_stamp env (aw_now w)", folded x_def]
      let ?u = "aw_others w (i + 1) u"
      note o = others_in_order [OF assms(1) c(1), of "i + 1"]
      show ?thesis
      proof (cases "aw_down w (i + 1)")
        case True
        with \<open>loaded\<close> d r o Suc.prems(2) show ?thesis by (auto simp: created_by_def Let_def)
      next
        case up: False
        show ?thesis
        proof (cases "mutate_items (auth_key_of env) (put_mutation x c) ?u")
          case (Inl e)
          with \<open>loaded\<close> d r o up Suc.prems(2) Suc.IH [OF o] show ?thesis
            by (cases e) (auto simp: created_by_def Let_def x_def [symmetric] split: if_splits)
        next
          case (Inr res)
          obtain m v where res: "res = (m, v)" by (cases res)
          have keeps: "unique_keys ((stored_keys env ?u)(ai_id x \<mapsto> essence x))" if "view_keys (as_items c) = stored_keys env ?u"
            using unique_keys_put [OF view(1,2) x(2)] that by simp
          note p = put_in_order [OF o x(1) view(3) Inr [unfolded res] keeps]
          have run: "result = Inr (public_item x, raw_key)" "b = set_cached_item x (mr_revision m) c" "t = v"
            using \<open>loaded\<close> d r up Inr res Suc.prems(2) by (auto simp: Let_def x_def [symmetric])
          have "x \<in> set (as_items b)" "ai_enabled x" by (simp_all add: run set_cached_item_def x_def)
          moreover have "ai_hash x = env_digest env (py_strip raw_key)" "py_strip raw_key \<noteq> ''''"
            using build_key_hash_fresh(1,2) [OF draw_key_fresh [OF d(2)]] by (simp_all add: x_def)
          ultimately have "created_by env w b t result"
            using p(2) run c(2) \<open>loaded\<close> by (auto simp: created_by_def set_cached_item_def)
          with p(1) run show ?thesis by simp
        qed
      qed
    qed
  qed
qed

lemma update_attempts_in_order:
  assumes "peers env unique_keys w" "draws_ok env w" "in_order env unique_keys a s"
    and "update_attempts env w k updates role i n a s = (result, b, t)"
  shows "in_order env unique_keys b t"
  using assms(3,4)
proof (induction n arbitrary: i a s)
  case 0
  then show ?case by auto
next
  case (Suc n)
  obtain loaded c u where r: "reload env w i a s = (loaded, c, u)" by (metis surj_pair)
  note c = reload_in_order [OF assms(1) Suc.prems(1) r]
  let ?u = "aw_others w (i + 1) u"
  note o = others_in_order [OF assms(1) c(1), of "i + 1"]
  show ?case
  proof (cases "loaded \<and> (\<exists>x y. find_item k role (as_items c) = Some x \<and> updated_item env w updates (as_items c) x = Inr y)")
    case False
    with r c Suc.prems(2) show ?thesis by (cases loaded) (auto split: sum.splits option.splits)
  next
    case True
    then obtain x y where d: "loaded" "find_item k role (as_items c) = Some x" "updated_item env w updates (as_items c) x = Inr y"
      by auto
    have view: "view_ok (as_items c)" "unique_keys (view_keys (as_items c))" "as_revision c = Some (st_version u)"
      using c d(1) by (auto simp: in_order_def fresh_view_def)
    have "x \<in> set (as_items c)" using d(2) by (auto simp: find_item_def dest: find_SomeD split: option.splits if_splits)
    note y = updated_item_ok [OF assms(2) view(1,2) this d(3)]
    show ?thesis
    proof (cases "mutate_items (auth_key_of env) (put_mutation y c) ?u")
      case (Inl e)
      with d r o Suc.prems(2) Suc.IH [OF o] show ?thesis by (cases e) (auto simp: Let_def split: if_splits)
    next
      case (Inr res)
      obtain m v where res: "res = (m, v)" by (cases res)
      have keeps: "unique_keys ((stored_keys env ?u)(ai_id y \<mapsto> essence y))" if "view_keys (as_items c) = stored_keys env ?u"
        using unique_keys_put [OF view(1,2) y(2)] that by simp
      note p = put_in_order(1) [OF o y(1) view(3) Inr [unfolded res] keeps]
      from d r o Inr res Suc.prems(2) p show ?thesis by (auto simp: Let_def split: if_splits)
    qed
  qed
qed

lemma delete_attempts_in_order:
  assumes "peers env Q w" "in_order env Q a s" "py_strip k = k" and closed: "\<And>m. Q m \<Longrightarrow> Q (m(k := None))"
    and "delete_attempts env w k role i n a s = (result, b, t)"
  shows "in_order env Q b t"
  using assms(2,5)
proof (induction n arbitrary: i a s)
  case 0
  then show ?case by auto
next
  case (Suc n)
  obtain loaded c u where r: "reload env w i a s = (loaded, c, u)" by (metis surj_pair)
  note c = reload_in_order [OF assms(1) Suc.prems(1) r]
  let ?u = "aw_others w (i + 1) u"
  note o = others_in_order [OF assms(1) c(1), of "i + 1"]
  show ?case
  proof (cases "loaded \<and> find_item k role (as_items c) \<noteq> None")
    case False
    with r c Suc.prems(2) show ?thesis by (cases loaded) auto
  next
    case d: True
    have rev: "as_revision c = Some (st_version u)" using c d by (auto simp: fresh_view_def)
    have flushed: "in_order env Q (c\<lparr>as_flushed := f\<rparr>) v \<longleftrightarrow> in_order env Q c v" for c f v
      by (simp add: in_order_def view_based_def split: option.split)
    show ?thesis
    proof (cases "mutate_items (auth_key_of env) (delete_mutation k c) ?u")
      case (Inl e)
      with d r o Suc.prems(2) Suc.IH [OF o] show ?thesis by (cases e) (auto simp: Let_def split: if_splits)
    next
      case (Inr res)
      obtain m v where res: "res = (m, v)" by (cases res)
      have "Q ((stored_keys env ?u)(k := None))" using o closed by (simp add: in_order_def)
      from delete_in_order(1) [OF o rev assms(3) Inr [unfolded res] this] d r o Inr res Suc.prems(2)
      show ?thesis by (auto simp: Let_def flushed split: if_splits)
    qed
  qed
qed


section \<open>A run\<close>

text \<open>
  An environment, and an undisturbed process that starts on an empty storage and creates a
  key.
\<close>

definition auth_env :: account_env where
  "auth_env =
     \<lparr>env_repr = (\<lambda>v. ''[]''), env_int = (\<lambda>s. None), env_float_int = (\<lambda>s. None),
      env_digest = (\<lambda>s. CHR ''h'' # map (\<lambda>c. if is_py_space c then CHR ''_'' else c) s), env_uuid5 = length,
      env_parse_uuid = (\<lambda>s. None), env_claim = (\<lambda>t c. PNone), env_parse_time = (\<lambda>s. None),
      env_stamp = (\<lambda>t. if t < secs 1010 then ''t1'' else ''t2''), env_created_stamp = ''c'', env_fresh_id = ''v''\<rparr>"

definition auth_quiet :: "time \<Rightarrow> auth_world" where
  "auth_quiet tick =
     \<lparr>aw_now = secs 1000 + tick, aw_mono = tick, aw_admin_key = ''root'', aw_others = (\<lambda>i s. s), aw_down = (\<lambda>i. False),
      aw_tokens = (\<lambda>i. [''one'', ''two'']), aw_ids = (\<lambda>i. [''id1'', ''id2''])\<rparr>"

definition no_keys :: "account storage" where
  "no_keys = \<lparr>st_items = [], st_version = 0\<rparr>"

lemma auth_quiet_peers: "peers auth_env Q (auth_quiet tick)"
  by (simp add: peers_def auth_quiet_def)

lemma auth_env_draws: "draws_ok auth_env (auth_quiet tick)"
proof -
  have "\<not> is_py_space (CHR ''h'')" "\<not> is_py_space (CHR ''_'')" by code_simp+
  then have "clean_text (env_digest auth_env t)" for t
    by (simp add: auth_env_def clean_text_def) (rule strip_spaceless, auto)
  moreover have "clean_text ''id1''" "clean_text ''id2''" by code_simp+
  ultimately show ?thesis by (simp add: draws_ok_def auth_quiet_def)
qed

lemma no_keys_in_order: "Q Map.empty \<Longrightarrow> in_order auth_env Q new_auth_service no_keys"
  by (simp add: in_order_def no_keys_def storage_ok_def new_auth_service_def view_ok_def view_based_def stored_keys_def)

definition auth_run :: "(auth_error + public_key \<times> string) \<times> auth_service \<times> account storage" where
  "auth_run = create_key auth_env (auth_quiet (secs 7)) UserRole '' ann '' new_auth_service no_keys"

lemma auth_run_result:
  "fst auth_run = Inr (\<lparr>pk_id = ''id1'', pk_name = ''ann'', pk_role = UserRole, pk_enabled = True,
     pk_created = ''t1'', pk_last_used = None\<rparr>, ''sk-one'')"
  by code_simp

lemma unique_empty: "unique_keys Map.empty"
  by (simp add: unique_keys_def)

lemma auth_run_in_order: "in_order auth_env unique_keys (fst (snd auth_run)) (snd (snd auth_run))"
proof -
  have "in_order auth_env unique_keys new_auth_service no_keys" by (rule no_keys_in_order) (rule unique_empty)
  from create_attempts_in_order [OF auth_quiet_peers auth_env_draws this, of "secs 7" UserRole "'' ann ''" 0 cas_attempts]
  show ?thesis unfolding auth_run_def create_key_def by (metis prod.collapse)
qed

section \<open>What the callers can rely on\<close>

text \<open>
  Property C32. Authentication never undoes a change of the keys: any condition on the stored
  names, roles, hashes and enabled marks that the other processes keep (a key is deleted, is
  disabled, has lost its old secret) still holds after an authentication that ran among
  them, although it writes the time of use of the key it had found in its older view, retries
  after conflicts and goes on when the storage fails.
\<close>

theorem authentication_keeps_revocation:
  assumes "peers env Q w" "in_order env Q a s" "0 < aw_mono w"
    and "\<And>a s. in_order env Q a s \<Longrightarrow> in_order env Q (meanwhile a) s"
  shows "Q (stored_keys env (snd (snd (authenticate env w busy meanwhile raw_key a s))))"
proof -
  obtain answer b t where run: "authenticate env w busy meanwhile raw_key a s = (answer, b, t)" by (metis surj_pair)
  from authenticate_in_order [OF assms(1,2,3) _ run] assms(4) run show ?thesis by (auto simp: in_order_def)
qed

text \<open>The empty storage stays empty while an unknown secret is tried.\<close>

lemma authentication_keeps_revocation_witness:
  "stored_keys auth_env (snd (snd (authenticate auth_env (auth_quiet (secs 7)) False (\<lambda>a. a) ''sk-one'' new_auth_service no_keys)))
     ''id1'' = None"
proof -
  define Q :: "(string \<rightharpoonup> essence) \<Rightarrow> bool" where "Q m \<longleftrightarrow> m ''id1'' = None" for m
  have order: "in_order auth_env Q new_auth_service no_keys" by (rule no_keys_in_order) (simp add: Q_def)
  have up: "0 < aw_mono (auth_quiet (secs 7))" by (simp add: auth_quiet_def secs_def)
  show ?thesis
    using authentication_keeps_revocation [OF auth_quiet_peers order up, of "\<lambda>a. a" False "''sk-one''"] by (simp add: Q_def)
qed

text \<open>
  Who is let in: an answer is the public part of an enabled key of the view whose
  hash is the digest of the stripped secret, the secret is not empty, and the view was read
  at most 30 seconds ago, whatever the storage and the other processes do.
\<close>

theorem authentication_is_sound:
  assumes "peers env Q w" "in_order env Q a s" "0 < aw_mono w"
    and "\<And>a s. in_order env Q a s \<Longrightarrow> in_order env Q (meanwhile a) s"
    and "authenticate env w busy meanwhile raw_key a s = (Some p, b, t)"
  shows "py_strip raw_key \<noteq> '''' \<and> aw_mono w - as_refreshed b \<le> secs 30 \<and>
    (\<exists>x \<in> set (as_items b). p = public_item x \<and> ai_enabled x \<and> ai_hash x = env_digest env (py_strip raw_key))"
proof -
  have "py_strip raw_key \<noteq> ''''" using assms(5) by (auto simp: authenticate_def)
  moreover have "accepted_by w (env_digest env (py_strip raw_key)) b (Some p)"
    using authenticate_in_order [OF assms(1,2,3) _ assms(5)] assms(4) by blast
  ultimately show ?thesis by (auto simp: accepted_by_def snapshot_is_usable_def max_stale_def)
qed

text \<open>The new key is let in seven seconds later.\<close>

lemma authentication_is_sound_witness:
  "\<exists>p b t. authenticate auth_env (auth_quiet (secs 14)) False (\<lambda>a. a) '' sk-one'' (fst (snd auth_run)) (snd (snd auth_run)) = (Some p, b, t) \<and>
     secs 14 - as_refreshed b \<le> secs 30 \<and> (\<exists>x \<in> set (as_items b). p = public_item x \<and> ai_hash x = ''hsk-one'')"
proof -
  let ?run = "authenticate auth_env (auth_quiet (secs 14)) False (\<lambda>a. a) '' sk-one'' (fst (snd auth_run)) (snd (snd auth_run))"
  have "fst ?run \<noteq> None" by code_simp
  then obtain p b t where run: "?run = (Some p, b, t)" by (cases ?run) auto
  have up: "0 < aw_mono (auth_quiet (secs 14))" by (simp add: auth_quiet_def secs_def)
  have digest: "env_digest auth_env (py_strip '' sk-one'') = ''hsk-one''" by code_simp
  have mono: "aw_mono (auth_quiet (secs 14)) = secs 14" by (simp add: auth_quiet_def)
  from authentication_is_sound [OF auth_quiet_peers auth_run_in_order up _ run] run show ?thesis
    unfolding digest mono by blast
qed

text \<open>
  Property C33. Revocation takes effect: once no enabled key of the storage has the digest of
  a secret, and as long as no process puts one there, a process that is due to look at the
  storage (its last attempt is at least 5 seconds old), that no other thread keeps from it
  and that can read it, refuses the secret.
\<close>

theorem revoked_key_is_refused:
  fixes h :: string
  defines "revoked \<equiv> \<lambda>m :: string \<rightharpoonup> essence. \<forall>k n r e. m k = Some (n, r, h, e) \<longrightarrow> \<not> e"
  assumes "peers env revoked w" "in_order env revoked a s" "h = env_digest env (py_strip raw_key)"
    and "secs 5 \<le> aw_mono w - as_checked a" "\<not> aw_down w 0"
  shows "fst (authenticate env w False (\<lambda>a. a) raw_key a s) = None"
proof -
  define q where "q = a\<lparr>as_checked := aw_mono w\<rparr>"
  have q: "in_order env revoked q s" using assms(3) by (simp add: q_def in_order_def view_based_def split: option.splits)
  note o = others_in_order [OF assms(2) q, of 0]
  obtain items revision where l: "load_auth_snapshot env (aw_now w) (aw_others w 0 s) = (items, revision)" by fastforce
  define b where "b = q\<lparr>as_items := items, as_revision := Some revision, as_refreshed := aw_mono w,
    as_flushed := filter (\<lambda>(k, t). k \<in> ai_id ` set items) (as_flushed q)\<rparr>"
  have "in_order env revoked b (aw_others w 0 s)" "fresh_view env b (aw_others w 0 s)"
    using loaded_in_order [OF o l, of b] by (simp_all add: b_def)
  then have keys: "revoked (view_keys items)" "view_ok items" by (simp_all add: in_order_def fresh_view_def b_def)
  have none: "find_hash h items = None"
  proof (rule ccontr)
    assume "find_hash h items \<noteq> None"
    then obtain x where x: "x \<in> set items" "ai_enabled x" "ai_hash x = h" using find_hash_item by fastforce
    with keys view_keys_item [OF keys(2) x(1)] show False by (auto simp: revoked_def essence_def)
  qed
  obtain n where n: "cas_attempts = Suc n" by (simp add: cas_attempts_def)
  have "refresh_snapshot_if_due env w False (\<lambda>a. a) a s = (True, b, aw_others w 0 s)"
    using assms(5,6) l by (simp add: refresh_snapshot_if_due_def refresh_interval_def Let_def b_def q_def)
  moreover have "auth_attempts env w h 1 cas_attempts b (aw_others w 0 s) = (None, b, aw_others w 0 s)"
    using none by (simp add: n b_def)
  ultimately show ?thesis using assms(4) by (simp add: authenticate_def Let_def)
qed

text \<open>The secret of the new key after the key is deleted.\<close>

definition revoked_run :: "(auth_error + bool) \<times> auth_service \<times> account storage" where
  "revoked_run = delete_key auth_env (auth_quiet (secs 9)) ''id1'' None (fst (snd auth_run)) (snd (snd auth_run))"

lemma revoked_run_state:
  "fst revoked_run = Inr True" "as_items (fst (snd revoked_run)) = []" "as_revision (fst (snd revoked_run)) = Some 2"
  "st_version (snd (snd revoked_run)) = 2" "map fst (st_items (snd (snd revoked_run))) = []"
  "secs 5 \<le> secs 20 - as_checked (fst (snd revoked_run))"
  by code_simp+

lemma revoked_key_is_refused_witness:
  "fst (authenticate auth_env (auth_quiet (secs 20)) False (\<lambda>a. a) ''sk-one'' (fst (snd revoked_run)) (snd (snd revoked_run))) = None"
proof (rule revoked_key_is_refused [OF auth_quiet_peers _ refl])
  let ?Q = "\<lambda>m :: string \<rightharpoonup> essence. \<forall>k n r e. m k = Some (n, r, env_digest auth_env (py_strip ''sk-one''), e) \<longrightarrow> \<not> e"
  have items: "st_items (snd (snd revoked_run)) = []" using revoked_run_state(5) by simp
  show "in_order auth_env ?Q (fst (snd revoked_run)) (snd (snd revoked_run))"
    by (simp add: in_order_def storage_ok_def view_ok_def view_based_def stored_keys_def items revoked_run_state(2-4))
qed (use revoked_run_state(6) in \<open>simp_all add: auth_quiet_def\<close>)

text \<open>
  Property C34. In every interleaving with processes that do the same, creating, changing and
  deleting keys and authenticating keep the stored keys apart: no two keys have the same
  hash and no two keys of one role the same name.
\<close>

theorem key_calls_keep_keys_unique:
  assumes "peers env unique_keys w" "draws_ok env w" "in_order env unique_keys a s" "0 < aw_mono w"
    and "\<And>a s. in_order env unique_keys a s \<Longrightarrow> in_order env unique_keys (meanwhile a) s"
  shows "unique_keys (stored_keys env (snd (snd (create_key env w role name a s)))) \<and>
    unique_keys (stored_keys env (snd (snd (update_key env w key_id updates role' a s)))) \<and>
    unique_keys (stored_keys env (snd (snd (delete_key env w key_id role' a s)))) \<and>
    unique_keys (stored_keys env (snd (snd (authenticate env w busy meanwhile raw_key a s))))"
proof (intro conjI)
  have stored: "unique_keys (stored_keys env s)" using assms(3) by (simp add: in_order_def)
  obtain result b t where c: "create_key env w role name a s = (result, b, t)" by (metis surj_pair)
  with create_attempts_in_order [OF assms(1-3), of role name 0 cas_attempts]
  show "unique_keys (stored_keys env (snd (snd (create_key env w role name a s))))"
    by (simp add: create_key_def in_order_def)
  obtain result b t where u: "update_attempts env w (py_strip key_id) updates role' 0 cas_attempts a s = (result, b, t)"
    by (metis surj_pair)
  from update_attempts_in_order [OF assms(1-3) u] u stored
  show "unique_keys (stored_keys env (snd (snd (update_key env w key_id updates role' a s))))"
    by (simp add: update_key_def in_order_def)
  obtain result b t where d: "delete_attempts env w (py_strip key_id) role' 0 cas_attempts a s = (result, b, t)"
    by (metis surj_pair)
  from delete_attempts_in_order [OF assms(1,3) py_strip_idem unique_keys_delete d] d stored
  show "unique_keys (stored_keys env (snd (snd (delete_key env w key_id role' a s))))"
    by (simp add: delete_key_def in_order_def)
  obtain answer b t where run: "authenticate env w busy meanwhile raw_key a s = (answer, b, t)" by (metis surj_pair)
  then have "in_order env unique_keys b t" using authenticate_in_order [OF assms(1,3,4) _ run] assms(5) by blast
  with run show "unique_keys (stored_keys env (snd (snd (authenticate env w busy meanwhile raw_key a s))))"
    by (simp add: in_order_def)
qed

lemma key_calls_keep_keys_unique_witness:
  "unique_keys (stored_keys auth_env (snd (snd (create_key auth_env (auth_quiet (secs 9)) UserRole '''' (fst (snd auth_run))
     (snd (snd auth_run))))))"
proof -
  have up: "0 < aw_mono (auth_quiet (secs 9))" by (simp add: auth_quiet_def secs_def)
  show ?thesis
    by (rule conjunct1 [OF key_calls_keep_keys_unique [OF auth_quiet_peers auth_env_draws auth_run_in_order up]])
qed


text \<open>
  Property C35. A key works as soon as it is created: the secret that \<open>create_key\<close> returns,
  presented to the same process within 30 seconds while no other process writes, is answered
  with the identity, name and role of the new key, whether the view is refreshed or not, and
  even if the storage fails by then.
\<close>

theorem created_key_authenticates:
  assumes "peers env unique_keys w" "draws_ok env w" "in_order env unique_keys a s" "0 < aw_mono w"
    and "create_key env w role name a s = (Inr (p, raw_key), b, t)"
    and "\<And>i s. aw_others v i s = s" "aw_mono w \<le> aw_mono v" "aw_mono v \<le> aw_mono w + secs 30"
  shows "\<exists>q. fst (authenticate env v busy (\<lambda>a. a) raw_key b t) = Some q \<and>
    pk_id q = pk_id p \<and> pk_name q = pk_name p \<and> pk_role q = pk_role p"
proof -
  define h where "h = env_digest env (py_strip raw_key)"
  have "in_order env unique_keys b t \<and> created_by env w b t (Inr (p, raw_key))"
    by (rule create_attempts_in_order [OF assms(1-3)]) (use assms(5) in \<open>simp add: create_key_def\<close>)
  then obtain x where b: "in_order env unique_keys b t" "fresh_view env b t" "as_refreshed b = aw_mono w"
    and x: "x \<in> set (as_items b)" "p = public_item x" "ai_enabled x" "ai_hash x = h" and raw: "py_strip raw_key \<noteq> ''''"
    by (auto simp: created_by_def h_def)
  have usable: "snapshot_is_usable (aw_mono v) b" using assms(4,8) b(3) by (simp add: snapshot_is_usable_def max_stale_def)
  have "\<exists>c. refresh_snapshot_if_due env v busy (\<lambda>a. a) b t = (True, c, t) \<and> in_order env unique_keys c t \<and> fresh_view env c t"
  proof -
    define q where "q = b\<lparr>as_checked := aw_mono v\<rparr>"
    have q: "in_order env unique_keys q t" "fresh_view env q t" "snapshot_is_usable (aw_mono v) q"
      using b usable by (simp_all add: q_def in_order_def view_based_def fresh_view_def snapshot_is_usable_def)
    obtain items revision where l: "load_auth_snapshot env (aw_now v) t = (items, revision)" by fastforce
    have "in_order env unique_keys (q\<lparr>as_items := items, as_revision := Some revision, as_refreshed := aw_mono v, as_flushed := f\<rparr>) t"
      "fresh_view env (q\<lparr>as_items := items, as_revision := Some revision, as_refreshed := aw_mono v, as_flushed := f\<rparr>) t" for f
      by (rule loaded_in_order [OF q(1) l]; simp)+
    with q b usable l assms(6) show ?thesis
      by (simp add: refresh_snapshot_if_due_def Let_def q_def [symmetric])
  qed
  then obtain c where c: "refresh_snapshot_if_due env v busy (\<lambda>a. a) b t = (True, c, t)" "in_order env unique_keys c t"
    "fresh_view env c t" by blast
  have views: "view_ok (as_items b)" "view_ok (as_items c)" "view_keys (as_items c) = view_keys (as_items b)"
    "unique_keys (view_keys (as_items b))" "as_revision c = Some (st_version t)"
    using b(1,2) c(2,3) by (auto simp: in_order_def fresh_view_def)
  note keyx = view_keys_item [OF views(1) x(1)]
  from views(3) keyx have "view_keys (as_items c) (ai_id x) = Some (essence x)" by simp
  then obtain z where z: "z \<in> set (as_items c)" "ai_id z = ai_id x" "essence z = essence x" by (rule view_keys_lookup [OF views(2)])
  then have "ai_enabled z \<and> ai_hash z = h" using x by (simp add: essence_def)
  with z(1) have "find_hash h (as_items c) \<noteq> None" by (auto simp: find_hash_def find_None_iff)
  then obtain y where y: "find_hash h (as_items c) = Some y" by auto
  note found = find_hash_item [OF y]
  from view_keys_item [OF views(2), of y] found views(3,4) keyx x(4) have "ai_id y = ai_id x"
    unfolding unique_keys_def essence_def by (metis (no_types, lifting))
  with view_keys_item [OF views(2), of y] found views(3) keyx have same: "ai_id y = ai_id x" "essence y = essence x" by auto
  obtain n where n: "cas_attempts = Suc n" by (simp add: cas_attempts_def)
  let ?y = "used_now env v y"
  have accepted: "mutate_items (auth_key_of env) (put_mutation ?y c) t \<noteq> Inl (RevisionConflict e f)" for e f
    using views(5) by (auto simp: mutate_items_def put_mutation_def check_revision_def normalize_mutation_def normalize_items_def
        Let_def split: sum.splits option.splits if_splits)
  have "fst (auth_attempts env v h 1 cas_attempts c t) = Some (public_item ?y)"
    using accepted y assms(6) unfolding n
    by (auto simp: Let_def split: sum.split prod.split storage_error.split)
  moreover have "pk_id (public_item ?y) = pk_id p \<and> pk_name (public_item ?y) = pk_name p \<and> pk_role (public_item ?y) = pk_role p"
    using same x(2) by (simp add: public_item_def essence_def)
  ultimately show ?thesis using c(1) raw by (auto simp: authenticate_def h_def Let_def)
qed

lemma created_key_authenticates_witness:
  "\<exists>q. fst (authenticate auth_env (auth_quiet (secs 14)) True (\<lambda>a. a) ''sk-one'' (fst (snd auth_run)) (snd (snd auth_run))) = Some q \<and>
     pk_id q = ''id1'' \<and> pk_name q = ''ann'' \<and> pk_role q = UserRole"
proof -
  have order: "in_order auth_env unique_keys new_auth_service no_keys" by (rule no_keys_in_order) (rule unique_empty)
  have "create_key auth_env (auth_quiet (secs 7)) UserRole '' ann '' new_auth_service no_keys =
      (Inr (\<lparr>pk_id = ''id1'', pk_name = ''ann'', pk_role = UserRole, pk_enabled = True, pk_created = ''t1'', pk_last_used = None\<rparr>,
        ''sk-one''), fst (snd auth_run), snd (snd auth_run))"
    using auth_run_result unfolding auth_run_def by (metis prod.collapse)
  from created_key_authenticates [OF auth_quiet_peers auth_env_draws order _ this, of "auth_quiet (secs 14)" True]
  show ?thesis by (simp add: auth_quiet_def) (simp add: secs_def)
qed

end
