(* ===== verification/Chat_Cache.thy ===== *)
theory Chat_Cache
  imports Queue_Rows
begin

text \<open>
  The cache of chat completions (\<open>services/protocol/chat_completion_cache.py\<close>): answers kept
  for a while under the digest of their request, computed once for requests that come
  together. A request runs in steps: the blocks under the lock of the cache, the blocks under
  the condition of a call, and the production of answers outside both. An answer is a list of
  JSON values, the chunks of a stream or the one value of a response; the key tells the two
  apart.
\<close>

section \<open>Keys and messages\<close>

definition internal_response_keys :: "string list" where
  "internal_response_keys =
     [''_account_email'', ''_conversation_id'', ''_call_id'', ''_image_urls'', ''_image_attempts'']"

text \<open>\<open>_strip_internal_response_fields\<close>\<close>

fun strip_internal :: "jval \<Rightarrow> jval" where
  "strip_internal (JObj kvs) =
     JObj (map (\<lambda>(k, v). (k, strip_internal v)) (filter (\<lambda>(k, v). k \<notin> set internal_response_keys) kvs))"
| "strip_internal (JList vs) = JList (map strip_internal vs)"
| "strip_internal v = v"

text \<open>
  The switches of \<open>normalize_text_messages\<close>. \<open>signature\<close> is the JSON text of a message with
  sorted keys (\<open>_message_signature\<close>); it is never empty.
\<close>

record message_settings =
  ms_normalize :: bool
  ms_drop_assistant :: bool
  ms_drop_duplicates :: bool

fun normalize_messages ::
  "message_settings \<Rightarrow> (jobj \<Rightarrow> string) \<Rightarrow> (jobj \<Rightarrow> string) \<Rightarrow> string \<Rightarrow> jobj list \<Rightarrow> jobj list" where
  "normalize_messages cfg role signature previous [] = []"
| "normalize_messages cfg role signature previous (m # ms) =
     (if ms_drop_assistant cfg \<and> role m = ''assistant'' then normalize_messages cfg role signature previous ms
      else if ms_drop_duplicates cfg \<and> signature m = previous then normalize_messages cfg role signature previous ms
      else m # normalize_messages cfg role signature (signature m) ms)"

definition normalize_text_messages ::
  "message_settings \<Rightarrow> (jobj \<Rightarrow> string) \<Rightarrow> (jobj \<Rightarrow> string) \<Rightarrow> jobj list \<Rightarrow> jobj list" where
  "normalize_text_messages cfg role signature ms =
     (if \<not> ms_normalize cfg then ms else normalize_messages cfg role signature '''' ms)"

section \<open>State\<close>

type_synonym answer = "jval list"

record cache_settings =
  cs_enabled :: bool
  cs_ttl :: time
  cs_max_entries :: nat
  cs_dedupe :: bool
  cs_stream_cache :: bool

record cache_entry =
  ce_expires :: time
  ce_value :: answer

datatype cache_exn = ComputeFailed nat | GeneratorExit

text \<open>\<open>ic_holder\<close> is the request that holds the condition of the call while its client reads.\<close>

record inflight_call =
  ic_done :: bool
  ic_value :: "answer option"
  ic_error :: "cache_exn option"
  ic_holder :: "nat option"

text \<open>
  Where a request is: not yet begun, computing without the cache, waiting for a call,
  computing for a call (with the stripped chunks so far), about to settle its call, reading a
  cached stream under the lock of the cache, reading the answer of a call under its
  condition, or finished, with the exception it raised if any.
\<close>

datatype request_phase =
    Ready
  | Bypassing
  | Waiting nat
  | Computing nat answer
  | Settling nat "cache_exn + answer"
  | Replaying answer
  | Rereading nat answer
  | Finished "cache_exn option"

record chat_request =
  rq_key :: string
  rq_stream :: bool
  rq_out :: answer
  rq_phase :: request_phase

text \<open>\<open>cc_lock\<close> is the request that holds the lock between two steps; \<open>cc_log\<close> records every
  answer that was computed to its end, without internal fields, with the time.\<close>

record chat_cache =
  cc_entries :: "(string \<times> cache_entry) list"
  cc_inflight :: "(string \<times> nat) list"
  cc_calls :: "inflight_call list"
  cc_lock :: "nat option"
  cc_requests :: "chat_request list"
  cc_log :: "(string \<times> answer \<times> time) list"

definition new_cache :: chat_cache where
  "new_cache = \<lparr>cc_entries = [], cc_inflight = [], cc_calls = [], cc_lock = None, cc_requests = [], cc_log = []\<rparr>"

definition new_call :: inflight_call where
  "new_call = \<lparr>ic_done = False, ic_value = None, ic_error = None, ic_holder = None\<rparr>"

definition clear :: "chat_cache \<Rightarrow> chat_cache" where
  "clear c = c\<lparr>cc_entries := [], cc_inflight := []\<rparr>"

text \<open>\<open>_prune_locked\<close>: expired entries go, then the ones that expire first.\<close>

definition drop_oldest :: "(string \<times> cache_entry) list \<Rightarrow> (string \<times> cache_entry) list" where
  "drop_oldest es =
     (case first_by (\<lambda>(k, e). ce_expires e) es of
        None \<Rightarrow> es
      | Some (k, e) \<Rightarrow> filter (\<lambda>(k', e'). k' \<noteq> k) es)"

definition prune :: "time \<Rightarrow> nat \<Rightarrow> (string \<times> cache_entry) list \<Rightarrow> (string \<times> cache_entry) list" where
  "prune now max_entries es =
     (let es = filter (\<lambda>(k, e). now < ce_expires e) es
      in (drop_oldest ^^ (length es - max_entries)) es)"

section \<open>Steps of a request\<close>

definition set_request :: "nat \<Rightarrow> (chat_request \<Rightarrow> chat_request) \<Rightarrow> chat_cache \<Rightarrow> chat_cache" where
  "set_request i f c = c\<lparr>cc_requests := (cc_requests c)[i := f (cc_requests c ! i)]\<rparr>"

definition set_call :: "nat \<Rightarrow> (inflight_call \<Rightarrow> inflight_call) \<Rightarrow> chat_cache \<Rightarrow> chat_cache" where
  "set_call n f c = c\<lparr>cc_calls := (cc_calls c)[n := f (cc_calls c ! n)]\<rparr>"

definition go :: "nat \<Rightarrow> request_phase \<Rightarrow> chat_cache \<Rightarrow> chat_cache" where
  "go i ph = set_request i (\<lambda>r. r\<lparr>rq_phase := ph\<rparr>)"

definition emit :: "nat \<Rightarrow> answer \<Rightarrow> chat_cache \<Rightarrow> chat_cache" where
  "emit i vs = set_request i (\<lambda>r. r\<lparr>rq_out := rq_out r @ vs\<rparr>)"

definition pop_inflight :: "string \<Rightarrow> chat_cache \<Rightarrow> chat_cache" where
  "pop_inflight k c = c\<lparr>cc_inflight := filter (\<lambda>(k', n). k' \<noteq> k) (cc_inflight c)\<rparr>"

definition log_answer :: "string \<Rightarrow> answer \<Rightarrow> time \<Rightarrow> chat_cache \<Rightarrow> chat_cache" where
  "log_answer k vs now c = c\<lparr>cc_log := cc_log c @ [(k, vs, now)]\<rparr>"

text \<open>The first block under the lock. A cached stream is then read inside the block.\<close>

definition begin_request :: "cache_settings \<Rightarrow> time \<Rightarrow> nat \<Rightarrow> chat_cache \<Rightarrow> chat_cache" where
  "begin_request cfg now i c =
     (let r = cc_requests c ! i; k = rq_key r
      in if \<not> cs_enabled cfg \<or> rq_stream r \<and> \<not> cs_stream_cache cfg \<or> cs_ttl cfg \<le> 0 then go i Bypassing c
         else
           let c = c\<lparr>cc_entries := prune now (cs_max_entries cfg) (cc_entries c)\<rparr>;
               hit = (case map_of (cc_entries c) k of
                        Some e \<Rightarrow> if now < ce_expires e then Some (ce_value e) else None
                      | None \<Rightarrow> None)
           in case hit of
                Some vs \<Rightarrow>
                  if rq_stream r then go i (Replaying vs) (c\<lparr>cc_lock := Some i\<rparr>)
                  else go i (Finished None) (emit i vs c)
              | None \<Rightarrow>
                  (case if cs_dedupe cfg then map_of (cc_inflight c) k else None of
                     Some n \<Rightarrow> go i (Waiting n) c
                   | None \<Rightarrow>
                       let n = length (cc_calls c)
                       in go i (Computing n [])
                            (c\<lparr>cc_calls := cc_calls c @ [new_call],
                               cc_inflight := (if cs_dedupe cfg then dict_set k n (cc_inflight c) else cc_inflight c)\<rparr>)))"

text \<open>Without the cache the answer goes straight to the client.\<close>

definition bypass :: "time \<Rightarrow> nat \<Rightarrow> answer \<Rightarrow> cache_exn option \<Rightarrow> chat_cache \<Rightarrow> chat_cache" where
  "bypass now i vs failure c =
     (let c = go i (Finished failure) (emit i vs c); r = cc_requests c ! i
      in if failure = None then log_answer (rq_key r) (map strip_internal (rq_out r)) now c else c)"

text \<open>The owner of a call produces its answer; a stream hands each chunk to its client at once.\<close>

definition produce_chunk :: "nat \<Rightarrow> jval \<Rightarrow> chat_cache \<Rightarrow> chat_cache" where
  "produce_chunk i v c =
     (case rq_phase (cc_requests c ! i) of
        Computing n vs \<Rightarrow> go i (Computing n (vs @ [strip_internal v])) (emit i [v] c)
      | _ \<Rightarrow> c)"

text \<open>The block under the lock after the last chunk: the answer is stored.\<close>

definition store_answer :: "cache_settings \<Rightarrow> time \<Rightarrow> nat \<Rightarrow> chat_cache \<Rightarrow> chat_cache" where
  "store_answer cfg now i c =
     (let r = cc_requests c ! i; k = rq_key r
      in case rq_phase r of
           Computing n vs \<Rightarrow>
             go i (Settling n (Inr vs)) (log_answer k vs now (pop_inflight k
               (c\<lparr>cc_entries := prune now (cs_max_entries cfg)
                  (dict_set k \<lparr>ce_expires = now + cs_ttl cfg, ce_value = vs\<rparr> (cc_entries c))\<rparr>)))
         | _ \<Rightarrow> c)"

definition abort_call :: "cache_exn \<Rightarrow> nat \<Rightarrow> chat_cache \<Rightarrow> chat_cache" where
  "abort_call failure i c =
     (let r = cc_requests c ! i
      in case rq_phase r of
           Computing n vs \<Rightarrow> go i (Settling n (Inl failure)) (pop_inflight (rq_key r) c)
         | _ \<Rightarrow> c)"

text \<open>The block under the condition: the result is published and the owner returns or raises.\<close>

definition settle_call :: "nat \<Rightarrow> chat_cache \<Rightarrow> chat_cache" where
  "settle_call i c =
     (case rq_phase (cc_requests c ! i) of
        Settling n (Inr vs) \<Rightarrow> go i (Finished None) (set_call n (\<lambda>p. p\<lparr>ic_value := Some vs, ic_done := True\<rparr>) c)
      | Settling n (Inl failure) \<Rightarrow>
          go i (Finished (Some failure)) (set_call n (\<lambda>p. p\<lparr>ic_error := Some failure, ic_done := True\<rparr>) c)
      | _ \<Rightarrow> c)"

text \<open>A waiter whose call is done. A stream is then read under the condition.\<close>

definition wake :: "nat \<Rightarrow> chat_cache \<Rightarrow> chat_cache" where
  "wake i c =
     (case rq_phase (cc_requests c ! i) of
        Waiting n \<Rightarrow>
          let p = cc_calls c ! n; vs = (case ic_value p of Some vs \<Rightarrow> vs | None \<Rightarrow> [])
          in if ic_error p \<noteq> None then go i (Finished (ic_error p)) c
             else if rq_stream (cc_requests c ! i) then go i (Rereading n vs) (set_call n (\<lambda>p. p\<lparr>ic_holder := Some i\<rparr>) c)
             else go i (Finished None) (emit i vs c)
      | _ \<Rightarrow> c)"

text \<open>
  The client of a cached stream takes a chunk, or has read all, or closes the stream, which
  raises \<open>GeneratorExit\<close> at the \<open>yield\<close>.
\<close>

definition read_chunk :: "nat \<Rightarrow> chat_cache \<Rightarrow> chat_cache" where
  "read_chunk i c =
     (case rq_phase (cc_requests c ! i) of
        Replaying (v # vs) \<Rightarrow> go i (Replaying vs) (emit i [v] c)
      | Rereading n (v # vs) \<Rightarrow> go i (Rereading n vs) (emit i [v] c)
      | _ \<Rightarrow> c)"

definition end_reading :: "nat \<Rightarrow> chat_cache \<Rightarrow> chat_cache" where
  "end_reading i c =
     (let finish = (\<lambda>vs. Finished (if vs = [] then None else Some GeneratorExit))
      in case rq_phase (cc_requests c ! i) of
           Replaying vs \<Rightarrow> go i (finish vs) (c\<lparr>cc_lock := None\<rparr>)
         | Rereading n vs \<Rightarrow> go i (finish vs) (set_call n (\<lambda>p. p\<lparr>ic_holder := None\<rparr>) c)
         | _ \<Rightarrow> c)"

section \<open>Interleavings\<close>

definition phase_of_request :: "chat_cache \<Rightarrow> nat \<Rightarrow> request_phase" where
  "phase_of_request c i = rq_phase (cc_requests c ! i)"

definition is_stream :: "chat_cache \<Rightarrow> nat \<Rightarrow> bool" where
  "is_stream c i = rq_stream (cc_requests c ! i)"

inductive cache_step :: "cache_settings \<Rightarrow> chat_cache \<Rightarrow> chat_cache \<Rightarrow> bool" for cfg where
  request_arrived: "cache_step cfg c (c\<lparr>cc_requests := cc_requests c @ [\<lparr>rq_key = k, rq_stream = st, rq_out = [], rq_phase = Ready\<rparr>]\<rparr>)"
| request_began: "i < length (cc_requests c) \<Longrightarrow> phase_of_request c i = Ready \<Longrightarrow> cc_lock c = None \<Longrightarrow>
    cache_step cfg c (begin_request cfg now i c)"
| request_bypassed: "i < length (cc_requests c) \<Longrightarrow> phase_of_request c i = Bypassing \<Longrightarrow>
    cache_step cfg c (bypass now i vs failure c)"
| chunk_produced: "i < length (cc_requests c) \<Longrightarrow> phase_of_request c i = Computing n vs \<Longrightarrow> is_stream c i \<or> vs = [] \<Longrightarrow>
    cache_step cfg c (produce_chunk i v c)"
| answer_stored: "i < length (cc_requests c) \<Longrightarrow> phase_of_request c i = Computing n vs \<Longrightarrow> is_stream c i \<or> vs \<noteq> [] \<Longrightarrow>
    cc_lock c = None \<Longrightarrow> cache_step cfg c (store_answer cfg now i c)"
| call_aborted: "i < length (cc_requests c) \<Longrightarrow> phase_of_request c i = Computing n vs \<Longrightarrow> failure = GeneratorExit \<longrightarrow> is_stream c i \<and> vs \<noteq> [] \<Longrightarrow>
    cc_lock c = None \<Longrightarrow> cache_step cfg c (abort_call failure i c)"
| call_settled: "i < length (cc_requests c) \<Longrightarrow> phase_of_request c i = Settling n res \<Longrightarrow> ic_holder (cc_calls c ! n) = None \<Longrightarrow>
    cache_step cfg c (settle_call i c)"
| waiter_woken: "i < length (cc_requests c) \<Longrightarrow> phase_of_request c i = Waiting n \<Longrightarrow> ic_done (cc_calls c ! n) \<Longrightarrow>
    ic_holder (cc_calls c ! n) = None \<Longrightarrow> cache_step cfg c (wake i c)"
| chunk_read: "i < length (cc_requests c) \<Longrightarrow> cache_step cfg c (read_chunk i c)"
| reading_ended: "i < length (cc_requests c) \<Longrightarrow> cache_step cfg c (end_reading i c)"
| cache_cleared: "cc_lock c = None \<Longrightarrow> cache_step cfg c (clear c)"

end
