(* ===== verification/Chat_Cache_Correct.thy ===== *)
theory Chat_Cache_Correct
  imports Chat_Cache
begin

text \<open>
  The cache of chat completions: every answer it gives was computed once for the same key
  and is younger than its time to live, the entries stay bounded, and a waiting request
  always has an owner that computes for it. The last section shows what reading a stream
  under the lock, and sharing the exception of an owner, do to other clients.
\<close>

section \<open>Pruning\<close>

lemma strip_internal_idem [simp]: "strip_internal (strip_internal v) = strip_internal v"
proof (induction v rule: strip_internal.induct)
  case (1 kvs)
  have "map (\<lambda>(k, v). (k, strip_internal v)) (filter (\<lambda>(k, v). k \<notin> set internal_response_keys)
      (map (\<lambda>(k, v). (k, strip_internal v)) (filter (\<lambda>(k, v). k \<notin> set internal_response_keys) kvs))) =
    map (\<lambda>(k, v). (k, strip_internal v)) (filter (\<lambda>(k, v). k \<notin> set internal_response_keys) kvs)"
    using 1 by (induction kvs) fastforce+
  then show ?case by simp
qed simp_all

lemma strip_all_idem [simp]: "map strip_internal (map strip_internal vs) = map strip_internal vs"
  by simp

lemma drop_oldest_length: "length (drop_oldest es) \<le> length es - 1"
proof (cases "first_by (\<lambda>(k, e). ce_expires e) es")
  case None
  have "drop_oldest es = es" by (simp only: drop_oldest_def None option.case)
  with None show ?thesis by simp
next
  case (Some p)
  obtain k e where p: "p = (k, e)" by (cases p)
  have mem: "(k, e) \<in> set es" using first_by_Some(1) [OF Some] p by simp
  then have "length (filter (\<lambda>(k', e'). k' \<noteq> k) es) < length es" by (intro length_filter_less) auto
  with Some p show ?thesis by (simp add: drop_oldest_def)
qed

lemma drop_oldest_subset: "set (drop_oldest es) \<subseteq> set es"
  by (auto simp: drop_oldest_def split: option.splits)

lemma drop_oldest_distinct: "distinct (map fst es) \<Longrightarrow> distinct (map fst (drop_oldest es))"
  by (auto simp: drop_oldest_def intro: distinct_map_filter split: option.splits)

lemma shrink:
  "length ((drop_oldest ^^ n) es) \<le> length es - n" "set ((drop_oldest ^^ n) es) \<subseteq> set es"
  "distinct (map fst es) \<Longrightarrow> distinct (map fst ((drop_oldest ^^ n) es))"
proof (induction n)
  case (Suc n)
  show "length ((drop_oldest ^^ Suc n) es) \<le> length es - Suc n"
    using Suc(1) drop_oldest_length [of "(drop_oldest ^^ n) es"] by simp
  show "set ((drop_oldest ^^ Suc n) es) \<subseteq> set es" using Suc(2) drop_oldest_subset [of "(drop_oldest ^^ n) es"] by auto
  show "distinct (map fst es) \<Longrightarrow> distinct (map fst ((drop_oldest ^^ Suc n) es))"
    using Suc(3) by (simp add: drop_oldest_distinct)
qed simp_all

lemma prune_ok:
  "length (prune now m es) \<le> m" "set (prune now m es) \<subseteq> {(k, e) \<in> set es. now < ce_expires e}"
  "distinct (map fst es) \<Longrightarrow> distinct (map fst (prune now m es))"
proof -
  define fs where "fs = filter (\<lambda>(k, e). now < ce_expires e) es"
  have p: "prune now m es = (drop_oldest ^^ (length fs - m)) fs" by (simp add: prune_def fs_def Let_def)
  show "length (prune now m es) \<le> m" using shrink(1) [of "length fs - m" fs] by (simp add: p)
  show "set (prune now m es) \<subseteq> {(k, e) \<in> set es. now < ce_expires e}" using shrink(2) [of "length fs - m" fs]
    by (auto simp: p fs_def)
  assume "distinct (map fst es)"
  then have "distinct (map fst fs)" unfolding fs_def by (rule distinct_map_filter)
  then show "distinct (map fst (prune now m es))" by (simp add: p shrink(3))
qed

section \<open>The invariant\<close>

definition logged :: "chat_cache \<Rightarrow> string \<Rightarrow> answer \<Rightarrow> bool" where
  "logged c k vs \<longleftrightarrow> (\<exists>t. (k, vs, t) \<in> set (cc_log c))"

definition key_of :: "chat_cache \<Rightarrow> nat \<Rightarrow> string" where
  "key_of c i = rq_key (cc_requests c ! i)"

text \<open>The request that works on a call.\<close>

fun works_on :: "nat \<Rightarrow> request_phase \<Rightarrow> bool" where
  "works_on n (Computing m vs) = (m = n)"
| "works_on n (Settling m res) = (m = n)"
| "works_on n ph = False"

definition owner :: "chat_cache \<Rightarrow> nat \<Rightarrow> nat \<Rightarrow> bool" where
  "owner c n j \<longleftrightarrow> j < length (cc_requests c) \<and> works_on n (phase_of_request c j)"

text \<open>A call that has, or will have, an outcome for the key.\<close>

definition served :: "chat_cache \<Rightarrow> nat \<Rightarrow> string \<Rightarrow> bool" where
  "served c n k \<longleftrightarrow> n < length (cc_calls c) \<and>
     (let p = cc_calls c ! n
      in if ic_done p then ic_error p \<noteq> None \<or> (\<exists>vs. ic_value p = Some vs \<and> logged c k vs)
         else \<exists>j. owner c n j \<and> key_of c j = k)"

definition request_ok :: "chat_cache \<Rightarrow> nat \<Rightarrow> bool" where
  "request_ok c i \<longleftrightarrow>
     (let r = cc_requests c ! i; k = rq_key r; out = rq_out r
      in case rq_phase r of
           Ready \<Rightarrow> out = []
         | Bypassing \<Rightarrow> out = []
         | Waiting n \<Rightarrow> out = [] \<and> served c n k
         | Computing n vs \<Rightarrow> n < length (cc_calls c) \<and> \<not> ic_done (cc_calls c ! n) \<and> map strip_internal out = vs
         | Settling n res \<Rightarrow> n < length (cc_calls c) \<and> \<not> ic_done (cc_calls c ! n) \<and>
             (case res of Inl e \<Rightarrow> True | Inr vs \<Rightarrow> logged c k vs \<and> map strip_internal out = vs)
         | Replaying vs \<Rightarrow> logged c k (out @ vs) \<and> cc_lock c = Some i
         | Rereading n vs \<Rightarrow> logged c k (out @ vs)
         | Finished failure \<Rightarrow> failure = None \<longrightarrow> logged c k (map strip_internal out))"

definition entries_ok :: "cache_settings \<Rightarrow> chat_cache \<Rightarrow> bool" where
  "entries_ok cfg c \<longleftrightarrow> distinct (map fst (cc_entries c)) \<and> length (cc_entries c) \<le> cs_max_entries cfg \<and>
     (\<forall>(k, e) \<in> set (cc_entries c). \<exists>t. (k, ce_value e, t) \<in> set (cc_log c) \<and> ce_expires e = t + cs_ttl cfg)"

definition cache_ok :: "cache_settings \<Rightarrow> chat_cache \<Rightarrow> bool" where
  "cache_ok cfg c \<longleftrightarrow> entries_ok cfg c \<and>
     (\<forall>(k, vs, t) \<in> set (cc_log c). map strip_internal vs = vs) \<and>
     (\<forall>(k, n) \<in> set (cc_inflight c). \<exists>j vs. j < length (cc_requests c) \<and> phase_of_request c j = Computing n vs \<and> key_of c j = k) \<and>
     (\<forall>i j n. owner c n i \<longrightarrow> owner c n j \<longrightarrow> i = j) \<and>
     (\<forall>i < length (cc_requests c). request_ok c i)"

lemma owner_open:
  assumes "request_ok c j" "owner c n j"
  shows "n < length (cc_calls c) \<and> \<not> ic_done (cc_calls c ! n)"
  using assms by (cases "rq_phase (cc_requests c ! j)") (simp_all add: request_ok_def owner_def phase_of_request_def Let_def)

lemma new_cache_ok: "cache_ok cfg new_cache"
  by (simp add: cache_ok_def entries_ok_def new_cache_def owner_def)

text \<open>
  A step of request \<open>i\<close> that starts no call: the other requests see the log grow and calls
  get their outcome.
\<close>

lemma request_step:
  assumes ok: "cache_ok cfg c" and i: "i < length (cc_requests c)"
    and reqs: "cc_requests d = (cc_requests c)[i := r]" "rq_key r = key_of c i"
    and log: "set (cc_log c) \<subseteq> set (cc_log d)" "\<forall>(k, vs, t) \<in> set (cc_log d). map strip_internal vs = vs"
    and lock: "cc_lock d = cc_lock c \<or> cc_lock c = Some i \<or> cc_lock c = None"
    and calls: "length (cc_calls d) = length (cc_calls c)"
      "\<And>n. n < length (cc_calls c) \<Longrightarrow> \<not> owner c n i \<Longrightarrow> ic_done (cc_calls d ! n) = ic_done (cc_calls c ! n) \<and>
         ic_value (cc_calls d ! n) = ic_value (cc_calls c ! n) \<and> ic_error (cc_calls d ! n) = ic_error (cc_calls c ! n)"
    and works: "\<And>n. works_on n (rq_phase r) \<Longrightarrow> owner c n i"
    and leaves: "\<And>n. owner c n i \<Longrightarrow> if ic_done (cc_calls d ! n)
         then ic_error (cc_calls d ! n) \<noteq> None \<or> (\<exists>vs. ic_value (cc_calls d ! n) = Some vs \<and> logged d (key_of c i) vs)
         else works_on n (rq_phase r)"
    and inflight: "\<And>k n. (k, n) \<in> set (cc_inflight d) \<Longrightarrow> (k, n) \<in> set (cc_inflight c) \<and>
         (k = key_of c i \<longrightarrow> (\<forall>vs. phase_of_request c i = Computing n vs \<longrightarrow> (\<exists>ws. rq_phase r = Computing n ws)))"
    and entries: "entries_ok cfg d"
    and self: "request_ok d i"
  shows "cache_ok cfg d"
proof -
  have other: "cc_requests d ! j = cc_requests c ! j" if "j \<noteq> i" for j using that by (simp add: reqs)
  have mine: "cc_requests d ! i = r" using i by (simp add: reqs)
  have len: "length (cc_requests d) = length (cc_requests c)" by (simp add: reqs)
  have key: "key_of d j = key_of c j" for j using other [of j] mine reqs(2) by (cases "j = i") (simp_all add: key_of_def)
  have owners: "owner d n j \<Longrightarrow> owner c n j" for n j
    using works [of n] other [of j] mine len by (cases "j = i") (simp_all add: owner_def phase_of_request_def)
  have unique: "owner c n j \<Longrightarrow> owner c n j' \<Longrightarrow> j = j'" for n j j' using ok by (auto simp: cache_ok_def)
  have logged: "logged c k vs \<Longrightarrow> logged d k vs" for k vs using log(1) by (auto simp: logged_def)
  have rq: "request_ok c j" if "j < length (cc_requests c)" for j using ok that by (simp add: cache_ok_def)
  have open': "\<not> ic_done (cc_calls d ! n)" if "owner c n j" "j \<noteq> i" "n < length (cc_calls c)" "\<not> ic_done (cc_calls c ! n)" for n j
  proof -
    have "\<not> owner c n i" using unique [OF that(1), of i] that(2) by blast
    from calls(2) [OF that(3) this] that(4) show ?thesis by simp
  qed
  have served: "served d n k" if s: "served c n k" for n k
  proof (cases "owner c n i")
    case True
    have n: "n < length (cc_calls c)" using s by (simp add: served_def)
    have "\<not> ic_done (cc_calls c ! n)"
      using owner_open [OF rq [OF i] True] by simp
    with s obtain j where "owner c n j" "key_of c j = k" by (auto simp: served_def Let_def)
    with unique [OF True] have k: "k = key_of c i" by simp
    show ?thesis
    proof (cases "ic_done (cc_calls d ! n)")
      case True
      with leaves [OF \<open>owner c n i\<close>] n calls(1) k show ?thesis by (auto simp: served_def Let_def)
    next
      case False
      with leaves [OF \<open>owner c n i\<close>] have "owner d n i" using mine len i by (simp add: owner_def phase_of_request_def)
      with False n calls(1) k key show ?thesis by (auto simp: served_def Let_def)
    qed
  next
    case False
    have n: "n < length (cc_calls c)" using s by (simp add: served_def)
    note same = calls(2) [OF n False]
    show ?thesis
    proof (cases "ic_done (cc_calls c ! n)")
      case True
      with s same n calls(1) logged show ?thesis by (auto simp: served_def Let_def)
    next
      case undone: False
      with s obtain j where j: "owner c n j" "key_of c j = k" by (auto simp: served_def Let_def)
      with False have "j \<noteq> i" by auto
      with j have "owner d n j" using other [of j] len by (simp add: owner_def phase_of_request_def)
      with undone same n calls(1) j(2) key show ?thesis by (auto simp: served_def Let_def)
    qed
  qed
  have requests: "request_ok d j" if j: "j < length (cc_requests c)" for j
  proof (cases "j = i")
    case False
    note rq [OF j] other [OF False]
    moreover have "cc_lock d = Some j" if "cc_lock c = Some j" using lock that False by auto
    moreover have "n < length (cc_calls d) \<and> \<not> ic_done (cc_calls d ! n)"
      if "works_on n (rq_phase (cc_requests c ! j))" "n < length (cc_calls c)" "\<not> ic_done (cc_calls c ! n)" for n
      using open' [of n j] that False j calls(1) by (simp add: owner_def phase_of_request_def)
    ultimately show ?thesis using served logged
      by (cases "rq_phase (cc_requests c ! j)") (auto simp: request_ok_def Let_def split: sum.splits)
  qed (use self in simp)
  have flights: "\<exists>j vs. j < length (cc_requests d) \<and> phase_of_request d j = Computing n vs \<and> key_of d j = k"
    if m: "(k, n) \<in> set (cc_inflight d)" for k n
  proof -
    from inflight [OF m] ok obtain j vs where j: "j < length (cc_requests c)" "phase_of_request c j = Computing n vs" "key_of c j = k"
      by (fastforce simp: cache_ok_def)
    show ?thesis
    proof (cases "j = i")
      case True
      with inflight [OF m] j obtain ws where "rq_phase r = Computing n ws" by auto
      with True j key mine len show ?thesis by (auto simp: phase_of_request_def)
    next
      case False
      with j other key len show ?thesis by (auto simp: phase_of_request_def)
    qed
  qed
  have "\<forall>(k, n) \<in> set (cc_inflight d). \<exists>j vs. j < length (cc_requests d) \<and> phase_of_request d j = Computing n vs \<and> key_of d j = k"
    using flights by blast
  moreover have "\<forall>j < length (cc_requests d). request_ok d j" using requests len by simp
  moreover have "\<forall>j j' n. owner d n j \<longrightarrow> owner d n j' \<longrightarrow> j = j'" using owners unique by blast
  ultimately show ?thesis using entries log(2) by (simp add: cache_ok_def)
qed


section \<open>Every step\<close>

lemma cache_ok_request: "cache_ok cfg c \<Longrightarrow> i < length (cc_requests c) \<Longrightarrow> request_ok c i"
  by (simp add: cache_ok_def)

lemma go_emit_simps [simp]:
  "cc_requests (go i ph c) = (cc_requests c)[i := (cc_requests c ! i)\<lparr>rq_phase := ph\<rparr>]"
  "cc_requests (emit i vs c) = (cc_requests c)[i := (cc_requests c ! i)\<lparr>rq_out := rq_out (cc_requests c ! i) @ vs\<rparr>]"
  "cc_log (go i ph c) = cc_log c" "cc_log (emit i vs c) = cc_log c"
  "cc_lock (go i ph c) = cc_lock c" "cc_lock (emit i vs c) = cc_lock c"
  "cc_calls (go i ph c) = cc_calls c" "cc_calls (emit i vs c) = cc_calls c"
  "cc_inflight (go i ph c) = cc_inflight c" "cc_inflight (emit i vs c) = cc_inflight c"
  "cc_entries (go i ph c) = cc_entries c" "cc_entries (emit i vs c) = cc_entries c"
  by (simp_all add: go_def emit_def set_request_def)

lemma set_call_simps [simp]:
  "cc_requests (set_call n f c) = cc_requests c" "cc_log (set_call n f c) = cc_log c" "cc_lock (set_call n f c) = cc_lock c"
  "cc_calls (set_call n f c) = (cc_calls c)[n := f (cc_calls c ! n)]" "cc_inflight (set_call n f c) = cc_inflight c"
  "cc_entries (set_call n f c) = cc_entries c"
  by (simp_all add: set_call_def)

lemma pop_log_simps [simp]:
  "cc_requests (pop_inflight k c) = cc_requests c" "cc_log (pop_inflight k c) = cc_log c" "cc_lock (pop_inflight k c) = cc_lock c"
  "cc_calls (pop_inflight k c) = cc_calls c" "cc_inflight (pop_inflight k c) = filter (\<lambda>(k', n). k' \<noteq> k) (cc_inflight c)"
  "cc_entries (pop_inflight k c) = cc_entries c"
  "cc_requests (log_answer k vs now c) = cc_requests c" "cc_log (log_answer k vs now c) = cc_log c @ [(k, vs, now)]"
  "cc_lock (log_answer k vs now c) = cc_lock c" "cc_calls (log_answer k vs now c) = cc_calls c"
  "cc_inflight (log_answer k vs now c) = cc_inflight c" "cc_entries (log_answer k vs now c) = cc_entries c"
  by (simp_all add: pop_inflight_def log_answer_def)

lemma entries_ok_cong:
  "entries_ok cfg c \<Longrightarrow> cc_entries d = cc_entries c \<Longrightarrow> set (cc_log c) \<subseteq> set (cc_log d) \<Longrightarrow> entries_ok cfg d"
  unfolding entries_ok_def by fastforce

lemma entries_ok_log: "entries_ok cfg c \<Longrightarrow> (k, e) \<in> set (cc_entries c) \<Longrightarrow> logged c k (ce_value e)"
  unfolding entries_ok_def logged_def by blast

text \<open>A request that works on no call and starts no call.\<close>

lemma quiet_step:
  assumes ok: "cache_ok cfg c" and i: "i < length (cc_requests c)"
    and idle: "\<And>n. \<not> works_on n (phase_of_request c i)" "\<And>n. \<not> works_on n (rq_phase r)"
    and reqs: "cc_requests d = (cc_requests c)[i := r]" "rq_key r = key_of c i"
    and log: "set (cc_log c) \<subseteq> set (cc_log d)" "\<forall>(k, vs, t) \<in> set (cc_log d). map strip_internal vs = vs"
    and lock: "cc_lock d = cc_lock c \<or> cc_lock c = Some i \<or> cc_lock c = None"
    and calls: "length (cc_calls d) = length (cc_calls c)"
      "\<And>n. n < length (cc_calls c) \<Longrightarrow> ic_done (cc_calls d ! n) = ic_done (cc_calls c ! n) \<and>
         ic_value (cc_calls d ! n) = ic_value (cc_calls c ! n) \<and> ic_error (cc_calls d ! n) = ic_error (cc_calls c ! n)"
    and inflight: "cc_inflight d = cc_inflight c" and entries: "cc_entries d = cc_entries c"
    and self: "request_ok d i"
  shows "cache_ok cfg d"
proof (rule request_step [OF ok i reqs log lock calls(1) _ _ _ _ _ self])
  show "entries_ok cfg d" by (rule entries_ok_cong [OF _ entries log(1)]) (use ok in \<open>simp add: cache_ok_def\<close>)
  show "(k, n) \<in> set (cc_inflight c) \<and> (k = key_of c i \<longrightarrow>
      (\<forall>vs. phase_of_request c i = Computing n vs \<longrightarrow> (\<exists>ws. rq_phase r = Computing n ws)))"
    if "(k, n) \<in> set (cc_inflight d)" for k n
    using that inflight idle(1) [of n] by (auto simp: phase_of_request_def)
qed (use idle calls in \<open>auto simp: owner_def\<close>)

lemma log_stripped: "cache_ok cfg c \<Longrightarrow> logged c k vs \<Longrightarrow> map strip_internal vs = vs"
  unfolding cache_ok_def logged_def by fastforce

lemma stripped_log: "cache_ok cfg c \<Longrightarrow> \<forall>(k, vs, t) \<in> set (cc_log c). map strip_internal vs = vs"
  by (simp add: cache_ok_def)

lemma arrived_ok:
  assumes "cache_ok cfg c"
  shows "cache_ok cfg (c\<lparr>cc_requests := cc_requests c @ [\<lparr>rq_key = k, rq_stream = st, rq_out = [], rq_phase = Ready\<rparr>]\<rparr>)"
    (is "cache_ok cfg ?d")
proof -
  have old: "cc_requests ?d ! i = cc_requests c ! i" if "i < length (cc_requests c)" for i using that by (simp add: nth_append)
  have new: "cc_requests ?d ! length (cc_requests c) = \<lparr>rq_key = k, rq_stream = st, rq_out = [], rq_phase = Ready\<rparr>"
    by (simp add: nth_append)
  have owner: "owner ?d n j \<longleftrightarrow> owner c n j" for n j
  proof (cases "j < length (cc_requests c)")
    case True
    then show ?thesis using old [OF True] by (simp add: owner_def phase_of_request_def)
  next
    case False
    then show ?thesis using new by (auto simp: owner_def phase_of_request_def less_Suc_eq)
  qed
  have key: "owner c n j \<Longrightarrow> key_of ?d j = key_of c j" for n j using old by (simp add: owner_def key_of_def)
  have logged: "logged ?d = logged c" by (simp add: logged_def fun_eq_iff)
  have served: "served c n k' \<Longrightarrow> served ?d n k'" for n k'
    unfolding served_def Let_def owner logged using key by (auto split: if_splits)
  have "request_ok ?d i" if i: "i < length (cc_requests ?d)" for i
  proof (cases "i < length (cc_requests c)")
    case True
    with cache_ok_request [OF assms True] old [OF True] served logged show ?thesis
      by (cases "rq_phase (cc_requests c ! i)") (simp_all add: request_ok_def Let_def split: sum.splits)
  next
    case False
    with i have "i = length (cc_requests c)" by simp
    with new show ?thesis by (simp add: request_ok_def Let_def)
  qed
  moreover have "\<exists>j vs. j < length (cc_requests ?d) \<and> phase_of_request ?d j = Computing n vs \<and> key_of ?d j = k'"
    if "(k', n) \<in> set (cc_inflight c)" for k' n
  proof -
    from that assms obtain j vs where "j < length (cc_requests c)" "phase_of_request c j = Computing n vs" "key_of c j = k'"
      by (fastforce simp: cache_ok_def)
    with old show ?thesis by (intro exI [of _ j] exI [of _ vs]) (simp add: phase_of_request_def key_of_def)
  qed
  moreover have "entries_ok cfg ?d" using assms by (simp add: cache_ok_def entries_ok_def)
  ultimately show ?thesis using assms owner by (auto simp: cache_ok_def)
qed

text \<open>Fewer entries and fewer calls to join.\<close>

lemma fewer_ok:
  assumes "cache_ok cfg c" "set es \<subseteq> set (cc_entries c)" "distinct (map fst es)" "length es \<le> cs_max_entries cfg"
    and "set fl \<subseteq> set (cc_inflight c)"
  shows "cache_ok cfg (c\<lparr>cc_entries := es, cc_inflight := fl\<rparr>)" (is "cache_ok cfg ?d")
proof -
  have same: "owner ?d = owner c" "served ?d = served c" "logged ?d = logged c" "phase_of_request ?d = phase_of_request c"
    "key_of ?d = key_of c"
    by (simp_all add: fun_eq_iff owner_def served_def logged_def phase_of_request_def key_of_def Let_def)
  then have "request_ok ?d = request_ok c"
    by (simp add: fun_eq_iff request_ok_def Let_def split: request_phase.split sum.split)
  moreover have "entries_ok cfg ?d" unfolding entries_ok_def
  proof (intro conjI ballI)
    fix p assume p: "p \<in> set (cc_entries ?d)"
    obtain k e where ke: "p = (k, e)" by (cases p)
    with p assms(1,2) show "case p of (k, e) \<Rightarrow> \<exists>t. (k, ce_value e, t) \<in> set (cc_log ?d) \<and> ce_expires e = t + cs_ttl cfg"
      unfolding cache_ok_def entries_ok_def by auto
  qed (use assms(3,4) in simp_all)
  moreover have "\<forall>(k, n) \<in> set fl. \<exists>j vs. j < length (cc_requests c) \<and> phase_of_request c j = Computing n vs \<and> key_of c j = k"
    using assms(1,5) unfolding cache_ok_def by blast
  ultimately show ?thesis using assms(1) same unfolding cache_ok_def by simp
qed

lemma clear_ok: "cache_ok cfg c \<Longrightarrow> cache_ok cfg (clear c)"
  using fewer_ok [of cfg c "[]" "[]"] by (simp add: clear_def)

lemma pruned_ok: "cache_ok cfg c \<Longrightarrow> cache_ok cfg (c\<lparr>cc_entries := prune now (cs_max_entries cfg) (cc_entries c)\<rparr>)"
proof -
  assume ok: "cache_ok cfg c"
  then have "distinct (map fst (cc_entries c))" by (simp add: cache_ok_def entries_ok_def)
  note p = prune_ok(1) [of now "cs_max_entries cfg" "cc_entries c"] prune_ok(2) [of now "cs_max_entries cfg" "cc_entries c"]
    prune_ok(3) [of "cc_entries c" now "cs_max_entries cfg"]
  have "cache_ok cfg (c\<lparr>cc_entries := prune now (cs_max_entries cfg) (cc_entries c), cc_inflight := cc_inflight c\<rparr>)"
    using p \<open>distinct _\<close> by (intro fewer_ok [OF ok]) auto
  then show ?thesis by simp
qed


lemma begun_call_ok:
  assumes ok: "cache_ok cfg c" and i: "i < length (cc_requests c)" "phase_of_request c i = Ready"
    and d: "d = go i (Computing (length (cc_calls c)) [])
      (c\<lparr>cc_calls := cc_calls c @ [new_call], cc_inflight := (if join then dict_set (key_of c i) (length (cc_calls c)) (cc_inflight c) else cc_inflight c)\<rparr>)"
  shows "cache_ok cfg d"
proof -
  let ?n = "length (cc_calls c)" and ?r = "(cc_requests c ! i)\<lparr>rq_phase := Computing (length (cc_calls c)) []\<rparr>"
  have reqs: "cc_requests d = (cc_requests c)[i := ?r]" "cc_calls d = cc_calls c @ [new_call]" "cc_log d = cc_log c"
    "cc_lock d = cc_lock c" "cc_entries d = cc_entries c" by (simp_all add: d)
  have other: "cc_requests d ! j = cc_requests c ! j" if "j \<noteq> i" for j using that by (simp add: reqs)
  have mine: "cc_requests d ! i = ?r" using i by (simp add: reqs)
  have key: "key_of d j = key_of c j" for j using other [of j] mine by (cases "j = i") (simp_all add: key_of_def)
  have old: "owner c n j \<Longrightarrow> j \<noteq> i \<and> n < ?n" for n j
    using i(2) owner_open [OF cache_ok_request [OF ok]] by (auto simp: owner_def)
  have owner: "owner d n j \<longleftrightarrow> owner c n j \<or> j = i \<and> n = ?n" for n j
    using other [of j] mine i by (cases "j = i") (auto simp: owner_def phase_of_request_def reqs(1))
  have logged: "logged d = logged c" by (simp add: logged_def reqs fun_eq_iff)
  have served: "served d n k" if s: "served c n k" for n k
  proof -
    have n: "n < ?n" using s by (simp add: served_def)
    then have "cc_calls d ! n = cc_calls c ! n" by (simp add: reqs nth_append)
    with s n show ?thesis unfolding served_def Let_def owner logged key reqs(2) by auto
  qed
  have "request_ok d j" if j: "j < length (cc_requests c)" for j
  proof (cases "j = i")
    case True
    have "rq_out (cc_requests c ! i) = []" using cache_ok_request [OF ok i(1)] i(2) by (simp add: request_ok_def phase_of_request_def Let_def)
    with True mine show ?thesis by (simp add: request_ok_def Let_def reqs(2) nth_append new_call_def)
  next
    case False
    have calls: "n < length (cc_calls d) \<and> cc_calls d ! n = cc_calls c ! n" if "n < ?n" for n using that by (simp add: reqs nth_append)
    from cache_ok_request [OF ok j] other [OF False] served logged calls show ?thesis
      by (cases "rq_phase (cc_requests c ! j)") (simp_all add: request_ok_def Let_def reqs(4) split: sum.splits)
  qed
  moreover have "\<exists>j vs. j < length (cc_requests d) \<and> phase_of_request d j = Computing n vs \<and> key_of d j = k"
    if m: "(k, n) \<in> set (cc_inflight d)" for k n
  proof (cases "(k, n) \<in> set (cc_inflight c)")
    case True
    with ok obtain j vs where j: "j < length (cc_requests c)" "phase_of_request c j = Computing n vs" "key_of c j = k"
      by (fastforce simp: cache_ok_def)
    with i(2) have "j \<noteq> i" by auto
    with j other key reqs(1) show ?thesis by (auto simp: phase_of_request_def)
  next
    case False
    with m have "k = key_of c i \<and> n = ?n" by (auto simp: d dict_set_def split: if_splits)
    with mine i key reqs(1) show ?thesis by (auto simp: phase_of_request_def)
  qed
  moreover have "owner d n j \<Longrightarrow> owner d n j' \<Longrightarrow> j = j'" for n j j'
    using old owner ok unfolding cache_ok_def by (metis less_irrefl)
  moreover have "entries_ok cfg d" using ok entries_ok_cong [of cfg c d] reqs by (simp add: cache_ok_def)
  ultimately show ?thesis using ok reqs by (simp add: cache_ok_def) blast
qed

lemma begin_ok:
  assumes ok: "cache_ok cfg c" and i: "i < length (cc_requests c)" "phase_of_request c i = Ready" "cc_lock c = None"
  shows "cache_ok cfg (begin_request cfg now i c)"
proof -
  define p where "p = c\<lparr>cc_entries := prune now (cs_max_entries cfg) (cc_entries c)\<rparr>"
  have p: "cache_ok cfg p" unfolding p_def by (rule pruned_ok [OF ok])
  have pi: "i < length (cc_requests p)" "phase_of_request p i = Ready" "cc_requests p = cc_requests c" "cc_lock p = None"
    "key_of p i = key_of c i" using i by (simp_all add: p_def phase_of_request_def key_of_def)
  have out: "rq_out (cc_requests c ! i) = []"
    using cache_ok_request [OF ok i(1)] i(2) by (simp add: request_ok_def phase_of_request_def Let_def)
  note quiet = quiet_step [where i = i, OF p pi(1), unfolded pi(2,3)]
  let ?k = "key_of c i"
  define hit where "hit = (case map_of (cc_entries p) ?k of Some e \<Rightarrow> if now < ce_expires e then Some (ce_value e) else None | None \<Rightarrow> None)"
  have bypass: "cache_ok cfg (go i Bypassing c)"
    by (rule quiet_step [OF ok i(1), where r = "(cc_requests c ! i)\<lparr>rq_phase := Bypassing\<rparr>"])
      (use i out stripped_log [OF ok] in \<open>simp_all add: key_of_def request_ok_def Let_def\<close>)
  have hits: "cache_ok cfg (go i (Replaying vs) (p\<lparr>cc_lock := Some i\<rparr>))" "cache_ok cfg (go i (Finished None) (emit i vs p))"
    if h: "hit = Some vs" for vs
  proof -
    obtain e where "map_of (cc_entries p) ?k = Some e" "ce_value e = vs" using h by (auto simp: hit_def split: option.splits if_splits)
    then have "logged p ?k vs" using entries_ok_log [of cfg p ?k e] p by (auto simp: cache_ok_def dest: map_of_SomeD)
    then have logged: "logged c ?k vs" "map strip_internal vs = vs"
      using log_stripped [OF p] by (auto simp: logged_def p_def)
    have "logged (go i (Replaying vs) (p\<lparr>cc_lock := Some i\<rparr>)) ?k vs" using logged(1) by (simp add: logged_def p_def)
    then show "cache_ok cfg (go i (Replaying vs) (p\<lparr>cc_lock := Some i\<rparr>))"
      by (intro quiet [where r = "(cc_requests c ! i)\<lparr>rq_phase := Replaying vs\<rparr>"])
        (use i pi out stripped_log [OF p] in \<open>simp_all add: key_of_def request_ok_def Let_def\<close>)
    have "logged (go i (Finished None) (emit i vs p)) ?k vs" using logged(1) by (simp add: logged_def p_def)
    then show "cache_ok cfg (go i (Finished None) (emit i vs p))"
      by (intro quiet [where r = "(cc_requests c ! i)\<lparr>rq_out := vs, rq_phase := Finished None\<rparr>"])
        (use i pi out stripped_log [OF p] logged(2) in \<open>simp_all add: key_of_def request_ok_def Let_def\<close>)
  qed
  have join: "cache_ok cfg (go i (Waiting n) p)" if n: "map_of (cc_inflight p) ?k = Some n" for n
  proof -
    from map_of_SomeD [OF n] p obtain j vs where j: "j < length (cc_requests p)" "phase_of_request p j = Computing n vs" "key_of p j = ?k"
      by (fastforce simp: cache_ok_def)
    with pi have "j \<noteq> i" by auto
    with j have own: "owner (go i (Waiting n) p) n j \<and> key_of (go i (Waiting n) p) j = ?k"
      by (simp add: owner_def phase_of_request_def key_of_def)
    have "n < length (cc_calls p) \<and> \<not> ic_done (cc_calls p ! n)"
      by (rule owner_open [OF cache_ok_request [OF p j(1)]]) (use j in \<open>simp add: owner_def\<close>)
    with own have "served (go i (Waiting n) p) n ?k" by (auto simp: served_def)
    then show ?thesis
      by (intro quiet [where r = "(cc_requests c ! i)\<lparr>rq_phase := Waiting n\<rparr>"])
        (use i pi out stripped_log [OF p] in \<open>simp_all add: key_of_def request_ok_def Let_def\<close>)
  qed
  note new = begun_call_ok [OF p pi(1,2) refl, unfolded pi(5)]
  have key: "rq_key (cc_requests c ! i) = ?k" by (simp add: key_of_def)
  show ?thesis
  proof (cases "\<not> cs_enabled cfg \<or> rq_stream (cc_requests c ! i) \<and> \<not> cs_stream_cache cfg \<or> cs_ttl cfg \<le> 0")
    case True
    with bypass show ?thesis by (simp add: begin_request_def Let_def)
  next
    case False
    show ?thesis
    proof (cases hit)
      case None
      show ?thesis
      proof (cases "if cs_dedupe cfg then map_of (cc_inflight p) ?k else None")
        case none: None
        with False None new [of "cs_dedupe cfg"] show ?thesis
          unfolding begin_request_def Let_def key p_def [symmetric] hit_def [symmetric] by auto
      next
        case (Some n)
        with False None join [of n] show ?thesis
          unfolding begin_request_def Let_def key p_def [symmetric] hit_def [symmetric] by (auto split: if_splits)
      qed
    next
      case (Some vs)
      with False hits [OF Some] show ?thesis
        unfolding begin_request_def Let_def key p_def [symmetric] hit_def [symmetric] by auto
    qed
  qed
qed


lemma logged_append: "logged (log_answer k vs now c) k vs"
  by (auto simp: logged_def)

lemma bypass_ok:
  assumes ok: "cache_ok cfg c" and i: "i < length (cc_requests c)" "phase_of_request c i = Bypassing"
  shows "cache_ok cfg (bypass now i vs failure c)"
proof -
  have out: "rq_out (cc_requests c ! i) = []"
    using cache_ok_request [OF ok i(1)] i(2) by (simp add: request_ok_def phase_of_request_def Let_def)
  let ?r = "(cc_requests c ! i)\<lparr>rq_out := vs, rq_phase := Finished failure\<rparr>"
  have logged: "logged (bypass now i vs failure c) (key_of c i) (map strip_internal vs)" if "failure = None"
    using that i(1) out by (auto simp: bypass_def Let_def logged_def key_of_def)
  show ?thesis
    by (rule quiet_step [OF ok i(1), where r = ?r])
      (use i out stripped_log [OF ok] logged in \<open>auto simp: bypass_def Let_def key_of_def request_ok_def\<close>)
qed

text \<open>The owner of a call.\<close>

lemma owner_facts:
  assumes ok: "cache_ok cfg c" and i: "i < length (cc_requests c)" "phase_of_request c i = Computing n vs"
  shows "owner c m i \<longleftrightarrow> m = n" "map strip_internal (rq_out (cc_requests c ! i)) = vs"
    "n < length (cc_calls c)" "\<not> ic_done (cc_calls c ! n)"
  using cache_ok_request [OF ok i(1)] i by (auto simp: owner_def request_ok_def phase_of_request_def Let_def)

lemma produce_ok:
  assumes ok: "cache_ok cfg c" and i: "i < length (cc_requests c)" "phase_of_request c i = Computing n vs"
  shows "cache_ok cfg (produce_chunk i v c)"
proof -
  note f = owner_facts [OF ok i]
  let ?r = "(cc_requests c ! i)\<lparr>rq_out := rq_out (cc_requests c ! i) @ [v], rq_phase := Computing n (vs @ [strip_internal v])\<rparr>"
  have d: "produce_chunk i v c = go i (Computing n (vs @ [strip_internal v])) (emit i [v] c)"
    using i(2) by (simp add: produce_chunk_def phase_of_request_def)
  have "entries_ok cfg (go i (Computing n (vs @ [strip_internal v])) (emit i [v] c))"
    by (rule entries_ok_cong [of cfg c]) (use ok in \<open>simp_all add: cache_ok_def\<close>)
  then show ?thesis unfolding d
    by (intro request_step [OF ok i(1), where r = ?r])
      (use i f stripped_log [OF ok] in \<open>auto simp: key_of_def request_ok_def Let_def phase_of_request_def\<close>)
qed

lemma answer_stored_ok:
  assumes ok: "cache_ok cfg c" and i: "i < length (cc_requests c)" "phase_of_request c i = Computing n vs"
  shows "cache_ok cfg (store_answer cfg now i c)"
proof -
  note f = owner_facts [OF ok i]
  let ?k = "key_of c i" and ?r = "(cc_requests c ! i)\<lparr>rq_phase := Settling n (Inr vs)\<rparr>"
  define es where "es = dict_set ?k \<lparr>ce_expires = now + cs_ttl cfg, ce_value = vs\<rparr> (cc_entries c)"
  define d where "d = store_answer cfg now i c"
  have d: "d = go i (Settling n (Inr vs)) (log_answer ?k vs now (pop_inflight ?k (c\<lparr>cc_entries := prune now (cs_max_entries cfg) es\<rparr>)))"
    using i(2) by (simp add: d_def store_answer_def phase_of_request_def key_of_def Let_def es_def)
  have fields: "cc_requests d = (cc_requests c)[i := ?r]" "cc_log d = cc_log c @ [(?k, vs, now)]" "cc_calls d = cc_calls c"
    "cc_lock d = cc_lock c" "cc_inflight d = filter (\<lambda>(k', m). k' \<noteq> ?k) (cc_inflight c)"
    "cc_entries d = prune now (cs_max_entries cfg) es" by (simp_all add: d)
  have old: "distinct (map fst (cc_entries c))"
    "(k, e) \<in> set (cc_entries c) \<Longrightarrow> \<exists>t. (k, ce_value e, t) \<in> set (cc_log c) \<and> ce_expires e = t + cs_ttl cfg" for k e
    using ok unfolding cache_ok_def entries_ok_def by auto
  have "distinct (map fst es)" using old(1) by (simp add: es_def distinct_dict_set)
  moreover have "\<exists>t. (k, ce_value e, t) \<in> set (cc_log d) \<and> ce_expires e = t + cs_ttl cfg" if "(k, e) \<in> set es" for k e
  proof (cases "(k, e) \<in> set (cc_entries c)")
    case True
    with old(2) [of k e] show ?thesis by (auto simp: fields)
  next
    case False
    with that have "k = ?k \<and> e = \<lparr>ce_expires = now + cs_ttl cfg, ce_value = vs\<rparr>"
      by (auto simp: es_def dict_set_def split: if_splits)
    then show ?thesis by (auto simp: fields)
  qed
  ultimately have entries: "entries_ok cfg d"
    using prune_ok [where now = now and m = "cs_max_entries cfg" and es = es] by (auto simp: entries_ok_def fields)
  have "map strip_internal vs = vs" using f(2) strip_all_idem by metis
  then have stripped: "\<forall>(k, vs, t) \<in> set (cc_log d). map strip_internal vs = vs" using stripped_log [OF ok] by (auto simp: fields)
  have "logged d ?k vs" by (auto simp: logged_def fields)
  then have self: "request_ok d i" using i(1) f by (simp add: request_ok_def Let_def fields) (simp add: key_of_def)
  show ?thesis unfolding d_def [symmetric]
    by (rule request_step [OF ok i(1) fields(1) _ _ stripped _ _ _ _ _ _ entries self])
      (use i f in \<open>auto simp: fields key_of_def\<close>)
qed

lemma abort_ok:
  assumes ok: "cache_ok cfg c" and i: "i < length (cc_requests c)" "phase_of_request c i = Computing n vs"
  shows "cache_ok cfg (abort_call failure i c)"
proof -
  note f = owner_facts [OF ok i]
  let ?r = "(cc_requests c ! i)\<lparr>rq_phase := Settling n (Inl failure)\<rparr>"
  have d: "abort_call failure i c = go i (Settling n (Inl failure)) (pop_inflight (key_of c i) c)"
    using i(2) by (simp add: abort_call_def phase_of_request_def key_of_def Let_def)
  have "entries_ok cfg (go i (Settling n (Inl failure)) (pop_inflight (key_of c i) c))"
    by (rule entries_ok_cong [of cfg c]) (use ok in \<open>simp_all add: cache_ok_def\<close>)
  then show ?thesis unfolding d
    by (intro request_step [OF ok i(1), where r = ?r])
      (use i f stripped_log [OF ok] in \<open>auto simp: key_of_def request_ok_def Let_def phase_of_request_def\<close>)
qed

lemma call_settled_ok:
  assumes ok: "cache_ok cfg c" and i: "i < length (cc_requests c)" "phase_of_request c i = Settling n res"
  shows "cache_ok cfg (settle_call i c)"
proof -
  have rq: "n < length (cc_calls c)" "\<not> ic_done (cc_calls c ! n)"
    "case res of Inl e \<Rightarrow> True | Inr vs \<Rightarrow> logged c (key_of c i) vs \<and> map strip_internal (rq_out (cc_requests c ! i)) = vs"
    using cache_ok_request [OF ok i(1)] i(2) by (simp_all add: request_ok_def phase_of_request_def key_of_def Let_def split: sum.splits)
  have own: "owner c m i \<longleftrightarrow> m = n" for m using i by (auto simp: owner_def)
  define p where "p = (case res of Inl e \<Rightarrow> (cc_calls c ! n)\<lparr>ic_error := Some e, ic_done := True\<rparr>
    | Inr vs \<Rightarrow> (cc_calls c ! n)\<lparr>ic_value := Some vs, ic_done := True\<rparr>)"
  define ph where "ph = Finished (case res of Inl e \<Rightarrow> Some e | Inr vs \<Rightarrow> None)"
  define d where "d = settle_call i c"
  have fields: "cc_requests d = (cc_requests c)[i := (cc_requests c ! i)\<lparr>rq_phase := ph\<rparr>]" "cc_log d = cc_log c"
    "cc_calls d = (cc_calls c)[n := p]" "cc_lock d = cc_lock c" "cc_inflight d = cc_inflight c" "cc_entries d = cc_entries c"
    using i(2) by (simp_all add: d_def settle_call_def phase_of_request_def p_def ph_def split: sum.split)
  have entries: "entries_ok cfg d" by (rule entries_ok_cong [of cfg c]) (use ok in \<open>simp_all add: cache_ok_def fields\<close>)
  have logged: "logged d = logged c" by (simp add: logged_def fields fun_eq_iff)
  have self: "request_ok d i"
    using rq(3) i(1) by (cases res) (simp_all add: request_ok_def Let_def fields logged ph_def key_of_def)
  have leaves: "ic_done p \<and> (ic_error p \<noteq> None \<or> (\<exists>vs. ic_value p = Some vs \<and> logged d (key_of c i) vs))"
    using rq(3) by (cases res) (simp_all add: p_def logged)
  show ?thesis unfolding d_def [symmetric]
    by (rule request_step [OF ok i(1) fields(1) _ _ _ _ _ _ _ _ _ entries self])
      (use i rq own leaves stripped_log [OF ok] in \<open>auto simp: fields key_of_def ph_def\<close>)
qed

lemma wake_ok:
  assumes ok: "cache_ok cfg c" and i: "i < length (cc_requests c)" "phase_of_request c i = Waiting n" "ic_done (cc_calls c ! n)"
  shows "cache_ok cfg (wake i c)"
proof -
  have rq: "rq_out (cc_requests c ! i) = []" "served c n (key_of c i)"
    using cache_ok_request [OF ok i(1)] i(2) by (simp_all add: request_ok_def phase_of_request_def key_of_def Let_def)
  then have n: "n < length (cc_calls c)" by (simp add: served_def)
  have phase: "rq_phase (cc_requests c ! i) = Waiting n" using i(2) by (simp add: phase_of_request_def)
  show ?thesis
  proof (cases "ic_error (cc_calls c ! n)")
    case (Some e)
    then have d: "wake i c = go i (Finished (Some e)) c" by (simp add: wake_def phase)
    show ?thesis unfolding d
      by (rule quiet_step [OF ok i(1), where r = "(cc_requests c ! i)\<lparr>rq_phase := Finished (Some e)\<rparr>"])
        (use i stripped_log [OF ok] in \<open>simp_all add: key_of_def request_ok_def Let_def\<close>)
  next
    case None
    with rq(2) i(3) obtain vs where vs: "ic_value (cc_calls c ! n) = Some vs" "logged c (key_of c i) vs"
      by (auto simp: served_def Let_def)
    note stripped = log_stripped [OF ok vs(2)]
    show ?thesis
    proof (cases "rq_stream (cc_requests c ! i)")
      case True
      with None vs(1) have d: "wake i c = go i (Rereading n vs) (set_call n (\<lambda>p. p\<lparr>ic_holder := Some i\<rparr>) c)"
        by (simp add: wake_def phase Let_def)
      have "logged (wake i c) = logged c" by (simp add: d logged_def fun_eq_iff)
      then show ?thesis using n unfolding d
        by (intro quiet_step [OF ok i(1), where r = "(cc_requests c ! i)\<lparr>rq_phase := Rereading n vs\<rparr>"])
          (use i rq vs stripped_log [OF ok] in \<open>auto simp: key_of_def request_ok_def Let_def nth_list_update\<close>)
    next
      case False
      with None vs(1) have d: "wake i c = go i (Finished None) (emit i vs c)" by (simp add: wake_def phase Let_def)
      have "logged (wake i c) = logged c" by (simp add: d logged_def fun_eq_iff)
      then show ?thesis unfolding d
        by (intro quiet_step [OF ok i(1), where r = "(cc_requests c ! i)\<lparr>rq_out := vs, rq_phase := Finished None\<rparr>"])
          (use i rq vs stripped stripped_log [OF ok] in \<open>simp_all add: key_of_def request_ok_def Let_def\<close>)
    qed
  qed
qed


lemma read_chunk_ok:
  assumes ok: "cache_ok cfg c" and i: "i < length (cc_requests c)"
  shows "cache_ok cfg (read_chunk i c)"
proof -
  have rq: "request_ok c i" by (rule cache_ok_request [OF ok i])
  let ?r = "cc_requests c ! i"
  consider (replay) v vs where "rq_phase ?r = Replaying (v # vs)" | (reread) n v vs where "rq_phase ?r = Rereading n (v # vs)"
    | (same) "\<not> (\<exists>v vs. rq_phase ?r = Replaying (v # vs))" "\<not> (\<exists>n v vs. rq_phase ?r = Rereading n (v # vs))"
    by blast
  then show ?thesis
  proof cases
    case replay
    then have d: "read_chunk i c = go i (Replaying vs) (emit i [v] c)" by (simp add: read_chunk_def)
    have "logged (read_chunk i c) = logged c" by (simp add: d logged_def fun_eq_iff)
    with replay rq show ?thesis unfolding d
      by (intro quiet_step [OF ok i, where r = "?r\<lparr>rq_out := rq_out ?r @ [v], rq_phase := Replaying vs\<rparr>"])
        (use i stripped_log [OF ok] in \<open>simp_all add: key_of_def phase_of_request_def request_ok_def Let_def\<close>)
  next
    case reread
    then have d: "read_chunk i c = go i (Rereading n vs) (emit i [v] c)" by (simp add: read_chunk_def)
    have "logged (read_chunk i c) = logged c" by (simp add: d logged_def fun_eq_iff)
    with reread rq show ?thesis unfolding d
      by (intro quiet_step [OF ok i, where r = "?r\<lparr>rq_out := rq_out ?r @ [v], rq_phase := Rereading n vs\<rparr>"])
        (use i stripped_log [OF ok] in \<open>simp_all add: key_of_def phase_of_request_def request_ok_def Let_def\<close>)
  next
    case same
    then have "read_chunk i c = c" by (auto simp: read_chunk_def split: request_phase.split list.split)
    with ok show ?thesis by simp
  qed
qed

lemma end_reading_ok:
  assumes ok: "cache_ok cfg c" and i: "i < length (cc_requests c)"
  shows "cache_ok cfg (end_reading i c)"
proof -
  have rq: "request_ok c i" by (rule cache_ok_request [OF ok i])
  let ?r = "cc_requests c ! i"
  define ph where "ph vs = Finished (if vs = ([] :: answer) then None else Some GeneratorExit)" for vs
  consider (replay) vs where "rq_phase ?r = Replaying vs" | (reread) n vs where "rq_phase ?r = Rereading n vs"
    | (same) "end_reading i c = c"
    by (cases "rq_phase ?r") (auto simp: end_reading_def)
  then show ?thesis
  proof cases
    case (replay vs)
    have facts: "logged c (key_of c i) (rq_out ?r @ vs)" "cc_lock c = Some i"
      using rq replay by (simp_all add: request_ok_def Let_def key_of_def)
    have d: "end_reading i c = go i (ph vs) (c\<lparr>cc_lock := None\<rparr>)" using replay by (simp add: end_reading_def ph_def)
    have "logged (go i e (c\<lparr>cc_lock := None\<rparr>)) = logged c" for e by (simp add: logged_def fun_eq_iff)
    with replay facts log_stripped [OF ok facts(1)] show ?thesis unfolding d
      by (intro quiet_step [OF ok i, where r = "?r\<lparr>rq_phase := ph vs\<rparr>"])
        (use i stripped_log [OF ok] in \<open>auto simp: key_of_def phase_of_request_def request_ok_def Let_def ph_def\<close>)
  next
    case (reread n vs)
    have facts: "logged c (key_of c i) (rq_out ?r @ vs)"
      using rq reread by (simp_all add: request_ok_def Let_def key_of_def)
    have d: "end_reading i c = go i (ph vs) (set_call n (\<lambda>p. p\<lparr>ic_holder := None\<rparr>) c)"
      using reread by (simp add: end_reading_def ph_def)
    have log: "logged (go i e (set_call n (\<lambda>p. p\<lparr>ic_holder := None\<rparr>) c)) = logged c" for e by (simp add: logged_def fun_eq_iff)
    have nth: "(cc_calls c)[n := p] ! m = (if m = n then p else cc_calls c ! m)" if "m < length (cc_calls c)" for m p
      using that by (cases "m = n") simp_all
    show ?thesis using reread facts log_stripped [OF ok facts] unfolding d
      by (intro quiet_step [OF ok i, where r = "?r\<lparr>rq_phase := ph vs\<rparr>"])
        (use i stripped_log [OF ok] in \<open>auto simp: key_of_def phase_of_request_def request_ok_def Let_def ph_def nth log\<close>)
  next
    case same
    with ok show ?thesis by simp
  qed
qed

lemma cache_step_ok: "cache_ok cfg c \<Longrightarrow> cache_step cfg c d \<Longrightarrow> cache_ok cfg d"
  by (erule cache_step.cases)
    (auto intro: arrived_ok begin_ok bypass_ok produce_ok answer_stored_ok abort_ok call_settled_ok wake_ok read_chunk_ok end_reading_ok clear_ok)

interpretation chat: safety_system "\<lambda>c. c = new_cache" "cache_step cfg" "cache_ok cfg" for cfg
  by unfold_locales (auto simp: new_cache_ok intro: cache_step_ok)

lemmas cache_reached = chat.reachable_invariant [OF refl]

section \<open>What the callers can rely on\<close>

text \<open>
  Property C36. Every answer the cache gives is an answer that was computed for the same key:
  a request that ends without an exception has received, internal fields aside, a list of
  values that some request with its key computed to the end, whether it computed itself, read
  the cache, or waited for another one, in every interleaving with clearing and expiry.
\<close>

theorem cache_answers_were_computed:
  assumes "(cache_step cfg)\<^sup>*\<^sup>* new_cache c" "i < length (cc_requests c)" "rq_phase (cc_requests c ! i) = Finished None"
  shows "\<exists>t. (rq_key (cc_requests c ! i), map strip_internal (rq_out (cc_requests c ! i)), t) \<in> set (cc_log c)"
  using cache_ok_request [OF cache_reached [OF assms(1)] assms(2)] assms(3)
  by (simp add: request_ok_def Let_def logged_def)


text \<open>
  Property C38. Nobody waits for nothing: in every reachable state, a request that waits for a
  call that is not done has exactly one request with the same key that is computing for this
  call or about to settle it, also after the cache was cleared or the entries expired.
\<close>

theorem waiters_have_an_owner:
  assumes "(cache_step cfg)\<^sup>*\<^sup>* new_cache c" "i < length (cc_requests c)" "rq_phase (cc_requests c ! i) = Waiting n"
    and "\<not> ic_done (cc_calls c ! n)"
  shows "\<exists>j < length (cc_requests c). works_on n (rq_phase (cc_requests c ! j)) \<and>
    rq_key (cc_requests c ! j) = rq_key (cc_requests c ! i) \<and>
    (\<forall>j' < length (cc_requests c). works_on n (rq_phase (cc_requests c ! j')) \<longrightarrow> j' = j)"
proof -
  have ok: "cache_ok cfg c" by (rule cache_reached [OF assms(1)])
  have "served c n (key_of c i)" using cache_ok_request [OF ok assms(2)] assms(3) by (simp add: request_ok_def Let_def key_of_def)
  with assms(4) obtain j where j: "owner c n j" "key_of c j = key_of c i" by (auto simp: served_def Let_def)
  moreover have "j' = j" if "owner c n j'" for j' using ok j(1) that unfolding cache_ok_def by blast
  ultimately show ?thesis unfolding owner_def phase_of_request_def key_of_def by blast
qed


section \<open>One client stops the others\<close>

text \<open>While a request reads a cached stream, it holds the lock, and no other request begins.\<close>

lemma reader_holds_lock:
  assumes "cache_ok cfg c" "i < length (cc_requests c)" "phase_of_request c i = Replaying vs"
  shows "cc_lock c = Some i"
  using cache_ok_request [OF assms(1,2)] assms(3) by (simp add: request_ok_def phase_of_request_def Let_def)

lemma locked_step:
  assumes "cache_step cfg c d" "cc_lock c = Some i"
  shows "length (cc_requests c) \<le> length (cc_requests d)" "cc_entries d = cc_entries c"
    "j < length (cc_requests c) \<Longrightarrow> phase_of_request c j = Ready \<Longrightarrow> phase_of_request d j = Ready"
  using assms
  by (cases; auto simp: nth_append phase_of_request_def bypass_def log_answer_def produce_chunk_def settle_call_def wake_def
      read_chunk_def end_reading_def nth_list_update Let_def split: request_phase.splits list.splits sum.splits if_splits)+


definition chat_settings :: cache_settings where
  "chat_settings = \<lparr>cs_enabled = True, cs_ttl = secs 60, cs_max_entries = 10, cs_dedupe = True, cs_stream_cache = True\<rparr>"

abbreviation arrive :: "string \<Rightarrow> bool \<Rightarrow> chat_cache \<Rightarrow> chat_cache" where
  "arrive k st c \<equiv> c\<lparr>cc_requests := cc_requests c @ [\<lparr>rq_key = k, rq_stream = st, rq_out = [], rq_phase = Ready\<rparr>]\<rparr>"

text \<open>One stream is computed and stored; the next request for it begins to read; a third arrives.\<close>

definition computed_cache :: chat_cache where
  "computed_cache = settle_call 0 (store_answer chat_settings 5 0 (produce_chunk 0 (JInt 1)
     (begin_request chat_settings 0 0 (arrive ''k'' True new_cache))))"

definition reading_cache :: chat_cache where
  "reading_cache = arrive ''other'' False (begin_request chat_settings 9 1 (arrive ''k'' True computed_cache))"

lemma computed_cache_state:
  "computed_cache =
     \<lparr>cc_entries = [(''k'', \<lparr>ce_expires = 60000005, ce_value = [JInt 1]\<rparr>)], cc_inflight = [],
      cc_calls = [\<lparr>ic_done = True, ic_value = Some [JInt 1], ic_error = None, ic_holder = None\<rparr>], cc_lock = None,
      cc_requests = [\<lparr>rq_key = ''k'', rq_stream = True, rq_out = [JInt 1], rq_phase = Finished None\<rparr>],
      cc_log = [(''k'', [JInt 1], 5)]\<rparr>"
  by code_simp

lemma computed_cache_steps: "(cache_step chat_settings)\<^sup>*\<^sup>* new_cache computed_cache"
proof -
  let ?a = "arrive ''k'' True new_cache"
  let ?b = "begin_request chat_settings 0 0 ?a"
  let ?c = "produce_chunk 0 (JInt 1) ?b"
  let ?d = "store_answer chat_settings 5 0 ?c"
  have a: "cache_step chat_settings new_cache ?a" by (rule request_arrived)
  have b: "cache_step chat_settings ?a ?b" by (rule request_began) (simp_all add: new_cache_def phase_of_request_def)
  have fb: "length (cc_requests ?b) = 1" "phase_of_request ?b 0 = Computing 0 []" "is_stream ?b 0" by code_simp+
  have c: "cache_step chat_settings ?b ?c" by (rule chunk_produced) (use fb in simp_all)
  have fc: "length (cc_requests ?c) = 1" "phase_of_request ?c 0 = Computing 0 [JInt 1]" "is_stream ?c 0" "cc_lock ?c = None"
    by code_simp+
  have d: "cache_step chat_settings ?c ?d" by (rule answer_stored) (use fc in simp_all)
  have fd: "length (cc_requests ?d) = 1" "phase_of_request ?d 0 = Settling 0 (Inr [JInt 1])" "ic_holder (cc_calls ?d ! 0) = None"
    by code_simp+
  have e: "cache_step chat_settings ?d computed_cache" unfolding computed_cache_def
    by (rule call_settled) (use fd in simp_all)
  from a b c d e show ?thesis by (meson rtranclp.rtrancl_into_rtrancl rtranclp.rtrancl_refl)
qed

lemma reading_cache_steps: "(cache_step chat_settings)\<^sup>*\<^sup>* new_cache reading_cache"
proof -
  let ?a = "arrive ''k'' True computed_cache"
  have "cache_step chat_settings computed_cache ?a" by (rule request_arrived)
  moreover have "cache_step chat_settings ?a (begin_request chat_settings 9 1 ?a)"
    by (rule request_began) (simp_all add: computed_cache_state phase_of_request_def)
  moreover have "cache_step chat_settings (begin_request chat_settings 9 1 ?a) reading_cache"
    unfolding reading_cache_def by (rule request_arrived)
  ultimately show ?thesis using computed_cache_steps by (meson rtranclp.rtrancl_into_rtrancl)
qed

lemma reading_cache_state:
  "length (cc_requests reading_cache) = 3" "phase_of_request reading_cache 1 = Replaying [JInt 1]"
  "phase_of_request reading_cache 2 = Ready" "phase_of_request reading_cache 0 = Finished None"
  "length (cc_requests computed_cache) = 1" "rq_phase (cc_requests computed_cache ! 0) = Finished None"
  by code_simp+



lemma cache_answers_were_computed_witness:
  "\<exists>t. (''k'', [JInt 1], t) \<in> set (cc_log computed_cache)"
  using cache_answers_were_computed [OF computed_cache_steps, of 0] by (simp add: computed_cache_state)


section \<open>One client ends the others\<close>

text \<open>
  Two clients ask for the same stream; the second waits for the first, which leaves after its
  first chunk.
\<close>

definition joined_cache :: chat_cache where
  "joined_cache = begin_request chat_settings 1 1 (produce_chunk 0 (JInt 1)
     (begin_request chat_settings 0 0 (arrive ''k'' True (arrive ''k'' True new_cache))))"

lemma joined_cache_steps: "(cache_step chat_settings)\<^sup>*\<^sup>* new_cache joined_cache"
proof -
  let ?a = "arrive ''k'' True new_cache"
  let ?b = "arrive ''k'' True ?a"
  let ?c = "begin_request chat_settings 0 0 ?b"
  let ?d = "produce_chunk 0 (JInt 1) ?c"
  have a: "cache_step chat_settings new_cache ?a" and b: "cache_step chat_settings ?a ?b" by (rule request_arrived)+
  have c: "cache_step chat_settings ?b ?c" by (rule request_began) (simp_all add: new_cache_def phase_of_request_def)
  have fc: "length (cc_requests ?c) = 2" "phase_of_request ?c 0 = Computing 0 []" "is_stream ?c 0" by code_simp+
  have d: "cache_step chat_settings ?c ?d" by (rule chunk_produced) (use fc in simp_all)
  have fd: "length (cc_requests ?d) = 2" "phase_of_request ?d 1 = Ready" "cc_lock ?d = None" by code_simp+
  have e: "cache_step chat_settings ?d joined_cache" unfolding joined_cache_def by (rule request_began) (use fd in simp_all)
  from a b c d e show ?thesis by (meson rtranclp.rtrancl_into_rtrancl rtranclp.rtrancl_refl)
qed

lemma joined_cache_state:
  "length (cc_requests joined_cache) = 2" "phase_of_request joined_cache 1 = Waiting 0" "phase_of_request joined_cache 0 = Computing 0 [JInt 1]"
  "is_stream joined_cache 0" "cc_lock joined_cache = None" "\<not> ic_done (cc_calls joined_cache ! 0)"
  by code_simp+

lemma waiters_have_an_owner_witness:
  "\<exists>j < 2. works_on 0 (rq_phase (cc_requests joined_cache ! j)) \<and> rq_phase (cc_requests joined_cache ! 1) = Waiting 0"
  using waiters_have_an_owner [OF joined_cache_steps, of 1 0] joined_cache_state by (auto simp: phase_of_request_def)

text \<open>
  The exception of an owner is raised in every waiting request, also the one
  that only says that the client of the owner has left: there is an interleaving of two
  requests for one stream in which the first client closes its stream and the second
  request, whose client is still there, ends with \<open>GeneratorExit\<close> and without a chunk.
\<close>

theorem leaving_client_ends_waiters:
  "\<exists>c. (cache_step chat_settings)\<^sup>*\<^sup>* joined_cache c \<and> phase_of_request c 1 = Finished (Some GeneratorExit) \<and>
     rq_out (cc_requests c ! 1) = [] \<and> phase_of_request joined_cache 1 = Waiting 0"
proof -
  let ?a = "abort_call GeneratorExit 0 joined_cache"
  let ?b = "settle_call 0 ?a"
  let ?c = "wake 1 ?b"
  have a: "cache_step chat_settings joined_cache ?a" 
    by (rule call_aborted [where n = 0 and vs = "[JInt 1]"]) (use joined_cache_state in simp_all)
  have fa: "length (cc_requests ?a) = 2" "phase_of_request ?a 0 = Settling 0 (Inl GeneratorExit)" "ic_holder (cc_calls ?a ! 0) = None"
    by code_simp+
  have b: "cache_step chat_settings ?a ?b" by (rule call_settled) (use fa in simp_all)
  have fb: "length (cc_requests ?b) = 2" "phase_of_request ?b 1 = Waiting 0" "ic_done (cc_calls ?b ! 0)" "ic_holder (cc_calls ?b ! 0) = None"
    by code_simp+
  have c: "cache_step chat_settings ?b ?c" by (rule waiter_woken) (use fb in simp_all)
  have fc: "phase_of_request ?c 1 = Finished (Some GeneratorExit)" "rq_out (cc_requests ?c ! 1) = []" by code_simp+
  from a b c have "(cache_step chat_settings)\<^sup>*\<^sup>* joined_cache ?c" by (meson rtranclp.rtrancl_into_rtrancl rtranclp.rtrancl_refl)
  with fc joined_cache_state(2) show ?thesis by blast
qed

end
