(* ===== verification/Coordination.thy ===== *)
theory Coordination
  imports Queue_Rows
begin

text \<open>
  Coordination between processes (\<open>services/storage/coordination_repository.py\<close>): a JSON
  state with a revision, edited under a database lock, and named leases, here in the tables
  of the SQLite branch, with a heartbeat while they are held. PostgreSQL holds a lease as an
  advisory lock of the connection; that branch only calls the server.
\<close>

section \<open>The JSON state\<close>

record json_row =
  js_data :: jobj
  js_revision :: nat

text \<open>
  \<open>edit\<close> with what its body does to the state: a body that raises leaves the table as it is.
  The first edit inserts the row, even when the body changes nothing.
\<close>

definition edit_state :: "(jobj \<Rightarrow> 'e + jobj) \<Rightarrow> json_row option \<Rightarrow> ('e + jobj) \<times> json_row option" where
  "edit_state body row =
     (let previous = (case row of None \<Rightarrow> [] | Some r \<Rightarrow> js_data r)
      in case body previous of
           Inl e \<Rightarrow> (Inl e, row)
         | Inr payload \<Rightarrow>
             (Inr payload,
              case row of
                None \<Rightarrow> Some \<lparr>js_data = payload, js_revision = 1\<rparr>
              | Some r \<Rightarrow> if payload \<noteq> previous then Some \<lparr>js_data = payload, js_revision = js_revision r + 1\<rparr> else Some r))"

definition load_state :: "json_row option \<Rightarrow> jobj" where
  "load_state row = (case row of None \<Rightarrow> [] | Some r \<Rightarrow> js_data r)"

definition replace_state :: "jobj \<Rightarrow> json_row option \<Rightarrow> (unit + jobj) \<times> json_row option" where
  "replace_state payload = edit_state (\<lambda>current. Inr payload)"

section \<open>Leases\<close>

record lease_row =
  lr_owner :: nat
  lr_expires :: time

datatype holder_phase = Trying | Holding | TimedOut | Released

text \<open>
  One \<open>with repository.run_lock()\<close>: its token, the name and the length of the lease, when it
  stops trying, where it is, whether its heartbeat thread runs, and the last expiry it wrote.
\<close>

record lease_client =
  lc_token :: nat
  lc_name :: string
  lc_seconds :: time
  lc_deadline :: "time option"
  lc_phase :: holder_phase
  lc_beating :: bool
  lc_expires :: time

record lease_table =
  lt_rows :: "(string \<times> lease_row) list"
  lt_clients :: "lease_client list"

definition new_client :: "nat \<Rightarrow> string \<Rightarrow> time \<Rightarrow> time option \<Rightarrow> lease_client" where
  "new_client token name lease_time deadline =
     \<lparr>lc_token = token, lc_name = name, lc_seconds = max (secs 1) lease_time, lc_deadline = deadline,
      lc_phase = Trying, lc_beating = False, lc_expires = 0\<rparr>"

definition set_client :: "nat \<Rightarrow> lease_client \<Rightarrow> lease_table \<Rightarrow> lease_table" where
  "set_client i x t = t\<lparr>lt_clients := (lt_clients t)[i := x]\<rparr>"

text \<open>\<open>_try_acquire_sqlite\<close>, in one immediate transaction.\<close>

definition try_acquire :: "time \<Rightarrow> nat \<Rightarrow> lease_table \<Rightarrow> bool \<times> lease_table" where
  "try_acquire now i t =
     (let x = lt_clients t ! i
      in case map_of (lt_rows t) (lc_name x) of
           Some row \<Rightarrow>
             if now < lr_expires row then (False, t)
             else (True, t\<lparr>lt_rows := dict_set (lc_name x) \<lparr>lr_owner = lc_token x, lr_expires = now + lc_seconds x\<rparr> (lt_rows t)\<rparr>)
         | None \<Rightarrow> (True, t\<lparr>lt_rows := dict_set (lc_name x) \<lparr>lr_owner = lc_token x, lr_expires = now + lc_seconds x\<rparr> (lt_rows t)\<rparr>))"

text \<open>One turn of the loop of \<open>_acquire_sqlite\<close>; \<open>tick\<close> is the monotonic clock.\<close>

definition acquire_turn :: "time \<Rightarrow> time \<Rightarrow> nat \<Rightarrow> lease_table \<Rightarrow> lease_table" where
  "acquire_turn now tick i t =
     (let x = lt_clients t ! i
      in case try_acquire now i t of
           (True, t) \<Rightarrow> set_client i (x\<lparr>lc_phase := Holding, lc_beating := True, lc_expires := now + lc_seconds x\<rparr>) t
         | (False, t) \<Rightarrow>
             (case lc_deadline x of
                Some d \<Rightarrow> if d \<le> tick then set_client i (x\<lparr>lc_phase := TimedOut\<rparr>) t else t
              | None \<Rightarrow> t))"

text \<open>One turn of \<open>_heartbeat_sqlite\<close>: the row is renewed if it still has the token.\<close>

definition heartbeat_turn :: "time \<Rightarrow> nat \<Rightarrow> lease_table \<Rightarrow> lease_table" where
  "heartbeat_turn now i t =
     (let x = lt_clients t ! i
      in if \<not> lc_beating x then t
         else case map_of (lt_rows t) (lc_name x) of
                Some row \<Rightarrow>
                  if lr_owner row = lc_token x
                  then set_client i (x\<lparr>lc_expires := now + lc_seconds x\<rparr>)
                         (t\<lparr>lt_rows := dict_set (lc_name x) (row\<lparr>lr_expires := now + lc_seconds x\<rparr>) (lt_rows t)\<rparr>)
                  else set_client i (x\<lparr>lc_beating := False\<rparr>) t
              | None \<Rightarrow> set_client i (x\<lparr>lc_beating := False\<rparr>) t)"

definition release_lease :: "nat \<Rightarrow> lease_table \<Rightarrow> lease_table" where
  "release_lease i t =
     (let x = lt_clients t ! i
      in set_client i (x\<lparr>lc_phase := Released, lc_beating := False\<rparr>)
           (t\<lparr>lt_rows := filter (\<lambda>(n, row). \<not> (n = lc_name x \<and> lr_owner row = lc_token x)) (lt_rows t)\<rparr>))"

text \<open>Any clients in any order, while the shared clock does not go back.\<close>

inductive lease_step :: "time \<times> lease_table \<Rightarrow> time \<times> lease_table \<Rightarrow> bool" where
  client_came: "token \<notin> lc_token ` set (lt_clients t) \<Longrightarrow>
    lease_step (now, t) (now, t\<lparr>lt_clients := lt_clients t @ [new_client token name lease_time deadline]\<rparr>)"
| acquire_tried: "i < length (lt_clients t) \<Longrightarrow> lc_phase (lt_clients t ! i) = Trying \<Longrightarrow> now \<le> now' \<Longrightarrow>
    lease_step (now, t) (now', acquire_turn now' tick i t)"
| heart_beat: "i < length (lt_clients t) \<Longrightarrow> lc_phase (lt_clients t ! i) = Holding \<Longrightarrow> now \<le> now' \<Longrightarrow>
    lease_step (now, t) (now', heartbeat_turn now' i t)"
| lease_released: "i < length (lt_clients t) \<Longrightarrow> lc_phase (lt_clients t ! i) = Holding \<Longrightarrow>
    lease_step (now, t) (now, release_lease i t)"
| time_passed: "now \<le> now' \<Longrightarrow> lease_step (now, t) (now', t)"

definition no_leases :: lease_table where
  "no_leases = \<lparr>lt_rows = [], lt_clients = []\<rparr>"

section \<open>The invariant\<close>

text \<open>
  A holder whose last expiry has not passed is the owner of the row, with that expiry; rows
  belong to clients with their name.
\<close>

definition leases_ok :: "time \<times> lease_table \<Rightarrow> bool" where
  "leases_ok s \<longleftrightarrow>
     (case s of (now, t) \<Rightarrow>
        distinct (map lc_token (lt_clients t)) \<and> distinct (map fst (lt_rows t)) \<and>
        (\<forall>x \<in> set (lt_clients t). lc_phase x = Holding \<longrightarrow> now < lc_expires x \<longrightarrow>
           map_of (lt_rows t) (lc_name x) = Some \<lparr>lr_owner = lc_token x, lr_expires = lc_expires x\<rparr>))"

lemma leases_okD:
  "leases_ok (now, t) \<Longrightarrow> x \<in> set (lt_clients t) \<Longrightarrow> lc_phase x = Holding \<Longrightarrow> now < lc_expires x \<Longrightarrow>
     map_of (lt_rows t) (lc_name x) = Some \<lparr>lr_owner = lc_token x, lr_expires = lc_expires x\<rparr>"
  by (simp add: leases_ok_def)

lemma leases_later: "leases_ok (now, t) \<Longrightarrow> now \<le> now' \<Longrightarrow> leases_ok (now', t)"
  by (auto simp: leases_ok_def)

text \<open>Another client of the list differs from client \<open>i\<close> in its token.\<close>

lemma other_client:
  assumes "distinct (map lc_token (lt_clients t))" "i < length (lt_clients t)" "y \<in> set ((lt_clients t)[i := x])"
  shows "y = x \<or> y \<in> set (lt_clients t) \<and> lc_token y \<noteq> lc_token (lt_clients t ! i)"
proof -
  from assms(3) obtain j where j: "j < length (lt_clients t)" "y = (lt_clients t)[i := x] ! j"
    by (auto simp: in_set_conv_nth)
  show ?thesis
  proof (cases "j = i")
    case False
    with j assms(1,2) have "y = lt_clients t ! j" "lc_token (lt_clients t ! j) \<noteq> lc_token (lt_clients t ! i)"
      by (auto simp: distinct_conv_nth)
    moreover have "lt_clients t ! j \<in> set (lt_clients t)" using j(1) by simp
    ultimately show ?thesis by simp
  qed (use j assms(2) in simp)
qed

text \<open>The row of the name of client \<open>i\<close> changes, and client \<open>i\<close> with it.\<close>

lemma client_step:
  assumes ok: "leases_ok (now, t)" and i: "i < length (lt_clients t)"
    and x: "lc_token x = lc_token (lt_clients t ! i)" "lc_name x = lc_name (lt_clients t ! i)"
    and rows: "distinct (map fst rows)" "\<And>n. n \<noteq> lc_name x \<Longrightarrow> map_of rows n = map_of (lt_rows t) n"
    and mine: "lc_phase x = Holding \<Longrightarrow> now < lc_expires x \<Longrightarrow>
        map_of rows (lc_name x) = Some \<lparr>lr_owner = lc_token x, lr_expires = lc_expires x\<rparr>"
    and theirs: "\<And>row. map_of (lt_rows t) (lc_name x) = Some row \<Longrightarrow> now < lr_expires row \<Longrightarrow> lr_owner row \<noteq> lc_token x \<Longrightarrow>
        map_of rows (lc_name x) = Some row"
  shows "leases_ok (now, t\<lparr>lt_rows := rows, lt_clients := (lt_clients t)[i := x]\<rparr>)"
proof -
  have d: "distinct (map lc_token (lt_clients t))" using ok by (simp add: leases_ok_def)
  have "map lc_token ((lt_clients t)[i := x]) = map lc_token (lt_clients t)"
    using i x(1) by (metis list_update_id map_update nth_map)
  moreover have "map_of rows (lc_name y) = Some \<lparr>lr_owner = lc_token y, lr_expires = lc_expires y\<rparr>"
    if y: "y \<in> set ((lt_clients t)[i := x])" "lc_phase y = Holding" "now < lc_expires y" for y
  proof (cases "y = x")
    case True
    with mine y show ?thesis by simp
  next
    case False
    with other_client [OF d i y(1)] x(1) have z: "y \<in> set (lt_clients t)" "lc_token y \<noteq> lc_token x" by auto
    note row = leases_okD [OF ok z(1) y(2,3)]
    show ?thesis
    proof (cases "lc_name y = lc_name x")
      case True
      with row theirs [of "\<lparr>lr_owner = lc_token y, lr_expires = lc_expires y\<rparr>"] y(3) z(2) show ?thesis by simp
    next
      case False
      with row rows(2) show ?thesis by simp
    qed
  qed
  ultimately show ?thesis using d rows(1) by (simp add: leases_ok_def)
qed

lemma acquire_ok:
  assumes "leases_ok (now, t)" "i < length (lt_clients t)" "lc_phase (lt_clients t ! i) = Trying"
  shows "leases_ok (now, acquire_turn now tick i t)"
proof -
  define x where "x = lt_clients t ! i"
  have d: "distinct (map fst (lt_rows t))" using assms(1) by (simp add: leases_ok_def)
  define taken where "taken = (\<exists>row. map_of (lt_rows t) (lc_name x) = Some row \<and> now < lr_expires row)"
  have same: "leases_ok (now, t)" "leases_ok (now, set_client i (x\<lparr>lc_phase := TimedOut\<rparr>) t)"
    using client_step [OF assms(1,2), of "x\<lparr>lc_phase := TimedOut\<rparr>" "lt_rows t"] d assms(1)
    by (simp_all add: x_def set_client_def)
  let ?y = "x\<lparr>lc_phase := Holding, lc_beating := True, lc_expires := now + lc_seconds x\<rparr>"
  let ?rows = "dict_set (lc_name x) \<lparr>lr_owner = lc_token x, lr_expires = now + lc_seconds x\<rparr> (lt_rows t)"
  have "leases_ok (now, t\<lparr>lt_rows := ?rows, lt_clients := (lt_clients t)[i := ?y]\<rparr>)" if "\<not> taken"
    by (rule client_step [OF assms(1,2)])
      (use that d in \<open>auto simp: x_def map_of_dict_set distinct_dict_set taken_def\<close>)
  with same show ?thesis
    by (auto simp: acquire_turn_def try_acquire_def x_def [symmetric] Let_def taken_def set_client_def split: option.splits)
qed

lemma heartbeat_ok:
  assumes "leases_ok (now, t)" "i < length (lt_clients t)"
  shows "leases_ok (now, heartbeat_turn now i t)"
proof -
  define x where "x = lt_clients t ! i"
  have d: "distinct (map fst (lt_rows t))" using assms(1) by (simp add: leases_ok_def)
  have mem: "x \<in> set (lt_clients t)" using assms(2) by (simp add: x_def)
  have "leases_ok (now, t\<lparr>lt_rows := lt_rows t, lt_clients := (lt_clients t)[i := x\<lparr>lc_beating := False\<rparr>]\<rparr>)"
    by (rule client_step [OF assms(1,2)]) (use d leases_okD [OF assms(1) mem] in \<open>auto simp: x_def\<close>)
  then have stop: "leases_ok (now, set_client i (x\<lparr>lc_beating := False\<rparr>) t)" by (simp add: set_client_def)
  have "leases_ok (now, t\<lparr>lt_rows := dict_set (lc_name x) (row\<lparr>lr_expires := now + lc_seconds x\<rparr>) (lt_rows t),
      lt_clients := (lt_clients t)[i := x\<lparr>lc_expires := now + lc_seconds x\<rparr>]\<rparr>)"
    if "map_of (lt_rows t) (lc_name x) = Some row" "lr_owner row = lc_token x" for row
    by (rule client_step [OF assms(1,2)])
      (use that d in \<open>auto simp: x_def map_of_dict_set distinct_dict_set\<close>)
  with stop assms(1) show ?thesis
    by (auto simp: heartbeat_turn_def x_def [symmetric] Let_def set_client_def split: option.splits)
qed

lemma release_ok:
  assumes "leases_ok (now, t)" "i < length (lt_clients t)"
  shows "leases_ok (now, release_lease i t)"
proof -
  define x where "x = lt_clients t ! i"
  define keep :: "string \<times> lease_row \<Rightarrow> bool" where "keep = (\<lambda>(n, row). \<not> (n = lc_name x \<and> lr_owner row = lc_token x))"
  have d: "distinct (map fst (lt_rows t))" using assms(1) by (simp add: leases_ok_def)
  have found: "map_of (filter keep rows) n = (case map_of rows n of None \<Rightarrow> None | Some row \<Rightarrow> if keep (n, row) then Some row else None)"
    if "distinct (map fst rows)" for n and rows :: "(string \<times> lease_row) list"
    using that
  proof (induction rows)
    case (Cons p rows)
    obtain m row where p: "p = (m, row)" by (cases p)
    have "n = m \<Longrightarrow> map_of rows n = None" using Cons.prems p by (simp add: map_of_eq_None_iff)
    with Cons p show ?case by auto
  qed simp
  have keep: "keep (n, row) \<longleftrightarrow> \<not> (n = lc_name x \<and> lr_owner row = lc_token x)" for n row by (simp add: keep_def)
  have "leases_ok (now, t\<lparr>lt_rows := filter keep (lt_rows t),
      lt_clients := (lt_clients t)[i := x\<lparr>lc_phase := Released, lc_beating := False\<rparr>]\<rparr>)"
    by (rule client_step [OF assms(1,2)])
      (use d in \<open>auto simp: x_def [symmetric] found keep distinct_map_filter split: option.split\<close>)
  then show ?thesis by (simp add: release_lease_def x_def [symmetric] keep_def Let_def set_client_def)
qed

lemma came_ok:
  assumes "leases_ok (now, t)" "token \<notin> lc_token ` set (lt_clients t)"
  shows "leases_ok (now, t\<lparr>lt_clients := lt_clients t @ [new_client token name lease_time deadline]\<rparr>)"
  using assms by (auto simp: leases_ok_def new_client_def)

lemma lease_step_ok: "leases_ok s \<Longrightarrow> lease_step s u \<Longrightarrow> leases_ok u"
  by (erule lease_step.cases)
    (auto intro: came_ok acquire_ok heartbeat_ok release_ok leases_later intro!: acquire_ok [OF leases_later] heartbeat_ok [OF leases_later])

interpretation leases: safety_system "\<lambda>s. snd s = no_leases" lease_step leases_ok
proof (unfold_locales, goal_cases)
  case (1 s)
  then show ?case by (cases s) (simp add: leases_ok_def no_leases_def)
qed (rule lease_step_ok)


section \<open>What a lease gives\<close>

text \<open>
  Property C40. Exclusion while the heart beats: in every interleaving, two different holders
  of one name never both have an expiry, as they wrote it last, that has not passed; so as
  long as every holder renews its lease before it expires, there is at most one.
\<close>

theorem live_lease_is_exclusive:
  assumes "lease_step\<^sup>*\<^sup>* (start_time, no_leases) (now, t)" "i < length (lt_clients t)" "j < length (lt_clients t)"
    and "lc_phase (lt_clients t ! i) = Holding" "lc_phase (lt_clients t ! j) = Holding"
    and "lc_name (lt_clients t ! i) = lc_name (lt_clients t ! j)"
    and "now < lc_expires (lt_clients t ! i)" "now < lc_expires (lt_clients t ! j)"
  shows "i = j"
proof -
  have ok: "leases_ok (now, t)" by (rule leases.reachable_invariant [OF _ assms(1)]) simp
  from leases_okD [OF ok nth_mem [OF assms(2)] assms(4,7)] leases_okD [OF ok nth_mem [OF assms(3)] assms(5,8)] assms(6)
  have "lc_token (lt_clients t ! i) = lc_token (lt_clients t ! j)" by simp
  then have "map lc_token (lt_clients t) ! i = map lc_token (lt_clients t) ! j" using assms(2,3) by simp
  moreover have "distinct (map lc_token (lt_clients t))" using ok by (simp add: leases_ok_def)
  ultimately show ?thesis using assms(2,3) nth_eq_iff_index_eq [of "map lc_token (lt_clients t)" i j] by simp
qed

text \<open>Two clients of the leader lease of five seconds; the first one falls silent for six.\<close>

definition leader_came :: lease_table where
  "leader_came = no_leases\<lparr>lt_clients := [new_client 1 ''leader'' (secs 5) None, new_client 2 ''leader'' (secs 5) None]\<rparr>"

definition leader_held :: lease_table where
  "leader_held = acquire_turn 0 0 0 leader_came"

definition leader_lost :: lease_table where
  "leader_lost = heartbeat_turn (secs 7) 0 (acquire_turn (secs 6) 0 1 leader_held)"

lemma leader_held_steps: "lease_step\<^sup>*\<^sup>* (0, no_leases) (0, leader_held)"
proof -
  let ?a = "no_leases\<lparr>lt_clients := lt_clients no_leases @ [new_client 1 ''leader'' (secs 5) None]\<rparr>"
  have a: "lease_step (0, no_leases) (0, ?a)" by (rule client_came) (simp add: no_leases_def)
  have b: "lease_step (0, ?a) (0, ?a\<lparr>lt_clients := lt_clients ?a @ [new_client 2 ''leader'' (secs 5) None]\<rparr>)"
    by (rule client_came) (simp add: no_leases_def new_client_def)
  then have b: "lease_step (0, ?a) (0, leader_came)" by (simp add: leader_came_def no_leases_def)
  have c: "lease_step (0, leader_came) (0, leader_held)" unfolding leader_held_def
    by (rule acquire_tried) (simp_all add: leader_came_def no_leases_def new_client_def)
  from a b c show ?thesis by (meson rtranclp.rtrancl_into_rtrancl rtranclp.rtrancl_refl)
qed

lemma leader_held_state:
  "lt_clients leader_held ! 0 = \<lparr>lc_token = 1, lc_name = ''leader'', lc_seconds = secs 5, lc_deadline = None, lc_phase = Holding,
     lc_beating = True, lc_expires = secs 5\<rparr>"
  "lc_phase (lt_clients leader_held ! 1) = Trying" "length (lt_clients leader_held) = 2"
  by code_simp+

lemma live_lease_is_exclusive_witness:
  "{j. j < length (lt_clients leader_held) \<and> lc_phase (lt_clients leader_held ! j) = Holding \<and>
      lc_name (lt_clients leader_held ! j) = ''leader'' \<and> 0 < lc_expires (lt_clients leader_held ! j)} = {0}"
proof -
  have "length (lt_clients leader_held) = 2" "lc_phase (lt_clients leader_held ! 0) = Holding"
    "lc_name (lt_clients leader_held ! 0) = ''leader''" "0 < lc_expires (lt_clients leader_held ! 0)"
    by (simp_all add: leader_held_state secs_def)
  then show ?thesis using live_lease_is_exclusive [OF leader_held_steps, of 0] by fastforce
qed

text \<open>
  Losing a lease goes unnoticed: there is a run in which the holder of the
  leader lease finds, at its heartbeat, that another client has taken the expired lease; its
  heartbeat thread ends, and both clients go on holding the name.
\<close>

theorem lost_lease_goes_unnoticed:
  "\<exists>now t. lease_step\<^sup>*\<^sup>* (0, no_leases) (now, t) \<and>
     map lc_phase (lt_clients t) = [Holding, Holding] \<and> map lc_name (lt_clients t) = [''leader'', ''leader''] \<and>
     map lc_beating (lt_clients t) = [False, True] \<and> map_option lr_owner (map_of (lt_rows t) ''leader'') = Some 2"
proof -
  let ?b = "acquire_turn (secs 6) 0 1 leader_held"
  have b: "lease_step (0, leader_held) (secs 6, ?b)"
    by (rule acquire_tried) (use leader_held_state in \<open>simp_all add: secs_def\<close>)
  have fb: "length (lt_clients ?b) = 2" "lc_phase (lt_clients ?b ! 0) = Holding" by code_simp+
  have c: "lease_step (secs 6, ?b) (secs 7, leader_lost)" unfolding leader_lost_def
    by (rule heart_beat) (use fb in \<open>simp_all add: secs_def\<close>)
  have "lease_step\<^sup>*\<^sup>* (0, no_leases) (secs 7, leader_lost)"
    using leader_held_steps b c by (meson rtranclp.rtrancl_into_rtrancl)
  moreover have "map lc_phase (lt_clients leader_lost) = [Holding, Holding] \<and> map lc_name (lt_clients leader_lost) = [''leader'', ''leader''] \<and>
     map lc_beating (lt_clients leader_lost) = [False, True] \<and> map_option lr_owner (map_of (lt_rows leader_lost) ''leader'') = Some 2"
    by code_simp
  ultimately show ?thesis by (intro exI [of _ "secs 7"] exI [of _ leader_lost] conjI) simp_all
qed

section \<open>Revisions\<close>

text \<open>An edit advances the revision exactly when it changes the state or creates the row.\<close>

lemma edit_state_revision:
  assumes "edit_state body (Some r) = (res, Some q)"
  shows "js_revision q = (if js_data q = js_data r then js_revision r else js_revision r + 1)"
  using assms by (auto simp: edit_state_def Let_def split: sum.splits if_splits)

lemma replace_state_loads: "load_state (snd (replace_state payload row)) = payload"
  by (auto simp: replace_state_def edit_state_def load_state_def Let_def split: option.split)

end
