(* ===== verification/Spec2Isabelle.thy ===== *)
theory Spec2Isabelle
  imports Retry_Policy Claim_Scheduler Account_Dispatch Queue_Work_Properties Queue_Claim_Correct
    Queue_Intake_Correct Queue_Recovery_Correct Queue_Delivery_Correct Queue_System Queue_Claim_Progress
    Resource_Controller Quota_Correct Queue_Worker_Correct Account_Results Task_Runner_Correct
    Auth_Correct Chat_Cache_Correct Coordination
begin

text \<open>
  A verification library for gptimage2api. Its first part is the image queue: the durable
  queue in a relational database that turns a request for images into jobs, hands them to
  workers, and keeps what was paid for through crashes, retries, cancellation and delivery.
  Its second part is the services the queue and the API stand on: the pool of upstream
  accounts, the keys of the callers, their storage, the bounded task runner, the cache of
  chat completions and the leases between processes.

  \<^bold>\<open>The program.\<close> An API process enqueues a task with its jobs
  (\<open>ImageQueueRepository.enqueue_task\<close>). Workers (\<open>ImageWorkerManager\<close> in
  \<open>services/image_queue/worker.py\<close>) run in rounds: they sweep (expiry, dead leases, purge), ask
  the resource controller and the scheduler what they may start, claim one job together with a
  slot of an upstream account, and run it in a pool. The executor checkpoints, records
  artifacts and completes the job; an exception is classified (\<open>services/image_failure.py\<close>),
  judged by the retry policy, and settles the claim. A claim is a lease: owner, token and
  version in the row of the job, renewed by heartbeats, reclaimed when its worker dies. The
  client reads the result, acknowledges it, and the purge removes what is delivered. Daily
  quotas of the callers (\<open>services/quota_service.py\<close>) are reserved before and committed after.

  Several processes share accounts and keys. Each keeps a view of them with the revision it
  was read at; a batch of changes carries that revision, and the storage refuses it when
  another process was faster (\<open>services/storage/\<close>). The account service then merges its
  changes into the new content and tries again; the auth service recomputes its change. An
  account has a slot count for image requests, kept in the memory of the process and moved
  when its token rotates. Background work (the registration of accounts, the push of finished
  images) runs in threads of the bounded task runner, which admits it by reservations. Chat
  requests with equal keys share one computation through the cache, and backups and the
  retention clean-up run under named leases, one process at a time.

  \<^bold>\<open>The model.\<close> The tables are one record \<open>queue_db\<close> of lists of rows, in insertion order;
  a session of the repository is a function from the tables to a result and new tables, and a
  session that raises returns \<open>Inl\<close> of a \<open>queue_error\<close> and is rolled back. Locks and
  transactions make each session atomic, so concurrent processes are interleavings of
  sessions. Times are integers in microseconds, UUIDs naturals, texts strings; a generated
  UUID, the clock, the random jitter, the account pool and callbacks are arguments. JSON
  columns hold \<open>jval\<close>. Chinese message texts are constructors of \<open>msg\<close>.

  An account is a finite map from field names to Python values (\<open>pyval\<close>), a key a record, and
  their texts are lists of UTF-8 bytes; float values do not occur in them. A process is a
  record (its view, revision, indexes and slots) beside the storage; what other processes
  write between its \<open>i\<close>-th and next access is a function \<open>others i\<close> of the storage, any at all
  or, where a property needs it, one that obeys the storage's own protocol. What the code
  takes from Python's library or from helpers (digests, parsed times and identifiers, claims
  of a token) is a field of \<open>account_env\<close>; clocks, failing accesses and random draws of the
  auth service are fields of \<open>auth_world\<close>. The runner, the cache and the leases are step
  relations: each block under a lock, each queue access and each callback is one step.

  \<^bold>\<open>Theories and sources\<close> (under \<open>src/services/image_queue/\<close> unless a path is given):
  \<^item> \<open>Py_Prelude\<close>: texts and lists as Python treats them, lemma collections, the locales for
    transition systems (\<open>safety_system\<close> and others) the components instantiate.
  \<^item> \<open>Queue_Types\<close>, \<open>Queue_Rows\<close>: \<open>types.py\<close>, \<open>models.py\<close> and the functions on one row
    (stage timings, attempt counters, the merge of attempt records of \<open>services/log_service.py\<close>).
  \<^item> \<open>Failure_Policy\<close>: the policy table, aliases and switch predicates of
    \<open>services/image_failure.py\<close>. \<open>Retry_Policy\<close>: \<open>retry_policy.py\<close>. \<open>Claim_Scheduler\<close>:
    \<open>scheduler.py\<close>. \<open>Account_Dispatch\<close>: \<open>services/image_account_dispatch.py\<close>.
    \<open>Resource_Controller\<close>: \<open>resource_controller.py\<close>, with exact rationals for its floats.
  \<^item> \<open>Queue_Store\<close>: the tables, the event log, the lease check \<open>_claimed_job\<close>, and the
    recomputation of a task from its jobs (\<open>_aggregate_task\<close>). \<open>Queue_Work\<close>: every write a
    worker makes about a job it holds. \<open>Queue_Claim\<close>: \<open>claim_next_job\<close> with its query, account
    slots and recovery routes. \<open>Queue_Intake\<close>: \<open>enqueue_task\<close>, idempotency, lookup, queue
    position, expiry. \<open>Queue_Recovery\<close>: reclaim of leases, \<open>recovery.py\<close>, resumption, adoption
    of artifacts, undeliverable results. \<open>Queue_Delivery\<close>: cancellation, delivery, public
    artifacts, protection and purge. \<open>Queue_Registry\<close>: the rows of the workers. All of
    \<open>repository.py\<close>.
  \<^item> \<open>Queue_Worker\<close>: \<open>worker.py\<close>. \<open>Quota_Service\<close>: \<open>services/quota_service.py\<close>.
  \<^item> \<open>Keyed_Storage\<close>: \<open>services/storage/base.py\<close>, \<open>mutation.py\<close> and the batches, replacements
    and snapshots of \<open>database_storage.py\<close>; its contract is the locale \<open>cas_store\<close>.
  \<^item> \<open>Account_Model\<close>: the normal form and the predicates of an account
    (\<open>services/account_service.py\<close>, \<open>services/account_credentials.py\<close>, the masking of
    \<open>utils/diagnostics.py\<close>). \<open>Account_Store\<close>: loading, merging, token rotation and saving.
    \<open>Account_Pool\<close>: slots, selection, round robin, recording of results, the queue's view.
  \<^item> \<open>Task_Runner\<close>: \<open>services/bounded_task_runner.py\<close>. \<open>Auth_Service\<close>:
    \<open>services/auth_service.py\<close>. \<open>Chat_Cache\<close>: \<open>services/protocol/chat_completion_cache.py\<close>.
    \<open>Coordination\<close>: \<open>services/storage/coordination_repository.py\<close>.

  \<^bold>\<open>What is shown.\<close>
  \<^item> \<open>Queue_Invariant\<close> states \<open>store_ok\<close>: unique keys, foreign keys, lease columns exactly on
    claimed jobs, leases matched to jobs in progress, and counters and status of every task in
    agreement with its jobs. The theories \<open>*_Correct\<close> show that every operation keeps it and
    what it does on each branch.
  \<^item> Fencing (\<open>Queue_Work_Correct\<close>): a worker whose claim no longer stands cannot change
    anything, and a claim is settled at most once; both from the locale \<open>fenced_operations\<close>.
  \<^item> \<open>Queue_Claim_Correct\<close>, \<open>Queue_Claim_Progress\<close>: what a claim returns, its order, its
    route, its termination, and that it serves work when there is a free slot.
  \<^item> \<open>Queue_Lifecycle\<close>, \<open>Queue_Refinement\<close>: the abstract life cycle of a job (waiting, held,
    done, with its version) and that every session refines it.
  \<^item> \<open>Queue_System\<close> and this theory: the step relation \<open>queue_step\<close> of all writing sessions,
    its reachable states, the bound on the leases of an account, refinement, and fencing
    across any interleaving.
  \<^item> \<open>Queue_Worker_Correct\<close>: rounds, runs and heartbeats of a worker are runs of \<open>queue_step\<close>;
    a failed run gives its claim up; how an exception decides the outcome; admission.
    \<open>Queue_Registry_Correct\<close>: no two live processes under one worker identity.
  \<^item> \<open>Quota_Correct\<close>: the daily limit and once-only charging. \<open>Resource_Controller\<close>: the
    hysteresis of the latch and the agreement of report and decision.
  \<^item> \<open>Keyed_Storage\<close>: a batch that is accepted was computed from the content it changes, so no
    update of another process is lost; the database adapter interprets \<open>cas_store\<close>.
  \<^item> \<open>Account_Normal\<close>: what normalising does to each field, and that it settles an account.
    \<open>Account_Merge_Correct\<close>: the merge account by account and field by field; counts of
    concurrent processes add up. \<open>Account_Save\<close>: what a save leaves in view and storage under
    any interference. \<open>Account_Slots\<close>: slots match their start times in every reachable state,
    and selection keeps exactly the slot it hands out. \<open>Account_Results\<close>: a result counts once
    within a process, and how two processes lose the record of a key.
  \<^item> \<open>Task_Runner_Correct\<close>: the counters agree with the queues and threads in every reachable
    state, what becomes of an admitted task, and how draining can leave one waiting for ever.
  \<^item> \<open>Auth_Correct\<close>: the view is the content at its revision, keys stay unique, authentication
    never undoes a revocation, a revoked key is refused once the view is refreshed, and a
    created key authenticates.
  \<^item> \<open>Chat_Cache_Correct\<close>: answers of the cache were computed for their key, entries are
    bounded and fresh, waiting requests have an owner, and how a stream read under the lock
    blocks the others. \<open>Coordination\<close>: a live lease is exclusive, and how the loss of one goes
    unnoticed by its holder.

  \<^bold>\<open>Bounds and termination.\<close> No definition uses fuel. The claim loop \<open>claim_loop\<close> is a
  \<open>function\<close> with a termination proof: every iteration that goes on moves the cursor past a
  job or ends the recovery pass (\<open>claim_loop_progress\<close>). The five attempts of
  \<open>claim_next_job\<close> and the limits 100 and 1000 of queries are the code's, and so are the
  attempts of \<open>save_accounts\<close> (4), of the account selection (20) and of the compare and swap
  of the keys (4). \<open>follow_alias\<close> ends because a token is visited once, and
  \<open>get_text_access_token\<close> because each round excludes a further token. The searches for a free
  name and a free management identifier, endless loops in the code, try one candidate more
  than there are taken ones, which is proved to be enough. The searches for a fresh random key
  or identifier run over a given list of draws and answer \<open>StillDrawing\<close> when none of them is
  fresh. Everything else is structural.

  \<^bold>\<open>Not modelled, and why.\<close> The logical backup and restore of the tables and the import of
  legacy files (whole-table serialisation), migrations and the connection pool
  (\<open>database.py\<close>), environment settings and start-up, artifact files on disk, threads and
  executors of the worker, failing database calls other than the errors above, the
  classification of upstream payloads and the texts shown to users, the upstream protocols,
  the HTTP API and the web front end. Of the accounts: registration, deletion, import and
  export, the refresh of tokens and the remote checks, which are calls to upstream services.
  Of the storage: the SQL schema and the administration of backends. Of the runner: the
  closures of \<open>submit_future\<close>, which only wire futures. Of the cache: the digest that makes a
  key, a parameter. Of the leases: the PostgreSQL branch, which calls advisory locks of the
  server.
\<close>

section \<open>Properties of the whole system\<close>

text \<open>
  A run used by the witnesses: a request for two images enters the empty database, a worker
  claims the first job, fails it, and the next claim takes the second.
\<close>

definition demo_run_request :: claim_request where
  "demo_run_request = demo_request\<lparr>cr_prefer_recovery := False\<rparr>"

definition demo_run_1 :: queue_db where
  "demo_run_1 = rolled_back empty_db
     (enqueue_task 50 (\<lambda>_. None) 2 (\<lambda>n. 20 + n) (Some 1) demo_enqueue empty_db)"

definition demo_run_2 :: queue_db where
  "demo_run_2 = snd (claim_next_job demo_settings demo_run_request 100 (\<lambda>_ n. 500 + n) demo_run_1)"

lemma demo_run_step_1: "queue_step demo_settings 2 empty_db demo_run_1"
proof -
  let ?r = "enqueue_task 50 (\<lambda>_. None) 2 (\<lambda>n. 20 + n) (Some 1) demo_enqueue empty_db"
  have "\<not> isl ?r" by code_simp
  then obtain r db where r: "?r = Inr (r, db)" by (cases ?r) auto
  then have "demo_run_1 = db" by (simp add: demo_run_1_def rolled_back_def)
  with enqueued [OF r] show ?thesis by simp
qed

lemma demo_run_step_2: "queue_step demo_settings 2 demo_run_1 demo_run_2"
  unfolding demo_run_2_def by (rule claimed) (simp add: demo_run_request_def demo_request_def)

lemma demo_run: "(queue_step demo_settings 2)\<^sup>*\<^sup>* empty_db demo_run_2"
  by (rule rtranclp.rtrancl_into_rtrancl [where r = "queue_step demo_settings 2", OF
        r_into_rtranclp [where r = "queue_step demo_settings 2", OF demo_run_step_1] demo_run_step_2])

lemma demo_run_rows:
  "map l_slot_no (db_leases demo_run_2) = [0]" "map j_id (db_jobs demo_run_2) = [21, 22]"
  by code_simp+

lemma demo_run_claim:
  obtains c where "claim_next_job demo_settings demo_run_request 100 (\<lambda>_ n. 500 + n) demo_run_1 =
      (Inr (Some c), demo_run_2)" "j_id (c_job c) = 21"
proof -
  let ?r = "claim_next_job demo_settings demo_run_request 100 (\<lambda>_ n. 500 + n) demo_run_1"
  have "case fst ?r of Inr (Some c) \<Rightarrow> j_id (c_job c) = 21 | _ \<Rightarrow> False"
    by code_simp
  then obtain c where "fst ?r = Inr (Some c)" "j_id (c_job c) = 21"
    by (auto split: sum.splits option.splits)
  with that show ?thesis unfolding demo_run_2_def by (metis prod.collapse)
qed

text \<open>
  Property C5. Every state the queue reaches from the empty database, by any interleaving of
  all its operations, is well formed: unique keys, jobs with their task, lease columns set
  exactly on the jobs a worker holds, account leases that name an active job and its claim,
  and for every task the counters and the status its jobs determine.
\<close>

theorem reachable_states_well_formed:
  assumes "(queue_step cfg N)\<^sup>*\<^sup>* empty_db db"
  shows "store_ok db"
  using queue.reachable_invariant [OF refl assms] by (simp add: system_ok_def)

theorem reachable_states_well_formed_witness:
  "\<exists>db. (queue_step demo_settings 2)\<^sup>*\<^sup>* empty_db db \<and> map l_slot_no (db_leases db) = [0] \<and> store_ok db"
  by (intro exI [of _ demo_run_2] conjI demo_run demo_run_rows(1) reachable_states_well_formed [OF demo_run])

text \<open>
  Property C6. Account concurrency: if every worker claims with at most \<open>N\<close> slots per
  account, then in every reachable state an account holds at most \<open>N\<close> leases, and each of
  them belongs to a job that a worker holds under the token and version of that lease.
\<close>

theorem account_concurrency_bounded:
  assumes "(queue_step cfg N)\<^sup>*\<^sup>* empty_db db"
  shows "length (filter (\<lambda>l. l_account_id l = a) (db_leases db)) \<le> N \<and>
    (\<forall>l \<in> set (db_leases db). \<exists>j \<in> set (db_jobs db). j_id j = l_job_id l \<and> lease_matches j l)"
proof -
  have ok: "system_ok N db" by (rule queue.reachable_invariant [OF refl assms])
  then have "\<forall>l \<in> set (db_leases db). lease_ok db l"
    by (simp add: system_ok_def store_ok_def store_ok_except_def)
  with account_leases_bounded [OF ok] show ?thesis by (simp add: lease_ok_def)
qed

theorem account_concurrency_bounded_witness:
  "\<exists>db. (queue_step demo_settings 2)\<^sup>*\<^sup>* empty_db db \<and> length (db_leases db) = 1 \<and>
     length (filter (\<lambda>l. l_account_id l = 7) (db_leases db)) \<le> 2"
proof -
  have "length (db_leases demo_run_2) = 1"
    using demo_run_rows(1) by (metis length_Cons length_map list.size(3) One_nat_def)
  with account_concurrency_bounded [OF demo_run] demo_run show ?thesis by blast
qed

text \<open>
  Property C4. Refinement: whatever interleaving of operations runs while a job exists, its
  row moves along the abstract life cycle; the quota marks are never taken back, the lease
  version never decreases, and a canceled job stays canceled.
\<close>

theorem job_refines_lifecycle:
  assumes "store_ok db" and "job_row db i = Some j" and "(step_with_job cfg N i)\<^sup>*\<^sup>* db db'"
  shows "\<exists>k. job_row db' i = Some k \<and> lifecycle\<^sup>*\<^sup>* (phase_of j) (phase_of k) \<and>
    (j_quota_consumed j \<longrightarrow> j_quota_consumed k) \<and> (j_quota_accounted j \<longrightarrow> j_quota_accounted k) \<and>
    j_lease_version j \<le> j_lease_version k \<and> (j_status j = JCanceled \<longrightarrow> j_status k = JCanceled)"
proof -
  have present: "job_present i db" using assms(1,2) by (simp add: job_present_def)
  from run_keeps_present [OF assms(3) present] obtain k where k: "job_row db' i = Some k"
    by (auto simp: job_present_def)
  have row: "row_step j k" using run_row [OF assms(3) present] assms(2) k by (simp add: job_of_def)
  then have "j_lease_version j \<le> j_lease_version k"
    using version_mono [of "phase_of j" "phase_of k"] by (simp add: row_step_def)
  moreover have "j_status k = JCanceled" if "j_status j = JCanceled"
    using row that canceled_final [of "j_lease_version j" "phase_of k"]
    by (simp add: row_step_def phase_of_def split: if_splits)
  ultimately show ?thesis using k row by (auto simp: row_step_def)
qed

text \<open>The row of job 21 in the run, and after the failure of its claim.\<close>

definition demo_run_3 :: queue_db where
  "demo_run_3 = snd (fail_job 150
     (case fst (claim_next_job demo_settings demo_run_request 100 (\<lambda>_ n. 500 + n) demo_run_1) of
        Inr (Some c) \<Rightarrow> c | _ \<Rightarrow> demo_claim) ''e'' (MText ''m'') demo_run_2)"

lemma demo_run_3_rows:
  "map (\<lambda>j. (j_id j, j_status j)) (db_jobs demo_run_3) = [(21, JFailed), (22, JQueued)]"
  by code_simp

lemma demo_run_step_3: "step_with_job demo_settings 2 21 demo_run_2 demo_run_3"
proof -
  have "queue_step demo_settings 2 demo_run_2 (run_worker_op 150 (WFail ''e'' (MText ''m'')) c demo_run_2)" for c
    by (rule worked)
  moreover have "job_row demo_run_3 21 \<noteq> None" by code_simp
  ultimately show ?thesis by (simp add: step_with_job_def demo_run_3_def)
qed

text \<open>The witness of the refinement: the failure of the claimed job is a run of the life cycle.\<close>

theorem job_refines_lifecycle_witness:
  "\<exists>j k. job_row demo_run_2 21 = Some j \<and> job_row demo_run_3 21 = Some k \<and> j_status j = JLeased \<and>
     j_status k = JFailed \<and> lifecycle\<^sup>*\<^sup>* (phase_of j) (phase_of k)"
proof -
  have ok: "store_ok demo_run_2" by code_simp
  have "case job_row demo_run_2 21 of Some j \<Rightarrow> j_status j = JLeased | None \<Rightarrow> False" by code_simp
  then obtain j where j: "job_row demo_run_2 21 = Some j" "j_status j = JLeased"
    by (auto split: option.splits)
  have "case job_row demo_run_3 21 of Some k \<Rightarrow> j_status k = JFailed | None \<Rightarrow> False" by code_simp
  then obtain k where k: "job_row demo_run_3 21 = Some k" "j_status k = JFailed"
    by (auto split: option.splits)
  have "(step_with_job demo_settings 2 21)\<^sup>*\<^sup>* demo_run_2 demo_run_3"
    by (rule r_into_rtranclp [where r = "step_with_job demo_settings 2 21", OF demo_run_step_3])
  from job_refines_lifecycle [OF ok j(1) this] k have "lifecycle\<^sup>*\<^sup>* (phase_of j) (phase_of k)" by simp
  with j k show ?thesis by blast
qed

text \<open>
  Property C3. Fencing for ever: a claim that was handed out and has lost its job (settled,
  reclaimed, timed out, whatever ended it) never holds it again, through any later
  interleaving of operations during which the job exists; so every write under it is without
  effect from then on.
\<close>

theorem lost_claim_is_fenced_forever:
  assumes "store_ok db" and "claim_next_job cfg req clk tok db = (Inr (Some c), db1)"
    and "(step_with_job cfg' N (j_id (c_job c)))\<^sup>*\<^sup>* db1 db2" and "claimed_job_row db2 c = None"
    and "(step_with_job cfg' N (j_id (c_job c)))\<^sup>*\<^sup>* db2 db3"
  shows "claimed_job_row db3 c = None \<and> run_worker_op now w c db3 = db3"
proof -
  let ?i = "j_id (c_job c)"
  from claim_next_job_stands [OF assms(1,2)] obtain j where
    "claim_stands cfg req j c db1" and ok1: "store_ok db1" by blast
  then have row1: "job_row db1 ?i = Some (c_job c)" "j_lease_version (c_job c) = c_lease_version c"
    by (auto simp: claim_stands_def claim_for_def Let_def)
  then have p1: "job_present ?i db1" using ok1 by (simp add: job_present_def)
  have p2: "job_present ?i db2" by (rule run_keeps_present [OF assms(3) p1])
  have "c_lease_version c \<le> version_of (phase_of (job_of ?i db2))"
    using version_mono [OF life.simulates_run [OF assms(3) p1]] row1 by (simp add: job_of_def)
  from run_fences [OF p2 assms(4) this assms(5)] show ?thesis
    using run_worker_op_fenced by blast
qed

theorem lost_claim_is_fenced_forever_witness:
  "\<exists>c. claim_next_job demo_settings demo_run_request 100 (\<lambda>_ n. 500 + n) demo_run_1 =
      (Inr (Some c), demo_run_2) \<and>
     run_worker_op 200 (WComplete demo_descriptor empty_payload) c demo_run_3 = demo_run_3"
proof -
  obtain c where c: "claim_next_job demo_settings demo_run_request 100 (\<lambda>_ n. 500 + n) demo_run_1 =
      (Inr (Some c), demo_run_2)" "j_id (c_job c) = 21" by (rule demo_run_claim)
  have ok: "store_ok demo_run_1" by code_simp
  have ok2: "store_ok demo_run_2" by code_simp
  have "(step_with_job demo_settings 2 21)\<^sup>*\<^sup>* demo_run_2 demo_run_3"
    by (rule r_into_rtranclp [where r = "step_with_job demo_settings 2 21", OF demo_run_step_3])
  moreover have "demo_run_3 = run_worker_op 150 (WFail ''e'' (MText ''m'')) c demo_run_2"
    using c(1) by (simp add: demo_run_3_def)
  then have "claimed_job_row demo_run_3 c = None"
    using run_worker_op_ends [OF ok2, of 150 "WFail ''e'' (MText ''m'')" c] by simp
  ultimately have "run_worker_op 200 (WComplete demo_descriptor empty_payload) c demo_run_3 = demo_run_3"
    using lost_claim_is_fenced_forever [OF ok c(1), of demo_settings 2 demo_run_3 demo_run_3] c(2)
    by simp
  with c show ?thesis by blast
qed

end
